(* ===== verification/Prelude.thy ===== *)
theory Prelude
  imports Main "HOL-Library.Word" "HOL-Library.AList"
begin

section \<open>Prelude: shared types, automation and generic lemmas\<close>

text \<open>
  What every component theory shares: the types that stand for Go's built-in types, errors as
  values, Go maps as association lists with distinct keys, and an interface for invariants of
  step systems.

  \<^item> A Go \<^verbatim>\<open>string\<close> or \<^verbatim>\<open>[]byte\<close> is a sequence of bytes; HOL's \<^typ>\<open>char\<close> is a byte, so both are
    \<^typ>\<open>string\<close> here.
  \<^item> \<^verbatim>\<open>time.Time\<close> is an \<^typ>\<open>int\<close>, nanoseconds since the Unix epoch; \<^verbatim>\<open>time.Duration\<close> is an \<^typ>\<open>int\<close>
    in nanoseconds. \<open>time_sub\<close> saturates as \<^verbatim>\<open>Time.Sub\<close> does.
  \<^item> A function that returns \<^verbatim>\<open>(T, error)\<close> returns \<open>'e + 'a\<close>, \<open>Inl\<close> the error.
  \<^item> A Go map is an association list whose keys are distinct (\<open>gm_wf\<close>); no operation depends on
    its order. \<^verbatim>\<open>len(m)\<close> is \<^const>\<open>length\<close>, \<^verbatim>\<open>m[k]\<close> is \<^const>\<open>map_of\<close>.
\<close>

named_theorems result_simps \<open>inversion of the error-passing combinators\<close>
named_theorems gm_simps \<open>lookup after each operation on a Go map\<close>
named_theorems gm_wfI \<open>operations on a Go map keep its keys distinct\<close>

subsection \<open>Go's built-in types\<close>

type_synonym bytes = string
type_synonym time = int
type_synonym duration = int
type_synonym rune = nat

definition second :: duration where "second = 1000000000"
definition minute :: duration where "minute = 60 * second"

definition max_int64 :: int where "max_int64 = 2 ^ 63 - 1"
definition min_int64 :: int where "min_int64 = - (2 ^ 63)"

lemma int64_limits [simp]:
  "max_int64 = 9223372036854775807" "min_int64 = -9223372036854775808"
  by (simp_all add: max_int64_def min_int64_def)

lemma time_units [simp]: "second = 1000000000" "minute = 60000000000"
  by (simp_all add: second_def minute_def)

text \<open>Two's complement reduction to 64 bits, where a Go computation on \<^verbatim>\<open>int64\<close> may wrap.\<close>

definition wrap64 :: "int \<Rightarrow> int" where
  "wrap64 n = (n + 2 ^ 63) mod 2 ^ 64 - 2 ^ 63"

lemma wrap64_id: "min_int64 \<le> n \<Longrightarrow> n \<le> max_int64 \<Longrightarrow> wrap64 n = n"
  by (simp add: wrap64_def)

text \<open>\<^verbatim>\<open>Time.Sub\<close>: a difference outside the range of a \<^verbatim>\<open>Duration\<close> saturates.\<close>

definition time_sub :: "time \<Rightarrow> time \<Rightarrow> duration" where
  "time_sub t u = max min_int64 (min max_int64 (t - u))"

text \<open>The zero \<^verbatim>\<open>Time\<close>: January 1, year 1, 00:00 UTC.\<close>

definition zero_time :: time where
  "zero_time = -62135596800 * second"

text \<open>\<^verbatim>\<open>time.Unix(sec, 0)\<close>: the seconds are rebased to year 1 in 64-bit arithmetic.\<close>

definition unix_time :: "int \<Rightarrow> time" where
  "unix_time sec = (wrap64 (sec + 62135596800) - 62135596800) * second"

lemma unix_time_id: "0 \<le> sec \<Longrightarrow> sec \<le> 2 ^ 62 \<Longrightarrow> unix_time sec = sec * second"
  by (simp add: unix_time_def wrap64_id)

subsection \<open>Errors as values\<close>

definition bindR :: "'e + 'a \<Rightarrow> ('a \<Rightarrow> 'e + 'b) \<Rightarrow> 'e + 'b" where
  "bindR r f = (case r of Inl e \<Rightarrow> Inl e | Inr v \<Rightarrow> f v)"

definition guardR :: "bool \<Rightarrow> 'e \<Rightarrow> 'e + 'a \<Rightarrow> 'e + 'a" where
  "guardR b e r = (if b then Inl e else r)"

lemma bindR_simps [simp]: "bindR (Inl e) f = Inl e" "bindR (Inr v) f = f v"
  by (simp_all add: bindR_def)

lemma guardR_simps [simp]: "guardR True e r = Inl e" "guardR False e r = r"
  by (simp_all add: guardR_def)

lemma bindR_Inr_iff [result_simps]: "bindR r f = Inr y \<longleftrightarrow> (\<exists>x. r = Inr x \<and> f x = Inr y)"
  by (cases r) auto

lemma bindR_Inl_iff [result_simps]:
  "bindR r f = Inl e \<longleftrightarrow> r = Inl e \<or> (\<exists>x. r = Inr x \<and> f x = Inl e)"
  by (cases r) auto

lemma guardR_Inr_iff [result_simps]: "guardR b e r = Inr y \<longleftrightarrow> \<not> b \<and> r = Inr y"
  by (cases b) auto

lemma guardR_Inl_iff [result_simps]: "guardR b e r = Inl x \<longleftrightarrow> (if b then e = x else r = Inl x)"
  by (cases b) auto

subsection \<open>Programs with effects\<close>

text \<open>
  Code that runs commands, reads files or signals processes is a program over a world: the error or
  result, and the world after it. A loop over a list that stops at the first error is \<open>eachP\<close>.
\<close>

type_synonym ('w, 'e, 'a) prog = "'w \<Rightarrow> ('e + 'a) \<times> 'w"

definition returnP :: "'a \<Rightarrow> ('w, 'e, 'a) prog" where
  "returnP x = (\<lambda>w. (Inr x, w))"

definition failP :: "'e \<Rightarrow> ('w, 'e, 'a) prog" where
  "failP e = (\<lambda>w. (Inl e, w))"

definition liftP :: "'e + 'a \<Rightarrow> ('w, 'e, 'a) prog" where
  "liftP r = (\<lambda>w. (r, w))"

definition bindP :: "('w, 'e, 'a) prog \<Rightarrow> ('a \<Rightarrow> ('w, 'e, 'b) prog) \<Rightarrow> ('w, 'e, 'b) prog" where
  "bindP m f = (\<lambda>w. case m w of (Inl e, w') \<Rightarrow> (Inl e, w') | (Inr x, w') \<Rightarrow> f x w')"

text \<open>\<^verbatim>\<open>v, err := m; ... both used\<close>: the error is a value of the continuation.\<close>

definition tryP :: "('w, 'e, 'a) prog \<Rightarrow> ('e + 'a \<Rightarrow> ('w, 'e, 'b) prog) \<Rightarrow> ('w, 'e, 'b) prog" where
  "tryP m f = (\<lambda>w. case m w of (r, w') \<Rightarrow> f r w')"

fun eachP :: "('a \<Rightarrow> ('w, 'e, unit) prog) \<Rightarrow> 'a list \<Rightarrow> ('w, 'e, unit) prog" where
  "eachP f [] = returnP ()"
| "eachP f (x # xs) = bindP (f x) (\<lambda>_. eachP f xs)"

lemma returnP_apply [simp]: "returnP x w = (Inr x, w)"
  by (simp add: returnP_def)

lemma failP_apply [simp]: "failP e w = (Inl e, w)"
  by (simp add: failP_def)

lemma liftP_apply [simp]: "liftP r w = (r, w)"
  by (simp add: liftP_def)

lemma bindP_apply: "bindP m f w = (case m w of (Inl e, w') \<Rightarrow> (Inl e, w') | (Inr x, w') \<Rightarrow> f x w')"
  by (simp add: bindP_def)

lemma tryP_apply: "tryP m f w = (case m w of (r, w') \<Rightarrow> f r w')"
  by (simp add: tryP_def)

lemma bindP_Inr_iff [result_simps]:
  "bindP m f w = (Inr y, w') \<longleftrightarrow> (\<exists>x w1. m w = (Inr x, w1) \<and> f x w1 = (Inr y, w'))"
  by (auto simp: bindP_def split: prod.splits sum.splits)

lemma bindP_ret [simp]: "bindP (returnP x) f = f x" "bindP (failP e) f = failP e"
  by (auto simp: bindP_def returnP_def failP_def)

text \<open>
  A triple: from a state with \<open>P\<close>, the outcome and the state after the program satisfy \<open>Q\<close>.
\<close>

definition triple :: "('w \<Rightarrow> bool) \<Rightarrow> ('w, 'e, 'a) prog \<Rightarrow> ('e + 'a \<Rightarrow> 'w \<Rightarrow> bool) \<Rightarrow> bool" where
  "triple P m Q \<longleftrightarrow> (\<forall>w. P w \<longrightarrow> Q (fst (m w)) (snd (m w)))"

lemma tripleI: "(\<And>w. P w \<Longrightarrow> Q (fst (m w)) (snd (m w))) \<Longrightarrow> triple P m Q"
  by (simp add: triple_def)

lemma tripleD: "triple P m Q \<Longrightarrow> P w \<Longrightarrow> m w = (r, w') \<Longrightarrow> Q r w'"
  by (force simp: triple_def)

lemma triple_conseq:
  "triple P' m Q' \<Longrightarrow> (\<And>w. P w \<Longrightarrow> P' w) \<Longrightarrow> (\<And>r w. Q' r w \<Longrightarrow> Q r w) \<Longrightarrow> triple P m Q"
  by (simp add: triple_def)

lemma triple_bind:
  assumes "triple P m R" "\<And>x. triple (R (Inr x)) (f x) Q" "\<And>e w. R (Inl e) w \<Longrightarrow> Q (Inl e) w"
  shows "triple P (bindP m f) Q"
  using assms by (auto simp: triple_def bindP_def split: prod.splits sum.splits)

lemma triple_try:
  assumes "triple P m R" "\<And>r. triple (R r) (f r) Q"
  shows "triple P (tryP m f) Q"
  using assms by (auto simp: triple_def tryP_def split: prod.splits)

lemma triple_each:
  assumes "\<And>x. x \<in> set xs \<Longrightarrow> triple P (f x) (\<lambda>_. P)"
  shows "triple P (eachP f xs) (\<lambda>_. P)"
  using assms
proof (induction xs)
  case (Cons x xs)
  then show ?case by (auto intro!: triple_bind [of P "f x" "\<lambda>_. P"])
qed (simp add: triple_def)

subsection \<open>Go maps\<close>

type_synonym ('k, 'v) gomap = "('k \<times> 'v) list"

definition gm_wf :: "('k, 'v) gomap \<Rightarrow> bool" where
  "gm_wf m \<longleftrightarrow> distinct (map fst m)"

text \<open>
  \<^verbatim>\<open>m[k] = v\<close>, \<^verbatim>\<open>delete(m, k)\<close>, and the loop \<^verbatim>\<open>for k, v := range m { if P { delete(m, k) } }\<close>,
  which Go defines to visit every entry that is not deleted before it is reached.
\<close>

definition gm_put :: "'k \<Rightarrow> 'v \<Rightarrow> ('k, 'v) gomap \<Rightarrow> ('k, 'v) gomap" where
  "gm_put k v m = AList.update k v m"

definition gm_del :: "'k \<Rightarrow> ('k, 'v) gomap \<Rightarrow> ('k, 'v) gomap" where
  "gm_del k m = filter (\<lambda>e. fst e \<noteq> k) m"

definition gm_drop :: "('k \<Rightarrow> 'v \<Rightarrow> bool) \<Rightarrow> ('k, 'v) gomap \<Rightarrow> ('k, 'v) gomap" where
  "gm_drop P m = filter (\<lambda>e. \<not> P (fst e) (snd e)) m"

definition gm_count :: "('v \<Rightarrow> bool) \<Rightarrow> ('k, 'v) gomap \<Rightarrow> nat" where
  "gm_count P m = length (filter (\<lambda>e. P (snd e)) m)"

definition gm_sum :: "('v \<Rightarrow> int) \<Rightarrow> ('k, 'v) gomap \<Rightarrow> int" where
  "gm_sum f m = sum_list (map (\<lambda>e. f (snd e)) m)"

lemma map_of_filter_wf:
  "gm_wf m \<Longrightarrow> map_of (filter P m) k =
     (case map_of m k of None \<Rightarrow> None | Some v \<Rightarrow> if P (k, v) then Some v else None)"
  by (induction m) (auto simp: gm_wf_def map_of_eq_None_iff rev_image_eqI split: option.splits)

lemma gm_put_map_of [gm_simps]: "map_of (gm_put k v m) = (map_of m)(k \<mapsto> v)"
  by (simp add: gm_put_def update_conv')

lemma gm_del_map_of [gm_simps]: "map_of (gm_del k m) = (map_of m)(k := None)"
  unfolding gm_del_def by (induction m) auto

lemma gm_drop_map_of [gm_simps]:
  "gm_wf m \<Longrightarrow> map_of (gm_drop P m) k =
     (case map_of m k of None \<Rightarrow> None | Some v \<Rightarrow> if P k v then None else Some v)"
  by (auto simp: gm_drop_def map_of_filter_wf split: option.splits)

lemma gm_wf_Nil [gm_wfI, simp]: "gm_wf []"
  by (simp add: gm_wf_def)

lemma gm_wf_put [gm_wfI]: "gm_wf m \<Longrightarrow> gm_wf (gm_put k v m)"
  by (simp add: gm_wf_def gm_put_def distinct_update)

lemma gm_wf_filter [gm_wfI]: "gm_wf m \<Longrightarrow> gm_wf (filter P m)"
  by (simp add: gm_wf_def distinct_map_filter)

lemma gm_wf_del [gm_wfI]: "gm_wf m \<Longrightarrow> gm_wf (gm_del k m)"
  by (simp add: gm_del_def gm_wf_filter)

lemma gm_wf_drop [gm_wfI]: "gm_wf m \<Longrightarrow> gm_wf (gm_drop P m)"
  by (simp add: gm_drop_def gm_wf_filter)

lemma gm_mem_iff: "gm_wf m \<Longrightarrow> (k, v) \<in> set m \<longleftrightarrow> map_of m k = Some v"
  by (simp add: gm_wf_def map_of_eq_Some_iff)

lemma gm_put_fresh: "map_of m k = None \<Longrightarrow> gm_put k v m = m @ [(k, v)]"
  unfolding gm_put_def by (induction m) (auto split: if_splits)

lemma gm_del_absent: "map_of m k = None \<Longrightarrow> gm_del k m = m"
  unfolding gm_del_def by (induction m) (auto split: if_splits)

lemma gm_drop_set: "set (gm_drop P m) = {e \<in> set m. \<not> P (fst e) (snd e)}"
  by (auto simp: gm_drop_def)

lemma gm_del_subset: "set (gm_del k m) \<subseteq> set m"
  by (auto simp: gm_del_def)

lemma gm_put_set: "gm_wf m \<Longrightarrow> set (gm_put k v m) = insert (k, v) {e \<in> set m. fst e \<noteq> k}"
proof -
  assume wf: "gm_wf m"
  then have "map_of (gm_put k v m) = (map_of m)(k \<mapsto> v)" by (simp add: gm_put_map_of)
  moreover have "gm_wf (gm_put k v m)" using wf by (rule gm_wf_put)
  ultimately show ?thesis
    using wf by (auto simp: gm_mem_iff split: if_splits)
qed

lemma gm_del_length: "length (gm_del k m) \<le> length m"
  by (simp add: gm_del_def)

lemma gm_drop_length: "length (gm_drop P m) \<le> length m"
  by (simp add: gm_drop_def)

lemma gm_count_drop: "gm_count Q (gm_drop P m) \<le> gm_count Q m"
  unfolding gm_count_def gm_drop_def by (induction m) auto

lemma gm_count_del: "gm_count Q (gm_del k m) \<le> gm_count Q m"
  unfolding gm_count_def gm_del_def by (induction m) auto

lemma gm_count_put_fresh:
  "map_of m k = None \<Longrightarrow> gm_count Q (gm_put k v m) = gm_count Q m + (if Q v then 1 else 0)"
  by (simp add: gm_count_def gm_put_fresh)

lemma gm_put_length_fresh: "map_of m k = None \<Longrightarrow> length (gm_put k v m) = Suc (length m)"
  by (simp add: gm_put_fresh)

lemma gm_put_length_present: "map_of m k = Some u \<Longrightarrow> length (gm_put k v m) = length m"
  unfolding gm_put_def by (induction m) (auto split: if_splits)

lemma gm_sum_put_fresh: "map_of m k = None \<Longrightarrow> gm_sum f (gm_put k v m) = gm_sum f m + f v"
  by (simp add: gm_sum_def gm_put_fresh)

lemma gm_sum_put_same:
  "map_of m k = Some u \<Longrightarrow> f v = f u \<Longrightarrow> gm_sum f (gm_put k v m) = gm_sum f m"
  unfolding gm_sum_def gm_put_def by (induction m) (auto split: if_splits)

lemma gm_count_put_same:
  "map_of m k = Some u \<Longrightarrow> Q v = Q u \<Longrightarrow> gm_count Q (gm_put k v m) = gm_count Q m"
  unfolding gm_count_def gm_put_def by (induction m) (auto split: if_splits)

lemma gm_sum_del:
  "gm_wf m \<Longrightarrow> map_of m k = Some v \<Longrightarrow> gm_sum f (gm_del k m) = gm_sum f m - f v"
proof (induction m)
  case (Cons e m)
  obtain a b where e: "e = (a, b)" by fastforce
  have "gm_del k m = m" if "a = k"
    using Cons.prems that e by (intro gm_del_absent) (auto simp: gm_wf_def map_of_eq_None_iff)
  with Cons e show ?case
    by (auto simp: gm_sum_def gm_del_def gm_wf_def split: if_splits)
qed simp

lemma gm_sum_put:
  "gm_wf m \<Longrightarrow> gm_sum f (gm_put k v m) =
     gm_sum f m + f v - (case map_of m k of None \<Rightarrow> 0 | Some u \<Rightarrow> f u)"
proof (induction m)
  case (Cons e m)
  then show ?case
    by (cases e) (auto simp: gm_sum_def gm_put_def gm_wf_def split: option.splits)
qed (simp add: gm_sum_def gm_put_def)

lemma gm_sum_del_le:
  "(\<And>e. e \<in> set m \<Longrightarrow> 0 \<le> f (snd e)) \<Longrightarrow> gm_sum f (gm_del k m) \<le> gm_sum f m"
  unfolding gm_sum_def gm_del_def by (induction m) (auto simp: add_increasing)

lemma gm_sum_nonneg: "(\<And>e. e \<in> set m \<Longrightarrow> 0 \<le> f (snd e)) \<Longrightarrow> 0 \<le> gm_sum f m"
  unfolding gm_sum_def by (induction m) auto

subsection \<open>Invariants of step systems\<close>

text \<open>
  The components with state are step systems: an initial state and a transition relation whose
  steps are the operations that other components call. A predicate that holds at the start and
  that every step keeps holds in every reachable state.
\<close>

locale step_system =
  fixes init :: "'s \<Rightarrow> bool"
    and step :: "'s \<Rightarrow> 's \<Rightarrow> bool"
    and inv :: "'s \<Rightarrow> bool"
  assumes inv_init: "init s \<Longrightarrow> inv s"
    and inv_step: "inv s \<Longrightarrow> step s t \<Longrightarrow> inv t"
begin

lemma inv_reachable:
  assumes "init s" and "step\<^sup>*\<^sup>* s t"
  shows "inv t"
  using assms(2) inv_init [OF assms(1)]
  by (induction rule: rtranclp_induct) (auto intro: inv_step)

end

subsection \<open>Stores whose entries are purged by owner\<close>

text \<open>
  The in-memory stores that hold data on behalf of a login or a managed session offer a purge of
  the entries of one owner. Logout and session termination rely on the laws below: nothing of the
  owner is left, nothing of anybody else is lost.
\<close>

locale purgeable_store =
  fixes entries :: "'s \<Rightarrow> ('k, 'v) gomap"
    and purge :: "('v \<Rightarrow> bool) \<Rightarrow> 's \<Rightarrow> 's"
    and wf :: "'s \<Rightarrow> bool"
  assumes entries_wf: "wf s \<Longrightarrow> gm_wf (entries s)"
    and entries_purge: "wf s \<Longrightarrow> entries (purge P s) = gm_drop (\<lambda>_. P) (entries s)"
    and wf_purge: "wf s \<Longrightarrow> wf (purge P s)"
begin

lemma purge_lookup:
  assumes "wf s"
  shows "map_of (entries (purge P s)) k =
     (case map_of (entries s) k of None \<Rightarrow> None | Some v \<Rightarrow> if P v then None else Some v)"
  using assms by (simp add: entries_purge gm_drop_map_of entries_wf)

lemma purge_gone: "wf s \<Longrightarrow> map_of (entries (purge P s)) k = Some v \<Longrightarrow> \<not> P v"
  by (simp add: purge_lookup split: option.splits if_splits)

lemma purge_kept:
  "wf s \<Longrightarrow> \<not> P v \<Longrightarrow>
     map_of (entries (purge P s)) k = Some v \<longleftrightarrow> map_of (entries s) k = Some v"
  by (auto simp: purge_lookup split: option.splits if_splits)

lemma purge_count: "wf s \<Longrightarrow> gm_count P (entries (purge P s)) = 0"
  by (auto simp: gm_count_def entries_purge gm_drop_def filter_empty_conv)

end

end
