(* ===== verification/Go_Strings.thy ===== *)
theory Go_Strings
  imports Prelude
begin

section \<open>Go's strings and strconv packages\<close>

text \<open>
  The functions of Go's standard library on byte strings that the program calls, and the anchored
  regular expressions it matches identifiers with. Separators are single bytes everywhere in the
  program, so \<open>split\<close>, \<open>splitn\<close> and \<open>cut\<close> take a character.

  \<open>to_lower\<close> and \<open>equal_fold\<close> decide, for every byte string, whether it lowers (folds) to a given
  ASCII literal: they map the ASCII letters and the only other code points whose simple lower case
  (fold) is an ASCII letter, U+0130 and U+212A (U+017F and U+212A), and leave the bytes of every
  other rune alone, which no ASCII literal contains.
\<close>

subsection \<open>Bytes\<close>

abbreviation byte :: "char \<Rightarrow> nat" where
  "byte c \<equiv> of_char c"

lemma byte_less [simp]: "byte c < 256"
  using of_char_mod_256 [of c] by (metis mod_less_divisor zero_less_numeral)

lemma byte_char_of [simp]: "n < 256 \<Longrightarrow> byte (char_of n) = (n::nat)"
  by (simp add: of_char_of)

definition is_upper :: "char \<Rightarrow> bool" where "is_upper c \<longleftrightarrow> 65 \<le> byte c \<and> byte c \<le> 90"
definition is_lower :: "char \<Rightarrow> bool" where "is_lower c \<longleftrightarrow> 97 \<le> byte c \<and> byte c \<le> 122"
definition is_digit :: "char \<Rightarrow> bool" where "is_digit c \<longleftrightarrow> 48 \<le> byte c \<and> byte c \<le> 57"
definition is_alnum :: "char \<Rightarrow> bool" where "is_alnum c \<longleftrightarrow> is_upper c \<or> is_lower c \<or> is_digit c"

text \<open>The class \<^verbatim>\<open>[A-Za-z0-9_-]\<close>, the alphabet of unpadded URL-safe base64.\<close>

definition is_url64 :: "char \<Rightarrow> bool" where
  "is_url64 c \<longleftrightarrow> is_alnum c \<or> c = CHR ''_'' \<or> c = CHR ''-''"

lemmas char_class_defs = is_upper_def is_lower_def is_digit_def is_alnum_def is_url64_def

text \<open>The value of a hexadecimal digit.\<close>

definition hexval :: "char \<Rightarrow> nat option" where
  "hexval c = (if is_digit c then Some (byte c - 48)
     else if 97 \<le> byte c \<and> byte c \<le> 102 then Some (byte c - 87)
     else if 65 \<le> byte c \<and> byte c \<le> 70 then Some (byte c - 55) else None)"

subsection \<open>Prefixes, suffixes, splitting and joining\<close>

definition has_prefix :: "string \<Rightarrow> string \<Rightarrow> bool" where
  "has_prefix s p \<longleftrightarrow> take (length p) s = p"

definition has_suffix :: "string \<Rightarrow> string \<Rightarrow> bool" where
  "has_suffix s p \<longleftrightarrow> length p \<le> length s \<and> drop (length s - length p) s = p"

definition trim_prefix :: "string \<Rightarrow> string \<Rightarrow> string" where
  "trim_prefix s p = (if has_prefix s p then drop (length p) s else s)"

definition trim_suffix :: "string \<Rightarrow> string \<Rightarrow> string" where
  "trim_suffix s p = (if has_suffix s p then take (length s - length p) s else s)"

fun split :: "string \<Rightarrow> char \<Rightarrow> string list" where
  "split [] c = [[]]"
| "split (x # s) c =
     (if x = c then [] # split s c
      else case split s c of [] \<Rightarrow> [[x]] | h # t \<Rightarrow> (x # h) # t)"

fun splitn :: "string \<Rightarrow> char \<Rightarrow> nat \<Rightarrow> string list" where
  "splitn [] c n = [[]]"
| "splitn (x # s) c n =
     (if n \<le> 1 then [x # s]
      else if x = c then [] # splitn s c (n - 1)
      else case splitn s c n of [] \<Rightarrow> [[x]] | h # t \<Rightarrow> (x # h) # t)"

fun join :: "string list \<Rightarrow> string \<Rightarrow> string" where
  "join [] sep = []"
| "join [x] sep = x"
| "join (x # y # ys) sep = x @ sep @ join (y # ys) sep"

fun cut :: "string \<Rightarrow> char \<Rightarrow> (string \<times> string) option" where
  "cut [] c = None"
| "cut (x # s) c =
     (if x = c then Some ([], s) else map_option (\<lambda>(a, b). (x # a, b)) (cut s c))"

lemma has_prefix_append [simp]: "has_prefix (p @ s) p"
  by (simp add: has_prefix_def)

lemma has_prefix_iff: "has_prefix s p \<longleftrightarrow> (\<exists>t. s = p @ t)"
  unfolding has_prefix_def by (metis append_eq_conv_conj append_take_drop_id)

lemma has_suffix_iff: "has_suffix s p \<longleftrightarrow> (\<exists>t. s = t @ p)"
proof
  assume "has_suffix s p"
  then show "\<exists>t. s = t @ p"
    unfolding has_suffix_def by (metis append_take_drop_id)
qed (auto simp: has_suffix_def)

lemma trim_prefix_append [simp]: "trim_prefix (p @ s) p = s"
  by (simp add: trim_prefix_def)

lemma trim_suffix_append [simp]: "trim_suffix (s @ p) p = s"
  by (auto simp: trim_suffix_def has_suffix_iff)

lemma trim_prefix_eq_self: "trim_prefix s p = s \<longleftrightarrow> p = [] \<or> \<not> has_prefix s p"
  by (auto simp: trim_prefix_def has_prefix_iff)

lemma split_nonempty [simp]: "split s c \<noteq> []"
  by (cases s) (auto split: list.splits)

lemma join_split: "join (split s c) [c] = s"
proof (induction s)
  case (Cons x s)
  then show ?case by (cases "split s c"; cases "tl (split s c)") auto
qed simp

lemma split_no_sep: "t \<in> set (split s c) \<Longrightarrow> c \<notin> set t"
proof (induction s arbitrary: t)
  case (Cons x s)
  then show ?case by (cases "split s c") (auto split: if_splits)
qed simp

lemma split_single: "c \<notin> set s \<Longrightarrow> split s c = [s]"
  by (induction s) auto

lemma split_append: "c \<notin> set a \<Longrightarrow> split (a @ c # s) c = a # split s c"
  by (induction a) auto

lemma split_join:
  "xs \<noteq> [] \<Longrightarrow> (\<And>x. x \<in> set xs \<Longrightarrow> c \<notin> set x) \<Longrightarrow> split (join xs [c]) c = xs"
proof (induction xs "[c]" rule: join.induct)
  case (3 x y ys)
  then show ?case by (simp add: split_append)
qed (auto simp: split_single)

lemma cut_append: "c \<notin> set a \<Longrightarrow> cut (a @ c # b) c = Some (a, b)"
  by (induction a) auto

lemma cut_SomeD: "cut s c = Some (a, b) \<Longrightarrow> s = a @ c # b \<and> c \<notin> set a"
  by (induction s arbitrary: a b) (auto split: if_splits)

lemma cut_None_iff: "cut s c = None \<longleftrightarrow> c \<notin> set s"
  by (induction s) auto

subsection \<open>Unicode white space, case\<close>

text \<open>
  \<^verbatim>\<open>unicode.IsSpace\<close> on UTF-8: the encodings of its runes. A leading (trailing) rune is white
  space exactly when one of them is a prefix (suffix) of the string.
\<close>

definition space_encodings :: "string list" where
  "space_encodings =
     [[CHR 0x09], [CHR 0x0A], [CHR 0x0B], [CHR 0x0C], [CHR 0x0D], [CHR 0x20],
      [CHR 0xC2, CHR 0x85], [CHR 0xC2, CHR 0xA0], [CHR 0xE1, CHR 0x9A, CHR 0x80],
      [CHR 0xE2, CHR 0x80, CHR 0x80], [CHR 0xE2, CHR 0x80, CHR 0x81],
      [CHR 0xE2, CHR 0x80, CHR 0x82], [CHR 0xE2, CHR 0x80, CHR 0x83],
      [CHR 0xE2, CHR 0x80, CHR 0x84], [CHR 0xE2, CHR 0x80, CHR 0x85],
      [CHR 0xE2, CHR 0x80, CHR 0x86], [CHR 0xE2, CHR 0x80, CHR 0x87],
      [CHR 0xE2, CHR 0x80, CHR 0x88], [CHR 0xE2, CHR 0x80, CHR 0x89],
      [CHR 0xE2, CHR 0x80, CHR 0x8A], [CHR 0xE2, CHR 0x80, CHR 0xA8],
      [CHR 0xE2, CHR 0x80, CHR 0xA9], [CHR 0xE2, CHR 0x80, CHR 0xAF],
      [CHR 0xE2, CHR 0x81, CHR 0x9F], [CHR 0xE3, CHR 0x80, CHR 0x80]]"

definition leading_space :: "string list \<Rightarrow> string \<Rightarrow> nat" where
  "leading_space encs s = (case find (has_prefix s) encs of None \<Rightarrow> 0 | Some e \<Rightarrow> length e)"

function trim_leading :: "string list \<Rightarrow> string \<Rightarrow> string" where
  "trim_leading encs s =
     (let n = leading_space encs s in
      if n = 0 \<or> s = [] then s else trim_leading encs (drop n s))"
  by pat_completeness auto
termination by (relation "measure (\<lambda>(e, s). length s)") auto

declare trim_leading.simps [simp del]

definition trim_space :: "string \<Rightarrow> string" where
  "trim_space s =
     rev (trim_leading (map rev space_encodings) (rev (trim_leading space_encodings s)))"

text \<open>\<^verbatim>\<open>strings.Trim\<close>, \<^verbatim>\<open>strings.TrimRight\<close> with a cutset of single bytes.\<close>

definition trim_right_set :: "string \<Rightarrow> char list \<Rightarrow> string" where
  "trim_right_set s cs = rev (dropWhile (\<lambda>c. c \<in> set cs) (rev s))"

definition trim_set :: "string \<Rightarrow> char list \<Rightarrow> string" where
  "trim_set s cs = trim_right_set (dropWhile (\<lambda>c. c \<in> set cs) s) cs"

text \<open>\<^verbatim>\<open>strings.Fields\<close>: the maximal runs of bytes that hold no white space.\<close>

function str_fields_from :: "string \<Rightarrow> string \<Rightarrow> string list" where
  "str_fields_from acc s =
     (if s = [] then (if acc = [] then [] else [acc])
      else let n = leading_space space_encodings s in
        if n = 0 then str_fields_from (acc @ [hd s]) (tl s)
        else (if acc = [] then [] else [acc]) @ str_fields_from [] (drop n s))"
  by pat_completeness auto
termination by (relation "measure (\<lambda>(a, s). length s)") auto

declare str_fields_from.simps [simp del]

definition str_fields :: "string \<Rightarrow> string list" where
  "str_fields s = str_fields_from [] s"

definition lower_char :: "char \<Rightarrow> char" where
  "lower_char c = (if is_upper c then char_of (byte c + 32) else c)"

fun map_case :: "(string \<times> char) list \<Rightarrow> string \<Rightarrow> string" where
  "map_case special [] = []"
| "map_case special (c # s) =
     (case find (\<lambda>e. has_prefix (c # s) (fst e)) special of
        None \<Rightarrow> lower_char c # map_case special s
      | Some (e, d) \<Rightarrow> d # map_case special (drop (length e - 1) s))"

definition kelvin_sign :: string where "kelvin_sign = [CHR 0xE2, CHR 0x84, CHR 0xAA]"
definition dotted_capital_i :: string where "dotted_capital_i = [CHR 0xC4, CHR 0xB0]"
definition long_s :: string where "long_s = [CHR 0xC5, CHR 0xBF]"

definition to_lower :: "string \<Rightarrow> string" where
  "to_lower s = map_case [(kelvin_sign, CHR ''k''), (dotted_capital_i, CHR ''i'')] s"

definition equal_fold :: "string \<Rightarrow> string \<Rightarrow> bool" where
  "equal_fold s t \<longleftrightarrow>
     map_case [(kelvin_sign, CHR ''k''), (long_s, CHR ''s'')] s =
     map_case [(kelvin_sign, CHR ''k''), (long_s, CHR ''s'')] t"

lemma trim_leading_length: "length (trim_leading encs s) \<le> length s"
proof (induction encs s rule: trim_leading.induct)
  case (1 encs s)
  then show ?case
    by (subst trim_leading.simps) (force simp: Let_def dest: order_trans)
qed

lemma trim_space_length: "length (trim_space s) \<le> length s"
  unfolding trim_space_def
  by (metis length_rev order_trans trim_leading_length)

lemma trim_leading_id: "leading_space encs s = 0 \<Longrightarrow> trim_leading encs s = s"
  by (subst trim_leading.simps) simp

lemma trim_space_Nil [simp]: "trim_space [] = []"
  by (simp add: trim_space_def trim_leading.simps)

text \<open>A printable ASCII string without blanks at its ends is its own trimming.\<close>

lemma space_encodings_ends:
  "list_all (\<lambda>e. e \<noteq> [] \<and> (byte (hd e) \<le> 32 \<or> 128 \<le> byte (hd e)) \<and>
     (byte (last e) \<le> 32 \<or> 128 \<le> byte (last e))) space_encodings"
  by (simp add: space_encodings_def)

lemma has_prefix_hd: "has_prefix (c # s) e \<Longrightarrow> e \<noteq> [] \<Longrightarrow> hd e = c"
  by (auto simp: has_prefix_iff neq_Nil_conv)

lemma leading_space_graph:
  assumes "32 < byte c" "byte c < 128"
  shows "leading_space space_encodings (c # s) = 0"
    and "leading_space (map rev space_encodings) (c # s) = 0"
proof -
  have ends: "e \<noteq> [] \<and> hd e \<noteq> c \<and> last e \<noteq> c" if "e \<in> set space_encodings" for e
    using space_encodings_ends that assms by (fastforce simp: list_all_iff)
  show "leading_space space_encodings (c # s) = 0"
    using ends by (auto simp: leading_space_def dest: has_prefix_hd split: option.splits
        simp: find_Some_iff)
       (metis has_prefix_hd nth_mem)
  show "leading_space (map rev space_encodings) (c # s) = 0"
    using ends by (auto simp: leading_space_def find_Some_iff split: option.splits)
      (metis has_prefix_hd hd_rev nth_mem rev_is_Nil_conv)
qed

lemma trim_space_graph:
  assumes "s \<noteq> []" "32 < byte (hd s)" "byte (hd s) < 128" "32 < byte (last s)" "byte (last s) < 128"
  shows "trim_space s = s"
proof -
  have "trim_leading space_encodings s = s"
    using assms by (intro trim_leading_id) (cases s, auto simp: leading_space_graph)
  moreover have "trim_leading (map rev space_encodings) (rev s) = rev s"
    using assms by (intro trim_leading_id)
      (cases "rev s", auto simp: leading_space_graph hd_rev [symmetric])
  ultimately show ?thesis by (simp add: trim_space_def)
qed

lemma leading_space_linefeed: "leading_space (map rev space_encodings) (CHR 0x0A # s) = 1"
  by (simp add: leading_space_def space_encodings_def has_prefix_def)

lemma trim_space_linefeed:
  assumes "s \<noteq> []" "32 < byte (hd s)" "byte (hd s) < 128" "32 < byte (last s)" "byte (last s) < 128"
  shows "trim_space (s @ [CHR 0x0A]) = s"
proof -
  have "trim_leading space_encodings (s @ [CHR 0x0A]) = s @ [CHR 0x0A]"
    using assms by (intro trim_leading_id) (cases s, auto simp: leading_space_graph)
  moreover have "trim_leading (map rev space_encodings) (rev s) = rev s"
    using assms by (intro trim_leading_id)
      (cases "rev s", auto simp: leading_space_graph hd_rev [symmetric])
  ultimately show ?thesis
    by (simp add: trim_space_def trim_leading.simps [of _ "_ # _"] leading_space_linefeed)
qed

subsection \<open>Decimal integers\<close>

definition digit_val :: "char \<Rightarrow> nat" where
  "digit_val c = byte c - 48"

definition parse_digits :: "string \<Rightarrow> nat option" where
  "parse_digits s =
     (if s \<noteq> [] \<and> list_all is_digit s then Some (foldl (\<lambda>a c. a * 10 + digit_val c) 0 s)
      else None)"

text \<open>\<^verbatim>\<open>strconv.ParseInt(s, 10, 64)\<close>, and \<^verbatim>\<open>strconv.Atoi\<close> on a 64-bit platform.\<close>

definition parse_int :: "string \<Rightarrow> int option" where
  "parse_int s =
     (let neg = (s \<noteq> [] \<and> hd s = CHR ''-'');
          body = (if s \<noteq> [] \<and> (hd s = CHR ''-'' \<or> hd s = CHR ''+'') then tl s else s)
      in case parse_digits body of
           None \<Rightarrow> None
         | Some n \<Rightarrow>
             (let v = (if neg then - int n else int n) in
              if min_int64 \<le> v \<and> v \<le> max_int64 then Some v else None))"

fun digits :: "nat \<Rightarrow> string" where
  "digits n =
     (if n < 10 then [char_of (48 + n)] else digits (n div 10) @ [char_of (48 + n mod 10)])"

declare digits.simps [simp del]

definition itoa :: "int \<Rightarrow> string" where
  "itoa n = (if n < 0 then CHR ''-'' # digits (nat (- n)) else digits (nat n))"

lemma is_digit_char_of [simp]: "n < (10::nat) \<Longrightarrow> is_digit (char_of (48 + n))"
  by (simp add: is_digit_def)

lemma digit_val_char_of [simp]: "n < (10::nat) \<Longrightarrow> digit_val (char_of (48 + n)) = n"
  by (simp add: digit_val_def)

lemma digits_nonempty [simp]: "digits n \<noteq> []"
  by (subst digits.simps) simp

lemma digits_all_digit: "list_all is_digit (digits n)"
proof (induction n rule: digits.induct)
  case (1 n)
  then show ?case
    by (subst digits.simps) auto
qed

lemma foldl_digits: "foldl (\<lambda>a c. a * 10 + digit_val c) 0 (digits n) = n"
proof (induction n rule: digits.induct)
  case (1 n)
  then show ?case
    by (subst digits.simps) (auto simp: digit_val_def)
qed

lemma parse_digits_digits [simp]: "parse_digits (digits n) = Some n"
  by (simp add: parse_digits_def digits_all_digit foldl_digits)

lemma hd_digits: "is_digit (hd (digits n))"
  using digits_all_digit [of n] digits_nonempty [of n] by (cases "digits n") auto

lemma digit_not_sign: "is_digit c \<Longrightarrow> c \<noteq> CHR ''-'' \<and> c \<noteq> CHR ''+''"
  by (auto simp: is_digit_def)

lemma parse_int_itoa:
  assumes "min_int64 \<le> n" "n \<le> max_int64"
  shows "parse_int (itoa n) = Some n"
  using assms digit_not_sign [OF hd_digits]
  by (auto simp: parse_int_def itoa_def Let_def)

lemma parse_int_range: "parse_int s = Some n \<Longrightarrow> min_int64 \<le> n \<and> n \<le> max_int64"
  by (auto simp: parse_int_def Let_def split: option.splits if_splits)

lemma itoa_chars: "c \<in> set (itoa n) \<Longrightarrow> is_digit c \<or> c = CHR ''-''"
  using digits_all_digit by (auto simp: itoa_def list_all_iff split: if_splits)

lemma is_digit_graph: "is_digit c \<Longrightarrow> 32 < byte c \<and> byte c < 128"
  by (simp add: is_digit_def)

lemma last_digits: "is_digit (last (digits n))"
  using digits_all_digit [of n] digits_nonempty [of n] by (simp add: list_all_iff)

lemma itoa_nonneg: "0 \<le> n \<Longrightarrow> itoa n \<noteq> [] \<and> list_all is_digit (itoa n) \<and> is_digit (hd (itoa n)) \<and> is_digit (last (itoa n))"
  by (simp add: itoa_def digits_all_digit hd_digits last_digits)

lemma itoa_no_char: "\<not> is_digit c \<Longrightarrow> c \<noteq> CHR ''-'' \<Longrightarrow> c \<notin> set (itoa n)"
  using itoa_chars by blast

subsection \<open>Anchored identifier patterns\<close>

text \<open>\<^verbatim>\<open>^C{lo,hi}$\<close> for a class \<^verbatim>\<open>C\<close>: Go anchors \<^verbatim>\<open>$\<close> at the end of the text.\<close>

definition match_class :: "(char \<Rightarrow> bool) \<Rightarrow> nat \<Rightarrow> nat \<Rightarrow> string \<Rightarrow> bool" where
  "match_class P lo hi s \<longleftrightarrow> lo \<le> length s \<and> length s \<le> hi \<and> list_all P s"

text \<open>\<^verbatim>\<open>^p C{lo,hi}$\<close> for a literal prefix \<^verbatim>\<open>p\<close>.\<close>

definition match_prefixed :: "string \<Rightarrow> (char \<Rightarrow> bool) \<Rightarrow> nat \<Rightarrow> nat \<Rightarrow> string \<Rightarrow> bool" where
  "match_prefixed p P lo hi s \<longleftrightarrow> has_prefix s p \<and> match_class P lo hi (drop (length p) s)"

lemma match_prefixed_append [simp]:
  "match_prefixed p P lo hi (p @ s) \<longleftrightarrow> match_class P lo hi s"
  by (simp add: match_prefixed_def)

end
