(* ===== verification/Go_Encoding.thy ===== *)
theory Go_Encoding
  imports Go_Strings
begin

section \<open>Go's base64 (RawURLEncoding) and utf8 packages\<close>

text \<open>
  \<open>b64_encode\<close> and \<open>b64_decode\<close> are \<^verbatim>\<open>base64.RawURLEncoding\<close>: URL-safe alphabet, no padding. The
  decoder is Go's non-strict one: it skips line feeds and carriage returns and ignores the unused
  low bits of the last character, so several texts decode to the same bytes. The shared interface
  of the program's random identifiers, \<open>opaque_id\<close>, rests on the encoder.

  \<open>decode_rune\<close> is \<^verbatim>\<open>utf8.DecodeRuneInString\<close>: the rune and its width, U+FFFD with width 1 on an
  invalid byte, with width 0 on the empty string.
\<close>

subsection \<open>Base64\<close>

definition b64_alphabet :: string where
  "b64_alphabet = ''ABCDEFGHIJKLMNOPQRSTUVWXYZabcdefghijklmnopqrstuvwxyz0123456789-_''"

definition b64_char :: "nat \<Rightarrow> char" where
  "b64_char n = b64_alphabet ! n"

definition b64_val :: "char \<Rightarrow> nat option" where
  "b64_val c =
     (if is_upper c then Some (byte c - 65)
      else if is_lower c then Some (byte c - 71)
      else if is_digit c then Some (byte c + 4)
      else if c = CHR ''-'' then Some 62
      else if c = CHR ''_'' then Some 63 else None)"

fun b64_encode :: "string \<Rightarrow> string" where
  "b64_encode [] = []"
| "b64_encode [a] = [b64_char (byte a div 4), b64_char (byte a mod 4 * 16)]"
| "b64_encode [a, b] =
     [b64_char (byte a div 4), b64_char (byte a mod 4 * 16 + byte b div 16),
      b64_char (byte b mod 16 * 4)]"
| "b64_encode (a # b # c # r) =
     b64_char (byte a div 4) # b64_char (byte a mod 4 * 16 + byte b div 16) #
     b64_char (byte b mod 16 * 4 + byte c div 64) # b64_char (byte c mod 64) # b64_encode r"

fun b64_quanta :: "nat list \<Rightarrow> string option" where
  "b64_quanta [] = Some []"
| "b64_quanta [a] = None"
| "b64_quanta [a, b] = Some [char_of (a * 4 + b div 16)]"
| "b64_quanta [a, b, c] = Some [char_of (a * 4 + b div 16), char_of (b mod 16 * 16 + c div 4)]"
| "b64_quanta (a # b # c # d # r) =
     map_option (\<lambda>s. char_of (a * 4 + b div 16) # char_of (b mod 16 * 16 + c div 4) #
                     char_of (c mod 4 * 64 + d) # s) (b64_quanta r)"

definition b64_decode :: "string \<Rightarrow> string option" where
  "b64_decode s =
     Option.bind (those (map b64_val (filter (\<lambda>c. c \<noteq> CHR 0x0A \<and> c \<noteq> CHR 0x0D) s))) b64_quanta"

lemma b64_val_char_all: "list_all (\<lambda>n. b64_val (b64_char n) = Some n) [0..<64]"
  by (simp add: upt_conv_Cons b64_char_def b64_alphabet_def b64_val_def char_class_defs)

lemma b64_val_char [simp]: "n < 64 \<Longrightarrow> b64_val (b64_char n) = Some n"
  using b64_val_char_all by (simp add: list_all_iff)

lemma b64_val_url64: "b64_val c \<noteq> None \<longleftrightarrow> is_url64 c"
  by (auto simp: b64_val_def is_url64_def is_alnum_def)

lemma b64_val_Some: "is_url64 c \<Longrightarrow> \<exists>v. b64_val c = Some v"
  using b64_val_url64 [of c] by auto

lemma b64_char_url64: "n < 64 \<Longrightarrow> is_url64 (b64_char n)"
  using b64_val_url64 [of "b64_char n"] by simp

lemma b64_digits:
  "byte a div 4 < 64" "byte a mod 4 * 16 < 64" "byte a mod 4 * 16 + byte b div 16 < 64"
  "byte b mod 16 * 4 < 64" "byte b mod 16 * 4 + byte c div 64 < 64" "byte c mod 64 < 64"
  using byte_less [of a] byte_less [of b] byte_less [of c]
  by (simp_all, linarith+)

lemma b64_encode_url64: "list_all is_url64 (b64_encode s)"
  by (induction s rule: b64_encode.induct) (auto intro!: b64_char_url64 b64_digits)

lemma b64_encode_length: "length (b64_encode s) = (4 * length s + 2) div 3"
  by (induction s rule: b64_encode.induct) auto

lemma url64_not_newline: "is_url64 c \<Longrightarrow> c \<noteq> CHR 0x0A \<and> c \<noteq> CHR 0x0D"
  by (auto simp: char_class_defs)

lemma b64_filter_url64:
  "list_all is_url64 s \<Longrightarrow> filter (\<lambda>c. c \<noteq> CHR 0x0A \<and> c \<noteq> CHR 0x0D) s = s"
  by (induction s) (auto dest: url64_not_newline)

lemma b64_decode_url64:
  "list_all is_url64 s \<Longrightarrow> b64_decode s = Option.bind (those (map b64_val s)) b64_quanta"
  by (simp add: b64_decode_def b64_filter_url64)

lemma b64_parts [simp]:
  "byte a div 16 div 16 = 0" "byte a div 64 div 4 = 0"
  "byte a div 16 mod 16 = byte a div 16" "byte a div 64 mod 4 = byte a div 64"
  using byte_less [of a] by (simp_all add: less_mult_imp_div_less)

lemma b64_quanta_encode:
  "Option.bind (those (map b64_val (b64_encode s))) b64_quanta = Some s"
proof (induction s rule: b64_encode.induct)
  case (4 a b c r)
  then obtain vs where "those (map b64_val (b64_encode r)) = Some vs" "b64_quanta vs = Some r"
    by (auto simp: bind_eq_Some_conv)
  then show ?case by (simp add: b64_digits)
qed (simp_all add: b64_digits)

lemma b64_roundtrip: "b64_decode (b64_encode s) = Some s"
  by (simp add: b64_decode_url64 b64_encode_url64 b64_quanta_encode)

lemma b64_encode_inj: "b64_encode s = b64_encode t \<longleftrightarrow> s = t"
  by (metis b64_roundtrip option.inject)

lemma b64_quanta_length:
  "b64_quanta vs = Some s \<Longrightarrow> length s = 3 * length vs div 4 \<and> length vs mod 4 \<noteq> 1"
  by (induction vs arbitrary: s rule: b64_quanta.induct) auto

lemma those_length: "those xs = Some ys \<Longrightarrow> length ys = length xs"
  by (induction xs arbitrary: ys) (auto split: option.splits)

lemma b64_decode_length:
  "list_all is_url64 s \<Longrightarrow> b64_decode s = Some t \<Longrightarrow> length t = 3 * length s div 4"
  by (auto simp: b64_decode_url64 bind_eq_Some_conv dest!: b64_quanta_length those_length)

lemma those_SomeI: "list_all (\<lambda>x. x \<noteq> None) xs \<Longrightarrow> \<exists>ys. those xs = Some ys"
  by (induction xs) auto

lemma b64_quanta_defined: "length vs mod 4 \<noteq> 1 \<Longrightarrow> \<exists>s. b64_quanta vs = Some s"
  by (induction vs rule: b64_quanta.induct) auto

lemma b64_decode_defined:
  assumes "list_all is_url64 s" "length s mod 4 \<noteq> 1"
  shows "\<exists>t. b64_decode s = Some t"
proof -
  have "list_all (\<lambda>x. x \<noteq> None) (map b64_val s)"
    using assms(1) by (auto simp: list_all_iff dest: b64_val_Some)
  then obtain vs where vs: "those (map b64_val s) = Some vs" using those_SomeI by blast
  then have "length vs = length s" using those_length by fastforce
  then show ?thesis
    using assms vs b64_quanta_defined [of vs] by (auto simp: b64_decode_url64)
qed

subsection \<open>Random identifiers\<close>

text \<open>
  Every opaque identifier of the program is a prefix and the encoding of \<open>n\<close> bytes from the
  system's random source, which the model takes as an argument. The interface gives what its
  clients rely on: the identifier's shape and that distinct random bytes give distinct ones.
\<close>

locale opaque_id =
  fixes gen :: "string \<Rightarrow> string" and pre :: string and n :: nat
  assumes gen_eq: "gen r = pre @ b64_encode r"
begin

lemma gen_pattern:
  "length r = n \<Longrightarrow> match_prefixed pre is_url64 ((4 * n + 2) div 3) ((4 * n + 2) div 3) (gen r)"
  by (simp add: gen_eq match_class_def b64_encode_url64 b64_encode_length)

lemma gen_inj: "gen r = gen r' \<longleftrightarrow> r = r'"
  by (simp add: gen_eq b64_encode_inj)

lemma gen_length: "length r = n \<Longrightarrow> length (gen r) = length pre + (4 * n + 2) div 3"
  by (simp add: gen_eq b64_encode_length)

lemma gen_Nil: "gen r = [] \<longleftrightarrow> pre = [] \<and> b64_encode r = []"
  by (simp add: gen_eq)

end

lemma match_class_mono: "match_class P lo hi s \<Longrightarrow> lo' \<le> lo \<Longrightarrow> hi \<le> hi' \<Longrightarrow> match_class P lo' hi' s"
  by (auto simp: match_class_def)

lemma match_prefixed_mono:
  "match_prefixed p P lo hi s \<Longrightarrow> lo' \<le> lo \<Longrightarrow> hi \<le> hi' \<Longrightarrow> match_prefixed p P lo' hi' s"
  by (auto simp: match_prefixed_def intro: match_class_mono)

subsection \<open>UTF-8\<close>

definition rune_error :: rune where "rune_error = 65533"

definition utf8_cont :: "char \<Rightarrow> bool" where
  "utf8_cont c \<longleftrightarrow> 128 \<le> byte c \<and> byte c < 192"

text \<open>The range of the second byte depends on the first one: no surrogates, no overlong forms.\<close>

definition utf8_second :: "nat \<Rightarrow> char \<Rightarrow> bool" where
  "utf8_second b c \<longleftrightarrow> utf8_cont c \<and> (b = 224 \<longrightarrow> 160 \<le> byte c) \<and> (b = 237 \<longrightarrow> byte c < 160) \<and>
     (b = 240 \<longrightarrow> 144 \<le> byte c) \<and> (b = 244 \<longrightarrow> byte c < 144)"

definition cont_bits :: "char \<Rightarrow> nat" where "cont_bits c = byte c - 128"

definition decode_rune :: "string \<Rightarrow> rune \<times> nat" where
  "decode_rune s =
     (case s of [] \<Rightarrow> (rune_error, 0)
      | c # r \<Rightarrow>
        (let b = byte c in
         if b < 128 then (b, 1)
         else if b < 194 \<or> 244 < b then (rune_error, 1)
         else if b < 224 then
           (case r of c1 # _ \<Rightarrow>
              if utf8_cont c1 then ((b - 192) * 64 + cont_bits c1, 2) else (rune_error, 1)
            | [] \<Rightarrow> (rune_error, 1))
         else if b < 240 then
           (case r of c1 # c2 # _ \<Rightarrow>
              if utf8_second b c1 \<and> utf8_cont c2
              then ((b - 224) * 4096 + cont_bits c1 * 64 + cont_bits c2, 3) else (rune_error, 1)
            | _ \<Rightarrow> (rune_error, 1))
         else
           (case r of c1 # c2 # c3 # _ \<Rightarrow>
              if utf8_second b c1 \<and> utf8_cont c2 \<and> utf8_cont c3
              then ((b - 240) * 262144 + cont_bits c1 * 4096 + cont_bits c2 * 64 + cont_bits c3, 4)
              else (rune_error, 1)
            | _ \<Rightarrow> (rune_error, 1))))"

lemma decode_rune_size: "s \<noteq> [] \<Longrightarrow> 1 \<le> snd (decode_rune s) \<and> snd (decode_rune s) \<le> length s"
  by (auto simp: decode_rune_def Let_def split: list.splits)

lemma decode_rune_ascii: "byte c < 128 \<Longrightarrow> decode_rune (c # s) = (byte c, 1)"
  by (simp add: decode_rune_def)

lemma decode_rune_multi: "decode_rune (c # s) = (r, n) \<Longrightarrow> 128 \<le> byte c \<Longrightarrow> 128 \<le> r"
  by (auto simp: decode_rune_def rune_error_def Let_def cont_bits_def utf8_second_def utf8_cont_def
      split: list.splits if_splits)

lemma decode_rune_cases:
  assumes "decode_rune s = (r, n)" "s \<noteq> []" "(r, n) \<noteq> (rune_error, 1)"
  obtains (ascii) c t where "s = c # t" "byte c < 128" "n = 1"
  | (two) c c1 t where "s = c # c1 # t" "194 \<le> byte c" "byte c < 224" "utf8_cont c1" "n = 2"
  | (three) c c1 c2 t where "s = c # c1 # c2 # t" "224 \<le> byte c" "byte c < 240"
      "utf8_second (byte c) c1" "utf8_cont c2" "n = 3"
  | (four) c c1 c2 c3 t where "s = c # c1 # c2 # c3 # t" "240 \<le> byte c" "byte c \<le> 244"
      "utf8_second (byte c) c1" "utf8_cont c2" "utf8_cont c3" "n = 4"
proof -
  obtain c t where s: "s = c # t" using assms(2) by (cases s) auto
  consider "byte c < 128" | "128 \<le> byte c" "byte c < 194 \<or> 244 < byte c" | "194 \<le> byte c" "byte c < 224"
    | "224 \<le> byte c" "byte c < 240" | "240 \<le> byte c" "byte c \<le> 244" by linarith
  then show thesis
  proof cases
    case 3
    then show thesis using assms(1,3) two unfolding s
      by (auto simp: decode_rune_def Let_def split: list.splits if_splits)
  next
    case 4
    then show thesis using assms(1,3) three unfolding s
      by (auto simp: decode_rune_def Let_def split: list.splits if_splits)
  next
    case 5
    then show thesis using assms(1,3) four unfolding s
      by (auto simp: decode_rune_def Let_def split: list.splits if_splits)
  qed (use assms s ascii in \<open>auto simp: decode_rune_def Let_def\<close>)
qed

lemma decode_rune_stable:
  assumes "decode_rune s = (r, n)" "s \<noteq> []" "(r, n) \<noteq> (rune_error, 1)"
  shows "decode_rune (take n s @ t) = (r, n)"
  using assms
proof (cases rule: decode_rune_cases)
qed (use assms(1) in \<open>simp_all add: decode_rune_def Let_def split: if_splits\<close>)

text \<open>\<^verbatim>\<open>for _, r := range s\<close>: the runes, one U+FFFD per invalid byte.\<close>

function runes :: "string \<Rightarrow> rune list" where
  "runes s = (if s = [] then [] else fst (decode_rune s) # runes (drop (snd (decode_rune s)) s))"
  by pat_completeness auto
termination
  using decode_rune_size by (relation "measure length") (auto simp: Suc_le_eq)

text \<open>\<^verbatim>\<open>utf8.ValidString\<close>.\<close>

function valid_utf8 :: "string \<Rightarrow> bool" where
  "valid_utf8 s =
     (if s = [] then True
      else decode_rune s \<noteq> (rune_error, 1) \<and> valid_utf8 (drop (snd (decode_rune s)) s))"
  by pat_completeness auto
termination
  using decode_rune_size by (relation "measure length") (auto simp: Suc_le_eq)

declare runes.simps [simp del] valid_utf8.simps [simp del]

lemma runes_Nil [simp]: "runes [] = []"
  by (simp add: runes.simps)

lemma runes_ascii: "byte c < 128 \<Longrightarrow> runes (c # s) = byte c # runes s"
  by (subst runes.simps) (simp add: decode_rune_ascii)

lemma runes_length: "length (runes s) \<le> length s"
proof (induction s rule: runes.induct)
  case (1 s)
  show ?case
  proof (cases "s = []")
    case False
    with 1 decode_rune_size [OF False] show ?thesis by (subst runes.simps) auto
  qed simp
qed

lemma valid_utf8_ascii: "list_all (\<lambda>c. byte c < 128) s \<Longrightarrow> valid_utf8 s"
proof (induction s)
  case (Cons c s)
  then show ?case by (subst valid_utf8.simps) (auto simp: decode_rune_ascii rune_error_def)
qed (simp add: valid_utf8.simps)

end
