(* ===== verification/Server_Types.thy ===== *)
theory Server_Types
  imports Go_Encoding
begin

section \<open>Public identities\<close>

text \<open>
  The identity types the web server's components share (\<^verbatim>\<open>internal/server/identity.go\<close>): opaque
  references for sessions, windows and panes, the browser's viewer identifier, and the generation
  of a pane, which names one pane of one incarnation of the tmux server.
\<close>

type_synonym SessionRef = string
type_synonym WindowRef = string
type_synonym PaneRef = string
type_synonym ViewerID = string

record PaneGeneration =
  TmuxServerStart :: string
  TmuxServerPID :: int
  PaneID :: string

definition zero_generation :: PaneGeneration where
  "zero_generation = \<lparr>TmuxServerStart = [], TmuxServerPID = 0, PaneID = []\<rparr>"

text \<open>\<^verbatim>\<open>viewerIDPattern\<close>: \<^verbatim>\<open>^[A-Za-z0-9][A-Za-z0-9_-]{15,127}$\<close>.\<close>

definition viewerIDPattern :: "string \<Rightarrow> bool" where
  "viewerIDPattern s \<longleftrightarrow> s \<noteq> [] \<and> is_alnum (hd s) \<and> match_class is_url64 15 127 (tl s)"

text \<open>\<^verbatim>\<open>newOpaqueRuntimeRef(prefix)\<close> over 18 random bytes.\<close>

definition newOpaqueRuntimeRef :: "string \<Rightarrow> string \<Rightarrow> string" where
  "newOpaqueRuntimeRef prefix random = prefix @ ''_'' @ b64_encode random"

interpretation runtime_ref: opaque_id "newOpaqueRuntimeRef p" "p @ ''_''" 18 for p
  by unfold_locales (simp add: newOpaqueRuntimeRef_def)

end
