(* ===== verification/Paste_Tokens.thy ===== *)
theory Paste_Tokens
  imports Server_Types
begin

section \<open>Single-use paste tokens\<close>

text \<open>
  \<^verbatim>\<open>internal/server/paste_tokens.go\<close>: a paste into a terminal needs a token that was issued to the
  same login for the same pane and the same text. The manager is a record; every method takes the
  current time where the code calls \<open>m.now()\<close>, and \<open>Create\<close> the random bytes it draws. SHA-256 is a
  parameter \<open>sha\<close> of \<open>pasteTextAction\<close>.

  The lemmas show that a consumed token was issued for exactly the presented binding, is unexpired
  and was not presented before, that a login holds at most \<open>perUser\<close> tokens, and that the tokens of
  a text issued and presented in time are accepted.
\<close>

subsection \<open>State\<close>

record pasteAction =
  Digest :: string
  Bytes :: int
  Lines :: int
  ControlCharacters :: bool
  TrailingNewline :: bool

record pasteTokenBinding =
  pb_User :: string
  pb_SessionRef :: SessionRef
  pb_PaneRef :: PaneRef
  pb_Generation :: PaneGeneration
  pb_Action :: pasteAction

record storedPasteToken =
  st_binding :: pasteTokenBinding
  st_Expires :: time

record pasteTokenManager =
  pm_ttl :: duration
  pm_perUser :: int
  pm_tokens :: "(string, storedPasteToken) gomap"

datatype pasteTokenError = errPasteTokenInvalid

definition defaultPasteTokenTTL :: duration where "defaultPasteTokenTTL = 30 * second"
definition defaultPasteTokensPerUser :: int where "defaultPasteTokensPerUser = 32"

text \<open>\<^verbatim>\<open>^pt_[A-Za-z0-9_-]{24,96}$\<close> and \<^verbatim>\<open>^[A-Za-z0-9_-]{43}$\<close>.\<close>

definition pasteTokenIDPattern :: "string \<Rightarrow> bool" where
  "pasteTokenIDPattern s \<longleftrightarrow> match_prefixed ''pt_'' is_url64 24 96 s"

definition pasteDigestPattern :: "string \<Rightarrow> bool" where
  "pasteDigestPattern s \<longleftrightarrow> match_class is_url64 43 43 s"

subsection \<open>Operations\<close>

definition newPasteTokenManager :: "duration \<Rightarrow> int \<Rightarrow> pasteTokenManager" where
  "newPasteTokenManager ttl perUser =
     \<lparr>pm_ttl = (if ttl \<le> 0 then defaultPasteTokenTTL else ttl),
      pm_perUser = (if perUser \<le> 0 then defaultPasteTokensPerUser else perUser),
      pm_tokens = []\<rparr>"

definition newPasteTokenID :: "string \<Rightarrow> string" where
  "newPasteTokenID random = ''pt_'' @ b64_encode random"

definition validPasteTokenBinding :: "pasteTokenBinding \<Rightarrow> bool" where
  "validPasteTokenBinding b =
     (let a = pb_Action b in
      case b64_decode (Digest a) of None \<Rightarrow> False
      | Some digest \<Rightarrow>
        if int (length digest) \<noteq> 32 \<or> Lines a > Bytes a + 1 then False
        else if Lines a > 1 \<and> \<not> ControlCharacters a then False
        else if TrailingNewline a \<and> (\<not> ControlCharacters a \<or> Lines a < 2) then False
        else pb_User b \<noteq> [] \<and> pb_SessionRef b \<noteq> [] \<and> pb_PaneRef b \<noteq> [] \<and>
          pb_Generation b \<noteq> zero_generation \<and> pasteDigestPattern (Digest a) \<and>
          Bytes a > 0 \<and> Bytes a \<le> 64 * 1024 \<and> Lines a > 0)"

definition pt_pruneLocked :: "time \<Rightarrow> pasteTokenManager \<Rightarrow> pasteTokenManager" where
  "pt_pruneLocked now m =
     m\<lparr>pm_tokens := gm_drop (\<lambda>_ tok. \<not> st_Expires tok > now) (pm_tokens m)\<rparr>"

definition pt_Create ::
  "pasteTokenManager \<Rightarrow> pasteTokenBinding \<Rightarrow> time \<Rightarrow> string \<Rightarrow>
     (pasteTokenError + string \<times> time) \<times> pasteTokenManager" where
  "pt_Create m b now random =
     (if \<not> validPasteTokenBinding b then (Inl errPasteTokenInvalid, m)
      else
        let m1 = pt_pruneLocked now m;
            userCount = gm_count (\<lambda>tok. pb_User (st_binding tok) = pb_User b) (pm_tokens m1) in
        if int userCount \<ge> pm_perUser m1 then (Inl errPasteTokenInvalid, m1)
        else
          let tid = newPasteTokenID random; expires = now + pm_ttl m1 in
          (Inr (tid, expires),
           m1\<lparr>pm_tokens := gm_put tid \<lparr>st_binding = b, st_Expires = expires\<rparr> (pm_tokens m1)\<rparr>))"

definition pt_Consume ::
  "pasteTokenManager \<Rightarrow> string \<Rightarrow> pasteTokenBinding \<Rightarrow> time \<Rightarrow>
     (pasteTokenError + unit) \<times> pasteTokenManager" where
  "pt_Consume m tid expected now =
     (let m1 = pt_pruneLocked now m in
      if \<not> pasteTokenIDPattern tid then (Inl errPasteTokenInvalid, m1)
      else
        let stored = map_of (pm_tokens m1) tid;
            m2 = m1\<lparr>pm_tokens := gm_del tid (pm_tokens m1)\<rparr> in
        case stored of
          None \<Rightarrow> (Inl errPasteTokenInvalid, m2)
        | Some tok \<Rightarrow>
            if st_Expires tok < now \<or> st_binding tok \<noteq> expected
            then (Inl errPasteTokenInvalid, m2) else (Inr (), m2))"

definition pt_purge :: "(storedPasteToken \<Rightarrow> bool) \<Rightarrow> pasteTokenManager \<Rightarrow> pasteTokenManager" where
  "pt_purge P m = m\<lparr>pm_tokens := gm_drop (\<lambda>_. P) (pm_tokens m)\<rparr>"

definition pt_DeleteUser :: "string \<Rightarrow> pasteTokenManager \<Rightarrow> pasteTokenManager" where
  "pt_DeleteUser user m = pt_purge (\<lambda>tok. pb_User (st_binding tok) = user) m"

definition pt_DeleteSession :: "SessionRef \<Rightarrow> pasteTokenManager \<Rightarrow> pasteTokenManager" where
  "pt_DeleteSession ref m = pt_purge (\<lambda>tok. pb_SessionRef (st_binding tok) = ref) m"

text \<open>The loop over the runes of the text: lines so far, previous rune was a CR, control seen.\<close>

fun pasteScan :: "rune list \<Rightarrow> int \<Rightarrow> bool \<Rightarrow> bool \<Rightarrow> int \<times> bool" where
  "pasteScan [] lines prevCR ctrl = (lines, ctrl)"
| "pasteScan (v # vs) lines prevCR ctrl =
     (let lines' = (if v = 13 then lines + 1
                    else if v = 10 then (if \<not> prevCR then lines + 1 else lines) else lines);
          ctrl' = (ctrl \<or> v \<le> 31 \<or> (127 \<le> v \<and> v \<le> 159))
      in pasteScan vs lines' (v = 13) ctrl')"

definition pasteTextAction :: "(string \<Rightarrow> string) \<Rightarrow> string \<Rightarrow> pasteAction" where
  "pasteTextAction sha text =
     (let (lines, ctrl) = pasteScan (runes text) 1 False False in
      \<lparr>Digest = b64_encode (sha text),
       Bytes = int (length text),
       Lines = lines,
       ControlCharacters = ctrl,
       TrailingNewline = (text \<noteq> [] \<and> (last text = CHR 0x0A \<or> last text = CHR 0x0D))\<rparr>)"

subsection \<open>Well-formedness\<close>

definition pt_wf :: "pasteTokenManager \<Rightarrow> bool" where
  "pt_wf m \<longleftrightarrow> gm_wf (pm_tokens m)"

lemma pt_prune_lookup:
  "pt_wf m \<Longrightarrow> map_of (pm_tokens (pt_pruneLocked now m)) tid = Some tok \<longleftrightarrow>
     map_of (pm_tokens m) tid = Some tok \<and> now < st_Expires tok"
  by (auto simp: pt_pruneLocked_def pt_wf_def gm_simps split: option.splits if_splits)

lemma pt_wf_prune: "pt_wf m \<Longrightarrow> pt_wf (pt_pruneLocked now m)"
  by (simp add: pt_wf_def pt_pruneLocked_def gm_wfI)

lemma pt_prune_config [simp]:
  "pm_ttl (pt_pruneLocked now m) = pm_ttl m" "pm_perUser (pt_pruneLocked now m) = pm_perUser m"
  by (simp_all add: pt_pruneLocked_def)

lemma pt_Create_cases:
  assumes "pt_Create m b now random = (r, m')"
  obtains (invalid) "r = Inl errPasteTokenInvalid" "m' = m"
  | (full) "r = Inl errPasteTokenInvalid" "m' = pt_pruneLocked now m"
  | (issued) "validPasteTokenBinding b"
      "r = Inr (newPasteTokenID random, now + pm_ttl m)"
      "int (gm_count (\<lambda>tok. pb_User (st_binding tok) = pb_User b)
         (pm_tokens (pt_pruneLocked now m))) < pm_perUser m"
      "m' = (pt_pruneLocked now m)\<lparr>pm_tokens :=
         gm_put (newPasteTokenID random) \<lparr>st_binding = b, st_Expires = now + pm_ttl m\<rparr>
           (pm_tokens (pt_pruneLocked now m))\<rparr>"
  using assms unfolding pt_Create_def by (fastforce simp: Let_def split: if_splits)

lemma pt_Consume_state:
  assumes "pt_Consume m tid e now = (r, m')"
  shows "m' = (pt_pruneLocked now m)\<lparr>pm_tokens :=
     (if pasteTokenIDPattern tid then gm_del tid (pm_tokens (pt_pruneLocked now m))
      else pm_tokens (pt_pruneLocked now m))\<rparr>"
  using assms by (auto simp: pt_Consume_def Let_def split: option.splits if_splits)

lemma pt_Consume_ok:
  assumes "pt_wf m" "pt_Consume m tid e now = (Inr u, m')"
  shows "\<exists>tok. map_of (pm_tokens m) tid = Some tok \<and> st_binding tok = e \<and> now < st_Expires tok"
  using assms pt_prune_lookup [OF assms(1)]
  by (auto simp: pt_Consume_def Let_def split: option.splits if_splits)

lemma pt_wf_ops:
  assumes "pt_wf m"
  shows "pt_wf (snd (pt_Create m b now random))" and "pt_wf (snd (pt_Consume m tid e now))"
    and "pt_wf (pt_purge P m)"
  using assms pt_wf_prune [OF assms]
  by (auto simp: pt_Create_def pt_Consume_def pt_purge_def pt_wf_def Let_def gm_wfI
      split: option.splits)

interpretation pt_store: purgeable_store pm_tokens pt_purge pt_wf
  by unfold_locales (auto simp: pt_wf_ops, auto simp: pt_wf_def pt_purge_def)

interpretation pt_id: opaque_id newPasteTokenID "''pt_''" 24
  by unfold_locales (simp add: newPasteTokenID_def)

lemma newPasteTokenID_pattern: "length random = 24 \<Longrightarrow> pasteTokenIDPattern (newPasteTokenID random)"
  using pt_id.gen_pattern [of random]
  by (auto simp: pasteTokenIDPattern_def intro: match_prefixed_mono)

subsection \<open>Runs of the manager\<close>

text \<open>
  A history is the sequence of calls the mutex serialises. \<open>pt_run\<close> gives the manager's state after
  a history; the random bytes of each \<open>Create\<close> are 24 long, as \<^verbatim>\<open>newPasteTokenID\<close> draws them.
\<close>

datatype pt_op =
    PtCreate pasteTokenBinding time string
  | PtConsume string pasteTokenBinding time
  | PtDeleteUser string
  | PtDeleteSession SessionRef

fun pt_apply :: "pasteTokenManager \<Rightarrow> pt_op \<Rightarrow> pasteTokenManager" where
  "pt_apply m (PtCreate b now random) = snd (pt_Create m b now random)"
| "pt_apply m (PtConsume tid e now) = snd (pt_Consume m tid e now)"
| "pt_apply m (PtDeleteUser u) = pt_DeleteUser u m"
| "pt_apply m (PtDeleteSession s) = pt_DeleteSession s m"

definition pt_run :: "pasteTokenManager \<Rightarrow> pt_op list \<Rightarrow> pasteTokenManager" where
  "pt_run m ops = foldl pt_apply m ops"

fun pt_random_ok :: "pt_op \<Rightarrow> bool" where
  "pt_random_ok (PtCreate b now random) \<longleftrightarrow> length random = 24"
| "pt_random_ok op \<longleftrightarrow> True"

fun pt_presents :: "string \<Rightarrow> pt_op \<Rightarrow> bool" where
  "pt_presents tid (PtConsume tid' e now) \<longleftrightarrow> tid' = tid"
| "pt_presents tid op \<longleftrightarrow> False"

text \<open>A token is backed by the call that issued it, with no presentation of it since.\<close>

definition pt_backed :: "duration \<Rightarrow> pt_op list \<Rightarrow> string \<Rightarrow> storedPasteToken \<Rightarrow> bool" where
  "pt_backed ttl ops tid tok \<longleftrightarrow>
     (\<exists>pre post t random. ops = pre @ PtCreate (st_binding tok) t random # post \<and>
        tid = newPasteTokenID random \<and> st_Expires tok = t + ttl \<and>
        validPasteTokenBinding (st_binding tok) \<and> list_all (\<lambda>op. \<not> pt_presents tid op) post)"

lemma pt_backed_snoc:
  "pt_backed ttl ops tid tok \<Longrightarrow> \<not> pt_presents tid op \<Longrightarrow> pt_backed ttl (ops @ [op]) tid tok"
  unfolding pt_backed_def by (elim exE conjE) (rule exI, rule_tac x = "_ @ [op]" in exI, auto)

lemma pt_apply_wf: "pt_wf m \<Longrightarrow> pt_wf (pt_apply m op)"
  by (cases op) (simp_all add: pt_wf_ops pt_DeleteUser_def pt_DeleteSession_def)

lemma pt_apply_config [simp]:
  "pm_ttl (pt_apply m op) = pm_ttl m" "pm_perUser (pt_apply m op) = pm_perUser m"
  by (cases op; auto simp: pt_Create_def pt_Consume_def pt_DeleteUser_def pt_DeleteSession_def
      pt_purge_def Let_def split: option.splits)+

lemma pt_run_config [simp]:
  "pm_ttl (pt_run m ops) = pm_ttl m" "pm_perUser (pt_run m ops) = pm_perUser m"
  unfolding pt_run_def by (induction ops arbitrary: m) auto

lemma pt_run_wf: "pt_wf m \<Longrightarrow> pt_wf (pt_run m ops)"
  unfolding pt_run_def by (induction ops arbitrary: m) (auto simp: pt_apply_wf)

text \<open>What one call leaves of the tokens: each was there before and was not presented, or is new.\<close>

lemma pt_apply_lookup:
  assumes "pt_wf m" "map_of (pm_tokens (pt_apply m op)) tid = Some tok"
  shows "map_of (pm_tokens m) tid = Some tok \<and> (pasteTokenIDPattern tid \<longrightarrow> \<not> pt_presents tid op) \<or>
    (\<exists>t random. op = PtCreate (st_binding tok) t random \<and> tid = newPasteTokenID random \<and>
       st_Expires tok = t + pm_ttl m \<and> validPasteTokenBinding (st_binding tok))"
proof (cases op)
  case (PtCreate b now random)
  obtain r m' where c: "pt_Create m b now random = (r, m')" by fastforce
  then have look: "map_of (pm_tokens m') tid = Some tok" using assms PtCreate by simp
  from c show ?thesis
    by (cases rule: pt_Create_cases)
      (use look PtCreate pt_prune_lookup [OF assms(1), of now] in
        \<open>auto simp: gm_simps split: if_splits\<close>)
next
  case (PtConsume tid' e now)
  obtain r m' where c: "pt_Consume m tid' e now = (r, m')" by fastforce
  show ?thesis
    using assms PtConsume c pt_Consume_state [OF c] pt_prune_lookup [OF assms(1), of now tid tok]
    by (auto simp: gm_simps split: if_splits)
next
  case (PtDeleteUser u)
  then show ?thesis
    using assms by (auto simp: pt_DeleteUser_def pt_store.purge_lookup split: option.splits if_splits)
next
  case (PtDeleteSession s)
  then show ?thesis
    using assms
    by (auto simp: pt_DeleteSession_def pt_store.purge_lookup split: option.splits if_splits)
qed

lemma pt_run_snoc: "pt_run m (ops @ [op]) = pt_apply (pt_run m ops) op"
  by (simp add: pt_run_def)

lemma pt_run_backed:
  assumes "pt_wf m" "pm_tokens m = []" "list_all pt_random_ok ops"
    and "map_of (pm_tokens (pt_run m ops)) tid = Some tok"
  shows "pt_backed (pm_ttl m) ops tid tok"
  using assms(3,4)
proof (induction ops arbitrary: tok rule: rev_induct)
  case Nil
  then show ?case using assms(2) by (simp add: pt_run_def)
next
  case (snoc op ops)
  have wf: "pt_wf (pt_run m ops)" using assms(1) by (rule pt_run_wf)
  from snoc.prems have "map_of (pm_tokens (pt_apply (pt_run m ops) op)) tid = Some tok"
    by (simp add: pt_run_snoc)
  from pt_apply_lookup [OF wf this] show ?case
  proof (elim disjE exE conjE)
    assume old: "map_of (pm_tokens (pt_run m ops)) tid = Some tok"
      and np: "pasteTokenIDPattern tid \<longrightarrow> \<not> pt_presents tid op"
    have b: "pt_backed (pm_ttl m) ops tid tok" using snoc.IH snoc.prems(1) old by simp
    then have "pasteTokenIDPattern tid"
      using snoc.prems(1) newPasteTokenID_pattern by (auto simp: pt_backed_def)
    with np b show ?thesis by (auto intro: pt_backed_snoc)
  next
    fix t random
    assume "op = PtCreate (st_binding tok) t random" "tid = newPasteTokenID random"
      "st_Expires tok = t + pm_ttl (pt_run m ops)" "validPasteTokenBinding (st_binding tok)"
    then show ?thesis unfolding pt_backed_def by force
  qed
qed

subsection \<open>Capacity\<close>

definition pt_capped :: "pasteTokenManager \<Rightarrow> bool" where
  "pt_capped m \<longleftrightarrow> pt_wf m \<and>
     (\<forall>u. int (gm_count (\<lambda>tok. pb_User (st_binding tok) = u) (pm_tokens m)) \<le> pm_perUser m)"

lemma gm_count_put_le: "gm_count Q (gm_put k v m) \<le> gm_count Q m + (if Q v then 1 else 0)"
proof (induction m)
  case (Cons e m)
  then show ?case by (cases e) (auto simp: gm_count_def gm_put_def)
qed (simp add: gm_count_def gm_put_def)

lemma gm_count_drop_le:
  "int (gm_count Q m) \<le> n \<Longrightarrow> int (gm_count Q (gm_drop P m)) \<le> n"
  using gm_count_drop [of Q P m] by linarith

lemma gm_count_del_le:
  "int (gm_count Q m) \<le> n \<Longrightarrow> int (gm_count Q (gm_del k m)) \<le> n"
  using gm_count_del [of Q k m] by linarith

lemma pt_capped_prune: "pt_capped m \<Longrightarrow> pt_capped (pt_pruneLocked now m)"
  by (auto simp: pt_capped_def pt_wf_prune pt_pruneLocked_def gm_count_drop_le
      intro: pt_wf_prune [unfolded pt_pruneLocked_def])

lemma pt_capped_apply:
  assumes "pt_capped m"
  shows "pt_capped (pt_apply m op)"
proof (cases op)
  case (PtCreate b now random)
  obtain r m' where c: "pt_Create m b now random = (r, m')" by fastforce
  have p: "pt_capped (pt_pruneLocked now m)" using assms by (rule pt_capped_prune)
  show ?thesis using c
  proof (cases rule: pt_Create_cases)
    case issued
    let ?put = "gm_put (newPasteTokenID random) \<lparr>st_binding = b, st_Expires = now + pm_ttl m\<rparr>
           (pm_tokens (pt_pruneLocked now m))"
    have "int (gm_count (\<lambda>tok. pb_User (st_binding tok) = u) ?put) \<le> pm_perUser m" for u
      using p issued(3) gm_count_put_le [of "\<lambda>tok. pb_User (st_binding tok) = u"
          "newPasteTokenID random" "\<lparr>st_binding = b, st_Expires = now + pm_ttl m\<rparr>"
          "pm_tokens (pt_pruneLocked now m)"]
      by (cases "pb_User b = u") (auto simp: pt_capped_def dest: spec [of _ u])
    moreover have "pt_wf m'"
      using p issued(4) by (simp add: pt_capped_def pt_wf_def gm_wfI)
    ultimately show ?thesis
      using PtCreate c issued(4) by (simp add: pt_capped_def pt_wf_def)
  qed (use PtCreate c assms p in simp_all)
next
  case (PtConsume tid' e now)
  obtain r m' where c: "pt_Consume m tid' e now = (r, m')" by fastforce
  then show ?thesis
    using PtConsume pt_capped_prune [OF assms, of now] pt_Consume_state [OF c]
    by (auto simp: pt_capped_def pt_wf_def gm_wfI gm_count_del_le)
qed (use assms in \<open>auto simp: pt_capped_def pt_DeleteUser_def pt_DeleteSession_def pt_purge_def
    pt_wf_def gm_wfI gm_count_drop_le\<close>)

interpretation pt_system: step_system
  "\<lambda>m. pt_wf m \<and> pm_tokens m = [] \<and> 0 < pm_perUser m" "\<lambda>m m'. \<exists>op. m' = pt_apply m op" pt_capped
  by unfold_locales (auto simp: pt_capped_apply, auto simp: pt_capped_def gm_count_def)

lemma pt_run_steps: "(\<lambda>m m'. \<exists>op. m' = pt_apply m op)\<^sup>*\<^sup>* m (pt_run m ops)"
proof (induction ops rule: rev_induct)
  case (snoc op ops)
  then show ?case by (auto simp: pt_run_snoc intro: rtranclp.rtrancl_into_rtrancl)
qed (simp add: pt_run_def)

lemma newPasteTokenManager_ok:
  "pt_wf (newPasteTokenManager ttl n)" "pm_tokens (newPasteTokenManager ttl n) = []"
  "0 < pm_perUser (newPasteTokenManager ttl n)" "0 < pm_ttl (newPasteTokenManager ttl n)"
  by (auto simp: newPasteTokenManager_def pt_wf_def defaultPasteTokensPerUser_def
      defaultPasteTokenTTL_def)

subsection \<open>The action of a text\<close>

lemma pasteScan_bounds:
  assumes "pasteScan vs lines cr ctrl = (lines', ctrl')"
  shows "lines \<le> lines'" "lines' \<le> lines + int (length vs)" "ctrl \<Longrightarrow> ctrl'"
    "lines < lines' \<Longrightarrow> ctrl'"
proof -
  have "lines \<le> lines' \<and> lines' \<le> lines + int (length vs) \<and> (ctrl \<longrightarrow> ctrl') \<and>
      (lines < lines' \<longrightarrow> ctrl')"
    using assms
  proof (induction vs arbitrary: lines cr ctrl)
    case (Cons v vs)
    from Cons.prems show ?case
      unfolding pasteScan.simps Let_def by (drule_tac Cons.IH) (auto split: if_splits)
  qed simp
  then show "lines \<le> lines'" "lines' \<le> lines + int (length vs)" "ctrl \<Longrightarrow> ctrl'"
    "lines < lines' \<Longrightarrow> ctrl'" by simp_all
qed

text \<open>A line end as the last rune is counted, unless it is the LF of a CR LF, which already was.\<close>

lemma pasteScan_newline:
  assumes "pasteScan vs lines cr ctrl = (lines', ctrl')" "vs \<noteq> []" "last vs = 10 \<or> last vs = 13"
  shows "ctrl' \<and> (lines < lines' \<or> cr \<and> vs = [10])"
  using assms
proof (induction vs lines cr ctrl rule: pasteScan.induct)
  case (2 v vs lines cr ctrl)
  show ?case
  proof (cases "vs = []")
    case True
    with 2 show ?thesis by (auto simp: Let_def split: if_splits)
  next
    case False
    from 2(2) have rec: "pasteScan vs
       (if v = 13 then lines + 1 else if v = 10 then if \<not> cr then lines + 1 else lines else lines)
       (v = 13) (ctrl \<or> v \<le> 31 \<or> (127 \<le> v \<and> v \<le> 159)) = (lines', ctrl')"
      by (simp add: Let_def)
    from 2(1) [OF refl refl rec False] 2(4) False pasteScan_bounds(1) [OF rec] show ?thesis
      by (auto split: if_splits)
  qed
qed simp

lemma runes_last:
  assumes "s \<noteq> []" "byte (last s) < 128"
  shows "runes s \<noteq> [] \<and> last (runes s) = byte (last s)"
  using assms
proof (induction s rule: runes.induct)
  case (1 s)
  let ?n = "snd (decode_rune s)"
  have size: "1 \<le> ?n" "?n \<le> length s" using decode_rune_size [OF 1(2)] by auto
  have unfold: "runes s = fst (decode_rune s) # runes (drop ?n s)"
    using 1(2) by (subst runes.simps) simp
  show ?case
  proof (cases "?n = length s")
    case True
    have "?n = 1 \<Longrightarrow> byte (hd s) < 128"
      using True 1(2,3) by (cases s) auto
    moreover have "?n = 1"
      using True 1(2,3)
      by (auto simp: decode_rune_def Let_def utf8_cont_def utf8_second_def
          split: list.splits if_splits)
    ultimately have "fst (decode_rune s) = byte (last s)"
      using True 1(2) by (cases s) (auto simp: decode_rune_ascii)
    with unfold True show ?thesis by simp
  next
    case False
    then have ne: "drop ?n s \<noteq> []" using size by simp
    have "last (drop ?n s) = last s" using ne by (simp add: last_drop)
    with 1(1) [OF 1(2) ne] 1(3) unfold show ?thesis by simp
  qed
qed

lemma pasteTextAction_valid:
  assumes "text \<noteq> []" "length text \<le> 65536" "length (sha text) = 32"
    and "pb_User b \<noteq> []" "pb_SessionRef b \<noteq> []" "pb_PaneRef b \<noteq> []"
      "pb_Generation b \<noteq> zero_generation" "pb_Action b = pasteTextAction sha text"
  shows "validPasteTokenBinding b"
proof -
  obtain lines ctrl where scan: "pasteScan (runes text) 1 False False = (lines, ctrl)"
    by fastforce
  note bounds = pasteScan_bounds [OF scan]
  have "length (runes text) \<le> length text" by (rule runes_length)
  then have le: "lines \<le> int (length text) + 1" using bounds(2) by linarith
  have many: "ctrl \<or> lines = 1" using bounds(1,4) by linarith
  have trail: "ctrl \<and> 2 \<le> lines" if "last text = CHR 0x0A \<or> last text = CHR 0x0D"
  proof -
    have "byte (last text) < 128" "byte (last text) = 10 \<or> byte (last text) = 13"
      using that by auto
    then have "runes text \<noteq> [] \<and> (last (runes text) = 10 \<or> last (runes text) = 13)"
      using runes_last [OF assms(1)] by simp
    then show ?thesis using pasteScan_newline [OF scan] by auto
  qed
  have "pasteDigestPattern (b64_encode (sha text))"
    using assms(3) by (simp add: pasteDigestPattern_def match_class_def b64_encode_url64
        b64_encode_length)
  then show ?thesis
    using assms bounds(1) le many trail scan
    by (auto simp: validPasteTokenBinding_def pasteTextAction_def Let_def b64_roundtrip)
qed

subsection \<open>Properties\<close>

text \<open>
  C27. Paste authorisation. After any history of calls on a new manager, a presented token is
  accepted only if an earlier \<open>Create\<close> issued exactly that token for exactly the presented binding
  (login, session, pane, pane generation and text digest), the binding is valid, the token has not
  expired, and it was not presented in any call since: tokens are single-use, also when an earlier
  presentation was rejected.
\<close>

theorem paste_token_authentic:
  assumes "list_all pt_random_ok ops"
    and "pt_Consume (pt_run (newPasteTokenManager ttl n) ops) tid e now = (Inr (), m')"
  shows "\<exists>pre post t random. ops = pre @ PtCreate e t random # post \<and>
     tid = newPasteTokenID random \<and> validPasteTokenBinding e \<and>
     now < t + pm_ttl (newPasteTokenManager ttl n) \<and> list_all (\<lambda>op. \<not> pt_presents tid op) post"
proof -
  let ?m = "newPasteTokenManager ttl n"
  obtain tok where tok: "map_of (pm_tokens (pt_run ?m ops)) tid = Some tok" "st_binding tok = e"
      "now < st_Expires tok"
    using pt_Consume_ok [OF pt_run_wf [OF newPasteTokenManager_ok(1)] assms(2)] by blast
  from pt_run_backed [OF newPasteTokenManager_ok(1,2) assms(1) tok(1)] tok(2,3)
  show ?thesis unfolding pt_backed_def by metis
qed

definition example_binding :: pasteTokenBinding where
  "example_binding =
     \<lparr>pb_User = ''u'', pb_SessionRef = ''s'', pb_PaneRef = ''p'',
      pb_Generation = \<lparr>TmuxServerStart = ''1'', TmuxServerPID = 7, PaneID = ''%0''\<rparr>,
      pb_Action = \<lparr>Digest = replicate 43 CHR ''A'', Bytes = 2, Lines = 1,
        ControlCharacters = False, TrailingNewline = False\<rparr>\<rparr>"

definition example_random :: string where
  "example_random = replicate 24 CHR 0x00"

theorem paste_token_authentic_witness:
  "\<exists>pre post t random.
     [PtCreate example_binding 0 example_random] = pre @ PtCreate example_binding t random # post \<and>
     newPasteTokenID example_random = newPasteTokenID random \<and>
     validPasteTokenBinding example_binding \<and>
     5 < t + pm_ttl (newPasteTokenManager 0 0) \<and>
     list_all (\<lambda>op. \<not> pt_presents (newPasteTokenID example_random) op) post"
proof (rule paste_token_authentic)
  show "list_all pt_random_ok [PtCreate example_binding 0 example_random]"
    by (simp add: example_random_def)
  show "pt_Consume (pt_run (newPasteTokenManager 0 0) [PtCreate example_binding 0 example_random])
      (newPasteTokenID example_random) example_binding 5 = (Inr (), newPasteTokenManager 0 0)"
    by code_simp
qed

text \<open>
  Paste tokens are bounded: after any history of calls on a new manager every login holds at
  most the configured number of tokens (32 when none is configured).
\<close>

theorem paste_token_capacity:
  "int (gm_count (\<lambda>tok. pb_User (st_binding tok) = u)
     (pm_tokens (pt_run (newPasteTokenManager ttl n) ops))) \<le> (if n \<le> 0 then 32 else n)"
proof -
  have "pt_capped (pt_run (newPasteTokenManager ttl n) ops)"
    by (rule pt_system.inv_reachable [OF _ pt_run_steps]) (simp add: newPasteTokenManager_ok)
  then show ?thesis
    by (auto simp: pt_capped_def newPasteTokenManager_def defaultPasteTokensPerUser_def
        dest: spec [of _ u])
qed

text \<open>
  C31. A confirmed paste goes through: for every text of 1 to 65536 bytes the binding the server
  computes from the text (line count, control characters, trailing newline, digest) passes the
  checks of \<open>Create\<close>, and a token created with room left is accepted for the same text until it
  expires.
\<close>

theorem paste_token_roundtrip:
  assumes "text \<noteq> []" "length text \<le> 65536" "length (sha text) = 32"
    and "pb_User b \<noteq> []" "pb_SessionRef b \<noteq> []" "pb_PaneRef b \<noteq> []"
      "pb_Generation b \<noteq> zero_generation" "pb_Action b = pasteTextAction sha text"
    and "pt_wf m" "length random = 24"
    and "int (gm_count (\<lambda>tok. pb_User (st_binding tok) = pb_User b)
           (pm_tokens (pt_pruneLocked t m))) < pm_perUser m"
    and "now < t + pm_ttl m"
  shows "\<exists>m1 m2. pt_Create m b t random = (Inr (newPasteTokenID random, t + pm_ttl m), m1) \<and>
     pt_Consume m1 (newPasteTokenID random) b now = (Inr (), m2)"
proof -
  have valid: "validPasteTokenBinding b" using assms(1-8) by (rule pasteTextAction_valid)
  let ?m = "pt_pruneLocked t m"
  let ?tok = "\<lparr>st_binding = b, st_Expires = t + pm_ttl m\<rparr>"
  let ?m1 = "?m\<lparr>pm_tokens := gm_put (newPasteTokenID random) ?tok (pm_tokens ?m)\<rparr>"
  have create: "pt_Create m b t random = (Inr (newPasteTokenID random, t + pm_ttl m), ?m1)"
    using valid assms(11) by (simp add: pt_Create_def Let_def)
  have "pt_wf ?m1" using pt_wf_prune [OF assms(9)] by (simp add: pt_wf_def gm_wfI)
  then have "map_of (pm_tokens (pt_pruneLocked now ?m1)) (newPasteTokenID random) = Some ?tok"
    using assms(12) by (simp add: pt_prune_lookup gm_simps)
  then have "\<exists>m2. pt_Consume ?m1 (newPasteTokenID random) b now = (Inr (), m2)"
    using assms(10,12) newPasteTokenID_pattern by (simp add: pt_Consume_def Let_def)
  with create show ?thesis by blast
qed

theorem paste_token_roundtrip_witness:
  "\<exists>m1 m2.
     pt_Create (newPasteTokenManager 0 0)
       (example_binding\<lparr>pb_Action := pasteTextAction (\<lambda>_. replicate 32 CHR ''d'') ''ls\<newline>''\<rparr>) 0
       example_random = (Inr (newPasteTokenID example_random, 30000000000), m1) \<and>
     pt_Consume m1 (newPasteTokenID example_random)
       (example_binding\<lparr>pb_Action := pasteTextAction (\<lambda>_. replicate 32 CHR ''d'') ''ls\<newline>''\<rparr>) 9
       = (Inr (), m2)"
  using paste_token_roundtrip [of "''ls\<newline>''" "\<lambda>_. replicate 32 CHR ''d''"
      "example_binding\<lparr>pb_Action := pasteTextAction (\<lambda>_. replicate 32 CHR ''d'') ''ls\<newline>''\<rparr>"
      "newPasteTokenManager 0 0" example_random 0 9]
  by (simp add: example_binding_def example_random_def zero_generation_def newPasteTokenManager_def
      pt_wf_def pt_pruneLocked_def gm_drop_def gm_count_def defaultPasteTokensPerUser_def
      defaultPasteTokenTTL_def)

end
