(* ===== verification/Output_Activity.thy ===== *)
theory Output_Activity
  imports Server_Types
begin

section \<open>Output activity counters\<close>

text \<open>
  \<^verbatim>\<open>internal/server/output_activity.go\<close>: per-session counters of proxied output bytes. A counter is
  an \<^verbatim>\<open>int64\<close>, here a 64-bit word read with \<^const>\<open>sint\<close>; additions wrap, and the code's guard keeps
  them from wrapping. The receiver may be \<^verbatim>\<open>nil\<close>, hence the \<open>option\<close>.

  The lemmas show that a counter is the exact number of bytes recorded since it was last
  forgotten, saturated at the largest \<^verbatim>\<open>int64\<close>.
\<close>

type_synonym int64 = "64 word"

record outputActivityStore =
  epochs :: "(SessionRef, int64) gomap"

definition maxInt64 :: int64 where "maxInt64 = 0x7FFFFFFFFFFFFFFF"

definition newOutputActivityStore :: "outputActivityStore option" where
  "newOutputActivityStore = Some \<lparr>epochs = []\<rparr>"

definition current_epoch :: "outputActivityStore \<Rightarrow> SessionRef \<Rightarrow> int64" where
  "current_epoch s ref = (case map_of (epochs s) ref of None \<Rightarrow> 0 | Some v \<Rightarrow> v)"

definition oa_Record ::
  "outputActivityStore option \<Rightarrow> SessionRef \<Rightarrow> int64 \<Rightarrow> outputActivityStore option" where
  "oa_Record store ref bytes =
     (case store of None \<Rightarrow> None
      | Some s \<Rightarrow>
        if ref = [] \<or> sint bytes \<le> 0 then Some s
        else
          let current = current_epoch s ref in
          if sint bytes > sint (maxInt64 - current)
          then Some (s\<lparr>epochs := gm_put ref maxInt64 (epochs s)\<rparr>)
          else Some (s\<lparr>epochs := gm_put ref (current + bytes) (epochs s)\<rparr>))"

definition oa_Epoch :: "outputActivityStore option \<Rightarrow> SessionRef \<Rightarrow> int64" where
  "oa_Epoch store ref =
     (case store of None \<Rightarrow> 0 | Some s \<Rightarrow> if ref = [] then 0 else current_epoch s ref)"

definition oa_Forget ::
  "outputActivityStore option \<Rightarrow> SessionRef \<Rightarrow> outputActivityStore option" where
  "oa_Forget store ref =
     (case store of None \<Rightarrow> None
      | Some s \<Rightarrow> if ref = [] then Some s else Some (s\<lparr>epochs := gm_del ref (epochs s)\<rparr>))"

subsection \<open>Refinement of unbounded counters\<close>

datatype activity_op = Output SessionRef int64 | Closed SessionRef

fun oa_apply :: "outputActivityStore option \<Rightarrow> activity_op \<Rightarrow> outputActivityStore option" where
  "oa_apply s (Output ref bytes) = oa_Record s ref bytes"
| "oa_apply s (Closed ref) = oa_Forget s ref"

definition oa_run :: "activity_op list \<Rightarrow> outputActivityStore option" where
  "oa_run ops = foldl oa_apply newOutputActivityStore ops"

text \<open>The specification: an integer that grows by every recorded count.\<close>

fun spec_apply :: "SessionRef \<Rightarrow> int \<Rightarrow> activity_op \<Rightarrow> int" where
  "spec_apply ref n (Output ref' bytes) = (if ref' = ref \<and> 0 < sint bytes then n + sint bytes else n)"
| "spec_apply ref n (Closed ref') = (if ref' = ref then 0 else n)"

definition bytes_recorded :: "SessionRef \<Rightarrow> activity_op list \<Rightarrow> int" where
  "bytes_recorded ref ops = foldl (spec_apply ref) 0 ops"

lemma sint_maxInt64 [simp]: "sint maxInt64 = max_int64"
  by (simp add: maxInt64_def)

lemma sint64_range: "- (2 ^ 63) \<le> sint (w :: int64)" "sint (w :: int64) \<le> max_int64"
  using sint_range_size [of w] by (auto simp: word_size)

lemma sint64_add:
  assumes "min_int64 \<le> sint a + sint b" "sint a + sint b \<le> max_int64"
  shows "sint (a + b :: int64) = sint a + sint b"
  using assms by (simp add: sint_word_ariths signed_take_bit_int_eq_self)

lemma sint64_sub:
  assumes "min_int64 \<le> sint a - sint b" "sint a - sint b \<le> max_int64"
  shows "sint (a - b :: int64) = sint a - sint b"
  using assms by (simp add: sint_word_ariths signed_take_bit_int_eq_self)

lemma oa_Record_epoch:
  assumes "0 \<le> sint (current_epoch s ref)" "ref \<noteq> []" "0 < sint bytes"
  shows "\<exists>s'. oa_Record (Some s) ref bytes = Some s' \<and>
     epochs s' = gm_put ref (current_epoch s' ref) (epochs s) \<and>
     sint (current_epoch s' ref) = min max_int64 (sint (current_epoch s ref) + sint bytes)"
proof -
  let ?c = "current_epoch s ref"
  have "sint (maxInt64 - ?c) = max_int64 - sint ?c"
    using assms(1) sint64_range [of ?c] by (subst sint64_sub) simp_all
  moreover have "sint (?c + bytes) = sint ?c + sint bytes" if "sint ?c + sint bytes \<le> max_int64"
    using assms that by (subst sint64_add) simp_all
  ultimately show ?thesis
    using assms(2,3)
    by (auto simp: oa_Record_def Let_def current_epoch_def gm_simps min_def)
qed

definition oa_refines :: "outputActivityStore option \<Rightarrow> activity_op list \<Rightarrow> bool" where
  "oa_refines store ops \<longleftrightarrow>
     (\<exists>s. store = Some s \<and> map_of (epochs s) [] = None \<and>
        (\<forall>ref. ref \<noteq> [] \<longrightarrow>
           sint (current_epoch s ref) = min max_int64 (bytes_recorded ref ops)))"

lemma bytes_recorded_snoc:
  "bytes_recorded ref (ops @ [op]) = spec_apply ref (bytes_recorded ref ops) op"
  by (simp add: bytes_recorded_def)

lemma bytes_recorded_nonneg: "0 \<le> bytes_recorded ref ops"
proof (induction ops rule: rev_induct)
  case (snoc op ops)
  then show ?case by (cases op) (auto simp: bytes_recorded_snoc)
qed (simp add: bytes_recorded_def)

lemma oa_refines_step:
  assumes "oa_refines store ops"
  shows "oa_refines (oa_apply store op) (ops @ [op])"
proof -
  obtain s where s: "store = Some s" "map_of (epochs s) [] = None"
    and eq: "\<And>ref. ref \<noteq> [] \<Longrightarrow> sint (current_epoch s ref) = min max_int64 (bytes_recorded ref ops)"
    using assms by (auto simp: oa_refines_def)
  show ?thesis
  proof (cases op)
    case (Closed ref)
    then show ?thesis
      using s eq by (auto simp: oa_refines_def oa_Forget_def bytes_recorded_snoc current_epoch_def
          gm_simps)
  next
    case (Output ref bytes)
    show ?thesis
    proof (cases "ref = [] \<or> sint bytes \<le> 0")
      case True
      then show ?thesis
        using s eq Output by (auto simp: oa_refines_def oa_Record_def bytes_recorded_snoc)
    next
      case False
      then have ne: "ref \<noteq> []" "0 < sint bytes" by auto
      have pos: "0 \<le> sint (current_epoch s ref)"
        using eq [OF ne(1)] bytes_recorded_nonneg [of ref ops] by simp
      obtain s' where s': "oa_Record (Some s) ref bytes = Some s'"
          "epochs s' = gm_put ref (current_epoch s' ref) (epochs s)"
          "sint (current_epoch s' ref) = min max_int64 (sint (current_epoch s ref) + sint bytes)"
        using oa_Record_epoch [OF pos ne] by blast
      have other: "current_epoch s' r = current_epoch s r" if "r \<noteq> ref" for r
        using s'(2) that by (metis current_epoch_def fun_upd_other gm_put_map_of)
      have none: "map_of (epochs s') [] = None"
        using s(2) ne(1) by (subst s'(2)) (simp add: gm_simps)
      show ?thesis
        using s s' none other eq ne Output bytes_recorded_nonneg [of ref ops]
        by (auto simp: oa_refines_def bytes_recorded_snoc)
    qed
  qed
qed

lemma oa_run_refines: "oa_refines (oa_run ops) ops"
proof (induction ops rule: rev_induct)
  case Nil
  then show ?case
    by (simp add: oa_refines_def oa_run_def newOutputActivityStore_def current_epoch_def
        bytes_recorded_def)
next
  case (snoc op ops)
  then show ?case using oa_refines_step by (simp add: oa_run_def)
qed

text \<open>
  The output counters never wrap: after any history of recorded output and closed sessions, the
  64-bit epoch of a session is the number of bytes recorded since it was last forgotten, saturated
  at the largest 64-bit integer.
\<close>

theorem output_epoch_exact:
  assumes "ref \<noteq> []"
  shows "sint (oa_Epoch (oa_run ops) ref) = min max_int64 (bytes_recorded ref ops)"
  using oa_run_refines [of ops] assms by (auto simp: oa_refines_def oa_Epoch_def)

theorem output_epoch_exact_witness:
  "sint (oa_Epoch (oa_run [Output ''a'' 5, Output ''b'' 9, Output ''a'' 0x7FFFFFFFFFFFFFFF]) ''a'')
     = 0x7FFFFFFFFFFFFFFF"
  using output_epoch_exact [of "''a''" "[Output ''a'' 5, Output ''b'' 9, Output ''a'' 0x7FFFFFFFFFFFFFFF]"]
  by (simp add: bytes_recorded_def)

end
