(* ===== verification/Login_Limiter.thy ===== *)
theory Login_Limiter
  imports Server_Types
begin

section \<open>Login rate limiting\<close>

text \<open>
  \<^verbatim>\<open>internal/server/login_limiter.go\<close>: failed logins per client address in a sliding window. Each
  method takes the time where the code calls \<open>l.now()\<close>. \<open>Allow\<close> returns \<open>None\<close> where the code would
  index an empty slice, which happens only with a limit of zero or less.

  The limiter is proved to refine a log of all failures since the last reset: with a clock that
  does not go back, \<open>Allow\<close> refuses exactly when the log holds \<open>limit\<close> failures inside the window.
\<close>

record loginLimiter =
  ll_limit :: int
  ll_window :: duration
  ll_attempts :: "(string, time list) gomap"
  ll_lastSweep :: time

definition loginAttemptLimit :: int where "loginAttemptLimit = 10"
definition loginAttemptWindow :: duration where "loginAttemptWindow = 5 * minute"

definition newLoginLimiter :: "int \<Rightarrow> duration \<Rightarrow> loginLimiter" where
  "newLoginLimiter limit window =
     \<lparr>ll_limit = limit, ll_window = window, ll_attempts = [], ll_lastSweep = zero_time\<rparr>"

definition limiterKey :: "string \<Rightarrow> string" where
  "limiterKey key = (let k = trim_space key in if k = [] then ''unknown'' else k)"

definition attempts_of :: "loginLimiter \<Rightarrow> string \<Rightarrow> time list" where
  "attempts_of l key = (case map_of (ll_attempts l) key of None \<Rightarrow> [] | Some ts \<Rightarrow> ts)"

definition ll_pruneLocked :: "loginLimiter \<Rightarrow> string \<Rightarrow> time \<Rightarrow> time list \<times> loginLimiter" where
  "ll_pruneLocked l key now =
     (let cutoff = now - ll_window l;
          attempts = dropWhile (\<lambda>t. t < cutoff) (attempts_of l key) in
      if attempts = [] then ([], l\<lparr>ll_attempts := gm_del key (ll_attempts l)\<rparr>)
      else (attempts, l\<lparr>ll_attempts := gm_put key attempts (ll_attempts l)\<rparr>))"

definition ll_sweepLocked :: "loginLimiter \<Rightarrow> time \<Rightarrow> loginLimiter" where
  "ll_sweepLocked l now =
     (if ll_lastSweep l \<noteq> zero_time \<and> time_sub now (ll_lastSweep l) < ll_window l then l
      else foldl (\<lambda>l' key. snd (ll_pruneLocked l' key now)) (l\<lparr>ll_lastSweep := now\<rparr>)
             (map fst (ll_attempts l)))"

definition ll_Allow :: "loginLimiter \<Rightarrow> string \<Rightarrow> time \<Rightarrow> (bool \<times> duration) option \<times> loginLimiter" where
  "ll_Allow l key0 now =
     (let key = limiterKey key0;
          (attempts, l1) = ll_pruneLocked (ll_sweepLocked l now) key now in
      if int (length attempts) < ll_limit l1 then (Some (True, 0), l1)
      else case attempts of
             [] \<Rightarrow> (None, l1)
           | t # _ \<Rightarrow> (Some (False, time_sub (t + ll_window l1) now), l1))"

definition ll_RecordFailure :: "loginLimiter \<Rightarrow> string \<Rightarrow> time \<Rightarrow> loginLimiter" where
  "ll_RecordFailure l key0 now =
     (let key = limiterKey key0;
          (attempts, l1) = ll_pruneLocked (ll_sweepLocked l now) key now in
      l1\<lparr>ll_attempts := gm_put key (attempts @ [now]) (ll_attempts l1)\<rparr>)"

definition ll_Reset :: "loginLimiter \<Rightarrow> string \<Rightarrow> loginLimiter" where
  "ll_Reset l key0 = l\<lparr>ll_attempts := gm_del (limiterKey key0) (ll_attempts l)\<rparr>"

subsection \<open>Pruning and sweeping\<close>

text \<open>
  \<open>ll_pruned now l l'\<close>: \<open>l'\<close> is \<open>l\<close> after pruning at \<open>now\<close>: every key keeps a suffix of its list that holds
  all attempts inside the window.
\<close>

definition ll_pruned :: "time \<Rightarrow> loginLimiter \<Rightarrow> loginLimiter \<Rightarrow> bool" where
  "ll_pruned now l l' \<longleftrightarrow> ll_limit l' = ll_limit l \<and> ll_window l' = ll_window l \<and>
     (\<forall>k. attempts_of l' k = attempts_of l k \<or>
          attempts_of l' k = dropWhile (\<lambda>t. t < now - ll_window l) (attempts_of l k))"

lemma ll_pruned_refl: "ll_pruned now l l"
  by (simp add: ll_pruned_def)

lemma dropWhile_twice [simp]: "dropWhile P (dropWhile P xs) = dropWhile P xs"
  by (induction xs) auto

lemma ll_pruned_trans:
  assumes "ll_pruned now l l'" "ll_pruned now l' l''"
  shows "ll_pruned now l l''"
proof -
  have "attempts_of l'' k = attempts_of l k \<or>
      attempts_of l'' k = dropWhile (\<lambda>t. t < now - ll_window l) (attempts_of l k)" for k
    using assms unfolding ll_pruned_def by (elim conjE allE [of _ k] disjE) simp_all
  with assms show ?thesis by (simp add: ll_pruned_def)
qed

lemma ll_prune_attempts:
  "attempts_of (snd (ll_pruneLocked l key now)) k =
     (if k = key then dropWhile (\<lambda>t. t < now - ll_window l) (attempts_of l key) else attempts_of l k)"
  by (simp add: ll_pruneLocked_def attempts_of_def Let_def gm_simps del: dropWhile_eq_Nil_conv)

lemma ll_prune_fst:
  "fst (ll_pruneLocked l key now) = dropWhile (\<lambda>t. t < now - ll_window l) (attempts_of l key)"
  by (simp add: ll_pruneLocked_def Let_def del: dropWhile_eq_Nil_conv)

lemma ll_prune_config [simp]:
  "ll_limit (snd (ll_pruneLocked l key now)) = ll_limit l"
  "ll_window (snd (ll_pruneLocked l key now)) = ll_window l"
  by (simp_all add: ll_pruneLocked_def Let_def)

lemma ll_pruned_prune: "ll_pruned now l (snd (ll_pruneLocked l key now))"
  by (simp add: ll_pruned_def ll_prune_attempts)

lemma ll_pruned_sweep: "ll_pruned now l (ll_sweepLocked l now)"
proof -
  have "ll_pruned now l0 (foldl (\<lambda>l' key. snd (ll_pruneLocked l' key now)) l0 keys)" for l0 keys
    by (induction keys arbitrary: l0)
      (auto simp: ll_pruned_refl intro: ll_pruned_trans ll_pruned_prune)
  moreover have "ll_pruned now l (l\<lparr>ll_lastSweep := now\<rparr>)"
    by (simp add: ll_pruned_def attempts_of_def)
  ultimately show ?thesis
    unfolding ll_sweepLocked_def by (auto intro: ll_pruned_refl ll_pruned_trans)
qed

lemma ll_sweep_config [simp]:
  "ll_limit (ll_sweepLocked l now) = ll_limit l" "ll_window (ll_sweepLocked l now) = ll_window l"
  using ll_pruned_sweep by (simp_all add: ll_pruned_def)

lemma ll_sweep_prune:
  "fst (ll_pruneLocked (ll_sweepLocked l now) key now) =
     dropWhile (\<lambda>t. t < now - ll_window l) (attempts_of l key)"
  using ll_pruned_sweep [of now l]
  by (auto simp: ll_prune_fst ll_pruned_def dest: spec [of _ key])

lemma ll_pruned_sweep_prune:
  "ll_pruned now l (snd (ll_pruneLocked (ll_sweepLocked l now) key now))"
  using ll_pruned_sweep ll_pruned_prune by (rule ll_pruned_trans)

subsection \<open>The abstract log\<close>

datatype login_event =
    Failure string time
  | Success string time
  | Query string time

fun event_time :: "login_event \<Rightarrow> time" where
  "event_time (Failure k t) = t"
| "event_time (Success k t) = t"
| "event_time (Query k t) = t"

fun ll_apply :: "loginLimiter \<Rightarrow> login_event \<Rightarrow> loginLimiter" where
  "ll_apply l (Failure k t) = ll_RecordFailure l k t"
| "ll_apply l (Success k t) = ll_Reset l k"
| "ll_apply l (Query k t) = snd (ll_Allow l k t)"

definition ll_run :: "loginLimiter \<Rightarrow> login_event list \<Rightarrow> loginLimiter" where
  "ll_run l es = foldl ll_apply l es"

text \<open>The failures of a key since its last success, oldest first.\<close>

fun log_apply :: "string \<Rightarrow> time list \<Rightarrow> login_event \<Rightarrow> time list" where
  "log_apply key ts (Failure k t) = (if limiterKey k = key then ts @ [t] else ts)"
| "log_apply key ts (Success k t) = (if limiterKey k = key then [] else ts)"
| "log_apply key ts (Query k t) = ts"

definition failure_log :: "string \<Rightarrow> login_event list \<Rightarrow> time list" where
  "failure_log key es = foldl (log_apply key) [] es"

definition in_window :: "duration \<Rightarrow> time \<Rightarrow> time list \<Rightarrow> time list" where
  "in_window window now ts = filter (\<lambda>t. now - window \<le> t) ts"

lemma dropWhile_sorted:
  "sorted ts \<Longrightarrow> dropWhile (\<lambda>t. t < c) ts = filter (\<lambda>t. c \<le> t) (ts :: int list)"
proof (induction ts)
  case (Cons t ts)
  then show ?case by (auto simp: filter_id_conv intro!: filter_True [symmetric])
qed simp

text \<open>The simulation relation at a time no event is later than.\<close>

definition ll_refines :: "loginLimiter \<Rightarrow> login_event list \<Rightarrow> time \<Rightarrow> bool" where
  "ll_refines l es now \<longleftrightarrow>
     (\<forall>k. sorted (attempts_of l k) \<and> (\<forall>t \<in> set (attempts_of l k). t \<le> now) \<and>
        (\<forall>now' \<ge> now. in_window (ll_window l) now' (attempts_of l k) =
            in_window (ll_window l) now' (failure_log k es)))"

lemma ll_refines_pruned:
  assumes "ll_refines l es now0" "now0 \<le> now" "ll_pruned now l l'"
  shows "ll_refines l' es now"
proof -
  have w: "ll_window l' = ll_window l" using assms(3) by (simp add: ll_pruned_def)
  have "sorted (attempts_of l' k) \<and> (\<forall>t \<in> set (attempts_of l' k). t \<le> now) \<and>
      (\<forall>now' \<ge> now. in_window (ll_window l) now' (attempts_of l' k) =
        in_window (ll_window l) now' (failure_log k es))" for k
  proof -
    have s: "sorted (attempts_of l k)" "\<forall>t \<in> set (attempts_of l k). t \<le> now0"
      and e: "\<And>now'. now0 \<le> now' \<Longrightarrow> in_window (ll_window l) now' (attempts_of l k) =
        in_window (ll_window l) now' (failure_log k es)"
      using assms(1) by (auto simp: ll_refines_def)
    have "attempts_of l' k = attempts_of l k \<or>
        attempts_of l' k = filter (\<lambda>t. now - ll_window l \<le> t) (attempts_of l k)"
      using assms(3) s(1) by (auto simp: ll_pruned_def dropWhile_sorted)
    moreover have "in_window (ll_window l) now' (filter (\<lambda>t. now - ll_window l \<le> t) (attempts_of l k)) =
        in_window (ll_window l) now' (attempts_of l k)" if "now \<le> now'" for now'
      using that unfolding in_window_def by (auto intro!: filter_cong)
    ultimately show ?thesis
      using s e assms(2) by (auto simp: sorted_wrt_filter dest: order_trans)
  qed
  then show ?thesis by (simp add: ll_refines_def w)
qed

lemma failure_log_snoc: "failure_log k (es @ [e]) = log_apply k (failure_log k es) e"
  by (simp add: failure_log_def)

lemma ll_run_snoc: "ll_run l (es @ [e]) = ll_apply (ll_run l es) e"
  by (simp add: ll_run_def)

lemma ll_apply_config [simp]:
  "ll_limit (ll_apply l e) = ll_limit l" "ll_window (ll_apply l e) = ll_window l"
  by (cases e; auto simp: ll_RecordFailure_def ll_Reset_def ll_Allow_def Let_def split_def
      split: list.splits)+

lemma ll_run_config [simp]:
  "ll_limit (ll_run l es) = ll_limit l" "ll_window (ll_run l es) = ll_window l"
  unfolding ll_run_def by (induction es arbitrary: l) auto

lemma ll_refines_step:
  assumes "ll_refines l es now0" "now0 \<le> event_time e" "0 \<le> ll_window l"
  shows "ll_refines (ll_apply l e) (es @ [e]) (event_time e)"
proof (cases e)
  case (Query k now)
  have "snd (ll_Allow l k now) = snd (ll_pruneLocked (ll_sweepLocked l now) (limiterKey k) now)"
    by (simp add: ll_Allow_def Let_def split_def split: list.split)
  then have "ll_pruned now l (snd (ll_Allow l k now))"
    by (simp add: ll_pruned_sweep_prune)
  moreover have "now0 \<le> now" using assms(2) Query by simp
  ultimately have "ll_refines (snd (ll_Allow l k now)) es now"
    using assms(1) by (blast intro: ll_refines_pruned)
  then show ?thesis using Query by (simp add: ll_refines_def failure_log_snoc)
next
  case (Success k now)
  have "ll_refines l es now"
    using assms Success by (auto intro: ll_refines_pruned [OF assms(1) _ ll_pruned_refl])
  moreover have "attempts_of (ll_Reset l k) k' = (if k' = limiterKey k then [] else attempts_of l k')"
    for k'
    by (simp add: ll_Reset_def attempts_of_def gm_simps)
  moreover have "ll_window (ll_Reset l k) = ll_window l" by (simp add: ll_Reset_def)
  ultimately show ?thesis
    using Success by (auto simp: ll_refines_def failure_log_snoc)
next
  case (Failure k now)
  let ?l1 = "snd (ll_pruneLocked (ll_sweepLocked l now) (limiterKey k) now)"
  have r: "ll_refines ?l1 es now"
    using assms(2) Failure by (auto intro: ll_refines_pruned [OF assms(1) _ ll_pruned_sweep_prune])
  have fst: "fst (ll_pruneLocked (ll_sweepLocked l now) (limiterKey k) now) =
      attempts_of ?l1 (limiterKey k)"
    by (simp add: ll_prune_attempts ll_prune_fst)
  have "attempts_of (ll_RecordFailure l k now) k' =
      (if k' = limiterKey k then attempts_of ?l1 (limiterKey k) @ [now] else attempts_of ?l1 k')" for k'
    using fst by (simp add: ll_RecordFailure_def Let_def split_def attempts_of_def gm_simps)
  then have at: "attempts_of (ll_RecordFailure l k now) k' = attempts_of ?l1 k' @
      (if k' = limiterKey k then [now] else [])" for k' by simp
  have log: "failure_log k' (es @ [e]) =
      failure_log k' es @ (if k' = limiterKey k then [now] else [])" for k'
    by (auto simp: failure_log_snoc Failure)
  have w: "ll_window (ll_RecordFailure l k now) = ll_window ?l1"
    by (simp add: ll_RecordFailure_def Let_def split_def)
  have win: "in_window w n (xs @ ys) = in_window w n xs @ in_window w n ys" for w n xs ys
    by (simp add: in_window_def)
  have r1: "sorted (attempts_of ?l1 k')" and r2: "\<And>t. t \<in> set (attempts_of ?l1 k') \<Longrightarrow> t \<le> now"
    and r3: "\<And>n. now \<le> n \<Longrightarrow> in_window (ll_window ?l1) n (attempts_of ?l1 k') =
      in_window (ll_window ?l1) n (failure_log k' es)" for k'
    using r unfolding ll_refines_def by blast+
  have "sorted (attempts_of ?l1 k' @ (if k' = limiterKey k then [now] else []))" for k'
    using r1 r2 by (auto simp: sorted_append)
  moreover have "\<forall>t \<in> set (attempts_of ?l1 k' @ (if k' = limiterKey k then [now] else [])). t \<le> now"
    for k' using r2 by auto
  moreover note r3
  ultimately have "ll_refines (ll_RecordFailure l k now) (es @ [e]) now"
    unfolding ll_refines_def at w log win by (intro allI impI conjI) (blast, blast, metis)
  then show ?thesis by (simp add: Failure)
qed

lemma ll_run_refines:
  assumes "sorted (map event_time es)" "0 \<le> window"
  shows "\<forall>now. (\<forall>e \<in> set es. event_time e \<le> now) \<longrightarrow>
     ll_refines (ll_run (newLoginLimiter limit window) es) es now"
  using assms(1)
proof (induction es rule: rev_induct)
  case Nil
  then show ?case
    by (simp add: ll_refines_def ll_run_def newLoginLimiter_def attempts_of_def failure_log_def)
next
  case (snoc e es)
  let ?l = "ll_run (newLoginLimiter limit window) es"
  have w: "0 \<le> ll_window ?l" using assms(2) by (simp add: newLoginLimiter_def)
  have "\<forall>e' \<in> set es. event_time e' \<le> event_time e" "sorted (map event_time es)"
    using snoc.prems by (auto simp: sorted_append)
  then have "ll_refines ?l es (event_time e)" using snoc.IH by blast
  then have step: "ll_refines (ll_apply ?l e) (es @ [e]) (event_time e)"
    using w by (intro ll_refines_step) auto
  show ?case
  proof (intro allI impI)
    fix now assume "\<forall>x \<in> set (es @ [e]). event_time x \<le> now"
    then show "ll_refines (ll_run (newLoginLimiter limit window) (es @ [e])) (es @ [e]) now"
      using ll_refines_pruned [OF step _ ll_pruned_refl] by (simp add: ll_run_snoc)
  qed
qed

lemma ll_Allow_refined:
  assumes "ll_refines l es now"
  shows "fst (ll_Allow l key now) =
     (let recent = in_window (ll_window l) now (failure_log (limiterKey key) es) in
      if int (length recent) < ll_limit l then Some (True, 0)
      else case recent of [] \<Rightarrow> None
           | t # _ \<Rightarrow> Some (False, time_sub (t + ll_window l) now))"
proof -
  have "dropWhile (\<lambda>t. t < now - ll_window l) (attempts_of l (limiterKey key)) =
      in_window (ll_window l) now (failure_log (limiterKey key) es)"
    using assms by (auto simp: ll_refines_def dropWhile_sorted in_window_def)
  then show ?thesis
    by (simp add: ll_Allow_def Let_def split_def ll_sweep_prune split: list.splits)
qed

subsection \<open>Properties\<close>

text \<open>
  C21. The login limiter is a sliding window: for every history of failures, successes and queries
  at non-decreasing times, a login attempt is refused exactly when at least \<open>limit\<close> failures of the
  same (trimmed) address since its last success lie in the last \<open>window\<close>, independently of when
  expired entries were swept. A refusal names the time until the oldest of those failures leaves
  the window, which is positive-bounded by the window.
\<close>

theorem login_limiter_sliding_window:
  assumes "sorted (map event_time es)" "\<forall>e \<in> set es. event_time e \<le> now"
    and "0 \<le> window" "window \<le> max_int64" "0 < limit"
    and "recent = in_window window now (failure_log (limiterKey key) es)"
  shows "fst (ll_Allow (ll_run (newLoginLimiter limit window) es) key now) =
     (if int (length recent) < limit then Some (True, 0)
      else Some (False, hd recent + window - now)) \<and>
     (limit \<le> int (length recent) \<longrightarrow> 0 \<le> hd recent + window - now \<and> hd recent + window - now \<le> window)"
proof -
  let ?l = "ll_run (newLoginLimiter limit window) es"
  have r: "ll_refines ?l es now" using ll_run_refines assms(1-3) by blast
  have cfg: "ll_window ?l = window" "ll_limit ?l = limit" by (simp_all add: newLoginLimiter_def)
  have bound: "0 \<le> hd recent + window - now \<and> hd recent + window - now \<le> window"
    if "recent \<noteq> []"
  proof -
    have "hd recent \<in> set recent" using that by simp
    then have "hd recent \<in> set (in_window (ll_window ?l) now (attempts_of ?l (limiterKey key)))"
      using r assms(6) cfg by (simp add: ll_refines_def)
    then show ?thesis using r cfg by (auto simp: in_window_def ll_refines_def)
  qed
  show ?thesis
  proof (cases "int (length recent) < limit")
    case True
    then show ?thesis using ll_Allow_refined [OF r, of key] assms(6) cfg by simp
  next
    case False
    then have ne: "recent \<noteq> []" using assms(5) by auto
    then obtain t ts where ts: "recent = t # ts" by (cases recent) auto
    have "time_sub (t + window) now = t + window - now"
      using bound [OF ne] assms(4) ts by (simp add: time_sub_def)
    then show ?thesis
      using False ts bound [OF ne] ll_Allow_refined [OF r, of key] assms(6) cfg by (simp add: Let_def)
  qed
qed

theorem login_limiter_sliding_window_witness:
  "fst (ll_Allow (ll_run (newLoginLimiter 2 100) [Failure ''a'' 0, Failure ''a '' 50, Query ''b'' 60])
     ''a'' 90) = Some (False, 10)"
proof -
  have log: "failure_log (limiterKey ''a'') [Failure ''a'' 0, Failure ''a '' 50, Query ''b'' 60] = [0, 50]"
    by code_simp
  then show ?thesis
    using login_limiter_sliding_window
      [of "[Failure ''a'' 0, Failure ''a '' 50, Query ''b'' 60]" 90 100 2 _ "''a''", OF _ _ _ _ _ refl]
    by (simp add: in_window_def)
qed

end
