(* ===== verification/History_Ansi.thy ===== *)
theory History_Ansi
  imports Server_Types
begin

section \<open>Terminal history: from captured ANSI text to structured lines\<close>

text \<open>
  \<^verbatim>\<open>internal/server/history_ansi.go\<close>: the parser that turns captured terminal output into lines of
  styled runs. A position \<^verbatim>\<open>index\<close> of the input is the suffix \<^verbatim>\<open>input[index:]\<close>; the functions
  that consume a control sequence return the number of bytes they consume. The closures of
  \<^verbatim>\<open>parseHistoryANSIWithLimitsContext\<close> are functions on \<open>parser_state\<close>, which holds the variables
  they capture. \<open>ctx n\<close> tells whether the \<open>n\<close>-th call of \<^verbatim>\<open>ctx.Err()\<close> reports cancellation; every
  place where the code polls the context polls it here.

  The lemmas show that the output holds no control bytes, that a line of valid UTF-8 input holds no
  bidirectional control, that every resource limit is respected, that colours are well formed, and
  that plain text is split at its line feeds and otherwise unchanged.
\<close>

definition historyMaxLineBytes :: int where "historyMaxLineBytes = 1024 * 1024"
definition historyMaxLinesPerSnapshot :: int where "historyMaxLinesPerSnapshot = 100000"
definition historyMaxRunsPerLine :: int where "historyMaxRunsPerLine = 4096"
definition historyMaxRunsPerSnapshot :: int where "historyMaxRunsPerSnapshot = 200000"
definition historyMaxStructuredBytes :: int where "historyMaxStructuredBytes = 128 * 1024 * 1024"
definition historyMaxSGRBytes :: nat where "historyMaxSGRBytes = 4096"
definition historyStructuredLineOverhead :: int where "historyStructuredLineOverhead = 32"
definition historyStructuredRunOverhead :: int where "historyStructuredRunOverhead = 96"

datatype historyError = errHistoryANSIResourceLimit | errContext

record historyStyle =
  Foreground :: string
  Background :: string
  Bold :: bool
  Faint :: bool
  Italic :: bool
  Underline :: bool
  Inverse :: bool
  Strike :: bool

definition zero_style :: historyStyle where
  "zero_style = \<lparr>Foreground = [], Background = [], Bold = False, Faint = False, Italic = False,
     Underline = False, Inverse = False, Strike = False\<rparr>"

record historyRun =
  Text :: string
  Style :: "historyStyle option"

record historyLine =
  Runs :: "historyRun list"
  BidiWarning :: bool

record historyRunBuilder =
  rb_text :: string
  rb_style :: "historyStyle option"

record historyANSIParseLimits =
  MaxLineBytes :: int
  MaxLines :: int
  MaxRunsPerLine :: int
  MaxRunsPerSnapshot :: int
  MaxStructuredBytes :: int

subsection \<open>Colours and SGR\<close>

definition hex_lower :: string where "hex_lower = ''0123456789abcdef''"
definition hex_upper :: string where "hex_upper = ''0123456789ABCDEF''"

text \<open>\<^verbatim>\<open>%02x\<close> of a value below 256 and \<^verbatim>\<open>%04X\<close> of a value below 65536.\<close>

definition hex2 :: "nat \<Rightarrow> string" where
  "hex2 n = [hex_lower ! (n div 16 mod 16), hex_lower ! (n mod 16)]"

definition hex4 :: "nat \<Rightarrow> string" where
  "hex4 n = [hex_upper ! (n div 4096 mod 16), hex_upper ! (n div 256 mod 16),
     hex_upper ! (n div 16 mod 16), hex_upper ! (n mod 16)]"

definition rgbColor :: "int \<Rightarrow> int \<Rightarrow> int \<Rightarrow> string" where
  "rgbColor red green blue = CHR ''#'' # hex2 (nat red) @ hex2 (nat green) @ hex2 (nat blue)"

definition validRGB :: "int \<Rightarrow> int \<Rightarrow> int \<Rightarrow> bool" where
  "validRGB red green blue \<longleftrightarrow>
     red \<ge> 0 \<and> red \<le> 255 \<and> green \<ge> 0 \<and> green \<le> 255 \<and> blue \<ge> 0 \<and> blue \<le> 255"

definition ansiBase :: "string list" where
  "ansiBase =
     [''#000000'', ''#cd0000'', ''#00cd00'', ''#cdcd00'', ''#0000ee'', ''#cd00cd'', ''#00cdcd'', ''#e5e5e5'',
      ''#7f7f7f'', ''#ff0000'', ''#00ff00'', ''#ffff00'', ''#5c5cff'', ''#ff00ff'', ''#00ffff'', ''#ffffff'']"

definition ansiLevels :: "int list" where
  "ansiLevels = [0, 95, 135, 175, 215, 255]"

definition ansiColor :: "int \<Rightarrow> string" where
  "ansiColor index =
     (if index \<ge> 0 \<and> index < 16 then ansiBase ! nat index
      else if index \<ge> 16 \<and> index \<le> 231 then
        (let value = nat (index - 16) in
         rgbColor (ansiLevels ! (value div 36)) (ansiLevels ! (value div 6 mod 6))
           (ansiLevels ! (value mod 6)))
      else if index \<ge> 232 \<and> index \<le> 255 then
        (let level = 8 + (index - 232) * 10 in rgbColor level level level)
      else [])"

definition parseExtendedColor :: "int list \<Rightarrow> (string \<times> nat) option" where
  "parseExtendedColor values =
     (if length values \<ge> 2 \<and> values ! 0 = 5 \<and> values ! 1 \<ge> 0 \<and> values ! 1 \<le> 255
      then Some (ansiColor (values ! 1), 2)
      else if length values \<ge> 4 \<and> values ! 0 = 2 \<and> validRGB (values ! 1) (values ! 2) (values ! 3)
      then Some (rgbColor (values ! 1) (values ! 2) (values ! 3), 4)
      else None)"

definition normalizeSGRGroup :: "string \<Rightarrow> string list" where
  "normalizeSGRGroup grp =
     (let parts = split grp CHR '':'' in
      if length parts = 1 then [grp]
      else if (parts ! 0 = ''38'' \<or> parts ! 0 = ''48'') \<and> length parts \<ge> 3 \<and>
          (parts ! 1 = ''2'' \<or> parts ! 1 = ''5'') then
        (let start = (if parts ! 1 = ''2'' \<and> length parts \<ge> 6 then 3 else 2) in
         [parts ! 0, parts ! 1] @ drop start parts)
      else [parts ! 0])"

definition normalizeSGRSeparators :: "string \<Rightarrow> string" where
  "normalizeSGRSeparators raw =
     join (concat (map normalizeSGRGroup (split raw CHR '';''))) '';''"

text \<open>One iteration of the loop over the SGR codes other than the extended colours.\<close>

definition applySGRCode :: "int \<Rightarrow> historyStyle \<Rightarrow> historyStyle" where
  "applySGRCode code style =
     (if code = 0 then zero_style
      else if code = 1 then style\<lparr>Bold := True\<rparr>
      else if code = 2 then style\<lparr>Faint := True\<rparr>
      else if code = 3 then style\<lparr>Italic := True\<rparr>
      else if code = 4 \<or> code = 21 then style\<lparr>Underline := True\<rparr>
      else if code = 7 then style\<lparr>Inverse := True\<rparr>
      else if code = 9 then style\<lparr>Strike := True\<rparr>
      else if code = 22 then style\<lparr>Bold := False, Faint := False\<rparr>
      else if code = 23 then style\<lparr>Italic := False\<rparr>
      else if code = 24 then style\<lparr>Underline := False\<rparr>
      else if code = 27 then style\<lparr>Inverse := False\<rparr>
      else if code = 29 then style\<lparr>Strike := False\<rparr>
      else if code = 39 then style\<lparr>Foreground := []\<rparr>
      else if code = 49 then style\<lparr>Background := []\<rparr>
      else if code \<ge> 30 \<and> code \<le> 37 then style\<lparr>Foreground := ansiColor (code - 30)\<rparr>
      else if code \<ge> 40 \<and> code \<le> 47 then style\<lparr>Background := ansiColor (code - 40)\<rparr>
      else if code \<ge> 90 \<and> code \<le> 97 then style\<lparr>Foreground := ansiColor (code - 90 + 8)\<rparr>
      else if code \<ge> 100 \<and> code \<le> 107 then style\<lparr>Background := ansiColor (code - 100 + 8)\<rparr>
      else style)"

fun applySGRCodes :: "int list \<Rightarrow> historyStyle \<Rightarrow> historyStyle" where
  "applySGRCodes [] style = style"
| "applySGRCodes (code # values) style =
     (if code = 38 \<or> code = 48 then
        (case parseExtendedColor values of
           None \<Rightarrow> applySGRCodes values style
         | Some (color, consumed) \<Rightarrow>
             applySGRCodes (drop consumed values)
               (if code = 38 then style\<lparr>Foreground := color\<rparr> else style\<lparr>Background := color\<rparr>))
      else applySGRCodes values (applySGRCode code style))"

definition sgrValue :: "string \<Rightarrow> int option" where
  "sgrValue part =
     (if part = [] then Some 0
      else case parse_int part of None \<Rightarrow> None | Some v \<Rightarrow> if v < 0 then None else Some v)"

definition applySGR :: "historyStyle \<Rightarrow> string \<Rightarrow> historyStyle" where
  "applySGR style raw0 =
     (let raw1 = normalizeSGRSeparators raw0;
          raw = (if raw1 = [] then ''0'' else raw1)
      in case those (map sgrValue (split raw CHR '';'')) of
           None \<Rightarrow> style
         | Some values \<Rightarrow> applySGRCodes values style)"

subsection \<open>Control sequences\<close>

type_synonym ansi_context = "nat \<Rightarrow> bool"

definition ctxErr :: "ansi_context \<Rightarrow> nat \<Rightarrow> historyError + nat" where
  "ctxErr ctx polls = (if ctx polls then Inl errContext else Inr (Suc polls))"

text \<open>The poll inside a loop at a distance \<open>i\<close> from the loop's start.\<close>

definition pollAt :: "ansi_context \<Rightarrow> nat \<Rightarrow> nat \<Rightarrow> historyError + nat" where
  "pollAt ctx i polls = (if i mod 4096 = 0 then ctxErr ctx polls else Inr polls)"

text \<open>
  \<open>consumeCSI ctx polls i params s\<close>: the loop at \<^verbatim>\<open>index = paramsStart + i\<close>, where \<open>params\<close> is
  \<^verbatim>\<open>input[paramsStart:index]\<close> and \<open>s\<close> is \<^verbatim>\<open>input[index:]\<close>. The first component of the result is the
  number of bytes consumed from \<^verbatim>\<open>paramsStart\<close> on.
\<close>

fun consumeCSI :: "ansi_context \<Rightarrow> nat \<Rightarrow> nat \<Rightarrow> string \<Rightarrow> string \<Rightarrow>
    historyError + nat \<times> bool \<times> string \<times> nat" where
  "consumeCSI ctx polls i params [] = Inr (i, False, [], polls)"
| "consumeCSI ctx polls i params (c # s) =
     bindR (pollAt ctx i polls) (\<lambda>polls.
       if 0x40 \<le> byte c \<and> byte c \<le> 0x7e then Inr (Suc i, c = CHR ''m'', params, polls)
       else consumeCSI ctx polls (Suc i) (params @ [c]) s)"

fun consumeStringControl :: "ansi_context \<Rightarrow> nat \<Rightarrow> nat \<Rightarrow> bool \<Rightarrow> string \<Rightarrow> historyError + nat \<times> nat" where
  "consumeStringControl ctx polls i allowBEL [] = Inr (i, polls)"
| "consumeStringControl ctx polls i allowBEL (c # s) =
     bindR (pollAt ctx i polls) (\<lambda>polls.
       if allowBEL \<and> c = CHR 0x07 then Inr (i + 1, polls)
       else if c = CHR 0x1B \<and> s \<noteq> [] \<and> hd s = CHR 0x5C then Inr (i + 2, polls)
       else if c = CHR 0x9C then Inr (i + 1, polls)
       else consumeStringControl ctx polls (Suc i) allowBEL s)"

text \<open>\<open>input\<close> starts at the escape character.\<close>

definition consumeEscapeSequence :: "ansi_context \<Rightarrow> nat \<Rightarrow> string \<Rightarrow>
    historyError + nat \<times> bool \<times> string \<times> nat" where
  "consumeEscapeSequence ctx polls input =
     (case tl input of
        [] \<Rightarrow> Inr (length input, False, [], polls)
      | c # s \<Rightarrow>
          if c = CHR ''['' then
            bindR (consumeCSI ctx polls 0 [] s) (\<lambda>(n, sgr, params, polls). Inr (n + 2, sgr, params, polls))
          else if c = CHR '']'' \<or> c = CHR ''P'' \<or> c = CHR ''_'' \<or> c = CHR ''^'' then
            bindR (consumeStringControl ctx polls 0 (c = CHR '']'') s)
              (\<lambda>(n, polls). Inr (n + 2, False, [], polls))
          else Inr (2, False, [], polls))"

definition isBidiControl :: "rune \<Rightarrow> bool" where
  "isBidiControl value \<longleftrightarrow> value = 0x061c \<or> value = 0x200e \<or> value = 0x200f \<or>
     (value \<ge> 0x202a \<and> value \<le> 0x202e) \<or> (value \<ge> 0x2066 \<and> value \<le> 0x2069)"

definition bidiControlLabel :: "rune \<Rightarrow> string option" where
  "bidiControlLabel value =
     (if isBidiControl value then Some (''[BIDI U+'' @ hex4 value @ '']'') else None)"

definition equalHistoryStyle :: "historyStyle option \<Rightarrow> historyStyle \<Rightarrow> bool" where
  "equalHistoryStyle existing current =
     (case existing of None \<Rightarrow> current = zero_style | Some s \<Rightarrow> s = current)"

subsection \<open>The parser\<close>

record parser_state =
  ps_lines :: "historyLine list"
  ps_runs :: "historyRunBuilder list"
  ps_style :: historyStyle
  ps_lineBytes :: int
  ps_lineBidiWarning :: bool
  ps_totalRuns :: int
  ps_structuredBytes :: int

definition parser_init :: parser_state where
  "parser_init = \<lparr>ps_lines = [], ps_runs = [], ps_style = zero_style, ps_lineBytes = 0,
     ps_lineBidiWarning = False, ps_totalRuns = 0, ps_structuredBytes = 0\<rparr>"

definition reserveStructured ::
  "historyANSIParseLimits \<Rightarrow> int \<Rightarrow> parser_state \<Rightarrow> historyError + parser_state" where
  "reserveStructured limits bytes st =
     (if bytes < 0 \<or> bytes > MaxStructuredBytes limits - ps_structuredBytes st
      then Inl errHistoryANSIResourceLimit
      else Inr (st\<lparr>ps_structuredBytes := ps_structuredBytes st + bytes\<rparr>))"

definition runOf :: "historyRunBuilder \<Rightarrow> historyRun" where
  "runOf b = \<lparr>Text = rb_text b, Style = rb_style b\<rparr>"

definition flushLine ::
  "historyANSIParseLimits \<Rightarrow> parser_state \<Rightarrow> historyError + parser_state" where
  "flushLine limits st =
     (if int (length (ps_lines st)) \<ge> MaxLines limits then Inl errHistoryANSIResourceLimit
      else bindR (reserveStructured limits historyStructuredLineOverhead st) (\<lambda>st.
        Inr (st\<lparr>ps_lines := ps_lines st @
                [\<lparr>Runs = map runOf (ps_runs st), BidiWarning = ps_lineBidiWarning st\<rparr>],
              ps_runs := [], ps_lineBytes := 0, ps_lineBidiWarning := False\<rparr>)))"

text \<open>\<^verbatim>\<open>runs[len(runs)-1].text.WriteString(value)\<close>.\<close>

definition writeLast :: "string \<Rightarrow> parser_state \<Rightarrow> parser_state" where
  "writeLast value st =
     (let run = last (ps_runs st) in
      st\<lparr>ps_runs := butlast (ps_runs st) @ [run\<lparr>rb_text := rb_text run @ value\<rparr>]\<rparr>)"

definition startRun ::
  "historyANSIParseLimits \<Rightarrow> parser_state \<Rightarrow> historyError + parser_state" where
  "startRun limits st =
     (if int (length (ps_runs st)) \<ge> MaxRunsPerLine limits \<or>
         ps_totalRuns st \<ge> MaxRunsPerSnapshot limits then Inl errHistoryANSIResourceLimit
      else bindR (reserveStructured limits historyStructuredRunOverhead st) (\<lambda>st.
        Inr (st\<lparr>ps_runs := ps_runs st @
                [\<lparr>rb_text = [],
                  rb_style = (if ps_style st \<noteq> zero_style then Some (ps_style st) else None)\<rparr>],
              ps_totalRuns := ps_totalRuns st + 1\<rparr>)))"

definition appendText ::
  "historyANSIParseLimits \<Rightarrow> string \<Rightarrow> parser_state \<Rightarrow> historyError + parser_state" where
  "appendText limits value st =
     (if int (length value) > MaxLineBytes limits - ps_lineBytes st
      then Inl errHistoryANSIResourceLimit
      else case reserveStructured limits (int (length value)) st of
          Inl _ \<Rightarrow> Inl errHistoryANSIResourceLimit
        | Inr st \<Rightarrow>
          (let st = st\<lparr>ps_lineBytes := ps_lineBytes st + int (length value)\<rparr> in
           bindR (if ps_runs st = [] \<or> \<not> equalHistoryStyle (rb_style (last (ps_runs st))) (ps_style st)
                  then startRun limits st else Inr st)
             (\<lambda>st. Inr (writeLast value st))))"

definition stopsText :: "char \<Rightarrow> bool" where
  "stopsText c \<longleftrightarrow> byte c \<ge> 128 \<or> c = CHR 0x0A \<or> c = CHR 0x0D \<or> c = CHR 0x09 \<or> c = CHR 0x1B \<or>
     byte c < 0x20 \<or> c = CHR 0x7F"

text \<open>The inner loop over plain text: the number of bytes it covers.\<close>

fun scanText :: "ansi_context \<Rightarrow> nat \<Rightarrow> nat \<Rightarrow> string \<Rightarrow> historyError + nat \<times> nat" where
  "scanText ctx polls i [] = Inr (i, polls)"
| "scanText ctx polls i (c # s) =
     bindR (pollAt ctx i polls) (\<lambda>polls.
       if stopsText c then Inr (i, polls) else scanText ctx polls (Suc i) s)"

definition applySequence :: "bool \<Rightarrow> string \<Rightarrow> parser_state \<Rightarrow> parser_state" where
  "applySequence sgr params st =
     (if sgr \<and> length params \<le> historyMaxSGRBytes
      then st\<lparr>ps_style := applySGR (ps_style st) params\<rparr> else st)"

text \<open>
  The body of the main loop after the context poll, at a non-empty rest of the input: the number
  of bytes to advance by, the polls made, the new state.
\<close>

definition parseHigh :: "ansi_context \<Rightarrow> historyANSIParseLimits \<Rightarrow> nat \<Rightarrow> string \<Rightarrow> parser_state \<Rightarrow>
    historyError + nat \<times> nat \<times> parser_state" where
  "parseHigh ctx limits polls input st =
     (let value = byte (hd input); (runeValue, size) = decode_rune input in
      if runeValue = rune_error \<and> size = 1 \<and> value \<ge> 0x90 \<and> value \<le> 0x9f then
        (if value = 0x90 \<or> value = 0x9d \<or> value = 0x9e \<or> value = 0x9f then
           bindR (consumeStringControl ctx polls 0 (value = 0x9d) (tl input))
             (\<lambda>(n, polls). Inr (n + 1, polls, st))
         else if value = 0x9b then
           bindR (consumeCSI ctx polls 0 [] (tl input))
             (\<lambda>(n, sgr, params, polls). Inr (n + 1, polls, applySequence sgr params st))
         else Inr (1, polls, st))
      else case bidiControlLabel runeValue of
          Some label \<Rightarrow>
            bindR (appendText limits label st)
              (\<lambda>st. Inr (size, polls, st\<lparr>ps_lineBidiWarning := True\<rparr>))
        | None \<Rightarrow>
            bindR (appendText limits (take size input) st) (\<lambda>st. Inr (size, polls, st)))"

definition parseStep :: "ansi_context \<Rightarrow> historyANSIParseLimits \<Rightarrow> nat \<Rightarrow> string \<Rightarrow> parser_state \<Rightarrow>
    historyError + nat \<times> nat \<times> parser_state" where
  "parseStep ctx limits polls input st =
     (let value = hd input in
      if byte value \<ge> 128 then parseHigh ctx limits polls input st
      else if value = CHR 0x0A then bindR (flushLine limits st) (\<lambda>st. Inr (1, polls, st))
      else if value = CHR 0x0D then Inr (1, polls, st)
      else if value = CHR 0x09 then
        bindR (appendText limits [CHR 0x09] st) (\<lambda>st. Inr (1, polls, st))
      else if value = CHR 0x1B then
        bindR (consumeEscapeSequence ctx polls input)
          (\<lambda>(n, sgr, params, polls). Inr (n, polls, applySequence sgr params st))
      else if byte value < 0x20 \<or> value = CHR 0x7F then Inr (1, polls, st)
      else bindR (scanText ctx polls 0 input) (\<lambda>(n, polls).
        bindR (appendText limits (take n input) st) (\<lambda>st. Inr (n, polls, st))))"

lemma scanText_bounds: "scanText ctx k i s = Inr (n, k') \<Longrightarrow> i \<le> n \<and> n \<le> i + length s"
  by (induction ctx k i s rule: scanText.induct) (fastforce simp: result_simps split: if_splits)+

lemma parseHigh_progress:
  assumes "parseHigh ctx limits k input st = Inr (n, k', st')" "input \<noteq> []"
  shows "0 < n"
  using assms decode_rune_size [OF assms(2)]
  by (auto simp: parseHigh_def Let_def result_simps split: prod.splits if_splits option.splits)

lemma parseStep_progress:
  assumes "parseStep ctx limits k input st = Inr (n, k', st')" "input \<noteq> []"
  shows "0 < n"
proof (cases input)
  case (Cons c s)
  with assms show ?thesis
    by (auto simp: parseStep_def Let_def result_simps consumeEscapeSequence_def stopsText_def
        dest: parseHigh_progress scanText_bounds split: if_splits list.splits)
qed (use assms in simp)

function parseLoop :: "ansi_context \<Rightarrow> historyANSIParseLimits \<Rightarrow> nat \<Rightarrow> nat \<Rightarrow> string \<Rightarrow>
    parser_state \<Rightarrow> historyError + parser_state" where
  "parseLoop ctx limits polls index input st =
     (if input = [] then Inr st
      else case pollAt ctx index polls of
          Inl e \<Rightarrow> Inl e
        | Inr polls1 \<Rightarrow>
          (case parseStep ctx limits polls1 input st of
             Inl e \<Rightarrow> Inl e
           | Inr (n, polls2, st') \<Rightarrow> parseLoop ctx limits polls2 (index + n) (drop n input) st'))"
  by pat_completeness auto
termination
  by (relation "measure (\<lambda>(ctx, limits, polls, index, input, st). length input)")
    (auto dest: parseStep_progress)

declare parseLoop.simps [simp del]

definition parseHistoryANSIWithLimitsContext :: "ansi_context \<Rightarrow> string \<Rightarrow> historyANSIParseLimits \<Rightarrow>
    historyError + historyLine list" where
  "parseHistoryANSIWithLimitsContext ctx input limits =
     (if MaxLineBytes limits \<le> 0 \<or> MaxLines limits \<le> 0 \<or> MaxRunsPerLine limits \<le> 0 \<or>
         MaxRunsPerSnapshot limits \<le> 0 \<or> MaxStructuredBytes limits \<le> 0
      then Inl errHistoryANSIResourceLimit
      else bindR (ctxErr ctx 0) (\<lambda>polls.
        bindR (parseLoop ctx limits polls 0 input parser_init) (\<lambda>st.
        bindR (flushLine limits st) (\<lambda>st. Inr (ps_lines st)))))"

definition parseHistoryANSIContext :: "ansi_context \<Rightarrow> string \<Rightarrow> historyError + historyLine list" where
  "parseHistoryANSIContext ctx input =
     parseHistoryANSIWithLimitsContext ctx input
       \<lparr>MaxLineBytes = historyMaxLineBytes, MaxLines = historyMaxLinesPerSnapshot,
        MaxRunsPerLine = historyMaxRunsPerLine, MaxRunsPerSnapshot = historyMaxRunsPerSnapshot,
        MaxStructuredBytes = historyMaxStructuredBytes\<rparr>"

definition parseHistoryANSIWithLimits ::
  "string \<Rightarrow> historyANSIParseLimits \<Rightarrow> historyError + historyLine list" where
  "parseHistoryANSIWithLimits input limits =
     parseHistoryANSIWithLimitsContext (\<lambda>_. False) input limits"

definition parseHistoryANSI :: "string \<Rightarrow> historyError + historyLine list" where
  "parseHistoryANSI input = parseHistoryANSIContext (\<lambda>_. False) input"

subsection \<open>The effect of one iteration\<close>

text \<open>
  What an iteration may do to the state, whatever control sequence it consumes. A chunk of text it
  appends is a tab, a stretch of printable ASCII or the bytes of one rune of the input.
\<close>

inductive text_chunk :: "string \<Rightarrow> string \<Rightarrow> bool" where
  chunk_tab: "text_chunk input [CHR 0x09]"
| chunk_plain: "v \<noteq> [] \<Longrightarrow> list_all (\<lambda>c. \<not> stopsText c) v \<Longrightarrow> text_chunk input v"
| chunk_rune: "input \<noteq> [] \<Longrightarrow> 128 \<le> byte (hd input) \<Longrightarrow> decode_rune input = (r, n) \<Longrightarrow>
    \<not> isBidiControl r \<Longrightarrow> text_chunk input (take n input)"

inductive parse_effect ::
  "historyANSIParseLimits \<Rightarrow> string \<Rightarrow> parser_state \<Rightarrow> parser_state \<Rightarrow> bool"
  for limits input st where
  eff_skip: "parse_effect limits input st st"
| eff_style: "parse_effect limits input st (st\<lparr>ps_style := applySGR (ps_style st) params\<rparr>)"
| eff_flush: "flushLine limits st = Inr st' \<Longrightarrow> parse_effect limits input st st'"
| eff_text: "text_chunk input v \<Longrightarrow> appendText limits v st = Inr st' \<Longrightarrow>
    parse_effect limits input st st'"
| eff_bidi: "bidiControlLabel r = Some v \<Longrightarrow> appendText limits v st = Inr st' \<Longrightarrow>
    parse_effect limits input st (st'\<lparr>ps_lineBidiWarning := True\<rparr>)"

lemma applySequence_effect: "parse_effect limits input st (applySequence sgr params st)"
  by (simp add: applySequence_def eff_skip eff_style)

lemma parseHigh_effect:
  assumes "parseHigh ctx limits k input st = Inr (n, k', st')" "input \<noteq> []" "128 \<le> byte (hd input)"
  shows "parse_effect limits input st st'"
  using assms
  by (auto simp: parseHigh_def Let_def result_simps bidiControlLabel_def
      intro: parse_effect.intros applySequence_effect chunk_rune
      split: prod.splits if_splits option.splits)

lemma scanText_plain:
  "scanText ctx k i s = Inr (n, k') \<Longrightarrow> list_all (\<lambda>c. \<not> stopsText c) (take (n - i) s)"
proof (induction ctx k i s arbitrary: n rule: scanText.induct)
  case (2 ctx k i c s)
  then show ?case
    using scanText_bounds [of ctx _ "Suc i" s n k']
    by (auto simp: result_simps take_Cons' split: if_splits)
qed simp

lemma parseStep_effect:
  assumes "parseStep ctx limits k input st = Inr (n, k', st')" "input \<noteq> []"
  shows "parse_effect limits input st st'"
proof (cases "stopsText (hd input)")
  case True
  with assms show ?thesis
    by (auto simp: parseStep_def Let_def result_simps stopsText_def
        intro: parse_effect.intros applySequence_effect parseHigh_effect chunk_tab split: if_splits)
next
  case False
  then obtain m where m: "scanText ctx k 0 input = Inr (n, k')"
      "appendText limits (take n input) st = Inr st'"
    using assms(1) by (auto simp: parseStep_def Let_def result_simps stopsText_def split: if_splits)
  moreover have "0 < n" using parseStep_progress [OF assms] .
  ultimately have "text_chunk input (take n input)"
    using assms(2) scanText_plain [of ctx k 0 input n k'] by (intro chunk_plain) auto
  then show ?thesis using m(2) by (rule eff_text)
qed

lemma parseLoop_invariant:
  assumes "parseLoop ctx limits k index input st = Inr st'" "P input st"
    and "\<And>input st n st'. P input st \<Longrightarrow> input \<noteq> [] \<Longrightarrow> parse_effect limits input st st' \<Longrightarrow>
      P (drop n input) st'"
  shows "P [] st'"
  using assms
proof (induction ctx limits k index input st rule: parseLoop.induct)
  case (1 ctx limits k index input st)
  note step = "1.prems"(3)
  from "1.prems"(1,2) show ?case
    by (subst (asm) parseLoop.simps)
      (auto split: if_splits sum.splits intro!: "1.IH" intro: step dest: parseStep_effect)
qed

subsection \<open>Colours are well formed\<close>

definition color_ok :: "string \<Rightarrow> bool" where
  "color_ok s \<longleftrightarrow> s = [] \<or> length s = 7 \<and> hd s = CHR ''#'' \<and> list_all (\<lambda>c. c \<in> set hex_lower) (tl s)"

definition style_ok :: "historyStyle \<Rightarrow> bool" where
  "style_ok s \<longleftrightarrow> color_ok (Foreground s) \<and> color_ok (Background s)"

lemma hex_lower_nth: "n < 16 \<Longrightarrow> hex_lower ! n \<in> set hex_lower"
  by (intro nth_mem) (simp add: hex_lower_def)

lemma color_ok_rgb: "color_ok (rgbColor r g b)"
  by (simp add: color_ok_def rgbColor_def hex2_def hex_lower_nth)

lemma color_ok_base: "list_all color_ok ansiBase"
  by (simp add: ansiBase_def color_ok_def hex_lower_def)

lemma color_ok_ansi: "color_ok (ansiColor n)"
proof -
  have "ansiBase ! k \<in> set ansiBase" if "k < 16" for k
    using that by (intro nth_mem) (simp add: ansiBase_def)
  then have "color_ok (ansiBase ! nat n)" if "0 \<le> n" "n < 16"
    using that color_ok_base by (simp add: list_all_iff nat_less_iff)
  moreover have "color_ok []" by (simp add: color_ok_def)
  ultimately show ?thesis by (simp add: ansiColor_def Let_def color_ok_rgb)
qed

lemma color_ok_extended: "parseExtendedColor vs = Some (c, n) \<Longrightarrow> color_ok c"
  by (auto simp: parseExtendedColor_def color_ok_ansi color_ok_rgb split: if_splits)

lemma style_ok_zero [simp]: "style_ok zero_style"
  by (simp add: style_ok_def zero_style_def color_ok_def)

lemma style_ok_code: "style_ok s \<Longrightarrow> style_ok (applySGRCode code s)"
  unfolding applySGRCode_def
  by (simp add: color_ok_ansi style_ok_def zero_style_def color_ok_def [of "[]"])

lemma style_ok_color:
  "style_ok s \<Longrightarrow> color_ok c \<Longrightarrow> style_ok (s\<lparr>Foreground := c\<rparr>) \<and> style_ok (s\<lparr>Background := c\<rparr>)"
  by (simp add: style_ok_def)

lemma style_ok_codes: "style_ok s \<Longrightarrow> style_ok (applySGRCodes vs s)"
proof (induction vs s rule: applySGRCodes.induct)
  case (2 code vs s)
  have "style_ok (if code = 38 then s\<lparr>Foreground := c\<rparr> else s\<lparr>Background := c\<rparr>)"
    if "parseExtendedColor vs = Some (c, n)" for c n
    using that "2.prems" style_ok_color color_ok_extended by auto
  with 2 show ?case
    by (cases "parseExtendedColor vs") (auto simp: style_ok_code)
qed simp

lemma style_ok_sgr: "style_ok s \<Longrightarrow> style_ok (applySGR s raw)"
  by (simp add: applySGR_def Let_def style_ok_codes split: option.split)

subsection \<open>The parser's invariant\<close>

text \<open>A byte that the page may show: printable ASCII, a tab, or part of a multi-byte rune.\<close>

definition visible :: "char \<Rightarrow> bool" where
  "visible c \<longleftrightarrow> c = CHR 0x09 \<or> 32 \<le> byte c \<and> byte c \<noteq> 127"

definition run_ok :: "historyRun \<Rightarrow> bool" where
  "run_ok r \<longleftrightarrow> Text r \<noteq> [] \<and> list_all visible (Text r) \<and>
     (case Style r of None \<Rightarrow> True | Some s \<Rightarrow> s \<noteq> zero_style \<and> style_ok s)"

definition line_bytes :: "historyLine \<Rightarrow> int" where
  "line_bytes l = (\<Sum>r \<leftarrow> Runs l. int (length (Text r)))"

definition line_ok :: "historyANSIParseLimits \<Rightarrow> historyLine \<Rightarrow> bool" where
  "line_ok limits l \<longleftrightarrow> int (length (Runs l)) \<le> MaxRunsPerLine limits \<and>
     line_bytes l \<le> MaxLineBytes limits \<and> list_all run_ok (Runs l) \<and> distinct_adj (map Style (Runs l))"

definition line_cost :: "historyLine \<Rightarrow> int" where
  "line_cost l = historyStructuredRunOverhead * int (length (Runs l)) + line_bytes l"

definition total_runs :: "historyLine list \<Rightarrow> int" where
  "total_runs ls = (\<Sum>l \<leftarrow> ls. int (length (Runs l)))"

definition structured_size :: "historyLine list \<Rightarrow> int" where
  "structured_size ls = (\<Sum>l \<leftarrow> ls. historyStructuredLineOverhead + line_cost l)"

text \<open>The line being built.\<close>

definition current_line :: "parser_state \<Rightarrow> historyLine" where
  "current_line st = \<lparr>Runs = map runOf (ps_runs st), BidiWarning = ps_lineBidiWarning st\<rparr>"

definition parser_inv :: "historyANSIParseLimits \<Rightarrow> parser_state \<Rightarrow> bool" where
  "parser_inv limits st \<longleftrightarrow> list_all (line_ok limits) (ps_lines st) \<and> line_ok limits (current_line st) \<and>
     style_ok (ps_style st) \<and> ps_lineBytes st = line_bytes (current_line st) \<and>
     ps_totalRuns st = total_runs (ps_lines st) + int (length (ps_runs st)) \<and>
     ps_structuredBytes st = structured_size (ps_lines st) + line_cost (current_line st) \<and>
     int (length (ps_lines st)) \<le> MaxLines limits \<and> ps_totalRuns st \<le> MaxRunsPerSnapshot limits \<and>
     ps_structuredBytes st \<le> MaxStructuredBytes limits"

lemma equalHistoryStyle_iff:
  "style \<noteq> Some zero_style \<Longrightarrow>
     equalHistoryStyle style s \<longleftrightarrow> style = (if s \<noteq> zero_style then Some s else None)"
  by (auto simp: equalHistoryStyle_def split: option.splits)

lemma distinct_adj_snoc:
  "distinct_adj (xs @ [x]) \<longleftrightarrow> distinct_adj xs \<and> (xs \<noteq> [] \<longrightarrow> last xs \<noteq> x)"
  by (induction xs) (auto simp: distinct_adj_Cons neq_Nil_conv)

lemma appendText_cases:
  assumes "appendText limits v st = Inr st'"
  obtains (extend) pre b where "ps_runs st = pre @ [b]"
      "st' = st\<lparr>ps_structuredBytes := ps_structuredBytes st + int (length v),
         ps_lineBytes := ps_lineBytes st + int (length v),
         ps_runs := pre @ [b\<lparr>rb_text := rb_text b @ v\<rparr>]\<rparr>"
      "int (length v) \<le> MaxLineBytes limits - ps_lineBytes st"
      "int (length v) \<le> MaxStructuredBytes limits - ps_structuredBytes st"
  | (fresh) b where "b = \<lparr>rb_text = v, rb_style = (if ps_style st \<noteq> zero_style then Some (ps_style st) else None)\<rparr>"
      "ps_runs st = [] \<or> \<not> equalHistoryStyle (rb_style (last (ps_runs st))) (ps_style st)"
      "st' = st\<lparr>ps_structuredBytes := ps_structuredBytes st + int (length v) + historyStructuredRunOverhead,
         ps_lineBytes := ps_lineBytes st + int (length v),
         ps_runs := ps_runs st @ [b], ps_totalRuns := ps_totalRuns st + 1\<rparr>"
      "int (length v) \<le> MaxLineBytes limits - ps_lineBytes st"
      "int (length v) + historyStructuredRunOverhead \<le> MaxStructuredBytes limits - ps_structuredBytes st"
      "int (length (ps_runs st)) < MaxRunsPerLine limits" "ps_totalRuns st < MaxRunsPerSnapshot limits"
proof (cases "ps_runs st = [] \<or> \<not> equalHistoryStyle (rb_style (last (ps_runs st))) (ps_style st)")
  case True
  with assms show thesis
    by (intro fresh [OF refl True])
      (auto simp: appendText_def startRun_def reserveStructured_def writeLast_def Let_def result_simps
        split: if_splits)
next
  case False
  then have "ps_runs st = butlast (ps_runs st) @ [last (ps_runs st)]" by simp
  with assms False show thesis
    by (intro extend) (auto simp: appendText_def reserveStructured_def writeLast_def Let_def
        result_simps split: if_splits)
qed

lemma line_bytes_snoc:
  "line_bytes \<lparr>Runs = rs @ [r], BidiWarning = w\<rparr> =
     line_bytes \<lparr>Runs = rs, BidiWarning = w'\<rparr> + int (length (Text r))"
  by (simp add: line_bytes_def)

lemma line_bytes_nonneg: "0 \<le> line_bytes l"
  unfolding line_bytes_def by (intro sum_list_nonneg) auto

lemma appendText_inv:
  assumes inv: "parser_inv limits st" and app: "appendText limits v st = Inr st'"
    and v: "v \<noteq> []" "list_all visible v"
  shows "parser_inv limits st'"
  using app
proof (cases rule: appendText_cases)
  case (extend pre b)
  then have "current_line st = \<lparr>Runs = map runOf pre @ [runOf b], BidiWarning = ps_lineBidiWarning st\<rparr>"
    "current_line st' = \<lparr>Runs = map runOf pre @ [(runOf b)\<lparr>Text := Text (runOf b) @ v\<rparr>],
       BidiWarning = ps_lineBidiWarning st\<rparr>"
    by (simp_all add: current_line_def runOf_def)
  with inv extend v show ?thesis
    by (auto simp: parser_inv_def line_ok_def line_bytes_def line_cost_def run_ok_def)
next
  case (fresh b)
  have runs: "current_line st' =
      \<lparr>Runs = map runOf (ps_runs st) @ [runOf b], BidiWarning = ps_lineBidiWarning st\<rparr>"
    using fresh by (simp add: current_line_def)
  have ok: "run_ok (runOf b)"
    using fresh(1) v inv by (simp add: run_ok_def runOf_def parser_inv_def)
  have "last (map Style (map runOf (ps_runs st))) \<noteq> rb_style b" if ne: "ps_runs st \<noteq> []"
  proof -
    have "run_ok (runOf (last (ps_runs st)))"
      using inv ne by (simp add: parser_inv_def line_ok_def current_line_def list_all_iff)
    then have "rb_style (last (ps_runs st)) \<noteq> Some zero_style"
      by (auto simp: run_ok_def runOf_def)
    then show ?thesis
      using fresh(1,2) ne by (auto simp: equalHistoryStyle_iff last_map runOf_def)
  qed
  then have "distinct_adj (map Style (map runOf (ps_runs st)) @ [rb_style b])"
    using inv by (auto simp: distinct_adj_snoc parser_inv_def line_ok_def current_line_def)
  with inv fresh ok runs show ?thesis
    by (auto simp: parser_inv_def line_ok_def line_bytes_def line_cost_def current_line_def runOf_def
        algebra_simps)
qed

lemma flushLine_inv:
  assumes "parser_inv limits st" "flushLine limits st = Inr st'" "0 \<le> MaxLineBytes limits"
    "0 \<le> MaxRunsPerLine limits"
  shows "parser_inv limits st'"
  using assms
  by (auto simp: parser_inv_def flushLine_def reserveStructured_def result_simps current_line_def
      total_runs_def structured_size_def line_cost_def line_bytes_def line_ok_def split: if_splits)

lemma plain_visible: "\<not> stopsText c \<Longrightarrow> visible c"
  using of_char_eq_iff [of c "CHR 0x7F", where ?'a = nat] by (auto simp: stopsText_def visible_def)

lemma decode_rune_high_bytes:
  "decode_rune s = (r, n) \<Longrightarrow> s \<noteq> [] \<Longrightarrow> 128 \<le> byte (hd s) \<Longrightarrow> c \<in> set (take n s) \<Longrightarrow> 128 \<le> byte c"
  by (auto simp: decode_rune_def Let_def utf8_second_def utf8_cont_def
      split: list.splits if_splits)

lemma text_chunk_visible: "text_chunk input v \<Longrightarrow> v \<noteq> [] \<and> list_all visible v"
proof (induction rule: text_chunk.induct)
  case (chunk_rune input r n)
  have "0 < n" using decode_rune_size [OF chunk_rune(1)] chunk_rune(3) by simp
  moreover have "visible c" if "c \<in> set (take n input)" for c
    using decode_rune_high_bytes [OF chunk_rune(3,1,2) that] by (simp add: visible_def)
  ultimately show ?case using chunk_rune(1) by (simp add: list_all_iff)
next
  case (chunk_plain v)
  then show ?case by (auto simp: list_all_iff plain_visible)
qed (simp add: visible_def)

lemma hex4_visible: "list_all visible (hex4 n)"
proof -
  have "list_all visible hex_upper" by (simp add: hex_upper_def visible_def)
  then have "visible (hex_upper ! k)" if "k < 16" for k
    using that by (simp add: list_all_length hex_upper_def)
  then show ?thesis by (simp add: hex4_def)
qed

lemma bidi_label_visible: "bidiControlLabel r = Some v \<Longrightarrow> v \<noteq> [] \<and> list_all visible v"
  using hex4_visible [of r] by (auto simp: bidiControlLabel_def visible_def split: if_splits)

lemma parse_effect_inv:
  assumes "parse_effect limits input st st'" "parser_inv limits st"
    "0 \<le> MaxLineBytes limits" "0 \<le> MaxRunsPerLine limits"
  shows "parser_inv limits st'"
  using assms(1)
proof cases
  case eff_skip
  then show ?thesis using assms(2) by simp
next
  case (eff_style params)
  then show ?thesis
    using assms(2) by (simp add: parser_inv_def current_line_def style_ok_sgr)
next
  case eff_flush
  then show ?thesis using assms flushLine_inv by blast
next
  case (eff_text v)
  then show ?thesis using assms(2) appendText_inv text_chunk_visible by blast
next
  case (eff_bidi r v st1)
  then have "parser_inv limits st1" using assms(2) appendText_inv bidi_label_visible by blast
  then show ?thesis
    using eff_bidi(1) by (simp add: parser_inv_def current_line_def line_ok_def line_cost_def line_bytes_def)
qed

lemma parser_inv_init:
  "0 \<le> MaxLineBytes limits \<Longrightarrow> 0 \<le> MaxLines limits \<Longrightarrow> 0 \<le> MaxRunsPerLine limits \<Longrightarrow>
   0 \<le> MaxRunsPerSnapshot limits \<Longrightarrow> 0 \<le> MaxStructuredBytes limits \<Longrightarrow> parser_inv limits parser_init"
  by (simp add: parser_inv_def parser_init_def current_line_def line_ok_def line_bytes_def
      line_cost_def total_runs_def structured_size_def)

lemma parse_cases:
  assumes "parseHistoryANSIWithLimitsContext ctx input limits = Inr lines"
  obtains k st st' where "0 < MaxLineBytes limits" "0 < MaxLines limits" "0 < MaxRunsPerLine limits"
    "0 < MaxRunsPerSnapshot limits" "0 < MaxStructuredBytes limits"
    "parseLoop ctx limits k 0 input parser_init = Inr st" "flushLine limits st = Inr st'"
    "lines = ps_lines st'"
  using assms
  by (fastforce simp: parseHistoryANSIWithLimitsContext_def result_simps split: if_splits)

lemma parse_final_inv:
  assumes "parseHistoryANSIWithLimitsContext ctx input limits = Inr lines"
  shows "\<exists>st. parser_inv limits st \<and> ps_runs st = [] \<and> lines = ps_lines st"
  using assms
proof (cases rule: parse_cases)
  case (1 k st st')
  have "parser_inv limits st"
    using parseLoop_invariant [OF 1(6), of "\<lambda>_. parser_inv limits"] parser_inv_init parse_effect_inv 1
    by (metis less_imp_le)
  then have "parser_inv limits st'" using flushLine_inv 1 by (metis less_imp_le)
  moreover have "ps_runs st' = []"
    using 1(7) by (auto simp: flushLine_def result_simps split: if_splits)
  ultimately show ?thesis using 1(8) by blast
qed

subsection \<open>Bidirectional controls\<close>

text \<open>
  A text is settled when its runes stay the same whatever follows it and none of them is a
  bidirectional control. Whole runes, ASCII and lone continuation bytes are settled; every suffix
  of valid UTF-8 is valid once its leading continuation bytes are dropped.
\<close>

definition settled :: "string \<Rightarrow> bool" where
  "settled t \<longleftrightarrow> (\<forall>b. runes (t @ b) = runes t @ runes b) \<and> list_all (\<lambda>r. \<not> isBidiControl r) (runes t)"

definition tail_utf8 :: "string \<Rightarrow> bool" where
  "tail_utf8 s \<longleftrightarrow> valid_utf8 (dropWhile utf8_cont s)"

lemma decode_rune_cont: "utf8_cont c \<Longrightarrow> decode_rune (c # s) = (rune_error, 1)"
  by (simp add: decode_rune_def utf8_cont_def)

lemma decode_rune_tail_cont:
  assumes "decode_rune (c # s) = (r, n)"
  shows "list_all utf8_cont (take (n - 1) s)"
  using assms
  by (auto simp: decode_rune_def Let_def utf8_second_def split: list.splits if_splits)

lemma runes_decode:
  assumes "decode_rune s = (r, n)" "s \<noteq> []"
  shows "runes s = r # runes (drop n s)"
  using assms by (subst runes.simps) simp

lemma runes_whole:
  assumes "decode_rune s = (r, n)" "s \<noteq> []" "(r, n) \<noteq> (rune_error, 1)"
  shows "runes (take n s @ t) = r # runes t"
proof -
  have "n \<le> length s" "0 < n" using decode_rune_size [OF assms(2)] assms(1) by auto
  then show ?thesis
    using runes_decode [OF decode_rune_stable [OF assms, of t]] assms(2) by simp
qed

lemma settled_rune:
  assumes "decode_rune s = (r, n)" "s \<noteq> []" "(r, n) \<noteq> (rune_error, 1)" "\<not> isBidiControl r"
  shows "settled (take n s)"
  using runes_whole [OF assms(1-3)] runes_whole [OF assms(1-3), of "[]"] assms(4)
  by (simp add: settled_def)

lemma settled_cont: "utf8_cont c \<Longrightarrow> settled [c]"
  using runes_decode [OF decode_rune_cont]
  by (simp add: settled_def rune_error_def isBidiControl_def)

lemma settled_append: "settled a \<Longrightarrow> settled b \<Longrightarrow> settled (a @ b)"
  by (simp add: settled_def)

lemma settled_Nil [simp]: "settled []"
  by (simp add: settled_def)

lemma settled_ascii: "list_all (\<lambda>c. byte c < 128) v \<Longrightarrow> settled v"
proof (induction v)
  case (Cons c v)
  moreover have "settled [c]"
    using Cons.prems by (simp add: settled_def runes_ascii isBidiControl_def)
  ultimately show ?case using settled_append [of "[c]" v] by simp
qed simp

lemma valid_no_cont: "valid_utf8 s \<Longrightarrow> dropWhile utf8_cont s = s"
  by (cases s) (auto simp: decode_rune_cont valid_utf8.simps [of "_ # _"])

lemma tail_utf8_tl:
  assumes "tail_utf8 (c # s)"
  shows "tail_utf8 s"
proof (cases "utf8_cont c")
  case False
  obtain r n where d: "decode_rune (c # s) = (r, n)" by fastforce
  have n: "0 < n" "n \<le> Suc (length s)" using decode_rune_size [of "c # s"] d by auto
  have "valid_utf8 (c # s)" using assms False by (simp add: tail_utf8_def)
  then have rest: "valid_utf8 (drop (n - 1) s)"
    using d n by (subst (asm) valid_utf8.simps) (cases n, auto)
  have "\<forall>x \<in> set (take (n - 1) s). utf8_cont x"
    using decode_rune_tail_cont [OF d] by (simp add: list_all_iff)
  then have "dropWhile utf8_cont s = dropWhile utf8_cont (drop (n - 1) s)"
    by (metis append_take_drop_id dropWhile_append2)
  then show ?thesis using rest by (simp add: tail_utf8_def valid_no_cont)
qed (use assms in \<open>simp add: tail_utf8_def\<close>)

lemma tail_utf8_drop: "tail_utf8 s \<Longrightarrow> tail_utf8 (drop n s)"
proof (induction n arbitrary: s)
  case (Suc n)
  then show ?case by (cases s) (auto dest: tail_utf8_tl)
qed simp

lemma tail_utf8_error:
  assumes "tail_utf8 s" "s \<noteq> []" "decode_rune s = (rune_error, 1)"
  shows "utf8_cont (hd s)"
proof (rule ccontr)
  assume "\<not> utf8_cont (hd s)"
  then have "valid_utf8 s" using assms(1,2) by (cases s) (auto simp: tail_utf8_def)
  then show False using assms(2,3) by (subst (asm) valid_utf8.simps) simp
qed

lemma text_chunk_settled: "text_chunk input v \<Longrightarrow> tail_utf8 input \<Longrightarrow> settled v"
proof (induction rule: text_chunk.induct)
  case (chunk_rune input r n)
  show ?case
  proof (cases "(r, n) = (rune_error, 1)")
    case True
    then have "settled [hd input]"
      using chunk_rune by (intro settled_cont tail_utf8_error) auto
    moreover have "take n input = [hd input]" using True chunk_rune(1) by (cases input) auto
    ultimately show ?thesis by simp
  qed (use chunk_rune settled_rune in blast)
next
  case (chunk_plain v)
  have "byte c < 128" if "\<not> stopsText c" for c using that by (simp add: stopsText_def)
  then have "list_all (\<lambda>c. byte c < 128) v"
    using chunk_plain(2) by (metis (mono_tags, lifting) list.pred_mono_strong)
  then show ?case by (rule settled_ascii)
qed (simp add: settled_ascii)

lemma bidi_label_settled: "bidiControlLabel r = Some v \<Longrightarrow> settled v"
proof -
  assume v: "bidiControlLabel r = Some v"
  have "list_all (\<lambda>c. byte c < 128) hex_upper" by (simp add: hex_upper_def)
  then have "byte (hex_upper ! k) < 128" if "k < 16" for k
    using that by (simp add: list_all_length hex_upper_def)
  then have "list_all (\<lambda>c. byte c < 128) (hex4 r)" by (simp add: hex4_def)
  with v show ?thesis
    by (intro settled_ascii) (auto simp: bidiControlLabel_def split: if_splits)
qed

definition texts_settled :: "parser_state \<Rightarrow> bool" where
  "texts_settled st \<longleftrightarrow> (\<forall>l \<in> set (ps_lines st). \<forall>r \<in> set (Runs l). settled (Text r)) \<and>
     (\<forall>b \<in> set (ps_runs st). settled (rb_text b))"

lemma appendText_settled:
  assumes "texts_settled st" "appendText limits v st = Inr st'" "settled v"
  shows "texts_settled st'"
  using assms(2)
proof (cases rule: appendText_cases)
  case (extend pre b)
  then show ?thesis using assms by (auto simp: texts_settled_def settled_append)
next
  case (fresh b)
  then show ?thesis using assms by (auto simp: texts_settled_def)
qed

lemma flushLine_settled:
  "texts_settled st \<Longrightarrow> flushLine limits st = Inr st' \<Longrightarrow> texts_settled st'"
  by (auto simp: texts_settled_def flushLine_def reserveStructured_def result_simps runOf_def
      split: if_splits)

lemma parse_effect_settled:
  assumes "parse_effect limits input st st'" "tail_utf8 input" "texts_settled st"
  shows "texts_settled st'"
  using assms(1)
proof cases
  case (eff_style params)
  then show ?thesis using assms(3) by (simp add: texts_settled_def)
next
  case (eff_bidi r v st1)
  then have "texts_settled st1" using assms(3) appendText_settled bidi_label_settled by blast
  then show ?thesis using eff_bidi(1) by (simp add: texts_settled_def)
qed (use assms flushLine_settled appendText_settled text_chunk_settled in blast)+

subsection \<open>Plain text\<close>

text \<open>On text without control bytes the parser splits at line feeds.\<close>

definition plain_line :: "string \<Rightarrow> historyLine" where
  "plain_line l = \<lparr>Runs = (if l = [] then [] else [\<lparr>Text = l, Style = None\<rparr>]), BidiWarning = False\<rparr>"

definition plain_state :: "historyLine list \<Rightarrow> parser_state" where
  "plain_state ls = \<lparr>ps_lines = ls, ps_runs = [], ps_style = zero_style, ps_lineBytes = 0,
     ps_lineBidiWarning = False, ps_totalRuns = total_runs ls, ps_structuredBytes = structured_size ls\<rparr>"

definition within_limits :: "historyANSIParseLimits \<Rightarrow> historyLine list \<Rightarrow> bool" where
  "within_limits limits ls \<longleftrightarrow> int (length ls) \<le> MaxLines limits \<and>
     list_all (\<lambda>l. int (length (Runs l)) \<le> MaxRunsPerLine limits \<and> line_bytes l \<le> MaxLineBytes limits) ls \<and>
     total_runs ls \<le> MaxRunsPerSnapshot limits \<and> structured_size ls \<le> MaxStructuredBytes limits"

lemma line_cost_nonneg: "0 \<le> line_cost l"
  using line_bytes_nonneg [of l] by (simp add: line_cost_def historyStructuredRunOverhead_def)

lemma total_runs_append [simp]: "total_runs (xs @ ys) = total_runs xs + total_runs ys"
  by (simp add: total_runs_def)

lemma structured_size_append [simp]:
  "structured_size (xs @ ys) = structured_size xs + structured_size ys"
  by (simp add: structured_size_def)

lemma total_runs_nonneg: "0 \<le> total_runs ls"
  unfolding total_runs_def by (intro sum_list_nonneg) auto

lemma structured_size_nonneg: "0 \<le> structured_size ls"
  unfolding structured_size_def
  by (intro sum_list_nonneg) (auto simp: historyStructuredLineOverhead_def line_cost_nonneg)

lemma within_limits_append: "within_limits limits (xs @ ys) \<Longrightarrow> within_limits limits xs"
  using total_runs_nonneg [of ys] structured_size_nonneg [of ys] by (simp add: within_limits_def)

lemma pollAt_background: "\<exists>k'. pollAt (\<lambda>_. False) i k = Inr k'"
  by (simp add: pollAt_def ctxErr_def)

lemma scanText_background:
  "list_all (\<lambda>c. \<not> stopsText c) v \<Longrightarrow> rest = [] \<or> stopsText (hd rest) \<Longrightarrow>
     \<exists>k'. scanText (\<lambda>_. False) k i (v @ rest) = Inr (i + length v, k')"
proof (induction v arbitrary: k i)
  case Nil
  then show ?case using pollAt_background [of i k] by (cases rest) auto
next
  case (Cons c v)
  obtain k1 where "pollAt (\<lambda>_. False) i k = Inr k1" using pollAt_background by blast
  then show ?case using Cons.prems Cons.IH [of k1 "Suc i"] by simp
qed

lemma stops_linefeed: "stopsText CHR 0x0A"
  by (simp add: stopsText_def)

text \<open>The state after the text of a line, before its line feed.\<close>

definition line_state :: "historyLine list \<Rightarrow> string \<Rightarrow> parser_state" where
  "line_state ls l = (if l = [] then plain_state ls
     else (plain_state ls)\<lparr>ps_runs := [\<lparr>rb_text = l, rb_style = None\<rparr>], ps_lineBytes := int (length l),
       ps_totalRuns := total_runs ls + 1, ps_structuredBytes := structured_size ls + line_cost (plain_line l)\<rparr>)"

lemma flush_line_state:
  assumes "within_limits limits (ls @ [plain_line l])"
  shows "flushLine limits (line_state ls l) = Inr (plain_state (ls @ [plain_line l]))"
  using assms
  by (auto simp: flushLine_def line_state_def plain_state_def plain_line_def reserveStructured_def
      within_limits_def runOf_def structured_size_def total_runs_def historyStructuredLineOverhead_def
      line_cost_def line_bytes_def)

lemma append_line_state:
  assumes "within_limits limits (ls @ [plain_line l])" "l \<noteq> []"
  shows "appendText limits l (plain_state ls) = Inr (line_state ls l)"
  using assms
  by (auto simp: appendText_def line_state_def plain_state_def plain_line_def reserveStructured_def
      within_limits_def structured_size_def total_runs_def historyStructuredLineOverhead_def
      line_cost_def line_bytes_def startRun_def writeLast_def historyStructuredRunOverhead_def Let_def)

lemma parse_line_text:
  assumes "list_all (\<lambda>c. \<not> stopsText c) l" "rest = [] \<or> stopsText (hd rest)"
    and lim: "within_limits limits (ls @ [plain_line l])"
  shows "\<exists>k' i'. parseLoop (\<lambda>_. False) limits k i (l @ rest) (plain_state ls) =
     parseLoop (\<lambda>_. False) limits k' i' rest (line_state ls l)"
proof (cases "l = []")
  case False
  obtain k1 where k1: "pollAt (\<lambda>_. False) i k = Inr k1" using pollAt_background by blast
  obtain k2 where k2: "scanText (\<lambda>_. False) k1 0 (l @ rest) = Inr (length l, k2)"
    using scanText_background [OF assms(1,2), of k1 0] by auto
  have h: "hd (l @ rest) = hd l" "\<not> stopsText (hd l)"
    using False assms(1) by (cases l; simp)+
  have "parseStep (\<lambda>_. False) limits k1 (l @ rest) (plain_state ls) =
      Inr (length l, k2, line_state ls l)"
    using h k2 append_line_state [OF lim False]
    by (auto simp: parseStep_def Let_def stopsText_def not_le)
  then show ?thesis
    using k1 False by (subst parseLoop.simps) (auto intro!: exI)
qed (auto simp: line_state_def)

lemma parse_plain_lines:
  assumes "ls \<noteq> []" "\<forall>l \<in> set ls. list_all (\<lambda>c. \<not> stopsText c) l"
    "within_limits limits (acc @ map plain_line ls)"
  shows "\<exists>st. parseLoop (\<lambda>_. False) limits k i (join ls [CHR 0x0A]) (plain_state acc) = Inr st \<and>
     flushLine limits st = Inr (plain_state (acc @ map plain_line ls))"
  using assms
proof (induction ls arbitrary: acc k i)
  case (Cons l ls)
  have lim: "within_limits limits (acc @ [plain_line l])"
    using within_limits_append [of limits "acc @ [plain_line l]"] Cons.prems(3) by simp
  have plain: "list_all (\<lambda>c. \<not> stopsText c) l" using Cons.prems(2) by simp
  show ?case
  proof (cases "ls = []")
    case True
    obtain k' i' where "parseLoop (\<lambda>_. False) limits k i l (plain_state acc) =
        parseLoop (\<lambda>_. False) limits k' i' [] (line_state acc l)"
      using parse_line_text [OF plain _ lim, of "[]" k i] by auto
    then show ?thesis using True flush_line_state [OF lim] by (simp add: parseLoop.simps [of _ _ _ _ "[]"])
  next
    case False
    let ?rest = "join ls [CHR 0x0A]"
    have j: "join (l # ls) [CHR 0x0A] = l @ CHR 0x0A # ?rest" using False by (cases ls) auto
    obtain k' i' where 1: "parseLoop (\<lambda>_. False) limits k i (l @ CHR 0x0A # ?rest) (plain_state acc) =
        parseLoop (\<lambda>_. False) limits k' i' (CHR 0x0A # ?rest) (line_state acc l)"
      using parse_line_text [OF plain _ lim, of "CHR 0x0A # ?rest" k i] stops_linefeed by auto
    obtain k2 where "pollAt (\<lambda>_. False) i' k' = Inr k2" using pollAt_background by blast
    then have "parseLoop (\<lambda>_. False) limits k' i' (CHR 0x0A # ?rest) (line_state acc l) =
        parseLoop (\<lambda>_. False) limits k2 (i' + 1) ?rest (plain_state (acc @ [plain_line l]))"
      using flush_line_state [OF lim] by (subst parseLoop.simps) (simp add: parseStep_def)
    with 1 j Cons.IH [OF False, of "acc @ [plain_line l]" k2 "i' + 1"] Cons.prems show ?thesis by simp
  qed
qed simp

text \<open>Evaluation of the parser on a given input.\<close>

lemmas parse_eval = Let_def parseHistoryANSI_def parseHistoryANSIContext_def
  parseHistoryANSIWithLimitsContext_def parseHistoryANSIWithLimits_def parseLoop.simps parseStep_def
  parseHigh_def pollAt_def ctxErr_def decode_rune_def utf8_second_def utf8_cont_def cont_bits_def
  rune_error_def bidiControlLabel_def isBidiControl_def appendText_def reserveStructured_def
  startRun_def writeLast_def equalHistoryStyle_def stopsText_def flushLine_def runOf_def
  consumeEscapeSequence_def applySequence_def applySGR_def normalizeSGRSeparators_def
  normalizeSGRGroup_def sgrValue_def parse_int_def parse_digits_def is_digit_def digit_val_def
  applySGRCode_def ansiColor_def ansiBase_def parser_init_def zero_style_def
  historyStructuredLineOverhead_def historyStructuredRunOverhead_def historyMaxSGRBytes_def
  hex4_def hex_upper_def

subsection \<open>Properties\<close>

text \<open>
  Every parsed history respects every resource limit: the number of lines, the runs and the text
  bytes of each line, the runs of the whole history, and its structured size, computed with the
  overhead of 32 bytes per line and 96 per run. This holds for every input and whenever the
  context is polled.
\<close>

theorem history_parse_limits:
  assumes "parseHistoryANSIWithLimitsContext ctx input limits = Inr lines"
  shows "within_limits limits lines"
proof -
  obtain st where "parser_inv limits st" "ps_runs st = []" "lines = ps_lines st"
    using parse_final_inv [OF assms] by blast
  then show ?thesis
    using line_cost_nonneg [of "current_line st"]
    by (auto simp: parser_inv_def within_limits_def line_ok_def list_all_iff)
qed

definition small_limits :: historyANSIParseLimits where
  "small_limits = \<lparr>MaxLineBytes = 20, MaxLines = 3, MaxRunsPerLine = 2, MaxRunsPerSnapshot = 3,
     MaxStructuredBytes = 400\<rparr>"

definition red_input :: string where
  "red_input = ''ab'' @ [CHR 0x1B] @ ''[31mc'' @ [CHR 0x0A] @ ''d''"

definition red_lines :: "historyLine list" where
  "red_lines = [\<lparr>Runs = [\<lparr>Text = ''ab'', Style = None\<rparr>,
       \<lparr>Text = ''c'', Style = Some (zero_style\<lparr>Foreground := ''#cd0000''\<rparr>)\<rparr>], BidiWarning = False\<rparr>,
     \<lparr>Runs = [\<lparr>Text = ''d'', Style = Some (zero_style\<lparr>Foreground := ''#cd0000''\<rparr>)\<rparr>],
       BidiWarning = False\<rparr>]"

lemma red_input_parsed:
  "parseHistoryANSIWithLimitsContext (\<lambda>_. False) red_input small_limits = Inr red_lines"
  by (simp add: parse_eval red_input_def red_lines_def small_limits_def)

theorem history_parse_limits_witness: "within_limits small_limits red_lines"
  using history_parse_limits [OF red_input_parsed] .

text \<open>
  C32. Parsed history is clean and canonical: every run holds text, its text has no control byte
  other than the tab (no escape, no delete, no line end), colours are empty or \<open>#rrggbb\<close>, an
  unstyled run has no style object, and neighbouring runs of a line differ in style.
\<close>

theorem history_parse_canonical:
  assumes "parseHistoryANSIWithLimitsContext ctx input limits = Inr lines" "l \<in> set lines"
  shows "list_all run_ok (Runs l) \<and> distinct_adj (map Style (Runs l))"
  using parse_final_inv [OF assms(1)] assms(2) by (auto simp: parser_inv_def line_ok_def list_all_iff)

theorem history_parse_canonical_witness:
  "list_all run_ok (Runs (hd red_lines)) \<and> distinct_adj (map Style (Runs (hd red_lines)))"
  using history_parse_canonical [OF red_input_parsed, of "hd red_lines"] by (simp add: red_lines_def)

text \<open>
  C33. No line parsed from valid UTF-8 shows a bidirectional control: no rune of any run's text is one,
  however control sequences cut the input, since each is replaced by a printable label.
\<close>

theorem history_no_bidi:
  assumes "valid_utf8 input" "parseHistoryANSIWithLimitsContext ctx input limits = Inr lines"
    and "l \<in> set lines" "r \<in> set (Runs l)"
  shows "list_all (\<lambda>c. \<not> isBidiControl c) (runes (Text r))"
  using assms(2)
proof (cases rule: parse_cases)
  case (1 k st st')
  let ?P = "\<lambda>input st. tail_utf8 input \<and> texts_settled st"
  have "?P input parser_init"
    using assms(1) by (simp add: texts_settled_def parser_init_def tail_utf8_def valid_no_cont)
  then have "?P [] st"
    using parseLoop_invariant [OF 1(6), of ?P] parse_effect_settled tail_utf8_drop by blast
  then have "texts_settled st'" using flushLine_settled 1(7) by blast
  then show ?thesis using assms(3,4) 1(8) by (auto simp: texts_settled_def settled_def)
qed

definition rlo_input :: string where
  "rlo_input = [CHR 0x1B, CHR 0x5D, CHR 0xE2, CHR 0x80, CHR 0x9C, CHR 0xE2, CHR 0x80, CHR 0xAE]"

definition rlo_lines :: "historyLine list" where
  "rlo_lines = [\<lparr>Runs = [\<lparr>Text = ''[BIDI U+202E]'', Style = None\<rparr>], BidiWarning = True\<rparr>]"

theorem history_no_bidi_witness:
  "list_all (\<lambda>c. \<not> isBidiControl c) (runes ''[BIDI U+202E]'')"
proof -
  have "valid_utf8 rlo_input"
    by (simp add: rlo_input_def valid_utf8.simps decode_rune_def utf8_second_def utf8_cont_def
        cont_bits_def rune_error_def)
  moreover have "parseHistoryANSIWithLimitsContext (\<lambda>_. False) rlo_input small_limits = Inr rlo_lines"
    by (simp add: parse_eval rlo_input_def rlo_lines_def small_limits_def)
  ultimately show ?thesis
    using history_no_bidi [of rlo_input "\<lambda>_. False" small_limits rlo_lines "hd rlo_lines"
        "hd (Runs (hd rlo_lines))"]
    by (simp add: rlo_lines_def)
qed

text \<open>
  On input that is not valid UTF-8 the replacement can be evaded: the bytes of U+202E, cut by a
  control byte that the parser drops, are copied one by one as invalid bytes and join again in the
  run's text, a right-to-left override, and the line carries no warning.
\<close>

theorem history_bidi_split:
  "parseHistoryANSI [CHR 0xE2, CHR 0x00, CHR 0x80, CHR 0xAE] =
     Inr [\<lparr>Runs = [\<lparr>Text = [CHR 0xE2, CHR 0x80, CHR 0xAE], Style = None\<rparr>], BidiWarning = False\<rparr>] \<and>
   runes [CHR 0xE2, CHR 0x80, CHR 0xAE] = [0x202E] \<and> isBidiControl 0x202E"
  by (simp add: parse_eval runes.simps historyMaxLineBytes_def historyMaxLinesPerSnapshot_def
      historyMaxRunsPerLine_def historyMaxRunsPerSnapshot_def historyMaxStructuredBytes_def)

text \<open>
  Plain text is unchanged: if the input holds no control bytes other than line feeds and no
  multi-byte runes, and its lines fit the limits, then the result is exactly those lines, each one
  unstyled run (none for an empty line).
\<close>

theorem history_plain_text:
  assumes "\<forall>l \<in> set (split input CHR 0x0A). list_all (\<lambda>c. \<not> stopsText c) l"
    and "lines = map plain_line (split input CHR 0x0A)" "within_limits limits lines"
    and "0 < MaxLineBytes limits" "0 < MaxRunsPerLine limits" "0 < MaxRunsPerSnapshot limits"
  shows "parseHistoryANSIWithLimits input limits = Inr lines"
proof -
  have init: "parser_init = plain_state []"
    by (simp add: parser_init_def plain_state_def total_runs_def structured_size_def)
  have "lines \<noteq> []" using assms(2) by simp
  then have pos: "0 < MaxLines limits" "0 < MaxStructuredBytes limits"
    using assms(3) line_cost_nonneg [of "hd lines"] structured_size_nonneg [of "tl lines"]
      structured_size_append [of "[hd lines]" "tl lines"]
    by (auto simp: within_limits_def structured_size_def historyStructuredLineOverhead_def
        neq_Nil_conv)
  have "\<exists>st. parseLoop (\<lambda>_. False) limits 1 0 (join (split input CHR 0x0A) [CHR 0x0A]) (plain_state []) =
      Inr st \<and> flushLine limits st = Inr (plain_state lines)"
    using parse_plain_lines [of "split input CHR 0x0A" limits "[]"] assms(1-3) by simp
  then show ?thesis
    using assms(4-6) pos
    by (auto simp: parseHistoryANSIWithLimits_def parseHistoryANSIWithLimitsContext_def ctxErr_def
        join_split init plain_state_def)
qed

theorem history_plain_text_witness:
  "parseHistoryANSIWithLimits (''ls'' @ [CHR 0x0A, CHR 0x0A] @ ''ok'') small_limits =
     Inr [plain_line ''ls'', plain_line [], plain_line ''ok'']"
proof -
  have "within_limits small_limits [plain_line ''ls'', plain_line [], plain_line ''ok'']" by code_simp
  then show ?thesis
    using history_plain_text [of "''ls'' @ [CHR 0x0A, CHR 0x0A] @ ''ok''"
        "[plain_line ''ls'', plain_line [], plain_line ''ok'']" small_limits]
    by (simp add: stopsText_def small_limits_def)
qed

end
