(* ===== verification/Tmux.thy ===== *)
theory Tmux
  imports Go_Encoding
begin

section \<open>The tmux client\<close>

text \<open>
  \<^verbatim>\<open>internal/tmux/tmux.go\<close>: the commands sent to tmux and the parsers of its answers. tmux itself is
  outside the program: the command runner is a record of programs over a world \<open>'w\<close>, an argument
  of every operation that runs a command, as the \<^verbatim>\<open>CommandRunner\<close> field is in the code. The two
  optional interfaces a runner may implement are options. A command is the list of the binary's
  name and its arguments.

  A wrapped error is the error it wraps, with the text that is not tested left out.

  The lemmas show which commands an operation may issue and with which targets, that a paste buffer
  is deleted on every path, what a parsed topology guarantees, that the parsers invert tmux's
  formats, which client a resize follows, and that the search for an ancestor process ends with the
  right answer.
\<close>

subsection \<open>Types\<close>

datatype tmuxError =
    ExitError
  | ErrUnsupportedKey string
  | ErrUnsupportedControlAction string
  | ErrInvalidControlRequest string
  | ErrInvalidPaste
  | ErrInvalidInput
  | ErrSnapshotTooLarge
  | ErrPaneGenerationChanged
  | ErrText string
  | ErrJoin tmuxError tmuxError

type_synonym ('w, 'a) tmux = "('w, tmuxError, 'a) prog"

record 'w CommandRunner =
  rn_Output :: "string list \<Rightarrow> ('w, string) tmux"
  rn_Run :: "string list \<Rightarrow> ('w, unit) tmux"
  rn_RunWithInput :: "(string \<Rightarrow> string list \<Rightarrow> ('w, unit) tmux) option"
  rn_OutputLimited :: "(int \<Rightarrow> string list \<Rightarrow> ('w, string) tmux) option"

record 'w Client =
  cl_runner :: "'w CommandRunner"
  cl_processDescendant :: "(int \<Rightarrow> int \<Rightarrow> bool) option"
  cl_binary :: string

record HistoryMetadata =
  Columns :: int
  Rows :: int
  HistorySize :: int
  HistoryLimit :: int
  HistoryBytes :: int
  AlternateScreen :: bool
  OutputEpoch :: int

record HistoryCapture =
  hc_Text :: string
  hc_Before :: HistoryMetadata
  hc_After :: HistoryMetadata

record Window =
  wn_Index :: int
  wn_Name :: string
  wn_Active :: bool
  wn_Panes :: int

record TmuxPaneGeneration =
  ServerStart :: string
  ServerPID :: int
  GenPaneID :: string

record TopologyPane =
  tp_ID :: string
  tp_WindowID :: string
  tp_Name :: string
  tp_Active :: bool
  tp_WindowName :: string
  tp_WindowOpen :: bool
  tp_Width :: int
  tp_Height :: int
  tp_Generation :: TmuxPaneGeneration

record Topology =
  to_ServerStart :: string
  to_ServerPID :: int
  to_Panes :: "TopologyPane list"

record ResizeState =
  rs_Mode :: string
  rs_ClientName :: string
  rs_Width :: int
  rs_Height :: int

record ResizeClient =
  rc_Name :: string
  rc_PID :: int
  rc_Width :: int
  rc_Height :: int
  rc_Activity :: int
  rc_StatusOn :: bool
  rc_Web :: bool

record ManagedSessionOptions =
  mo_WindowSize :: string
  mo_Mouse :: string
  mo_StatusLeft :: string
  mo_SSHAuthSock :: string

record resizeClientView =
  rv_name :: string
  rv_pid :: int
  rv_width :: int
  rv_height :: int
  rv_heightIsWindow :: bool
  rv_activity :: int
  rv_statusOn :: bool

definition MaxPasteBytes :: nat where "MaxPasteBytes = 64 * 1024"
definition ManagedHistoryLimit :: int where "ManagedHistoryLimit = 50000"
definition managedWindowHook :: string where "managedWindowHook = ''window-linked[900]''"
definition managedWindowCommand :: string where
  "managedWindowCommand = ''set-option -w window-size manual''"

text \<open>The unit separator \<^verbatim>\<open>\x1f\<close> between the fields of a format.\<close>

abbreviation US :: char where "US \<equiv> CHR 0x1F"
abbreviation LF :: char where "LF \<equiv> CHR 0x0A"

definition rawWindowIDPattern :: "string \<Rightarrow> bool" where
  "rawWindowIDPattern s \<longleftrightarrow> (case s of c # r \<Rightarrow> c = CHR ''@'' \<and> r \<noteq> [] \<and> list_all is_digit r | [] \<Rightarrow> False)"

definition rawPaneIDPattern :: "string \<Rightarrow> bool" where
  "rawPaneIDPattern s \<longleftrightarrow> (case s of c # r \<Rightarrow> c = CHR ''%'' \<and> r \<noteq> [] \<and> list_all is_digit r | [] \<Rightarrow> False)"

definition positiveDecimalPattern :: "string \<Rightarrow> bool" where
  "positiveDecimalPattern s \<longleftrightarrow>
     (case s of c # r \<Rightarrow> is_digit c \<and> c \<noteq> CHR ''0'' \<and> list_all is_digit r | [] \<Rightarrow> False)"

definition supportedKeys :: "(string, string) gomap" where
  "supportedKeys =
     [(''ctrl-a'', ''C-a''), (''ctrl-c'', ''C-c''), (''ctrl-d'', ''C-d''), (''ctrl-e'', ''C-e''),
      (''ctrl-k'', ''C-k''), (''ctrl-l'', ''C-l''), (''ctrl-r'', ''C-r''), (''ctrl-u'', ''C-u''),
      (''ctrl-w'', ''C-w''), (''ctrl-z'', ''C-z''), (''escape'', ''Escape''), (''tab'', ''Tab''),
      (''enter'', ''Enter''), (''backspace'', ''BSpace''), (''delete'', ''DC''), (''up'', ''Up''),
      (''down'', ''Down''), (''left'', ''Left''), (''right'', ''Right''), (''home'', ''Home''),
      (''end'', ''End''), (''page-up'', ''PPage''), (''page-down'', ''NPage'')]"

subsection \<open>Commands\<close>

definition cl_run :: "'w Client \<Rightarrow> string list \<Rightarrow> ('w, unit) tmux" where
  "cl_run c args = rn_Run (cl_runner c) (cl_binary c # args)"

definition cl_output :: "'w Client \<Rightarrow> string list \<Rightarrow> ('w, string) tmux" where
  "cl_output c args = rn_Output (cl_runner c) (cl_binary c # args)"

definition UTF8Environment :: "string list \<Rightarrow> string list" where
  "UTF8Environment environment =
     filter (\<lambda>entry. let name = (case cut entry CHR ''='' of None \<Rightarrow> entry | Some (a, b) \<Rightarrow> a) in
        name \<noteq> ''LANG'' \<and> name \<noteq> ''LC_ALL'') environment @
     [''LANG=C.UTF-8'', ''LC_ALL=C.UTF-8'']"

definition NewClientWithRunner ::
  "(int \<Rightarrow> int \<Rightarrow> bool) \<Rightarrow> 'w CommandRunner \<Rightarrow> 'w Client" where
  "NewClientWithRunner descends runner =
     \<lparr>cl_runner = runner, cl_processDescendant = Some descends, cl_binary = ''tmux''\<rparr>"

definition NewClientWithBinary ::
  "(int \<Rightarrow> int \<Rightarrow> bool) \<Rightarrow> 'w CommandRunner \<Rightarrow> string \<Rightarrow> 'w Client" where
  "NewClientWithBinary descends exec binary =
     (let client = NewClientWithRunner descends exec in
      if trim_space binary \<noteq> [] then client\<lparr>cl_binary := binary\<rparr> else client)"

definition HasSession :: "'w Client \<Rightarrow> string \<Rightarrow> ('w, bool) tmux" where
  "HasSession c target =
     tryP (cl_run c [''has-session'', ''-t'', target]) (\<lambda>r.
       case r of Inr _ \<Rightarrow> returnP True
       | Inl ExitError \<Rightarrow> returnP False
       | Inl err \<Rightarrow> failP err)"

definition ConfigureHistory :: "'w Client \<Rightarrow> string \<Rightarrow> ('w, unit) tmux" where
  "ConfigureHistory c target =
     cl_run c [''set-option'', ''-t'', target, ''history-limit'', itoa ManagedHistoryLimit]"

definition managedWindowIDs :: "'w Client \<Rightarrow> string \<Rightarrow> ('w, string list) tmux" where
  "managedWindowIDs c target =
     bindP (cl_output c [''list-windows'', ''-t'', target, ''-F'', ''#{window_id}'']) (\<lambda>output.
       let windowIDs = str_fields output in
       if windowIDs = [] then failP (ErrText ''managed tmux session contains no windows'')
       else if \<not> list_all rawWindowIDPattern windowIDs then failP (ErrText ''unexpected tmux window id'')
       else returnP windowIDs)"

definition ConfigureManualWindowSize :: "'w Client \<Rightarrow> string \<Rightarrow> ('w, unit) tmux" where
  "ConfigureManualWindowSize c target =
     bindP (cl_run c [''set-hook'', ''-t'', target, managedWindowHook, managedWindowCommand]) (\<lambda>_.
     bindP (managedWindowIDs c target) (\<lambda>windowIDs.
       eachP (\<lambda>windowID. cl_run c [''set-option'', ''-w'', ''-t'', windowID, ''window-size'', ''manual''])
         windowIDs))"

definition escapeFormatLiteral :: "string \<Rightarrow> string" where
  "escapeFormatLiteral value = concat (map (\<lambda>c. if c = CHR ''#'' then ''##'' else [c]) value)"

definition ConfigureManagedSession ::
  "'w Client \<Rightarrow> string \<Rightarrow> ManagedSessionOptions \<Rightarrow> ('w, unit) tmux" where
  "ConfigureManagedSession c name options =
     bindP (ConfigureHistory c name) (\<lambda>_.
     bindP (ConfigureManualWindowSize c name) (\<lambda>_.
       eachP (cl_run c)
         ([[''set-option'', ''-t'', name, ''destroy-unattached'', ''off''],
           [''set-option'', ''-t'', name, ''mouse'', mo_Mouse options],
           [''set-option'', ''-t'', name, ''status-left-length'', ''80''],
           [''set-option'', ''-t'', name, ''status-left'', escapeFormatLiteral (mo_StatusLeft options)],
           [''set-option'', ''-t'', name, ''status-right'', ''#{pane_current_path}'']] @
          (if mo_SSHAuthSock options \<noteq> []
           then [[''set-environment'', ''-t'', name, ''SSH_AUTH_SOCK'', mo_SSHAuthSock options]] else []))))"

definition CreateManagedSession ::
  "'w Client \<Rightarrow> string \<Rightarrow> string \<Rightarrow> ManagedSessionOptions \<Rightarrow> ('w, unit) tmux" where
  "CreateManagedSession c name home options =
     (if trim_space home = [] then failP (ErrText ''managed session home directory cannot be empty'')
      else bindP (cl_run c
        ([''start-server'', '';'', ''new-session'', ''-d'', ''-s'', name, ''-c'', home] @
         (if mo_SSHAuthSock options \<noteq> [] then [''-e'', ''SSH_AUTH_SOCK='' @ mo_SSHAuthSock options] else []) @
         [cl_binary c, ''wait-for'', ''control-agents-bootstrap-'' @ name, '';'',
          ''set-option'', ''-t'', name, ''history-limit'', itoa ManagedHistoryLimit, '';'',
          ''set-hook'', ''-t'', name, managedWindowHook, managedWindowCommand, '';'',
          ''new-window'', ''-d'', ''-a'', ''-t'', name @ '':'', ''-c'', home, '';'',
          ''kill-window'', ''-t'', name @ '':'']))
        (\<lambda>_. ConfigureManagedSession c name options))"

definition SetSessionEnvironment ::
  "'w Client \<Rightarrow> string \<Rightarrow> string \<Rightarrow> string \<Rightarrow> ('w, unit) tmux" where
  "SetSessionEnvironment c target name value =
     (if trim_space name = [] \<or> CHR ''='' \<in> set name
      then failP (ErrText ''invalid tmux environment variable name'')
      else cl_run c [''set-environment'', ''-t'', target, name, value])"

definition KillSession :: "'w Client \<Rightarrow> string \<Rightarrow> ('w, unit) tmux" where
  "KillSession c target = cl_run c [''kill-session'', ''-t'', target]"

subsection \<open>History\<close>

definition parseHistoryMetadata :: "string \<Rightarrow> tmuxError + HistoryMetadata" where
  "parseHistoryMetadata output =
     (let parts = split (trim_space output) US;
          err = Inl (ErrText ''unexpected tmux history metadata format'') in
      if length parts \<noteq> 6 then err
      else case those (map parse_int parts) of
          None \<Rightarrow> err
        | Some values \<Rightarrow>
          if \<not> list_all (\<lambda>v. 0 \<le> v) values then err
          else if values ! 0 \<le> 0 \<or> values ! 1 \<le> 0 \<or> values ! 3 \<le> 0 \<or> values ! 5 > 1 then err
          else Inr \<lparr>Columns = values ! 0, Rows = values ! 1, HistorySize = values ! 2,
            HistoryLimit = values ! 3, HistoryBytes = values ! 4, AlternateScreen = (values ! 5 = 1),
            OutputEpoch = 0\<rparr>)"

definition historyMetadata :: "'w Client \<Rightarrow> string \<Rightarrow> ('w, HistoryMetadata) tmux" where
  "historyMetadata c target =
     (let format = join [''#{pane_width}'', ''#{pane_height}'', ''#{history_size}'',
        ''#{history_limit}'', ''#{history_bytes}'', ''#{alternate_on}''] [US] in
      bindP (cl_output c [''display-message'', ''-p'', ''-t'', target, format])
        (\<lambda>output. liftP (parseHistoryMetadata output)))"

definition HistoryActivity :: "'w Client \<Rightarrow> string \<Rightarrow> ('w, HistoryMetadata) tmux" where
  "HistoryActivity c target = historyMetadata c target"

text \<open>\<open>outputEpoch\<close> is the callback, a program over the world, or \<^verbatim>\<open>nil\<close>.\<close>

definition readEpoch :: "('w \<Rightarrow> int) option \<Rightarrow> int \<Rightarrow> ('w, int) tmux" where
  "readEpoch outputEpoch deflt =
     (case outputEpoch of None \<Rightarrow> returnP deflt | Some f \<Rightarrow> (\<lambda>w. (Inr (f w), w)))"

definition CaptureHistory ::
  "'w Client \<Rightarrow> string \<Rightarrow> int \<Rightarrow> ('w \<Rightarrow> int) option \<Rightarrow> ('w, HistoryCapture) tmux" where
  "CaptureHistory c target maxBytes outputEpoch =
     bindP (historyMetadata c target) (\<lambda>before0.
     bindP (readEpoch outputEpoch (OutputEpoch before0)) (\<lambda>epoch.
     let before = before0\<lparr>OutputEpoch := epoch\<rparr>;
         args = [''capture-pane'', ''-p'', ''-e'', ''-J'', ''-S'', ''-'', ''-E'', ''-'', ''-t'', target] in
     bindP (case rn_OutputLimited (cl_runner c) of
              Some limited \<Rightarrow> limited maxBytes (cl_binary c # args)
            | None \<Rightarrow> bindP (cl_output c args) (\<lambda>output.
                if int (length output) > maxBytes then failP ErrSnapshotTooLarge else returnP output))
       (\<lambda>output.
     bindP (readEpoch outputEpoch 0) (\<lambda>afterOutputEpoch.
     bindP (historyMetadata c target) (\<lambda>after.
       returnP \<lparr>hc_Text = trim_suffix output [LF], hc_Before = before,
         hc_After = after\<lparr>OutputEpoch := afterOutputEpoch\<rparr>\<rparr>)))))"

subsection \<open>Topology\<close>

definition parseServerIncarnation :: "string \<Rightarrow> tmuxError + string \<times> int" where
  "parseServerIncarnation output =
     (let parts = split (trim_space output) US;
          err = Inl (ErrText ''unexpected tmux server incarnation format'') in
      if length parts \<noteq> 2 \<or> \<not> positiveDecimalPattern (parts ! 0) \<or> \<not> positiveDecimalPattern (parts ! 1)
      then err
      else case parse_int (parts ! 1) of
          None \<Rightarrow> err
        | Some serverPID \<Rightarrow> if serverPID \<le> 0 then err else Inr (parts ! 0, serverPID))"

definition validServerIncarnation :: "string \<Rightarrow> int \<Rightarrow> bool" where
  "validServerIncarnation serverStart serverPID \<longleftrightarrow> positiveDecimalPattern serverStart \<and> serverPID > 0"

definition parseTopologyPane :: "string \<Rightarrow> int \<Rightarrow> string \<Rightarrow> TopologyPane option" where
  "parseTopologyPane serverStart serverPID line =
     (let parts = splitn line US 7 in
      if line = [] then None
      else if length parts \<noteq> 7 \<or> \<not> rawWindowIDPattern (parts ! 0) \<or> \<not> rawPaneIDPattern (parts ! 1) then None
      else case (parse_int (parts ! 4), parse_int (parts ! 5)) of
          (Some width, Some height) \<Rightarrow>
            if width \<le> 0 \<or> height \<le> 0 then None
            else Some \<lparr>tp_ID = parts ! 1, tp_WindowID = parts ! 0, tp_Name = [],
              tp_Active = (parts ! 3 = ''1''), tp_WindowName = parts ! 6, tp_WindowOpen = (parts ! 2 = ''1''),
              tp_Width = width, tp_Height = height,
              tp_Generation = \<lparr>ServerStart = serverStart, ServerPID = serverPID, GenPaneID = parts ! 1\<rparr>\<rparr>
        | _ \<Rightarrow> None)"

definition tmux_Topology :: "'w Client \<Rightarrow> string \<Rightarrow> ('w, Topology) tmux" where
  "tmux_Topology c target =
     bindP (cl_output c [''display-message'', ''-p'', ''-t'', target, ''#{start_time}'' @ [US] @ ''#{pid}''])
       (\<lambda>incarnationOutput.
     bindP (liftP (parseServerIncarnation incarnationOutput)) (\<lambda>(serverStart, serverPID).
     let format = join [''#{window_id}'', ''#{pane_id}'', ''#{window_active}'', ''#{pane_active}'',
       ''#{window_width}'', ''#{window_height}'', ''#{window_name}''] [US] in
     bindP (cl_output c [''list-panes'', ''-s'', ''-t'', target, ''-F'', format]) (\<lambda>output.
     let panes = List.map_filter (parseTopologyPane serverStart serverPID)
           (split (trim_right_set output [LF]) LF) in
     if panes = [] then failP (ErrText ''tmux topology contains no panes'')
     else returnP \<lparr>to_ServerStart = serverStart, to_ServerPID = serverPID, to_Panes = panes\<rparr>)))"

definition VerifyPaneGeneration ::
  "'w Client \<Rightarrow> string \<Rightarrow> TmuxPaneGeneration \<Rightarrow> ('w, unit) tmux" where
  "VerifyPaneGeneration c paneID expected =
     (if \<not> rawPaneIDPattern paneID \<or> paneID \<noteq> GenPaneID expected \<or>
         \<not> validServerIncarnation (ServerStart expected) (ServerPID expected)
      then failP ErrPaneGenerationChanged
      else tryP (cl_output c [''display-message'', ''-p'', ''-t'', paneID,
          ''#{start_time}'' @ [US] @ ''#{pid}'' @ [US] @ ''#{pane_id}'']) (\<lambda>r.
        case r of Inl err \<Rightarrow> failP ErrPaneGenerationChanged
        | Inr output \<Rightarrow>
          (let parts = split (trim_space output) US in
           if length parts \<noteq> 3 then failP ErrPaneGenerationChanged
           else case parseServerIncarnation (parts ! 0 @ [US] @ parts ! 1) of
               Inl err \<Rightarrow> failP ErrPaneGenerationChanged
             | Inr (serverStart, serverPID) \<Rightarrow>
                 if serverStart \<noteq> ServerStart expected \<or> serverPID \<noteq> ServerPID expected \<or>
                    parts ! 2 \<noteq> GenPaneID expected
                 then failP ErrPaneGenerationChanged else returnP ())))"

subsection \<open>Input\<close>

text \<open>\<open>random\<close> is the outcome of \<^verbatim>\<open>rand.Read\<close> on 18 bytes, \<open>None\<close> its failure.\<close>

definition tmux_Paste :: "'w Client \<Rightarrow> string option \<Rightarrow> string \<Rightarrow> string \<Rightarrow> ('w, unit) tmux" where
  "tmux_Paste c random target text =
     (if \<not> valid_utf8 text \<or> length text > MaxPasteBytes \<or> CHR 0x00 \<in> set text then failP ErrInvalidPaste
      else if text = [] then returnP ()
      else case rn_RunWithInput (cl_runner c) of
          None \<Rightarrow> failP (ErrText ''tmux command runner does not support stdin'')
        | Some runWithInput \<Rightarrow>
          (case random of
             None \<Rightarrow> failP (ErrText ''generate tmux paste buffer identity'')
           | Some bytes \<Rightarrow>
             (let buffer = ''control-agents-paste-'' @ b64_encode bytes in
              tryP (bindP (runWithInput text (cl_binary c # [''load-buffer'', ''-b'', buffer, ''-'']))
                     (\<lambda>_. cl_run c [''paste-buffer'', ''-p'', ''-r'', ''-b'', buffer, ''-t'', target]))
                (\<lambda>result. tryP (cl_run c [''delete-buffer'', ''-b'', buffer]) (\<lambda>cleanup.
                   case (result, cleanup) of
                     (Inr _, Inr _) \<Rightarrow> returnP ()
                   | (Inl e, Inr _) \<Rightarrow> failP e
                   | (Inr _, Inl e) \<Rightarrow> failP e
                   | (Inl e, Inl e') \<Rightarrow> failP (ErrJoin e e'))))))"

definition SendKey :: "'w Client \<Rightarrow> string \<Rightarrow> string \<Rightarrow> ('w, unit) tmux" where
  "SendKey c target key =
     (case map_of supportedKeys (to_lower (trim_space key)) of
        None \<Rightarrow> failP (ErrUnsupportedKey key)
      | Some k \<Rightarrow> cl_run c [''send-keys'', ''-t'', target, k])"

text \<open>\<open>isPrint\<close> is \<^verbatim>\<open>unicode.IsPrint\<close>, a table of the Unicode standard.\<close>

definition SendText :: "(rune \<Rightarrow> bool) \<Rightarrow> 'w Client \<Rightarrow> string \<Rightarrow> string \<Rightarrow> ('w, unit) tmux" where
  "SendText isPrint c target text =
     (if length (runes text) \<noteq> 1 \<or> (\<exists>r \<in> set (runes text). \<not> isPrint r) then failP ErrInvalidInput
      else cl_run c [''send-keys'', ''-l'', ''-t'', target, ''--'', text])"

definition controlWindow :: "'w Client \<Rightarrow> string \<Rightarrow> string list \<Rightarrow> ('w, unit) tmux" where
  "controlWindow c windowTarget args =
     (if \<not> rawWindowIDPattern windowTarget then failP (ErrInvalidControlRequest ''missing window reference'')
      else cl_run c args)"

definition control :: "'w Client \<Rightarrow> string \<Rightarrow> string \<Rightarrow> string \<Rightarrow> string \<Rightarrow> ('w, unit) tmux" where
  "control c paneTarget windowTarget reqAction reqName =
     (let action = to_lower (trim_space reqAction) in
      if action = ''new-window'' then
        controlWindow c windowTarget [''new-window'', ''-a'', ''-t'', windowTarget, ''-c'', ''#{pane_current_path}'']
      else if action = ''select-window'' then
        controlWindow c windowTarget [''select-window'', ''-t'', windowTarget]
      else if action = ''next-window'' then cl_run c [''next-window'', ''-t'', paneTarget]
      else if action = ''previous-window'' then cl_run c [''previous-window'', ''-t'', paneTarget]
      else if action = ''rename-window'' then
        (let name = trim_space reqName in
         if name = [] \<or> (\<exists>r \<in> set (runes name). r < 0x20 \<or> r = 0x7f)
         then failP (ErrInvalidControlRequest ''invalid window name'')
         else cl_run c [''rename-window'', ''-t'', paneTarget, name])
      else if action = ''split-horizontal'' then
        cl_run c [''split-window'', ''-h'', ''-t'', paneTarget, ''-c'', ''#{pane_current_path}'']
      else if action = ''split-vertical'' then
        cl_run c [''split-window'', ''-v'', ''-t'', paneTarget, ''-c'', ''#{pane_current_path}'']
      else if action = ''select-pane-left'' then cl_run c [''select-pane'', ''-t'', paneTarget, ''-L'']
      else if action = ''select-pane-right'' then cl_run c [''select-pane'', ''-t'', paneTarget, ''-R'']
      else if action = ''select-pane-up'' then cl_run c [''select-pane'', ''-t'', paneTarget, ''-U'']
      else if action = ''select-pane-down'' then cl_run c [''select-pane'', ''-t'', paneTarget, ''-D'']
      else if action = ''resize-pane-left'' then cl_run c [''resize-pane'', ''-t'', paneTarget, ''-L'', ''5'']
      else if action = ''resize-pane-right'' then cl_run c [''resize-pane'', ''-t'', paneTarget, ''-R'', ''5'']
      else if action = ''resize-pane-up'' then cl_run c [''resize-pane'', ''-t'', paneTarget, ''-U'', ''5'']
      else if action = ''resize-pane-down'' then cl_run c [''resize-pane'', ''-t'', paneTarget, ''-D'', ''5'']
      else if action = ''toggle-zoom'' then cl_run c [''resize-pane'', ''-Z'', ''-t'', paneTarget]
      else if action = ''close-pane'' then cl_run c [''kill-pane'', ''-t'', paneTarget]
      else if action = ''close-window'' then
        controlWindow c windowTarget [''kill-window'', ''-t'', windowTarget]
      else if action = ''choose-window'' then cl_run c [''choose-tree'', ''-w'', ''-t'', paneTarget]
      else if action = ''command-prompt'' then cl_run c [''command-prompt'', ''-t'', paneTarget]
      else failP (ErrUnsupportedControlAction reqAction))"

subsection \<open>Windows and sizes\<close>

definition parseOptionalInt :: "string \<Rightarrow> int option" where
  "parseOptionalInt value = (if value = [] then Some 0 else parse_int value)"

definition parseWindow :: "string \<Rightarrow> tmuxError + Window" where
  "parseWindow line =
     (let parts = split (trim_space line) US in
      if length parts \<noteq> 4 then Inl (ErrText ''unexpected tmux window format'')
      else case parse_int (parts ! 0) of
          None \<Rightarrow> Inl (ErrText ''parse window index'')
        | Some index \<Rightarrow>
          (case parseOptionalInt (parts ! 3) of
             None \<Rightarrow> Inl (ErrText ''parse window panes'')
           | Some panes \<Rightarrow>
               Inr \<lparr>wn_Index = (if index < 0 then 0 else index), wn_Name = parts ! 1,
                 wn_Active = (parts ! 2 = ''1''), wn_Panes = (if panes < 0 then 0 else panes)\<rparr>))"

fun parseWindowLines :: "string list \<Rightarrow> tmuxError + Window list" where
  "parseWindowLines [] = Inr []"
| "parseWindowLines (line # lines) =
     (if trim_space line = [] then parseWindowLines lines
      else bindR (parseWindow line) (\<lambda>window.
        bindR (parseWindowLines lines) (\<lambda>windows. Inr (window # windows))))"

definition parseWindows :: "string \<Rightarrow> tmuxError + Window list" where
  "parseWindows output = parseWindowLines (split (trim_space output) LF)"

definition windowListFormat :: string where
  "windowListFormat = join [''#{window_index}'', ''#{window_name}'', ''#{window_active}'', ''#{window_panes}''] [US]"

definition tmux_Windows :: "'w Client \<Rightarrow> string \<Rightarrow> ('w, Window list) tmux" where
  "tmux_Windows c target =
     bindP (cl_output c [''list-windows'', ''-t'', target, ''-F'', windowListFormat])
       (\<lambda>output. liftP (parseWindows output))"

definition visiblePaneHeight :: "resizeClientView \<Rightarrow> int" where
  "visiblePaneHeight view =
     (let height = (if rv_statusOn view \<and> \<not> rv_heightIsWindow view then rv_height view - 1 else rv_height view)
      in if height < 1 then 1 else height)"

text \<open>The products of \<^verbatim>\<open>int\<close> wrap.\<close>

definition betterResizeClient :: "resizeClientView \<Rightarrow> resizeClientView \<Rightarrow> bool" where
  "betterResizeClient candidate current =
     (if rv_name current = [] then True
      else if rv_activity candidate \<noteq> rv_activity current then rv_activity candidate > rv_activity current
      else
        (let candidateArea = wrap64 (rv_width candidate * visiblePaneHeight candidate);
             currentArea = wrap64 (rv_width current * visiblePaneHeight current) in
         if candidateArea \<noteq> currentArea then candidateArea > currentArea
         else rv_height candidate > rv_height current))"

definition belongsToProcess :: "'w Client \<Rightarrow> int \<Rightarrow> int \<Rightarrow> bool" where
  "belongsToProcess c pid ancestor =
     (if pid \<le> 0 \<or> ancestor \<le> 0 then False
      else if pid = ancestor then True
      else case cl_processDescendant c of None \<Rightarrow> False | Some f \<Rightarrow> f pid ancestor)"

definition resizeClientOf :: "'w Client \<Rightarrow> resizeClientView \<Rightarrow> int \<Rightarrow> ResizeClient" where
  "resizeClientOf c view processPID =
     \<lparr>rc_Name = rv_name view, rc_PID = rv_pid view, rc_Width = rv_width view,
      rc_Height = visiblePaneHeight view, rc_Activity = rv_activity view, rc_StatusOn = rv_statusOn view,
      rc_Web = (processPID > 0 \<and> belongsToProcess c (rv_pid view) processPID)\<rparr>"

definition parseResizeClientView :: "string \<Rightarrow> resizeClientView option" where
  "parseResizeClientView line =
     (let parts = split (trim_space line) CHR ''|'' in
      if length parts \<noteq> 8 then None
      else case (parseOptionalInt (parts ! 1), parseOptionalInt (parts ! 2), parseOptionalInt (parts ! 3),
                 parseOptionalInt (parts ! 4)) of
          (Some pid, Some width, Some height0, Some activity) \<Rightarrow>
            (let height1 = (if height0 < 0 then 0 else height0);
                 view = \<lambda>height heightIsWindow.
                   \<lparr>rv_name = parts ! 0, rv_pid = (if pid < 0 then 0 else pid),
                    rv_width = (if width < 0 then 0 else width), rv_height = height,
                    rv_heightIsWindow = heightIsWindow, rv_activity = activity,
                    rv_statusOn = (equal_fold (parts ! 5) ''on'' \<or> parts ! 5 = ''1'')\<rparr> in
             if height1 = 0 then
               (case parseOptionalInt (parts ! 7) of
                  None \<Rightarrow> None
                | Some windowHeight \<Rightarrow>
                    if windowHeight > 0 then Some (view windowHeight True) else Some (view 0 False))
             else Some (view height1 False))
        | _ \<Rightarrow> None)"

definition resizeClients :: "'w Client \<Rightarrow> string \<Rightarrow> ('w, resizeClientView list) tmux" where
  "resizeClients c target =
     bindP (cl_output c [''list-clients'', ''-t'', target, ''-F'',
       ''#{client_name}|#{client_pid}|#{client_width}|#{client_height}|#{client_activity}|#{status}|#{window_width}|#{window_height}''])
     (\<lambda>output.
       let views = filter (\<lambda>view. \<not> (rv_name view = [] \<or> rv_width view \<le> 0 \<or> rv_height view \<le> 0))
             (List.map_filter parseResizeClientView
               (filter (\<lambda>line. trim_space line \<noteq> []) (split (trim_space output) LF))) in
       if views = [] then failP (ErrText ''no tmux clients'') else returnP views)"

definition ListResizeClients :: "'w Client \<Rightarrow> string \<Rightarrow> int \<Rightarrow> ('w, ResizeClient list) tmux" where
  "ListResizeClients c target processPID =
     bindP (resizeClients c target) (\<lambda>views. returnP (map (\<lambda>view. resizeClientOf c view processPID) views))"

definition no_view :: resizeClientView where
  "no_view = \<lparr>rv_name = [], rv_pid = 0, rv_width = 0, rv_height = 0, rv_heightIsWindow = False,
     rv_activity = 0, rv_statusOn = False\<rparr>"

definition bestResizeClient :: "'w Client \<Rightarrow> int \<Rightarrow> resizeClientView list \<Rightarrow> resizeClientView" where
  "bestResizeClient c processPID views =
     foldl (\<lambda>best view.
       if processPID > 0 \<and> belongsToProcess c (rv_pid view) processPID then best
       else if betterResizeClient view best then view else best) no_view views"

definition PrimaryResizeClient :: "'w Client \<Rightarrow> string \<Rightarrow> int \<Rightarrow> ('w, ResizeClient) tmux" where
  "PrimaryResizeClient c target processPID =
     bindP (resizeClients c target) (\<lambda>views.
       let best = bestResizeClient c processPID views in
       if rv_name best = [] then failP (ErrText ''no primary tmux clients'')
       else returnP (resizeClientOf c best processPID))"

definition ResizeManual :: "'w Client \<Rightarrow> string \<Rightarrow> int \<Rightarrow> int \<Rightarrow> ('w, ResizeState) tmux" where
  "ResizeManual c target width height =
     (if width \<le> 0 \<or> height \<le> 0 then failP (ErrText ''invalid tmux resize dimensions'')
      else bindP (cl_run c [''set-option'', ''-w'', ''-t'', target, ''window-size'', ''manual'']) (\<lambda>_.
        bindP (cl_run c [''resize-window'', ''-t'', target, ''-x'', itoa width, ''-y'', itoa height]) (\<lambda>_.
          returnP \<lparr>rs_Mode = ''manual'', rs_ClientName = [], rs_Width = width, rs_Height = height\<rparr>)))"

definition ResizeFixed :: "'w Client \<Rightarrow> string \<Rightarrow> ('w, ResizeState) tmux" where
  "ResizeFixed c target =
     bindP (cl_run c [''set-option'', ''-w'', ''-t'', target, ''window-size'', ''manual'']) (\<lambda>_.
       returnP \<lparr>rs_Mode = ''fixed'', rs_ClientName = [], rs_Width = 0, rs_Height = 0\<rparr>)"

definition ResizeSmallest :: "'w Client \<Rightarrow> string \<Rightarrow> ('w, ResizeState) tmux" where
  "ResizeSmallest c target =
     bindP (cl_run c [''set-option'', ''-w'', ''-t'', target, ''window-size'', ''smallest'']) (\<lambda>_.
       returnP \<lparr>rs_Mode = ''smallest'', rs_ClientName = [], rs_Width = 0, rs_Height = 0\<rparr>)"

subsection \<open>The process tree\<close>

text \<open>
  \<open>stat pid\<close> is the content of \<^verbatim>\<open>/proc/<pid>/stat\<close>, \<open>ps pid\<close> the output of \<^verbatim>\<open>ps\<close>, \<open>None\<close> their
  failure. Each process is asked for at most once, so that a function of the process is what the
  search can observe even while the process table changes.
\<close>

definition lastIndexAfter :: "string \<Rightarrow> char \<Rightarrow> string option" where
  "lastIndexAfter text c =
     (if c \<in> set text then Some (rev (takeWhile (\<lambda>x. x \<noteq> c) (rev text))) else None)"

definition parentPIDFromProc :: "(int \<Rightarrow> string option) \<Rightarrow> int \<Rightarrow> int option" where
  "parentPIDFromProc stat pid =
     (case stat pid of None \<Rightarrow> None
      | Some text \<Rightarrow>
        (case lastIndexAfter text CHR '')'' of
           None \<Rightarrow> None
         | Some rest \<Rightarrow>
             if length rest < 2 then None
             else let parts = str_fields rest in
               if length parts < 2 then None else parse_int (parts ! 1)))"

definition parentPID :: "(int \<Rightarrow> string option) \<Rightarrow> (int \<Rightarrow> string option) \<Rightarrow> int \<Rightarrow> int option" where
  "parentPID stat ps pid =
     (case parentPIDFromProc stat pid of
        Some parent \<Rightarrow> Some parent
      | None \<Rightarrow> (case ps pid of None \<Rightarrow> None | Some output \<Rightarrow> parse_int (trim_space output)))"

lemma parentPID_range: "parentPID stat ps pid = Some p \<Longrightarrow> p \<le> max_int64"
  by (auto simp: parentPID_def parentPIDFromProc_def Let_def split: option.splits if_splits
      dest: parse_int_range)

function descendsLoop :: "(int \<Rightarrow> string option) \<Rightarrow> (int \<Rightarrow> string option) \<Rightarrow> int \<Rightarrow> int list \<Rightarrow> int \<Rightarrow> bool" where
  "descendsLoop stat ps ancestor seen pid =
     (if pid > 1 \<and> pid \<notin> set seen then
        (if pid = ancestor then True
         else case parentPID stat ps pid of
             None \<Rightarrow> False
           | Some parent \<Rightarrow>
               if parent \<le> 0 \<or> parent = pid then False
               else descendsLoop stat ps ancestor (pid # seen) parent)
      else False)"
  by pat_completeness auto
termination
proof (relation "measure (\<lambda>(stat, ps, ancestor, seen, pid).
    card ({1..max_int64} - set seen) + (if pid \<le> max_int64 then 0 else 1))", goal_cases)
  case (2 stat ps ancestor seen pid parent)
  have le: "parent \<le> max_int64" using 2 by (auto dest: parentPID_range)
  show ?case
  proof (cases "pid \<le> max_int64")
    case True
    then have "pid \<in> {1..max_int64} - set seen" using 2 by simp
    then have "card ({1..max_int64} - set seen - {pid}) < card ({1..max_int64} - set seen)"
      by (intro card_Diff1_less) auto
    moreover have "{1..max_int64} - set (pid # seen) = {1..max_int64} - set seen - {pid}" by auto
    ultimately show ?thesis using le True by (simp only: in_measure case_prod_conv if_True if_False, simp?)
  next
    case False
    then have "{1..max_int64} - set (pid # seen) = {1..max_int64} - set seen" by auto
    then show ?thesis using le False by (simp only: in_measure case_prod_conv if_True if_False, simp?)
  qed
qed simp

declare descendsLoop.simps [simp del]

definition processDescendsFrom ::
  "(int \<Rightarrow> string option) \<Rightarrow> (int \<Rightarrow> string option) \<Rightarrow> int \<Rightarrow> int \<Rightarrow> bool" where
  "processDescendsFrom stat ps pid ancestor = descendsLoop stat ps ancestor [] pid"

subsection \<open>What an operation sends to tmux\<close>

text \<open>A runner that records every command with its standard input, in order.\<close>

definition logP :: "string list \<times> string \<Rightarrow> ('w, 'a) tmux \<Rightarrow> ((string list \<times> string) list \<times> 'w, 'a) tmux" where
  "logP entry m = (\<lambda>(log, w). case m w of (r, w') \<Rightarrow> (r, (log @ [entry], w')))"

definition logged :: "'w CommandRunner \<Rightarrow> ((string list \<times> string) list \<times> 'w) CommandRunner" where
  "logged rn =
     \<lparr>rn_Output = (\<lambda>args. logP (args, []) (rn_Output rn args)),
      rn_Run = (\<lambda>args. logP (args, []) (rn_Run rn args)),
      rn_RunWithInput = map_option (\<lambda>f input args. logP (args, input) (f input args)) (rn_RunWithInput rn),
      rn_OutputLimited = map_option (\<lambda>f limit args. logP (args, []) (f limit args)) (rn_OutputLimited rn)\<rparr>"

definition logged_client :: "'w CommandRunner \<Rightarrow> string \<Rightarrow> ((string list \<times> string) list \<times> 'w) Client" where
  "logged_client rn binary = \<lparr>cl_runner = logged rn, cl_processDescendant = None, cl_binary = binary\<rparr>"

definition at_most_one :: "(string list \<Rightarrow> bool) \<Rightarrow> ((string list \<times> string) list \<times> 'w, unit) tmux \<Rightarrow> bool" where
  "at_most_one P m \<longleftrightarrow> (\<forall>log w. fst (snd (m (log, w))) = log \<and> (\<exists>e. fst (m (log, w)) = Inl e) \<or>
     (\<exists>cmd. P cmd \<and> fst (snd (m (log, w))) = log @ [(cmd, [])]))"

lemma at_most_one_fail [simp]: "at_most_one P (failP e)"
  by (simp add: at_most_one_def)

lemma at_most_one_run:
  "P (binary # args) \<Longrightarrow> at_most_one P (cl_run (logged_client rn binary) args)"
  unfolding at_most_one_def cl_run_def logged_client_def logged_def logP_def
  by (auto split: prod.split)

text \<open>The argument of the first \<^verbatim>\<open>-t\<close>.\<close>

definition command_target :: "string list \<Rightarrow> string option" where
  "command_target cmd =
     (case dropWhile (\<lambda>a. a \<noteq> ''-t'') (tl cmd) of _ # t # _ \<Rightarrow> Some t | _ \<Rightarrow> None)"

definition aimed :: "string \<Rightarrow> string \<Rightarrow> string list \<Rightarrow> bool" where
  "aimed paneTarget windowTarget cmd \<longleftrightarrow> command_target cmd = Some paneTarget \<or>
     command_target cmd = Some windowTarget \<and> rawWindowIDPattern windowTarget"

lemma at_most_one_window:
  "command_target (binary # args) = Some windowTarget \<Longrightarrow>
     at_most_one (aimed paneTarget windowTarget) (controlWindow (logged_client rn binary) windowTarget args)"
  unfolding controlWindow_def by (auto simp: aimed_def intro: at_most_one_run)

lemma control_at_most_one:
  "at_most_one (aimed paneTarget windowTarget)
     (control (logged_client rn binary) paneTarget windowTarget action name)"
proof -
  have "at_most_one (aimed paneTarget windowTarget) (cl_run (logged_client rn binary) args)"
    if "command_target (binary # args) = Some paneTarget" for args
    using that by (intro at_most_one_run) (simp add: aimed_def)
  then show ?thesis
    unfolding control_def Let_def by (simp add: at_most_one_window command_target_def cong: if_cong)
qed

subsection \<open>The process search\<close>

inductive descends :: "(int \<Rightarrow> int option) \<Rightarrow> int \<Rightarrow> int \<Rightarrow> bool" for parent ancestor where
  descends_refl: "1 < ancestor \<Longrightarrow> descends parent ancestor ancestor"
| descends_step: "1 < pid \<Longrightarrow> parent pid = Some q \<Longrightarrow> descends parent ancestor q \<Longrightarrow>
    descends parent ancestor pid"

inductive_cases descendsE: "descends parent ancestor pid"

lemma descends_closed:
  assumes "descends parent ancestor pid" "pid \<in> S"
    and "\<And>s q. s \<in> S \<Longrightarrow> parent s = Some q \<Longrightarrow> q \<in> S"
  shows "ancestor \<in> S"
  using assms by induction auto

lemma descendsLoop_iff:
  assumes "\<And>s q. s \<in> set seen \<Longrightarrow> parentPID stat ps s = Some q \<Longrightarrow> q \<in> insert pid (set seen)"
    and "ancestor \<notin> set seen"
  shows "descendsLoop stat ps ancestor seen pid \<longleftrightarrow> descends (parentPID stat ps) ancestor pid"
  using assms
proof (induction stat ps ancestor seen pid rule: descendsLoop.induct)
  case (1 stat ps ancestor seen pid)
  let ?parent = "parentPID stat ps"
  show ?case
  proof (cases "pid > 1 \<and> pid \<notin> set seen \<and> pid \<noteq> ancestor")
    case True
    show ?thesis
    proof (cases "\<exists>q. ?parent pid = Some q \<and> 0 < q \<and> q \<noteq> pid")
      case parent: True
      then obtain q where q: "?parent pid = Some q" "0 < q" "q \<noteq> pid" by blast
      have "descendsLoop stat ps ancestor (pid # seen) q \<longleftrightarrow> descends ?parent ancestor q"
        using True q 1(2,3) by (intro "1.IH") auto
      moreover have "descends ?parent ancestor pid \<longleftrightarrow> descends ?parent ancestor q"
        using True q by (auto elim: descendsE intro: descends_step)
      ultimately show ?thesis using True q by (subst descendsLoop.simps) simp
    next
      case False
      have "\<not> descends ?parent ancestor pid"
      proof
        assume "descends ?parent ancestor pid"
        then obtain q where q: "?parent pid = Some q" "descends ?parent ancestor q"
          using True by (auto elim: descendsE)
        then have "0 < q" by (auto elim: descendsE)
        then have "q = pid" using False q by blast
        then show False using descends_closed [OF q(2), of "{pid}"] q True by auto
      qed
      then show ?thesis using True False by (subst descendsLoop.simps) (auto simp: not_le split: option.splits)
    qed
  next
    case False
    have "\<not> descends ?parent ancestor pid" if "pid \<in> set seen"
      using descends_closed [of ?parent ancestor pid "set seen"] that 1(2,3) by auto
    then show ?thesis
      using False by (subst descendsLoop.simps) (auto elim: descendsE intro: descends_refl)
  qed
qed

subsection \<open>The order of resize clients\<close>

definition client_rank :: "resizeClientView \<Rightarrow> int \<times> int \<times> int" where
  "client_rank v = (rv_activity v, wrap64 (rv_width v * visiblePaneHeight v), rv_height v)"

definition rank_less :: "int \<times> int \<times> int \<Rightarrow> int \<times> int \<times> int \<Rightarrow> bool" where
  "rank_less a b \<longleftrightarrow> fst a < fst b \<or> fst a = fst b \<and>
     (fst (snd a) < fst (snd b) \<or> fst (snd a) = fst (snd b) \<and> snd (snd a) < snd (snd b))"

lemma betterResizeClient_rank:
  "rv_name v \<noteq> [] \<Longrightarrow> betterResizeClient u v \<longleftrightarrow> rank_less (client_rank v) (client_rank u)"
  by (auto simp: betterResizeClient_def client_rank_def rank_less_def Let_def)

lemma rank_less_trans: "\<not> rank_less a b \<Longrightarrow> rank_less c b \<or> c = b \<Longrightarrow> \<not> rank_less a c"
  by (auto simp: rank_less_def)

lemma best_invariant:
  assumes "\<forall>v \<in> set views. rv_name v \<noteq> []"
    "best = bestResizeClient c processPID views"
    "mine = (\<lambda>v. processPID > 0 \<and> belongsToProcess c (rv_pid v) processPID)"
  shows "if \<forall>v \<in> set views. mine v then best = no_view
     else best \<in> set views \<and> \<not> mine best \<and>
       (\<forall>v \<in> set views. \<not> mine v \<longrightarrow> \<not> rank_less (client_rank best) (client_rank v))"
  using assms(1,2)
proof (induction views arbitrary: best rule: rev_induct)
  case (snoc v vs)
  let ?old = "bestResizeClient c processPID vs"
  have step: "best = (if mine v then ?old else if betterResizeClient v ?old then v else ?old)"
    using snoc.prems(2) by (simp add: bestResizeClient_def assms(3))
  note IH = snoc.IH [OF _ refl]
  have irrefl: "\<not> rank_less a a" for a by (simp add: rank_less_def)
  show ?case
  proof (cases "\<forall>v \<in> set vs. mine v")
    case True
    then have "?old = no_view" using IH snoc.prems(1) by auto
    then show ?thesis using step True irrefl by (auto simp: betterResizeClient_def no_view_def)
  next
    case False
    then have old: "?old \<in> set vs" "\<not> mine ?old"
        "\<forall>v \<in> set vs. \<not> mine v \<longrightarrow> \<not> rank_less (client_rank ?old) (client_rank v)"
      using IH snoc.prems(1) by auto
    have ne: "rv_name ?old \<noteq> []" using old(1) snoc.prems(1) by auto
    have trans: "\<not> rank_less (client_rank v) (client_rank u)"
      if "rank_less (client_rank ?old) (client_rank v)" "u \<in> set vs" "\<not> mine u" for u
      using that old(3) by (force simp: rank_less_def)
    show ?thesis
      using step old ne trans irrefl False by (auto simp: betterResizeClient_rank)
  qed
qed (simp add: bestResizeClient_def)

subsection \<open>Properties\<close>

definition paste_commands :: "string \<Rightarrow> string \<Rightarrow> string \<Rightarrow> string \<Rightarrow> bool \<Rightarrow> (string list \<times> string) list" where
  "paste_commands binary buffer target text pasted =
     [([binary, ''load-buffer'', ''-b'', buffer, ''-''], text)] @
     (if pasted then [([binary, ''paste-buffer'', ''-p'', ''-r'', ''-b'', buffer, ''-t'', target], [])] else []) @
     [([binary, ''delete-buffer'', ''-b'', buffer], [])]"

lemma paste_log:
  assumes "tmux_Paste (logged_client rn binary) random target text (log, w) = (r, (log', w'))"
  shows "(log' = log \<or> (\<exists>bytes pasted. random = Some bytes \<and>
       log' = log @ paste_commands binary (''control-agents-paste-'' @ b64_encode bytes) target text pasted)) \<and>
     (r = Inr () \<and> text \<noteq> [] \<longrightarrow> (\<exists>bytes. random = Some bytes \<and>
       log' = log @ paste_commands binary (''control-agents-paste-'' @ b64_encode bytes) target text True))"
proof (cases "\<exists>f bytes. rn_RunWithInput rn = Some f \<and> random = Some bytes \<and> text \<noteq> [] \<and>
    \<not> (\<not> valid_utf8 text \<or> length text > MaxPasteBytes \<or> CHR 0x00 \<in> set text)")
  case True
  then obtain f bytes where f: "rn_RunWithInput rn = Some f" "random = Some bytes" "text \<noteq> []"
    "valid_utf8 text" "length text \<le> MaxPasteBytes" "CHR 0x00 \<notin> set text" by auto
  let ?buffer = "''control-agents-paste-'' @ b64_encode bytes"
  let ?delete = "rn_Run rn [binary, ''delete-buffer'', ''-b'', ?buffer]"
  obtain r1 w1 where load: "f text [binary, ''load-buffer'', ''-b'', ?buffer, ''-''] w = (r1, w1)"
    by fastforce
  obtain r2 w2 where paste: "rn_Run rn [binary, ''paste-buffer'', ''-p'', ''-r'', ''-b'', ?buffer, ''-t'', target] w1 = (r2, w2)"
    by fastforce
  obtain r3 w3 where failed: "?delete w1 = (r3, w3)" by fastforce
  obtain r4 w4 where finished: "?delete w2 = (r4, w4)" by fastforce
  note run = tmux_Paste_def Let_def tryP_apply bindP_apply logged_client_def logged_def logP_def cl_run_def
  show ?thesis
  proof (cases r1)
    case (Inl e)
    have "tmux_Paste (logged_client rn binary) random target text (log, w) =
        (case r3 of Inr _ \<Rightarrow> Inl e | Inl e' \<Rightarrow> Inl (ErrJoin e e'),
         log @ paste_commands binary ?buffer target text False, w3)"
      using f load failed Inl by (cases r3) (simp_all add: run paste_commands_def)
    then show ?thesis using assms f(2) by (cases r3) auto
  next
    case (Inr u)
    have "snd (tmux_Paste (logged_client rn binary) random target text (log, w)) =
        (log @ paste_commands binary ?buffer target text True, w4)"
      using f load paste finished Inr by (cases r2; cases r4) (simp_all add: run paste_commands_def)
    then show ?thesis using assms f(2) by auto
  qed
next
  case False
  then show ?thesis
    using assms by (auto simp: tmux_Paste_def logged_client_def logged_def Let_def
        split: if_splits option.splits)
qed

text \<open>
  A paste leaves no buffer behind and keeps the text out of every command line. Whatever tmux
  answers, the commands issued are none, or: the text loaded from standard input into a fresh
  buffer, possibly pasted, and finally that same buffer deleted. When the paste reports success for
  a non-empty text, all three were issued.
\<close>

theorem paste_buffer_deleted:
  assumes "tmux_Paste (logged_client rn binary) random target text (log, w) = (r, (log', w'))"
  shows "(log' = log \<or> (\<exists>bytes pasted. random = Some bytes \<and>
       log' = log @ paste_commands binary (''control-agents-paste-'' @ b64_encode bytes) target text pasted)) \<and>
     (r = Inr () \<and> text \<noteq> [] \<longrightarrow> (\<exists>bytes. random = Some bytes \<and>
       log' = log @ paste_commands binary (''control-agents-paste-'' @ b64_encode bytes) target text True))"
  using paste_log [OF assms] .

definition accepting_runner :: "unit CommandRunner" where
  "accepting_runner = \<lparr>rn_Output = (\<lambda>args. returnP []), rn_Run = (\<lambda>args. returnP ()),
     rn_RunWithInput = Some (\<lambda>input args. returnP ()), rn_OutputLimited = None\<rparr>"

theorem paste_buffer_deleted_witness:
  "snd (tmux_Paste (logged_client accepting_runner ''tmux'') (Some ''abc'') ''%1'' ''hi'' ([], ())) =
     (paste_commands ''tmux'' ''control-agents-paste-YWJj'' ''%1'' ''hi'' True, ())"
proof -
  have valid: "valid_utf8 ''hi''" by (intro valid_utf8_ascii) simp
  have "tmux_Paste (logged_client accepting_runner ''tmux'') (Some ''abc'') ''%1'' ''hi'' ([], ()) =
      (Inr (), (paste_commands ''tmux'' ''control-agents-paste-YWJj'' ''%1'' ''hi'' True, ()))"
    using valid
    by (simp add: tmux_Paste_def Let_def tryP_apply bindP_apply logged_client_def logged_def logP_def
        cl_run_def paste_commands_def accepting_runner_def MaxPasteBytes_def b64_char_def b64_alphabet_def)
  then show ?thesis
    using paste_buffer_deleted [of accepting_runner "''tmux''" "Some ''abc''" "''%1''" "''hi''" "[]" "()"]
    by simp
qed

text \<open>
  C34. A control request, whatever its action and name, issues at most one command. If it issues none
  it reports an error; the command it issues is aimed at the verified pane, or at the given window
  when that is a raw window identifier.
\<close>

theorem control_single_aimed_command:
  "case control (logged_client rn binary) paneTarget windowTarget action name (log, w) of
     (r, (log', w')) \<Rightarrow>
       (log' = log \<and> r \<noteq> Inr ()) \<or>
       (\<exists>cmd. log' = log @ [(cmd, [])] \<and> (command_target cmd = Some paneTarget \<or>
          command_target cmd = Some windowTarget \<and> rawWindowIDPattern windowTarget))"
  using control_at_most_one [of paneTarget windowTarget rn binary action name]
  by (force simp: at_most_one_def aimed_def split: prod.splits dest!: spec [of _ log] spec [of _ w])

text \<open>
  A topology that is returned names at least one pane, and every pane has a raw pane and window
  identifier, a positive size and the generation formed from the server's start time, its process
  and the pane, which is valid for a later check of the generation.
\<close>

theorem topology_wellformed:
  assumes "tmux_Topology c target w = (Inr topology, w')"
  shows "to_Panes topology \<noteq> [] \<and>
     validServerIncarnation (to_ServerStart topology) (to_ServerPID topology) \<and>
     (\<forall>p \<in> set (to_Panes topology). rawPaneIDPattern (tp_ID p) \<and> rawWindowIDPattern (tp_WindowID p) \<and>
        0 < tp_Width p \<and> 0 < tp_Height p \<and>
        tp_Generation p = \<lparr>ServerStart = to_ServerStart topology, ServerPID = to_ServerPID topology,
          GenPaneID = tp_ID p\<rparr>)"
proof -
  obtain out1 out2 serverStart serverPID where
    inc: "parseServerIncarnation out1 = Inr (serverStart, serverPID)" and
    top: "topology = \<lparr>to_ServerStart = serverStart, to_ServerPID = serverPID,
      to_Panes = List.map_filter (parseTopologyPane serverStart serverPID) (split (trim_right_set out2 [LF]) LF)\<rparr>"
      "to_Panes topology \<noteq> []"
    using assms by (fastforce simp: tmux_Topology_def result_simps Let_def split: if_splits prod.splits)
  have "validServerIncarnation serverStart serverPID"
    using inc by (auto simp: parseServerIncarnation_def validServerIncarnation_def Let_def
        split: if_splits option.splits)
  moreover have "rawPaneIDPattern (tp_ID p) \<and> rawWindowIDPattern (tp_WindowID p) \<and>
      0 < tp_Width p \<and> 0 < tp_Height p \<and>
      tp_Generation p = \<lparr>ServerStart = serverStart, ServerPID = serverPID, GenPaneID = tp_ID p\<rparr>"
    if "parseTopologyPane serverStart serverPID line = Some p" for line p
    using that by (auto simp: parseTopologyPane_def Let_def split: if_splits option.splits)
  ultimately show ?thesis using top by (auto simp: List.map_filter_def)
qed

definition one_pane_line :: string where
  "one_pane_line = ''@1'' @ [US] @ ''%2'' @ [US] @ ''1'' @ [US] @ ''1'' @ [US] @ ''80'' @ [US] @ ''24'' @ [US] @ ''sh''"

definition one_pane_runner :: "unit CommandRunner" where
  "one_pane_runner = \<lparr>rn_Output = (\<lambda>args. if ''list-panes'' \<in> set args
       then returnP (one_pane_line @ [LF]) else returnP (''7'' @ [US] @ ''9'')),
     rn_Run = (\<lambda>args. returnP ()), rn_RunWithInput = None, rn_OutputLimited = None\<rparr>"

definition one_pane_topology :: Topology where
  "one_pane_topology = \<lparr>to_ServerStart = ''7'', to_ServerPID = 9, to_Panes =
     [\<lparr>tp_ID = ''%2'', tp_WindowID = ''@1'', tp_Name = [], tp_Active = True, tp_WindowName = ''sh'',
       tp_WindowOpen = True, tp_Width = 80, tp_Height = 24,
       tp_Generation = \<lparr>ServerStart = ''7'', ServerPID = 9, GenPaneID = ''%2''\<rparr>\<rparr>]\<rparr>"

theorem topology_wellformed_witness:
  "list_all (\<lambda>p. rawPaneIDPattern (tp_ID p) \<and> rawWindowIDPattern (tp_WindowID p)) (to_Panes one_pane_topology)"
proof -
  have "trim_space [CHR ''7'', US, CHR ''9''] = [CHR ''7'', US, CHR ''9'']"
    by (intro trim_space_graph) simp_all
  then have inc: "parseServerIncarnation (''7'' @ [US] @ ''9'') = Inr (''7'', 9)"
    by (simp add: parseServerIncarnation_def positiveDecimalPattern_def parse_int_def parse_digits_def
        is_digit_def digit_val_def)
  have pane: "parseTopologyPane ''7'' 9 one_pane_line = Some (hd (to_Panes one_pane_topology))"
    by (simp add: parseTopologyPane_def one_pane_line_def rawWindowIDPattern_def rawPaneIDPattern_def
        parse_int_def parse_digits_def is_digit_def digit_val_def one_pane_topology_def)
  have "split (trim_right_set (one_pane_line @ [LF]) [LF]) LF = [one_pane_line]"
    by (simp add: trim_right_set_def one_pane_line_def)
  then have "tmux_Topology (NewClientWithRunner (\<lambda>_ _. False) one_pane_runner) ''a'' () =
      (Inr one_pane_topology, ())"
    using inc pane
    by (simp add: tmux_Topology_def NewClientWithRunner_def cl_output_def bindP_apply one_pane_runner_def
        List.map_filter_def) (simp add: one_pane_topology_def)
  then show ?thesis
    using topology_wellformed [of "NewClientWithRunner (\<lambda>_ _. False) one_pane_runner" "''a''" "()"
        one_pane_topology "()"] by (simp add: list_all_iff)
qed

definition print_window :: "Window \<Rightarrow> string" where
  "print_window win = join [itoa (wn_Index win), wn_Name win, (if wn_Active win then ''1'' else ''0''),
     itoa (wn_Panes win)] [US]"

definition window_ok :: "Window \<Rightarrow> bool" where
  "window_ok win \<longleftrightarrow> 0 \<le> wn_Index win \<and> wn_Index win \<le> max_int64 \<and> 0 \<le> wn_Panes win \<and>
     wn_Panes win \<le> max_int64 \<and> US \<notin> set (wn_Name win) \<and> LF \<notin> set (wn_Name win)"

lemma join_four: "join [a, b, c, d] s = a @ s @ b @ s @ c @ s @ d"
  by simp

lemma print_window_ends:
  assumes "window_ok win"
  shows "print_window win \<noteq> [] \<and> is_digit (hd (print_window win)) \<and> is_digit (last (print_window win))"
  using itoa_nonneg [of "wn_Index win"] itoa_nonneg [of "wn_Panes win"] assms
  by (simp add: window_ok_def print_window_def hd_append)

lemma parse_print_window:
  assumes ok: "window_ok win"
  shows "parseWindow (print_window win) = Inr win"
proof -
  have trim: "trim_space (print_window win) = print_window win"
    using print_window_ends [OF ok] by (intro trim_space_graph) (auto dest: is_digit_graph)
  have "US \<notin> set (itoa n)" for n by (rule itoa_no_char) (simp_all add: is_digit_def)
  then have "split (print_window win) US = [itoa (wn_Index win), wn_Name win,
      (if wn_Active win then ''1'' else ''0''), itoa (wn_Panes win)]"
    using ok unfolding print_window_def by (intro split_join) (auto simp: window_ok_def split: if_splits)
  then show ?thesis
    using ok itoa_nonneg [of "wn_Panes win"]
    by (simp add: parseWindow_def trim Let_def parseOptionalInt_def parse_int_itoa window_ok_def)
qed

lemma parse_print_window_lines:
  "list_all window_ok ws \<Longrightarrow> parseWindowLines (map print_window ws) = Inr ws"
proof (induction ws)
  case (Cons win ws)
  have "trim_space (print_window win) = print_window win"
    using print_window_ends [of win] Cons.prems by (intro trim_space_graph) (auto dest: is_digit_graph)
  then show ?case using Cons print_window_ends [of win] parse_print_window [of win] by simp
qed simp

lemma join_ends:
  "xs \<noteq> [] \<Longrightarrow> \<forall>x \<in> set xs. x \<noteq> [] \<Longrightarrow>
     join xs s \<noteq> [] \<and> hd (join xs s) = hd (hd xs) \<and> last (join xs s) = last (last xs)"
  by (induction xs s rule: join.induct) (auto simp: hd_append)

text \<open>
  The window listing round-trips: what tmux prints for a non-empty list of windows in the
  program's format, one line each, is parsed back to the same windows, for every name free of the
  field and line separators.
\<close>

theorem windows_roundtrip:
  assumes "ws \<noteq> []" "list_all window_ok ws"
  shows "parseWindows (join (map print_window ws) [LF] @ [LF]) = Inr ws"
proof -
  let ?ls = "map print_window ws"
  have ne: "\<forall>x \<in> set ?ls. x \<noteq> []"
    using assms(2) by (auto simp: list_all_iff dest: print_window_ends)
  have "is_digit (hd (hd ?ls))" "is_digit (last (last ?ls))"
    using assms print_window_ends by (auto simp: list_all_iff hd_map last_map)
  then have "trim_space (join ?ls [LF] @ [LF]) = join ?ls [LF]"
    using join_ends [OF _ ne, of "[LF]"] assms(1)
    by (intro trim_space_linefeed) (auto dest: is_digit_graph)
  moreover have "LF \<notin> set (itoa n)" for n by (rule itoa_no_char) (simp_all add: is_digit_def)
  then have "split (join ?ls [LF]) LF = ?ls"
    using assms by (intro split_join) (auto simp: print_window_def window_ok_def list_all_iff split: if_splits)
  ultimately show ?thesis
    using parse_print_window_lines [OF assms(2)] by (simp add: parseWindows_def)
qed

theorem windows_roundtrip_witness:
  "parseWindows (join (map print_window [\<lparr>wn_Index = 0, wn_Name = ''a b'', wn_Active = True, wn_Panes = 2\<rparr>]) [LF]
     @ [LF]) = Inr [\<lparr>wn_Index = 0, wn_Name = ''a b'', wn_Active = True, wn_Panes = 2\<rparr>]"
  by (rule windows_roundtrip) (simp_all add: window_ok_def)

text \<open>
  The search for an ancestor process always ends, also when the process table changes under it
  into a cycle, and answers exactly whether following parents from the process reaches the
  ancestor through processes above 1.
\<close>

theorem process_search_correct:
  "processDescendsFrom stat ps pid ancestor \<longleftrightarrow> descends (parentPID stat ps) ancestor pid"
  unfolding processDescendsFrom_def by (rule descendsLoop_iff) auto

lemma resizeClients_named:
  "resizeClients c target w = (Inr views, w') \<Longrightarrow> \<forall>v \<in> set views. rv_name v \<noteq> []"
  by (auto simp: resizeClients_def result_simps Let_def split: if_splits)

text \<open>
  The client whose size a resize follows is one of the clients tmux lists that do not belong to
  the web bridge's process, and no other such client is better: more recently active, or as active
  with a larger visible area (in 64-bit arithmetic), or as large and higher.
\<close>

theorem primary_client_best:
  assumes "PrimaryResizeClient c target processPID w = (Inr client, w')"
    "resizeClients c target w = (Inr views, w')"
  shows "\<not> rc_Web client \<and>
     (\<exists>best \<in> set views. client = resizeClientOf c best processPID \<and>
       (\<forall>u \<in> set views. rc_Web (resizeClientOf c u processPID) \<or> \<not> betterResizeClient u best))"
proof -
  let ?best = "bestResizeClient c processPID views"
  have client: "client = resizeClientOf c ?best processPID" "rv_name ?best \<noteq> []"
    using assms by (auto simp: PrimaryResizeClient_def result_simps Let_def split: if_splits)
  note best = best_invariant [OF resizeClients_named [OF assms(2)] refl refl, where c = c and processPID = processPID]
  have "?best \<noteq> no_view" using client(2) by (auto simp: no_view_def)
  then show ?thesis
    using best client
    by (auto simp: resizeClientOf_def betterResizeClient_rank split: if_splits intro!: bexI [of _ ?best])
qed

definition one_client_line :: string where
  "one_client_line = ''a|5|80|24|9|on|80|24''"

definition one_client_runner :: "unit CommandRunner" where
  "one_client_runner = accepting_runner\<lparr>rn_Output := (\<lambda>args. returnP one_client_line)\<rparr>"

definition one_client_view :: resizeClientView where
  "one_client_view = \<lparr>rv_name = ''a'', rv_pid = 5, rv_width = 80, rv_height = 24,
     rv_heightIsWindow = False, rv_activity = 9, rv_statusOn = True\<rparr>"

theorem primary_client_best_witness:
  "\<not> rc_Web (resizeClientOf (NewClientWithRunner (\<lambda>_ _. False) one_client_runner) one_client_view 7)"
proof -
  let ?c = "NewClientWithRunner (\<lambda>_ _. False) one_client_runner"
  have trim: "trim_space one_client_line = one_client_line"
    by (intro trim_space_graph) (simp_all add: one_client_line_def)
  have lines: "split one_client_line LF = [one_client_line]" "one_client_line \<noteq> []"
    by (simp_all add: one_client_line_def)
  have "split one_client_line CHR ''|'' = [''a'', ''5'', ''80'', ''24'', ''9'', ''on'', ''80'', ''24'']"
    by (simp add: one_client_line_def)
  then have view: "parseResizeClientView one_client_line = Some one_client_view"
    by (simp add: parseResizeClientView_def trim parseOptionalInt_def parse_int_def parse_digits_def
        is_digit_def digit_val_def equal_fold_def one_client_view_def)
  have views: "resizeClients ?c ''t'' () = (Inr [one_client_view], ())"
    by (simp add: resizeClients_def cl_output_def NewClientWithRunner_def one_client_runner_def
        bindP_apply trim lines view List.map_filter_def one_client_view_def)
  then have "PrimaryResizeClient ?c ''t'' 7 () = (Inr (resizeClientOf ?c one_client_view 7), ())"
    by (simp add: PrimaryResizeClient_def bindP_apply bestResizeClient_def betterResizeClient_def
        no_view_def belongsToProcess_def one_client_view_def NewClientWithRunner_def)
  from primary_client_best [OF this views] show ?thesis ..
qed

end
