(* ===== verification/Registry.thy ===== *)
theory Registry
  imports Go_Encoding
begin

section \<open>The session registry\<close>

text \<open>
  \<^verbatim>\<open>internal/registry/registry.go\<close>: durable records of the managed sessions, one JSON file each. A disk
  is the directory of those files and the number of system calls made so far; \<open>faults n\<close> tells whether
  the \<open>n\<close>-th call fails, so every error branch of the code is a branch of the model for some \<open>faults\<close>.
  The content of a file is what \<^verbatim>\<open>json.Unmarshal\<close> makes of it: \<open>None\<close> if it does not decode, else
  the record. \<^verbatim>\<open>json.Marshal\<close> replaces every byte that is not valid UTF-8 by U+FFFD, so decoding what
  was encoded gives the record with \<open>coerce_utf8\<close> applied to its strings.

  The paths are those of a clean absolute state directory, as \<open>NewStore\<close> makes it. The order of
  \<^verbatim>\<open>ReadDir\<close> is by name. \<open>parseTime\<close> is \<^verbatim>\<open>time.Parse(time.RFC3339, s)\<close>. Permissions and logging are
  not modelled.

  The lemmas show that a write is atomic under every pattern of failures, that reading returns what
  was written, that only valid records are ever returned, and when listing is ordered.
\<close>

datatype registryError =
    ErrInvalidSessionRecord string
  | ErrNotExist
  | RegistryFailure string

record Session =
  se_ID :: string
  se_Name :: string
  se_PublicRef :: string
  se_TmuxName :: string
  se_Socket :: string
  se_PID :: int
  se_CWD :: string
  se_CreatedAt :: string

record Store =
  st_stateDir :: string
  st_sessionsDir :: string

subsection \<open>Disks\<close>

record 'c disk =
  dk_files :: "(string, 'c) gomap"
  dk_calls :: nat

type_synonym faults = "nat \<Rightarrow> bool"

definition sysCall :: "faults \<Rightarrow> 'e \<Rightarrow> ('c disk, 'e, unit) prog" where
  "sysCall faults e = (\<lambda>d.
     (if faults (dk_calls d) then Inl e else Inr (), d\<lparr>dk_calls := Suc (dk_calls d)\<rparr>))"

definition diskUpdate :: "(('c disk) \<Rightarrow> (string, 'c) gomap) \<Rightarrow> ('c disk, 'e, unit) prog" where
  "diskUpdate f = (\<lambda>d. (Inr (), d\<lparr>dk_files := f d\<rparr>))"

text \<open>\<^verbatim>\<open>os.ReadFile\<close> and \<^verbatim>\<open>os.Remove\<close>: a missing file is an error of its own.\<close>

definition readFile :: "faults \<Rightarrow> 'e \<Rightarrow> 'e \<Rightarrow> string \<Rightarrow> ('c disk, 'e, 'c) prog" where
  "readFile faults missing failure name =
     bindP (sysCall faults failure) (\<lambda>_ d.
       case map_of (dk_files d) name of None \<Rightarrow> (Inl missing, d) | Some c \<Rightarrow> (Inr c, d))"

definition removeFile :: "faults \<Rightarrow> 'e \<Rightarrow> 'e \<Rightarrow> string \<Rightarrow> ('c disk, 'e, unit) prog" where
  "removeFile faults missing failure name =
     bindP (sysCall faults failure) (\<lambda>_ d.
       case map_of (dk_files d) name of None \<Rightarrow> (Inl missing, d)
       | Some c \<Rightarrow> (Inr (), d\<lparr>dk_files := gm_del name (dk_files d)\<rparr>))"

text \<open>\<^verbatim>\<open>os.CreateTemp\<close> never opens an existing file.\<close>

definition createTemp :: "faults \<Rightarrow> 'e \<Rightarrow> 'c \<Rightarrow> string \<Rightarrow> ('c disk, 'e, unit) prog" where
  "createTemp faults failure blank name =
     bindP (sysCall faults failure) (\<lambda>_ d.
       if map_of (dk_files d) name \<noteq> None then (Inl failure, d)
       else (Inr (), d\<lparr>dk_files := gm_put name blank (dk_files d)\<rparr>))"

definition rename :: "faults \<Rightarrow> 'e \<Rightarrow> string \<Rightarrow> string \<Rightarrow> ('c disk, 'e, unit) prog" where
  "rename faults failure old new =
     bindP (sysCall faults failure) (\<lambda>_ d.
       case map_of (dk_files d) old of None \<Rightarrow> (Inl failure, d)
       | Some c \<Rightarrow> (Inr (), d\<lparr>dk_files := gm_put new c (gm_del old (dk_files d))\<rparr>))"

text \<open>
  The writing of a file through a temporary one, shared by the stores: each step may fail, and the
  deferred clean-up removes the temporary file unless it was renamed. The steps after the rename
  follow in \<open>afterwards\<close>.
\<close>

definition cleanUp :: "faults \<Rightarrow> string \<Rightarrow> ('c disk, 'e, 'a) prog \<Rightarrow> ('c disk, 'e, 'a) prog" where
  "cleanUp faults tmp m = tryP m (\<lambda>r d.
     case r of Inr v \<Rightarrow> (Inr v, d)
     | Inl e \<Rightarrow> (Inl e, snd ((removeFile faults (Inl ()) (Inr ()) tmp :: ('c disk, unit + unit, unit) prog) d)))"

subsection \<open>JSON strings\<close>

function coerce_utf8 :: "string \<Rightarrow> string" where
  "coerce_utf8 s =
     (if s = [] then []
      else (if decode_rune s = (rune_error, 1) then [CHR 0xEF, CHR 0xBF, CHR 0xBD]
            else take (snd (decode_rune s)) s) @
        coerce_utf8 (drop (snd (decode_rune s)) s))"
  by pat_completeness auto
termination
  using decode_rune_size by (relation "measure length") (auto simp: Suc_le_eq)

declare coerce_utf8.simps [simp del]

lemma coerce_utf8_valid: "valid_utf8 s \<Longrightarrow> coerce_utf8 s = s"
proof (induction s rule: coerce_utf8.induct)
  case (1 s)
  show ?case
  proof (cases "s = []")
    case False
    then have "decode_rune s \<noteq> (rune_error, 1)" "valid_utf8 (drop (snd (decode_rune s)) s)"
      using "1.prems" by (subst (asm) valid_utf8.simps, simp)+
    then show ?thesis using "1.IH" [OF False] False by (subst coerce_utf8.simps) simp
  qed (simp add: coerce_utf8.simps)
qed

definition sessionJSON :: "Session \<Rightarrow> Session" where
  "sessionJSON s = s\<lparr>se_ID := coerce_utf8 (se_ID s), se_Name := coerce_utf8 (se_Name s),
     se_PublicRef := coerce_utf8 (se_PublicRef s), se_TmuxName := coerce_utf8 (se_TmuxName s),
     se_Socket := coerce_utf8 (se_Socket s), se_CWD := coerce_utf8 (se_CWD s),
     se_CreatedAt := coerce_utf8 (se_CreatedAt s)\<rparr>"

subsection \<open>Records\<close>

definition ValidID :: "string \<Rightarrow> bool" where
  "ValidID s \<longleftrightarrow> s \<noteq> [] \<and> is_alnum (hd s) \<and>
     match_class (\<lambda>c. is_alnum c \<or> c = CHR ''.'' \<or> c = CHR ''_'' \<or> c = CHR ''-'') 0 63 (tl s)"

definition ValidPublicRef :: "string \<Rightarrow> bool" where
  "ValidPublicRef ref = match_class is_url64 32 32 ref"

text \<open>\<^verbatim>\<open>NewPublicRef\<close> over 24 random bytes.\<close>

definition NewPublicRef :: "string \<Rightarrow> string" where
  "NewPublicRef random = b64_encode random"

interpretation public_ref: opaque_id NewPublicRef "[]" 24
  by unfold_locales (simp add: NewPublicRef_def)

definition pathJoin :: "string \<Rightarrow> string \<Rightarrow> string" where
  "pathJoin dir name = (if dir = ''/'' then dir @ name else dir @ ''/'' @ name)"

definition NewStore :: "string \<Rightarrow> Store" where
  "NewStore stateDir = \<lparr>st_stateDir = stateDir, st_sessionsDir = pathJoin stateDir ''sessions''\<rparr>"

definition expectedSocket :: "Store \<Rightarrow> string \<Rightarrow> string" where
  "expectedSocket s sid = pathJoin (pathJoin (st_stateDir s) ''sockets'') (sid @ ''.sock'')"

definition Validate :: "Session \<Rightarrow> string + unit" where
  "Validate session =
     (if \<not> ValidID (se_ID session) then Inl ''invalid session id''
      else if se_Name session \<noteq> se_ID session then Inl ''session name must equal session id''
      else if \<not> ValidPublicRef (se_PublicRef session) then Inl ''session public reference must be opaque''
      else if se_TmuxName session \<noteq> se_ID session then Inl ''tmux name must equal session id''
      else if trim_space (se_Socket session) = [] \<or> \<not> has_prefix (se_Socket session) ''/''
        then Inl ''socket path must be absolute''
      else if se_PID session < 0 then Inl ''pid cannot be negative''
      else Inr ())"

definition validateCanonical :: "Store \<Rightarrow> Session \<Rightarrow> string + unit" where
  "validateCanonical s session =
     bindR (Validate session) (\<lambda>_.
       if se_Socket session \<noteq> expectedSocket s (se_ID session)
       then Inl ''session socket must match canonical state socket path'' else Inr ())"

definition validateCompatible :: "Store \<Rightarrow> Session \<Rightarrow> string + unit" where
  "validateCompatible s session =
     (if \<not> ValidID (se_ID session) then Inl ''invalid session id''
      else if trim_space (se_Name session) = [] then Inl ''legacy session name cannot be empty''
      else if se_PublicRef session \<noteq> [] \<and> \<not> ValidPublicRef (se_PublicRef session)
        then Inl ''legacy session public reference is invalid''
      else if se_TmuxName session \<noteq> se_ID session then Inl ''legacy tmux name must equal session id''
      else if se_PID session < 0 then Inl ''pid cannot be negative''
      else if se_Socket session \<noteq> expectedSocket s (se_ID session)
        then Inl ''legacy session socket must match canonical state socket path''
      else Inr ())"

subsection \<open>Operations\<close>

type_synonym 'a registry = "(Session option disk, registryError, 'a) prog"

text \<open>The file of a session inside the sessions directory.\<close>

definition sessionFile :: "string \<Rightarrow> string" where
  "sessionFile sid = sid @ ''.json''"

definition Ensure :: "faults \<Rightarrow> unit registry" where
  "Ensure faults = eachP (sysCall faults)
     [RegistryFailure ''create state dir'', RegistryFailure ''create state dir'',
      RegistryFailure ''create sockets dir'', RegistryFailure ''set sockets dir permissions'',
      RegistryFailure ''create sessions dir'', RegistryFailure ''set sessions dir permissions'']"

definition read :: "faults \<Rightarrow> Store \<Rightarrow> string \<Rightarrow> bool \<Rightarrow> Session registry" where
  "read faults s sid compatible =
     (if \<not> ValidID sid then failP (ErrInvalidSessionRecord ''invalid session id'')
      else bindP (readFile faults ErrNotExist (RegistryFailure ''read session'') (sessionFile sid)) (\<lambda>data.
        case data of None \<Rightarrow> failP (ErrInvalidSessionRecord ''decode session'')
        | Some session \<Rightarrow>
          if se_ID session \<noteq> sid then failP (ErrInvalidSessionRecord ''session file contains another id'')
          else case (if compatible then validateCompatible s session else validateCanonical s session) of
              Inl e \<Rightarrow> failP (ErrInvalidSessionRecord e)
            | Inr _ \<Rightarrow> returnP session))"

definition registry_Read :: "faults \<Rightarrow> Store \<Rightarrow> string \<Rightarrow> Session registry" where
  "registry_Read faults s sid = read faults s sid False"

definition ReadCompatible :: "faults \<Rightarrow> Store \<Rightarrow> string \<Rightarrow> Session registry" where
  "ReadCompatible faults s sid = read faults s sid True"

text \<open>\<open>random\<close> is the part of the temporary name that \<^verbatim>\<open>os.CreateTemp\<close> chooses.\<close>

definition tempName :: "string \<Rightarrow> string \<Rightarrow> string" where
  "tempName sid random = ''.'' @ sid @ ''-'' @ random @ ''.tmp''"

definition registry_Write :: "faults \<Rightarrow> Store \<Rightarrow> string \<Rightarrow> Session \<Rightarrow> unit registry" where
  "registry_Write faults s random session =
     (let tmp = tempName (se_ID session) random; file = sessionFile (se_ID session) in
      bindP (Ensure faults) (\<lambda>_.
      case validateCanonical s session of Inl e \<Rightarrow> failP (RegistryFailure e)
      | Inr _ \<Rightarrow>
      bindP (createTemp faults (RegistryFailure ''create temporary session'') None tmp) (\<lambda>_.
      bindP (cleanUp faults tmp
        (bindP (sysCall faults (RegistryFailure ''set temporary session permissions'')) (\<lambda>_.
         bindP (sysCall faults (RegistryFailure ''write temporary session'')) (\<lambda>_.
         bindP (diskUpdate (\<lambda>d. gm_put tmp (Some (sessionJSON session)) (dk_files d))) (\<lambda>_.
         bindP (sysCall faults (RegistryFailure ''sync temporary session'')) (\<lambda>_.
         bindP (sysCall faults (RegistryFailure ''close temporary session'')) (\<lambda>_.
         rename faults (RegistryFailure ''replace session'') tmp file)))))))
      (\<lambda>_.
      eachP (sysCall faults)
        [RegistryFailure ''set session permissions'', RegistryFailure ''open sessions directory for sync'',
         RegistryFailure ''sync sessions directory'']))))"

definition registry_Remove :: "faults \<Rightarrow> string \<Rightarrow> unit registry" where
  "registry_Remove faults sid =
     (if \<not> ValidID sid then failP (RegistryFailure ''invalid session id'')
      else tryP (removeFile faults ErrNotExist (RegistryFailure ''remove session'') (sessionFile sid)) (\<lambda>r.
        case r of Inl ErrNotExist \<Rightarrow> returnP () | Inl e \<Rightarrow> failP e | Inr _ \<Rightarrow> returnP ()))"

text \<open>The listing: unreadable records are skipped.\<close>

fun readEntries :: "faults \<Rightarrow> Store \<Rightarrow> bool \<Rightarrow> string list \<Rightarrow> Session list registry" where
  "readEntries faults s compatible [] = returnP []"
| "readEntries faults s compatible (name # names) =
     (if \<not> has_suffix name ''.json'' then readEntries faults s compatible names
      else tryP (read faults s (trim_suffix name ''.json'') compatible) (\<lambda>r.
        bindP (readEntries faults s compatible names) (\<lambda>sessions.
          case r of Inl _ \<Rightarrow> returnP sessions | Inr session \<Rightarrow> returnP (session # sessions))))"

text \<open>Go's \<^verbatim>\<open><\<close> on strings, and the order of the listing.\<close>

fun string_less :: "string \<Rightarrow> string \<Rightarrow> bool" where
  "string_less [] t = (t \<noteq> [])"
| "string_less (c # s) [] = False"
| "string_less (c # s) (d # t) = (byte c < byte d \<or> c = d \<and> string_less s t)"

definition sessionLess :: "(string \<Rightarrow> time option) \<Rightarrow> Session \<Rightarrow> Session \<Rightarrow> bool" where
  "sessionLess parseTime a b =
     (case (parseTime (se_CreatedAt a), parseTime (se_CreatedAt b)) of
        (Some left, Some right) \<Rightarrow> if left \<noteq> right then left < right else string_less (se_ID a) (se_ID b)
      | _ \<Rightarrow> string_less (se_ID a) (se_ID b))"

text \<open>
  \<^verbatim>\<open>sort.Slice\<close> as the insertion sort it is on short slices: each element moves left over those it
  is less than. The sorted part is kept in reverse. On an order that is total on the records the
  result does not depend on the algorithm.
\<close>

fun insert_back :: "('a \<Rightarrow> 'a \<Rightarrow> bool) \<Rightarrow> 'a \<Rightarrow> 'a list \<Rightarrow> 'a list" where
  "insert_back lt x [] = [x]"
| "insert_back lt x (y # ys) = (if lt x y then y # insert_back lt x ys else x # y # ys)"

definition sort_slice :: "('a \<Rightarrow> 'a \<Rightarrow> bool) \<Rightarrow> 'a list \<Rightarrow> 'a list" where
  "sort_slice lt xs = rev (foldl (\<lambda>acc x. insert_back lt x acc) [] xs)"

definition list_sessions :: "faults \<Rightarrow> (string \<Rightarrow> time option) \<Rightarrow> Store \<Rightarrow> bool \<Rightarrow> Session list registry" where
  "list_sessions faults parseTime s compatible =
     bindP (Ensure faults) (\<lambda>_.
     bindP (sysCall faults (RegistryFailure ''read sessions dir'')) (\<lambda>_ d.
       bindP (readEntries faults s compatible (sort_slice string_less (map fst (dk_files d))))
         (\<lambda>sessions. returnP (sort_slice (sessionLess parseTime) sessions)) d))"

definition registry_List :: "faults \<Rightarrow> (string \<Rightarrow> time option) \<Rightarrow> Store \<Rightarrow> Session list registry" where
  "registry_List faults parseTime s = list_sessions faults parseTime s False"

definition ListCompatible :: "faults \<Rightarrow> (string \<Rightarrow> time option) \<Rightarrow> Store \<Rightarrow> Session list registry" where
  "ListCompatible faults parseTime s = list_sessions faults parseTime s True"

definition ReadByPublicRef :: "faults \<Rightarrow> (string \<Rightarrow> time option) \<Rightarrow> Store \<Rightarrow> string \<Rightarrow> Session registry" where
  "ReadByPublicRef faults parseTime s ref =
     (if \<not> ValidPublicRef ref then failP (ErrInvalidSessionRecord ''invalid public session reference'')
      else bindP (registry_List faults parseTime s) (\<lambda>sessions.
        case find (\<lambda>session. se_PublicRef session = ref) sessions of
          Some session \<Rightarrow> returnP session | None \<Rightarrow> failP ErrNotExist))"

text \<open>\<open>tmuxAlive name\<close> is the outcome of \<^verbatim>\<open>tmux has-session\<close>, \<open>None\<close> on success.\<close>

definition Alive :: "(string \<Rightarrow> string option) \<Rightarrow> Session \<Rightarrow> bool" where
  "Alive tmuxAlive session \<longleftrightarrow> se_TmuxName session \<noteq> [] \<and> tmuxAlive (se_TmuxName session) = None"

subsection \<open>Lemmas on disks\<close>

lemma sysCall_files [simp]: "dk_files (snd (sysCall faults e d)) = dk_files d"
  by (simp add: sysCall_def)

lemma triple_sysCall: "triple (\<lambda>d. P (dk_files d)) (sysCall faults e) (\<lambda>_ d. P (dk_files d))"
  by (simp add: triple_def)

lemma triple_sysCalls:
  "triple (\<lambda>d. P (dk_files d)) (eachP (sysCall faults) es) (\<lambda>_ d. P (dk_files d))"
  by (intro triple_each triple_sysCall)

lemma triple_diskUpdate:
  "triple (\<lambda>d. P (f d)) (diskUpdate f) (\<lambda>r d. r = Inr () \<and> P (dk_files d))"
  by (simp add: triple_def diskUpdate_def)

lemma triple_createTemp:
  "triple (\<lambda>d. map_of (dk_files d) = M) (createTemp faults e blank name)
     (\<lambda>r d. map_of (dk_files d) = (case r of Inl _ \<Rightarrow> M | Inr _ \<Rightarrow> M(name \<mapsto> blank)) \<and>
        (r = Inr () \<longrightarrow> M name = None))"
  by (auto simp: triple_def createTemp_def bindP_apply sysCall_def gm_simps split: prod.splits sum.splits)

lemma triple_rename:
  "old \<noteq> new \<Longrightarrow> triple (\<lambda>d. map_of (dk_files d) = M(old \<mapsto> c)) (rename faults e old new)
     (\<lambda>r d. map_of (dk_files d) = (case r of Inl _ \<Rightarrow> M(old \<mapsto> c) | Inr _ \<Rightarrow> M(old := None, new \<mapsto> c)))"
  by (auto simp: triple_def rename_def bindP_apply sysCall_def gm_simps fun_upd_twist
      split: prod.splits sum.splits)

lemma triple_cleanUp:
  assumes "triple P m (\<lambda>r d. case r of Inr v \<Rightarrow> Q r d | Inl e \<Rightarrow> (\<exists>x. map_of (dk_files d) = M(tmp := x)))"
    and "M tmp = None"
  shows "triple P (cleanUp faults tmp m)
     (\<lambda>r d. case r of Inr v \<Rightarrow> Q r d | Inl e \<Rightarrow> (\<exists>x. map_of (dk_files d) = M(tmp := x)))"
  unfolding cleanUp_def
proof (rule triple_try [OF assms(1)], rule tripleI, goal_cases)
  case (1 r d)
  then show ?case
    by (cases r) (auto simp: removeFile_def bindP_apply sysCall_def gm_simps
        split: prod.splits sum.splits option.splits)
qed

lemma temp_not_json: "\<not> has_suffix (tempName sid random) ''.json''"
proof
  assume "has_suffix (tempName sid random) ''.json''"
  then obtain t where "''.'' @ sid @ ''-'' @ random @ ''.tmp'' = t @ ''.json''"
    by (auto simp: has_suffix_iff tempName_def)
  then have "rev (t @ ''.json'') = rev (''.'' @ sid @ ''-'' @ random @ ''.tmp'')" by simp
  then show False by simp
qed

lemma session_file_json: "has_suffix (sessionFile sid) ''.json''"
  by (auto simp: has_suffix_iff sessionFile_def)

text \<open>What a write may leave behind: the old files, or a stray temporary file, or the new record.\<close>

definition write_outcome :: "Session \<Rightarrow> string \<Rightarrow> (string \<rightharpoonup> Session option) \<Rightarrow>
    registryError + unit \<Rightarrow> Session option disk \<Rightarrow> bool" where
  "write_outcome session tmp M r d \<longleftrightarrow>
     map_of (dk_files d) = M(sessionFile (se_ID session) \<mapsto> Some (sessionJSON session)) \<or>
     (\<exists>e x. r = Inl e \<and> map_of (dk_files d) = M(tmp := x))"

lemma write_steps:
  assumes "M tmp = None" "tmp \<noteq> dest" "c = Some (sessionJSON session)" "dest = sessionFile (se_ID session)"
  shows "triple (\<lambda>d. map_of (dk_files d) = M(tmp \<mapsto> None))
     (bindP (sysCall faults e1) (\<lambda>_. bindP (sysCall faults e2) (\<lambda>_.
      bindP (diskUpdate (\<lambda>d. gm_put tmp c (dk_files d))) (\<lambda>_.
      bindP (sysCall faults e3) (\<lambda>_. bindP (sysCall faults e4) (\<lambda>_. rename faults e5 tmp dest))))))
     (\<lambda>r d. case r of Inr v \<Rightarrow> map_of (dk_files d) = M(dest \<mapsto> c)
        | Inl e \<Rightarrow> (\<exists>x. map_of (dk_files d) = M(tmp := x)))"
proof -
  have M: "M(tmp := None) = M" using assms(1) by (simp add: fun_upd_idem)
  let ?blank = "\<lambda>(F :: (string, Session option) gomap). map_of F = M(tmp \<mapsto> None)"
  let ?full = "\<lambda>(F :: (string, Session option) gomap). map_of F = M(tmp \<mapsto> c)"
  have upd: "triple (\<lambda>d. ?blank (dk_files d)) (diskUpdate (\<lambda>d. gm_put tmp c (dk_files d)))
      (\<lambda>r d. r = Inr () \<and> ?full (dk_files d))"
    by (rule triple_conseq [OF triple_diskUpdate [where P = ?full]]) (auto simp: gm_simps)
  have ren: "triple (\<lambda>d. ?full (dk_files d)) (rename faults e5 tmp dest)
      (\<lambda>r d. case r of Inr v \<Rightarrow> map_of (dk_files d) = M(dest \<mapsto> c)
        | Inl e \<Rightarrow> (\<exists>x. map_of (dk_files d) = M(tmp := x)))"
    by (rule triple_conseq [OF triple_rename [OF assms(2)]]) (auto simp: M split: sum.splits)
  show ?thesis
    by (rule triple_bind [OF triple_sysCall [where P = ?blank]],
        rule triple_bind [OF triple_sysCall [where P = ?blank]],
        rule triple_bind [OF upd], simp,
        rule triple_bind [OF triple_sysCall [where P = ?full]],
        rule triple_bind [OF triple_sysCall [where P = ?full]],
        rule ren) auto
qed

lemma registry_Write_outcome:
  "triple (\<lambda>d. map_of (dk_files d) = M) (registry_Write faults s random session)
     (\<lambda>r d. write_outcome session (tempName (se_ID session) random) M r d \<and>
        (r = Inr () \<longrightarrow> validateCanonical s session = Inr ()))"
proof -
  let ?tmp = "tempName (se_ID session) random" and ?file = "sessionFile (se_ID session)"
  let ?c = "Some (sessionJSON session)"
  let ?old = "\<lambda>(F :: (string, Session option) gomap). map_of F = M"
  let ?new = "\<lambda>(F :: (string, Session option) gomap). map_of F = M(?file \<mapsto> ?c)"
  let ?Q = "\<lambda>r d. write_outcome session ?tmp M r d \<and> (r = Inr () \<longrightarrow> validateCanonical s session = Inr ())"
  have ne: "?tmp \<noteq> ?file" using temp_not_json session_file_json by metis
  have failed: "?Q (Inl e) d" if "\<exists>x. map_of (dk_files d) = M(?tmp := x)" for e d
    using that by (auto simp: write_outcome_def)
  have old: "?Q (Inl e) d" if "?old (dk_files d)" for e d
    using that by (intro failed exI [of _ "M ?tmp"]) (simp add: fun_upd_idem)
  have tail: "triple (\<lambda>d. ?new (dk_files d)) (eachP (sysCall faults) es) ?Q"
    if "validateCanonical s session = Inr ()" for es
    by (rule triple_conseq [OF triple_sysCalls [where P = ?new]])
      (auto simp: write_outcome_def that)
  show ?thesis
    unfolding registry_Write_def Let_def Ensure_def
  proof (rule triple_bind [OF triple_sysCalls [where P = ?old]], goal_cases)
    case (1 x)
    show ?case
    proof (cases "validateCanonical s session")
      case (Inl e)
      then show ?thesis using old by (auto simp: triple_def)
    next
      case (Inr u)
      show ?thesis
        unfolding Inr sum.case
      proof (rule triple_bind [OF triple_createTemp], goal_cases)
        case (1 y)
        show ?case
        proof (cases "M ?tmp = None")
          case True
          note steps = triple_cleanUp [OF write_steps [where M = M and tmp = ?tmp and dest = ?file and c = ?c and session = session, OF True ne refl refl] True]
          have whole: "triple (\<lambda>d. map_of (dk_files d) = M(?tmp \<mapsto> None)) (bindP (cleanUp faults ?tmp m) (\<lambda>_. eachP (sysCall faults) es)) ?Q"
            if "triple (\<lambda>d. map_of (dk_files d) = M(?tmp \<mapsto> None)) (cleanUp faults ?tmp m)
              (\<lambda>r d. case r of Inr v \<Rightarrow> ?new (dk_files d) | Inl e \<Rightarrow> (\<exists>x. map_of (dk_files d) = M(?tmp := x)))"
            for m :: "unit registry" and es
            using that tail Inr failed by (intro triple_bind [OF that]) auto
          show ?thesis by (rule triple_conseq [OF whole [OF steps]]) auto
        qed (auto intro: tripleI)
      qed (use old in auto)
    qed
  qed (use old in auto)
qed

lemma ValidID_ascii: "ValidID sid \<Longrightarrow> list_all (\<lambda>c. byte c < 128) sid"
proof -
  assume "ValidID sid"
  then have "\<forall>c \<in> set sid. is_alnum c \<or> c = CHR ''.'' \<or> c = CHR ''_'' \<or> c = CHR ''-''"
    by (cases sid) (auto simp: ValidID_def match_class_def list_all_iff)
  moreover have "byte c < 128" if "is_alnum c" for c using that by (auto simp: char_class_defs)
  ultimately show ?thesis by (auto simp: list_all_iff)
qed

lemma url64_ascii: "is_url64 c \<Longrightarrow> byte c < 128"
  by (auto simp: char_class_defs)

lemma ValidPublicRef_ascii: "ValidPublicRef ref \<Longrightarrow> list_all (\<lambda>c. byte c < 128) ref"
  by (auto simp: ValidPublicRef_def match_class_def list_all_iff url64_ascii)

lemma sessionJSON_id:
  assumes "Validate session = Inr ()"
    "valid_utf8 (se_Socket session)" "valid_utf8 (se_CWD session)" "valid_utf8 (se_CreatedAt session)"
  shows "sessionJSON session = session"
  using assms ValidID_ascii ValidPublicRef_ascii valid_utf8_ascii
  by (auto simp: Validate_def sessionJSON_def coerce_utf8_valid split: if_splits)

lemma read_stored:
  assumes "ValidID sid" "map_of (dk_files d) (sessionFile sid) = Some (Some session)" "se_ID session = sid"
    "validateCanonical s session = Inr ()" "\<not> faults (dk_calls d)"
  shows "fst (registry_Read faults s sid d) = Inr session"
  using assms by (simp add: registry_Read_def read_def readFile_def bindP_apply sysCall_def)

lemma read_Inr:
  assumes "read faults s sid compatible d = (Inr session, d')"
  shows "map_of (dk_files d) (sessionFile sid) = Some (Some session) \<and> se_ID session = sid \<and> ValidID sid \<and>
     (\<not> compatible \<longrightarrow> validateCanonical s session = Inr ()) \<and> dk_files d' = dk_files d"
  using assms
  by (auto simp: read_def readFile_def bindP_apply sysCall_def
      split: if_splits option.splits sum.splits prod.splits)

lemma read_files: "dk_files (snd (read faults s sid compatible d)) = dk_files d"
  by (auto simp: read_def readFile_def bindP_apply sysCall_def
      split: if_splits option.splits sum.splits prod.splits)

subsection \<open>Sorting\<close>

lemma map_filter_set: "set (List.map_filter f xs) = {y. \<exists>x \<in> set xs. f x = Some y}"
  by (force simp: List.map_filter_def)

lemma map_filter_distinct:
  "distinct xs \<Longrightarrow> (\<And>x y. f x = Some y \<Longrightarrow> x = h (k y)) \<Longrightarrow> distinct (map k (List.map_filter f xs))"
proof (induction xs)
  case (Cons x xs)
  have "k y \<notin> k ` set (List.map_filter f xs)" if "f x = Some y" for y
    using that Cons.prems unfolding map_filter_set by (auto; metis)
  then show ?case using Cons by (cases "f x") (auto simp: List.map_filter_simps)
qed (simp add: List.map_filter_def)

lemma insert_back_set [simp]: "set (insert_back lt x xs) = insert x (set xs)"
  by (induction xs) auto

lemma insert_back_distinct:
  "distinct (map f (insert_back lt x xs)) \<longleftrightarrow> f x \<notin> f ` set xs \<and> distinct (map f xs)"
  by (induction xs) auto

lemma sort_slice_snoc: "sort_slice lt (xs @ [x]) = rev (insert_back lt x (rev (sort_slice lt xs)))"
  by (simp add: sort_slice_def)

lemma sort_slice_set [simp]: "set (sort_slice lt xs) = set xs"
  by (induction xs rule: rev_induct) (auto simp: sort_slice_snoc, simp add: sort_slice_def)

lemma sort_slice_distinct: "distinct (map f (sort_slice lt xs)) \<longleftrightarrow> distinct (map f xs)"
proof (induction xs rule: rev_induct)
  case (snoc x xs)
  then show ?case
    by (auto simp: sort_slice_snoc rev_map [symmetric] insert_back_distinct)
qed (simp add: sort_slice_def)

lemma insert_back_sorted:
  assumes asym: "\<And>a b. a \<in> S \<Longrightarrow> b \<in> S \<Longrightarrow> lt a b \<Longrightarrow> \<not> lt b a"
    and neg: "\<And>a b c. a \<in> S \<Longrightarrow> b \<in> S \<Longrightarrow> c \<in> S \<Longrightarrow> \<not> lt a b \<Longrightarrow> \<not> lt b c \<Longrightarrow> \<not> lt a c"
    and "sorted_wrt (\<lambda>a b. \<not> lt a b) ys" "set ys \<subseteq> S" "x \<in> S"
  shows "sorted_wrt (\<lambda>a b. \<not> lt a b) (insert_back lt x ys)"
  using assms(3,4)
proof (induction ys)
  case (Cons y ys)
  show ?case
  proof (cases "lt x y")
    case True
    have "\<not> lt y x" using asym [of x y] True Cons.prems(2) assms(5) by simp
    then show ?thesis using True Cons by simp
  next
    case False
    have "\<not> lt x z" if "z \<in> set ys" for z
      using neg [of x y z] False that Cons.prems assms(5) by auto
    then show ?thesis using False Cons.prems by simp
  qed
qed simp

lemma sort_slice_sorted:
  assumes "\<And>a b. a \<in> S \<Longrightarrow> b \<in> S \<Longrightarrow> lt a b \<Longrightarrow> \<not> lt b a"
    and "\<And>a b c. a \<in> S \<Longrightarrow> b \<in> S \<Longrightarrow> c \<in> S \<Longrightarrow> \<not> lt a b \<Longrightarrow> \<not> lt b c \<Longrightarrow> \<not> lt a c"
    and "set xs \<subseteq> S"
  shows "sorted_wrt (\<lambda>a b. \<not> lt b a) (sort_slice lt xs)"
  using assms(3)
proof (induction xs rule: rev_induct)
  case (snoc x xs)
  then have "sorted_wrt (\<lambda>a b. \<not> lt a b) (rev (sort_slice lt xs))" by (simp add: sorted_wrt_rev)
  then have "sorted_wrt (\<lambda>a b. \<not> lt a b) (insert_back lt x (rev (sort_slice lt xs)))"
    using snoc.prems by (intro insert_back_sorted [of S, OF assms(1,2)]) auto
  then show ?case by (simp add: sort_slice_snoc sorted_wrt_rev)
qed (simp add: sort_slice_def)

lemma string_less_irrefl: "\<not> string_less s s"
  by (induction s) auto

lemma string_less_Nil [simp]: "\<not> string_less s []"
  by (cases s) auto

lemma string_less_trans: "string_less r s \<Longrightarrow> string_less s t \<Longrightarrow> string_less r t"
proof (induction r arbitrary: s t)
  case Nil
  then show ?case by (cases t) auto
next
  case (Cons c r)
  obtain d s' where s: "s = d # s'" using Cons.prems(1) by (cases s) auto
  obtain e t' where t: "t = e # t'" using Cons.prems(2) by (cases t) auto
  show ?case using Cons.prems Cons.IH [of s' t'] unfolding s t by auto
qed

lemma string_less_total: "string_less s t \<or> s = t \<or> string_less t s"
proof (induction s arbitrary: t)
  case Nil
  then show ?case by (cases t) auto
next
  case (Cons c s)
  show ?case
  proof (cases "t = []")
    case False
    then obtain d t' where t: "t = d # t'" by (cases t) auto
    have "byte c < byte d \<or> c = d \<or> byte d < byte c" by (meson linorder_neqE_nat of_char_eq_iff)
    then show ?thesis using t Cons.IH [of t'] by auto
  qed simp
qed

lemma sessionLess_parsed:
  assumes "parseTime (se_CreatedAt a) = Some ta" "parseTime (se_CreatedAt b) = Some tb"
  shows "sessionLess parseTime a b \<longleftrightarrow> ta < tb \<or> ta = tb \<and> string_less (se_ID a) (se_ID b)"
  using assms by (auto simp: sessionLess_def)

lemma sessionLess_sorted:
  assumes "\<forall>x \<in> set xs. parseTime (se_CreatedAt x) \<noteq> None"
  shows "sorted_wrt (\<lambda>a b. \<not> sessionLess parseTime b a) (sort_slice (sessionLess parseTime) xs)"
proof (rule sort_slice_sorted [where S = "{x. parseTime (se_CreatedAt x) \<noteq> None}"], goal_cases)
  case (1 a b)
  then obtain ta tb where t: "parseTime (se_CreatedAt a) = Some ta" "parseTime (se_CreatedAt b) = Some tb"
    by auto
  have "\<not> (string_less (se_ID a) (se_ID b) \<and> string_less (se_ID b) (se_ID a))"
    using string_less_irrefl string_less_trans by blast
  then show ?case
    using 1(3) sessionLess_parsed [OF t] sessionLess_parsed [OF t(2,1)] by auto
next
  case (2 a b c)
  then obtain ta tb tc where t: "parseTime (se_CreatedAt a) = Some ta" "parseTime (se_CreatedAt b) = Some tb"
    "parseTime (se_CreatedAt c) = Some tc" by auto
  have "string_less (se_ID a) (se_ID b) \<or> string_less (se_ID b) (se_ID c)" if "string_less (se_ID a) (se_ID c)"
    using string_less_total [of "se_ID a" "se_ID b"] string_less_trans that by metis
  moreover have "tb \<le> ta" "tc \<le> tb" "ta = tb \<Longrightarrow> \<not> string_less (se_ID a) (se_ID b)"
    "tb = tc \<Longrightarrow> \<not> string_less (se_ID b) (se_ID c)"
    using 2(4,5) sessionLess_parsed [OF t(1,2)] sessionLess_parsed [OF t(2,3)] by auto
  ultimately show ?case using sessionLess_parsed [OF t(1,3)] by auto
qed (use assms in auto)

lemma readEntries_faultless:
  "\<exists>d'. readEntries (\<lambda>_. False) s False names d =
     (Inr (List.map_filter (\<lambda>name. if has_suffix name ''.json''
        then (case fst (read (\<lambda>_. False) s (trim_suffix name ''.json'') False d) of Inl _ \<Rightarrow> None | Inr x \<Rightarrow> Some x)
        else None) names), d') \<and> dk_files d' = dk_files d"
proof (induction names arbitrary: d)
  case Nil
  then show ?case by (simp add: List.map_filter_def)
next
  case (Cons name names)
  show ?case
  proof (cases "has_suffix name ''.json''")
    case False
    then show ?thesis using Cons.IH [of d] by (simp add: List.map_filter_def)
  next
    case True
    obtain r d1 where r: "read (\<lambda>_. False) s (trim_suffix name ''.json'') False d = (r, d1)" by fastforce
    then have files: "dk_files d1 = dk_files d" using read_files by (metis snd_conv)
    have same: "fst (read (\<lambda>_. False) s sid False d1) = fst (read (\<lambda>_. False) s sid False d)" for sid
      using files by (simp add: read_def readFile_def bindP_apply sysCall_def split: option.split sum.split)
    show ?thesis
      using Cons.IH [of d1] r files True
      by (auto simp: tryP_apply bindP_apply List.map_filter_def same split: sum.split)
  qed
qed

lemma list_faultless:
  obtains d' where "registry_List (\<lambda>_. False) parseTime s d =
    (Inr (sort_slice (sessionLess parseTime) (List.map_filter (\<lambda>name. if has_suffix name ''.json''
        then (case fst (read (\<lambda>_. False) s (trim_suffix name ''.json'') False d) of Inl _ \<Rightarrow> None | Inr x \<Rightarrow> Some x)
        else None) (sort_slice string_less (map fst (dk_files d))))), d')"
proof -
  have "Ensure (\<lambda>_. False) d = (Inr (), d\<lparr>dk_calls := dk_calls d + 6\<rparr>)"
    by (simp add: Ensure_def sysCall_def bindP_apply numeral_eq_Suc)
  then have eq: "registry_List (\<lambda>_. False) parseTime s d =
      bindP (readEntries (\<lambda>_. False) s False (sort_slice string_less (map fst (dk_files d))))
        (\<lambda>sessions. returnP (sort_slice (sessionLess parseTime) sessions)) (d\<lparr>dk_calls := Suc (dk_calls d + 6)\<rparr>)"
    by (simp add: registry_List_def list_sessions_def bindP_apply sysCall_def)
  have same: "fst (read (\<lambda>_. False) s sid False (d\<lparr>dk_calls := n\<rparr>)) = fst (read (\<lambda>_. False) s sid False d)" for sid n
    by (simp add: read_def readFile_def bindP_apply sysCall_def split: option.split sum.split)
  obtain d' where "readEntries (\<lambda>_. False) s False (sort_slice string_less (map fst (dk_files d)))
      (d\<lparr>dk_calls := Suc (dk_calls d + 6)\<rparr>) =
      (Inr (List.map_filter (\<lambda>name. if has_suffix name ''.json''
        then (case fst (read (\<lambda>_. False) s (trim_suffix name ''.json'') False d) of Inl _ \<Rightarrow> None | Inr x \<Rightarrow> Some x)
        else None) (sort_slice string_less (map fst (dk_files d)))), d')"
    using readEntries_faultless [of s "sort_slice string_less (map fst (dk_files d))"
        "d\<lparr>dk_calls := Suc (dk_calls d + 6)\<rparr>"] unfolding same by blast
  then show thesis using that [of d'] unfolding eq bindP_apply by simp
qed

definition listed :: "Store \<Rightarrow> Session option disk \<Rightarrow> Session set" where
  "listed s d = {session. map_of (dk_files d) (sessionFile (se_ID session)) = Some (Some session) \<and>
     validateCanonical s session = Inr ()}"

lemma canonical_ValidID: "validateCanonical s session = Inr () \<Longrightarrow> ValidID (se_ID session)"
  by (auto simp: validateCanonical_def Validate_def result_simps split: if_splits)

lemma read_faultless_iff:
  "fst (read (\<lambda>_. False) s sid False d) = Inr session \<longleftrightarrow> session \<in> listed s d \<and> se_ID session = sid"
proof
  assume "fst (read (\<lambda>_. False) s sid False d) = Inr session"
  then have "read (\<lambda>_. False) s sid False d = (Inr session, snd (read (\<lambda>_. False) s sid False d))"
    by (simp add: prod_eq_iff)
  from read_Inr [OF this] show "session \<in> listed s d \<and> se_ID session = sid"
    by (simp add: listed_def)
next
  assume "session \<in> listed s d \<and> se_ID session = sid"
  then show "fst (read (\<lambda>_. False) s sid False d) = Inr session"
    using read_stored [of sid d session s "\<lambda>_. False"] canonical_ValidID
    by (auto simp: listed_def registry_Read_def)
qed

lemma json_name: "has_suffix name ''.json'' \<longleftrightarrow> name = sessionFile (trim_suffix name ''.json'')"
  by (auto simp: has_suffix_iff sessionFile_def)

subsection \<open>Properties\<close>

text \<open>
  C11. Writing a record is atomic under every pattern of system call failures: afterwards each
  record file is as before, except that the written session's file may hold the complete new
  record, and it does hold it when the write reports success, which it does only for a valid
  canonical record. Other files change at most by one stray temporary file, which no listing reads.
\<close>

theorem registry_write_atomic:
  assumes "registry_Write faults s random session d = (r, d')"
  shows "(\<forall>name. has_suffix name ''.json'' \<longrightarrow> map_of (dk_files d') name = map_of (dk_files d) name \<or>
       name = sessionFile (se_ID session) \<and> map_of (dk_files d') name = Some (Some (sessionJSON session))) \<and>
     (r = Inr () \<longrightarrow> validateCanonical s session = Inr () \<and>
       map_of (dk_files d') = (map_of (dk_files d))(sessionFile (se_ID session) \<mapsto> Some (sessionJSON session)))"
proof -
  have "write_outcome session (tempName (se_ID session) random) (map_of (dk_files d)) r d' \<and>
      (r = Inr () \<longrightarrow> validateCanonical s session = Inr ())"
    using tripleD [OF registry_Write_outcome _ assms] by simp
  then show ?thesis using temp_not_json by (auto simp: write_outcome_def split: if_splits)
qed

definition demo_session :: Session where
  "demo_session = \<lparr>se_ID = ''a'', se_Name = ''a'', se_PublicRef = replicate 32 CHR ''x'', se_TmuxName = ''a'',
     se_Socket = ''/s/sockets/a.sock'', se_PID = 1, se_CWD = ''/'', se_CreatedAt = []\<rparr>"

definition demo_fault :: faults where
  "demo_fault n = (n = 11)"

text \<open>The witness lets the rename fail: the old record stays.\<close>

theorem registry_write_atomic_witness:
  "map_of (dk_files (snd (registry_Write demo_fault (NewStore ''/s'') ''7'' demo_session
     \<lparr>dk_files = [(''a.json'', None)], dk_calls = 0\<rparr>))) ''a.json'' \<in> {Some None, Some (Some (sessionJSON demo_session))}"
proof -
  let ?d = "\<lparr>dk_files = [(''a.json'', None)], dk_calls = 0\<rparr>"
  have "registry_Write demo_fault (NewStore ''/s'') ''7'' demo_session ?d =
      (fst (registry_Write demo_fault (NewStore ''/s'') ''7'' demo_session ?d),
       snd (registry_Write demo_fault (NewStore ''/s'') ''7'' demo_session ?d))" by simp
  from registry_write_atomic [OF this] show ?thesis
    by (auto simp: has_suffix_def sessionFile_def demo_session_def dest: spec [of _ "''a.json''"])
qed

text \<open>
  What was written is read back: after a successful write, whatever failed in between, a read of
  the session returns exactly the written record, provided its free texts are valid UTF-8 and the
  read's system call succeeds.
\<close>

theorem registry_write_read:
  assumes "registry_Write faults s random session d = (Inr (), d')" "\<not> faults (dk_calls d')"
    and "valid_utf8 (se_Socket session)" "valid_utf8 (se_CWD session)" "valid_utf8 (se_CreatedAt session)"
  shows "fst (registry_Read faults s (se_ID session) d') = Inr session"
proof -
  have "write_outcome session (tempName (se_ID session) random) (map_of (dk_files d)) (Inr ()) d'"
    and ok: "validateCanonical s session = Inr ()"
    using tripleD [OF registry_Write_outcome _ assms(1)] by simp_all
  then have "map_of (dk_files d') (sessionFile (se_ID session)) = Some (Some (sessionJSON session))"
    by (simp add: write_outcome_def)
  moreover have "sessionJSON session = session"
    using ok assms(3-5) by (intro sessionJSON_id) (auto simp: validateCanonical_def result_simps)
  ultimately show ?thesis
    using ok canonical_ValidID assms(2) by (intro read_stored) auto
qed

theorem registry_write_read_witness:
  "\<exists>d'. fst (registry_Read (\<lambda>_. False) (NewStore ''/s'') ''a'' d') = Inr demo_session"
proof -
  let ?s = "NewStore ''/s''" and ?d = "\<lparr>dk_files = [], dk_calls = 0\<rparr>"
  have trim: "trim_space ''/s/sockets/a.sock'' = ''/s/sockets/a.sock''"
    by (intro trim_space_graph) simp_all
  have "validateCanonical ?s demo_session = Inr ()"
    by (simp add: validateCanonical_def Validate_def demo_session_def ValidID_def match_class_def
        char_class_defs ValidPublicRef_def trim has_prefix_def expectedSocket_def NewStore_def
        pathJoin_def list_all_iff)
  then have "fst (registry_Write (\<lambda>_. False) ?s ''7'' demo_session ?d) = Inr ()"
    by (simp add: registry_Write_def Ensure_def sysCall_def bindP_apply createTemp_def cleanUp_def
        tryP_apply diskUpdate_def rename_def gm_simps Let_def)
  then have w: "registry_Write (\<lambda>_. False) ?s ''7'' demo_session ?d =
      (Inr (), snd (registry_Write (\<lambda>_. False) ?s ''7'' demo_session ?d))" by (simp add: prod_eq_iff)
  have "valid_utf8 (se_Socket demo_session)" "valid_utf8 (se_CWD demo_session)"
    "valid_utf8 (se_CreatedAt demo_session)"
    by (intro valid_utf8_ascii; simp add: demo_session_def)+
  from registry_write_read [OF w _ this] show ?thesis by (auto simp: demo_session_def)
qed

text \<open>
  Listing is complete and sound: without system call failures it returns exactly the sessions
  whose file holds a valid canonical record under the session's own name, each once, whatever else
  lies in the directory; and it is ordered by creation time, then identifier, when all creation
  times parse.
\<close>

theorem registry_list_exact:
  assumes "gm_wf (dk_files d)"
  shows "\<exists>sessions d'. registry_List (\<lambda>_. False) parseTime s d = (Inr sessions, d') \<and>
     set sessions = listed s d \<and> distinct (map se_ID sessions) \<and>
     ((\<forall>x \<in> set sessions. parseTime (se_CreatedAt x) \<noteq> None) \<longrightarrow>
        sorted_wrt (\<lambda>a b. \<not> sessionLess parseTime b a) sessions)"
proof -
  let ?f = "\<lambda>name. if has_suffix name ''.json''
      then (case fst (read (\<lambda>_. False) s (trim_suffix name ''.json'') False d) of Inl _ \<Rightarrow> None | Inr x \<Rightarrow> Some x)
      else None"
  let ?names = "sort_slice string_less (map fst (dk_files d))"
  let ?found = "List.map_filter ?f ?names"
  obtain d' where eq: "registry_List (\<lambda>_. False) parseTime s d =
      (Inr (sort_slice (sessionLess parseTime) ?found), d')"
    by (rule list_faultless)
  have f: "?f name = Some session \<longleftrightarrow> session \<in> listed s d \<and> name = sessionFile (se_ID session)"
    for name session
  proof
    assume a: "?f name = Some session"
    then have "has_suffix name ''.json''" "session \<in> listed s d" "se_ID session = trim_suffix name ''.json''"
      using read_faultless_iff [of s _ d session] by (auto split: if_splits sum.splits)
    then show "session \<in> listed s d \<and> name = sessionFile (se_ID session)" using json_name by simp
  next
    assume "session \<in> listed s d \<and> name = sessionFile (se_ID session)"
    then show "?f name = Some session"
      using read_faultless_iff [of s "se_ID session" d session] session_file_json
      by (simp add: sessionFile_def)
  qed
  have "sessionFile (se_ID session) \<in> set ?names" if "session \<in> listed s d" for session
    using that by (auto simp: listed_def dest!: map_of_SomeD intro: image_eqI [where x = "(_, _)"])
  then have set: "set ?found = listed s d"
    unfolding map_filter_set using f by blast
  have "distinct ?names"
    using sort_slice_distinct [of "\<lambda>x. x" string_less "map fst (dk_files d)"] assms
    by (simp add: gm_wf_def)
  then have "distinct (map se_ID ?found)"
    using f by (intro map_filter_distinct [where h = sessionFile]) blast+
  then have "distinct (map se_ID (sort_slice (sessionLess parseTime) ?found))"
    unfolding sort_slice_distinct .
  moreover have "sorted_wrt (\<lambda>a b. \<not> sessionLess parseTime b a) (sort_slice (sessionLess parseTime) ?found)"
    if "\<forall>x \<in> set ?found. parseTime (se_CreatedAt x) \<noteq> None"
    using that by (rule sessionLess_sorted)
  ultimately show ?thesis
    unfolding eq using set sort_slice_set [of "sessionLess parseTime" ?found] by blast
qed

theorem registry_list_exact_witness:
  "\<exists>sessions d'. registry_List (\<lambda>_. False) (\<lambda>_. None) (NewStore ''/s'') \<lparr>dk_files = [(''a.json'', None)], dk_calls = 0\<rparr>
     = (Inr sessions, d') \<and> set sessions = listed (NewStore ''/s'') \<lparr>dk_files = [(''a.json'', None)], dk_calls = 0\<rparr>"
  using registry_list_exact [of "\<lparr>dk_files = [(''a.json'', None)], dk_calls = 0\<rparr>" "\<lambda>_. None" "NewStore ''/s''"]
  by (auto simp: gm_wf_def)

text \<open>
  The order of the listing is not transitive as soon as one creation time does not parse: there
  are three records each less than the next in a cycle, so that the result of sorting them depends
  on the order of the directory and on the sorting algorithm.
\<close>

theorem session_order_cycle:
  fixes parseTime :: "string \<Rightarrow> time option"
  assumes "parseTime early = Some t1" "parseTime late = Some t2" "t1 < t2" "parseTime [] = None"
  shows "sessionLess parseTime (demo_session\<lparr>se_ID := ''a'', se_CreatedAt := late\<rparr>)
       (demo_session\<lparr>se_ID := ''b'', se_CreatedAt := []\<rparr>) \<and>
     sessionLess parseTime (demo_session\<lparr>se_ID := ''b'', se_CreatedAt := []\<rparr>)
       (demo_session\<lparr>se_ID := ''c'', se_CreatedAt := early\<rparr>) \<and>
     sessionLess parseTime (demo_session\<lparr>se_ID := ''c'', se_CreatedAt := early\<rparr>)
       (demo_session\<lparr>se_ID := ''a'', se_CreatedAt := late\<rparr>)"
  using assms by (simp add: sessionLess_def)

theorem session_order_cycle_witness:
  "sessionLess (\<lambda>s. if s = [] then None else Some (int (length s)))
     (demo_session\<lparr>se_ID := ''c'', se_CreatedAt := ''1''\<rparr>) (demo_session\<lparr>se_ID := ''a'', se_CreatedAt := ''22''\<rparr>)"
  using session_order_cycle [of "\<lambda>s. if s = [] then None else Some (int (length s))" "''1''" 1 "''22''" 2]
  by simp

end
