(* ===== verification/Identity.thy ===== *)
theory Identity
  imports Server_Types Tmux Registry
begin

section \<open>Public identities of windows and panes\<close>

text \<open>
  \<^verbatim>\<open>internal/server/identity.go\<close>: the browser names windows and panes by opaque references; this store
  binds each reference to a raw tmux identifier and, for panes, to the generation of the tmux
  server. The random source is a sequence \<open>rands\<close>; the store counts how many values it has used
  (\<open>is_used\<close>), a number the program does not keep. The operations that run tmux commands are
  programs over the world and the store.

  \<^verbatim>\<open>resolvePane\<close> releases the lock between the refresh and the lookup; \<open>env\<close> is what other
  goroutines do to the store in between. The lookup there does not test for a forgotten session, so
  the model has an outcome for the nil dereference.

  The lemmas show that references and raw identifiers are in bijection in every reachable store,
  and that a pane reference never changes its meaning.
\<close>

record publicWindow =
  pw_Ref :: WindowRef
  pw_Name :: string
  pw_Active :: bool
  pw_Panes :: int
  pw_ActivePaneRef :: PaneRef
  pw_Width :: int
  pw_Height :: int

record publicTopology =
  pt_Windows :: "publicWindow list"
  pt_ActiveWindowRef :: WindowRef
  pt_ActivePaneRef :: PaneRef
  pt_WindowWidth :: int
  pt_WindowHeight :: int

record paneBinding =
  pn_ref :: PaneRef
  pn_rawID :: string
  pn_windowID :: string
  pn_active :: bool
  pn_generation :: PaneGeneration

record windowBinding =
  wb_ref :: WindowRef
  wb_rawID :: string

record sessionIdentity =
  si_canonical :: string
  si_panes :: "(PaneRef, paneBinding) gomap"
  si_paneRefs :: "(string, PaneRef) gomap"
  si_windows :: "(WindowRef, windowBinding) gomap"
  si_windowRefs :: "(string, WindowRef) gomap"

record identityStore =
  is_sessions :: "(SessionRef, sessionIdentity) gomap"
  is_used :: nat

datatype identityError =
    errStaleTerminalIdentity
  | IdentityTmux tmuxError
  | NilDereference

definition newIdentityStore :: identityStore where
  "newIdentityStore = \<lparr>is_sessions = [], is_used = 0\<rparr>"

definition newSessionIdentity :: "string \<Rightarrow> sessionIdentity" where
  "newSessionIdentity canonical =
     \<lparr>si_canonical = canonical, si_panes = [], si_paneRefs = [], si_windows = [], si_windowRefs = []\<rparr>"

subsection \<open>Updating a session's identities\<close>

definition windowRef_step :: "(nat \<Rightarrow> string) \<Rightarrow> string \<Rightarrow> sessionIdentity \<times> nat \<Rightarrow> sessionIdentity \<times> nat" where
  "windowRef_step rands raw = (\<lambda>(s, n).
     case map_of (si_windowRefs s) raw of
       Some _ \<Rightarrow> (s, n)
     | None \<Rightarrow>
         (let ref = newOpaqueRuntimeRef ''w'' (rands n) in
          (s\<lparr>si_windowRefs := gm_put raw ref (si_windowRefs s),
             si_windows := gm_put ref \<lparr>wb_ref = ref, wb_rawID = raw\<rparr> (si_windows s)\<rparr>, Suc n)))"

text \<open>The zero value of a missing map entry has the zero generation.\<close>

definition pane_lookup :: "sessionIdentity \<Rightarrow> PaneRef \<Rightarrow> PaneGeneration" where
  "pane_lookup s ref =
     (case map_of (si_panes s) ref of None \<Rightarrow> zero_generation | Some b \<Rightarrow> pn_generation b)"

definition dropStale :: "PaneGeneration \<Rightarrow> string \<Rightarrow> sessionIdentity \<Rightarrow> sessionIdentity" where
  "dropStale generation raw s =
     (case map_of (si_paneRefs s) raw of
        None \<Rightarrow> s
      | Some ref \<Rightarrow>
          if pane_lookup s ref \<noteq> generation
          then s\<lparr>si_panes := gm_del ref (si_panes s), si_paneRefs := gm_del raw (si_paneRefs s)\<rparr> else s)"

definition paneRef_step :: "(nat \<Rightarrow> string) \<Rightarrow> string \<Rightarrow> sessionIdentity \<times> nat \<Rightarrow> PaneRef \<times> sessionIdentity \<times> nat" where
  "paneRef_step rands raw = (\<lambda>(s, n).
     case map_of (si_paneRefs s) raw of
       Some ref \<Rightarrow> (ref, s, n)
     | None \<Rightarrow>
         (let ref = newOpaqueRuntimeRef ''p'' (rands n) in
          (ref, s\<lparr>si_paneRefs := gm_put raw ref (si_paneRefs s)\<rparr>, Suc n)))"

definition paneGeneration :: "Topology \<Rightarrow> TopologyPane \<Rightarrow> PaneGeneration" where
  "paneGeneration topology pane =
     \<lparr>TmuxServerStart = to_ServerStart topology, TmuxServerPID = to_ServerPID topology, PaneID = tp_ID pane\<rparr>"

text \<open>One iteration over the panes; the binding it makes is the last component.\<close>

definition bindPane :: "(nat \<Rightarrow> string) \<Rightarrow> Topology \<Rightarrow> TopologyPane \<Rightarrow> sessionIdentity \<times> nat \<Rightarrow>
    (sessionIdentity \<times> nat) \<times> paneBinding" where
  "bindPane rands topology pane sn =
     (let (s1, n1) = windowRef_step rands (tp_WindowID pane) sn;
          generation = paneGeneration topology pane;
          (paneRef, s3, n3) = paneRef_step rands (tp_ID pane) (dropStale generation (tp_ID pane) s1, n1);
          binding = \<lparr>pn_ref = paneRef, pn_rawID = tp_ID pane, pn_windowID = tp_WindowID pane,
            pn_active = (tp_Active pane \<and> tp_WindowOpen pane), pn_generation = generation\<rparr> in
      ((s3\<lparr>si_panes := gm_put paneRef binding (si_panes s3)\<rparr>, n3), binding))"

fun bindPanes :: "(nat \<Rightarrow> string) \<Rightarrow> Topology \<Rightarrow> TopologyPane list \<Rightarrow> sessionIdentity \<times> nat \<Rightarrow>
    (sessionIdentity \<times> nat) \<times> paneBinding list" where
  "bindPanes rands topology [] sn = (sn, [])"
| "bindPanes rands topology (pane # panes) sn =
     (let (sn1, b) = bindPane rands topology pane sn; (sn2, bs) = bindPanes rands topology panes sn1
      in (sn2, b # bs))"

text \<open>The loops that delete what is not live: the references of a dropped raw identifier go too.\<close>

definition keepLive :: "string list \<Rightarrow> string list \<Rightarrow> sessionIdentity \<Rightarrow> sessionIdentity" where
  "keepLive livePanes liveWindows s =
     (let deadPanes = map snd (filter (\<lambda>e. fst e \<notin> set livePanes) (si_paneRefs s));
          deadWindows = map snd (filter (\<lambda>e. fst e \<notin> set liveWindows) (si_windowRefs s)) in
      s\<lparr>si_paneRefs := gm_drop (\<lambda>raw ref. raw \<notin> set livePanes) (si_paneRefs s),
        si_panes := gm_drop (\<lambda>ref b. ref \<in> set deadPanes) (si_panes s),
        si_windowRefs := gm_drop (\<lambda>raw ref. raw \<notin> set liveWindows) (si_windowRefs s),
        si_windows := gm_drop (\<lambda>ref b. ref \<in> set deadWindows) (si_windows s)\<rparr>)"

text \<open>The first pane of each window, in order: \<^verbatim>\<open>windowOrder\<close> with \<^verbatim>\<open>windowMeta\<close>.\<close>

fun firstPanes :: "string list \<Rightarrow> TopologyPane list \<Rightarrow> TopologyPane list" where
  "firstPanes seen [] = []"
| "firstPanes seen (pane # panes) =
     (if tp_WindowID pane \<in> set seen then firstPanes seen panes
      else pane # firstPanes (tp_WindowID pane # seen) panes)"

definition publicWindowOf :: "sessionIdentity \<Rightarrow> paneBinding list \<Rightarrow> TopologyPane \<Rightarrow> publicWindow" where
  "publicWindowOf s bindings meta =
     (let windowPanes = filter (\<lambda>b. pn_windowID b = tp_WindowID meta) bindings in
      \<lparr>pw_Ref = (case map_of (si_windowRefs s) (tp_WindowID meta) of None \<Rightarrow> [] | Some r \<Rightarrow> r),
       pw_Name = tp_WindowName meta, pw_Active = tp_WindowOpen meta, pw_Panes = int (length windowPanes),
       pw_ActivePaneRef = foldl (\<lambda>acc b. if pn_active b then pn_ref b else acc) [] windowPanes,
       pw_Width = tp_Width meta, pw_Height = tp_Height meta\<rparr>)"

definition addWindow :: "publicTopology \<Rightarrow> publicWindow \<Rightarrow> publicTopology" where
  "addWindow result window =
     (let r = (if pw_Active window
               then result\<lparr>pt_ActiveWindowRef := pw_Ref window, pt_ActivePaneRef := pw_ActivePaneRef window,
                 pt_WindowWidth := pw_Width window, pt_WindowHeight := pw_Height window\<rparr>
               else result) in
      r\<lparr>pt_Windows := pt_Windows r @ [window]\<rparr>)"

definition identity_update :: "(nat \<Rightarrow> string) \<Rightarrow> Topology \<Rightarrow> sessionIdentity \<times> nat \<Rightarrow>
    (identityError + publicTopology) \<times> sessionIdentity \<times> nat" where
  "identity_update rands topology sn =
     (let panes = to_Panes topology;
          ((s1, n1), bindings) = bindPanes rands topology panes sn;
          s2 = keepLive (map tp_ID panes) (map tp_WindowID panes) s1;
          result = foldl addWindow
            \<lparr>pt_Windows = [], pt_ActiveWindowRef = [], pt_ActivePaneRef = [], pt_WindowWidth = 0, pt_WindowHeight = 0\<rparr>
            (map (publicWindowOf s2 bindings) (firstPanes [] panes)) in
      (if pt_ActivePaneRef result = [] \<or> pt_ActiveWindowRef result = [] then Inl errStaleTerminalIdentity
       else Inr result, s2, n1))"

subsection \<open>The store\<close>

type_synonym ('w, 'a) identity = "('w \<times> identityStore, identityError, 'a) prog"

definition onTmux :: "('w, 'a) tmux \<Rightarrow> ('w, 'a) identity" where
  "onTmux m = (\<lambda>(w, s). case m w of (Inl e, w') \<Rightarrow> (Inl (IdentityTmux e), (w', s)) | (Inr x, w') \<Rightarrow> (Inr x, (w', s)))"

definition sessionIdentityFor :: "identityStore \<Rightarrow> Session \<Rightarrow> sessionIdentity" where
  "sessionIdentityFor store managed =
     (case map_of (is_sessions store) (se_PublicRef managed) of
        None \<Rightarrow> newSessionIdentity (se_ID managed)
      | Some identity \<Rightarrow>
          if si_canonical identity \<noteq> se_ID managed then newSessionIdentity (se_ID managed) else identity)"

definition applyTopology :: "(nat \<Rightarrow> string) \<Rightarrow> Session \<Rightarrow> Topology \<Rightarrow> identityStore \<Rightarrow>
    (identityError + publicTopology) \<times> identityStore" where
  "applyTopology rands managed topology store =
     (case identity_update rands topology (sessionIdentityFor store managed, is_used store) of
        (r, s, n) \<Rightarrow> (r, store\<lparr>is_sessions := gm_put (se_PublicRef managed) s (is_sessions store), is_used := n\<rparr>))"

definition refresh :: "(nat \<Rightarrow> string) \<Rightarrow> 'w Client \<Rightarrow> Session \<Rightarrow> ('w, publicTopology) identity" where
  "refresh rands c managed =
     bindP (onTmux (tmux_Topology c (se_TmuxName managed))) (\<lambda>topology (w, store).
       case applyTopology rands managed topology store of (r, store') \<Rightarrow> (r, (w, store')))"

definition resolvePane :: "(nat \<Rightarrow> string) \<Rightarrow> 'w Client \<Rightarrow> (identityStore \<Rightarrow> identityStore) \<Rightarrow> Session \<Rightarrow>
    PaneRef \<Rightarrow> bool \<Rightarrow> ('w, paneBinding) identity" where
  "resolvePane rands c env managed ref active =
     (if ref = [] then failP errStaleTerminalIdentity
      else bindP (refresh rands c managed) (\<lambda>_ (w, store0).
        let store = env store0 in
        case map_of (is_sessions store) (se_PublicRef managed) of
          None \<Rightarrow> (Inl NilDereference, (w, store))
        | Some identity \<Rightarrow>
            (case map_of (si_panes identity) ref of
               None \<Rightarrow> (Inl errStaleTerminalIdentity, (w, store))
             | Some binding \<Rightarrow>
                 if active \<and> \<not> pn_active binding then (Inl errStaleTerminalIdentity, (w, store))
                 else
                   let expected = \<lparr>ServerStart = TmuxServerStart (pn_generation binding),
                         ServerPID = TmuxServerPID (pn_generation binding),
                         GenPaneID = PaneID (pn_generation binding)\<rparr> in
                   (case VerifyPaneGeneration c (pn_rawID binding) expected w of
                      (Inl e, w') \<Rightarrow> (Inl errStaleTerminalIdentity, (w', store))
                    | (Inr _, w') \<Rightarrow> (Inr binding, (w', store))))))"

definition resolveWindow :: "identityStore \<Rightarrow> Session \<Rightarrow> WindowRef \<Rightarrow> identityError + windowBinding" where
  "resolveWindow store managed ref =
     (if ref = [] then Inl errStaleTerminalIdentity
      else case map_of (is_sessions store) (se_PublicRef managed) of
          None \<Rightarrow> Inl errStaleTerminalIdentity
        | Some identity \<Rightarrow>
            (case map_of (si_windows identity) ref of
               None \<Rightarrow> Inl errStaleTerminalIdentity | Some binding \<Rightarrow> Inr binding))"

definition forget :: "SessionRef \<Rightarrow> identityStore \<Rightarrow> identityStore" where
  "forget ref store = store\<lparr>is_sessions := gm_del ref (is_sessions store)\<rparr>"

subsection \<open>Two-way bindings\<close>

text \<open>
  The pair of maps the code keeps for panes, and again for windows: from references to bindings and
  from raw identifiers to references, inverse to each other, with references drawn from the random
  values used so far.
\<close>

definition two_way :: "(nat \<Rightarrow> string) \<Rightarrow> ('b \<Rightarrow> string) \<Rightarrow> (string, string) gomap \<Rightarrow> (string, 'b) gomap \<Rightarrow> nat \<Rightarrow> bool" where
  "two_way name raw_of refs binds n \<longleftrightarrow> gm_wf refs \<and> gm_wf binds \<and>
     (\<forall>raw ref. map_of refs raw = Some ref \<longrightarrow> (\<exists>b. map_of binds ref = Some b \<and> raw_of b = raw)) \<and>
     (\<forall>ref b. map_of binds ref = Some b \<longrightarrow>
        map_of refs (raw_of b) = Some ref \<and> (\<exists>i < n. ref = name i))"

lemma two_wayD:
  assumes "two_way name raw_of refs binds n"
  shows "gm_wf refs" "gm_wf binds"
    "map_of refs raw = Some ref \<Longrightarrow> \<exists>b. map_of binds ref = Some b \<and> raw_of b = raw"
    "map_of binds ref = Some b \<Longrightarrow> map_of refs (raw_of b) = Some ref"
    "map_of binds ref = Some b \<Longrightarrow> \<exists>i < n. ref = name i"
  using assms by (auto simp: two_way_def)

lemma two_wayI:
  assumes "gm_wf refs" "gm_wf binds"
    "\<And>raw ref. map_of refs raw = Some ref \<Longrightarrow> \<exists>b. map_of binds ref = Some b \<and> raw_of b = raw"
    "\<And>ref b. map_of binds ref = Some b \<Longrightarrow> map_of refs (raw_of b) = Some ref"
    "\<And>ref b. map_of binds ref = Some b \<Longrightarrow> \<exists>i < n. ref = name i"
  shows "two_way name raw_of refs binds n"
  using assms by (simp add: two_way_def)

lemma two_way_empty [simp]: "two_way name raw_of [] [] n"
  by (simp add: two_way_def)

lemma two_way_mono: "two_way name raw_of refs binds n \<Longrightarrow> n \<le> n' \<Longrightarrow> two_way name raw_of refs binds n'"
  unfolding two_way_def by (meson less_le_trans)

lemma two_way_fresh:
  assumes "two_way name raw_of refs binds n" "inj name"
  shows "map_of binds (name n) = None"
proof (rule ccontr)
  assume "map_of binds (name n) \<noteq> None"
  then obtain i where "i < n" "name n = name i" using two_wayD(5) [OF assms(1)] by blast
  then show False using assms(2) by (simp add: inj_eq)
qed

lemma two_way_add:
  assumes tw: "two_way name raw_of refs binds n" and "inj name" "map_of refs (raw_of b) = None"
  shows "two_way name raw_of (gm_put (raw_of b) (name n) refs) (gm_put (name n) b binds) (Suc n)"
proof -
  have fresh: "map_of binds (name n) = None" using two_way_fresh tw assms(2) by blast
  have notin: "map_of refs raw \<noteq> Some (name n)" for raw
    using two_wayD(3) [OF tw, of raw "name n"] fresh by auto
  have ne: "raw_of b' \<noteq> raw_of b" if "map_of binds ref = Some b'" for ref b'
    using two_wayD(4) [OF tw that] assms(3) by auto
  show ?thesis
  proof (rule two_wayI, goal_cases)
    case (3 raw ref)
    then show ?case
      using two_wayD(3) [OF tw, of raw ref] notin by (auto simp: gm_simps split: if_splits)
  next
    case (4 ref b')
    then show ?case
      using two_wayD(4) [OF tw, of ref b'] ne by (auto simp: gm_simps split: if_splits)
  next
    case (5 ref b')
    then show ?case
      using two_wayD(5) [OF tw, of ref b'] by (auto simp: gm_simps intro: less_SucI split: if_splits)
  qed (use two_wayD(1,2) [OF tw] in \<open>simp_all add: gm_wf_put\<close>)
qed

lemma two_way_inj:
  assumes "two_way name raw_of refs binds n" "map_of refs raw = Some ref" "map_of refs raw' = Some ref"
  shows "raw = raw'"
  using two_wayD(3) [OF assms(1,2)] two_wayD(3) [OF assms(1,3)] by auto

lemma two_way_rebind:
  assumes tw: "two_way name raw_of refs binds n" and ref: "map_of refs (raw_of b) = Some ref"
  shows "two_way name raw_of refs (gm_put ref b binds) n"
proof (rule two_wayI, goal_cases)
  case (3 raw ref')
  then show ?case
    using two_wayD(3) [OF tw 3] two_way_inj [OF tw ref, of raw] by (auto simp: gm_simps)
next
  case (4 ref' b')
  then show ?case
    using two_wayD(4) [OF tw, of ref' b'] ref by (auto simp: gm_simps split: if_splits)
next
  case (5 ref' b')
  then show ?case
    using two_wayD(5) [OF tw, of ref'] two_wayD(3) [OF tw ref] by (auto simp: gm_simps split: if_splits)
qed (use two_wayD(1,2) [OF tw] in \<open>simp_all add: gm_wf_put\<close>)

lemma two_way_unbind:
  assumes tw: "two_way name raw_of refs binds n" and ref: "map_of refs raw = Some ref"
  shows "two_way name raw_of (gm_del raw refs) (gm_del ref binds) n"
proof (rule two_wayI, goal_cases)
  case (3 raw' ref')
  then have "map_of refs raw' = Some ref'" "raw' \<noteq> raw" by (auto simp: gm_simps split: if_splits)
  then show ?case
    using two_wayD(3) [OF tw, of raw' ref'] two_way_inj [OF tw ref, of raw'] by (auto simp: gm_simps)
next
  case (4 ref' b')
  then show ?case
    using two_wayD(4) [OF tw, of ref' b'] ref by (auto simp: gm_simps split: if_splits)
next
  case (5 ref' b')
  then show ?case
    using two_wayD(5) [OF tw, of ref' b'] by (auto simp: gm_simps split: if_splits)
qed (use two_wayD(1,2) [OF tw] in \<open>simp_all add: gm_wf_del\<close>)

lemma two_way_keep:
  assumes tw: "two_way name raw_of refs binds n"
  shows "two_way name raw_of (gm_drop (\<lambda>raw ref. raw \<notin> L) refs)
     (gm_drop (\<lambda>ref b. ref \<in> set (map snd (filter (\<lambda>e. fst e \<notin> L) refs))) binds) n"
proof -
  have dead: "ref \<in> set (map snd (filter (\<lambda>e. fst e \<notin> L) refs)) \<longleftrightarrow> raw_of b \<notin> L"
    if "map_of binds ref = Some b" for ref b
  proof -
    have eq: "(raw, ref) \<in> set refs \<longleftrightarrow> raw = raw_of b" for raw
      unfolding gm_mem_iff [OF two_wayD(1) [OF tw]]
      using two_wayD(3) [OF tw, of raw ref] two_wayD(4) [OF tw that] that by auto
    have "ref \<in> set (map snd (filter (\<lambda>e. fst e \<notin> L) refs)) \<longleftrightarrow> (\<exists>raw. (raw, ref) \<in> set refs \<and> raw \<notin> L)"
      by force
    then show ?thesis unfolding eq by simp
  qed
  note wf = two_wayD(1,2) [OF tw]
  show ?thesis
  proof (rule two_wayI, goal_cases)
    case (3 raw ref)
    then have "map_of refs raw = Some ref" "raw \<in> L"
      using wf by (auto simp: gm_drop_map_of split: option.splits if_splits)
    then show ?case
      using two_wayD(3) [OF tw, of raw ref] dead wf by (auto simp: gm_drop_map_of)
  next
    case (4 ref b)
    then have b: "map_of binds ref = Some b" "raw_of b \<in> L"
      using wf dead [of ref b] by (auto simp: gm_drop_map_of split: option.splits if_splits)
    then show ?case using two_wayD(4) [OF tw b(1)] wf by (simp add: gm_drop_map_of)
  next
    case (5 ref b)
    then have "map_of binds ref = Some b"
      using wf by (auto simp: gm_drop_map_of split: option.splits if_splits)
    then show ?case by (rule two_wayD(5) [OF tw])
  qed (use wf in \<open>simp_all add: gm_wf_drop\<close>)
qed

subsection \<open>The invariant\<close>

definition pane_name :: "(nat \<Rightarrow> string) \<Rightarrow> nat \<Rightarrow> string" where
  "pane_name rands i = newOpaqueRuntimeRef ''p'' (rands i)"

definition window_name :: "(nat \<Rightarrow> string) \<Rightarrow> nat \<Rightarrow> string" where
  "window_name rands i = newOpaqueRuntimeRef ''w'' (rands i)"

lemma names_inj: "inj rands \<Longrightarrow> inj (pane_name rands)" "inj rands \<Longrightarrow> inj (window_name rands)"
  by (auto simp: inj_def pane_name_def window_name_def runtime_ref.gen_inj)

definition binding_ok :: "PaneRef \<Rightarrow> paneBinding \<Rightarrow> bool" where
  "binding_ok ref b \<longleftrightarrow> pn_ref b = ref \<and> PaneID (pn_generation b) = pn_rawID b"

definition identity_inv :: "(nat \<Rightarrow> string) \<Rightarrow> sessionIdentity \<Rightarrow> nat \<Rightarrow> bool" where
  "identity_inv rands s n \<longleftrightarrow>
     two_way (pane_name rands) pn_rawID (si_paneRefs s) (si_panes s) n \<and>
     two_way (window_name rands) wb_rawID (si_windowRefs s) (si_windows s) n \<and>
     (\<forall>ref b. map_of (si_panes s) ref = Some b \<longrightarrow> binding_ok ref b)"

text \<open>How a pane reference may come to its meaning: it had it before, or it is new.\<close>

definition evolves :: "(nat \<Rightarrow> string) \<Rightarrow> sessionIdentity \<Rightarrow> nat \<Rightarrow> sessionIdentity \<Rightarrow> nat \<Rightarrow> bool" where
  "evolves rands s n s' n' \<longleftrightarrow> n \<le> n' \<and>
     (\<forall>ref b'. map_of (si_panes s') ref = Some b' \<longrightarrow>
        (\<exists>b. map_of (si_panes s) ref = Some b \<and> pn_generation b = pn_generation b') \<or>
        (\<exists>i \<ge> n. ref = pane_name rands i))"

lemma evolves_refl: "evolves rands s n s n"
  by (simp add: evolves_def)

lemma evolves_trans:
  assumes "evolves rands s n s1 n1" "evolves rands s1 n1 s2 n2"
  shows "evolves rands s n s2 n2"
  unfolding evolves_def
proof (intro conjI allI impI)
  fix ref b2 assume b2: "map_of (si_panes s2) ref = Some b2"
  show "(\<exists>b. map_of (si_panes s) ref = Some b \<and> pn_generation b = pn_generation b2) \<or>
      (\<exists>i \<ge> n. ref = pane_name rands i)"
  proof (cases "\<exists>b. map_of (si_panes s1) ref = Some b \<and> pn_generation b = pn_generation b2")
    case True
    then obtain b1 where "map_of (si_panes s1) ref = Some b1" "pn_generation b1 = pn_generation b2" by blast
    then show ?thesis using assms(1) unfolding evolves_def by metis
  next
    case False
    then obtain i where "n1 \<le> i" "ref = pane_name rands i"
      using assms(2) b2 unfolding evolves_def by blast
    moreover have "n \<le> n1" using assms(1) by (simp add: evolves_def)
    ultimately show ?thesis by (blast intro: order_trans)
  qed
qed (use assms in \<open>auto simp: evolves_def\<close>)

lemma windowRef_step_inv:
  assumes "identity_inv rands s n" "inj rands" "windowRef_step rands raw (s, n) = (s1, n1)"
  shows "identity_inv rands s1 n1 \<and> evolves rands s n s1 n1 \<and> (\<exists>r. map_of (si_windowRefs s1) raw = Some r)"
proof (cases "map_of (si_windowRefs s) raw")
  case None
  let ?b = "\<lparr>wb_ref = window_name rands n, wb_rawID = raw\<rparr>"
  have s1: "s1 = s\<lparr>si_windowRefs := gm_put raw (window_name rands n) (si_windowRefs s),
      si_windows := gm_put (window_name rands n) ?b (si_windows s)\<rparr>" "n1 = Suc n"
    using assms(3) None by (auto simp: windowRef_step_def window_name_def Let_def)
  have "two_way (window_name rands) wb_rawID (gm_put (wb_rawID ?b) (window_name rands n) (si_windowRefs s))
      (gm_put (window_name rands n) ?b (si_windows s)) (Suc n)"
    using assms None by (intro two_way_add names_inj) (auto simp: identity_inv_def)
  moreover have "two_way (pane_name rands) pn_rawID (si_paneRefs s) (si_panes s) (Suc n)"
    using assms(1) two_way_mono by (fastforce simp: identity_inv_def)
  ultimately show ?thesis
    using assms(1) unfolding s1 by (simp add: identity_inv_def evolves_def gm_simps)
next
  case (Some r)
  then show ?thesis
    using assms by (auto simp: windowRef_step_def evolves_refl)
qed

lemma dropStale_cases:
  assumes inv: "identity_inv rands s n" and "PaneID generation = raw"
  shows "identity_inv rands (dropStale generation raw s) n \<and>
     evolves rands s n (dropStale generation raw s) n \<and>
     (map_of (si_paneRefs (dropStale generation raw s)) raw = None \<or>
      (\<exists>ref b. map_of (si_paneRefs (dropStale generation raw s)) raw = Some ref \<and>
        map_of (si_panes (dropStale generation raw s)) ref = Some b \<and> pn_generation b = generation))"
proof (cases "map_of (si_paneRefs s) raw")
  case None
  then show ?thesis using inv by (simp add: dropStale_def evolves_refl)
next
  case (Some ref)
  have tw: "two_way (pane_name rands) pn_rawID (si_paneRefs s) (si_panes s) n"
    using inv by (simp add: identity_inv_def)
  obtain b where b: "map_of (si_panes s) ref = Some b" using two_wayD(3) [OF tw Some] by blast
  show ?thesis
  proof (cases "pn_generation b = generation")
    case True
    then show ?thesis using Some b inv by (simp add: dropStale_def pane_lookup_def evolves_refl)
  next
    case False
    then have "dropStale generation raw s =
        s\<lparr>si_panes := gm_del ref (si_panes s), si_paneRefs := gm_del raw (si_paneRefs s)\<rparr>"
      using Some b by (simp add: dropStale_def pane_lookup_def)
    then show ?thesis
      using two_way_unbind [OF tw Some] inv
      by (auto simp: identity_inv_def evolves_def gm_simps split: if_splits)
  qed
qed

lemma bindPane_inv:
  assumes inv: "identity_inv rands s n" and inj: "inj rands"
    and eq: "bindPane rands topology pane (s, n) = ((s', n'), binding)"
  shows "identity_inv rands s' n' \<and> evolves rands s n s' n'"
proof -
  let ?raw = "tp_ID pane" and ?gen = "paneGeneration topology pane"
  obtain s1 n1 where w: "windowRef_step rands (tp_WindowID pane) (s, n) = (s1, n1)" by fastforce
  have i1: "identity_inv rands s1 n1" "evolves rands s n s1 n1"
    using windowRef_step_inv [OF inv inj w] by auto
  define s2 where "s2 = dropStale ?gen ?raw s1"
  have "PaneID ?gen = ?raw" by (simp add: paneGeneration_def)
  from dropStale_cases [OF i1(1) this]
  have i2: "identity_inv rands s2 n1" "evolves rands s1 n1 s2 n1" and
    refs: "map_of (si_paneRefs s2) ?raw = None \<or>
      (\<exists>ref b. map_of (si_paneRefs s2) ?raw = Some ref \<and> map_of (si_panes s2) ref = Some b \<and> pn_generation b = ?gen)"
    by (auto simp: s2_def)
  have tw: "two_way (pane_name rands) pn_rawID (si_paneRefs s2) (si_panes s2) n1"
    and tww: "two_way (window_name rands) wb_rawID (si_windowRefs s2) (si_windows s2) n1"
    using i2(1) by (simp_all add: identity_inv_def)
  let ?b = "\<lambda>ref. \<lparr>pn_ref = ref, pn_rawID = ?raw, pn_windowID = tp_WindowID pane,
      pn_active = (tp_Active pane \<and> tp_WindowOpen pane), pn_generation = ?gen\<rparr>"
  have ok: "binding_ok ref (?b ref)" for ref by (simp add: binding_ok_def paneGeneration_def)
  have "identity_inv rands s' n' \<and> evolves rands s2 n1 s' n'"
    using refs
  proof (elim disjE exE conjE)
    assume none: "map_of (si_paneRefs s2) ?raw = None"
    then have s': "s' = s2\<lparr>si_paneRefs := gm_put ?raw (pane_name rands n1) (si_paneRefs s2),
        si_panes := gm_put (pane_name rands n1) (?b (pane_name rands n1)) (si_panes s2)\<rparr>" "n' = Suc n1"
      using eq w by (auto simp: bindPane_def paneRef_step_def s2_def Let_def pane_name_def)
    have "two_way (pane_name rands) pn_rawID (si_paneRefs s') (si_panes s') n'"
      using two_way_add [OF tw names_inj(1) [OF inj], of "?b (pane_name rands n1)"] none
      by (simp add: s')
    moreover have "two_way (window_name rands) wb_rawID (si_windowRefs s') (si_windows s') n'"
      using two_way_mono [OF tww, of "Suc n1"] by (simp add: s')
    ultimately show ?thesis
      using i2(1) ok by (auto simp: identity_inv_def evolves_def s' gm_simps split: if_splits)
  next
    fix ref b
    assume some: "map_of (si_paneRefs s2) ?raw = Some ref" "map_of (si_panes s2) ref = Some b"
      "pn_generation b = ?gen"
    then have s': "s' = s2\<lparr>si_panes := gm_put ref (?b ref) (si_panes s2)\<rparr>" "n' = n1"
      using eq w by (auto simp: bindPane_def paneRef_step_def s2_def Let_def)
    have "two_way (pane_name rands) pn_rawID (si_paneRefs s') (si_panes s') n'"
      using two_way_rebind [OF tw, of "?b ref" ref] some by (simp add: s')
    then show ?thesis
      using i2(1) ok some tww by (auto simp: identity_inv_def evolves_def s' gm_simps split: if_splits)
  qed
  then show ?thesis using evolves_trans i1(2) i2(2) by blast
qed

lemma bindPanes_inv:
  "identity_inv rands s n \<Longrightarrow> inj rands \<Longrightarrow> bindPanes rands topology panes (s, n) = ((s', n'), bs) \<Longrightarrow>
     identity_inv rands s' n' \<and> evolves rands s n s' n'"
proof (induction panes arbitrary: s n bs)
  case (Cons pane panes)
  obtain s1 n1 b where b: "bindPane rands topology pane (s, n) = ((s1, n1), b)" by (metis prod.collapse)
  have "identity_inv rands s1 n1 \<and> evolves rands s n s1 n1"
    using bindPane_inv [OF Cons.prems(1,2) b] .
  then show ?case
    using Cons.IH [of s1 n1] Cons.prems b evolves_trans by (auto simp: Let_def split: prod.splits)
qed (simp add: evolves_refl)

lemma keepLive_inv:
  assumes "identity_inv rands s n"
  shows "identity_inv rands (keepLive livePanes liveWindows s) n \<and>
     evolves rands s n (keepLive livePanes liveWindows s) n"
proof -
  have "gm_wf (si_panes s)" using assms by (simp add: identity_inv_def two_way_def)
  then show ?thesis
    using assms two_way_keep [of "pane_name rands" pn_rawID "si_paneRefs s" "si_panes s" n "set livePanes"]
      two_way_keep [of "window_name rands" wb_rawID "si_windowRefs s" "si_windows s" n "set liveWindows"]
    by (auto simp: identity_inv_def keepLive_def Let_def evolves_def gm_drop_map_of
        split: option.splits if_splits)
qed

lemma identity_update_inv:
  assumes "identity_inv rands s n" "inj rands" "identity_update rands topology (s, n) = (r, s', n')"
  shows "identity_inv rands s' n' \<and> evolves rands s n s' n'"
proof -
  obtain s1 n1 bs where b: "bindPanes rands topology (to_Panes topology) (s, n) = ((s1, n1), bs)"
    by (metis prod.collapse)
  then have "s' = keepLive (map tp_ID (to_Panes topology)) (map tp_WindowID (to_Panes topology)) s1" "n' = n1"
    using assms(3) by (auto simp: identity_update_def Let_def)
  then show ?thesis
    using bindPanes_inv [OF assms(1,2) b] keepLive_inv evolves_trans by blast
qed

subsection \<open>Reachable stores\<close>

inductive identity_step :: "(nat \<Rightarrow> string) \<Rightarrow> identityStore \<Rightarrow> identityStore \<Rightarrow> bool" for rands where
  step_refresh: "applyTopology rands managed topology store = (r, store') \<Longrightarrow> identity_step rands store store'"
| step_forget: "identity_step rands store (forget ref store)"

definition store_inv :: "(nat \<Rightarrow> string) \<Rightarrow> identityStore \<Rightarrow> bool" where
  "store_inv rands store \<longleftrightarrow>
     (\<forall>r s. map_of (is_sessions store) r = Some s \<longrightarrow> identity_inv rands s (is_used store))"

definition store_evolves :: "(nat \<Rightarrow> string) \<Rightarrow> identityStore \<Rightarrow> identityStore \<Rightarrow> bool" where
  "store_evolves rands S T \<longleftrightarrow> is_used S \<le> is_used T \<and>
     (\<forall>r t. map_of (is_sessions T) r = Some t \<longrightarrow>
        (\<exists>s. (map_of (is_sessions S) r = Some s \<or> si_panes s = []) \<and> evolves rands s (is_used S) t (is_used T)))"

lemma identity_inv_mono: "identity_inv rands s n \<Longrightarrow> n \<le> n' \<Longrightarrow> identity_inv rands s n'"
  by (auto simp: identity_inv_def intro: two_way_mono)

lemma identity_inv_new: "identity_inv rands (newSessionIdentity canonical) n"
  by (simp add: identity_inv_def newSessionIdentity_def)

lemma sessionIdentityFor_cases:
  "map_of (is_sessions store) (se_PublicRef managed) = Some (sessionIdentityFor store managed) \<or>
   sessionIdentityFor store managed = newSessionIdentity (se_ID managed)"
  by (auto simp: sessionIdentityFor_def split: option.splits)

lemma applyTopology_inv:
  assumes "store_inv rands store" "inj rands" "applyTopology rands managed topology store = (r, store')"
  shows "store_inv rands store' \<and> store_evolves rands store store'"
proof -
  let ?s = "sessionIdentityFor store managed" and ?n = "is_used store" and ?r = "se_PublicRef managed"
  obtain s' n' where u: "identity_update rands topology (?s, ?n) = (r, s', n')"
      "store' = store\<lparr>is_sessions := gm_put ?r s' (is_sessions store), is_used := n'\<rparr>"
    using assms(3) by (auto simp: applyTopology_def split: prod.splits)
  have "identity_inv rands ?s ?n"
    using sessionIdentityFor_cases [of store managed] assms(1) identity_inv_new
    by (auto simp: store_inv_def)
  from identity_update_inv [OF this assms(2) u(1)]
  have new: "identity_inv rands s' n'" "evolves rands ?s ?n s' n'" by auto
  then have le: "?n \<le> n'" by (simp add: evolves_def)
  have old: "evolves rands t ?n t n'" for t using le by (simp add: evolves_def)
  have "store_inv rands store'"
    using assms(1) new identity_inv_mono [OF _ le] by (auto simp: store_inv_def u(2) gm_simps)
  moreover have "\<exists>s. (map_of (is_sessions store) ?r = Some s \<or> si_panes s = []) \<and> evolves rands s ?n s' n'"
    using sessionIdentityFor_cases [of store managed] new(2)
    by (intro exI [of _ ?s]) (auto simp: newSessionIdentity_def)
  then have "store_evolves rands store store'"
    using old le by (auto simp: store_evolves_def u(2) gm_simps split: if_splits)
  ultimately show ?thesis ..
qed

lemma forget_inv:
  assumes "store_inv rands store"
  shows "store_inv rands (forget ref store) \<and> store_evolves rands store (forget ref store)"
  using assms evolves_refl
  by (auto simp: store_inv_def store_evolves_def forget_def gm_simps split: if_splits)

lemma identity_step_inv:
  assumes "identity_step rands S T" "inj rands" "store_inv rands S"
  shows "store_inv rands T \<and> store_evolves rands S T"
  using assms(1)
proof cases
  case (step_refresh managed topology r)
  then show ?thesis using applyTopology_inv [OF assms(3,2)] by blast
next
  case (step_forget ref)
  then show ?thesis using forget_inv [OF assms(3)] by simp
qed

interpretation identity_system: step_system "\<lambda>s. s = newIdentityStore" "identity_step rands"
  "\<lambda>s. inj rands \<longrightarrow> store_inv rands s" for rands
  by unfold_locales (auto simp: newIdentityStore_def store_inv_def dest: identity_step_inv)

text \<open>A reference in a later store had its meaning in the earlier one, or was not yet drawn.\<close>

definition pane_of :: "identityStore \<Rightarrow> SessionRef \<Rightarrow> PaneRef \<Rightarrow> paneBinding option" where
  "pane_of S r ref = Option.bind (map_of (is_sessions S) r) (\<lambda>s. map_of (si_panes s) ref)"

lemma store_evolves_pane:
  assumes "store_evolves rands S T" "pane_of T r ref = Some b'"
  shows "(\<exists>b. pane_of S r ref = Some b \<and> pn_generation b = pn_generation b') \<or>
     (\<exists>i \<ge> is_used S. ref = pane_name rands i)"
proof -
  obtain t where t: "map_of (is_sessions T) r = Some t" "map_of (si_panes t) ref = Some b'"
    using assms(2) by (auto simp: pane_of_def bind_eq_Some_conv)
  then obtain s where s: "map_of (is_sessions S) r = Some s \<or> si_panes s = []"
      "evolves rands s (is_used S) t (is_used T)"
    using assms(1) by (auto simp: store_evolves_def)
  have "(\<exists>b. map_of (si_panes s) ref = Some b \<and> pn_generation b = pn_generation b') \<or>
      (\<exists>i \<ge> is_used S. ref = pane_name rands i)"
    using s(2) t(2) by (simp add: evolves_def)
  then show ?thesis using s(1) by (auto simp: pane_of_def)
qed

lemma steps_pane:
  assumes "(identity_step rands)\<^sup>*\<^sup>* S T" "inj rands" "store_inv rands S"
  shows "store_inv rands T \<and> is_used S \<le> is_used T \<and> (\<forall>r ref b'. pane_of T r ref = Some b' \<longrightarrow>
     (\<exists>b. pane_of S r ref = Some b \<and> pn_generation b = pn_generation b') \<or>
     (\<exists>i \<ge> is_used S. ref = pane_name rands i))"
  using assms(1)
proof (induction rule: rtranclp_induct)
  case (step T U)
  have inv: "store_inv rands U" and ev: "store_evolves rands T U"
    using identity_step_inv [OF step.hyps(2) assms(2)] step.IH by auto
  have "(\<exists>b. pane_of S r ref = Some b \<and> pn_generation b = pn_generation b') \<or>
      (\<exists>i \<ge> is_used S. ref = pane_name rands i)" if "pane_of U r ref = Some b'" for r ref b'
    using store_evolves_pane [OF ev that]
  proof (elim disjE exE conjE)
    fix b assume "pane_of T r ref = Some b" "pn_generation b = pn_generation b'"
    then show ?thesis using step.IH by metis
  next
    fix i assume "is_used T \<le> i" "ref = pane_name rands i"
    then show ?thesis using step.IH by (blast intro: order_trans)
  qed
  then show ?case using inv ev step.IH by (auto simp: store_evolves_def)
qed (use assms in auto)

subsection \<open>Properties\<close>

text \<open>
  C12. A pane reference means the same pane forever. In every store reached by refreshes with any
  topologies and by forgetting sessions, if a reference is bound for a session and is bound again at
  any later time, it names the same pane of the same incarnation of the tmux server. A reference to
  a pane that has gone is never given to another one. Distinct random values are assumed.
\<close>

theorem pane_reference_permanent:
  assumes "inj rands" "(identity_step rands)\<^sup>*\<^sup>* newIdentityStore S" "(identity_step rands)\<^sup>*\<^sup>* S T"
    and "pane_of S r ref = Some b" "pane_of T r ref = Some b'"
  shows "pn_generation b = pn_generation b' \<and> pn_rawID b = pn_rawID b'"
proof -
  have S: "store_inv rands S" using identity_system.inv_reachable [OF refl assms(2)] assms(1) by blast
  have T: "store_inv rands T" using steps_pane [OF assms(3,1) S] by blast
  have ok: "binding_ok ref x" if "store_inv rands U" "pane_of U r ref = Some x" for U x
    using that by (auto simp: pane_of_def bind_eq_Some_conv store_inv_def identity_inv_def)
  obtain s where s: "map_of (is_sessions S) r = Some s" "map_of (si_panes s) ref = Some b"
    using assms(4) by (auto simp: pane_of_def bind_eq_Some_conv)
  then have "two_way (pane_name rands) pn_rawID (si_paneRefs s) (si_panes s) (is_used S)"
    using S by (auto simp: store_inv_def identity_inv_def)
  from two_wayD(5) [OF this s(2)] obtain j where j: "j < is_used S" "ref = pane_name rands j" by blast
  have "ref \<noteq> pane_name rands i" if "is_used S \<le> i" for i
    using that j names_inj(1) [OF assms(1)] by (auto simp: inj_eq)
  then have "pn_generation b = pn_generation b'"
    using steps_pane [OF assms(3,1) S] assms(4,5) by (metis option.inject)
  then show ?thesis using ok [OF S assms(4)] ok [OF T assms(5)] by (simp add: binding_ok_def)
qed

definition demo_rands :: "nat \<Rightarrow> string" where
  "demo_rands n = replicate n CHR ''x''"

definition demo_managed :: Session where
  "demo_managed = demo_session\<lparr>se_PublicRef := ''r''\<rparr>"

theorem pane_reference_permanent_witness:
  "let S = snd (applyTopology demo_rands demo_managed one_pane_topology newIdentityStore);
       T = snd (applyTopology demo_rands demo_managed one_pane_topology S) in
   \<exists>b b'. pane_of S ''r'' (pane_name demo_rands 1) = Some b \<and> pane_of T ''r'' (pane_name demo_rands 1) = Some b' \<and>
     pn_generation b = pn_generation b'"
proof -
  let ?S = "snd (applyTopology demo_rands demo_managed one_pane_topology newIdentityStore)"
  let ?T = "snd (applyTopology demo_rands demo_managed one_pane_topology ?S)"
  have inj: "inj demo_rands" by (auto simp: inj_def demo_rands_def dest: arg_cong [where f = length])
  have step: "(identity_step demo_rands)\<^sup>*\<^sup>* U (snd (applyTopology demo_rands demo_managed one_pane_topology U))" for U
    by (rule r_into_rtranclp, rule step_refresh [where r = "fst (applyTopology demo_rands demo_managed one_pane_topology U)"]) simp
  have "pane_of ?S ''r'' (pane_name demo_rands 1) \<noteq> None" by code_simp
  moreover have "pane_of ?T ''r'' (pane_name demo_rands 1) \<noteq> None" by code_simp
  ultimately have ST: "\<exists>b. pane_of ?S ''r'' (pane_name demo_rands 1) = Some b"
    "\<exists>b. pane_of ?T ''r'' (pane_name demo_rands 1) = Some b" by auto
  then show ?thesis
    using pane_reference_permanent [OF inj step step]
    unfolding Let_def by blast
qed

text \<open>
  References and raw identifiers are in bijection in every reachable store: within a session a
  reference resolves to a pane exactly when that pane's raw identifier is registered under it, and
  the same holds for windows. So no two references share a pane and no two panes a reference.
\<close>

theorem identity_bijection:
  assumes "inj rands" "(identity_step rands)\<^sup>*\<^sup>* newIdentityStore S" "map_of (is_sessions S) r = Some s"
  shows "(map_of (si_paneRefs s) raw = Some ref \<longleftrightarrow> (\<exists>b. map_of (si_panes s) ref = Some b \<and> pn_rawID b = raw)) \<and>
     (map_of (si_windowRefs s) raw = Some ref \<longleftrightarrow> (\<exists>b. map_of (si_windows s) ref = Some b \<and> wb_rawID b = raw))"
proof -
  have "identity_inv rands s (is_used S)"
    using identity_system.inv_reachable [OF refl assms(2)] assms(1,3) by (auto simp: store_inv_def)
  then have p: "two_way (pane_name rands) pn_rawID (si_paneRefs s) (si_panes s) (is_used S)"
    and w: "two_way (window_name rands) wb_rawID (si_windowRefs s) (si_windows s) (is_used S)"
    by (simp_all add: identity_inv_def)
  show ?thesis
    using two_wayD(3,4) [OF p] two_wayD(3,4) [OF w] by blast
qed

theorem identity_bijection_witness:
  "\<exists>s. map_of (is_sessions (snd (applyTopology demo_rands demo_managed one_pane_topology newIdentityStore))) ''r'' = Some s \<and>
     (map_of (si_paneRefs s) ''%2'' = Some (pane_name demo_rands 1) \<longleftrightarrow>
      (\<exists>b. map_of (si_panes s) (pane_name demo_rands 1) = Some b \<and> pn_rawID b = ''%2''))"
proof -
  let ?S = "snd (applyTopology demo_rands demo_managed one_pane_topology newIdentityStore)"
  have inj: "inj demo_rands" by (auto simp: inj_def demo_rands_def dest: arg_cong [where f = length])
  have step: "(identity_step demo_rands)\<^sup>*\<^sup>* newIdentityStore ?S"
    by (rule r_into_rtranclp, rule step_refresh [where r = "fst (applyTopology demo_rands demo_managed one_pane_topology newIdentityStore)"]) simp
  have "map_of (is_sessions ?S) ''r'' \<noteq> None" by code_simp
  then obtain s where s: "map_of (is_sessions ?S) ''r'' = Some s" by blast
  show ?thesis
    using identity_bijection [OF inj step s, of "''%2''" "pane_name demo_rands 1"] s
    by blast
qed

lemma VerifyPaneGeneration_Inr:
  assumes "VerifyPaneGeneration c paneID expected w = (Inr (), w')"
  shows "rawPaneIDPattern paneID \<and> paneID = GenPaneID expected \<and>
     (\<exists>output. cl_output c [''display-message'', ''-p'', ''-t'', paneID,
        ''#{start_time}'' @ [US] @ ''#{pid}'' @ [US] @ ''#{pane_id}''] w = (Inr output, w') \<and>
      (\<exists>start pid. split (trim_space output) US = [start, pid, paneID] \<and>
        parseServerIncarnation (start @ [US] @ pid) = Inr (ServerStart expected, ServerPID expected)))"
  using assms
  by (auto simp: VerifyPaneGeneration_def tryP_apply Let_def length_Suc_conv numeral_eq_Suc
      split: if_splits prod.splits sum.splits)

text \<open>
  C35. A pane that is resolved was confirmed by tmux in the same request: the returned binding carries
  the requested reference, it is active when that was asked for, and the last thing tmux answered
  about the pane is exactly the server start, the server process and the pane of the binding's
  generation. This holds whatever other requests do to the store in between, as long as they take
  only the store's own steps.
\<close>

theorem resolve_pane_confirmed:
  assumes "inj rands" "(identity_step rands)\<^sup>*\<^sup>* newIdentityStore S"
    and "\<And>U. (identity_step rands)\<^sup>*\<^sup>* U (env U)"
    and "resolvePane rands c env managed ref active (w, S) = (Inr b, (w', S'))"
  shows "pn_ref b = ref \<and> (active \<longrightarrow> pn_active b) \<and>
     (\<exists>w1 output. cl_output c [''display-message'', ''-p'', ''-t'', pn_rawID b,
        ''#{start_time}'' @ [US] @ ''#{pid}'' @ [US] @ ''#{pane_id}''] w1 = (Inr output, w') \<and>
      (\<exists>start pid. split (trim_space output) US = [start, pid, PaneID (pn_generation b)] \<and>
        parseServerIncarnation (start @ [US] @ pid) =
          Inr (TmuxServerStart (pn_generation b), TmuxServerPID (pn_generation b))))"
proof -
  obtain x w1 S1 where refresh: "refresh rands c managed (w, S) = (Inr x, (w1, S1))"
    using assms(4) by (fastforce simp: resolvePane_def result_simps split: if_splits)
  then obtain topology where r: "applyTopology rands managed topology S = (Inr x, S1)"
    by (auto simp: refresh_def onTmux_def bindP_apply split: prod.split_asm sum.split_asm)
  from assms(4) refresh obtain identity where
    identity: "map_of (is_sessions (env S1)) (se_PublicRef managed) = Some identity" and
    b: "map_of (si_panes identity) ref = Some b" "active \<longrightarrow> pn_active b" and
    verify: "VerifyPaneGeneration c (pn_rawID b) \<lparr>ServerStart = TmuxServerStart (pn_generation b),
      ServerPID = TmuxServerPID (pn_generation b), GenPaneID = PaneID (pn_generation b)\<rparr> w1 = (Inr (), w')"
    by (auto simp: resolvePane_def bindP_apply Let_def
        split: if_splits option.split_asm prod.split_asm sum.split_asm)
  have "(identity_step rands)\<^sup>*\<^sup>* newIdentityStore (env S1)"
    using assms(2,3) step_refresh [OF r] by (meson rtranclp.rtrancl_into_rtrancl rtranclp_trans)
  then have "store_inv rands (env S1)"
    using identity_system.inv_reachable [OF refl] assms(1) by blast
  then have "binding_ok ref b"
    using identity b(1) by (auto simp: store_inv_def identity_inv_def)
  then have ok: "pn_ref b = ref" "pn_rawID b = PaneID (pn_generation b)" by (simp_all add: binding_ok_def)
  from VerifyPaneGeneration_Inr [OF verify] obtain out start pid where
    "cl_output c [''display-message'', ''-p'', ''-t'', pn_rawID b,
        ''#{start_time}'' @ [US] @ ''#{pid}'' @ [US] @ ''#{pane_id}''] w1 = (Inr out, w')"
    "split (trim_space out) US = [start, pid, pn_rawID b]"
    "parseServerIncarnation (start @ [US] @ pid) =
       Inr (TmuxServerStart (pn_generation b), TmuxServerPID (pn_generation b))"
    by auto
  then show ?thesis using ok(1) b(2) unfolding ok(2) by blast
qed

definition pane_runner :: "unit CommandRunner" where
  "pane_runner = one_pane_runner\<lparr>rn_Output := (\<lambda>args. if ''list-panes'' \<in> set args
       then returnP (one_pane_line @ [LF])
       else if last args = ''#{start_time}'' @ [US] @ ''#{pid}'' then returnP (''7'' @ [US] @ ''9'')
       else returnP (''7'' @ [US] @ ''9'' @ [US] @ ''%2''))\<rparr>"

definition pane_client :: "unit Client" where
  "pane_client = NewClientWithRunner (\<lambda>_ _. False) pane_runner"

lemma pane_client_topology: "tmux_Topology pane_client ''a'' () = (Inr one_pane_topology, ())"
  by code_simp

lemma pane_client_verify:
  "VerifyPaneGeneration pane_client ''%2'' \<lparr>ServerStart = ''7'', ServerPID = 9, GenPaneID = ''%2''\<rparr> () = (Inr (), ())"
  by code_simp

lemma pane_client_resolve:
  "fst (resolvePane demo_rands pane_client (\<lambda>S. S) demo_managed (pane_name demo_rands 1) True ((), newIdentityStore)) =
     Inr \<lparr>pn_ref = pane_name demo_rands 1, pn_rawID = ''%2'', pn_windowID = ''@1'', pn_active = True,
       pn_generation = \<lparr>TmuxServerStart = ''7'', TmuxServerPID = 9, PaneID = ''%2''\<rparr>\<rparr>"
  by code_simp

theorem resolve_pane_confirmed_witness:
  "\<exists>output start pid. split (trim_space output) US = [start, pid, ''%2''] \<and>
     parseServerIncarnation (start @ [US] @ pid) = Inr (''7'', 9)"
proof -
  have inj: "inj demo_rands" by (auto simp: inj_def demo_rands_def dest: arg_cong [where f = length])
  obtain w' S' where r: "resolvePane demo_rands pane_client (\<lambda>S. S) demo_managed (pane_name demo_rands 1) True
      ((), newIdentityStore) = (Inr \<lparr>pn_ref = pane_name demo_rands 1, pn_rawID = ''%2'', pn_windowID = ''@1'',
        pn_active = True, pn_generation = \<lparr>TmuxServerStart = ''7'', TmuxServerPID = 9, PaneID = ''%2''\<rparr>\<rparr>, (w', S'))"
    using pane_client_resolve by (metis prod.collapse)
  from resolve_pane_confirmed [OF inj rtranclp.rtrancl_refl rtranclp.rtrancl_refl r] show ?thesis by auto
qed

text \<open>
  C36. The lookup in \<^verbatim>\<open>resolvePane\<close> can dereference nil: if another request forgets the session after
  the refresh released the lock, which a concurrent termination of the session does, the operation
  ends in a nil dereference and not in the stale-identity error that \<^verbatim>\<open>resolveWindow\<close> gives.
\<close>

theorem resolve_pane_race:
  assumes "ref \<noteq> []" "fst (refresh rands c managed (w, S)) = Inr topology"
  shows "fst (resolvePane rands c (forget (se_PublicRef managed)) managed ref active (w, S)) = Inl NilDereference \<and>
     resolveWindow (forget (se_PublicRef managed) S) managed ref = Inl errStaleTerminalIdentity"
proof -
  obtain w1 S1 where "refresh rands c managed (w, S) = (Inr topology, (w1, S1))"
    using assms(2) by (metis prod.collapse)
  then show ?thesis
    using assms(1) by (simp add: resolvePane_def bindP_apply Let_def forget_def gm_simps resolveWindow_def)
qed

theorem resolve_pane_race_witness:
  "fst (resolvePane demo_rands pane_client (forget ''r'') demo_managed (pane_name demo_rands 1) True ((), newIdentityStore))
     = Inl NilDereference"
proof -
  have "\<exists>t. fst (refresh demo_rands pane_client demo_managed ((), newIdentityStore)) = Inr t"
    using pane_client_resolve
    by (auto simp: resolvePane_def bindP_apply split: if_splits prod.split_asm sum.split_asm)
  then obtain t where t: "fst (refresh demo_rands pane_client demo_managed ((), newIdentityStore)) = Inr t" ..
  have "pane_name demo_rands 1 \<noteq> []" by (simp add: pane_name_def newOpaqueRuntimeRef_def)
  from resolve_pane_race [OF this t] show ?thesis by (simp add: demo_managed_def)
qed

end
