(* ===== verification/Resize_Store.thy ===== *)
theory Resize_Store
  imports Server_Types Registry
begin

section \<open>Resize settings and viewers\<close>

text \<open>
  \<^verbatim>\<open>internal/server/resize_store.go\<close>: the resize mode of each session, kept in one JSON file each, and
  the browsers that watch a session, kept in memory. A settings file is what decoding makes of it,
  as in the registry; \<open>faults\<close> tells which system calls fail. Each operation takes the time where
  the code calls \<open>s.now()\<close>.

  The lemmas show that the store never holds more viewers than its limits, that all of them are well
  formed, and that loading returns the normal form of what was saved.
\<close>

definition resizeModeFixed :: string where "resizeModeFixed = ''fixed''"
definition resizeModeFitOnce :: string where "resizeModeFitOnce = ''fit-once''"
definition resizeModeFollowDevice :: string where "resizeModeFollowDevice = ''follow-device''"
definition defaultResizeViewersPerSession :: int where "defaultResizeViewersPerSession = 32"
definition defaultResizeViewersPerProcess :: int where "defaultResizeViewersPerProcess = 256"
definition maxResizeViewerDimension :: int where "maxResizeViewerDimension = 1000"

lemmas resize_mode_defs = resizeModeFixed_def resizeModeFitOnce_def resizeModeFollowDevice_def

datatype resizeError =
    errResizeViewerCapacity
  | ResizeInvalid string
  | ResizeFailure string
  | ResizeMissing

record resizeSettings =
  rz_Mode :: string
  rz_SelectedViewerID :: ViewerID

record resizeViewer =
  vw_ID :: ViewerID
  vw_SessionID :: string
  vw_IP :: string
  vw_UserAgent :: string
  vw_Width :: int
  vw_Height :: int
  vw_LastSeen :: time

record resizeStore =
  rz_viewerTTL :: duration
  rz_maxViewersPerSession :: int
  rz_maxViewersPerProcess :: int
  rz_viewers :: "(string, (string, resizeViewer) gomap) gomap"

definition newResizeStore :: "duration \<Rightarrow> resizeStore" where
  "newResizeStore viewerTTL =
     \<lparr>rz_viewerTTL = viewerTTL, rz_maxViewersPerSession = defaultResizeViewersPerSession,
      rz_maxViewersPerProcess = defaultResizeViewersPerProcess, rz_viewers = []\<rparr>"

subsection \<open>Settings\<close>

definition normalizeResizeMode :: "string \<Rightarrow> string" where
  "normalizeResizeMode mode = to_lower (trim_space mode)"

definition validateResizeMode :: "string \<Rightarrow> resizeError + unit" where
  "validateResizeMode mode =
     (if to_lower (trim_space mode) \<in> {resizeModeFixed, resizeModeFitOnce, resizeModeFollowDevice} then Inr ()
      else Inl (ResizeInvalid ''unsupported resize mode''))"

definition clearViewer :: "resizeSettings \<Rightarrow> resizeSettings" where
  "clearViewer settings =
     (if rz_Mode settings = resizeModeFollowDevice then settings\<lparr>rz_SelectedViewerID := []\<rparr> else settings)"

text \<open>The settings file of a session, in the store's directory.\<close>

definition resizePath :: "string \<Rightarrow> string" where
  "resizePath sessionID = sessionID @ ''.json''"

type_synonym 'a resize_disk = "(resizeSettings option disk, resizeError, 'a) prog"

definition rz_Load :: "faults \<Rightarrow> string \<Rightarrow> resizeSettings resize_disk" where
  "rz_Load faults sessionID =
     (if \<not> ValidPublicRef sessionID then failP (ResizeInvalid ''invalid session id'')
      else tryP (readFile faults ResizeMissing (ResizeFailure ''read resize settings'') (resizePath sessionID)) (\<lambda>r.
        case r of
          Inl ResizeMissing \<Rightarrow> returnP \<lparr>rz_Mode = resizeModeFixed, rz_SelectedViewerID = []\<rparr>
        | Inl e \<Rightarrow> failP e
        | Inr None \<Rightarrow> failP (ResizeFailure ''decode resize settings'')
        | Inr (Some settings) \<Rightarrow>
            (let settings = settings\<lparr>rz_Mode := normalizeResizeMode (rz_Mode settings)\<rparr> in
             case validateResizeMode (rz_Mode settings) of
               Inl _ \<Rightarrow> returnP \<lparr>rz_Mode = resizeModeFixed, rz_SelectedViewerID = []\<rparr>
             | Inr _ \<Rightarrow> returnP (clearViewer settings))))"

definition settingsJSON :: "resizeSettings \<Rightarrow> resizeSettings" where
  "settingsJSON s = \<lparr>rz_Mode = coerce_utf8 (rz_Mode s), rz_SelectedViewerID = coerce_utf8 (rz_SelectedViewerID s)\<rparr>"

text \<open>The deferred removal of the temporary file runs on every path; its error is ignored.\<close>

definition removingTemp :: "faults \<Rightarrow> string \<Rightarrow> unit resize_disk \<Rightarrow> unit resize_disk" where
  "removingTemp faults tmp m = tryP m (\<lambda>r d.
     (r, snd ((removeFile faults ResizeMissing ResizeMissing tmp :: unit resize_disk) d)))"

definition rz_Save :: "faults \<Rightarrow> string \<Rightarrow> string \<Rightarrow> resizeSettings \<Rightarrow> unit resize_disk" where
  "rz_Save faults random sessionID settings0 =
     (if \<not> ValidPublicRef sessionID then failP (ResizeInvalid ''invalid session id'')
      else
        let settings1 = settings0\<lparr>rz_Mode := normalizeResizeMode (rz_Mode settings0)\<rparr>;
            tmp = sessionID @ ''.'' @ random @ ''.tmp'' in
        case validateResizeMode (rz_Mode settings1) of Inl e \<Rightarrow> failP e
        | Inr _ \<Rightarrow>
          bindP (sysCall faults (ResizeFailure ''create resize dir'')) (\<lambda>_.
          bindP (sysCall faults (ResizeFailure ''set resize dir permissions'')) (\<lambda>_.
          bindP (createTemp faults (ResizeFailure ''create resize temp file'') None tmp) (\<lambda>_.
          removingTemp faults tmp
            (bindP (sysCall faults (ResizeFailure ''write resize temp file'')) (\<lambda>_.
             bindP (diskUpdate (\<lambda>d. gm_put tmp (Some (settingsJSON (clearViewer settings1))) (dk_files d))) (\<lambda>_.
             bindP (sysCall faults (ResizeFailure ''close resize temp file'')) (\<lambda>_.
             rename faults (ResizeFailure ''save resize settings'') tmp (resizePath sessionID)))))))))"

subsection \<open>Viewers\<close>

definition session_viewers :: "resizeStore \<Rightarrow> string \<Rightarrow> (string, resizeViewer) gomap" where
  "session_viewers s sessionID = (case map_of (rz_viewers s) sessionID of None \<Rightarrow> [] | Some vs \<Rightarrow> vs)"

definition rz_pruneLocked :: "string \<Rightarrow> time \<Rightarrow> resizeStore \<Rightarrow> resizeStore" where
  "rz_pruneLocked sessionID now s =
     (if rz_viewerTTL s \<le> 0 then s
      else
        let kept = gm_drop (\<lambda>_ viewer. vw_LastSeen viewer < now - rz_viewerTTL s) (session_viewers s sessionID) in
        if kept = [] then s\<lparr>rz_viewers := gm_del sessionID (rz_viewers s)\<rparr>
        else s\<lparr>rz_viewers := gm_put sessionID kept (rz_viewers s)\<rparr>)"

definition rz_pruneAllLocked :: "time \<Rightarrow> resizeStore \<Rightarrow> resizeStore" where
  "rz_pruneAllLocked now s = foldl (\<lambda>s sessionID. rz_pruneLocked sessionID now s) s (map fst (rz_viewers s))"

definition rz_viewerCountLocked :: "resizeStore \<Rightarrow> int" where
  "rz_viewerCountLocked s = gm_sum (\<lambda>vs. int (length vs)) (rz_viewers s)"

definition rz_RecordViewer :: "string \<Rightarrow> resizeViewer \<Rightarrow> time \<Rightarrow> resizeStore \<Rightarrow>
    (resizeError + resizeViewer) \<times> resizeStore" where
  "rz_RecordViewer sessionID viewer0 now s0 =
     (let viewer1 = viewer0\<lparr>vw_ID := trim_space (vw_ID viewer0)\<rparr> in
      if \<not> ValidPublicRef sessionID then (Inl (ResizeInvalid ''invalid session id''), s0)
      else if \<not> viewerIDPattern (vw_ID viewer1) then (Inl (ResizeInvalid ''invalid viewer id''), s0)
      else if vw_Width viewer1 \<le> 0 \<or> vw_Height viewer1 \<le> 0 \<or> vw_Width viewer1 > maxResizeViewerDimension \<or>
          vw_Height viewer1 > maxResizeViewerDimension
        then (Inl (ResizeInvalid ''invalid viewer dimensions''), s0)
      else
        let viewer = viewer1\<lparr>vw_SessionID := sessionID, vw_LastSeen := now\<rparr>;
            s = rz_pruneAllLocked now s0;
            sessionViewers = session_viewers s sessionID in
        if map_of sessionViewers (vw_ID viewer) = None \<and>
           (int (length sessionViewers) \<ge> rz_maxViewersPerSession s \<or>
            rz_viewerCountLocked s \<ge> rz_maxViewersPerProcess s)
        then (Inl errResizeViewerCapacity, s)
        else (Inr viewer, s\<lparr>rz_viewers := gm_put sessionID (gm_put (vw_ID viewer) viewer sessionViewers) (rz_viewers s)\<rparr>))"

definition rz_Viewers :: "string \<Rightarrow> time \<Rightarrow> resizeStore \<Rightarrow> resizeViewer list \<times> resizeStore" where
  "rz_Viewers sessionID now s0 =
     (let s = rz_pruneLocked sessionID now s0 in (map snd (session_viewers s sessionID), s))"

definition rz_Viewer :: "string \<Rightarrow> ViewerID \<Rightarrow> time \<Rightarrow> resizeStore \<Rightarrow> resizeViewer option \<times> resizeStore" where
  "rz_Viewer sessionID viewerID now s0 =
     (let s = rz_pruneLocked sessionID now s0 in (map_of (session_viewers s sessionID) viewerID, s))"

definition rz_ForgetSession :: "string \<Rightarrow> resizeStore \<Rightarrow> resizeStore" where
  "rz_ForgetSession sessionID s = s\<lparr>rz_viewers := gm_del sessionID (rz_viewers s)\<rparr>"

definition rz_RemoveSession :: "faults \<Rightarrow> string \<Rightarrow> resizeStore \<Rightarrow> resizeSettings option disk \<Rightarrow>
    (resizeError + unit) \<times> resizeStore \<times> resizeSettings option disk" where
  "rz_RemoveSession faults sessionID s d =
     (if \<not> ValidPublicRef sessionID then (Inl (ResizeInvalid ''invalid session id''), s, d)
      else case removeFile faults ResizeMissing (ResizeFailure ''remove resize settings'') (resizePath sessionID) d of
          (Inl ResizeMissing, d') \<Rightarrow> (Inr (), rz_ForgetSession sessionID s, d')
        | (Inl e, d') \<Rightarrow> (Inl e, rz_ForgetSession sessionID s, d')
        | (Inr _, d') \<Rightarrow> (Inr (), rz_ForgetSession sessionID s, d'))"

subsection \<open>The invariant of the viewers\<close>

definition viewer_ok :: "string \<Rightarrow> string \<times> resizeViewer \<Rightarrow> bool" where
  "viewer_ok sessionID = (\<lambda>(vid, v). vw_ID v = vid \<and> viewerIDPattern vid \<and> vw_SessionID v = sessionID \<and>
     0 < vw_Width v \<and> vw_Width v \<le> maxResizeViewerDimension \<and>
     0 < vw_Height v \<and> vw_Height v \<le> maxResizeViewerDimension)"

definition session_ok :: "string \<Rightarrow> (string, resizeViewer) gomap \<Rightarrow> bool" where
  "session_ok sid vs \<longleftrightarrow> gm_wf vs \<and> ValidPublicRef sid \<and> int (length vs) \<le> defaultResizeViewersPerSession \<and>
     (\<forall>e \<in> set vs. viewer_ok sid e)"

definition resize_inv :: "resizeStore \<Rightarrow> bool" where
  "resize_inv s \<longleftrightarrow> gm_wf (rz_viewers s) \<and>
     rz_maxViewersPerSession s = defaultResizeViewersPerSession \<and>
     rz_maxViewersPerProcess s = defaultResizeViewersPerProcess \<and>
     rz_viewerCountLocked s \<le> defaultResizeViewersPerProcess \<and>
     (\<forall>sid vs. map_of (rz_viewers s) sid = Some vs \<longrightarrow> session_ok sid vs)"

lemma session_ok_drop: "session_ok sid vs \<Longrightarrow> session_ok sid (gm_drop P vs)"
  using gm_drop_length [of P vs] by (auto simp: session_ok_def gm_wf_drop gm_drop_set)

lemma viewer_count_put:
  "gm_wf m \<Longrightarrow> gm_sum (\<lambda>vs. int (length vs)) (gm_put k vs m) =
     gm_sum (\<lambda>vs. int (length vs)) m + int (length vs) - int (length (case map_of m k of None \<Rightarrow> [] | Some u \<Rightarrow> u))"
  by (simp add: gm_sum_put split: option.split)

lemma rz_del_inv: "resize_inv s \<Longrightarrow> resize_inv (s\<lparr>rz_viewers := gm_del sid (rz_viewers s)\<rparr>)"
  using gm_sum_del_le [of "rz_viewers s" "\<lambda>vs. int (length vs)" sid]
  by (auto simp: resize_inv_def gm_wf_del gm_simps rz_viewerCountLocked_def)

lemma rz_prune_inv: "resize_inv s \<Longrightarrow> resize_inv (rz_pruneLocked sid now s)"
proof -
  assume inv: "resize_inv s"
  let ?kept = "gm_drop (\<lambda>_ viewer. vw_LastSeen viewer < now - rz_viewerTTL s) (session_viewers s sid)"
  have "resize_inv (s\<lparr>rz_viewers := gm_put sid ?kept (rz_viewers s)\<rparr>)" if "?kept \<noteq> []"
  proof -
    have "map_of (rz_viewers s) sid = Some (session_viewers s sid)"
      using that by (auto simp: session_viewers_def gm_drop_def split: option.splits)
    moreover from this have "session_ok sid ?kept" using inv by (auto simp: resize_inv_def intro: session_ok_drop)
    moreover have "int (length ?kept) \<le> int (length (session_viewers s sid))" by (simp add: gm_drop_length)
    ultimately show ?thesis
      using inv by (auto simp: resize_inv_def gm_wf_put gm_simps rz_viewerCountLocked_def viewer_count_put)
  qed
  then show ?thesis using inv rz_del_inv by (simp add: rz_pruneLocked_def Let_def)
qed

lemma rz_pruneAll_inv: "resize_inv s \<Longrightarrow> resize_inv (rz_pruneAllLocked now s)"
proof -
  have "resize_inv s \<Longrightarrow> resize_inv (foldl (\<lambda>s sid. rz_pruneLocked sid now s) s sids)" for s sids
    by (induction sids arbitrary: s) (auto intro: rz_prune_inv)
  then show "resize_inv s \<Longrightarrow> ?thesis" by (simp add: rz_pruneAllLocked_def)
qed

lemma rz_record_inv:
  assumes inv0: "resize_inv s0"
  shows "resize_inv (snd (rz_RecordViewer sid viewer0 now s0))"
proof -
  define s where "s = rz_pruneAllLocked now s0"
  define v where "v = viewer0\<lparr>vw_ID := trim_space (vw_ID viewer0), vw_SessionID := sid, vw_LastSeen := now\<rparr>"
  have inv: "resize_inv s" using inv0 rz_pruneAll_inv by (simp add: s_def)
  let ?vs = "session_viewers s sid"
  let ?new = "s\<lparr>rz_viewers := gm_put sid (gm_put (vw_ID v) v ?vs) (rz_viewers s)\<rparr>"
  have "resize_inv ?new"
    if "ValidPublicRef sid" "viewer_ok sid (vw_ID v, v)"
      "\<not> (map_of ?vs (vw_ID v) = None \<and> (int (length ?vs) \<ge> rz_maxViewersPerSession s \<or>
        rz_viewerCountLocked s \<ge> rz_maxViewersPerProcess s))"
  proof -
    have ok: "session_ok sid ?vs"
      using inv that(1) by (auto simp: session_viewers_def resize_inv_def session_ok_def
          defaultResizeViewersPerSession_def split: option.splits)
    have len: "length (gm_put (vw_ID v) v ?vs) = length ?vs + (if map_of ?vs (vw_ID v) = None then 1 else 0)"
      by (cases "map_of ?vs (vw_ID v)") (auto simp: gm_put_length_fresh gm_put_length_present)
    have "session_ok sid (gm_put (vw_ID v) v ?vs)"
      using ok that inv len by (auto simp: session_ok_def gm_wf_put gm_put_set resize_inv_def)
    moreover have "rz_viewerCountLocked ?new \<le> defaultResizeViewersPerProcess"
      using inv that(3) len
      by (auto simp: resize_inv_def rz_viewerCountLocked_def viewer_count_put session_viewers_def
          split: if_splits option.splits)
    ultimately show ?thesis using inv by (auto simp: resize_inv_def gm_wf_put gm_simps)
  qed
  then show ?thesis
    using inv0 inv by (auto simp: rz_RecordViewer_def Let_def s_def v_def viewer_ok_def)
qed

subsection \<open>Histories of calls\<close>

inductive resize_step :: "resizeStore \<Rightarrow> resizeStore \<Rightarrow> bool" where
  "resize_step s (snd (rz_RecordViewer sid viewer now s))"
| "resize_step s (snd (rz_Viewers sid now s))"
| "resize_step s (snd (rz_Viewer sid vid now s))"
| "resize_step s (rz_ForgetSession sid s)"
| "resize_step s (fst (snd (rz_RemoveSession faults sid s d)))"

lemma rz_remove_store:
  "fst (snd (rz_RemoveSession faults sid s d)) \<in> {s, rz_ForgetSession sid s}"
  by (auto simp: rz_RemoveSession_def split: prod.splits sum.splits resizeError.splits)

lemma resize_step_inv: "resize_step s t \<Longrightarrow> resize_inv s \<Longrightarrow> resize_inv t"
proof (induction rule: resize_step.induct)
  case (5 s faults sid d)
  then show ?case
    using rz_remove_store [of faults sid s d] rz_del_inv [of s sid] by (auto simp: rz_ForgetSession_def)
qed (auto simp: rz_record_inv rz_Viewers_def rz_Viewer_def Let_def rz_prune_inv rz_ForgetSession_def rz_del_inv)

interpretation resize_system: step_system "\<lambda>s. s = newResizeStore ttl" resize_step resize_inv for ttl
  by unfold_locales
    (auto simp: resize_step_inv, simp add: resize_inv_def newResizeStore_def rz_viewerCountLocked_def
      gm_sum_def defaultResizeViewersPerProcess_def)

subsection \<open>Properties\<close>

text \<open>
  The resize store is bounded and clean after every history of calls: at most 32 viewers per
  session and 256 in all, every one stored under its own valid identifier and its own session, with
  a width and height from 1 to 1000.
\<close>

theorem resize_viewers_bounded:
  assumes "resize_step\<^sup>*\<^sup>* (newResizeStore ttl) s"
  shows "rz_viewerCountLocked s \<le> 256 \<and>
     (\<forall>sid vs. map_of (rz_viewers s) sid = Some vs \<longrightarrow> length vs \<le> 32 \<and> ValidPublicRef sid \<and>
        (\<forall>e \<in> set vs. viewer_ok sid e))"
proof -
  have "resize_inv s" using resize_system.inv_reachable [OF refl assms] .
  then show ?thesis
    by (auto simp: resize_inv_def session_ok_def defaultResizeViewersPerProcess_def
        defaultResizeViewersPerSession_def)
qed

definition demo_viewer :: resizeViewer where
  "demo_viewer = \<lparr>vw_ID = replicate 16 CHR ''v'', vw_SessionID = [], vw_IP = [], vw_UserAgent = [],
     vw_Width = 80, vw_Height = 24, vw_LastSeen = 0\<rparr>"

theorem resize_viewers_bounded_witness:
  "rz_viewerCountLocked (snd (rz_RecordViewer (replicate 32 CHR ''a'') demo_viewer 5 (newResizeStore 10))) \<le> 256"
  using resize_viewers_bounded [OF r_into_rtranclp [of resize_step, OF resize_step.intros(1)]] by blast

lemma normal_mode:
  assumes "mode \<in> {resizeModeFixed, resizeModeFitOnce, resizeModeFollowDevice}"
  shows "to_lower (trim_space mode) = mode" "valid_utf8 mode"
proof -
  have "trim_space mode = mode"
    using assms by (intro trim_space_graph) (auto simp: resize_mode_defs)
  moreover have "to_lower mode = mode"
    using assms by (auto simp: resize_mode_defs to_lower_def kelvin_sign_def dotted_capital_i_def
        has_prefix_def lower_char_def is_upper_def)
  ultimately show "to_lower (trim_space mode) = mode" by simp
  show "valid_utf8 mode" using assms by (intro valid_utf8_ascii) (auto simp: resize_mode_defs)
qed

lemma tmp_not_path: "sessionID @ ''.'' @ random @ ''.tmp'' \<noteq> resizePath sid"
proof
  assume "sessionID @ ''.'' @ random @ ''.tmp'' = resizePath sid"
  then have "rev (sessionID @ ''.'' @ random @ ''.tmp'') = rev (resizePath sid)" by (rule arg_cong)
  then show False by (simp add: resizePath_def)
qed

lemma save_steps:
  fixes c :: resizeSettings
  assumes "tmp \<noteq> dest"
  shows "triple (\<lambda>d. True)
     (removingTemp faults tmp (bindP (sysCall faults e1) (\<lambda>_.
      bindP (diskUpdate (\<lambda>d. gm_put tmp (Some c) (dk_files d))) (\<lambda>_.
      bindP (sysCall faults e2) (\<lambda>_. rename faults e3 tmp dest)))))
     (\<lambda>r d. r = Inr () \<longrightarrow> map_of (dk_files d) dest = Some (Some c))"
proof -
  let ?full = "\<lambda>(F :: (string, resizeSettings option) gomap). map_of F tmp = Some (Some c)"
  have ren: "triple (\<lambda>d. ?full (dk_files d)) (rename faults e3 tmp dest)
      (\<lambda>r d. r = Inr () \<longrightarrow> map_of (dk_files d) dest = Some (Some c))"
    by (auto simp: triple_def rename_def bindP_apply sysCall_def gm_simps split: prod.splits sum.splits)
  have upd: "triple (\<lambda>d. True) (diskUpdate (\<lambda>d. gm_put tmp (Some c) (dk_files d)))
      (\<lambda>r d. r = Inr () \<and> ?full (dk_files d))"
    by (rule triple_conseq [OF triple_diskUpdate [where P = ?full]]) (auto simp: gm_simps)
  have "triple (\<lambda>d. True) (bindP (sysCall faults e1) (\<lambda>_.
      bindP (diskUpdate (\<lambda>d. gm_put tmp (Some c) (dk_files d))) (\<lambda>_.
      bindP (sysCall faults e2) (\<lambda>_. rename faults e3 tmp dest))))
     (\<lambda>r d. r = Inr () \<longrightarrow> map_of (dk_files d) dest = Some (Some c))"
    by (rule triple_bind [OF triple_sysCall [where P = "\<lambda>_. True"]], rule triple_bind [OF upd], simp,
        rule triple_bind [OF triple_sysCall [where P = ?full]], rule ren) auto
  then show ?thesis
    unfolding removingTemp_def
    by (rule triple_try) (use assms in \<open>auto simp: triple_def removeFile_def bindP_apply sysCall_def gm_simps
        split: option.splits\<close>)
qed

lemma rz_Save_stored:
  assumes "rz_Save faults random sid settings d = (Inr (), d')"
  shows "ValidPublicRef sid \<and>
     map_of (dk_files d') (resizePath sid) = Some (Some (settingsJSON (clearViewer
       (settings\<lparr>rz_Mode := normalizeResizeMode (rz_Mode settings)\<rparr>))))"
proof -
  let ?tmp = "sid @ ''.'' @ random @ ''.tmp''"
  have ok: "ValidPublicRef sid" "validateResizeMode (normalizeResizeMode (rz_Mode settings)) = Inr ()"
    using assms by (auto simp: rz_Save_def Let_def split: if_splits sum.split_asm)
  then obtain d1 e1 e2 e3 where "removingTemp faults ?tmp (bindP (sysCall faults e1) (\<lambda>_.
      bindP (diskUpdate (\<lambda>d. gm_put ?tmp (Some (settingsJSON (clearViewer
        (settings\<lparr>rz_Mode := normalizeResizeMode (rz_Mode settings)\<rparr>)))) (dk_files d))) (\<lambda>_.
      bindP (sysCall faults e2) (\<lambda>_. rename faults e3 ?tmp (resizePath sid))))) d1 = (Inr (), d')"
    using assms by (auto simp: rz_Save_def Let_def result_simps)
  from tripleD [OF save_steps [OF tmp_not_path] _ this] show ?thesis using ok(1) by simp
qed

text \<open>
  Settings round-trip: after a successful save of any spelling of a supported mode, in any case
  and with any surrounding white space, loading the session returns the saved settings in normal
  form, without a selected viewer in follow-device mode.
\<close>

theorem resize_settings_roundtrip:
  assumes "rz_Save faults random sid settings d = (Inr (), d')" "\<not> faults (dk_calls d')"
    and "mode = normalizeResizeMode (rz_Mode settings)"
    and "mode \<in> {resizeModeFixed, resizeModeFitOnce, resizeModeFollowDevice}"
    and "valid_utf8 (rz_SelectedViewerID settings)"
  shows "fst (rz_Load faults sid d') =
     Inr \<lparr>rz_Mode = mode,
          rz_SelectedViewerID = (if mode = resizeModeFollowDevice then [] else rz_SelectedViewerID settings)\<rparr>"
proof -
  note saved = rz_Save_stored [OF assms(1)]
  have "valid_utf8 []" by (simp add: valid_utf8.simps)
  then have json: "settingsJSON (clearViewer (settings\<lparr>rz_Mode := mode\<rparr>)) =
      \<lparr>rz_Mode = mode, rz_SelectedViewerID =
        (if mode = resizeModeFollowDevice then [] else rz_SelectedViewerID settings)\<rparr>"
    using normal_mode(2) [OF assms(4)] assms(5)
    by (auto simp: settingsJSON_def clearViewer_def coerce_utf8_valid)
  have "normalizeResizeMode mode = mode" "validateResizeMode mode = Inr ()"
    using normal_mode(1) [OF assms(4)] assms(4) by (simp_all add: normalizeResizeMode_def validateResizeMode_def)
  then show ?thesis
    using saved assms(2) json unfolding assms(3) [symmetric]
    by (simp add: rz_Load_def readFile_def bindP_apply tryP_apply sysCall_def Let_def clearViewer_def)
qed

theorem resize_settings_roundtrip_witness:
  "\<exists>d'. fst (rz_Load (\<lambda>_. False) (replicate 32 CHR ''a'') d') =
     Inr \<lparr>rz_Mode = resizeModeFollowDevice, rz_SelectedViewerID = []\<rparr>"
proof -
  let ?s = "\<lparr>rz_Mode = ''Follow-Device'', rz_SelectedViewerID = ''v''\<rparr>" and ?sid = "replicate 32 CHR ''a''"
  have trim: "trim_space ''Follow-Device'' = ''Follow-Device''" by (intro trim_space_graph) simp_all
  have "to_lower ''Follow-Device'' = ''follow-device''" by code_simp
  with trim have mode: "resizeModeFollowDevice = normalizeResizeMode (rz_Mode ?s)"
    by (simp add: normalizeResizeMode_def resize_mode_defs)
  have ref: "ValidPublicRef ?sid" by (simp add: ValidPublicRef_def match_class_def list_all_iff char_class_defs)
  have valid: "validateResizeMode resizeModeFollowDevice = Inr ()"
    using normal_mode(1) by (simp add: validateResizeMode_def)
  have "fst (rz_Save (\<lambda>_. False) ''7'' ?sid ?s \<lparr>dk_files = [], dk_calls = 0\<rparr>) = Inr ()"
    using ref valid mode by (simp add: rz_Save_def Let_def bindP_apply sysCall_def createTemp_def
        removingTemp_def tryP_apply diskUpdate_def rename_def gm_simps)
  then obtain d' where d': "rz_Save (\<lambda>_. False) ''7'' ?sid ?s \<lparr>dk_files = [], dk_calls = 0\<rparr> = (Inr (), d')"
    by (metis prod.collapse)
  have "valid_utf8 (rz_SelectedViewerID ?s)" by (intro valid_utf8_ascii) simp
  from resize_settings_roundtrip [OF d' _ mode _ this] show ?thesis by auto
qed

end
