(* ===== verification/Capture_Coordinator.thy ===== *)
theory Capture_Coordinator
  imports History_Ansi Tmux
begin

section \<open>Coordination of history captures\<close>

text \<open>
  \<^verbatim>\<open>internal/server/history_capture_coordinator.go\<close>: at most one capture per key runs at a time,
  requests for the same key wait for it, and captures are limited per process, per login and per
  time. \<^verbatim>\<open>Do\<close> is split where it releases the lock: \<open>cc_begin\<close> is its first critical section,
  \<open>cc_finish\<close> the one after the capture, \<open>cc_removeWaiter\<close> the one of a cancelled waiter. A call
  object is identified by a number (\<open>call_id\<close>), its address in the code. The requests that run or
  wait are explicit in \<open>coordinator_system\<close>, whose steps interleave in every order.

  The lemmas show the mutual exclusion, the exactness of the counters and their limits in every
  interleaving, and that the rate limit holds for every window of time.
\<close>

definition defaultHistoryCreateLimit :: int where "defaultHistoryCreateLimit = 6"
definition defaultHistoryCreateWindow :: duration where "defaultHistoryCreateWindow = minute"
definition defaultHistoryRateScopes :: int where "defaultHistoryRateScopes = 1024"
definition defaultHistoryProcessCaptures :: int where "defaultHistoryProcessCaptures = 4"
definition defaultHistoryLoginCaptures :: int where "defaultHistoryLoginCaptures = 2"
definition defaultHistoryCaptureWaiters :: int where "defaultHistoryCaptureWaiters = 8"

datatype captureError =
    errHistoryCreateRate
  | errHistoryRateScopes
  | errHistoryProcessCaptures
  | errHistoryLoginCaptures
  | errHistoryCaptureWaiters

record historyCaptureKey =
  ck_User :: string
  ck_Viewer :: ViewerID
  ck_SessionRef :: SessionRef
  ck_PaneRef :: PaneRef
  ck_Generation :: PaneGeneration
  ck_Mode :: string

record historyCaptureCall =
  call_id :: nat
  call_waiters :: int

record historyRateState =
  hr_requests :: "time list"
  hr_lastSeen :: time

record historyCaptureCoordinator =
  cc_limit :: int
  cc_window :: duration
  cc_maxScopes :: int
  cc_maxProcessCaptures :: int
  cc_maxLoginCaptures :: int
  cc_maxWaiters :: int
  cc_activeCaptures :: int
  cc_inFlight :: "(historyCaptureKey, historyCaptureCall) gomap"
  cc_activeByLogin :: "(string, int) gomap"
  cc_rates :: "(historyCaptureKey, historyRateState) gomap"

definition newHistoryCaptureCoordinator :: historyCaptureCoordinator where
  "newHistoryCaptureCoordinator =
     \<lparr>cc_limit = defaultHistoryCreateLimit, cc_window = defaultHistoryCreateWindow,
      cc_maxScopes = defaultHistoryRateScopes, cc_maxProcessCaptures = defaultHistoryProcessCaptures,
      cc_maxLoginCaptures = defaultHistoryLoginCaptures, cc_maxWaiters = defaultHistoryCaptureWaiters,
      cc_activeCaptures = 0, cc_inFlight = [], cc_activeByLogin = [], cc_rates = []\<rparr>"

definition loginCount :: "historyCaptureCoordinator \<Rightarrow> string \<Rightarrow> int" where
  "loginCount c user = (case map_of (cc_activeByLogin c) user of None \<Rightarrow> 0 | Some n \<Rightarrow> n)"

subsection \<open>The rate limit\<close>

definition cc_allowLocked :: "historyCaptureKey \<Rightarrow> time \<Rightarrow> historyCaptureCoordinator \<Rightarrow>
    (captureError + unit) \<times> historyCaptureCoordinator" where
  "cc_allowLocked key now c =
     (let cutoff = now - cc_window c;
          rates = gm_drop (\<lambda>_ state. hr_lastSeen state < cutoff) (cc_rates c);
          state = (case map_of rates key of None \<Rightarrow> \<lparr>hr_requests = [], hr_lastSeen = zero_time\<rparr> | Some st \<Rightarrow> st) in
      if map_of rates key = None \<and> int (length rates) \<ge> cc_maxScopes c
      then (Inl errHistoryRateScopes, c\<lparr>cc_rates := rates\<rparr>)
      else
        let kept = filter (\<lambda>requested. requested > cutoff) (hr_requests state) in
        if int (length kept) \<ge> cc_limit c
        then (Inl errHistoryCreateRate,
              c\<lparr>cc_rates := gm_put key \<lparr>hr_requests = kept, hr_lastSeen = now\<rparr> rates\<rparr>)
        else (Inr (), c\<lparr>cc_rates := gm_put key \<lparr>hr_requests = kept @ [now], hr_lastSeen = now\<rparr> rates\<rparr>))"

subsection \<open>The critical sections\<close>

datatype beginResult = Started nat | Joined nat | Refused captureError

text \<open>\<open>fresh\<close> is the address of the call object a started capture allocates.\<close>

definition cc_begin :: "historyCaptureKey \<Rightarrow> time \<Rightarrow> nat \<Rightarrow> historyCaptureCoordinator \<Rightarrow>
    beginResult \<times> historyCaptureCoordinator" where
  "cc_begin key now fresh c =
     (case map_of (cc_inFlight c) key of
        Some call \<Rightarrow>
          if call_waiters call \<ge> cc_maxWaiters c then (Refused errHistoryCaptureWaiters, c)
          else (Joined (call_id call),
                c\<lparr>cc_inFlight := gm_put key (call\<lparr>call_waiters := call_waiters call + 1\<rparr>) (cc_inFlight c)\<rparr>)
      | None \<Rightarrow>
          if cc_activeCaptures c \<ge> cc_maxProcessCaptures c then (Refused errHistoryProcessCaptures, c)
          else if loginCount c (ck_User key) \<ge> cc_maxLoginCaptures c then (Refused errHistoryLoginCaptures, c)
          else (case cc_allowLocked key now c of
                  (Inl err, c') \<Rightarrow> (Refused err, c')
                | (Inr _, c') \<Rightarrow>
                    (Started fresh,
                     c'\<lparr>cc_inFlight := gm_put key \<lparr>call_id = fresh, call_waiters = 0\<rparr> (cc_inFlight c'),
                        cc_activeCaptures := cc_activeCaptures c' + 1,
                        cc_activeByLogin := gm_put (ck_User key) (loginCount c' (ck_User key) + 1) (cc_activeByLogin c')\<rparr>)))"

definition cc_finish :: "historyCaptureKey \<Rightarrow> historyCaptureCoordinator \<Rightarrow> historyCaptureCoordinator" where
  "cc_finish key c =
     (let n = loginCount c (ck_User key) - 1 in
      c\<lparr>cc_inFlight := gm_del key (cc_inFlight c),
        cc_activeCaptures := cc_activeCaptures c - 1,
        cc_activeByLogin := (if n = 0 then gm_del (ck_User key) (cc_activeByLogin c)
          else gm_put (ck_User key) n (cc_activeByLogin c))\<rparr>)"

definition cc_removeWaiter :: "historyCaptureKey \<Rightarrow> nat \<Rightarrow> historyCaptureCoordinator \<Rightarrow> historyCaptureCoordinator" where
  "cc_removeWaiter key cid c =
     (case map_of (cc_inFlight c) key of
        Some call \<Rightarrow>
          if call_id call = cid \<and> call_waiters call > 0
          then c\<lparr>cc_inFlight := gm_put key (call\<lparr>call_waiters := call_waiters call - 1\<rparr>) (cc_inFlight c)\<rparr> else c
      | None \<Rightarrow> c)"

text \<open>\<^verbatim>\<open>historyNodeEstimate\<close>: one node per line and per run.\<close>

definition historyNodeEstimate :: "historyLine list \<Rightarrow> int" where
  "historyNodeEstimate lines = int (length lines) + (\<Sum>l \<leftarrow> lines. int (length (Runs l)))"

subsection \<open>Interleavings\<close>

text \<open>
  Requests are in one of three places: running the capture of a call, waiting for a call, or
  outside. A waiter of a finished call returns its product; a waiter may be cancelled at any time.
\<close>

record coordinator_system =
  sys_coordinator :: historyCaptureCoordinator
  sys_running :: "(historyCaptureKey \<times> nat) list"
  sys_waiting :: "(historyCaptureKey \<times> nat) list"
  sys_next :: nat

inductive coordinator_step :: "coordinator_system \<Rightarrow> coordinator_system \<Rightarrow> bool" where
  start: "cc_begin key now (sys_next s) (sys_coordinator s) = (Started i, c') \<Longrightarrow>
    coordinator_step s (s\<lparr>sys_coordinator := c', sys_running := (key, i) # sys_running s, sys_next := Suc (sys_next s)\<rparr>)"
| join: "cc_begin key now (sys_next s) (sys_coordinator s) = (Joined i, c') \<Longrightarrow>
    coordinator_step s (s\<lparr>sys_coordinator := c', sys_waiting := (key, i) # sys_waiting s\<rparr>)"
| refuse: "cc_begin key now (sys_next s) (sys_coordinator s) = (Refused e, c') \<Longrightarrow>
    coordinator_step s (s\<lparr>sys_coordinator := c'\<rparr>)"
| finish: "(key, i) \<in> set (sys_running s) \<Longrightarrow>
    coordinator_step s (s\<lparr>sys_coordinator := cc_finish key (sys_coordinator s),
      sys_running := remove1 (key, i) (sys_running s)\<rparr>)"
| released: "(key, i) \<in> set (sys_waiting s) \<Longrightarrow> (key, i) \<notin> set (sys_running s) \<Longrightarrow>
    coordinator_step s (s\<lparr>sys_waiting := remove1 (key, i) (sys_waiting s)\<rparr>)"
| cancel: "(key, i) \<in> set (sys_waiting s) \<Longrightarrow>
    coordinator_step s (s\<lparr>sys_coordinator := cc_removeWaiter key i (sys_coordinator s),
      sys_waiting := remove1 (key, i) (sys_waiting s)\<rparr>)"

definition coordinator_init :: coordinator_system where
  "coordinator_init = \<lparr>sys_coordinator = newHistoryCaptureCoordinator, sys_running = [], sys_waiting = [], sys_next = 0\<rparr>"

definition user_running :: "string \<Rightarrow> (historyCaptureKey \<times> nat) list \<Rightarrow> nat" where
  "user_running user rs = length (filter (\<lambda>(k, i). ck_User k = user) rs)"

definition limits_of :: "historyCaptureCoordinator \<Rightarrow> int \<times> int \<times> int" where
  "limits_of c = (cc_maxProcessCaptures c, cc_maxLoginCaptures c, cc_maxWaiters c)"

definition coordinator_inv :: "coordinator_system \<Rightarrow> bool" where
  "coordinator_inv s \<longleftrightarrow>
     (let c = sys_coordinator s in
      limits_of c = (4, 2, 8) \<and> gm_wf (cc_inFlight c) \<and> distinct (map fst (sys_running s)) \<and>
      (\<forall>k i. (k, i) \<in> set (sys_running s) \<longleftrightarrow>
         (\<exists>call. map_of (cc_inFlight c) k = Some call \<and> call_id call = i)) \<and>
      cc_activeCaptures c = int (length (sys_running s)) \<and> length (sys_running s) \<le> 4 \<and>
      (\<forall>u. loginCount c u = int (user_running u (sys_running s)) \<and> user_running u (sys_running s) \<le> 2) \<and>
      (\<forall>k call. map_of (cc_inFlight c) k = Some call \<longrightarrow>
         call_waiters call = int (count_list (sys_waiting s) (k, call_id call)) \<and> call_waiters call \<le> 8) \<and>
      (\<forall>k i. (k, i) \<in> set (sys_running s) \<union> set (sys_waiting s) \<longrightarrow> i < sys_next s))"

lemma allow_frame: "\<exists>rates. snd (cc_allowLocked key now c) = c\<lparr>cc_rates := rates\<rparr>"
  by (auto simp: cc_allowLocked_def Let_def)

lemma loginCount_rates [simp]: "loginCount (c\<lparr>cc_rates := rates\<rparr>) u = loginCount c u"
  by (simp add: loginCount_def)

lemma begin_Started:
  assumes "cc_begin key now fresh c = (Started i, c')"
  obtains rates where "i = fresh" "map_of (cc_inFlight c) key = None"
    "cc_activeCaptures c < cc_maxProcessCaptures c" "loginCount c (ck_User key) < cc_maxLoginCaptures c"
    "c' = c\<lparr>cc_rates := rates, cc_inFlight := gm_put key \<lparr>call_id = fresh, call_waiters = 0\<rparr> (cc_inFlight c),
      cc_activeCaptures := cc_activeCaptures c + 1,
      cc_activeByLogin := gm_put (ck_User key) (loginCount c (ck_User key) + 1) (cc_activeByLogin c)\<rparr>"
  using assms allow_frame [of key now c]
  by (auto simp: cc_begin_def split: option.splits if_splits prod.splits sum.splits)

lemma begin_Joined:
  assumes "cc_begin key now fresh c = (Joined i, c')"
  obtains call where "map_of (cc_inFlight c) key = Some call" "i = call_id call"
    "call_waiters call < cc_maxWaiters c"
    "c' = c\<lparr>cc_inFlight := gm_put key (call\<lparr>call_waiters := call_waiters call + 1\<rparr>) (cc_inFlight c)\<rparr>"
  using assms
  by (auto simp: cc_begin_def split: option.splits if_splits prod.splits sum.splits)

lemma begin_Refused:
  assumes "cc_begin key now fresh c = (Refused e, c')"
  shows "\<exists>rates. c' = c\<lparr>cc_rates := rates\<rparr>"
  using assms allow_frame [of key now c]
  by (auto simp: cc_begin_def intro: exI [of _ "cc_rates c"]
      split: option.splits if_splits prod.splits sum.splits)

lemma user_running_Cons [simp]:
  "user_running u ((k, i) # rs) = user_running u rs + (if ck_User k = u then 1 else 0)"
  by (simp add: user_running_def)

lemma user_running_remove1:
  "(k, i) \<in> set rs \<Longrightarrow> user_running u rs = user_running u (remove1 (k, i) rs) + (if ck_User k = u then 1 else 0)"
  by (induction rs) (auto simp: user_running_def)

lemma count_list_remove1:
  "count_list (remove1 x xs) y = count_list xs y - (if x = y then 1 else 0)"
  by (induction xs) auto

lemma coordinator_invD:
  assumes "coordinator_inv s" "c = sys_coordinator s"
  shows "limits_of c = (4, 2, 8)" "gm_wf (cc_inFlight c)" "distinct (map fst (sys_running s))"
    "(k, i) \<in> set (sys_running s) \<longleftrightarrow> (\<exists>call. map_of (cc_inFlight c) k = Some call \<and> call_id call = i)"
    "cc_activeCaptures c = int (length (sys_running s))" "length (sys_running s) \<le> 4"
    "loginCount c u = int (user_running u (sys_running s))" "user_running u (sys_running s) \<le> 2"
    "map_of (cc_inFlight c) k = Some call \<Longrightarrow>
       call_waiters call = int (count_list (sys_waiting s) (k, call_id call)) \<and> call_waiters call \<le> 8"
    "(k, i) \<in> set (sys_running s) \<union> set (sys_waiting s) \<Longrightarrow> i < sys_next s"
  using assms unfolding coordinator_inv_def Let_def by blast+

lemma coordinator_invI:
  assumes "c = sys_coordinator s" "limits_of c = (4, 2, 8)" "gm_wf (cc_inFlight c)"
    "distinct (map fst (sys_running s))"
    "\<And>k i. (k, i) \<in> set (sys_running s) \<longleftrightarrow> (\<exists>call. map_of (cc_inFlight c) k = Some call \<and> call_id call = i)"
    "cc_activeCaptures c = int (length (sys_running s))" "length (sys_running s) \<le> 4"
    "\<And>u. loginCount c u = int (user_running u (sys_running s))" "\<And>u. user_running u (sys_running s) \<le> 2"
    "\<And>k call. map_of (cc_inFlight c) k = Some call \<Longrightarrow>
       call_waiters call = int (count_list (sys_waiting s) (k, call_id call)) \<and> call_waiters call \<le> 8"
    "\<And>k i. (k, i) \<in> set (sys_running s) \<union> set (sys_waiting s) \<Longrightarrow> i < sys_next s"
  shows "coordinator_inv s"
  using assms(2-) unfolding coordinator_inv_def Let_def assms(1) by blast

lemma start_inv:
  assumes inv: "coordinator_inv s" and beg: "cc_begin key now (sys_next s) (sys_coordinator s) = (Started i, c')"
  shows "coordinator_inv (s\<lparr>sys_coordinator := c', sys_running := (key, i) # sys_running s, sys_next := Suc (sys_next s)\<rparr>)"
proof -
  let ?c = "sys_coordinator s"
  note D = coordinator_invD [OF inv refl]
  obtain rates where b: "i = sys_next s" "map_of (cc_inFlight ?c) key = None"
    "cc_activeCaptures ?c < cc_maxProcessCaptures ?c" "loginCount ?c (ck_User key) < cc_maxLoginCaptures ?c"
    "c' = ?c\<lparr>cc_rates := rates, cc_inFlight := gm_put key \<lparr>call_id = sys_next s, call_waiters = 0\<rparr> (cc_inFlight ?c),
      cc_activeCaptures := cc_activeCaptures ?c + 1,
      cc_activeByLogin := gm_put (ck_User key) (loginCount ?c (ck_User key) + 1) (cc_activeByLogin ?c)\<rparr>"
    using begin_Started [OF beg] by metis
  have new: "key \<notin> fst ` set (sys_running s)" using D(4) b(2) by fastforce
  have lim: "cc_maxProcessCaptures ?c = 4" "cc_maxLoginCaptures ?c = 2"
    using D(1) by (simp_all add: limits_of_def)
  have nowait: "count_list (sys_waiting s) (key, sys_next s) = 0"
    using D(10) by (fastforce simp: count_list_0_iff)
  have login: "loginCount c' u = int (user_running u ((key, i) # sys_running s))" for u
    using D(7) [of u] b(5) by (auto simp: loginCount_def gm_simps)
  show ?thesis
  proof (rule coordinator_invI [OF refl], goal_cases)
    case (4 k j)
    then show ?case using D(4) [of k j] b new by (auto simp: gm_simps)
  next
    case (8 u)
    then show ?case using D(8) [of u] D(7) [of "ck_User key"] b(4) lim by auto
  next
    case (9 k call)
    then show ?case using D(9) [of k call] b nowait by (auto simp: gm_simps split: if_splits)
  next
    case (10 k j)
    then show ?case using D(10) [of k j] b by (auto simp: less_SucI)
  qed (use D b new lim login in \<open>auto simp: limits_of_def gm_wf_put\<close>)
qed

lemma join_inv:
  assumes inv: "coordinator_inv s" and beg: "cc_begin key now (sys_next s) (sys_coordinator s) = (Joined i, c')"
  shows "coordinator_inv (s\<lparr>sys_coordinator := c', sys_waiting := (key, i) # sys_waiting s\<rparr>)"
proof -
  let ?c = "sys_coordinator s"
  note D = coordinator_invD [OF inv refl]
  obtain call where b: "map_of (cc_inFlight ?c) key = Some call" "i = call_id call"
    "call_waiters call < cc_maxWaiters ?c"
    "c' = ?c\<lparr>cc_inFlight := gm_put key (call\<lparr>call_waiters := call_waiters call + 1\<rparr>) (cc_inFlight ?c)\<rparr>"
    using begin_Joined [OF beg] by metis
  have "cc_maxWaiters ?c = 8" using D(1) by (simp add: limits_of_def)
  then have w: "call_waiters call < 8" using b(3) by simp
  have i: "i < sys_next s" using D(4) [of key i] D(10) [of key i] b by auto
  show ?thesis
  proof (rule coordinator_invI [OF refl], goal_cases)
    case (4 k j)
    then show ?case using D(4) [of k j] b by (auto simp: gm_simps)
  next
    case (9 k x)
    then show ?case using D(9) [of k x] D(9) [OF b(1)] b w by (auto simp: gm_simps split: if_splits)
  next
    case (10 k j)
    then show ?case using D(10) [of k j] i by auto
  qed (use D b in \<open>auto simp: limits_of_def gm_wf_put loginCount_def\<close>)
qed

lemma finish_inv:
  assumes inv: "coordinator_inv s" and run: "(key, i) \<in> set (sys_running s)"
  shows "coordinator_inv (s\<lparr>sys_coordinator := cc_finish key (sys_coordinator s),
      sys_running := remove1 (key, i) (sys_running s)\<rparr>)"
proof -
  let ?c = "sys_coordinator s" and ?rs = "remove1 (key, i) (sys_running s)"
  note D = coordinator_invD [OF inv refl]
  have dist: "distinct (sys_running s)" using D(3) by (simp add: distinct_map)
  have len: "length (sys_running s) = Suc (length ?rs)"
    using run by (simp add: length_remove1) (metis Suc_pred length_pos_if_in_set)
  note users = user_running_remove1 [OF run]
  have login: "loginCount (cc_finish key ?c) u = int (user_running u ?rs)" for u
    using D(7) [of u] D(7) [of "ck_User key"] users [of u] users [of "ck_User key"]
    by (auto simp: loginCount_def cc_finish_def Let_def gm_simps)
  have mem: "(k, j) \<in> set ?rs \<longleftrightarrow> (k, j) \<in> set (sys_running s) \<and> k \<noteq> key" for k j
    using dist eq_key_imp_eq_value [OF D(3) run] by auto
  show ?thesis
  proof (rule coordinator_invI [OF refl], goal_cases)
    case 3
    then show ?case using D(3) dist by (auto simp: distinct_map inj_on_def)
  next
    case (4 k j)
    then show ?case using D(4) [of k j] mem [of k j] by (auto simp: cc_finish_def Let_def gm_simps)
  next
    case (8 u)
    then show ?case using D(8) [of u] users [of u] by simp
  next
    case (9 k x)
    then show ?case using D(9) [of k x] by (auto simp: cc_finish_def Let_def gm_simps split: if_splits)
  next
    case (10 k j)
    then show ?case using D(10) [of k j] mem by auto
  qed (use D len login in \<open>auto simp: cc_finish_def Let_def limits_of_def gm_wf_del\<close>)
qed

lemma cancel_inv:
  assumes inv: "coordinator_inv s" and wait: "(key, i) \<in> set (sys_waiting s)"
    and c': "c' = cc_removeWaiter key i (sys_coordinator s) \<or>
      c' = sys_coordinator s \<and> (key, i) \<notin> set (sys_running s)"
  shows "coordinator_inv (s\<lparr>sys_coordinator := c', sys_waiting := remove1 (key, i) (sys_waiting s)\<rparr>)"
proof -
  let ?c = "sys_coordinator s"
  note D = coordinator_invD [OF inv refl]
  have pos: "0 < count_list (sys_waiting s) (key, i)"
    using wait by (metis count_list_0_iff gr0I)
  have frame: "limits_of c' = limits_of ?c" "cc_activeCaptures c' = cc_activeCaptures ?c"
    "loginCount c' u = loginCount ?c u" for u
    using c' by (auto simp: cc_removeWaiter_def limits_of_def loginCount_def split: option.splits if_splits)
  have calls: "map_of (cc_inFlight c') k = (case map_of (cc_inFlight ?c) k of None \<Rightarrow> None
      | Some call \<Rightarrow> Some (if k = key \<and> call_id call = i then call\<lparr>call_waiters := call_waiters call - 1\<rparr> else call))" for k
    using c'
  proof
    assume "c' = cc_removeWaiter key i ?c"
    then show ?thesis
      using D(9) [of key] pos by (fastforce simp: cc_removeWaiter_def gm_simps split: option.splits if_splits)
  next
    assume "c' = ?c \<and> (key, i) \<notin> set (sys_running s)"
    then show ?thesis using D(4) [of key i] by (auto split: option.splits)
  qed
  have wf: "gm_wf (cc_inFlight c')"
    using c' D(2) by (auto simp: cc_removeWaiter_def gm_wf_put split: option.splits)
  show ?thesis
  proof (rule coordinator_invI [OF refl], goal_cases)
    case (4 k j)
    then show ?case using D(4) [of k j] calls [of k] by (auto split: option.splits)
  next
    case (9 k x)
    then obtain call where call: "map_of (cc_inFlight ?c) k = Some call"
        "x = (if k = key \<and> call_id call = i then call\<lparr>call_waiters := call_waiters call - 1\<rparr> else call)"
      using calls [of k] by (auto split: option.splits)
    then show ?case using D(9) [OF call(1)] pos by (auto simp: count_list_remove1)
  next
    case (10 k j)
    then show ?case using D(10) [of k j] by (auto dest: notin_set_remove1 set_remove1_subset [THEN subsetD])
  qed (use D wf frame in auto)
qed

lemma coordinator_step_inv: "coordinator_step s t \<Longrightarrow> coordinator_inv s \<Longrightarrow> coordinator_inv t"
proof (induction rule: coordinator_step.induct)
  case (refuse key now s e c')
  then obtain rates where "c' = (sys_coordinator s)\<lparr>cc_rates := rates\<rparr>" using begin_Refused by blast
  note c' = this and D = coordinator_invD [OF refuse.prems refl]
  show ?case
  proof (rule coordinator_invI [OF refl], goal_cases)
    case (9 k call)
    then show ?case using D(9) [of k call] c' by simp
  next
    case (10 k i)
    then show ?case using D(10) [of k i] by simp
  qed (use D c' in \<open>auto simp: limits_of_def\<close>)
next
  case (released key i s)
  then show ?case using cancel_inv [of s key i "sys_coordinator s"] by simp
qed (auto intro: start_inv join_inv finish_inv cancel_inv)

interpretation coordinator_sys: step_system "\<lambda>s. s = coordinator_init" coordinator_step coordinator_inv
  by unfold_locales
    (auto simp: coordinator_step_inv, simp add: coordinator_inv_def coordinator_init_def
      newHistoryCaptureCoordinator_def limits_of_def loginCount_def user_running_def
      defaultHistoryProcessCaptures_def defaultHistoryLoginCaptures_def defaultHistoryCaptureWaiters_def)

subsection \<open>The rate limit over time\<close>

text \<open>The captures granted by a sequence of requests, oldest first.\<close>

definition cc_grant :: "historyCaptureCoordinator \<times> (historyCaptureKey \<times> time) list \<Rightarrow> historyCaptureKey \<times> time \<Rightarrow>
    historyCaptureCoordinator \<times> (historyCaptureKey \<times> time) list" where
  "cc_grant = (\<lambda>(c, granted) (key, now).
     case cc_allowLocked key now c of
       (Inr _, c') \<Rightarrow> (c', granted @ [(key, now)]) | (Inl _, c') \<Rightarrow> (c', granted))"

definition cc_grants :: "(historyCaptureKey \<times> time) list \<Rightarrow>
    historyCaptureCoordinator \<times> (historyCaptureKey \<times> time) list" where
  "cc_grants requests = foldl cc_grant (newHistoryCaptureCoordinator, []) requests"

definition granted_times :: "historyCaptureKey \<Rightarrow> (historyCaptureKey \<times> time) list \<Rightarrow> time list" where
  "granted_times key granted = map snd (filter (\<lambda>e. fst e = key) granted)"

definition rate_requests :: "historyCaptureCoordinator \<Rightarrow> historyCaptureKey \<Rightarrow> time list" where
  "rate_requests c key = (case map_of (cc_rates c) key of None \<Rightarrow> [] | Some st \<Rightarrow> hr_requests st)"

definition recent :: "historyCaptureCoordinator \<Rightarrow> time \<Rightarrow> time list \<Rightarrow> time list" where
  "recent c now ts = filter (\<lambda>t. now - cc_window c < t) ts"

definition rate_inv :: "historyCaptureCoordinator \<Rightarrow> (historyCaptureKey \<times> time) list \<Rightarrow> time \<Rightarrow> bool" where
  "rate_inv c granted now \<longleftrightarrow> gm_wf (cc_rates c) \<and> 0 < cc_limit c \<and>
     (\<forall>k st. map_of (cc_rates c) k = Some st \<longrightarrow> (\<forall>t \<in> set (hr_requests st). t \<le> hr_lastSeen st)) \<and>
     (\<forall>k. (\<forall>t \<in> set (granted_times k granted). t \<le> now) \<and>
        (\<forall>n \<ge> now. recent c n (rate_requests c k) = recent c n (granted_times k granted)) \<and>
        (\<forall>T. int (length (filter (\<lambda>t. T - cc_window c < t \<and> t \<le> T) (granted_times k granted))) \<le> cc_limit c))"

lemma rate_invD:
  assumes "rate_inv c granted now"
  shows "gm_wf (cc_rates c)" "0 < cc_limit c"
    "map_of (cc_rates c) k = Some st \<Longrightarrow> t \<in> set (hr_requests st) \<Longrightarrow> t \<le> hr_lastSeen st"
    "t \<in> set (granted_times k granted) \<Longrightarrow> t \<le> now"
    "now \<le> n \<Longrightarrow> recent c n (rate_requests c k) = recent c n (granted_times k granted)"
    "int (length (filter (\<lambda>t. T - cc_window c < t \<and> t \<le> T) (granted_times k granted))) \<le> cc_limit c"
  using assms unfolding rate_inv_def by blast+

lemma granted_times_snoc:
  "granted_times k (granted @ [(key, now)]) = granted_times k granted @ (if k = key then [now] else [])"
  by (simp add: granted_times_def)

lemma recent_recent: "now \<le> n \<Longrightarrow> recent c n (recent c now ts) = recent c n ts"
  unfolding recent_def by (auto intro!: filter_cong)

lemma recent_append: "recent c n (xs @ ys) = recent c n xs @ recent c n ys" "recent c n [] = []"
  by (simp_all add: recent_def)

text \<open>A grant keeps every window within the limit.\<close>

lemma window_grant:
  fixes ts :: "int list"
  assumes "\<And>t. t \<in> set ts \<Longrightarrow> t \<le> now" "int (length (filter (\<lambda>t. now - w < t) ts)) < lim"
    and "\<And>T. int (length (filter (\<lambda>t. T - w < t \<and> t \<le> T) ts)) \<le> lim"
  shows "int (length (filter (\<lambda>t. T - w < t \<and> t \<le> T) (ts @ [now]))) \<le> (lim::int)"
proof (cases "now \<le> T")
  case True
  have "length (filter (\<lambda>t. T - w < t \<and> t \<le> T) ts) \<le> length (filter (\<lambda>t. now - w < t) ts)"
    using True by (induction ts) auto
  then show ?thesis using assms(2) by auto
next
  case False
  then show ?thesis using assms(3) [of T] by simp
qed

lemma allow_rate_inv:
  assumes inv: "rate_inv c granted now0" and le: "now0 \<le> now"
    and grant: "cc_grant (c, granted) (key, now) = (c', granted')"
  shows "rate_inv c' granted' now \<and> cc_window c' = cc_window c \<and> cc_limit c' = cc_limit c"
proof -
  note D = rate_invD [OF inv]
  let ?cut = "now - cc_window c"
  define rates where "rates = gm_drop (\<lambda>_ state. hr_lastSeen state < ?cut) (cc_rates c)"
  define c1 where "c1 = c\<lparr>cc_rates := rates\<rparr>"
  have wf: "gm_wf rates" using D(1) by (simp add: rates_def gm_wf_drop)
  have lookup: "map_of rates k = (case map_of (cc_rates c) k of None \<Rightarrow> None
      | Some st \<Rightarrow> if hr_lastSeen st < ?cut then None else Some st)" for k
    using D(1) by (simp add: rates_def gm_drop_map_of)
  have old: "recent c n (rate_requests c1 k) = recent c n (granted_times k granted)" if "now \<le> n" for n k
  proof -
    have "recent c n (hr_requests st) = []"
      if "map_of (cc_rates c) k = Some st" "hr_lastSeen st < ?cut" for st
      using D(3) [OF that(1)] that(2) \<open>now \<le> n\<close> unfolding recent_def
      by (fastforce simp: filter_empty_conv)
    then have "recent c n (rate_requests c1 k) = recent c n (rate_requests c k)"
      using lookup [of k] by (auto simp: rate_requests_def c1_def recent_def split: option.splits)
    then show ?thesis using D(5) [of n k] that le by simp
  qed
  have base: "rate_inv c1 granted now"
    unfolding rate_inv_def
  proof (intro conjI allI impI ballI)
    fix k st t assume "map_of (cc_rates c1) k = Some st" "t \<in> set (hr_requests st)"
    then show "t \<le> hr_lastSeen st"
      using lookup [of k] D(3) [of k st t] by (auto simp: c1_def split: option.splits if_splits)
  next
    fix k t assume "t \<in> set (granted_times k granted)"
    then show "t \<le> now" using D(4) le by fastforce
  qed (use D wf old in \<open>auto simp: c1_def recent_def rate_requests_def\<close>)
  let ?kept = "recent c now (rate_requests c1 key)"
  have kept: "?kept = recent c now (granted_times key granted)" using old by simp
  define put where "put = (\<lambda>ts. c\<lparr>cc_rates := gm_put key \<lparr>hr_requests = ts, hr_lastSeen = now\<rparr> rates\<rparr>)"
  have lookup_put: "rate_requests (put ts) k = (if k = key then ts else rate_requests c1 k)" for ts k
    by (simp add: rate_requests_def put_def c1_def gm_simps)
  have recent_put: "recent (put ts) n xs = recent c n xs" for ts n xs
    by (simp add: recent_def put_def)
  have put_inv: "rate_inv (put (?kept @ xs)) (granted @ map (Pair key) xs) now"
    if "xs = [] \<or> xs = [now] \<and> int (length ?kept) < cc_limit c" for xs
  proof -
    have times: "granted_times k (granted @ map (Pair key) xs) =
        granted_times k granted @ (if k = key then xs else [])" for k
      using that by (auto simp: granted_times_def)
    have le_now: "t \<le> now" if "t \<in> set (granted_times k granted)" for t k
      using rate_invD(4) [OF base that] .
    have kept_le: "t \<le> now" if "t \<in> set ?kept" for t using that unfolding kept by (auto simp: recent_def le_now)
    show ?thesis
      unfolding rate_inv_def
    proof (intro conjI allI impI ballI)
      fix k st t assume "map_of (cc_rates (put (?kept @ xs))) k = Some st" "t \<in> set (hr_requests st)"
      then show "t \<le> hr_lastSeen st"
        using rate_invD(3) [OF base, of k st t] kept_le that
        by (auto simp: put_def c1_def gm_simps split: if_splits)
    next
      fix k t assume "t \<in> set (granted_times k (granted @ map (Pair key) xs))"
      then show "t \<le> now" using le_now that by (auto simp: times split: if_splits)
    next
      fix k n assume "now \<le> n"
      then show "recent (put (?kept @ xs)) n (rate_requests (put (?kept @ xs)) k) =
          recent (put (?kept @ xs)) n (granted_times k (granted @ map (Pair key) xs))"
        using old [of n k] recent_recent [of now n c "granted_times key granted"]
        unfolding recent_put lookup_put times kept by (simp add: recent_append)
    next
      fix k T
      show "int (length (filter (\<lambda>t. T - cc_window (put (?kept @ xs)) < t \<and> t \<le> T)
          (granted_times k (granted @ map (Pair key) xs)))) \<le> cc_limit (put (?kept @ xs))"
        using that window_grant [of "granted_times key granted" now "cc_window c" "cc_limit c" T]
          le_now rate_invD(6) [OF base] kept
        by (auto simp: times put_def c1_def recent_def)
    qed (use D wf in \<open>auto simp: put_def gm_wf_put\<close>)
  qed
  have req: "filter (\<lambda>requested. ?cut < requested) (hr_requests (case map_of rates key of
      None \<Rightarrow> \<lparr>hr_requests = [], hr_lastSeen = zero_time\<rparr> | Some st \<Rightarrow> st)) = ?kept"
    by (simp add: recent_def rate_requests_def c1_def split: option.split)
  have "(c', granted') \<in> {(c1, granted), (put (?kept @ []), granted @ map (Pair key) [])} \<or>
      (c', granted') = (put (?kept @ [now]), granted @ map (Pair key) [now]) \<and> int (length ?kept) < cc_limit c"
    using grant unfolding cc_grant_def cc_allowLocked_def Let_def rates_def [symmetric] case_prod_conv req
    by (auto simp: put_def c1_def split: if_splits)
  then show ?thesis
    using base put_inv [of "[]"] put_inv [of "[now]"] by (auto simp: put_def c1_def)
qed

lemma grants_rate_inv:
  assumes "sorted (map snd requests)" "cc_grants requests = (c, granted)"
  shows "cc_window c = minute \<and> cc_limit c = 6 \<and>
     (\<forall>now. (\<forall>e \<in> set requests. snd e \<le> now) \<longrightarrow> rate_inv c granted now)"
  using assms
proof (induction requests arbitrary: c granted rule: rev_induct)
  case Nil
  then show ?case
    by (auto simp: cc_grants_def rate_inv_def newHistoryCaptureCoordinator_def granted_times_def
        rate_requests_def recent_def defaultHistoryCreateLimit_def defaultHistoryCreateWindow_def)
next
  case (snoc e requests)
  obtain key now where e: "e = (key, now)" by fastforce
  obtain c0 g0 where r: "cc_grants requests = (c0, g0)" by fastforce
  have "\<forall>x \<in> set requests. snd x \<le> now" "sorted (map snd requests)"
    using snoc.prems(1) e by (auto simp: sorted_append)
  then have IH: "cc_window c0 = minute" "cc_limit c0 = 6" "rate_inv c0 g0 now"
    using snoc.IH [OF _ r] by auto
  have g: "cc_grant (c0, g0) (key, now) = (c, granted)"
    using snoc.prems(2) r e by (simp add: cc_grants_def)
  have step: "rate_inv c granted now' \<and> cc_window c = minute \<and> cc_limit c = 6" if "now \<le> now'" for now'
  proof -
    have "rate_inv c granted now" "cc_window c = minute" "cc_limit c = 6"
      using allow_rate_inv [OF IH(3) order_refl g] IH by auto
    moreover from this(1) that have "rate_inv c granted now'"
      unfolding rate_inv_def by (meson order_trans)
    ultimately show ?thesis by blast
  qed
  show ?case using step [of now] step e by auto
qed

subsection \<open>Properties\<close>

text \<open>
  C17. In every interleaving of requests, captures, waits and cancellations: at most one capture runs
  per key, at most four in the process and two per login; the counters are exactly the numbers of
  running captures; and every call in flight counts exactly the requests that wait for it, at most
  eight.
\<close>

theorem capture_concurrency:
  assumes "coordinator_step\<^sup>*\<^sup>* coordinator_init s"
  shows "distinct (map fst (sys_running s)) \<and> length (sys_running s) \<le> 4 \<and>
     cc_activeCaptures (sys_coordinator s) = int (length (sys_running s)) \<and>
     user_running u (sys_running s) \<le> 2 \<and>
     loginCount (sys_coordinator s) u = int (user_running u (sys_running s)) \<and>
     ((k, i) \<in> set (sys_running s) \<longleftrightarrow>
        (\<exists>call. map_of (cc_inFlight (sys_coordinator s)) k = Some call \<and> call_id call = i \<and>
           call_waiters call = int (count_list (sys_waiting s) (k, i)) \<and> call_waiters call \<le> 8))"
proof -
  have "coordinator_inv s" using coordinator_sys.inv_reachable [OF refl assms] .
  note D = coordinator_invD [OF this refl]
  have "(k, i) \<in> set (sys_running s) \<longleftrightarrow>
      (\<exists>call. map_of (cc_inFlight (sys_coordinator s)) k = Some call \<and> call_id call = i \<and>
         call_waiters call = int (count_list (sys_waiting s) (k, i)) \<and> call_waiters call \<le> 8)"
    unfolding D(4) using D(9) [of k] by blast
  then show ?thesis using D(3,5,6) D(7,8) [of u] by blast
qed

definition demo_key :: historyCaptureKey where
  "demo_key = \<lparr>ck_User = ''u'', ck_Viewer = [], ck_SessionRef = [], ck_PaneRef = [], ck_Generation = zero_generation, ck_Mode = []\<rparr>"

theorem capture_concurrency_witness:
  "\<exists>s. coordinator_step\<^sup>*\<^sup>* coordinator_init s \<and> sys_running s = [(demo_key, 0)] \<and>
     cc_activeCaptures (sys_coordinator s) = 1"
proof -
  let ?c = "newHistoryCaptureCoordinator"
  have "fst (cc_begin demo_key 5 0 ?c) = Started 0"
    by (simp add: cc_begin_def newHistoryCaptureCoordinator_def defaultHistoryProcessCaptures_def
        defaultHistoryLoginCaptures_def loginCount_def cc_allowLocked_def gm_drop_def Let_def
        defaultHistoryRateScopes_def defaultHistoryCreateLimit_def)
  then obtain c' where "cc_begin demo_key 5 0 ?c = (Started 0, c')" by (metis prod.collapse)
  then have "coordinator_step coordinator_init
      (coordinator_init\<lparr>sys_coordinator := c', sys_running := [(demo_key, 0)], sys_next := 1\<rparr>)"
    using coordinator_step.start [of demo_key 5 coordinator_init 0 c'] by (simp add: coordinator_init_def)
  then have steps: "coordinator_step\<^sup>*\<^sup>* coordinator_init
      (coordinator_init\<lparr>sys_coordinator := c', sys_running := [(demo_key, 0)], sys_next := 1\<rparr>)"
    by (rule r_into_rtranclp)
  from capture_concurrency [OF this] steps show ?thesis by auto
qed

text \<open>
  The rate limit holds for every window of time: for requests at non-decreasing times, in any one
  minute, wherever it lies, at most six captures of the same key are granted, although entries are
  pruned and rewritten at every request.
\<close>

theorem capture_rate_limit:
  assumes "sorted (map snd requests)" "cc_grants requests = (c, granted)"
  shows "length (filter (\<lambda>t. T - minute < t \<and> t \<le> T) (granted_times key granted)) \<le> 6"
proof -
  obtain now where "\<forall>e \<in> set requests. snd e \<le> now"
    by (metis (no_types) List.finite_set finite_imageI imageI infinite_growing linorder_not_less Max_ge)
  then have "rate_inv c granted now" "cc_window c = minute" "cc_limit c = 6"
    using grants_rate_inv [OF assms] by auto
  then show ?thesis using rate_invD(6) [of c granted now T key] by simp
qed

theorem capture_rate_limit_witness:
  "length (filter (\<lambda>t. 3 - minute < t \<and> t \<le> 3)
     (granted_times demo_key (snd (cc_grants [(demo_key, 1), (demo_key, 2), (demo_key, 3)])))) \<le> 6"
  using capture_rate_limit [of "[(demo_key, 1), (demo_key, 2), (demo_key, 3)]"
      "fst (cc_grants [(demo_key, 1), (demo_key, 2), (demo_key, 3)])"
      "snd (cc_grants [(demo_key, 1), (demo_key, 2), (demo_key, 3)])" 3 demo_key] by simp

end
