(* ===== verification/Snapshot_Manager.thy ===== *)
theory Snapshot_Manager
  imports Capture_Coordinator
begin

section \<open>History snapshots\<close>

text \<open>
  \<^verbatim>\<open>internal/server/snapshot_manager.go\<close>: captured histories held in memory for one viewer each and
  handed out in pages, newest first. The page size and the memory estimate are lengths of the JSON
  encoding of a line, so the encoder of \<^verbatim>\<open>encoding/json\<close> for these types is modelled in full; it has no
  error for them. Each operation takes the time where the code calls \<open>m.now()\<close> and the random bytes
  of the identifiers it may create.

  The lemmas show that the accounting is exact and the limits hold after every history of calls, that
  a snapshot is served only to its owner, that a purge leaves nothing behind, and that following the
  cursors yields every line exactly once.
\<close>

subsection \<open>JSON\<close>

definition json_escape :: "char \<Rightarrow> string" where
  "json_escape c =
     (if c = CHR 0x22 \<or> c = CHR 0x5C then [CHR 0x5C, c]
      else if c = CHR 0x08 then [CHR 0x5C, CHR ''b'']
      else if c = CHR 0x0C then [CHR 0x5C, CHR ''f'']
      else if c = CHR 0x0A then [CHR 0x5C, CHR ''n'']
      else if c = CHR 0x0D then [CHR 0x5C, CHR ''r'']
      else if c = CHR 0x09 then [CHR 0x5C, CHR ''t'']
      else if byte c < 0x20 \<or> c = CHR ''<'' \<or> c = CHR ''>'' \<or> c = CHR ''&''
        then [CHR 0x5C, CHR ''u'', CHR ''0'', CHR ''0''] @ hex2 (byte c)
      else [c])"

function json_body :: "string \<Rightarrow> string" where
  "json_body s =
     (if s = [] then []
      else if byte (hd s) < 128 then json_escape (hd s) @ json_body (tl s)
      else (if decode_rune s = (rune_error, 1) then [CHR 0x5C] @ ''ufffd''
            else if fst (decode_rune s) = 0x2028 then [CHR 0x5C] @ ''u2028''
            else if fst (decode_rune s) = 0x2029 then [CHR 0x5C] @ ''u2029''
            else take (snd (decode_rune s)) s) @ json_body (drop (snd (decode_rune s)) s))"
  by pat_completeness auto
termination
  using decode_rune_size by (relation "measure length") (auto simp: Suc_le_eq)

declare json_body.simps [simp del]

definition json_string :: "string \<Rightarrow> string" where
  "json_string s = [CHR 0x22] @ json_body s @ [CHR 0x22]"

definition json_object :: "(string \<times> string) list \<Rightarrow> string" where
  "json_object members = ''{'' @ join (map (\<lambda>(k, v). json_string k @ '':'' @ v) members) '','' @ ''}''"

definition omitempty :: "bool \<Rightarrow> string \<Rightarrow> (string \<times> string) list" where
  "omitempty b k = (if b then [(k, ''true'')] else [])"

definition json_style :: "historyStyle \<Rightarrow> string" where
  "json_style s = json_object
     ((if Foreground s = [] then [] else [(''foreground'', json_string (Foreground s))]) @
      (if Background s = [] then [] else [(''background'', json_string (Background s))]) @
      omitempty (Bold s) ''bold'' @ omitempty (Faint s) ''faint'' @ omitempty (Italic s) ''italic'' @
      omitempty (Underline s) ''underline'' @ omitempty (Inverse s) ''inverse'' @ omitempty (Strike s) ''strike'')"

definition json_run :: "historyRun \<Rightarrow> string" where
  "json_run r = json_object ((''text'', json_string (Text r)) #
     (case Style r of None \<Rightarrow> [] | Some s \<Rightarrow> [(''style'', json_style s)]))"

definition json_line :: "historyLine \<Rightarrow> string" where
  "json_line l = json_object ((''runs'', ''['' @ join (map json_run (Runs l)) '','' @ '']'') #
     omitempty (BidiWarning l) ''bidiWarning'')"

subsection \<open>State\<close>

definition defaultSnapshotIdleTTL :: duration where "defaultSnapshotIdleTTL = 10 * minute"
definition defaultSnapshotsPerViewer :: int where "defaultSnapshotsPerViewer = 2"
definition defaultSnapshotsPerUser :: int where "defaultSnapshotsPerUser = 8"
definition defaultSnapshotsPerProcess :: int where "defaultSnapshotsPerProcess = 32"
definition defaultSnapshotProcessMaxBytes :: int where "defaultSnapshotProcessMaxBytes = 128 * 1024 * 1024"
definition defaultSnapshotProcessMaxNodes :: int where "defaultSnapshotProcessMaxNodes = 1000000"
definition defaultHistoryPageMaxLines :: int where "defaultHistoryPageMaxLines = 3000"
definition defaultHistoryPageMaxBytes :: int where "defaultHistoryPageMaxBytes = 2 * 1024 * 1024"
definition historyPageEnvelopeMaxBytes :: int where "historyPageEnvelopeMaxBytes = 512"

datatype snapshotError =
    errSnapshotGone
  | errSnapshotNotFound
  | errSnapshotCapacity
  | errSnapshotCursor
  | errSnapshotResourceLimit

definition historySnapshotIDExpr :: "string \<Rightarrow> bool" where
  "historySnapshotIDExpr = match_prefixed ''hs_'' is_url64 16 96"

record snapshotManagerConfig =
  sc_IdleTTL :: duration
  sc_PerViewer :: int
  sc_PerUser :: int
  sc_PerProcess :: int
  sc_ProcessMaxBytes :: int
  sc_ProcessMaxNodes :: int
  sc_PageMaxLines :: int
  sc_PageMaxBytes :: int

record snapshotBinding =
  sb_SessionRef :: SessionRef
  sb_PaneRef :: PaneRef
  sb_Generation :: PaneGeneration
  sb_OutputEpoch :: int
  sb_HistoryBytes :: int

record snapshotCreate =
  cr_User :: string
  cr_Viewer :: ViewerID
  cr_SessionRef :: SessionRef
  cr_PaneRef :: PaneRef
  cr_Generation :: PaneGeneration
  cr_Mode :: string
  cr_Capture :: HistoryCapture
  cr_Lines :: "historyLine list"
  cr_NodeEstimate :: int

record historySnapshot =
  sn_ID :: string
  sn_User :: string
  sn_Viewer :: ViewerID
  sn_Binding :: snapshotBinding
  sn_Mode :: string
  sn_Capture :: HistoryCapture
  sn_Lines :: "historyLine list"
  sn_Memory :: int
  sn_Nodes :: int
  sn_LastAccess :: time
  sn_cursors :: "(string, nat) gomap"
  sn_cursorByBefore :: "(nat, string) gomap"

record historyPageResponse =
  pg_SnapshotID :: string
  pg_Mode :: string
  pg_Columns :: int
  pg_Rows :: int
  pg_HistorySize :: int
  pg_HistoryLimit :: int
  pg_AlternateScreen :: bool
  pg_OutputEpoch :: int
  pg_FollowedByOutput :: bool
  pg_Lines :: "historyLine list"
  pg_Before :: string
  pg_HasMore :: bool

definition json_bool :: "bool \<Rightarrow> string" where
  "json_bool b = (if b then ''true'' else ''false'')"

definition json_page :: "historyPageResponse \<Rightarrow> string" where
  "json_page p = json_object (
     [(''snapshotId'', json_string (pg_SnapshotID p)), (''mode'', json_string (pg_Mode p)),
      (''columns'', itoa (pg_Columns p)), (''rows'', itoa (pg_Rows p)),
      (''historySize'', itoa (pg_HistorySize p)), (''historyLimit'', itoa (pg_HistoryLimit p)),
      (''alternateScreen'', json_bool (pg_AlternateScreen p)), (''outputEpoch'', itoa (pg_OutputEpoch p)),
      (''followedByOutput'', json_bool (pg_FollowedByOutput p)),
      (''lines'', ''['' @ join (map json_line (pg_Lines p)) '','' @ '']'')] @
     (if pg_Before p = [] then [] else [(''before'', json_string (pg_Before p))]) @
     [(''hasMore'', json_bool (pg_HasMore p))])"

record snapshotManager =
  sm_config :: snapshotManagerConfig
  sm_snapshots :: "(string, historySnapshot) gomap"
  sm_memoryUsed :: int
  sm_nodesUsed :: int

definition positiveOr :: "int \<Rightarrow> int \<Rightarrow> int" where
  "positiveOr v deflt = (if v \<le> 0 then deflt else v)"

definition newSnapshotManager :: "snapshotManagerConfig \<Rightarrow> snapshotManager" where
  "newSnapshotManager config =
     \<lparr>sm_config =
       \<lparr>sc_IdleTTL = positiveOr (sc_IdleTTL config) defaultSnapshotIdleTTL,
        sc_PerViewer = positiveOr (sc_PerViewer config) defaultSnapshotsPerViewer,
        sc_PerUser = positiveOr (sc_PerUser config) defaultSnapshotsPerUser,
        sc_PerProcess = positiveOr (sc_PerProcess config) defaultSnapshotsPerProcess,
        sc_ProcessMaxBytes = positiveOr (sc_ProcessMaxBytes config) defaultSnapshotProcessMaxBytes,
        sc_ProcessMaxNodes = positiveOr (sc_ProcessMaxNodes config) defaultSnapshotProcessMaxNodes,
        sc_PageMaxLines = positiveOr (sc_PageMaxLines config) defaultHistoryPageMaxLines,
        sc_PageMaxBytes = positiveOr (sc_PageMaxBytes config) defaultHistoryPageMaxBytes\<rparr>,
      sm_snapshots = [], sm_memoryUsed = 0, sm_nodesUsed = 0\<rparr>"

subsection \<open>Operations\<close>

definition newHistoryOpaqueID :: "string \<Rightarrow> string \<Rightarrow> string" where
  "newHistoryOpaqueID prefix random = prefix @ ''_'' @ b64_encode random"

interpretation history_id: opaque_id "newHistoryOpaqueID p" "p @ ''_''" 24 for p
  by unfold_locales (simp add: newHistoryOpaqueID_def)

fun estimateSnapshotMemory :: "historyLine list \<Rightarrow> int \<Rightarrow> snapshotError + int" where
  "estimateSnapshotMemory [] pageMaxBytes = Inr 0"
| "estimateSnapshotMemory (line # lines) pageMaxBytes =
     (let encoded = int (length (json_line line)) in
      if encoded + historyPageEnvelopeMaxBytes > pageMaxBytes then Inl errSnapshotResourceLimit
      else bindR (estimateSnapshotMemory lines pageMaxBytes) (\<lambda>memory.
        Inr (encoded + 32 + (\<Sum>run \<leftarrow> Runs line. int (length (Text run)) + 96) + memory)))"

definition sm_deleteLocked :: "string \<Rightarrow> snapshotManager \<Rightarrow> snapshotManager" where
  "sm_deleteLocked sid m =
     (case map_of (sm_snapshots m) sid of
        None \<Rightarrow> m
      | Some snapshot \<Rightarrow>
          m\<lparr>sm_memoryUsed := sm_memoryUsed m - sn_Memory snapshot,
            sm_nodesUsed := sm_nodesUsed m - sn_Nodes snapshot,
            sm_snapshots := gm_del sid (sm_snapshots m)\<rparr>)"

text \<open>The loop \<^verbatim>\<open>for id, snapshot := range m.snapshots { if P { m.deleteLocked(id) } }\<close>.\<close>

definition sm_deleteWhere :: "(historySnapshot \<Rightarrow> bool) \<Rightarrow> snapshotManager \<Rightarrow> snapshotManager" where
  "sm_deleteWhere P m =
     foldl (\<lambda>m sid. sm_deleteLocked sid m) m (map fst (filter (\<lambda>e. P (snd e)) (sm_snapshots m)))"

definition sm_pruneLocked :: "time \<Rightarrow> snapshotManager \<Rightarrow> snapshotManager" where
  "sm_pruneLocked now m =
     (let deadline = now - sc_IdleTTL (sm_config m) in
      sm_deleteWhere (\<lambda>snapshot. sn_LastAccess snapshot < deadline) m)"

definition sm_DeleteUser :: "string \<Rightarrow> snapshotManager \<Rightarrow> snapshotManager" where
  "sm_DeleteUser user m = sm_deleteWhere (\<lambda>snapshot. sn_User snapshot = user) m"

definition sm_DeleteSession :: "SessionRef \<Rightarrow> snapshotManager \<Rightarrow> snapshotManager" where
  "sm_DeleteSession ref m = sm_deleteWhere (\<lambda>snapshot. sb_SessionRef (sn_Binding snapshot) = ref) m"

definition sm_authorizedLocked :: "string \<Rightarrow> string \<Rightarrow> ViewerID \<Rightarrow> time \<Rightarrow> snapshotManager \<Rightarrow>
    (snapshotError + historySnapshot) \<times> snapshotManager" where
  "sm_authorizedLocked sid user viewer now m0 =
     (if \<not> historySnapshotIDExpr sid then (Inl errSnapshotNotFound, m0)
      else
        let m = sm_pruneLocked now m0 in
        case map_of (sm_snapshots m) sid of
          None \<Rightarrow> (Inl errSnapshotGone, m)
        | Some snapshot \<Rightarrow>
            if sn_User snapshot \<noteq> user \<or> sn_Viewer snapshot \<noteq> viewer then (Inl errSnapshotNotFound, m)
            else
              let snapshot' = snapshot\<lparr>sn_LastAccess := now\<rparr> in
              (Inr snapshot', m\<lparr>sm_snapshots := gm_put sid snapshot' (sm_snapshots m)\<rparr>))"

definition cloneHistoryLines :: "historyLine list \<Rightarrow> historyLine list" where
  "cloneHistoryLines lines =
     map (\<lambda>line. \<lparr>Runs = map (\<lambda>run. \<lparr>Text = Text run, Style = map_option (\<lambda>style. style) (Style run)\<rparr>) (Runs line),
       BidiWarning = BidiWarning line\<rparr>) lines"

text \<open>
  The loop that moves \<^verbatim>\<open>start\<close> back from \<^verbatim>\<open>before\<close>: \<open>rev_lines\<close> are the lines before \<^verbatim>\<open>start\<close>, last first,
  \<open>taken\<close> is \<^verbatim>\<open>before-start\<close>. The result is the number of lines of the page.
\<close>

fun pageLines :: "snapshotManagerConfig \<Rightarrow> historyLine list \<Rightarrow> nat \<Rightarrow> int \<Rightarrow> nat" where
  "pageLines config [] taken bytes = taken"
| "pageLines config (line # rev_lines) taken bytes =
     (if \<not> int taken < sc_PageMaxLines config then taken
      else
        let encoded = int (length (json_line line)) in
        if taken > 0 \<and> bytes + encoded + 1 > sc_PageMaxBytes config then taken
        else pageLines config rev_lines (Suc taken) (bytes + encoded + 1))"

definition sm_pageLocked :: "snapshotManagerConfig \<Rightarrow> historySnapshot \<Rightarrow> string \<Rightarrow> string \<Rightarrow>
    (snapshotError + historyPageResponse) \<times> historySnapshot" where
  "sm_pageLocked config snapshot cursor random =
     (case (if cursor = [] then Some (length (sn_Lines snapshot)) else map_of (sn_cursors snapshot) cursor) of
        None \<Rightarrow> (Inl errSnapshotCursor, snapshot)
      | Some before \<Rightarrow>
          let start = before - pageLines config (rev (take before (sn_Lines snapshot))) 0 historyPageEnvelopeMaxBytes in
          if start = before \<and> start > 0 then (Inl errSnapshotResourceLimit, snapshot)
          else
            let known = (case map_of (sn_cursorByBefore snapshot) start of None \<Rightarrow> [] | Some c \<Rightarrow> c);
                fresh = newHistoryOpaqueID ''hc'' random;
                (nextCursor, snapshot') =
                  (if start > 0 then
                     (if known = [] then
                        (fresh, snapshot\<lparr>sn_cursorByBefore := gm_put start fresh (sn_cursorByBefore snapshot),
                           sn_cursors := gm_put fresh start (sn_cursors snapshot)\<rparr>)
                      else (known, snapshot))
                   else ([], snapshot));
                beforeMeta = hc_Before (sn_Capture snapshot);
                afterMeta = hc_After (sn_Capture snapshot) in
            (Inr \<lparr>pg_SnapshotID = sn_ID snapshot, pg_Mode = sn_Mode snapshot, pg_Columns = Columns beforeMeta,
               pg_Rows = Rows beforeMeta, pg_HistorySize = HistorySize beforeMeta,
               pg_HistoryLimit = HistoryLimit beforeMeta, pg_AlternateScreen = AlternateScreen beforeMeta,
               pg_OutputEpoch = OutputEpoch afterMeta,
               pg_FollowedByOutput = (OutputEpoch afterMeta \<noteq> OutputEpoch beforeMeta \<or>
                 HistoryBytes afterMeta \<noteq> HistoryBytes beforeMeta),
               pg_Lines = cloneHistoryLines (drop start (take before (sn_Lines snapshot))),
               pg_Before = nextCursor, pg_HasMore = (start > 0)\<rparr>, snapshot'))"

text \<open>The snapshot \<^verbatim>\<open>Create\<close> stores; its capture is kept without the text.\<close>

definition storedSnapshot :: "snapshotCreate \<Rightarrow> string \<Rightarrow> int \<Rightarrow> int \<Rightarrow> time \<Rightarrow> historySnapshot" where
  "storedSnapshot request sid memory nodes now =
     (let after = hc_After (cr_Capture request) in
      \<lparr>sn_ID = sid, sn_User = cr_User request, sn_Viewer = cr_Viewer request,
       sn_Binding = \<lparr>sb_SessionRef = cr_SessionRef request, sb_PaneRef = cr_PaneRef request,
         sb_Generation = cr_Generation request, sb_OutputEpoch = OutputEpoch after,
         sb_HistoryBytes = HistoryBytes after\<rparr>,
       sn_Mode = cr_Mode request, sn_Capture = (cr_Capture request)\<lparr>hc_Text := []\<rparr>,
       sn_Lines = cr_Lines request, sn_Memory = memory, sn_Nodes = nodes, sn_LastAccess = now,
       sn_cursors = [], sn_cursorByBefore = []\<rparr>)"

definition sm_Create :: "snapshotCreate \<Rightarrow> time \<Rightarrow> string \<Rightarrow> string \<Rightarrow> snapshotManager \<Rightarrow>
    (snapshotError + historyPageResponse) \<times> snapshotManager" where
  "sm_Create request now randomID randomCursor m0 =
     (if cr_User request = [] \<or> \<not> viewerIDPattern (cr_Viewer request) \<or> cr_SessionRef request = [] \<or>
         cr_PaneRef request = [] then (Inl errSnapshotNotFound, m0)
      else case estimateSnapshotMemory (cr_Lines request) (sc_PageMaxBytes (sm_config m0)) of
          Inl err \<Rightarrow> (Inl err, m0)
        | Inr memory \<Rightarrow>
          (let actualNodes = historyNodeEstimate (cr_Lines request);
               nodes = (if cr_NodeEstimate request = 0 then actualNodes else cr_NodeEstimate request) in
           if nodes < 0 \<or> nodes \<noteq> actualNodes then (Inl errSnapshotResourceLimit, m0)
           else
             let m = sm_pruneLocked now m0; config = sm_config m;
                 userCount = gm_count (\<lambda>s. sn_User s = cr_User request) (sm_snapshots m);
                 viewerCount = gm_count (\<lambda>s. sn_User s = cr_User request \<and> sn_Viewer s = cr_Viewer request) (sm_snapshots m) in
             if int viewerCount \<ge> sc_PerViewer config \<or> int userCount \<ge> sc_PerUser config \<or>
                int (length (sm_snapshots m)) \<ge> sc_PerProcess config \<or>
                memory > sc_ProcessMaxBytes config - sm_memoryUsed m \<or>
                nodes > sc_ProcessMaxNodes config - sm_nodesUsed m
             then (Inl errSnapshotCapacity, m)
             else
               let sid = newHistoryOpaqueID ''hs'' randomID;
                   snapshot = storedSnapshot request sid memory nodes now;
                   (r, snapshot') = sm_pageLocked config snapshot [] randomCursor in
               (r, m\<lparr>sm_snapshots := gm_put sid snapshot' (sm_snapshots m),
                     sm_memoryUsed := sm_memoryUsed m + memory, sm_nodesUsed := sm_nodesUsed m + nodes\<rparr>)))"

definition sm_Binding :: "string \<Rightarrow> string \<Rightarrow> ViewerID \<Rightarrow> time \<Rightarrow> snapshotManager \<Rightarrow>
    (snapshotError + snapshotBinding) \<times> snapshotManager" where
  "sm_Binding sid user viewer now m0 =
     (case sm_authorizedLocked sid user viewer now m0 of
        (Inl err, m) \<Rightarrow> (Inl err, m) | (Inr snapshot, m) \<Rightarrow> (Inr (sn_Binding snapshot), m))"

definition sm_Page :: "string \<Rightarrow> string \<Rightarrow> string \<Rightarrow> ViewerID \<Rightarrow> time \<Rightarrow> string \<Rightarrow> snapshotManager \<Rightarrow>
    (snapshotError + historyPageResponse) \<times> snapshotManager" where
  "sm_Page sid cursor user viewer now random m0 =
     (case sm_authorizedLocked sid user viewer now m0 of
        (Inl err, m) \<Rightarrow> (Inl err, m)
      | (Inr snapshot, m) \<Rightarrow>
          (case sm_pageLocked (sm_config m) snapshot cursor random of
             (r, snapshot') \<Rightarrow> (r, m\<lparr>sm_snapshots := gm_put sid snapshot' (sm_snapshots m)\<rparr>)))"

definition sm_Delete :: "string \<Rightarrow> string \<Rightarrow> ViewerID \<Rightarrow> time \<Rightarrow> snapshotManager \<Rightarrow>
    (snapshotError + unit) \<times> snapshotManager" where
  "sm_Delete sid user viewer now m0 =
     (case sm_authorizedLocked sid user viewer now m0 of
        (Inl err, m) \<Rightarrow> (Inl err, m)
      | (Inr snapshot, m) \<Rightarrow> (Inr (), sm_deleteLocked (sn_ID snapshot) m))"

subsection \<open>Deletion\<close>

lemma sm_deleteLocked_snapshots [simp]: "sm_snapshots (sm_deleteLocked sid m) = gm_del sid (sm_snapshots m)"
  by (auto simp: sm_deleteLocked_def gm_del_absent split: option.splits)

lemma sm_deleteLocked_config [simp]: "sm_config (sm_deleteLocked sid m) = sm_config m"
  by (simp add: sm_deleteLocked_def split: option.splits)

definition accounted :: "snapshotManager \<Rightarrow> bool" where
  "accounted m \<longleftrightarrow> gm_wf (sm_snapshots m) \<and> sm_memoryUsed m = gm_sum sn_Memory (sm_snapshots m) \<and>
     sm_nodesUsed m = gm_sum sn_Nodes (sm_snapshots m)"

lemma accounted_delete: "accounted m \<Longrightarrow> accounted (sm_deleteLocked sid m)"
  by (auto simp: accounted_def sm_deleteLocked_def gm_wf_del gm_sum_del split: option.splits)

lemma delete_list:
  "sm_snapshots (foldl (\<lambda>m sid. sm_deleteLocked sid m) m sids) = filter (\<lambda>e. fst e \<notin> set sids) (sm_snapshots m)"
  "sm_config (foldl (\<lambda>m sid. sm_deleteLocked sid m) m sids) = sm_config m"
  "accounted m \<Longrightarrow> accounted (foldl (\<lambda>m sid. sm_deleteLocked sid m) m sids)"
  by (induction sids arbitrary: m) (auto simp: gm_del_def accounted_delete intro: filter_cong)

lemma sm_deleteWhere_snapshots:
  assumes "gm_wf (sm_snapshots m)"
  shows "sm_snapshots (sm_deleteWhere P m) = gm_drop (\<lambda>_. P) (sm_snapshots m)"
proof -
  have "v = v'" if "(k, v) \<in> set (sm_snapshots m)" "(k, v') \<in> set (sm_snapshots m)" for k v v'
    using that assms by (simp add: gm_mem_iff)
  then have "fst e \<in> fst ` {e \<in> set (sm_snapshots m). P (snd e)} \<longleftrightarrow> P (snd e)" if "e \<in> set (sm_snapshots m)" for e
    using that by (cases e) (auto simp: image_iff)
  then show ?thesis
    unfolding sm_deleteWhere_def delete_list gm_drop_def by (intro filter_cong [OF refl]) simp
qed

lemma sm_deleteWhere_config [simp]: "sm_config (sm_deleteWhere P m) = sm_config m"
  by (simp add: sm_deleteWhere_def delete_list)

lemma accounted_deleteWhere: "accounted m \<Longrightarrow> accounted (sm_deleteWhere P m)"
  by (simp add: sm_deleteWhere_def delete_list)

interpretation sm_store: purgeable_store sm_snapshots sm_deleteWhere accounted
  by unfold_locales (simp_all add: accounted_deleteWhere, simp_all add: accounted_def sm_deleteWhere_snapshots)

subsection \<open>Pages of a snapshot\<close>

text \<open>A cursor stands for one position, the one position stands for it, and positions are inside the lines.\<close>

definition cursor_inv :: "historySnapshot \<Rightarrow> bool" where
  "cursor_inv s \<longleftrightarrow>
     (\<forall>c b. map_of (sn_cursors s) c = Some b \<longrightarrow> b \<le> length (sn_Lines s)) \<and>
     (\<forall>b c. map_of (sn_cursorByBefore s) b = Some c \<longrightarrow> c \<noteq> [] \<and> map_of (sn_cursors s) c = Some b)"

definition cursor_position :: "historySnapshot \<Rightarrow> string \<Rightarrow> nat option" where
  "cursor_position s cursor = (if cursor = [] then Some (length (sn_Lines s)) else map_of (sn_cursors s) cursor)"

lemma cursor_position_le: "cursor_inv s \<Longrightarrow> cursor_position s c = Some b \<Longrightarrow> b \<le> length (sn_Lines s)"
  by (auto simp: cursor_inv_def cursor_position_def split: if_splits)

definition encoded_bytes :: "historyLine list \<Rightarrow> int" where
  "encoded_bytes lines = (\<Sum>l \<leftarrow> lines. int (length (json_line l)) + 1)"

lemma encoded_bytes_sum: "encoded_bytes ls = int (\<Sum>l \<leftarrow> ls. length (json_line l)) + int (length ls)"
  by (induction ls) (auto simp: encoded_bytes_def)

lemma pageLines_range: "taken \<le> pageLines config ls taken bytes \<and> pageLines config ls taken bytes \<le> taken + length ls"
proof (induction ls arbitrary: taken bytes)
  case (Cons l ls)
  show ?case using Cons.IH [of "Suc taken" "bytes + int (length (json_line l)) + 1"] by (auto simp: Let_def)
qed simp

lemma pageLines_progress:
  "0 < sc_PageMaxLines config \<Longrightarrow> ls \<noteq> [] \<Longrightarrow> 0 < pageLines config ls 0 bytes"
  using pageLines_range [of "Suc 0" config "tl ls"] by (cases ls) (auto simp: Let_def Suc_le_eq)

lemma pageLines_max: "int taken \<le> sc_PageMaxLines config \<Longrightarrow> int (pageLines config ls taken bytes) \<le> sc_PageMaxLines config"
  by (induction ls arbitrary: taken bytes) (auto simp: Let_def)

lemma pageLines_bytes:
  assumes "taken > 0 \<Longrightarrow> bytes \<le> sc_PageMaxBytes config + 1"
    and "taken = 0 \<Longrightarrow> ls \<noteq> [] \<Longrightarrow> bytes + int (length (json_line (hd ls))) \<le> sc_PageMaxBytes config"
    and "0 < pageLines config ls taken bytes"
  shows "bytes + encoded_bytes (take (pageLines config ls taken bytes - taken) ls) \<le> sc_PageMaxBytes config + 1"
  using assms
proof (induction ls arbitrary: taken bytes)
  case (Cons l ls)
  define b where "b = bytes + int (length (json_line l)) + 1"
  show ?case
  proof (cases "int taken < sc_PageMaxLines config \<and> \<not> (taken > 0 \<and> b > sc_PageMaxBytes config)")
    case True
    then have rec: "pageLines config (l # ls) taken bytes = pageLines config ls (Suc taken) b"
      by (auto simp: b_def Let_def)
    have b: "b \<le> sc_PageMaxBytes config + 1"
      using True Cons.prems(2) by (cases "taken = 0") (auto simp: b_def)
    have ge: "Suc taken \<le> pageLines config ls (Suc taken) b"
      using pageLines_range by blast
    then have "b + encoded_bytes (take (pageLines config ls (Suc taken) b - Suc taken) ls) \<le> sc_PageMaxBytes config + 1"
      using b by (intro Cons.IH) auto
    moreover have "take (pageLines config ls (Suc taken) b - taken) (l # ls) =
        l # take (pageLines config ls (Suc taken) b - Suc taken) ls"
      using ge by (cases "pageLines config ls (Suc taken) b - taken") (auto simp: diff_Suc)
    ultimately show ?thesis unfolding rec by (simp add: encoded_bytes_def b_def)
  next
    case False
    then have "pageLines config (l # ls) taken bytes = taken" by (auto simp: Let_def b_def)
    then show ?thesis using Cons.prems by (simp add: encoded_bytes_def)
  qed
qed (auto simp: encoded_bytes_def)

lemma cloneHistoryLines_id [simp]: "cloneHistoryLines ls = ls"
proof -
  have "(\<lambda>run. \<lparr>Text = Text run, Style = Style run\<rparr>) = (\<lambda>run. run)"
    by (rule ext) (metis (full_types) historyRun.surjective old.unit.exhaust)
  then have "\<lparr>Runs = map (\<lambda>run. \<lparr>Text = Text run, Style = Style run\<rparr>) (Runs l), BidiWarning = BidiWarning l\<rparr> = l" for l
    by (cases l) simp
  then show ?thesis by (simp add: cloneHistoryLines_def option.map_ident)
qed

lemma sm_pageLocked_kept:
  assumes "sm_pageLocked config s cursor random = (r, s')"
  shows "sn_ID s' = sn_ID s" "sn_User s' = sn_User s" "sn_Viewer s' = sn_Viewer s" "sn_Binding s' = sn_Binding s"
    "sn_Lines s' = sn_Lines s" "sn_Memory s' = sn_Memory s" "sn_Nodes s' = sn_Nodes s"
    "sn_LastAccess s' = sn_LastAccess s" "sn_Mode s' = sn_Mode s" "sn_Capture s' = sn_Capture s"
  using assms by (auto simp: sm_pageLocked_def Let_def split: if_splits option.splits)

text \<open>
  A page ends where the cursor stands, takes at least one line while there is one, and its next
  cursor stands where the page starts.
\<close>

definition page_start :: "snapshotManagerConfig \<Rightarrow> historySnapshot \<Rightarrow> nat \<Rightarrow> nat" where
  "page_start config s b = b - pageLines config (rev (take b (sn_Lines s))) 0 historyPageEnvelopeMaxBytes"

definition is_page :: "snapshotManagerConfig \<Rightarrow> historySnapshot \<Rightarrow> nat \<Rightarrow> historyPageResponse \<Rightarrow> historySnapshot \<Rightarrow> bool" where
  "is_page config s b p s' \<longleftrightarrow>
     page_start config s b \<le> b \<and> (0 < b \<longrightarrow> page_start config s b < b) \<and>
     pg_Lines p = drop (page_start config s b) (take b (sn_Lines s)) \<and> pg_HasMore p = (0 < page_start config s b) \<and>
     pg_SnapshotID p = sn_ID s \<and> (page_start config s b = 0 \<longrightarrow> pg_Before p = []) \<and>
     (page_start config s b \<noteq> 0 \<longrightarrow> cursor_position s' (pg_Before p) = Some (page_start config s b))"

lemma newHistoryOpaqueID_nonempty [simp]: "newHistoryOpaqueID p r \<noteq> []"
  by (simp add: newHistoryOpaqueID_def)

lemma sm_pageLocked_page:
  assumes inv: "cursor_inv s" and pos: "cursor_position s cursor = Some b" and max: "0 < sc_PageMaxLines config"
    and fresh: "map_of (sn_cursors s) (newHistoryOpaqueID ''hc'' random) = None"
  obtains p s' where "sm_pageLocked config s cursor random = (Inr p, s')" "is_page config s b p s'" "cursor_inv s'"
proof -
  let ?n = "pageLines config (rev (take b (sn_Lines s))) 0 historyPageEnvelopeMaxBytes"
  have b: "b \<le> length (sn_Lines s)" using inv pos by (rule cursor_position_le)
  then have n: "?n \<le> b"
    using pageLines_range [of 0 config "rev (take b (sn_Lines s))" historyPageEnvelopeMaxBytes] by simp
  have n0: "0 < ?n" if "0 < b"
    using that b max by (intro pageLines_progress) auto
  note cur = pos [unfolded cursor_position_def]
  have known: "c \<noteq> [] \<and> map_of (sn_cursors s) c = Some st" if "map_of (sn_cursorByBefore s) st = Some c" for c st
    using inv that by (auto simp: cursor_inv_def)
  define r where "r = sm_pageLocked config s cursor random"
  have "\<exists>p s'. r = (Inr p, s') \<and> is_page config s b p s' \<and> cursor_inv s'"
  proof (cases "b - ?n = 0")
    case True
    then show ?thesis
      using n0 inv unfolding r_def sm_pageLocked_def is_page_def page_start_def cur
      by (auto simp: Let_def)
  next
    case False
    then have ne: "b - ?n \<noteq> b" using n0 by auto
    show ?thesis
    proof (cases "map_of (sn_cursorByBefore s) (b - ?n)")
      case None
      have "cursor_inv (s\<lparr>sn_cursorByBefore := gm_put (b - ?n) (newHistoryOpaqueID ''hc'' random) (sn_cursorByBefore s),
          sn_cursors := gm_put (newHistoryOpaqueID ''hc'' random) (b - ?n) (sn_cursors s)\<rparr>)"
        using inv fresh b unfolding cursor_inv_def by (auto simp: gm_simps)
      then show ?thesis
        using False ne None unfolding r_def sm_pageLocked_def is_page_def page_start_def cur
        by (auto simp: Let_def cursor_position_def gm_simps)
    next
      case (Some c)
      then show ?thesis
        using False ne known [OF Some] inv unfolding r_def sm_pageLocked_def is_page_def page_start_def cur
        by (auto simp: Let_def cursor_position_def)
    qed
  qed
  then show ?thesis using that by (auto simp: r_def)
qed

subsection \<open>The invariant\<close>

definition snapshot_ok :: "snapshotManagerConfig \<Rightarrow> string \<Rightarrow> historySnapshot \<Rightarrow> bool" where
  "snapshot_ok config sid s \<longleftrightarrow> sn_ID s = sid \<and> cursor_inv s \<and>
     match_prefixed ''hs_'' is_url64 32 32 sid \<and>
     (\<forall>c \<in> dom (map_of (sn_cursors s)). match_prefixed ''hc_'' is_url64 32 32 c) \<and>
     estimateSnapshotMemory (sn_Lines s) (sc_PageMaxBytes config) = Inr (sn_Memory s) \<and>
     historyNodeEstimate (sn_Lines s) = sn_Nodes s"

definition within_limits :: "snapshotManager \<Rightarrow> bool" where
  "within_limits m \<longleftrightarrow>
     sm_memoryUsed m \<le> sc_ProcessMaxBytes (sm_config m) \<and> sm_nodesUsed m \<le> sc_ProcessMaxNodes (sm_config m) \<and>
     int (length (sm_snapshots m)) \<le> sc_PerProcess (sm_config m) \<and>
     (\<forall>u. int (gm_count (\<lambda>s. sn_User s = u) (sm_snapshots m)) \<le> sc_PerUser (sm_config m)) \<and>
     (\<forall>u v. int (gm_count (\<lambda>s. sn_User s = u \<and> sn_Viewer s = v) (sm_snapshots m)) \<le> sc_PerViewer (sm_config m))"

definition snapshot_inv :: "snapshotManager \<Rightarrow> bool" where
  "snapshot_inv m \<longleftrightarrow> accounted m \<and> within_limits m \<and> 0 < sc_PageMaxLines (sm_config m) \<and>
     (\<forall>sid s. map_of (sm_snapshots m) sid = Some s \<longrightarrow> snapshot_ok (sm_config m) sid s)"

lemma snapshot_invD:
  assumes "snapshot_inv m"
  shows "accounted m" "within_limits m" "0 < sc_PageMaxLines (sm_config m)"
    "map_of (sm_snapshots m) sid = Some s \<Longrightarrow> snapshot_ok (sm_config m) sid s" "gm_wf (sm_snapshots m)"
  using assms by (auto simp: snapshot_inv_def accounted_def)

lemma estimate_nonneg: "estimateSnapshotMemory lines n = Inr memory \<Longrightarrow> 0 \<le> memory"
proof (induction lines arbitrary: memory)
  case (Cons line lines)
  have "0 \<le> (\<Sum>run \<leftarrow> Runs line. int (length (Text run)) + 96)" by (intro sum_list_nonneg) auto
  with Cons show ?case by (auto simp: Let_def bindR_def split: if_splits sum.splits)
qed simp

lemma snapshot_ok_nonneg: "snapshot_ok config sid s \<Longrightarrow> 0 \<le> sn_Memory s \<and> 0 \<le> sn_Nodes s"
proof -
  assume ok: "snapshot_ok config sid s"
  have "0 \<le> (\<Sum>l \<leftarrow> sn_Lines s. int (length (Runs l)))" by (intro sum_list_nonneg) auto
  then have "0 \<le> sn_Nodes s" using ok by (simp add: snapshot_ok_def historyNodeEstimate_def)
  then show ?thesis using ok estimate_nonneg by (auto simp: snapshot_ok_def)
qed

lemma within_limits_delete:
  assumes inv: "snapshot_inv m"
  shows "within_limits (sm_deleteLocked sid m)"
proof -
  have cost: "0 \<le> sn_Memory s \<and> 0 \<le> sn_Nodes s" if "map_of (sm_snapshots m) sid = Some s" for s
    using snapshot_ok_nonneg [OF snapshot_invD(4) [OF inv that]] .
  have w: "within_limits m" using inv by (rule snapshot_invD)
  have "sm_memoryUsed (sm_deleteLocked sid m) \<le> sm_memoryUsed m" "sm_nodesUsed (sm_deleteLocked sid m) \<le> sm_nodesUsed m"
    using cost by (auto simp: sm_deleteLocked_def split: option.splits)
  moreover have "int (length (gm_del sid (sm_snapshots m))) \<le> int (length (sm_snapshots m))"
    using gm_del_length by (simp only: of_nat_le_iff)
  moreover have "int (gm_count P (gm_del sid (sm_snapshots m))) \<le> int (gm_count P (sm_snapshots m))" for P
    using gm_count_del by (simp only: of_nat_le_iff)
  ultimately show ?thesis
    using w unfolding within_limits_def by (simp, meson order_trans)
qed

lemma snapshot_inv_delete: "snapshot_inv m \<Longrightarrow> snapshot_inv (sm_deleteLocked sid m)"
  using within_limits_delete [of m sid] accounted_delete [of m sid]
  by (auto simp: snapshot_inv_def gm_simps split: if_splits)

lemma snapshot_inv_deleteWhere: "snapshot_inv m \<Longrightarrow> snapshot_inv (sm_deleteWhere P m)"
proof -
  have "snapshot_inv m \<Longrightarrow> snapshot_inv (foldl (\<lambda>m sid. sm_deleteLocked sid m) m sids)" for sids
    by (induction sids arbitrary: m) (auto simp: snapshot_inv_delete)
  then show "snapshot_inv m \<Longrightarrow> snapshot_inv (sm_deleteWhere P m)" by (simp add: sm_deleteWhere_def)
qed

lemma snapshot_inv_replace:
  assumes inv: "snapshot_inv m" and old: "map_of (sm_snapshots m) sid = Some s"
    and ok: "snapshot_ok (sm_config m) sid s'"
    and same: "sn_User s' = sn_User s" "sn_Viewer s' = sn_Viewer s" "sn_Memory s' = sn_Memory s" "sn_Nodes s' = sn_Nodes s"
  shows "snapshot_inv (m\<lparr>sm_snapshots := gm_put sid s' (sm_snapshots m)\<rparr>)"
proof -
  note D = snapshot_invD [OF inv]
  have "accounted (m\<lparr>sm_snapshots := gm_put sid s' (sm_snapshots m)\<rparr>)"
    using D(1) old same by (simp add: accounted_def gm_wf_put gm_sum_put_same [OF old])
  moreover have "within_limits (m\<lparr>sm_snapshots := gm_put sid s' (sm_snapshots m)\<rparr>)"
    using D(2) same by (simp add: within_limits_def gm_put_length_present [OF old] gm_count_put_same [OF old])
  ultimately show ?thesis using D ok by (auto simp: snapshot_inv_def gm_simps)
qed

lemma sm_prune_lookup:
  "gm_wf (sm_snapshots m) \<Longrightarrow> map_of (sm_snapshots (sm_pruneLocked now m)) sid = Some s \<longleftrightarrow>
     map_of (sm_snapshots m) sid = Some s \<and> now - sc_IdleTTL (sm_config m) \<le> sn_LastAccess s"
  by (auto simp: sm_pruneLocked_def Let_def sm_deleteWhere_snapshots gm_drop_map_of split: option.splits)

lemma sm_authorized_Inr:
  assumes "sm_authorizedLocked sid user viewer now m0 = (Inr s, m)"
  obtains s0 where "map_of (sm_snapshots (sm_pruneLocked now m0)) sid = Some s0" "s = s0\<lparr>sn_LastAccess := now\<rparr>"
    "sn_User s0 = user" "sn_Viewer s0 = viewer" "historySnapshotIDExpr sid"
    "m = (sm_pruneLocked now m0)\<lparr>sm_snapshots := gm_put sid s (sm_snapshots (sm_pruneLocked now m0))\<rparr>"
  using assms that by (auto simp: sm_authorizedLocked_def Let_def split: if_splits option.splits)

lemma sm_authorized_inv:
  assumes inv: "snapshot_inv m0" and run: "sm_authorizedLocked sid user viewer now m0 = (r, m)"
  shows "snapshot_inv m \<and> sm_config m = sm_config m0 \<and> (\<forall>s. r = Inr s \<longrightarrow> map_of (sm_snapshots m) sid = Some s)"
proof -
  have p: "snapshot_inv (sm_pruneLocked now m0)" "sm_config (sm_pruneLocked now m0) = sm_config m0"
    using inv by (simp_all add: sm_pruneLocked_def Let_def snapshot_inv_deleteWhere)
  show ?thesis
  proof (cases r)
    case (Inl e)
    then show ?thesis
      using run inv p by (auto simp: sm_authorizedLocked_def Let_def split: if_splits option.splits)
  next
    case (Inr s)
    with run obtain s0 where s0: "map_of (sm_snapshots (sm_pruneLocked now m0)) sid = Some s0" "s = s0\<lparr>sn_LastAccess := now\<rparr>"
      "m = (sm_pruneLocked now m0)\<lparr>sm_snapshots := gm_put sid s (sm_snapshots (sm_pruneLocked now m0))\<rparr>"
      by (auto elim: sm_authorized_Inr)
    have "snapshot_ok (sm_config m0) sid s"
      using snapshot_invD(4) [OF p(1) s0(1)] p(2) by (simp add: s0(2) snapshot_ok_def cursor_inv_def)
    then show ?thesis
      using snapshot_inv_replace [OF p(1) s0(1), of s] p(2) s0 Inr by (simp add: gm_simps)
  qed
qed

lemma cursor_id_pattern: "length random = 24 \<Longrightarrow> match_prefixed (p @ ''_'') is_url64 32 32 (newHistoryOpaqueID p random)"
  using history_id.gen_pattern [of random p] by simp

lemma sm_pageLocked_cursors:
  assumes "sm_pageLocked config s cursor random = (r, s')" "c \<in> dom (map_of (sn_cursors s'))"
  shows "c \<in> dom (map_of (sn_cursors s)) \<or> c = newHistoryOpaqueID ''hc'' random"
  using assms by (auto simp: sm_pageLocked_def Let_def gm_simps split: if_splits option.splits)

lemma sm_pageLocked_error: "sm_pageLocked config s cursor random = (Inl e, s') \<Longrightarrow> s' = s"
  by (auto simp: sm_pageLocked_def Let_def split: if_splits option.splits)

lemma sm_pageLocked_ok:
  assumes ok: "snapshot_ok config sid s" and run: "sm_pageLocked config s cursor random = (r, s')"
    and fresh: "map_of (sn_cursors s) (newHistoryOpaqueID ''hc'' random) = None" and len: "length random = 24"
    and max: "0 < sc_PageMaxLines config"
  shows "snapshot_ok config sid s'"
proof -
  have "cursor_inv s'"
  proof (cases "cursor_position s cursor")
    case None
    then show ?thesis using run ok by (auto simp: sm_pageLocked_def cursor_position_def snapshot_ok_def)
  next
    case (Some b)
    have "cursor_inv s" using ok by (simp add: snapshot_ok_def)
    then obtain p s'' where "sm_pageLocked config s cursor random = (Inr p, s'')" "cursor_inv s''"
      using Some max fresh by (rule sm_pageLocked_page)
    with run show ?thesis by simp
  qed
  moreover have "match_prefixed ''hc_'' is_url64 32 32 c" if "c \<in> dom (map_of (sn_cursors s'))" for c
    using sm_pageLocked_cursors [OF run that] ok cursor_id_pattern [OF len, of "''hc''"]
    by (auto simp: snapshot_ok_def)
  ultimately show ?thesis
    using ok sm_pageLocked_kept [OF run] by (auto simp: snapshot_ok_def)
qed

lemma sm_Page_inv:
  assumes inv: "snapshot_inv m0" and run: "sm_Page sid cursor user viewer now random m0 = (r, m)"
    and fresh: "\<And>s. map_of (sm_snapshots m0) sid = Some s \<Longrightarrow> map_of (sn_cursors s) (newHistoryOpaqueID ''hc'' random) = None"
    and len: "length random = 24"
  shows "snapshot_inv m"
proof -
  obtain a m1 where a: "sm_authorizedLocked sid user viewer now m0 = (a, m1)" by fastforce
  note I = sm_authorized_inv [OF inv a]
  show ?thesis
  proof (cases a)
    case (Inl e)
    with a run I show ?thesis by (simp add: sm_Page_def)
  next
    case (Inr s)
    have at: "map_of (sm_snapshots m1) sid = Some s" using I Inr by blast
    have inv1: "snapshot_inv m1" using I by blast
    obtain r' s' where s': "sm_pageLocked (sm_config m1) s cursor random = (r', s')" by fastforce
    obtain s0 where "map_of (sm_snapshots m0) sid = Some s0" "s = s0\<lparr>sn_LastAccess := now\<rparr>"
      using a [unfolded Inr] sm_prune_lookup [OF snapshot_invD(5) [OF inv]]
      by (elim sm_authorized_Inr) blast
    then have new: "map_of (sn_cursors s) (newHistoryOpaqueID ''hc'' random) = None" using fresh by simp
    have "snapshot_ok (sm_config m1) sid s'"
      by (rule sm_pageLocked_ok [OF snapshot_invD(4) [OF inv1 at] s' new len snapshot_invD(3) [OF inv1]])
    moreover have "m = m1\<lparr>sm_snapshots := gm_put sid s' (sm_snapshots m1)\<rparr>"
      using run a Inr s' by (simp add: sm_Page_def)
    ultimately show ?thesis
      using snapshot_inv_replace [OF inv1 at, of s'] sm_pageLocked_kept(2,3,6,7) [OF s'] by (simp only:)
  qed
qed

lemma sm_prune_config [simp]: "sm_config (sm_pruneLocked now m) = sm_config m"
  by (simp add: sm_pruneLocked_def Let_def)

definition admitted :: "snapshotCreate \<Rightarrow> int \<Rightarrow> snapshotManager \<Rightarrow> bool" where
  "admitted request memory m \<longleftrightarrow>
     int (gm_count (\<lambda>s. sn_User s = cr_User request) (sm_snapshots m)) < sc_PerUser (sm_config m) \<and>
     int (gm_count (\<lambda>s. sn_User s = cr_User request \<and> sn_Viewer s = cr_Viewer request) (sm_snapshots m)) < sc_PerViewer (sm_config m) \<and>
     int (length (sm_snapshots m)) < sc_PerProcess (sm_config m) \<and>
     sm_memoryUsed m + memory \<le> sc_ProcessMaxBytes (sm_config m) \<and>
     sm_nodesUsed m + historyNodeEstimate (cr_Lines request) \<le> sc_ProcessMaxNodes (sm_config m)"

lemma sm_Create_cases:
  assumes "sm_Create request now randomID randomCursor m0 = (r, m)"
  shows "m = m0 \<or> m = sm_pruneLocked now m0 \<or> (\<exists>memory s'.
      estimateSnapshotMemory (cr_Lines request) (sc_PageMaxBytes (sm_config m0)) = Inr memory \<and>
      admitted request memory (sm_pruneLocked now m0) \<and>
      sm_pageLocked (sm_config m0)
        (storedSnapshot request (newHistoryOpaqueID ''hs'' randomID) memory (historyNodeEstimate (cr_Lines request)) now)
        [] randomCursor = (r, s') \<and>
      m = (sm_pruneLocked now m0)\<lparr>
         sm_snapshots := gm_put (newHistoryOpaqueID ''hs'' randomID) s' (sm_snapshots (sm_pruneLocked now m0)),
         sm_memoryUsed := sm_memoryUsed (sm_pruneLocked now m0) + memory,
         sm_nodesUsed := sm_nodesUsed (sm_pruneLocked now m0) + historyNodeEstimate (cr_Lines request)\<rparr>)"
proof (cases "estimateSnapshotMemory (cr_Lines request) (sc_PageMaxBytes (sm_config m0))")
  case (Inl e)
  then show ?thesis using assms by (simp add: sm_Create_def split: if_splits)
next
  case (Inr memory)
  have adm: "admitted request memory (sm_pruneLocked now m0)"
    if "m \<noteq> m0" "m \<noteq> sm_pruneLocked now m0"
    using assms that Inr by (simp add: sm_Create_def Let_def admitted_def not_le split: if_splits prod.splits)
  show ?thesis
  proof (cases "m = m0 \<or> m = sm_pruneLocked now m0")
    case False
    then show ?thesis
      using assms adm Inr by (auto simp: sm_Create_def Let_def split: if_splits prod.splits)
  qed auto
qed

lemma sm_Create_inv:
  assumes inv: "snapshot_inv m0" and run: "sm_Create request now randomID randomCursor m0 = (r, m)"
    and fresh: "map_of (sm_snapshots m0) (newHistoryOpaqueID ''hs'' randomID) = None"
    and len: "length randomID = 24" "length randomCursor = 24"
  shows "snapshot_inv m"
proof -
  let ?sid = "newHistoryOpaqueID ''hs'' randomID" and ?m = "sm_pruneLocked now m0"
  have p: "snapshot_inv ?m" using inv by (simp add: sm_pruneLocked_def Let_def snapshot_inv_deleteWhere)
  note D = snapshot_invD [OF p]
  have new: "map_of (sm_snapshots ?m) ?sid = None"
    using sm_prune_lookup [OF snapshot_invD(5) [OF inv]] fresh by (metis not_None_eq)
  show ?thesis
    using sm_Create_cases [OF run]
  proof (elim disjE exE conjE, goal_cases)
    case (3 memory s')
    let ?s = "storedSnapshot request ?sid memory (historyNodeEstimate (cr_Lines request)) now"
    have "snapshot_ok (sm_config m0) ?sid ?s"
      using 3(1) cursor_id_pattern [OF len(1), of "''hs''"]
      by (simp add: snapshot_ok_def storedSnapshot_def Let_def cursor_inv_def)
    then have ok: "snapshot_ok (sm_config m0) ?sid s'"
      using sm_pageLocked_ok [OF _ 3(3) _ len(2)] D(3) by (simp add: storedSnapshot_def Let_def)
    note kept = sm_pageLocked_kept [OF 3(3)]
    have same: "sn_User s' = cr_User request" "sn_Viewer s' = cr_Viewer request" "sn_Memory s' = memory"
      "sn_Nodes s' = historyNodeEstimate (cr_Lines request)"
      using kept by (simp_all add: storedSnapshot_def Let_def)
    have "accounted m"
      using D(1) new unfolding 3(4) by (simp add: accounted_def gm_wf_put gm_sum_put_fresh same)
    moreover have "within_limits m"
      using D(2) new 3(2) unfolding 3(4)
      by (simp add: within_limits_def admitted_def gm_count_put_fresh gm_put_length_fresh same)
    ultimately show ?case
      using D(3,4) ok unfolding 3(4) by (simp add: snapshot_inv_def gm_simps)
  qed (use inv p in simp_all)
qed

subsection \<open>Histories of calls\<close>

text \<open>
  The calls the web server makes, in any order, at any times and with any arguments. \<^verbatim>\<open>rand.Read\<close> fills
  its buffer or the process panics; an identifier drawn from 24 random bytes is taken not to be one in
  use (for a snapshot: not a key of the map; for a cursor: not a cursor of the same snapshot).
\<close>

inductive sm_step :: "snapshotManager \<Rightarrow> snapshotManager \<Rightarrow> bool" where
  create: "sm_Create request now randomID randomCursor m = (r, m') \<Longrightarrow> length randomID = 24 \<Longrightarrow> length randomCursor = 24 \<Longrightarrow>
    map_of (sm_snapshots m) (newHistoryOpaqueID ''hs'' randomID) = None \<Longrightarrow> sm_step m m'"
| page: "sm_Page sid cursor user viewer now random m = (r, m') \<Longrightarrow> length random = 24 \<Longrightarrow>
    (\<And>s. map_of (sm_snapshots m) sid = Some s \<Longrightarrow> map_of (sn_cursors s) (newHistoryOpaqueID ''hc'' random) = None) \<Longrightarrow>
    sm_step m m'"
| binding: "sm_Binding sid user viewer now m = (b, m') \<Longrightarrow> sm_step m m'"
| delete: "sm_Delete sid user viewer now m = (u, m') \<Longrightarrow> sm_step m m'"
| deleteUser: "sm_step m (sm_DeleteUser user m)"
| deleteSession: "sm_step m (sm_DeleteSession ref m)"

lemma sm_step_inv: "sm_step m m' \<Longrightarrow> snapshot_inv m \<Longrightarrow> snapshot_inv m'"
proof (induction rule: sm_step.induct)
  case (create request now randomID randomCursor m r m')
  then show ?case using sm_Create_inv by blast
next
  case (page sid cursor user viewer now random m r m')
  then show ?case using sm_Page_inv by blast
next
  case (binding sid user viewer now m b m')
  then show ?case by (auto simp: sm_Binding_def dest: sm_authorized_inv split: prod.splits sum.splits)
next
  case (delete sid user viewer now m u m')
  then show ?case
    by (auto simp: sm_Delete_def dest: sm_authorized_inv intro: snapshot_inv_delete split: prod.splits sum.splits)
qed (simp_all add: sm_DeleteUser_def sm_DeleteSession_def snapshot_inv_deleteWhere)

lemma newSnapshotManager_inv: "snapshot_inv (newSnapshotManager config)"
  by (simp add: snapshot_inv_def accounted_def within_limits_def newSnapshotManager_def gm_sum_def gm_count_def
      positiveOr_def defaultSnapshotsPerViewer_def defaultSnapshotsPerUser_def defaultSnapshotsPerProcess_def
      defaultSnapshotProcessMaxBytes_def defaultSnapshotProcessMaxNodes_def defaultHistoryPageMaxLines_def)

interpretation snapshot_system: step_system "\<lambda>m. m = newSnapshotManager config" sm_step snapshot_inv for config
  by unfold_locales (simp_all add: newSnapshotManager_inv, rule sm_step_inv)

lemma sm_step_config: "sm_step\<^sup>*\<^sup>* m m' \<Longrightarrow> sm_config m' = sm_config m"
proof (induction rule: rtranclp_induct)
  case (step m1 m2)
  have auth: "sm_config m' = sm_config m" if "sm_authorizedLocked sid user viewer now m = (r, m')" for sid user viewer now m r m'
    using that by (auto simp: sm_authorizedLocked_def Let_def split: if_splits option.splits)
  have "sm_config m2 = sm_config m1"
    using step(2)
  proof (cases rule: sm_step.cases)
    case (create request now randomID randomCursor r)
    then show ?thesis using sm_Create_cases [OF create(1)] by auto
  qed (auto simp: sm_Page_def sm_Binding_def sm_Delete_def sm_DeleteUser_def sm_DeleteSession_def auth
      split: prod.splits sum.splits dest: auth)
  with step.IH show ?case by simp
qed simp

subsection \<open>Sizes of encodings\<close>

definition json_plain :: "char \<Rightarrow> bool" where
  "json_plain c \<longleftrightarrow> 32 \<le> byte c \<and> byte c < 128 \<and> c \<notin> {CHR 0x22, CHR 0x5C, CHR ''<'', CHR ''>'', CHR ''&''}"

lemma json_escape_plain: "json_plain c \<Longrightarrow> json_escape c = [c]"
proof -
  assume c: "json_plain c"
  then have "32 \<le> byte c" by (simp add: json_plain_def)
  then have "c \<noteq> CHR 0x08 \<and> c \<noteq> CHR 0x09 \<and> c \<noteq> CHR 0x0A \<and> c \<noteq> CHR 0x0C \<and> c \<noteq> CHR 0x0D"
    by (intro conjI notI) simp_all
  with c show ?thesis by (simp add: json_plain_def json_escape_def)
qed

lemma json_body_plain: "list_all json_plain s \<Longrightarrow> json_body s = s"
proof (induction s)
  case (Cons c s)
  then show ?case
    by (subst json_body.simps) (simp add: json_escape_plain, simp add: json_plain_def)
qed (simp add: json_body.simps)

lemma url64_plain: "is_url64 c \<Longrightarrow> json_plain c"
  by (auto simp: is_url64_def is_alnum_def is_digit_def is_lower_def is_upper_def json_plain_def)

lemma json_string_length:
  "list_all json_plain s \<Longrightarrow> length (json_string s) = length s + 2"
  by (simp add: json_string_def json_body_plain)

lemma match_prefixed_plain:
  assumes "match_prefixed p is_url64 n n s" "list_all json_plain p"
  shows "list_all json_plain s" "length s = length p + n"
proof -
  have "s = p @ drop (length p) s"
    using assms(1) by (metis append_eq_conv_conj has_prefix_def match_prefixed_def)
  moreover have "list_all json_plain (drop (length p) s)" "length (drop (length p) s) = n"
    using assms(1) url64_plain by (auto simp: match_prefixed_def match_class_def list_all_iff)
  ultimately show "list_all json_plain s" "length s = length p + n"
    using assms(2) by (metis list_all_append, metis length_append)
qed

lemma digits_length: "n < 10 ^ k \<Longrightarrow> 0 < k \<Longrightarrow> length (digits n) \<le> k"
proof (induction n arbitrary: k rule: digits.induct)
  case (1 n)
  show ?case
  proof (cases "n < 10")
    case False
    then obtain j where k: "k = Suc j" "0 < j" using 1(2,3) by (cases k; cases "k - 1") auto
    then have "n div 10 < 10 ^ j" using 1(2) by (simp add: div_less_iff_less_mult)
    then show ?thesis using 1(1) [OF False _ k(2)] False k by (subst digits.simps) simp
  qed (subst digits.simps, use 1 in simp)
qed

lemma itoa_length: "min_int64 \<le> n \<Longrightarrow> n \<le> max_int64 \<Longrightarrow> length (itoa n) \<le> 20"
proof -
  assume "min_int64 \<le> n" "n \<le> max_int64"
  then have "nat n < 10 ^ 19" "nat (- n) < 10 ^ 19" by (simp_all add: min_int64_def max_int64_def)
  from this [THEN digits_length] show ?thesis by (simp add: itoa_def)
qed

lemma join_length:
  "length (join xs '','') = (\<Sum>x \<leftarrow> xs. length x) + (length xs - 1)"
  by (induction xs "'',''" rule: join.induct) auto

text \<open>The encoding of a page without its lines is shorter than the space reserved for it.\<close>

definition page_numbers :: "historyPageResponse \<Rightarrow> int list" where
  "page_numbers p = [pg_Columns p, pg_Rows p, pg_HistorySize p, pg_HistoryLimit p, pg_OutputEpoch p]"

lemma json_bool_length: "length (json_bool b) \<le> 5"
  by (simp add: json_bool_def)

lemma json_object_length:
  "length (json_object ms) = 2 + (\<Sum>m \<leftarrow> ms. length (json_string (fst m)) + 1 + length (snd m)) + (length ms - 1)"
  by (simp add: json_object_def join_length comp_def case_prod_beta add.assoc)

lemma json_page_length:
  assumes "match_prefixed ''hs_'' is_url64 32 32 (pg_SnapshotID p)"
    and "pg_Before p = [] \<or> match_prefixed ''hc_'' is_url64 32 32 (pg_Before p)"
    and "pg_Mode p \<in> {''reflow'', ''fixed''}"
    and "\<And>n. n \<in> set (page_numbers p) \<Longrightarrow> min_int64 \<le> n \<and> n \<le> max_int64"
  shows "length (json_page p) \<le> 400 + length (join (map json_line (pg_Lines p)) '','')"
proof -
  have plain: "list_all json_plain ''hs_''" "list_all json_plain ''hc_''" by code_simp+
  have mode: "length (json_string (pg_Mode p)) \<le> 8"
  proof -
    have "length (json_string ''reflow'') \<le> 8" "length (json_string ''fixed'') \<le> 8" by code_simp+
    then show ?thesis using assms(3) by auto
  qed
  have sid: "length (json_string (pg_SnapshotID p)) = 37"
    using match_prefixed_plain [OF assms(1) plain(1)] by (simp add: json_string_length)
  have before: "length (json_string (pg_Before p)) \<le> 37"
    using assms(2)
  proof
    assume "match_prefixed ''hc_'' is_url64 32 32 (pg_Before p)"
    from match_prefixed_plain [OF this plain(2)] show ?thesis by (simp add: json_string_length)
  qed (simp add: json_string_def json_body.simps)
  have keys: "length (json_string ''snapshotId'') = 12" "length (json_string ''mode'') = 6"
    "length (json_string ''columns'') = 9" "length (json_string ''rows'') = 6" "length (json_string ''historySize'') = 13"
    "length (json_string ''historyLimit'') = 14" "length (json_string ''alternateScreen'') = 17"
    "length (json_string ''outputEpoch'') = 13" "length (json_string ''followedByOutput'') = 18"
    "length (json_string ''lines'') = 7" "length (json_string ''before'') = 8" "length (json_string ''hasMore'') = 9"
    by code_simp+
  have nums: "length (itoa (pg_Columns p)) \<le> 20" "length (itoa (pg_Rows p)) \<le> 20" "length (itoa (pg_HistorySize p)) \<le> 20"
    "length (itoa (pg_HistoryLimit p)) \<le> 20" "length (itoa (pg_OutputEpoch p)) \<le> 20"
    using assms(4) by (simp_all add: itoa_length page_numbers_def)
  note bools = json_bool_length [of "pg_AlternateScreen p"] json_bool_length [of "pg_FollowedByOutput p"]
    json_bool_length [of "pg_HasMore p"]
  show ?thesis
  proof (cases "pg_Before p = []")
    case True
    show ?thesis
      unfolding json_page_def json_object_length True
      using mode sid nums bools by (simp add: keys del: One_nat_def)
  next
    case False
    show ?thesis
      unfolding json_page_def json_object_length if_not_P [OF False]
      using mode sid before nums bools by (simp add: keys del: One_nat_def)
  qed
qed

lemma estimate_lines:
  "estimateSnapshotMemory lines n = Inr memory \<Longrightarrow> l \<in> set lines \<Longrightarrow>
     int (length (json_line l)) + historyPageEnvelopeMaxBytes \<le> n"
proof (induction lines arbitrary: memory)
  case (Cons line lines)
  then show ?case by (auto simp: Let_def bindR_def split: if_splits sum.splits)
qed simp

lemma page_lines_json:
  assumes est: "estimateSnapshotMemory (sn_Lines s) (sc_PageMaxBytes config) = Inr memory"
    and page: "is_page config s b p s'" and b: "b \<le> length (sn_Lines s)"
  shows "512 + int (length (join (map json_line (pg_Lines p)) '','')) \<le> max 512 (sc_PageMaxBytes config)"
    and "0 \<le> sc_PageMaxLines config \<Longrightarrow> int (length (pg_Lines p)) \<le> sc_PageMaxLines config"
proof -
  let ?ls = "rev (take b (sn_Lines s))" and ?max = "sc_PageMaxBytes config"
  define n where "n = pageLines config ?ls 0 historyPageEnvelopeMaxBytes"
  have n: "n \<le> b" using pageLines_range [of 0 config ?ls] b by (simp add: n_def)
  have lines: "pg_Lines p = rev (take n ?ls)"
    using page b n unfolding is_page_def page_start_def n_def [symmetric] by (simp add: take_rev)
  then have len: "length (pg_Lines p) = n" using b n by simp
  show "int (length (pg_Lines p)) \<le> sc_PageMaxLines config" if "0 \<le> sc_PageMaxLines config"
    using pageLines_max [of 0 config ?ls] that len by (simp add: n_def)
  show "512 + int (length (join (map json_line (pg_Lines p)) '','')) \<le> max 512 ?max"
  proof (cases "n = 0")
    case True
    then show ?thesis using lines by simp
  next
    case False
    have first: "historyPageEnvelopeMaxBytes + int (length (json_line (hd ?ls))) \<le> ?max" if "?ls \<noteq> []"
    proof -
      have "hd ?ls \<in> set (take b (sn_Lines s))" using hd_in_set [OF that] by simp
      from estimate_lines [OF est in_set_takeD [OF this]] show ?thesis by (simp add: add.commute)
    qed
    have "historyPageEnvelopeMaxBytes + encoded_bytes (take n ?ls) \<le> ?max + 1"
      using pageLines_bytes [of 0 historyPageEnvelopeMaxBytes config ?ls] first False by (simp add: n_def)
    moreover have "encoded_bytes (take n ?ls) = encoded_bytes (pg_Lines p)"
      unfolding lines encoded_bytes_def by (simp add: rev_map [symmetric])
    moreover note encoded_bytes_sum [of "pg_Lines p"]
    moreover have "length (join (map json_line (pg_Lines p)) '','') + 1 = (\<Sum>l \<leftarrow> pg_Lines p. length (json_line l)) + length (pg_Lines p)"
      using len False by (simp add: join_length comp_def)
    ultimately show ?thesis by (simp add: historyPageEnvelopeMaxBytes_def)
  qed
qed

subsection \<open>Reading a snapshot\<close>

text \<open>
  A page request of the owner, before the snapshot has been idle too long: it is answered, with the
  page of \<^const>\<open>is_page\<close>, and the snapshot stays with its new cursor.
\<close>

lemma sm_Page_total:
  assumes inv: "snapshot_inv m" and at: "map_of (sm_snapshots m) sid = Some s"
    and pos: "cursor_position s cursor = Some b" and time: "now - sc_IdleTTL (sm_config m) \<le> sn_LastAccess s"
    and fresh: "map_of (sn_cursors s) (newHistoryOpaqueID ''hc'' random) = None" and len: "length random = 24"
  obtains p s' m' where "sm_Page sid cursor (sn_User s) (sn_Viewer s) now random m = (Inr p, m')"
    "is_page (sm_config m) s b p s'" "map_of (sm_snapshots m') sid = Some s'" "snapshot_inv m'"
    "sm_config m' = sm_config m" "sn_Lines s' = sn_Lines s" "sn_LastAccess s' = now" "sn_User s' = sn_User s"
    "sn_Viewer s' = sn_Viewer s" "dom (map_of (sn_cursors s')) \<subseteq> insert (newHistoryOpaqueID ''hc'' random) (dom (map_of (sn_cursors s)))"
proof -
  let ?s1 = "s\<lparr>sn_LastAccess := now\<rparr>"
  define m1 where "m1 = (sm_pruneLocked now m)\<lparr>sm_snapshots := gm_put sid ?s1 (sm_snapshots (sm_pruneLocked now m))\<rparr>"
  have ok: "snapshot_ok (sm_config m) sid s" using snapshot_invD(4) [OF inv at] .
  then have "historySnapshotIDExpr sid"
    by (auto simp: snapshot_ok_def historySnapshotIDExpr_def intro: match_prefixed_mono)
  moreover have "map_of (sm_snapshots (sm_pruneLocked now m)) sid = Some s"
    using at time by (simp add: sm_prune_lookup [OF snapshot_invD(5) [OF inv]])
  ultimately have auth: "sm_authorizedLocked sid (sn_User s) (sn_Viewer s) now m = (Inr ?s1, m1)"
    by (simp add: sm_authorizedLocked_def m1_def Let_def)
  have config: "sm_config m1 = sm_config m" by (simp add: m1_def)
  have "cursor_inv ?s1" "cursor_position ?s1 cursor = Some b"
    using ok pos by (auto simp: snapshot_ok_def cursor_inv_def cursor_position_def split: if_splits)
  then obtain p s' where s': "sm_pageLocked (sm_config m) ?s1 cursor random = (Inr p, s')" "is_page (sm_config m) ?s1 b p s'"
    using snapshot_invD(3) [OF inv] fresh by (auto elim: sm_pageLocked_page)
  define m' where "m' = m1\<lparr>sm_snapshots := gm_put sid s' (sm_snapshots m1)\<rparr>"
  have run: "sm_Page sid cursor (sn_User s) (sn_Viewer s) now random m = (Inr p, m')"
    by (simp add: sm_Page_def auth config s' m'_def)
  have dom: "dom (map_of (sn_cursors s')) \<subseteq> insert (newHistoryOpaqueID ''hc'' random) (dom (map_of (sn_cursors s)))"
    using sm_pageLocked_cursors [OF s'(1)] by auto
  have "snapshot_inv m'" using sm_Page_inv [OF inv run] at fresh len by simp
  moreover have "is_page (sm_config m) s b p s'" using s'(2) by (simp add: is_page_def page_start_def)
  moreover have "map_of (sm_snapshots m') sid = Some s'" "sm_config m' = sm_config m"
    by (simp_all add: m'_def gm_simps config)
  ultimately show thesis
    using run dom sm_pageLocked_kept [OF s'(1)] by (intro that [of p m' s']) simp_all
qed

lemma sm_Page_is_page:
  assumes inv: "snapshot_inv m" and run: "sm_Page sid cursor user viewer now random m = (Inr p, m')"
    and len: "length random = 24"
    and fresh: "\<And>s. map_of (sm_snapshots m) sid = Some s \<Longrightarrow> map_of (sn_cursors s) (newHistoryOpaqueID ''hc'' random) = None"
  shows "\<exists>s b s'. snapshot_ok (sm_config m) sid s \<and> is_page (sm_config m) s b p s' \<and> b \<le> length (sn_Lines s) \<and>
    (pg_Before p = [] \<or> pg_Before p \<in> dom (map_of (sn_cursors s')) \<and> snapshot_ok (sm_config m) sid s')"
proof -
  obtain s1 m1 where auth: "sm_authorizedLocked sid user viewer now m = (Inr s1, m1)"
    using run by (auto simp: sm_Page_def split: prod.splits sum.splits)
  obtain s where s: "map_of (sm_snapshots m) sid = Some s" "now - sc_IdleTTL (sm_config m) \<le> sn_LastAccess s"
      "sn_User s = user" "sn_Viewer s = viewer" "s1 = s\<lparr>sn_LastAccess := now\<rparr>"
    using auth sm_prune_lookup [OF snapshot_invD(5) [OF inv]] by (elim sm_authorized_Inr) blast
  have ok: "snapshot_ok (sm_config m) sid s" using snapshot_invD(4) [OF inv s(1)] .
  have "fst (sm_pageLocked (sm_config m) s1 cursor random) = Inr p"
    using run auth sm_authorized_inv [OF inv auth] by (auto simp: sm_Page_def split: prod.splits)
  then obtain b where b: "cursor_position s cursor = Some b"
    by (auto simp: sm_pageLocked_def cursor_position_def s(5) split: option.splits if_splits)
  obtain p' s' m'' where total: "sm_Page sid cursor (sn_User s) (sn_Viewer s) now random m = (Inr p', m'')"
      "is_page (sm_config m) s b p' s'" "map_of (sm_snapshots m'') sid = Some s'" "snapshot_inv m''" "sm_config m'' = sm_config m"
    using sm_Page_total [OF inv s(1) b s(2) fresh [OF s(1)] len] by blast
  have p: "p' = p" using run total(1) s(3,4) by simp
  have ok': "snapshot_ok (sm_config m) sid s'" using snapshot_invD(4) [OF total(4,3)] total(5) by simp
  have "pg_Before p = [] \<or> pg_Before p \<in> dom (map_of (sn_cursors s'))"
    using total(2) by (cases "page_start (sm_config m) s b") (auto simp: p is_page_def cursor_position_def split: if_splits)
  moreover have "b \<le> length (sn_Lines s)" using ok b by (auto simp: snapshot_ok_def intro: cursor_position_le)
  ultimately show ?thesis using ok ok' total(2) unfolding p by blast
qed

text \<open>
  A reader that asks for the newest page and then follows the cursors, one entry \<open>(now, random)\<close> of the
  list per request, and puts the pages back together; \<open>None\<close> if a request fails or the entries run out.
\<close>

fun sm_readAll :: "string \<Rightarrow> string \<Rightarrow> ViewerID \<Rightarrow> string \<Rightarrow> (time \<times> string) list \<Rightarrow> snapshotManager \<Rightarrow> historyLine list option" where
  "sm_readAll sid user viewer cursor [] m = None"
| "sm_readAll sid user viewer cursor ((now, random) # requests) m =
     (case sm_Page sid cursor user viewer now random m of
        (Inl err, m') \<Rightarrow> None
      | (Inr p, m') \<Rightarrow>
          if pg_HasMore p
          then map_option (\<lambda>older. older @ pg_Lines p) (sm_readAll sid user viewer (pg_Before p) requests m')
          else Some (pg_Lines p))"

lemma readAll_correct:
  assumes "snapshot_inv m" "map_of (sm_snapshots m) sid = Some s" "cursor_position s cursor = Some b"
    and "since \<le> sn_LastAccess s" "\<And>now random. (now, random) \<in> set requests \<Longrightarrow>
      since \<le> now \<and> now \<le> since + sc_IdleTTL (sm_config m) \<and> length random = 24 \<and>
      map_of (sn_cursors s) (newHistoryOpaqueID ''hc'' random) = None"
    and "distinct (map snd requests)" "max 1 b \<le> length requests"
  shows "sm_readAll sid (sn_User s) (sn_Viewer s) cursor requests m = Some (take b (sn_Lines s))"
  using assms
proof (induction requests arbitrary: m s cursor b)
  case (Cons q requests)
  obtain now random where q: "q = (now, random)" by fastforce
  have in_q: "since \<le> now \<and> now \<le> since + sc_IdleTTL (sm_config m) \<and> length random = 24 \<and>
      map_of (sn_cursors s) (newHistoryOpaqueID ''hc'' random) = None"
    using Cons.prems(5) [of now random] q by simp
  then have idle: "now - sc_IdleTTL (sm_config m) \<le> sn_LastAccess s" using Cons.prems(4) by simp
  obtain p s' m' where run: "sm_Page sid cursor (sn_User s) (sn_Viewer s) now random m = (Inr p, m')"
    and page: "is_page (sm_config m) s b p s'" and at: "map_of (sm_snapshots m') sid = Some s'" "snapshot_inv m'"
    and same: "sm_config m' = sm_config m" "sn_Lines s' = sn_Lines s" "sn_LastAccess s' = now" "sn_User s' = sn_User s"
      "sn_Viewer s' = sn_Viewer s"
    and dom: "dom (map_of (sn_cursors s')) \<subseteq> insert (newHistoryOpaqueID ''hc'' random) (dom (map_of (sn_cursors s)))"
    using in_q by (auto intro: sm_Page_total [OF Cons.prems(1,2,3) idle])
  define start where "start = page_start (sm_config m) s b"
  from page have start: "start \<le> b" "0 < b \<longrightarrow> start < b" "pg_Lines p = drop start (take b (sn_Lines s))"
      "pg_HasMore p = (0 < start)" "start \<noteq> 0 \<longrightarrow> cursor_position s' (pg_Before p) = Some start"
    by (simp_all add: is_page_def start_def)
  have whole: "take start (sn_Lines s) @ pg_Lines p = take b (sn_Lines s)"
    using start(1,3) by (metis append_take_drop_id min.absorb1 take_take)
  show ?case
  proof (cases "start = 0")
    case True
    then show ?thesis using run start whole by (simp add: q)
  next
    case False
    have "sm_readAll sid (sn_User s') (sn_Viewer s') (pg_Before p) requests m' = Some (take start (sn_Lines s'))"
    proof (rule Cons.IH [OF at(2,1) start(5) [rule_format, OF False]])
      show "since \<le> sn_LastAccess s'" using in_q same by simp
      show "distinct (map snd requests)" "max 1 start \<le> length requests" using Cons.prems(6,7) start(1,2) False by auto
      fix now' random' assume r: "(now', random') \<in> set requests"
      then have "random' \<noteq> random" using Cons.prems(6) by (force simp: q)
      then have "newHistoryOpaqueID ''hc'' random' \<noteq> newHistoryOpaqueID ''hc'' random" by (simp add: history_id.gen_inj)
      then show "since \<le> now' \<and> now' \<le> since + sc_IdleTTL (sm_config m') \<and> length random' = 24 \<and>
          map_of (sn_cursors s') (newHistoryOpaqueID ''hc'' random') = None"
        using Cons.prems(5) [of now' random'] r dom same by (auto simp: domIff)
    qed
    then show ?thesis using run start(4) False whole same by (simp add: q)
  qed
qed simp

subsection \<open>Properties\<close>

text \<open>A run for the witnesses: a manager with pages of one line, and a snapshot of two lines.\<close>

definition ex_line :: "string \<Rightarrow> historyLine" where
  "ex_line t = \<lparr>Runs = [\<lparr>Text = t, Style = None\<rparr>], BidiWarning = False\<rparr>"

definition ex_create :: snapshotCreate where
  "ex_create =
     (let meta = \<lparr>Columns = 80, Rows = 24, HistorySize = 2, HistoryLimit = 2000, HistoryBytes = 20,
        AlternateScreen = False, OutputEpoch = 7\<rparr> in
      \<lparr>cr_User = ''login'', cr_Viewer = replicate 16 CHR ''v'', cr_SessionRef = ''s_1'', cr_PaneRef = ''p_1'',
       cr_Generation = zero_generation, cr_Mode = ''fixed'',
       cr_Capture = \<lparr>hc_Text = ''ab'', hc_Before = meta, hc_After = meta\<rparr>,
       cr_Lines = [ex_line ''a'', ex_line ''b''], cr_NodeEstimate = 0\<rparr>)"

definition ex_config :: snapshotManagerConfig where
  "ex_config = \<lparr>sc_IdleTTL = 100, sc_PerViewer = 0, sc_PerUser = 0, sc_PerProcess = 0, sc_ProcessMaxBytes = 0,
     sc_ProcessMaxNodes = 0, sc_PageMaxLines = 1, sc_PageMaxBytes = 1000\<rparr>"

definition ex_sid :: string where
  "ex_sid = newHistoryOpaqueID ''hs'' (replicate 24 CHR ''a'')"

definition ex_manager :: snapshotManager where
  "ex_manager = snd (sm_Create ex_create 5 (replicate 24 CHR ''a'') (replicate 24 CHR ''b'') (newSnapshotManager ex_config))"

lemma ex_manager_reachable: "sm_step\<^sup>*\<^sup>* (newSnapshotManager ex_config) ex_manager"
proof (rule r_into_rtranclp, rule sm_step.create)
  show "sm_Create ex_create 5 (replicate 24 CHR ''a'') (replicate 24 CHR ''b'') (newSnapshotManager ex_config) =
      (fst (sm_Create ex_create 5 (replicate 24 CHR ''a'') (replicate 24 CHR ''b'') (newSnapshotManager ex_config)), ex_manager)"
    by (simp add: ex_manager_def)
qed (simp_all add: newSnapshotManager_def)

lemma ex_manager_eval:
  "length (sm_snapshots ex_manager) = 1" "sm_nodesUsed ex_manager = 4"
  "map_option sn_Lines (map_of (sm_snapshots ex_manager) ex_sid) = Some [ex_line ''a'', ex_line ''b'']"
  by code_simp+

text \<open>
  C19. After every history of calls the two counters of the snapshot manager are exactly the cost of the
  lines it holds (the memory estimate and the node count recomputed from the stored lines), and the
  limits of the configuration hold: bytes, nodes, snapshots in the process, per user and per viewer.
\<close>

theorem snapshot_accounting:
  assumes "sm_step\<^sup>*\<^sup>* (newSnapshotManager config) m"
  shows "sm_memoryUsed m = gm_sum (\<lambda>s. projr (estimateSnapshotMemory (sn_Lines s) (sc_PageMaxBytes (sm_config m)))) (sm_snapshots m) \<and>
    sm_nodesUsed m = gm_sum (\<lambda>s. historyNodeEstimate (sn_Lines s)) (sm_snapshots m) \<and>
    within_limits m \<and> sm_config m = sm_config (newSnapshotManager config)"
proof -
  have inv: "snapshot_inv m" using snapshot_system.inv_reachable [OF refl assms] .
  note D = snapshot_invD [OF inv]
  have "snapshot_ok (sm_config m) (fst e) (snd e)" if "e \<in> set (sm_snapshots m)" for e
    using that D(4) [of "fst e" "snd e"] by (simp add: gm_mem_iff [OF D(5), symmetric])
  then have "sum_list (map (\<lambda>e. f (snd e)) (sm_snapshots m)) = sum_list (map (\<lambda>e. g (snd e)) (sm_snapshots m))"
    if "\<And>sid s. snapshot_ok (sm_config m) sid s \<Longrightarrow> f s = (g s :: int)" for f g
    using that by (intro arg_cong [of _ _ sum_list] map_cong) blast+
  from this [of sn_Memory "\<lambda>s. projr (estimateSnapshotMemory (sn_Lines s) (sc_PageMaxBytes (sm_config m)))"]
    this [of sn_Nodes "\<lambda>s. historyNodeEstimate (sn_Lines s)"]
  show ?thesis
    using D(1,2) sm_step_config [OF assms] by (simp add: accounted_def gm_sum_def snapshot_ok_def)
qed

theorem snapshot_accounting_witness:
  "length (sm_snapshots ex_manager) = 1 \<and> within_limits ex_manager \<and>
   gm_sum (\<lambda>s. historyNodeEstimate (sn_Lines s)) (sm_snapshots ex_manager) = 4"
  using snapshot_accounting [OF ex_manager_reachable] ex_manager_eval(1,2) by simp

text \<open>
  A snapshot is private to the login and the browser tab that created it: after any history of
  calls, \<^verbatim>\<open>Binding\<close>, \<^verbatim>\<open>Page\<close> and \<^verbatim>\<open>Delete\<close> succeed only for a stored snapshot whose user and viewer are the
  caller's and that was used within the idle time; everybody else gets an error.
\<close>

theorem snapshot_private:
  assumes "sm_step\<^sup>*\<^sup>* (newSnapshotManager config) m"
    and "fst (sm_Binding sid user viewer now m) = Inr binding \<or> fst (sm_Page sid cursor user viewer now random m) = Inr page \<or>
      fst (sm_Delete sid user viewer now m) = Inr ()"
  shows "\<exists>s. map_of (sm_snapshots m) sid = Some s \<and> sn_User s = user \<and> sn_Viewer s = viewer \<and>
    now - sc_IdleTTL (sm_config m) \<le> sn_LastAccess s"
proof -
  have wf: "gm_wf (sm_snapshots m)"
    using snapshot_invD(5) [OF snapshot_system.inv_reachable [OF refl assms(1)]] .
  obtain s m' where "sm_authorizedLocked sid user viewer now m = (Inr s, m')"
    using assms(2) by (auto simp: sm_Binding_def sm_Page_def sm_Delete_def split: prod.splits sum.splits)
  then show ?thesis using sm_prune_lookup [OF wf] by (elim sm_authorized_Inr) blast
qed

theorem snapshot_private_witness:
  "fst (sm_Binding ex_sid ''other'' (replicate 16 CHR ''v'') 50 ex_manager) = Inl errSnapshotNotFound \<and>
   (\<exists>s. map_of (sm_snapshots ex_manager) ex_sid = Some s \<and> sn_User s = ''login'' \<and>
      50 - sc_IdleTTL (sm_config ex_manager) \<le> sn_LastAccess s)"
proof -
  have "fst (sm_Delete ex_sid ''login'' (replicate 16 CHR ''v'') 50 ex_manager) = Inr ()"
    "fst (sm_Binding ex_sid ''other'' (replicate 16 CHR ''v'') 50 ex_manager) = Inl errSnapshotNotFound"
    by code_simp+
  then show ?thesis
    using snapshot_private [OF ex_manager_reachable, of ex_sid "''login''" "replicate 16 CHR ''v''" 50] by auto
qed

text \<open>
  C30. Reading a snapshot to the end gives every line exactly once and in order: from any state the
  manager can reach, a reader that starts at the newest page and follows the cursors within the idle
  time gets all lines of the snapshot, in at most as many requests as there are lines (one if it is empty).
\<close>

theorem snapshot_read_all:
  assumes "sm_step\<^sup>*\<^sup>* (newSnapshotManager config) m" and "map_of (sm_snapshots m) sid = Some s"
    and "\<And>now random. (now, random) \<in> set requests \<Longrightarrow>
      sn_LastAccess s \<le> now \<and> now \<le> sn_LastAccess s + sc_IdleTTL (sm_config m) \<and> length random = 24 \<and>
      map_of (sn_cursors s) (newHistoryOpaqueID ''hc'' random) = None"
    and "distinct (map snd requests)" "max 1 (length (sn_Lines s)) \<le> length requests"
  shows "sm_readAll sid (sn_User s) (sn_Viewer s) [] requests m = Some (sn_Lines s)"
proof -
  have "sm_readAll sid (sn_User s) (sn_Viewer s) [] requests m = Some (take (length (sn_Lines s)) (sn_Lines s))"
    by (rule readAll_correct [OF snapshot_system.inv_reachable [OF refl assms(1)] assms(2) _ order_refl assms(3,4,5)])
      (simp_all add: cursor_position_def)
  then show ?thesis by simp
qed

theorem snapshot_read_all_witness:
  "sm_readAll ex_sid ''login'' (replicate 16 CHR ''v'') [] [(6, replicate 24 CHR ''c''), (7, replicate 24 CHR ''d'')] ex_manager =
     Some [ex_line ''a'', ex_line ''b'']"
proof -
  obtain s where s: "map_of (sm_snapshots ex_manager) ex_sid = Some s" "sn_Lines s = [ex_line ''a'', ex_line ''b'']"
    using ex_manager_eval(3) by auto
  have owner: "map_option (\<lambda>s. (sn_User s, sn_Viewer s, sn_LastAccess s)) (map_of (sm_snapshots ex_manager) ex_sid) =
      Some (''login'', replicate 16 CHR ''v'', 5)" "sc_IdleTTL (sm_config ex_manager) = 100"
    "map_option (\<lambda>s. (map_of (sn_cursors s) (newHistoryOpaqueID ''hc'' (replicate 24 CHR ''c'')),
       map_of (sn_cursors s) (newHistoryOpaqueID ''hc'' (replicate 24 CHR ''d''))))
       (map_of (sm_snapshots ex_manager) ex_sid) = Some (None, None)"
    by code_simp+
  have "sm_readAll ex_sid (sn_User s) (sn_Viewer s) [] [(6, replicate 24 CHR ''c''), (7, replicate 24 CHR ''d'')] ex_manager =
      Some (sn_Lines s)"
    by (rule snapshot_read_all [OF ex_manager_reachable s(1)]) (use owner s in \<open>auto simp del: replicate_Suc\<close>)
  then show ?thesis using owner(1) s by (auto simp del: sm_readAll.simps)
qed

text \<open>
  C37. The response for a page stays within the configured size: with one of the two modes and numbers
  of 64 bits, its JSON encoding has at most \<^verbatim>\<open>PageMaxBytes\<close> bytes (512 if the limit is below that), and it has
  at most \<^verbatim>\<open>PageMaxLines\<close> lines.
\<close>

theorem snapshot_page_size:
  assumes "sm_step\<^sup>*\<^sup>* (newSnapshotManager config) m" and "sm_Page sid cursor user viewer now random m = (Inr p, m')"
    and "length random = 24"
    and "\<And>s. map_of (sm_snapshots m) sid = Some s \<Longrightarrow> map_of (sn_cursors s) (newHistoryOpaqueID ''hc'' random) = None"
    and "pg_Mode p \<in> {''reflow'', ''fixed''}" and "\<And>n. n \<in> set (page_numbers p) \<Longrightarrow> min_int64 \<le> n \<and> n \<le> max_int64"
  shows "int (length (json_page p)) \<le> max 512 (sc_PageMaxBytes (sm_config m)) \<and>
    int (length (pg_Lines p)) \<le> sc_PageMaxLines (sm_config m)"
proof -
  have inv: "snapshot_inv m" using snapshot_system.inv_reachable [OF refl assms(1)] .
  obtain b s s' where s: "snapshot_ok (sm_config m) sid s" "is_page (sm_config m) s b p s'" "b \<le> length (sn_Lines s)"
    and before: "pg_Before p = [] \<or> pg_Before p \<in> dom (map_of (sn_cursors s')) \<and> snapshot_ok (sm_config m) sid s'"
    using sm_Page_is_page [OF inv assms(2,3,4)] by blast
  have "pg_SnapshotID p = sid" using s(1,2) by (auto simp: is_page_def snapshot_ok_def)
  then have "length (json_page p) \<le> 400 + length (join (map json_line (pg_Lines p)) '','')"
    using s(1) before assms(5,6) by (intro json_page_length) (auto simp: snapshot_ok_def)
  moreover have est: "estimateSnapshotMemory (sn_Lines s) (sc_PageMaxBytes (sm_config m)) = Inr (sn_Memory s)"
    using s(1) by (simp add: snapshot_ok_def)
  ultimately have "int (length (json_page p)) \<le> max 512 (sc_PageMaxBytes (sm_config m))"
    using page_lines_json(1) [OF est s(2,3)] by linarith
  then show ?thesis
    using page_lines_json(2) [OF est s(2,3)] snapshot_invD(3) [OF inv] by simp
qed

theorem snapshot_page_size_witness:
  "\<exists>p. fst (sm_Page ex_sid [] ''login'' (replicate 16 CHR ''v'') 6 (replicate 24 CHR ''c'') ex_manager) = Inr p \<and>
     int (length (json_page p)) \<le> max 512 (sc_PageMaxBytes (sm_config ex_manager))"
proof -
  let ?r = "sm_Page ex_sid [] ''login'' (replicate 16 CHR ''v'') 6 (replicate 24 CHR ''c'') ex_manager"
  have eval: "map_sum (\<lambda>e. ()) (\<lambda>p. (pg_Mode p, page_numbers p)) (fst ?r) = Inr (''fixed'', [80, 24, 2, 2000, 7])"
    "map_option (\<lambda>s. map_of (sn_cursors s) (newHistoryOpaqueID ''hc'' (replicate 24 CHR ''c'')))
       (map_of (sm_snapshots ex_manager) ex_sid) = Some None"
    by code_simp+
  then obtain p m' where r: "?r = (Inr p, m')" "pg_Mode p = ''fixed''" "page_numbers p = [80, 24, 2, 2000, 7]"
    by (cases ?r; cases "fst ?r") auto
  have "int (length (json_page p)) \<le> max 512 (sc_PageMaxBytes (sm_config ex_manager)) \<and>
      int (length (pg_Lines p)) \<le> sc_PageMaxLines (sm_config ex_manager)"
    by (rule snapshot_page_size [OF ex_manager_reachable r(1)])
      (use eval(2) r in \<open>auto simp: min_int64_def max_int64_def simp del: replicate_Suc\<close>)
  then show ?thesis using r(1) by simp
qed

end
