(* ===== verification/Http.thy ===== *)
theory Http
  imports Server_Types
begin

section \<open>Requests and responses\<close>

text \<open>
  What the code uses of \<^verbatim>\<open>net/http\<close>. Header names are in canonical form, so a header is a Go map from names
  to the values in order. A request carries its parsed cookies and its query parameters; its body is the
  bytes the client sends and whether the connection then fails. A response is what a handler has
  written so far.
\<close>

type_synonym Header = "(string, string list) gomap"

definition header_Values :: "string \<Rightarrow> Header \<Rightarrow> string list" where
  "header_Values k h = (case map_of h k of None \<Rightarrow> [] | Some vs \<Rightarrow> vs)"

definition header_Get :: "string \<Rightarrow> Header \<Rightarrow> string" where
  "header_Get k h = (case header_Values k h of [] \<Rightarrow> [] | v # _ \<Rightarrow> v)"

definition header_Set :: "string \<Rightarrow> string \<Rightarrow> Header \<Rightarrow> Header" where
  "header_Set k v h = gm_put k [v] h"

definition header_Add :: "string \<Rightarrow> string \<Rightarrow> Header \<Rightarrow> Header" where
  "header_Add k v h = gm_put k (header_Values k h @ [v]) h"

definition header_Del :: "string \<Rightarrow> Header \<Rightarrow> Header" where
  "header_Del k h = gm_del k h"

lemma header_Get_Set [simp]: "header_Get k (header_Set k' v h) = (if k = k' then v else header_Get k h)"
  by (simp add: header_Get_def header_Values_def header_Set_def gm_simps)

lemma header_Get_Del [simp]: "header_Get k (header_Del k' h) = (if k = k' then [] else header_Get k h)"
  by (simp add: header_Get_def header_Values_def header_Del_def gm_simps)

lemma header_Get_Add: "header_Get k (header_Add k' v h) =
    (if k = k' \<and> header_Values k h = [] then v else header_Get k h)"
  by (auto simp: header_Get_def header_Values_def header_Add_def gm_simps split: list.splits)

record Request =
  rq_Method :: string
  rq_Path :: string
  rq_Query :: "(string \<times> string) list"
  rq_Host :: string
  rq_TLS :: bool
  rq_RemoteAddr :: string
  rq_Header :: Header
  rq_Cookies :: "(string \<times> string) list"
  rq_Body :: string
  rq_BodyFails :: bool

record Response =
  rs_Status :: int
  rs_Header :: Header
  rs_Body :: string

text \<open>\<^verbatim>\<open>r.Cookie(name)\<close>: the first cookie of that name.\<close>

definition rq_Cookie :: "string \<Rightarrow> Request \<Rightarrow> string option" where
  "rq_Cookie name r = map_of (rq_Cookies r) name"

text \<open>
  \<^verbatim>\<open>io.ReadAll(http.MaxBytesReader(w, r.Body, n))\<close>: an error if the body is longer than the limit or the
  connection fails first.
\<close>

definition readBody :: "nat \<Rightarrow> Request \<Rightarrow> string option" where
  "readBody n r = (if length (rq_Body r) > n \<or> rq_BodyFails r then None else Some (rq_Body r))"

text \<open>\<^verbatim>\<open>strings.IndexByte\<close> and \<^verbatim>\<open>bytes.Index\<close>: the first position, if there is one.\<close>

fun index_byte :: "string \<Rightarrow> char \<Rightarrow> nat option" where
  "index_byte [] c = None"
| "index_byte (d # s) c = (if d = c then Some 0 else map_option Suc (index_byte s c))"

fun index_of :: "string \<Rightarrow> string \<Rightarrow> nat option" where
  "index_of [] t = (if t = [] then Some 0 else None)"
| "index_of (d # s) t = (if has_prefix (d # s) t then Some 0 else map_option Suc (index_of s t))"

lemma index_byte_Some: "index_byte s c = Some n \<Longrightarrow> n < length s \<and> s ! n = c \<and> c \<notin> set (take n s)"
  by (induction s arbitrary: n) (auto split: if_splits)

lemma index_byte_None: "index_byte s c = None \<longleftrightarrow> c \<notin> set s"
  by (induction s) auto

lemma index_of_Some: "index_of s t = Some n \<Longrightarrow> n + length t \<le> length s \<and> has_prefix (drop n s) t"
proof (induction s arbitrary: n)
  case (Cons d s)
  have "length t \<le> length (d # s)" if "has_prefix (d # s) t"
    using that by (metis has_prefix_def length_take min.cobounded1)
  with Cons show ?case by (auto split: if_splits)
qed (auto split: if_splits simp: has_prefix_def)

end
