(* ===== verification/Proxy.thy ===== *)
theory Proxy
  imports Http Registry
begin

section \<open>Terminal proxy\<close>

text \<open>
  \<^verbatim>\<open>internal/proxy/proxy.go\<close>: requests below \<^verbatim>\<open>/terminal/\<close> are forwarded to the Unix socket of the session's
  \<^verbatim>\<open>ttyd\<close>. The reverse proxy itself is \<^verbatim>\<open>net/http/httputil\<close>; modelled are the decision whether and where to
  forward, the changes to the request and the response, the script put into the terminal page, and
  the observer that counts the bytes of WebSocket data frames as they pass.

  The observer sees the stream in the pieces the connection happens to deliver. The lemmas show
  that its state never gets stuck and that what it reports is independent of the pieces: it equals
  the payload of the data frames, by a reference definition that parses the whole stream at once.
\<close>

subsection \<open>Routing\<close>

definition sessionRefFromPath :: "string \<Rightarrow> string option" where
  "sessionRefFromPath path =
     (let trimmed = trim_prefix path ''/terminal/'' in
      if trimmed = path \<or> trimmed = [] then None
      else
        let ref = (case index_byte trimmed CHR ''/'' of Some slash \<Rightarrow> take slash trimmed | None \<Rightarrow> trimmed) in
        if \<not> ValidPublicRef ref then None else Some ref)"

record proxyTarget =
  px_ref :: string
  px_socket :: string
  px_observeWebSocket :: bool
  px_injectTransportObserver :: bool

text \<open>
  \<open>observing\<close> says whether the handler has an observer; \<open>readByPublicRef\<close> and \<open>alive\<close> are the operations of
  the interface \<^verbatim>\<open>SessionStore\<close>. \<open>None\<close> is the answer 404.
\<close>

definition proxy_ServeHTTP :: "bool \<Rightarrow> ('w \<Rightarrow> string \<Rightarrow> (registryError + Session) \<times> 'w) \<Rightarrow> ('w \<Rightarrow> Session \<Rightarrow> bool) \<Rightarrow>
    Request \<Rightarrow> 'w \<Rightarrow> proxyTarget option \<times> 'w" where
  "proxy_ServeHTTP observing readByPublicRef alive r w =
     (case sessionRefFromPath (rq_Path r) of
        None \<Rightarrow> (None, w)
      | Some ref \<Rightarrow>
          (case readByPublicRef w ref of
             (Inl err, w') \<Rightarrow> (None, w')
           | (Inr session, w') \<Rightarrow>
               if \<not> alive w' session then (None, w')
               else
                 let websocket = equal_fold (header_Get ''Upgrade'' (rq_Header r)) ''websocket'' in
                 (Some \<lparr>px_ref = ref, px_socket = se_Socket session,
                    px_observeWebSocket = (observing \<and> websocket),
                    px_injectTransportObserver = (rq_Method r = ''GET'' \<and> rq_Path r = ''/terminal/'' @ ref @ ''/'' \<and>
                      \<not> websocket)\<rparr>, w')))"

text \<open>What the director changes in the outgoing request besides the standard one's changes.\<close>

definition proxy_Director :: "proxyTarget \<Rightarrow> Request \<Rightarrow> Request \<Rightarrow> Request" where
  "proxy_Director target r out =
     out\<lparr>rq_Host := rq_Host r,
       rq_Header := (if px_injectTransportObserver target
         then header_Set ''Accept-Encoding'' ''identity'' (rq_Header out) else rq_Header out)\<rparr>"

definition proxy_ErrorHandler :: "bool \<Rightarrow> int" where
  "proxy_ErrorHandler canceled = (if canceled then 499 else 502)"

text \<open>
  What the proxy needs of its store: a session read by a reference carries that reference. It then
  forwards only to the socket of the live session that the path names.
\<close>

locale session_store =
  fixes readByPublicRef :: "'w \<Rightarrow> string \<Rightarrow> (registryError + Session) \<times> 'w"
    and alive :: "'w \<Rightarrow> Session \<Rightarrow> bool"
  assumes read_ref: "readByPublicRef w ref = (Inr session, w') \<Longrightarrow> se_PublicRef session = ref"
begin

lemma forwards_to_named:
  assumes "proxy_ServeHTTP observing readByPublicRef alive r w = (Some target, w')"
  shows "\<exists>session. sessionRefFromPath (rq_Path r) = Some (se_PublicRef session) \<and> px_ref target = se_PublicRef session \<and>
    px_socket target = se_Socket session \<and> alive w' session"
proof -
  obtain ref session where s: "sessionRefFromPath (rq_Path r) = Some ref" "readByPublicRef w ref = (Inr session, w')"
      "alive w' session" "px_ref target = ref" "px_socket target = se_Socket session"
    using assms by (auto simp: proxy_ServeHTTP_def Let_def split: option.splits prod.splits sum.splits if_splits)
  then show ?thesis using read_ref [OF s(2)] by (intro exI [of _ session]) simp
qed

end

lemma ReadByPublicRef_ref: "ReadByPublicRef faults parseTime s ref d = (Inr session, d') \<Longrightarrow> se_PublicRef session = ref"
  by (auto simp: ReadByPublicRef_def bindP_def find_Some_iff split: if_splits prod.splits sum.splits option.splits)

interpretation registry_store: session_store "\<lambda>d ref. ReadByPublicRef faults parseTime s ref d" "\<lambda>_. Alive tmuxAlive"
  for faults parseTime s tmuxAlive
  by unfold_locales (rule ReadByPublicRef_ref)

subsection \<open>The script in the terminal page\<close>

datatype proxyError =
    ProxyFailure string
  | ProxyPanic

definition maxTerminalHTMLBytes :: nat where "maxTerminalHTMLBytes = 33554432"

definition terminalTransportObserver :: string where
  "terminalTransportObserver =
     ''<script src='' @ [CHR 0x22] @ ''/terminal-observer.js'' @ [CHR 0x22] @ ''></script>''"

text \<open>\<^verbatim>\<open>utf8.AppendRune\<close>.\<close>

definition encode_rune :: "rune \<Rightarrow> string" where
  "encode_rune r = map char_of
     (if r < 0x80 then [r]
      else if r < 0x800 then [0xC0 + r div 64, 0x80 + r mod 64]
      else if 0xD800 \<le> r \<and> r < 0xE000 \<or> 0x110000 \<le> r then [0xEF, 0xBF, 0xBD]
      else if r < 0x10000 then [0xE0 + r div 4096, 0x80 + r div 64 mod 64, 0x80 + r mod 64]
      else [0xF0 + r div 262144, 0x80 + r div 4096 mod 64, 0x80 + r div 64 mod 64, 0x80 + r mod 64])"

text \<open>
  \<^verbatim>\<open>bytes.ToLower\<close>: bytewise on ASCII, else rune by rune, where an invalid byte becomes U+FFFD. \<open>lowerRune\<close>
  is \<^verbatim>\<open>unicode.ToLower\<close> outside ASCII, which is a table of the library.
\<close>

definition bytes_ToLower :: "(rune \<Rightarrow> rune) \<Rightarrow> string \<Rightarrow> string" where
  "bytes_ToLower lowerRune body =
     (if list_all (\<lambda>c. byte c < 128) body then map lower_char body
      else concat (map (\<lambda>r. encode_rune (if r < 128 then byte (lower_char (char_of r)) else lowerRune r)) (runes body)))"

definition injectionPoint :: "(rune \<Rightarrow> rune) \<Rightarrow> string \<Rightarrow> nat" where
  "injectionPoint lowerRune body =
     (let lower = bytes_ToLower lowerRune body in
      case index_of lower ''<head'' of
        None \<Rightarrow> 0
      | Some head \<Rightarrow>
          (case index_byte (drop head lower) CHR ''>'' of None \<Rightarrow> 0 | Some end' \<Rightarrow> head + end' + 1))"

text \<open>
  \<open>readFails\<close> and \<open>closeFails\<close> say whether reading and closing the upstream's body fail. A slice bound
  beyond the body is a run-time panic.
\<close>

definition injectTerminalTransportObserver :: "(rune \<Rightarrow> rune) \<Rightarrow> bool \<Rightarrow> bool \<Rightarrow> Response \<Rightarrow> proxyError + Response" where
  "injectTerminalTransportObserver lowerRune readFails closeFails response =
     (if rs_Status response \<noteq> 200 \<or>
         \<not> has_prefix (to_lower (header_Get ''Content-Type'' (rs_Header response))) ''text/html'' then Inr response
      else if readFails then Inl (ProxyFailure ''read terminal HTML'')
      else if closeFails then Inl (ProxyFailure ''close terminal HTML'')
      else
        let body = take (maxTerminalHTMLBytes + 1) (rs_Body response) in
        if length body > maxTerminalHTMLBytes then Inl (ProxyFailure ''terminal HTML exceeds observer injection limit'')
        else
          let insertion = injectionPoint lowerRune body in
          if insertion > length body then Inl ProxyPanic
          else
            let modified = take insertion body @ terminalTransportObserver @ drop insertion body in
            Inr (response\<lparr>rs_Body := modified,
              rs_Header := header_Del ''Content-Md5'' (header_Del ''Etag''
                (header_Set ''Content-Length'' (itoa (int (length modified))) (rs_Header response)))\<rparr>))"

definition proxy_ModifyResponse :: "(rune \<Rightarrow> rune) \<Rightarrow> bool \<Rightarrow> bool \<Rightarrow> proxyTarget \<Rightarrow> Response \<Rightarrow> proxyError + Response" where
  "proxy_ModifyResponse lowerRune readFails closeFails target response0 =
     (let response = response0\<lparr>rs_Header :=
        header_Set ''X-Frame-Options'' ''SAMEORIGIN''
          (header_Set ''Content-Security-Policy'' (''frame-ancestors '' @ [CHR 0x27] @ ''self'' @ [CHR 0x27])
            (rs_Header response0))\<rparr> in
      if px_injectTransportObserver target
      then injectTerminalTransportObserver lowerRune readFails closeFails response else Inr response)"

subsection \<open>The output observer\<close>

text \<open>\<open>oc_frameHeader\<close> has 14 bytes. The payload length is a \<^verbatim>\<open>uint64\<close> read from at most 8 bytes and only decreases.\<close>

record outputObservingConn =
  oc_httpHeaderMatch :: nat
  oc_upgraded :: bool
  oc_frameHeader :: string
  oc_frameHeaderLen :: nat
  oc_frameHeaderNeed :: nat
  oc_payloadBytes :: nat
  oc_dataFrame :: bool

definition newConn :: outputObservingConn where
  "newConn = \<lparr>oc_httpHeaderMatch = 0, oc_upgraded = False, oc_frameHeader = replicate 14 CHR 0x00,
     oc_frameHeaderLen = 0, oc_frameHeaderNeed = 0, oc_payloadBytes = 0, oc_dataFrame = False\<rparr>"

text \<open>\<^verbatim>\<open>binary.BigEndian\<close>.\<close>

definition big_endian :: "string \<Rightarrow> nat" where
  "big_endian s = foldl (\<lambda>n c. n * 256 + byte c) 0 s"

definition beginFrame :: "outputObservingConn \<Rightarrow> outputObservingConn" where
  "beginFrame c =
     (let lengthCode = byte (oc_frameHeader c ! 1) mod 128;
          payload = (if lengthCode = 126 then big_endian (take 2 (drop 2 (oc_frameHeader c)))
            else if lengthCode = 127 then big_endian (take 8 (drop 2 (oc_frameHeader c)))
            else lengthCode);
          opcode = byte (oc_frameHeader c ! 0) mod 16;
          c' = c\<lparr>oc_payloadBytes := payload, oc_dataFrame := (opcode = 0 \<or> opcode = 1 \<or> opcode = 2)\<rparr> in
      if payload = 0 then c'\<lparr>oc_frameHeaderLen := 0, oc_frameHeaderNeed := 0\<rparr> else c')"

text \<open>\<^verbatim>\<open>copy(dst[at:], src)\<close>.\<close>

definition copy_at :: "string \<Rightarrow> nat \<Rightarrow> string \<Rightarrow> string" where
  "copy_at dst at src = take (length dst) (take at dst @ src @ drop (at + length src) dst)"

definition headerNeed :: "char \<Rightarrow> nat" where
  "headerNeed b =
     (let lengthCode = byte b mod 128;
          extendedBytes = (if lengthCode = 126 then 2 else if lengthCode = 127 then 8 else 0);
          maskBytes = (if byte b div 128 \<noteq> 0 then 4 else 0) in
      2 + extendedBytes + maskBytes)"

text \<open>
  The loop over the data. \<open>observed\<close> are the arguments of the calls of \<^verbatim>\<open>observe\<close> so far; \<open>None\<close> would be a
  loop that does not end.
\<close>

partial_function (option) inspectFrames :: "outputObservingConn \<Rightarrow> nat list \<Rightarrow> string \<Rightarrow>
    (outputObservingConn \<times> nat list) option" where
  "inspectFrames c observed data =
     (if data = [] then Some (c, observed)
      else if oc_payloadBytes c > 0 then
        (let consumed = min (length data) (oc_payloadBytes c);
             observed' = (if oc_dataFrame c then observed @ [consumed] else observed);
             c1 = c\<lparr>oc_payloadBytes := oc_payloadBytes c - consumed\<rparr>;
             c2 = (if oc_payloadBytes c1 = 0 then c1\<lparr>oc_frameHeaderLen := 0, oc_frameHeaderNeed := 0\<rparr> else c1) in
         inspectFrames c2 observed' (drop consumed data))
      else
        (let c1 = (if oc_frameHeaderNeed c = 0 then c\<lparr>oc_frameHeaderNeed := 2\<rparr> else c);
             needed = min (oc_frameHeaderNeed c1 - oc_frameHeaderLen c1) (length data);
             c2 = c1\<lparr>oc_frameHeader := copy_at (oc_frameHeader c1) (oc_frameHeaderLen c1) (take needed data),
               oc_frameHeaderLen := oc_frameHeaderLen c1 + needed\<rparr>;
             rest = drop needed data in
         if oc_frameHeaderLen c2 < oc_frameHeaderNeed c2 then inspectFrames c2 observed rest
         else if oc_frameHeaderNeed c2 = 2 then
           (let c3 = c2\<lparr>oc_frameHeaderNeed := headerNeed (oc_frameHeader c2 ! 1)\<rparr> in
            if oc_frameHeaderLen c3 < oc_frameHeaderNeed c3 then inspectFrames c3 observed rest
            else inspectFrames (beginFrame c3) observed rest)
         else inspectFrames (beginFrame c2) observed rest))"

definition headerEnd :: string where
  "headerEnd = [CHR 0x0D, CHR 0x0A, CHR 0x0D, CHR 0x0A]"

text \<open>
  The scan for the end of the HTTP header: the data after it, or the number of bytes matched so far.
\<close>

fun scanHeader :: "nat \<Rightarrow> string \<Rightarrow> nat + string" where
  "scanHeader match [] = Inl match"
| "scanHeader match (value # data) =
     (let match' = (if value = headerEnd ! match then Suc match else if value = headerEnd ! 0 then 1 else 0) in
      if match' = length headerEnd then Inr data else scanHeader match' data)"

definition inspect :: "outputObservingConn \<Rightarrow> nat list \<Rightarrow> string \<Rightarrow> (outputObservingConn \<times> nat list) option" where
  "inspect c observed data =
     (if \<not> oc_upgraded c then
        (case scanHeader (oc_httpHeaderMatch c) data of
           Inl match \<Rightarrow> Some (c\<lparr>oc_httpHeaderMatch := match\<rparr>, observed)
         | Inr rest \<Rightarrow>
             inspectFrames (c\<lparr>oc_httpHeaderMatch := length headerEnd, oc_upgraded := True\<rparr>) observed rest)
      else inspectFrames c observed data)"

text \<open>\<^verbatim>\<open>Read\<close>, call after call: \<open>chunks\<close> are what the calls of the underlying \<^verbatim>\<open>Read\<close> return.\<close>

definition conn_Read :: "outputObservingConn \<Rightarrow> nat list \<Rightarrow> string \<Rightarrow> (outputObservingConn \<times> nat list) option" where
  "conn_Read c observed chunk = (if length chunk > 0 then inspect c observed chunk else Some (c, observed))"

fun conn_Reads :: "outputObservingConn \<Rightarrow> nat list \<Rightarrow> string list \<Rightarrow> (outputObservingConn \<times> nat list) option" where
  "conn_Reads c observed [] = Some (c, observed)"
| "conn_Reads c observed (chunk # chunks) =
     (case conn_Read c observed chunk of None \<Rightarrow> None
      | Some (c', observed') \<Rightarrow> conn_Reads c' observed' chunks)"

subsection \<open>A reference for the observer\<close>

text \<open>
  The header at the start of a stream of WebSocket frames (RFC 6455, section 5.2): opcode, size of the
  header, length of the payload. The data opcodes are 0, 1 and 2. Counted are the payload bytes of data
  frames that are present in the stream, whose last frame may be cut off.
\<close>

definition ws_header :: "string \<Rightarrow> (nat \<times> nat \<times> nat) option" where
  "ws_header s =
     (case s of
        b0 # b1 # t \<Rightarrow>
          (let code = byte b1 mod 128;
               ext = (if code = 126 then 2 else if code = 127 then 8 else 0);
               hsize = 2 + ext + (if 128 \<le> byte b1 then 4 else 0) in
           if length s < hsize then None
           else Some (byte b0 mod 16, hsize, if ext = 0 then code else big_endian (take ext t)))
      | _ \<Rightarrow> None)"

lemma ws_header_size: "ws_header s = Some (opcode, hsize, n) \<Longrightarrow> 2 \<le> hsize \<and> hsize \<le> length s"
  by (auto simp: ws_header_def Let_def split: list.splits if_splits)

lemma ws_header_short: "length s < 2 \<Longrightarrow> ws_header s = None"
  by (cases s; cases "tl s") (simp_all add: ws_header_def)

definition header_ext :: "char \<Rightarrow> nat" where
  "header_ext b = (if byte b mod 128 = 126 then 2 else if byte b mod 128 = 127 then 8 else 0)"

lemma headerNeed_ext: "headerNeed b = 2 + header_ext b + (if 128 \<le> byte b then 4 else 0)"
  by (auto simp: headerNeed_def Let_def div_eq_0_iff header_ext_def)

lemma ws_header_Cons:
  "ws_header (b0 # b1 # u) = (if length (b0 # b1 # u) < headerNeed b1 then None else
     Some (byte b0 mod 16, headerNeed b1, if header_ext b1 = 0 then byte b1 mod 128 else big_endian (take (header_ext b1) u)))"
  by (simp only: ws_header_def list.case Let_def header_ext_def [symmetric] headerNeed_ext [symmetric])

function ws_data_bytes :: "string \<Rightarrow> nat" where
  "ws_data_bytes s =
     (case ws_header s of
        None \<Rightarrow> 0
      | Some (opcode, hsize, n) \<Rightarrow>
          (if opcode \<le> 2 then min n (length s - hsize) else 0) + ws_data_bytes (drop (hsize + n) s))"
  by pat_completeness auto
termination
  by (relation "measure length") (auto dest: ws_header_size)

declare ws_data_bytes.simps [simp del]

fun after_header :: "string \<Rightarrow> string option" where
  "after_header [] = None"
| "after_header (c # s) = (if has_prefix (c # s) headerEnd then Some (drop 3 s) else after_header s)"

definition stream_data_bytes :: "string \<Rightarrow> nat" where
  "stream_data_bytes s = (case after_header s of None \<Rightarrow> 0 | Some frames \<Rightarrow> ws_data_bytes frames)"

subsection \<open>The observer follows the reference\<close>

lemma copy_at_simps:
  assumes "at + length src \<le> length dst"
  shows "length (copy_at dst at src) = length dst"
    "take (at + length src) (copy_at dst at src) = take at dst @ src"
    "i < at \<Longrightarrow> copy_at dst at src ! i = dst ! i"
  using assms by (auto simp: copy_at_def nth_append)

lemma headerNeed_range: "2 \<le> headerNeed b \<and> headerNeed b \<le> 14"
  by (simp add: headerNeed_def Let_def)

definition frame_inv :: "outputObservingConn \<Rightarrow> bool" where
  "frame_inv c \<longleftrightarrow> length (oc_frameHeader c) = 14 \<and>
     (oc_payloadBytes c = 0 \<longrightarrow> oc_frameHeaderLen c = 0 \<and> oc_frameHeaderNeed c = 0 \<or>
        oc_frameHeaderLen c < oc_frameHeaderNeed c \<and>
        (oc_frameHeaderNeed c = 2 \<or>
         2 \<le> oc_frameHeaderLen c \<and> oc_frameHeaderNeed c = headerNeed (oc_frameHeader c ! 1)))"

text \<open>What the observer will still count when the rest of the stream is \<open>s\<close>.\<close>

definition pending :: "outputObservingConn \<Rightarrow> string \<Rightarrow> nat" where
  "pending c s =
     (if oc_payloadBytes c > 0
      then (if oc_dataFrame c then min (oc_payloadBytes c) (length s) else 0) + ws_data_bytes (drop (oc_payloadBytes c) s)
      else ws_data_bytes (take (oc_frameHeaderLen c) (oc_frameHeader c) @ s))"

lemma ws_header_complete:
  assumes "length h = 14"
  shows "ws_header (take (headerNeed (h ! 1)) h @ t) = Some (byte (h ! 0) mod 16, headerNeed (h ! 1),
     if byte (h ! 1) mod 128 = 126 then big_endian (take 2 (drop 2 h))
     else if byte (h ! 1) mod 128 = 127 then big_endian (take 8 (drop 2 h)) else byte (h ! 1) mod 128)"
proof -
  obtain b0 b1 r where h: "h = b0 # b1 # r"
    using assms by (cases h; cases "tl h") auto
  let ?n = "headerNeed b1"
  have split: "take ?n h @ t = b0 # b1 # take (?n - 2) r @ t"
    using headerNeed_range [of b1] by (simp add: h take_Cons' numeral_2_eq_2)
  note ws_header_Cons [of b0 b1 "take (?n - 2) r @ t"]
  moreover have "\<not> length (b0 # b1 # take (?n - 2) r @ t) < ?n"
    using headerNeed_range [of b1] assms by (auto simp: h)
  moreover have "take (header_ext b1) (take (?n - 2) r @ t) = take (header_ext b1) r"
  proof -
    have "header_ext b1 \<le> ?n - 2" "header_ext b1 \<le> length r" using headerNeed_ext [of b1] assms headerNeed_range [of b1] by (auto simp: h)
    then show ?thesis by (simp add: min_def)
  qed
  ultimately have "ws_header (take ?n h @ t) =
      Some (byte b0 mod 16, ?n, if header_ext b1 = 0 then byte b1 mod 128 else big_endian (take (header_ext b1) r))"
    unfolding split by (simp only: if_False)
  then have "ws_header (take ?n h @ t) =
      Some (byte b0 mod 16, ?n, if byte b1 mod 128 = 126 then big_endian (take 2 r)
        else if byte b1 mod 128 = 127 then big_endian (take 8 r) else byte b1 mod 128)"
    by (simp add: header_ext_def split: if_splits)
  then show ?thesis by (simp add: h)
qed

lemma beginFrame_pending:
  assumes "length (oc_frameHeader c) = 14" "oc_frameHeaderLen c = headerNeed (oc_frameHeader c ! 1)"
  shows "pending (beginFrame c) t = ws_data_bytes (take (oc_frameHeaderLen c) (oc_frameHeader c) @ t)"
    and "frame_inv (beginFrame c)" "oc_upgraded (beginFrame c) = oc_upgraded c"
proof -
  let ?h = "oc_frameHeader c"
  define n where "n = (if byte (?h ! 1) mod 128 = 126 then big_endian (take 2 (drop 2 ?h))
     else if byte (?h ! 1) mod 128 = 127 then big_endian (take 8 (drop 2 ?h)) else byte (?h ! 1) mod 128)"
  have hdr: "ws_header (take (headerNeed (?h ! 1)) ?h @ t) = Some (byte (?h ! 0) mod 16, headerNeed (?h ! 1), n)"
    using ws_header_complete [OF assms(1)] by (simp add: n_def)
  have hsize: "length (take (headerNeed (?h ! 1)) ?h) = headerNeed (?h ! 1)"
    using headerNeed_range [of "?h ! 1"] assms(1) by simp
  have opcode: "k \<le> 2 \<longleftrightarrow> k = 0 \<or> k = 1 \<or> k = 2" for k :: nat by auto
  have "ws_data_bytes (take (headerNeed (?h ! 1)) ?h @ t) =
      (if byte (?h ! 0) mod 16 \<le> 2 then min n (length t) else 0) + ws_data_bytes (drop n t)"
    by (subst ws_data_bytes.simps) (simp add: hdr hsize del: One_nat_def length_take)
  then show "pending (beginFrame c) t = ws_data_bytes (take (oc_frameHeaderLen c) ?h @ t)"
    unfolding assms(2) opcode
    by (cases "n = 0") (simp_all add: pending_def beginFrame_def Let_def n_def [symmetric] del: One_nat_def)
  show "frame_inv (beginFrame c)" "oc_upgraded (beginFrame c) = oc_upgraded c"
    using assms(1) by (auto simp: frame_inv_def beginFrame_def Let_def)
qed

definition follows :: "outputObservingConn \<Rightarrow> nat list \<Rightarrow> string \<Rightarrow> outputObservingConn \<times> nat list \<Rightarrow> bool" where
  "follows c observed data = (\<lambda>(c', observed'). frame_inv c' \<and> oc_upgraded c' = oc_upgraded c \<and>
     (\<forall>s. sum_list observed' + pending c' s = sum_list observed + pending c (data @ s)))"

lemma follows_step:
  assumes "follows c1 observed1 rest r" "oc_upgraded c1 = oc_upgraded c"
    and "\<And>s. sum_list observed1 + pending c1 (rest @ s) = sum_list observed + pending c (data @ s)"
  shows "follows c observed data r"
  using assms by (auto simp: follows_def)

lemma payload_step:
  assumes inv: "frame_inv c" and payload: "oc_payloadBytes c > 0" and consumed: "consumed = min (length data) (oc_payloadBytes c)"
    and c1: "c1 = c\<lparr>oc_payloadBytes := oc_payloadBytes c - consumed\<rparr>"
    and c2: "c2 = (if oc_payloadBytes c1 = 0 then c1\<lparr>oc_frameHeaderLen := 0, oc_frameHeaderNeed := 0\<rparr> else c1)"
  shows "frame_inv c2 \<and> oc_upgraded c2 = oc_upgraded c"
    and "(if oc_dataFrame c then consumed else 0) + pending c2 (drop consumed data @ s) = pending c (data @ s)"
proof -
  show "frame_inv c2 \<and> oc_upgraded c2 = oc_upgraded c"
    using inv by (auto simp: frame_inv_def c2 c1)
  show "(if oc_dataFrame c then consumed else 0) + pending c2 (drop consumed data @ s) = pending c (data @ s)"
  proof (cases "oc_payloadBytes c \<le> length data")
    case True
    then show ?thesis using payload by (simp add: pending_def c2 c1 consumed)
  next
    case False
    then show ?thesis using payload by (auto simp: pending_def c2 c1 consumed min_def)
  qed
qed

text \<open>One turn of the header branch: the bytes copied, and where they leave the header.\<close>

lemma header_step:
  assumes inv: "frame_inv c" and payload: "oc_payloadBytes c = 0" and data: "data \<noteq> []"
    and c1: "c1 = (if oc_frameHeaderNeed c = 0 then c\<lparr>oc_frameHeaderNeed := 2\<rparr> else c)"
    and needed: "needed = min (oc_frameHeaderNeed c1 - oc_frameHeaderLen c1) (length data)"
    and c2: "c2 = c1\<lparr>oc_frameHeader := copy_at (oc_frameHeader c1) (oc_frameHeaderLen c1) (take needed data),
       oc_frameHeaderLen := oc_frameHeaderLen c1 + needed\<rparr>"
  shows "0 < needed" "oc_payloadBytes c2 = 0" "oc_upgraded c2 = oc_upgraded c" "length (oc_frameHeader c2) = 14"
    "take (oc_frameHeaderLen c2) (oc_frameHeader c2) @ drop needed data @ s = take (oc_frameHeaderLen c) (oc_frameHeader c) @ data @ s"
    "oc_frameHeaderLen c2 \<le> oc_frameHeaderNeed c2"
    "oc_frameHeaderNeed c2 = 2 \<or> 2 \<le> oc_frameHeaderLen c2 \<and> oc_frameHeaderNeed c2 = headerNeed (oc_frameHeader c2 ! 1)"
proof -
  have need: "oc_frameHeaderLen c1 = oc_frameHeaderLen c" "oc_frameHeader c1 = oc_frameHeader c"
    "oc_frameHeaderLen c < oc_frameHeaderNeed c1"
    "oc_frameHeaderNeed c1 = 2 \<or> 2 \<le> oc_frameHeaderLen c \<and> oc_frameHeaderNeed c1 = headerNeed (oc_frameHeader c ! 1)"
    using inv payload by (auto simp: frame_inv_def c1)
  have len: "length (oc_frameHeader c) = 14" using inv by (simp add: frame_inv_def)
  have "oc_frameHeaderNeed c1 \<le> 14" using need(4) headerNeed_range [of "oc_frameHeader c ! 1"] by auto
  moreover have "needed \<le> length data" "oc_frameHeaderLen c + needed \<le> oc_frameHeaderNeed c1"
    using need by (auto simp: needed)
  ultimately have "oc_frameHeaderLen c1 + length (take needed data) \<le> length (oc_frameHeader c1)"
    using need len by simp
  note copy = copy_at_simps [OF this]
  show "0 < needed" using need(1,3) data by (simp add: needed)
  show "oc_payloadBytes c2 = 0" "oc_upgraded c2 = oc_upgraded c" using payload by (simp_all add: c2 c1)
  show "length (oc_frameHeader c2) = 14" using copy(1) need len by (simp add: c2)
  have "length (take needed data) = needed" using \<open>needed \<le> length data\<close> by simp
  then have "take (oc_frameHeaderLen c2) (oc_frameHeader c2) = take (oc_frameHeaderLen c) (oc_frameHeader c) @ take needed data"
    using copy(2) need by (simp add: c2)
  then show "take (oc_frameHeaderLen c2) (oc_frameHeader c2) @ drop needed data @ s = take (oc_frameHeaderLen c) (oc_frameHeader c) @ data @ s"
    by (metis append.assoc append_take_drop_id)
  show "oc_frameHeaderLen c2 \<le> oc_frameHeaderNeed c2" using \<open>oc_frameHeaderLen c + needed \<le> _\<close> need(1) by (simp add: c2)
  show "oc_frameHeaderNeed c2 = 2 \<or> 2 \<le> oc_frameHeaderLen c2 \<and> oc_frameHeaderNeed c2 = headerNeed (oc_frameHeader c2 ! 1)"
    using need copy(3) [of 1] by (auto simp: c2)
qed

lemma header_next:
  assumes zero: "oc_payloadBytes c2 = 0" and up: "oc_upgraded c2 = oc_upgraded c" and len: "length (oc_frameHeader c2) = 14"
    and le: "oc_frameHeaderLen c2 \<le> oc_frameHeaderNeed c2"
    and need: "oc_frameHeaderNeed c2 = 2 \<or> 2 \<le> oc_frameHeaderLen c2 \<and> oc_frameHeaderNeed c2 = headerNeed (oc_frameHeader c2 ! 1)"
    and c3: "c3 = (if oc_frameHeaderLen c2 < oc_frameHeaderNeed c2 then c2
        else if oc_frameHeaderNeed c2 = 2 then
          (let c3 = c2\<lparr>oc_frameHeaderNeed := headerNeed (oc_frameHeader c2 ! 1)\<rparr> in
           if oc_frameHeaderLen c3 < oc_frameHeaderNeed c3 then c3 else beginFrame c3)
        else beginFrame c2)"
  shows "frame_inv c3 \<and> oc_upgraded c3 = oc_upgraded c \<and>
    (\<forall>t. pending c3 t = ws_data_bytes (take (oc_frameHeaderLen c2) (oc_frameHeader c2) @ t))"
proof (cases "oc_frameHeaderLen c2 < oc_frameHeaderNeed c2")
  case True
  then show ?thesis using zero up len need by (simp add: c3 frame_inv_def pending_def)
next
  case False
  with le have eq: "oc_frameHeaderLen c2 = oc_frameHeaderNeed c2" by simp
  define c' where "c' = c2\<lparr>oc_frameHeaderNeed := headerNeed (oc_frameHeader c2 ! 1)\<rparr>"
  show ?thesis
  proof (cases "oc_frameHeaderNeed c2 = 2 \<and> oc_frameHeaderLen c' < oc_frameHeaderNeed c'")
    case True
    then have "c3 = c'" using False by (simp add: c3 c'_def Let_def)
    then show ?thesis using True eq zero up len by (auto simp: c'_def frame_inv_def pending_def)
  next
    case complete: False
    define c'' where "c'' = (if oc_frameHeaderNeed c2 = 2 then c' else c2)"
    have same: "oc_frameHeaderLen c'' = oc_frameHeaderLen c2" "oc_frameHeader c'' = oc_frameHeader c2" "oc_upgraded c'' = oc_upgraded c2"
      by (simp_all add: c''_def c'_def)
    have "c3 = beginFrame c''" using False complete by (auto simp: c3 c''_def c'_def Let_def)
    moreover have "length (oc_frameHeader c'') = 14" "oc_frameHeaderLen c'' = headerNeed (oc_frameHeader c'' ! 1)"
      using complete eq need len headerNeed_range [of "oc_frameHeader c2 ! 1"] by (auto simp: c''_def c'_def)
    ultimately show ?thesis
      using beginFrame_pending [of c''] up same by simp
  qed
qed

lemma inspectFrames_follows:
  assumes "frame_inv c"
  shows "\<exists>r. inspectFrames c observed data = Some r \<and> follows c observed data r"
  using assms
proof (induction data arbitrary: c observed rule: length_induct)
  case (1 data)
  note IH = 1(1) [rule_format] and inv = 1(2)
  show ?case
  proof (cases "data = []")
    case True
    then show ?thesis using inv by (simp add: inspectFrames.simps follows_def)
  next
    case data: False
    show ?thesis
    proof (cases "oc_payloadBytes c > 0")
      case True
      define consumed where "consumed = min (length data) (oc_payloadBytes c)"
      define c1 where "c1 = c\<lparr>oc_payloadBytes := oc_payloadBytes c - consumed\<rparr>"
      define c2 where "c2 = (if oc_payloadBytes c1 = 0 then c1\<lparr>oc_frameHeaderLen := 0, oc_frameHeaderNeed := 0\<rparr> else c1)"
      note P = payload_step [OF inv True consumed_def c1_def c2_def]
      let ?observed = "if oc_dataFrame c then observed @ [consumed] else observed"
      have "length (drop consumed data) < length data" using True data by (simp add: consumed_def)
      then obtain r where r: "inspectFrames c2 ?observed (drop consumed data) = Some r" "follows c2 ?observed (drop consumed data) r"
        using IH P(1) by blast
      have "inspectFrames c observed data = Some r"
        by (subst inspectFrames.simps)
          (simp only: Let_def data True if_False if_True consumed_def [symmetric] c1_def [symmetric] c2_def [symmetric] r(1))
      moreover have "follows c observed data r"
      proof (rule follows_step [OF r(2)])
        show "sum_list ?observed + pending c2 (drop consumed data @ s) = sum_list observed + pending c (data @ s)" for s
          using P(2) [of s] by (cases "oc_dataFrame c") simp_all
      qed (use P(1) in blast)
      ultimately show ?thesis by blast
    next
      case False
      then have zero: "oc_payloadBytes c = 0" by simp
      define c1 where "c1 = (if oc_frameHeaderNeed c = 0 then c\<lparr>oc_frameHeaderNeed := 2\<rparr> else c)"
      define needed where "needed = min (oc_frameHeaderNeed c1 - oc_frameHeaderLen c1) (length data)"
      define c2 where "c2 = c1\<lparr>oc_frameHeader := copy_at (oc_frameHeader c1) (oc_frameHeaderLen c1) (take needed data),
         oc_frameHeaderLen := oc_frameHeaderLen c1 + needed\<rparr>"
      note H = header_step [OF inv zero data c1_def needed_def c2_def]
      define c3 where "c3 = (if oc_frameHeaderLen c2 < oc_frameHeaderNeed c2 then c2
        else if oc_frameHeaderNeed c2 = 2 then
          (let c3 = c2\<lparr>oc_frameHeaderNeed := headerNeed (oc_frameHeader c2 ! 1)\<rparr> in
           if oc_frameHeaderLen c3 < oc_frameHeaderNeed c3 then c3 else beginFrame c3)
        else beginFrame c2)"
      have "inspectFrames c observed data = inspectFrames c3 observed (drop needed data)"
        unfolding c3_def
        by (subst inspectFrames.simps)
          (simp only: Let_def data False if_False c1_def [symmetric] needed_def [symmetric] c2_def [symmetric] split: if_splits, simp)
      moreover have c3: "frame_inv c3" "oc_upgraded c3 = oc_upgraded c" "\<And>s. pending c3 (drop needed data @ s) = pending c (data @ s)"
        using header_next [OF H(2,3,4,6,7) c3_def] by (simp_all only: H(5) simp_thms) (simp add: pending_def zero)
      moreover have "length (drop needed data) < length data" using H(1) data by simp
      then obtain r where "inspectFrames c3 observed (drop needed data) = Some r" "follows c3 observed (drop needed data) r"
        using IH c3(1) by blast
      moreover from this(2) have "follows c observed data r" by (rule follows_step) (simp_all add: c3)
      ultimately show ?thesis by simp
    qed
  qed
qed

lemma scan_byte:
  assumes "k < 4" "match = (if v = headerEnd ! k then Suc k else if v = headerEnd ! 0 then 1 else 0)"
  shows "match = 4 \<Longrightarrow> after_header (take k headerEnd @ v # u) = Some u"
    and "match \<noteq> 4 \<Longrightarrow> match < 4 \<and> after_header (take k headerEnd @ v # u) = after_header (take match headerEnd @ u)"
proof -
  consider "k = 0" | "k = 1" | "k = 2" | "k = 3" using assms(1) by linarith
  then show "match = 4 \<Longrightarrow> after_header (take k headerEnd @ v # u) = Some u"
    and "match \<noteq> 4 \<Longrightarrow> match < 4 \<and> after_header (take k headerEnd @ v # u) = after_header (take match headerEnd @ u)"
    using assms(2) by (cases; auto simp: headerEnd_def has_prefix_def split: if_splits)+
qed

lemma scan_follows:
  "k < 4 \<Longrightarrow>
     (case scanHeader k data of
        Inr t \<Rightarrow> (\<forall>s. after_header (take k headerEnd @ data @ s) = Some (t @ s))
      | Inl k' \<Rightarrow> k' < 4 \<and> (\<forall>s. after_header (take k headerEnd @ data @ s) = after_header (take k' headerEnd @ s)))"
proof (induction data arbitrary: k)
  case (Cons v data)
  define match where "match = (if v = headerEnd ! k then Suc k else if v = headerEnd ! 0 then 1 else 0)"
  have scan: "scanHeader k (v # data) = (if match = 4 then Inr data else scanHeader match data)"
    by (simp add: match_def headerEnd_def Let_def)
  note B = scan_byte [OF Cons.prems match_def]
  show ?case
  proof (cases "match = 4")
    case True
    then show ?thesis using B(1) by (simp only: scan if_True sum.case append_Cons) simp
  next
    case False
    then have "match < 4" and step: "after_header (take k headerEnd @ v # u) = after_header (take match headerEnd @ u)" for u
      using B(2) by blast+
    from Cons.IH [OF this(1)] False show ?thesis by (simp only: scan if_False append_Cons step)
  qed
qed simp

definition conn_pending :: "outputObservingConn \<Rightarrow> string \<Rightarrow> nat" where
  "conn_pending c s =
     (if oc_upgraded c then pending c s
      else case after_header (take (oc_httpHeaderMatch c) headerEnd @ s) of None \<Rightarrow> 0 | Some frames \<Rightarrow> pending c frames)"

definition conn_inv :: "outputObservingConn \<Rightarrow> bool" where
  "conn_inv c \<longleftrightarrow> frame_inv c \<and> (\<not> oc_upgraded c \<longrightarrow> oc_httpHeaderMatch c < 4)"

lemma conn_Read_follows:
  assumes "conn_inv c"
  shows "\<exists>c' observed'. conn_Read c observed chunk = Some (c', observed') \<and> conn_inv c' \<and>
    (\<forall>s. sum_list observed' + conn_pending c' s = sum_list observed + conn_pending c (chunk @ s))"
proof (cases "chunk = [] \<or> oc_upgraded c")
  case True
  then show ?thesis
    using assms inspectFrames_follows [of c observed chunk]
    by (auto simp: conn_Read_def inspect_def conn_inv_def conn_pending_def follows_def)
next
  case False
  then have k: "oc_httpHeaderMatch c < 4" and inv: "frame_inv c" using assms by (auto simp: conn_inv_def)
  note S = scan_follows [OF k, of chunk]
  show ?thesis
  proof (cases "scanHeader (oc_httpHeaderMatch c) chunk")
    case (Inl match)
    have same: "pending (c\<lparr>oc_httpHeaderMatch := match\<rparr>) = pending c"
      by (rule ext) (simp add: pending_def)
    show ?thesis
      using False S inv by (auto simp: Inl conn_Read_def inspect_def conn_inv_def frame_inv_def conn_pending_def same
          split: option.splits)
  next
    case (Inr rest)
    define c1 where "c1 = c\<lparr>oc_httpHeaderMatch := length headerEnd, oc_upgraded := True\<rparr>"
    have c1: "frame_inv c1" "pending c1 = pending c" "oc_upgraded c1"
      using inv by (auto simp: frame_inv_def c1_def pending_def)
    obtain c' observed' where r: "inspectFrames c1 observed rest = Some (c', observed')" "follows c1 observed rest (c', observed')"
      using inspectFrames_follows [OF c1(1), of observed rest] by auto
    have "conn_Read c observed chunk = Some (c', observed')"
      using False r(1) Inr by (simp add: conn_Read_def inspect_def c1_def)
    then show ?thesis
      using False S r(2) c1 by (auto simp: Inr follows_def conn_inv_def conn_pending_def)
  qed
qed

lemma conn_Reads_follows:
  assumes "conn_inv c"
  shows "\<exists>c' observed'. conn_Reads c observed chunks = Some (c', observed') \<and> conn_inv c' \<and>
    (\<forall>s. sum_list observed' + conn_pending c' s = sum_list observed + conn_pending c (concat chunks @ s))"
  using assms
proof (induction chunks arbitrary: c observed)
  case (Cons chunk chunks)
  obtain c1 observed1 where 1: "conn_Read c observed chunk = Some (c1, observed1)" "conn_inv c1"
      "\<forall>s. sum_list observed1 + conn_pending c1 s = sum_list observed + conn_pending c (chunk @ s)"
    using conn_Read_follows [OF Cons.prems] by blast
  then show ?case using Cons.IH [OF 1(2), of observed1] by auto
qed auto

lemma ws_data_bytes_incomplete: "frame_inv c \<Longrightarrow> pending c [] = 0"
proof -
  assume inv: "frame_inv c"
  show ?thesis
  proof (cases "oc_payloadBytes c = 0")
    case False
    then show ?thesis by (simp add: pending_def ws_data_bytes.simps ws_header_def)
  next
    case True
    let ?h = "take (oc_frameHeaderLen c) (oc_frameHeader c)"
    have "ws_header ?h = None"
    proof (cases "oc_frameHeaderLen c < 2")
      case True
      then show ?thesis by (intro ws_header_short) simp
    next
      case False
      then have "oc_frameHeaderLen c < headerNeed (oc_frameHeader c ! 1)" "length (oc_frameHeader c) = 14"
        using True inv by (auto simp: frame_inv_def)
      moreover then obtain b0 b1 r where h: "oc_frameHeader c = b0 # b1 # r"
        by (cases "oc_frameHeader c"; cases "tl (oc_frameHeader c)") auto
      moreover from this False have "?h = b0 # b1 # take (oc_frameHeaderLen c - 2) r"
        by (simp add: take_Cons' numeral_2_eq_2)
      ultimately show ?thesis using False by (simp add: ws_header_Cons)
    qed
    then show ?thesis using True by (simp add: pending_def ws_data_bytes.simps)
  qed
qed

subsection \<open>The injected script\<close>

lemma injectionPoint_ascii:
  assumes "list_all (\<lambda>c. byte c < 128) body"
  shows "injectionPoint lowerRune body \<le> length body"
    and "0 < injectionPoint lowerRune body \<Longrightarrow> body ! (injectionPoint lowerRune body - 1) = CHR ''>''"
proof -
  define lower where "lower = map lower_char body"
  have gt: "lower_char c = CHR ''>'' \<longleftrightarrow> c = CHR ''>''" for c
  proof
    assume c: "lower_char c = CHR ''>''"
    then have "byte (lower_char c) = 62" by simp
    then have "\<not> is_upper c" by (auto simp: lower_char_def is_upper_def)
    with c show "c = CHR ''>''" by (simp add: lower_char_def)
  qed (simp add: lower_char_def is_upper_def)
  have point: "injectionPoint lowerRune body =
      (case index_of lower ''<head'' of None \<Rightarrow> 0 | Some head \<Rightarrow>
         (case index_byte (drop head lower) CHR ''>'' of None \<Rightarrow> 0 | Some k \<Rightarrow> head + k + 1))"
    unfolding lower_def using assms by (simp add: injectionPoint_def bytes_ToLower_def Let_def)
  have found: "head + k < length body \<and> body ! (head + k) = CHR ''>''"
    if "index_byte (drop head lower) CHR ''>'' = Some k" for head k
    using index_byte_Some [OF that] by (auto simp: lower_def gt)
  show "injectionPoint lowerRune body \<le> length body"
    "0 < injectionPoint lowerRune body \<Longrightarrow> body ! (injectionPoint lowerRune body - 1) = CHR ''>''"
    using found by (auto simp: point Suc_le_eq split: option.splits)
qed

text \<open>
  A page in ASCII keeps its bytes: the script is put right after the tag that opens the head, or at the
  start, and the announced length is the length of the new body.
\<close>

lemma inject_ascii:
  assumes "list_all (\<lambda>c. byte c < 128) (rs_Body response)" "length (rs_Body response) \<le> maxTerminalHTMLBytes"
    and "rs_Status response = 200" "has_prefix (to_lower (header_Get ''Content-Type'' (rs_Header response))) ''text/html''"
  shows "\<exists>before after response'. injectTerminalTransportObserver lowerRune False False response = Inr response' \<and>
    rs_Body response = before @ after \<and> rs_Body response' = before @ terminalTransportObserver @ after \<and>
    (before = [] \<or> last before = CHR ''>'') \<and>
    header_Get ''Content-Length'' (rs_Header response') = itoa (int (length (rs_Body response')))"
proof -
  let ?b = "rs_Body response" and ?k = "injectionPoint lowerRune (rs_Body response)"
  note P = injectionPoint_ascii [OF assms(1), of lowerRune]
  have "last (take ?k ?b) = CHR ''>''" if "0 < ?k"
  proof -
    have "take ?k ?b \<noteq> []" "length (take ?k ?b) = ?k" using P(1) that by auto
    then show ?thesis using P(2) [OF that] that by (simp add: last_conv_nth)
  qed
  then show ?thesis
    using assms(2-4) P(1) by (intro exI [of _ "take ?k ?b"] exI [of _ "drop ?k ?b"])
      (auto simp: injectTerminalTransportObserver_def Let_def)
qed

text \<open>
  Outside ASCII the lower-cased copy can be longer than the page, since an invalid byte becomes three:
  the position found in the copy may then lie beyond the end of the page.
\<close>

theorem inject_index_mismatch:
  "injectTerminalTransportObserver (\<lambda>r. r) False False
     \<lparr>rs_Status = 200, rs_Header = [(''Content-Type'', [''text/html''])], rs_Body = CHR 0xFF # ''<head>''\<rparr> = Inl ProxyPanic"
proof -
  define body where "body = CHR 0xFF # ''<head>''"
  have "runes body = rune_error # runes ''<head>''"
    by (subst runes.simps) (simp add: body_def decode_rune_def)
  then have runes: "runes body = rune_error # map byte ''<head>''"
    by (simp add: runes_ascii)
  have wide: "\<not> list_all (\<lambda>c. byte c < 128) body" by (simp add: body_def)
  have "encode_rune rune_error = map char_of [0xEF :: nat, 0xBF, 0xBD]"
    by (simp add: encode_rune_def rune_error_def)
  also have "\<dots> = [CHR 0xEF, CHR 0xBF, CHR 0xBD]" by code_simp
  finally have "encode_rune rune_error = [CHR 0xEF, CHR 0xBF, CHR 0xBD]" .
  moreover have "concat (map (\<lambda>r. encode_rune (if r < 128 then byte (lower_char (char_of r)) else r)) (map byte ''<head>'')) = ''<head>''"
    by code_simp
  ultimately have "bytes_ToLower (\<lambda>r. r) body = [CHR 0xEF, CHR 0xBF, CHR 0xBD] @ ''<head>''"
    unfolding bytes_ToLower_def runes using wide
    by (simp only: if_False list.map concat.simps) (simp add: rune_error_def)
  moreover have "index_of ([CHR 0xEF, CHR 0xBF, CHR 0xBD] @ ''<head>'') ''<head'' = Some 3" by code_simp
  ultimately have "length body < injectionPoint (\<lambda>r. r) body"
    by (simp add: injectionPoint_def body_def)
  moreover have "has_prefix (to_lower ''text/html'') ''text/html''" by code_simp
  moreover have "length body \<le> maxTerminalHTMLBytes" by (simp add: body_def maxTerminalHTMLBytes_def)
  ultimately have "injectTerminalTransportObserver (\<lambda>r. r) False False
     \<lparr>rs_Status = 200, rs_Header = [(''Content-Type'', [''text/html''])], rs_Body = body\<rparr> = Inl ProxyPanic"
    by (simp add: injectTerminalTransportObserver_def header_Get_def header_Values_def Let_def)
  then show ?thesis by (simp only: body_def)
qed

subsection \<open>Properties\<close>

text \<open>
  C20. The output observer is exact and independent of how the network cuts the stream: for every
  sequence of reads its loops end, and the numbers it reports add up to the payload bytes of the data
  frames (text, binary, continuation; not control frames) that follow the HTTP header in the stream, as
  given by the reference that parses the concatenated stream at once.
\<close>

theorem output_observer_exact:
  "\<exists>c observed. conn_Reads newConn [] chunks = Some (c, observed) \<and>
     sum_list observed = stream_data_bytes (concat chunks)"
proof -
  have "conn_inv newConn" by (simp add: conn_inv_def frame_inv_def newConn_def)
  then obtain c observed where r: "conn_Reads newConn [] chunks = Some (c, observed)" "conn_inv c"
      "\<forall>s. sum_list observed + conn_pending c s = conn_pending newConn (concat chunks @ s)"
    using conn_Reads_follows [of newConn "[]" chunks] by auto
  have "conn_pending c [] = 0"
  proof (cases "oc_upgraded c")
    case True
    then show ?thesis using r(2) by (simp add: conn_pending_def ws_data_bytes_incomplete conn_inv_def)
  next
    case False
    then have "oc_httpHeaderMatch c < 4" using r(2) by (simp add: conn_inv_def)
    then have "oc_httpHeaderMatch c \<in> {0, 1, 2, 3}" by auto
    then have "after_header (take (oc_httpHeaderMatch c) headerEnd) = None"
      by (auto simp: headerEnd_def has_prefix_def)
    then show ?thesis using False by (simp add: conn_pending_def)
  qed
  moreover have "conn_pending newConn s = stream_data_bytes s" for s
    by (simp add: conn_pending_def newConn_def stream_data_bytes_def pending_def split: option.splits)
  ultimately show ?thesis using r(1) r(3) [rule_format, of "[]"] by simp
qed

end
