(* ===== verification/Auth.thy ===== *)
theory Auth
  imports Http Registry
begin

section \<open>Authentication\<close>

text \<open>
  \<^verbatim>\<open>internal/auth/auth.go\<close>: the password check, the signed login cookie, the CSRF token of a login and the
  file of the signing secret. \<open>sha256\<close> and \<open>hmac\<close> (HMAC-SHA256, key first) are arguments of the definitions
  that use them, as are the time and the random bytes. A comparison in constant time is an equality.

  The lemmas show when a cookie made by a login is accepted, that an accepted cookie comes from a login
  (if MACs cannot be forged), in spite of the same key being used for CSRF tokens, that a CSRF token is
  bound to its login, and what a failure while the secret file is created leaves behind.
\<close>

definition CookieName :: string where "CookieName = ''control_agents_session''"
definition SecretSize :: nat where "SecretSize = 32"
definition csrfDomain :: string where "csrfDomain = ''control-agents-csrf-v1'' @ [CHR 0x00]"

record Authenticator =
  au_passwordHash :: string
  au_secret :: string
  au_ttl :: duration
  au_secureCookie :: bool

datatype authError =
    AuthFailure string
  | AuthNotExist
  | AuthExist

definition randomSecret :: "string option \<Rightarrow> authError + string" where
  "randomSecret random = (case random of None \<Rightarrow> Inl (AuthFailure ''generate auth secret'') | Some secret \<Rightarrow> Inr secret)"

definition New :: "(string \<Rightarrow> string) \<Rightarrow> string option \<Rightarrow> string \<Rightarrow> duration \<Rightarrow> bool \<Rightarrow> authError + Authenticator" where
  "New sha256 random password ttl secureCookie =
     (if password = [] then Inl (AuthFailure ''password cannot be empty'')
      else if ttl \<le> 0 then Inl (AuthFailure ''ttl must be positive'')
      else bindR (randomSecret random) (\<lambda>secret.
        Inr \<lparr>au_passwordHash = sha256 password, au_secret = secret, au_ttl = ttl, au_secureCookie = secureCookie\<rparr>))"

definition NewWithSecret :: "(string \<Rightarrow> string) \<Rightarrow> string \<Rightarrow> duration \<Rightarrow> bool \<Rightarrow> string \<Rightarrow> authError + Authenticator" where
  "NewWithSecret sha256 password ttl secureCookie secret =
     (if password = [] then Inl (AuthFailure ''password cannot be empty'')
      else if ttl \<le> 0 then Inl (AuthFailure ''ttl must be positive'')
      else if length secret \<noteq> SecretSize then Inl (AuthFailure ''auth secret must be 32 bytes'')
      else Inr \<lparr>au_passwordHash = sha256 password, au_secret = secret, au_ttl = ttl, au_secureCookie = secureCookie\<rparr>)"

subsection \<open>The secret file\<close>

text \<open>The content of a path is \<open>None\<close> if it is not a regular file.\<close>

type_synonym 'a secrets = "(string option disk, authError, 'a) prog"

definition parseSecret :: "string \<Rightarrow> authError + string" where
  "parseSecret data =
     (case b64_decode (trim_space data) of
        None \<Rightarrow> Inl (AuthFailure ''decode auth secret'')
      | Some secret \<Rightarrow>
          if length secret \<noteq> SecretSize then Inl (AuthFailure ''auth secret must be 32 bytes'') else Inr secret)"

definition readSecretFile :: "faults \<Rightarrow> string \<Rightarrow> string secrets" where
  "readSecretFile faults path =
     bindP (readFile faults AuthNotExist (AuthFailure ''stat auth secret'') path) (\<lambda>content.
       if content = None then failP (AuthFailure ''auth secret must be a regular file'')
       else
         bindP (sysCall faults (AuthFailure ''set auth secret permissions'')) (\<lambda>_.
         bindP (readFile faults AuthNotExist (AuthFailure ''read auth secret'') path) (\<lambda>content'.
           case content' of None \<Rightarrow> failP (AuthFailure ''read auth secret'') | Some data \<Rightarrow> returnP data)))"

text \<open>
  \<^verbatim>\<open>os.OpenFile\<close> with \<^verbatim>\<open>O_CREATE|O_EXCL\<close>. Other processes act on the directory before it (\<open>env\<close>).
\<close>

definition openExclusive :: "faults \<Rightarrow> (string option disk \<Rightarrow> string option disk) \<Rightarrow> string \<Rightarrow> unit secrets" where
  "openExclusive faults env path = (\<lambda>d0.
     let d = env d0 in
     bindP (sysCall faults (AuthFailure ''create auth secret'')) (\<lambda>_ d.
       if map_of (dk_files d) path \<noteq> None then (Inl AuthExist, d)
       else (Inr (), d\<lparr>dk_files := gm_put path (Some []) (dk_files d)\<rparr>)) d)"

definition loadOrCreateSecret :: "faults \<Rightarrow> (string option disk \<Rightarrow> string option disk) \<Rightarrow> string option \<Rightarrow> string \<Rightarrow> string secrets" where
  "loadOrCreateSecret faults env random path =
     bindP (sysCall faults (AuthFailure ''create auth secret dir'')) (\<lambda>_.
     bindP (sysCall faults (AuthFailure ''set auth secret dir permissions'')) (\<lambda>_.
     tryP (readSecretFile faults path) (\<lambda>r.
       case r of
         Inr data \<Rightarrow> liftP (parseSecret data)
       | Inl err \<Rightarrow>
           if err \<noteq> AuthNotExist then failP err
           else
             bindP (liftP (randomSecret random)) (\<lambda>secret.
             tryP (openExclusive faults env path) (\<lambda>opened.
               case opened of
                 Inl AuthExist \<Rightarrow> bindP (readSecretFile faults path) (\<lambda>data. liftP (parseSecret data))
               | Inl err \<Rightarrow> failP err
               | Inr _ \<Rightarrow>
                   bindP (sysCall faults (AuthFailure ''set auth secret permissions'')) (\<lambda>_.
                   bindP (sysCall faults (AuthFailure ''write auth secret'')) (\<lambda>_.
                   bindP (diskUpdate (\<lambda>d. gm_put path (Some (b64_encode secret @ [CHR 0x0A])) (dk_files d))) (\<lambda>_.
                     returnP secret))))))))"

definition LoadOrCreateSecret :: "faults \<Rightarrow> (string option disk \<Rightarrow> string option disk) \<Rightarrow> string option \<Rightarrow> string \<Rightarrow> string secrets" where
  "LoadOrCreateSecret faults env random path = loadOrCreateSecret faults env random path"

subsection \<open>Login cookies\<close>

definition CheckPassword :: "(string \<Rightarrow> string) \<Rightarrow> Authenticator \<Rightarrow> string \<Rightarrow> bool" where
  "CheckPassword sha256 a password \<longleftrightarrow> au_passwordHash a = sha256 password"

definition loginPayload :: "int \<Rightarrow> string \<Rightarrow> string" where
  "loginPayload issuedAt nonce = itoa issuedAt @ '':'' @ b64_encode nonce"

definition sign :: "(string \<Rightarrow> string \<Rightarrow> string) \<Rightarrow> Authenticator \<Rightarrow> int \<Rightarrow> string \<Rightarrow> string" where
  "sign hmac a issuedAt nonce =
     (let payload = loginPayload issuedAt nonce; signature = hmac (au_secret a) payload in
      b64_encode payload @ ''.'' @ b64_encode signature)"

definition verify :: "(string \<Rightarrow> string \<Rightarrow> string) \<Rightarrow> Authenticator \<Rightarrow> time \<Rightarrow> string \<Rightarrow> bool" where
  "verify hmac a now value =
     (case cut value CHR ''.'' of
        None \<Rightarrow> False
      | Some (payloadPart, signaturePart) \<Rightarrow>
          (case b64_decode payloadPart of
             None \<Rightarrow> False
           | Some payloadBytes \<Rightarrow>
               (case b64_decode signaturePart of
                  None \<Rightarrow> False
                | Some signature \<Rightarrow>
                    if signature \<noteq> hmac (au_secret a) payloadBytes then False
                    else
                      (case cut payloadBytes CHR '':'' of
                         None \<Rightarrow> False
                       | Some (issuedAtText, _) \<Rightarrow>
                           (case parse_int issuedAtText of
                              None \<Rightarrow> False
                            | Some issuedAt \<Rightarrow>
                                let issued = unix_time issuedAt in
                                \<not> issued > now + 30 * second \<and> time_sub now issued \<le> au_ttl a)))))"

record Cookie =
  ck_Name :: string
  ck_Value :: string
  ck_Secure :: bool
  ck_MaxAge :: int
  ck_Expires :: time

text \<open>
  The cookies are set for the path \<^verbatim>\<open>/\<close>, \<^verbatim>\<open>HttpOnly\<close> and \<^verbatim>\<open>SameSite=Strict\<close>. \<open>None\<close> is a wrong password. \<^verbatim>\<open>time.Unix(1, 0)\<close>
  is in the past, which with the negative age deletes the cookie.
\<close>

definition Login :: "(string \<Rightarrow> string) \<Rightarrow> (string \<Rightarrow> string \<Rightarrow> string) \<Rightarrow> Authenticator \<Rightarrow> string \<Rightarrow> time \<Rightarrow> string \<Rightarrow> Cookie option" where
  "Login sha256 hmac a password now nonce =
     (if \<not> CheckPassword sha256 a password then None
      else Some \<lparr>ck_Name = CookieName, ck_Value = sign hmac a (now div second) nonce, ck_Secure = au_secureCookie a,
        ck_MaxAge = au_ttl a div second, ck_Expires = now + au_ttl a\<rparr>)"

definition Logout :: "Authenticator \<Rightarrow> Cookie" where
  "Logout a = \<lparr>ck_Name = CookieName, ck_Value = [], ck_Secure = au_secureCookie a, ck_MaxAge = -1, ck_Expires = unix_time 1\<rparr>"

definition Authenticated :: "(string \<Rightarrow> string \<Rightarrow> string) \<Rightarrow> Authenticator \<Rightarrow> time \<Rightarrow> Request \<Rightarrow> bool" where
  "Authenticated hmac a now r = (case rq_Cookie CookieName r of None \<Rightarrow> False | Some value \<Rightarrow> verify hmac a now value)"

definition LoginScope :: "(string \<Rightarrow> string) \<Rightarrow> (string \<Rightarrow> string \<Rightarrow> string) \<Rightarrow> Authenticator \<Rightarrow> time \<Rightarrow> Request \<Rightarrow> string option" where
  "LoginScope sha256 hmac a now r =
     (case rq_Cookie CookieName r of
        None \<Rightarrow> None
      | Some value \<Rightarrow> if verify hmac a now value then Some (b64_encode (sha256 value)) else None)"

definition CSRFToken :: "(string \<Rightarrow> string \<Rightarrow> string) \<Rightarrow> Authenticator \<Rightarrow> time \<Rightarrow> Request \<Rightarrow> string option" where
  "CSRFToken hmac a now r =
     (case rq_Cookie CookieName r of
        None \<Rightarrow> None
      | Some value \<Rightarrow>
          if verify hmac a now value then Some (b64_encode (hmac (au_secret a) (csrfDomain @ value))) else None)"

definition VerifyCSRF :: "(string \<Rightarrow> string \<Rightarrow> string) \<Rightarrow> Authenticator \<Rightarrow> time \<Rightarrow> Request \<Rightarrow> string \<Rightarrow> bool" where
  "VerifyCSRF hmac a now r token =
     (case CSRFToken hmac a now r of
        None \<Rightarrow> False
      | Some expected \<Rightarrow>
          (case b64_decode (trim_space token) of
             None \<Rightarrow> False
           | Some provided \<Rightarrow>
               (case b64_decode expected of None \<Rightarrow> False | Some expectedBytes \<Rightarrow> provided = expectedBytes)))"

text \<open>The guards of the routes: the handler behind them runs only for an authenticated request.\<close>

definition Require :: "(string \<Rightarrow> string \<Rightarrow> string) \<Rightarrow> Authenticator \<Rightarrow> time \<Rightarrow> Request \<Rightarrow> 'a \<Rightarrow> 'a \<Rightarrow> 'a" where
  "Require hmac a now r handler redirect = (if Authenticated hmac a now r then handler else redirect)"

definition RequireAPI :: "(string \<Rightarrow> string \<Rightarrow> string) \<Rightarrow> Authenticator \<Rightarrow> time \<Rightarrow> Request \<Rightarrow> 'a \<Rightarrow> 'a \<Rightarrow> 'a" where
  "RequireAPI hmac a now r handler unauthorized = (if Authenticated hmac a now r then handler else unauthorized)"

subsection \<open>Signing and verifying\<close>

lemma url64_not_mark: "list_all is_url64 s \<Longrightarrow> CHR ''.'' \<notin> set s"
  by (auto simp: list_all_iff char_class_defs)

lemma trim_space_url64:
  assumes "list_all is_url64 s"
  shows "trim_space s = s" "s \<noteq> [] \<Longrightarrow> trim_space (s @ [CHR 0x0A]) = s"
proof -
  have graph: "32 < byte c \<and> byte c < 128" if "c \<in> set s" for c
    using that assms by (auto simp: list_all_iff char_class_defs)
  show "trim_space s = s" using graph by (cases "s = []") (auto intro: trim_space_graph)
  show "s \<noteq> [] \<Longrightarrow> trim_space (s @ [CHR 0x0A]) = s" using graph by (auto intro: trim_space_linefeed)
qed

lemma cut_cookie: "cut (b64_encode p @ ''.'' @ b64_encode s) CHR ''.'' = Some (b64_encode p, b64_encode s)"
  using url64_not_mark [OF b64_encode_url64] by (simp add: cut_append)

lemma cut_loginPayload: "cut (loginPayload t nonce) CHR '':'' = Some (itoa t, b64_encode nonce)"
proof -
  have "CHR '':'' \<notin> set (itoa t)" by (rule itoa_no_char) (simp_all add: is_digit_def)
  then show ?thesis by (simp add: loginPayload_def cut_append)
qed

text \<open>What \<^verbatim>\<open>verify\<close> accepts: a payload with its MAC, whose time is not too far ahead and not too old.\<close>

definition in_window :: "Authenticator \<Rightarrow> time \<Rightarrow> int \<Rightarrow> bool" where
  "in_window a now t \<longleftrightarrow> unix_time t \<le> now + 30 * second \<and> time_sub now (unix_time t) \<le> au_ttl a"

lemma verify_iff:
  "verify hmac a now value \<longleftrightarrow>
     (\<exists>p s payload issuedAt rest t. cut value CHR ''.'' = Some (p, s) \<and> b64_decode p = Some payload \<and>
        b64_decode s = Some (hmac (au_secret a) payload) \<and> cut payload CHR '':'' = Some (issuedAt, rest) \<and>
        parse_int issuedAt = Some t \<and> in_window a now t)"
  by (auto simp: verify_def in_window_def Let_def not_less split: option.splits)

lemma verify_sign:
  assumes "min_int64 \<le> t" "t \<le> max_int64"
  shows "verify hmac a now (sign hmac a t nonce) \<longleftrightarrow> in_window a now t"
  by (simp add: verify_iff sign_def Let_def cut_cookie b64_roundtrip cut_loginPayload parse_int_itoa [OF assms]
      del: append_Cons append.simps)

lemma csrf_not_payload:
  assumes "cut (csrfDomain @ c) CHR '':'' = Some (issuedAt, rest)"
  shows "parse_int issuedAt = None"
proof -
  have "csrfDomain @ c = issuedAt @ CHR '':'' # rest" "CHR '':'' \<notin> set issuedAt"
    using cut_SomeD [OF assms] by auto
  moreover have "CHR '':'' \<notin> set csrfDomain" by (simp add: csrfDomain_def)
  ultimately obtain u where "issuedAt = csrfDomain @ u"
    by (auto simp: append_eq_append_conv2 Cons_eq_append_conv append_eq_Cons_conv) (metis in_set_conv_decomp)
  then show ?thesis
    by (simp add: csrfDomain_def parse_int_def parse_digits_def is_digit_def Let_def)
qed

lemma in_window_simple:
  assumes "0 \<le> t" "t \<le> 2 ^ 62" "au_ttl a < max_int64"
  shows "in_window a now t \<longleftrightarrow> t * second \<le> now + 30 * second \<and> now \<le> t * second + au_ttl a"
  using assms by (auto simp: in_window_def unix_time_id time_sub_def)

subsection \<open>Properties\<close>

text \<open>
  A login lasts exactly its lifetime: the cookie of a successful login authenticates a request if and
  only if the request comes no more than 30 seconds before the second of the login and no later than
  the configured lifetime after it.
\<close>

theorem login_cookie_window:
  assumes "Login sha256 hmac a password t nonce = Some cookie" and "rq_Cookie CookieName r = Some (ck_Value cookie)"
    and "0 \<le> t" "t div second \<le> 2 ^ 62" "au_ttl a < max_int64"
  shows "Authenticated hmac a now r \<longleftrightarrow>
    t div second * second \<le> now + 30 * second \<and> now \<le> t div second * second + au_ttl a"
proof -
  have "ck_Value cookie = sign hmac a (t div second) nonce"
    using assms(1) by (auto simp: Login_def split: if_splits)
  then have "Authenticated hmac a now r \<longleftrightarrow> in_window a now (t div second)"
    using assms(2-4) by (simp add: Authenticated_def verify_sign)
  then show ?thesis using assms(3-5) by (simp add: in_window_simple)
qed

theorem login_cookie_window_witness:
  "\<exists>cookie. Login (\<lambda>s. s) (\<lambda>k m. k @ m) \<lparr>au_passwordHash = ''pw'', au_secret = ''k'', au_ttl = 100 * second, au_secureCookie = True\<rparr>
       ''pw'' (7 * second) ''n'' = Some cookie \<and>
     Authenticated (\<lambda>k m. k @ m) \<lparr>au_passwordHash = ''pw'', au_secret = ''k'', au_ttl = 100 * second, au_secureCookie = True\<rparr>
       (107 * second) \<lparr>rq_Method = ''GET'', rq_Path = ''/'', rq_Query = [], rq_Host = [], rq_TLS = True, rq_RemoteAddr = [],
         rq_Header = [], rq_Cookies = [(CookieName, ck_Value cookie)], rq_Body = [], rq_BodyFails = False\<rparr>"
  (is "\<exists>cookie. ?login cookie \<and> Authenticated ?mac ?a ?now (?r cookie)")
proof -
  obtain cookie where c: "?login cookie" by (simp add: Login_def CheckPassword_def)
  moreover have "rq_Cookie CookieName (?r cookie) = Some (ck_Value cookie)" by (simp add: rq_Cookie_def)
  ultimately have "Authenticated ?mac ?a ?now (?r cookie) \<longleftrightarrow>
      7 * second div second * second \<le> ?now + 30 * second \<and> ?now \<le> 7 * second div second * second + au_ttl ?a"
    by (rule login_cookie_window) simp_all
  then show ?thesis using c by (intro exI [of _ cookie]) simp
qed

text \<open>
  C4. Accepted cookies come from logins: if a client can present the MAC of a message only when the server
  has computed it (for the payload of a login, or for a CSRF token), then a cookie that is accepted carries
  the payload of a login of this server and lies in that login's lifetime. The CSRF tokens, which are MACs
  under the same key, are of no use for making a cookie.
\<close>

theorem cookie_authentic:
  assumes "verify hmac a now value"
    and "\<And>p s m. cut value CHR ''.'' = Some (p, s) \<Longrightarrow> b64_decode s = Some (hmac (au_secret a) m) \<Longrightarrow>
      (\<exists>(t, nonce) \<in> logins. m = loginPayload t nonce) \<or> (\<exists>cookie. m = csrfDomain @ cookie)"
    and "\<And>t nonce. (t, nonce) \<in> logins \<Longrightarrow> min_int64 \<le> t \<and> t \<le> max_int64"
  shows "\<exists>(t, nonce) \<in> logins. in_window a now t \<and>
    map_option (\<lambda>(p, s). b64_decode p) (cut value CHR ''.'') = Some (Some (loginPayload t nonce))"
proof -
  obtain p s payload issuedAt rest t where v: "cut value CHR ''.'' = Some (p, s)" "b64_decode p = Some payload"
      "b64_decode s = Some (hmac (au_secret a) payload)" "cut payload CHR '':'' = Some (issuedAt, rest)"
      "parse_int issuedAt = Some t" "in_window a now t"
    using assms(1) by (auto simp: verify_iff)
  have "\<not> (\<exists>cookie. payload = csrfDomain @ cookie)" using v(4,5) csrf_not_payload by fastforce
  then obtain u nonce where u: "(u, nonce) \<in> logins" "payload = loginPayload u nonce"
    using assms(2) [OF v(1,3)] by auto
  then have "issuedAt = itoa u" using v(4) by (simp add: cut_loginPayload)
  then have "t = u" using v(5) assms(3) [OF u(1)] by (simp add: parse_int_itoa)
  then show ?thesis using u v by (intro bexI [OF _ u(1)]) simp
qed

theorem cookie_authentic_witness:
  "\<exists>(t, nonce) \<in> {(7, ''n'')}. in_window \<lparr>au_passwordHash = [], au_secret = ''k'', au_ttl = 100 * second, au_secureCookie = True\<rparr> (8 * second) t"
  (is "\<exists>(t, nonce) \<in> _. in_window ?a ?now t")
proof -
  let ?mac = "\<lambda>k m. k @ (m :: string)"
  define a where "a = ?a"
  define v where "v = sign ?mac a 7 ''n''"
  have accepted: "verify ?mac a ?now v"
    by (simp add: v_def a_def verify_sign in_window_def unix_time_id time_sub_def)
  have parts: "cut v CHR ''.'' = Some (b64_encode (loginPayload 7 ''n''), b64_encode (?mac (au_secret a) (loginPayload 7 ''n'')))"
    unfolding v_def sign_def Let_def by (rule cut_cookie)
  have "\<exists>(t, nonce) \<in> {(7, ''n'')}. in_window a ?now t \<and>
      map_option (\<lambda>(p, s). b64_decode p) (cut v CHR ''.'') = Some (Some (loginPayload t nonce))"
    by (rule cookie_authentic [OF accepted]) (auto simp: parts b64_roundtrip)
  then have "\<exists>(t, nonce) \<in> {(7, ''n'')}. in_window a ?now t" by blast
  then show ?thesis unfolding a_def .
qed

text \<open>
  C29. A CSRF token is bound to its login: the token handed out for one cookie is accepted together with
  another if and only if that one is a valid login cookie and the two have the same MAC; with the same
  cookie it is accepted as long as the login lasts.
\<close>

theorem csrf_token_bound:
  assumes "CSRFToken hmac a now r = Some token" and "rq_Cookie CookieName r = Some c" and "rq_Cookie CookieName r' = Some c'"
  shows "VerifyCSRF hmac a now' r' token \<longleftrightarrow>
    verify hmac a now' c' \<and> hmac (au_secret a) (csrfDomain @ c) = hmac (au_secret a) (csrfDomain @ c')"
proof -
  have token: "token = b64_encode (hmac (au_secret a) (csrfDomain @ c))"
    using assms(1,2) by (auto simp: CSRFToken_def split: if_splits)
  have "trim_space token = token"
    unfolding token by (rule trim_space_url64) (rule b64_encode_url64)
  then show ?thesis
    using assms(3) by (auto simp: VerifyCSRF_def CSRFToken_def token b64_roundtrip)
qed

theorem csrf_token_bound_witness:
  "\<exists>token. CSRFToken (\<lambda>k m. k @ m) \<lparr>au_passwordHash = [], au_secret = ''k'', au_ttl = 100 * second, au_secureCookie = True\<rparr> (8 * second)
       \<lparr>rq_Method = ''GET'', rq_Path = ''/api/csrf'', rq_Query = [], rq_Host = [], rq_TLS = True, rq_RemoteAddr = [], rq_Header = [],
         rq_Cookies = [(CookieName, sign (\<lambda>k m. k @ m) \<lparr>au_passwordHash = [], au_secret = ''k'', au_ttl = 100 * second, au_secureCookie = True\<rparr> 7 ''n'')],
         rq_Body = [], rq_BodyFails = False\<rparr> = Some token \<and>
     \<not> VerifyCSRF (\<lambda>k m. k @ m) \<lparr>au_passwordHash = [], au_secret = ''k'', au_ttl = 100 * second, au_secureCookie = True\<rparr> (9 * second)
       \<lparr>rq_Method = ''POST'', rq_Path = ''/logout'', rq_Query = [], rq_Host = [], rq_TLS = True, rq_RemoteAddr = [], rq_Header = [],
         rq_Cookies = [(CookieName, sign (\<lambda>k m. k @ m) \<lparr>au_passwordHash = [], au_secret = ''k'', au_ttl = 100 * second, au_secureCookie = True\<rparr> 7 ''m'')],
         rq_Body = [], rq_BodyFails = False\<rparr> token"
  (is "\<exists>token. CSRFToken ?mac ?a ?now ?r = Some token \<and> \<not> VerifyCSRF ?mac ?a ?now' ?r' token")
proof -
  let ?c = "sign ?mac ?a 7 ''n''" and ?c' = "sign ?mac ?a 7 ''m''"
  have cookies: "rq_Cookie CookieName ?r = Some ?c" "rq_Cookie CookieName ?r' = Some ?c'"
    by (simp_all add: rq_Cookie_def)
  have "verify ?mac ?a ?now ?c" by (simp add: verify_sign in_window_def unix_time_id time_sub_def)
  then obtain token where token: "CSRFToken ?mac ?a ?now ?r = Some token"
    using cookies(1) by (simp add: CSRFToken_def)
  have "?c \<noteq> ?c'" by code_simp
  then have "\<not> VerifyCSRF ?mac ?a ?now' ?r' token"
    using csrf_token_bound [OF token cookies] by simp
  with token show ?thesis by blast
qed

text \<open>
  The secret survives a restart: a secret file created by one start is read back by the next.
\<close>

theorem secret_persistent:
  assumes "loadOrCreateSecret (\<lambda>_. False) (\<lambda>d. d) (Some secret) path d = (Inr key, d')" and "length secret = SecretSize"
    and "map_of (dk_files d) path = None"
  shows "fst (loadOrCreateSecret (\<lambda>_. False) env random path d') = Inr key"
proof -
  have ne: "b64_encode secret \<noteq> []"
    using assms(2) b64_encode_length [of secret] by (auto simp: SecretSize_def)
  have "key = secret" "map_of (dk_files d') path = Some (Some (b64_encode secret @ [CHR 0x0A]))"
    using assms(1,3) by (auto simp: loadOrCreateSecret_def readSecretFile_def openExclusive_def readFile_def sysCall_def
        bindP_def tryP_def liftP_def randomSecret_def diskUpdate_def failP_def gm_simps)
  moreover have "parseSecret (b64_encode secret @ [CHR 0x0A]) = Inr secret"
    using assms(2) trim_space_url64(2) [OF b64_encode_url64 ne] by (simp add: parseSecret_def b64_roundtrip)
  ultimately show ?thesis
    by (simp add: loadOrCreateSecret_def readSecretFile_def readFile_def sysCall_def bindP_def tryP_def liftP_def)
qed

text \<open>
  A start whose write of the secret fails leaves an empty file behind; every later start then refuses to
  run, although no call fails any more.
\<close>

theorem secret_write_failure:
  assumes "map_of (dk_files d) path = None" "length secret = SecretSize"
    and "faults = (\<lambda>n. n = dk_calls d + 5)"
  shows "loadOrCreateSecret faults (\<lambda>d. d) (Some secret) path d =
      (Inl (AuthFailure ''write auth secret''), d\<lparr>dk_files := gm_put path (Some []) (dk_files d), dk_calls := dk_calls d + 6\<rparr>)"
    and "fst (loadOrCreateSecret (\<lambda>_. False) env random path (snd (loadOrCreateSecret faults (\<lambda>d. d) (Some secret) path d))) =
      Inl (AuthFailure ''auth secret must be 32 bytes'')"
proof -
  show run: "loadOrCreateSecret faults (\<lambda>d. d) (Some secret) path d =
      (Inl (AuthFailure ''write auth secret''), d\<lparr>dk_files := gm_put path (Some []) (dk_files d), dk_calls := dk_calls d + 6\<rparr>)"
    using assms(1) by (simp add: assms(3) loadOrCreateSecret_def readSecretFile_def openExclusive_def readFile_def sysCall_def
        bindP_def tryP_def liftP_def randomSecret_def failP_def)
  show "fst (loadOrCreateSecret (\<lambda>_. False) env random path (snd (loadOrCreateSecret faults (\<lambda>d. d) (Some secret) path d))) =
      Inl (AuthFailure ''auth secret must be 32 bytes'')"
    unfolding run snd_conv
    by (simp add: loadOrCreateSecret_def readSecretFile_def readFile_def sysCall_def bindP_def tryP_def liftP_def gm_simps
        parseSecret_def b64_decode_def SecretSize_def)
qed

text \<open>
  One login has several cookies: base64 is decoded leniently, so changing the unused bits of the last
  character gives another value with the same payload and the same MAC. It is accepted as well, and its
  scope differs.
\<close>

definition scope_request :: "string \<Rightarrow> Request" where
  "scope_request value = \<lparr>rq_Method = ''GET'', rq_Path = ''/'', rq_Query = [], rq_Host = [], rq_TLS = True, rq_RemoteAddr = [],
     rq_Header = [], rq_Cookies = [(CookieName, value)], rq_Body = [], rq_BodyFails = False\<rparr>"

definition scope_auth :: Authenticator where
  "scope_auth = \<lparr>au_passwordHash = [], au_secret = ''k'', au_ttl = 100 * second, au_secureCookie = True\<rparr>"

definition scope_cookie :: "char \<Rightarrow> string" where
  "scope_cookie c = butlast (sign (\<lambda>k m. replicate 32 CHR ''x'') scope_auth 7 ''n'') @ [c]"

theorem login_scope_malleable:
  "scope_cookie CHR ''g'' = sign (\<lambda>k m. replicate 32 CHR ''x'') scope_auth 7 ''n'' \<and>
   LoginScope (\<lambda>m. m) (\<lambda>k m. replicate 32 CHR ''x'') scope_auth (8 * second) (scope_request (scope_cookie CHR ''g'')) \<noteq> None \<and>
   LoginScope (\<lambda>m. m) (\<lambda>k m. replicate 32 CHR ''x'') scope_auth (8 * second) (scope_request (scope_cookie CHR ''h'')) \<noteq> None \<and>
   LoginScope (\<lambda>m. m) (\<lambda>k m. replicate 32 CHR ''x'') scope_auth (8 * second) (scope_request (scope_cookie CHR ''g'')) \<noteq>
   LoginScope (\<lambda>m. m) (\<lambda>k m. replicate 32 CHR ''x'') scope_auth (8 * second) (scope_request (scope_cookie CHR ''h''))"
proof -
  let ?mac = "\<lambda>k m. replicate 32 CHR ''x''"
  have g: "scope_cookie CHR ''g'' = sign ?mac scope_auth 7 ''n''" by code_simp
  then have "verify ?mac scope_auth (8 * second) (scope_cookie CHR ''g'')"
    by (simp only: g) (simp add: verify_sign scope_auth_def in_window_def unix_time_id time_sub_def del: replicate_Suc)
  moreover have "verify ?mac scope_auth (8 * second) (scope_cookie CHR ''h'')" by code_simp
  moreover have "scope_cookie CHR ''g'' \<noteq> scope_cookie CHR ''h''" by (simp add: scope_cookie_def)
  ultimately show ?thesis
    using g by (simp add: LoginScope_def scope_request_def rq_Cookie_def b64_encode_inj)
qed

end
