(* ===== verification/Security.thy ===== *)
theory Security
  imports Auth
begin

section \<open>Request security\<close>

text \<open>
  \<^verbatim>\<open>internal/server/security.go\<close> with the choice of compression (\<^verbatim>\<open>internal/compress/gzip.go\<close>), the audit
  reasons (\<^verbatim>\<open>internal/server/audit.go\<close>) and the client address of the login limiter: which requests must come
  from the application's own origin and carry a CSRF token, and how origins are compared. \<^verbatim>\<open>url.Parse\<close> is an
  argument, \<^verbatim>\<open>net.SplitHostPort\<close> and \<^verbatim>\<open>net.JoinHostPort\<close> are modelled.
\<close>

subsection \<open>Hosts and ports\<close>

definition last_index_byte :: "string \<Rightarrow> char \<Rightarrow> nat option" where
  "last_index_byte s c = map_option (\<lambda>n. length s - 1 - n) (index_byte (rev s) c)"

definition SplitHostPort :: "string \<Rightarrow> (string \<times> string) option" where
  "SplitHostPort hostport =
     (case last_index_byte hostport CHR '':'' of
        None \<Rightarrow> None
      | Some i \<Rightarrow>
          (let result = (\<lambda>host j k.
             if CHR ''['' \<in> set (drop j hostport) \<or> CHR '']'' \<in> set (drop k hostport) then None
             else Some (host, drop (Suc i) hostport)) in
           if hd hostport = CHR ''['' then
             (case index_byte hostport CHR '']'' of
                None \<Rightarrow> None
              | Some end' \<Rightarrow>
                  if Suc end' = length hostport \<or> Suc end' \<noteq> i then None
                  else result (drop 1 (take end' hostport)) 1 (Suc end'))
           else if CHR '':'' \<in> set (take i hostport) then None
           else result (take i hostport) 0 0))"

definition JoinHostPort :: "string \<Rightarrow> string \<Rightarrow> string" where
  "JoinHostPort host port =
     (if CHR '':'' \<in> set host then ''['' @ host @ '']:'' @ port else host @ '':'' @ port)"

definition clientIP :: "Request \<Rightarrow> string" where
  "clientIP r =
     (case SplitHostPort (rq_RemoteAddr r) of
        Some (host, _) \<Rightarrow> host
      | None \<Rightarrow> if trim_space (rq_RemoteAddr r) \<noteq> [] then rq_RemoteAddr r else ''unknown'')"

subsection \<open>Origins\<close>

definition csrfHeader :: string where "csrfHeader = ''X-Control-Agents-Csrf-Token''"

definition isUnsafeMethod :: "string \<Rightarrow> bool" where
  "isUnsafeMethod verb \<longleftrightarrow> verb \<notin> {''GET'', ''HEAD'', ''OPTIONS'', ''TRACE''}"

definition isWebSocketUpgrade :: "Request \<Rightarrow> bool" where
  "isWebSocketUpgrade r \<longleftrightarrow>
     equal_fold (header_Get ''Upgrade'' (rq_Header r)) ''websocket'' \<and>
     list_ex (\<lambda>part. equal_fold (trim_space part) ''upgrade'') (split (header_Get ''Connection'' (rq_Header r)) CHR '','')"

definition requiresSameOrigin :: "Request \<Rightarrow> bool" where
  "requiresSameOrigin r \<longleftrightarrow>
     (if rq_Path r = ''/login'' then False
      else if has_prefix (rq_Path r) ''/terminal/'' \<and> isWebSocketUpgrade r then True
      else isUnsafeMethod (rq_Method r))"

definition requiresCSRF :: "Request \<Rightarrow> bool" where
  "requiresCSRF r \<longleftrightarrow> rq_Path r \<noteq> ''/login'' \<and> isUnsafeMethod (rq_Method r)"

text \<open>The result of \<^verbatim>\<open>url.Parse\<close>; \<open>ur_User\<close> says whether there is user information.\<close>

record URL =
  ur_Scheme :: string
  ur_Opaque :: string
  ur_User :: bool
  ur_Host :: string
  ur_Path :: string
  ur_RawPath :: string
  ur_ForceQuery :: bool
  ur_RawQuery :: string
  ur_Fragment :: string
  ur_RawFragment :: string

definition requestScheme :: "Request \<Rightarrow> string" where
  "requestScheme r = (if rq_TLS r then ''https'' else ''http'')"

definition normalizeOriginHost :: "string \<Rightarrow> string \<Rightarrow> string" where
  "normalizeOriginHost host0 scheme =
     (let host = to_lower (trim_space host0) in
      case SplitHostPort host of
        Some (withoutPort0, port) \<Rightarrow>
          (let withoutPort = trim_set (trim_suffix withoutPort0 ''.'') ''[]'' in
           if scheme = ''https'' \<and> port = ''443'' \<or> scheme = ''http'' \<and> port = ''80'' then withoutPort
           else JoinHostPort withoutPort port)
      | None \<Rightarrow> trim_set (trim_suffix host ''.'') ''[]'')"

definition matchesRequestOrigin :: "Request \<Rightarrow> string \<Rightarrow> string \<Rightarrow> bool" where
  "matchesRequestOrigin r scheme host \<longleftrightarrow>
     equal_fold scheme (requestScheme r) \<and>
     normalizeOriginHost host scheme = normalizeOriginHost (rq_Host r) (requestScheme r)"

definition isSerializedOrigin :: "URL \<Rightarrow> bool" where
  "isSerializedOrigin origin \<longleftrightarrow> ur_Scheme origin \<noteq> [] \<and> ur_Host origin \<noteq> [] \<and> \<not> ur_User origin \<and> ur_Opaque origin = [] \<and>
     ur_Path origin = [] \<and> ur_RawPath origin = [] \<and> ur_RawQuery origin = [] \<and> \<not> ur_ForceQuery origin \<and>
     ur_Fragment origin = [] \<and> ur_RawFragment origin = []"

definition sameOrigin :: "(string \<Rightarrow> URL option) \<Rightarrow> Request \<Rightarrow> bool" where
  "sameOrigin parseURL r =
     (let origins = header_Values ''Origin'' (rq_Header r) in
      if origins \<noteq> [] then
        (if length origins \<noteq> 1 then False
         else
           let origin = hd origins in
           if origin \<noteq> trim_space origin \<or> CHR ''#'' \<in> set origin then False
           else (case parseURL origin of
                   None \<Rightarrow> False
                 | Some originURL \<Rightarrow>
                     if \<not> isSerializedOrigin originURL then False
                     else matchesRequestOrigin r (ur_Scheme originURL) (ur_Host originURL)))
      else if has_prefix (rq_Path r) ''/terminal/'' \<and> isWebSocketUpgrade r then False
      else
        let referer = trim_space (header_Get ''Referer'' (rq_Header r)) in
        if referer = [] then False
        else (case parseURL referer of
                None \<Rightarrow> False
              | Some refererURL \<Rightarrow>
                  if ur_Scheme refererURL = [] \<or> ur_Host refererURL = [] \<or> ur_User refererURL then False
                  else matchesRequestOrigin r (ur_Scheme refererURL) (ur_Host refererURL)))"

definition self_quoted :: string where "self_quoted = [CHR 0x27] @ ''self'' @ [CHR 0x27]"
definition none_quoted :: string where "none_quoted = [CHR 0x27] @ ''none'' @ [CHR 0x27]"

definition appContentSecurityPolicy :: string where
  "appContentSecurityPolicy =
     ''default-src '' @ self_quoted @ ''; base-uri '' @ none_quoted @ ''; object-src '' @ none_quoted @
     ''; script-src '' @ self_quoted @ ''; style-src '' @ self_quoted @ ''; img-src '' @ self_quoted @
     ''; connect-src '' @ self_quoted @ ''; frame-src '' @ self_quoted @ ''; frame-ancestors '' @ self_quoted @
     ''; form-action '' @ self_quoted"

definition applySecurityHeaders :: "Request \<Rightarrow> Header \<Rightarrow> Header" where
  "applySecurityHeaders r header =
     (let h = header_Set ''Permissions-Policy'' ''camera=(), microphone=(), geolocation=(), payment=(), usb=()''
            (header_Set ''Referrer-Policy'' ''same-origin''
              (header_Set ''X-Frame-Options'' ''SAMEORIGIN'' (header_Set ''X-Content-Type-Options'' ''nosniff'' header))) in
      if \<not> has_prefix (rq_Path r) ''/terminal/'' then header_Set ''Content-Security-Policy'' appContentSecurityPolicy h else h)"

subsection \<open>Compression\<close>

definition acceptsGzip :: "string \<Rightarrow> bool" where
  "acceptsGzip value =
     list_ex (\<lambda>part. equal_fold (trim_space (hd (splitn part CHR '';'' 2))) ''gzip'') (split value CHR '','')"

definition shouldCompress :: "Request \<Rightarrow> bool" where
  "shouldCompress r \<longleftrightarrow>
     (if equal_fold (header_Get ''Upgrade'' (rq_Header r)) ''websocket'' then False
      else if has_prefix (rq_Path r) ''/terminal/'' then False
      else acceptsGzip (header_Get ''Accept-Encoding'' (rq_Header r)))"

subsection \<open>Audit\<close>

definition auditStatusReason :: "int \<Rightarrow> string" where
  "auditStatusReason status =
     (if status \<in> {200, 201, 204} then ''ok''
      else if status = 401 then ''unauthorized''
      else if status = 403 then ''forbidden''
      else if status = 400 then ''invalid_request''
      else if status = 409 then ''stale_identity''
      else if status = 413 then ''byte_limit''
      else if status = 429 then ''rate_limit''
      else if status = 504 then ''timeout''
      else if status = 405 then ''method_not_allowed''
      else if status \<in> {502, 503} then ''dependency_failure''
      else ''request_failed'')"

subsection \<open>Origins as triples\<close>

text \<open>
  RFC 6454 compares origins as triples of scheme, host and port, where the host is in lower case and a missing port is
  the default of the scheme. An authority is a host name or an IPv4 address, of letters, digits, hyphens, underscores and periods
  and possibly empty, with an optional decimal port that may be empty.
\<close>

type_synonym authority = "string \<times> string option"

definition plain_host_char :: "char \<Rightarrow> bool" where
  "plain_host_char c \<longleftrightarrow> is_upper c \<or> is_lower c \<or> is_digit c \<or> c \<in> {CHR ''-'', CHR ''_'', CHR ''.''}"

definition plain_authority :: "authority \<Rightarrow> bool" where
  "plain_authority a \<longleftrightarrow> list_all plain_host_char (fst a) \<and> (case snd a of None \<Rightarrow> True | Some p \<Rightarrow> list_all is_digit p)"

definition print_authority :: "authority \<Rightarrow> string" where
  "print_authority a = (case snd a of None \<Rightarrow> fst a | Some p \<Rightarrow> fst a @ '':'' @ p)"

definition default_port :: "string \<Rightarrow> string" where
  "default_port scheme = (if scheme = ''https'' then ''443'' else ''80'')"

definition effective_port :: "string \<Rightarrow> authority \<Rightarrow> string" where
  "effective_port scheme a = (case snd a of None \<Rightarrow> default_port scheme | Some p \<Rightarrow> p)"

text \<open>The host in lower case, without the period a fully qualified name may end in.\<close>

definition canonical_host :: "string \<Rightarrow> string" where
  "canonical_host h = (let l = map lower_char h in if l \<noteq> [] \<and> last l = CHR ''.'' then butlast l else l)"

lemma plain_graph: "plain_host_char c \<Longrightarrow> 32 < byte c \<and> byte c < 128"
  by (auto simp: plain_host_char_def char_class_defs)

lemma digit_plain: "is_digit c \<Longrightarrow> plain_host_char c"
  by (simp add: plain_host_char_def)

lemma digit_lower: "is_digit c \<Longrightarrow> lower_char c = c"
  by (auto simp: lower_char_def char_class_defs)

lemma lower_not_mark:
  assumes "plain_host_char c"
  shows "lower_char c \<notin> {CHR '':'', CHR ''['', CHR '']''}"
proof (cases "is_upper c")
  case True
  then have "byte (lower_char c) = byte c + 32" "65 \<le> byte c" "byte c \<le> 90"
    by (auto simp: lower_char_def is_upper_def)
  then show ?thesis by auto
next
  case False
  then show ?thesis using assms by (auto simp: lower_char_def plain_host_char_def char_class_defs)
qed

text \<open>In ASCII \<^verbatim>\<open>strings.ToLower\<close> maps the letters one by one.\<close>

lemma map_case_ascii:
  assumes "list_all (\<lambda>e. fst e \<noteq> [] \<and> 128 \<le> byte (hd (fst e))) special"
  shows "list_all (\<lambda>c. byte c < 128) s \<Longrightarrow> map_case special s = map lower_char s"
proof (induction s)
  case (Cons c s)
  have "\<not> has_prefix (c # s) (fst e)" if "e \<in> set special" for e
  proof
    assume "has_prefix (c # s) (fst e)"
    moreover have "fst e \<noteq> []" "128 \<le> byte (hd (fst e))" using assms that by (auto simp: list_all_iff)
    ultimately have "hd (fst e) = c" by (cases "fst e") (auto simp: has_prefix_def)
    then show False using Cons.prems \<open>128 \<le> byte (hd (fst e))\<close> by simp
  qed
  then have "find (\<lambda>e. has_prefix (c # s) (fst e)) special = None" unfolding find_None_iff by blast
  then show ?case using Cons by simp
qed simp

lemma to_lower_ascii: "list_all (\<lambda>c. byte c < 128) s \<Longrightarrow> to_lower s = map lower_char s"
  unfolding to_lower_def by (rule map_case_ascii) (simp_all add: kelvin_sign_def dotted_capital_i_def)

lemma print_authority_plain:
  assumes "plain_authority a"
  shows "to_lower (trim_space (print_authority a)) = print_authority (map lower_char (fst a), snd a)"
proof -
  have chars: "32 < byte c \<and> byte c < 128" if "c \<in> set (print_authority a)" for c
    using that assms plain_graph digit_plain
    by (auto simp: print_authority_def plain_authority_def list_all_iff split: option.splits)
  have "trim_space (print_authority a) = print_authority a"
  proof (cases "print_authority a = []")
    case True
    then show ?thesis by (simp add: trim_space_def trim_leading.simps)
  next
    case False
    then show ?thesis using chars hd_in_set [OF False] last_in_set [OF False] by (intro trim_space_graph) auto
  qed
  moreover have "map lower_char (print_authority a) = print_authority (map lower_char (fst a), snd a)"
    using assms map_idI [of _ lower_char] digit_lower
    by (auto simp: print_authority_def plain_authority_def list_all_iff split: option.splits) (simp add: lower_char_def is_upper_def)
  ultimately show ?thesis using chars by (simp add: to_lower_ascii list_all_iff)
qed

lemma index_byte_append: "c \<notin> set a \<Longrightarrow> index_byte (a @ c # b) c = Some (length a)"
  by (induction a) auto

lemma last_index_byte_append: "c \<notin> set b \<Longrightarrow> last_index_byte (a @ c # b) c = Some (length a)"
  by (simp add: last_index_byte_def index_byte_append)

lemma SplitHostPort_print:
  assumes "\<And>m. m \<in> {CHR '':'', CHR ''['', CHR '']''} \<Longrightarrow> m \<notin> set h"
    and "\<And>m p. o1 = Some p \<Longrightarrow> m \<in> {CHR '':'', CHR ''['', CHR '']''} \<Longrightarrow> m \<notin> set p"
  shows "SplitHostPort (print_authority (h, o1)) = map_option (Pair h) o1"
proof (cases o1)
  case None
  have "last_index_byte h CHR '':'' = None" using assms(1) by (simp add: last_index_byte_def index_byte_None)
  then show ?thesis using None by (simp add: SplitHostPort_def print_authority_def)
next
  case (Some p)
  have marks: "m \<notin> set h" "m \<notin> set p" if "m \<in> {CHR '':'', CHR ''['', CHR '']''}" for m
    using that assms(1) assms(2) [OF Some] by auto
  have "hd (h @ CHR '':'' # p) \<noteq> CHR ''[''" using marks(1) [of "CHR ''[''"] by (cases h) auto
  then show ?thesis
    using Some marks last_index_byte_append [of "CHR '':''" p h]
    by (simp add: SplitHostPort_def print_authority_def)
qed

lemma trim_set_plain:
  assumes "set s \<inter> set cs = {}"
  shows "trim_set s cs = s"
proof -
  have "dropWhile (\<lambda>c. c \<in> set cs) s = s" "dropWhile (\<lambda>c. c \<in> set cs) (rev s) = rev s"
    using assms hd_in_set [of s] hd_in_set [of "rev s"] unfolding dropWhile_eq_self_iff by (fastforce, fastforce)
  then show ?thesis by (simp add: trim_set_def trim_right_set_def)
qed

lemma trim_final_period: "trim_suffix l ''.'' = (if l \<noteq> [] \<and> last l = CHR ''.'' then butlast l else l)"
proof (cases l rule: rev_cases)
  case (snoc xs x)
  then show ?thesis by (simp add: trim_suffix_def has_suffix_iff)
qed (simp add: trim_suffix_def has_suffix_iff)

lemma canonical_marks:
  assumes "list_all plain_host_char h" "m \<in> {CHR '':'', CHR ''['', CHR '']''}"
  shows "m \<notin> set (map lower_char h)" "m \<notin> set (canonical_host h)"
proof -
  show "m \<notin> set (map lower_char h)" using assms lower_not_mark by (auto simp: list_all_iff)
  then show "m \<notin> set (canonical_host h)" by (auto simp: canonical_host_def Let_def dest: in_set_butlastD)
qed

lemma normalize_print:
  assumes a: "plain_authority a" and scheme: "scheme \<in> {''http'', ''https''}"
  shows "normalizeOriginHost (print_authority a) scheme =
    (if effective_port scheme a = default_port scheme then canonical_host (fst a)
     else canonical_host (fst a) @ '':'' @ effective_port scheme a)"
proof -
  have plain: "list_all plain_host_char (fst a)" using a by (simp add: plain_authority_def)
  note marks = canonical_marks [OF plain]
  have ports: "m \<notin> set p" if "snd a = Some p" "m \<in> {CHR '':'', CHR ''['', CHR '']''}" for m p
    using that a by (auto simp: plain_authority_def list_all_iff char_class_defs)
  have split: "SplitHostPort (print_authority (map lower_char (fst a), snd a)) = map_option (Pair (map lower_char (fst a))) (snd a)"
    by (rule SplitHostPort_print) (erule marks(1), erule (1) ports)
  have "trim_suffix (map lower_char (fst a)) ''.'' = canonical_host (fst a)"
    unfolding canonical_host_def Let_def by (rule trim_final_period)
  moreover have "trim_set (canonical_host (fst a)) ''[]'' = canonical_host (fst a)" using marks(2) by (intro trim_set_plain) auto
  ultimately show ?thesis
    unfolding normalizeOriginHost_def print_authority_plain [OF a] Let_def split
    using scheme marks
    by (cases "snd a") (auto simp: effective_port_def default_port_def JoinHostPort_def print_authority_def)
qed

lemma authority_eq:
  assumes "plain_authority a" "plain_authority b" "scheme \<in> {''http'', ''https''}"
  shows "normalizeOriginHost (print_authority a) scheme = normalizeOriginHost (print_authority b) scheme \<longleftrightarrow>
    canonical_host (fst a) = canonical_host (fst b) \<and> effective_port scheme a = effective_port scheme b"
proof -
  have nocolon: "CHR '':'' \<notin> set (canonical_host (fst c))" if "plain_authority c" for c
    using that canonical_marks(2) by (auto simp: plain_authority_def)
  have split: "(h @ CHR '':'' # p = h' @ CHR '':'' # p') = (h = h' \<and> p = p')"
    if "CHR '':'' \<notin> set h" "CHR '':'' \<notin> set h'" for h h' p p' :: string
    using cut_append [OF that(1), of p] cut_append [OF that(2), of p'] by (metis option.inject prod.inject)
  have mixed: "h \<noteq> h' @ CHR '':'' # p" "h' @ CHR '':'' # p \<noteq> h" if "CHR '':'' \<notin> set h" for h h' p :: string
    using that by auto
  note c = nocolon [OF assms(1)] nocolon [OF assms(2)]
  show ?thesis
    unfolding normalize_print [OF assms(1,3)] normalize_print [OF assms(2,3)]
    using split [OF c] mixed [OF c(1)] mixed [OF c(2)]
    by (cases "effective_port scheme a = default_port scheme"; cases "effective_port scheme b = default_port scheme") auto
qed

lemma scheme_fold:
  assumes "s \<in> {''http'', ''https''}" "t \<in> {''http'', ''https''}"
  shows "equal_fold s t \<longleftrightarrow> s = t"
proof -
  have "map_case [(kelvin_sign, CHR ''k''), (long_s, CHR ''s'')] u = u" if "u \<in> {''http'', ''https''}" for u
  proof -
    have "map_case [(kelvin_sign, CHR ''k''), (long_s, CHR ''s'')] u = map lower_char u"
      using that by (intro map_case_ascii) (auto simp: kelvin_sign_def long_s_def)
    then show ?thesis using that by (auto simp: lower_char_def is_upper_def)
  qed
  then show ?thesis using assms by (simp add: equal_fold_def)
qed

subsection \<open>Properties\<close>

text \<open>
  C28. The comparison of the \<^verbatim>\<open>Origin\<close> header with the request, for an origin that is a bare \<^verbatim>\<open>http\<close> or \<^verbatim>\<open>https\<close> scheme with a
  host name or IPv4 address and an optional port, and a request to such an authority: it accepts if and only if the scheme is the
  request's, the hosts are the same in lower case and without a final period, and the ports are the same, where a missing port
  is the default of the scheme and an empty one is only the same as an empty one. This is the comparison of RFC 6454 but for the final
  period and the empty port. IPv6 addresses in brackets are not covered.
\<close>

theorem same_origin_rfc6454:
  assumes "header_Values ''Origin'' (rq_Header r) = [origin]" and "trim_space origin = origin" "CHR ''#'' \<notin> set origin"
    and "parseURL origin = Some url" "isSerializedOrigin url" "ur_Scheme url \<in> {''http'', ''https''}"
    and "ur_Host url = print_authority a" "plain_authority a" and "rq_Host r = print_authority b" "plain_authority b"
  shows "sameOrigin parseURL r \<longleftrightarrow> ur_Scheme url = requestScheme r \<and>
    canonical_host (fst a) = canonical_host (fst b) \<and> effective_port (ur_Scheme url) a = effective_port (requestScheme r) b"
proof -
  have req: "requestScheme r \<in> {''http'', ''https''}" by (simp add: requestScheme_def)
  have "sameOrigin parseURL r \<longleftrightarrow> matchesRequestOrigin r (ur_Scheme url) (ur_Host url)"
    using assms(1-5) by (simp add: sameOrigin_def)
  also have "\<dots> \<longleftrightarrow> ur_Scheme url = requestScheme r \<and>
      normalizeOriginHost (print_authority a) (ur_Scheme url) = normalizeOriginHost (print_authority b) (requestScheme r)"
    using assms(7,9) by (simp add: matchesRequestOrigin_def scheme_fold [OF assms(6) req])
  finally show ?thesis using authority_eq [OF assms(8,10) req] by auto
qed

text \<open>The port is the default one, the host differs in the case of a letter and in the final period.\<close>

theorem same_origin_rfc6454_witness:
  "sameOrigin (\<lambda>_. Some \<lparr>ur_Scheme = ''https'', ur_Opaque = [], ur_User = False, ur_Host = ''a.b:443'', ur_Path = [], ur_RawPath = [],
       ur_ForceQuery = False, ur_RawQuery = [], ur_Fragment = [], ur_RawFragment = []\<rparr>)
     \<lparr>rq_Method = ''POST'', rq_Path = ''/logout'', rq_Query = [], rq_Host = ''A.b.'', rq_TLS = True, rq_RemoteAddr = [],
      rq_Header = [(''Origin'', [''https://a.b:443''])], rq_Cookies = [], rq_Body = [], rq_BodyFails = False\<rparr>"
  (is "sameOrigin ?parse ?r")
proof -
  have "sameOrigin ?parse ?r \<longleftrightarrow> ''https'' = requestScheme ?r \<and>
      canonical_host (fst (''a.b'', Some ''443'')) = canonical_host (fst (''A.b.'', None)) \<and>
      effective_port ''https'' (''a.b'', Some ''443'') = effective_port (requestScheme ?r) (''A.b.'', None)"
    using same_origin_rfc6454 [where r = ?r and origin = "''https://a.b:443''" and parseURL = ?parse and a = "(''a.b'', Some ''443'')"
        and b = "(''A.b.'', None)", OF _ _ _ refl]
    by (simp add: header_Values_def isSerializedOrigin_def print_authority_def plain_authority_def plain_host_char_def
        char_class_defs trim_space_graph)
  moreover have "canonical_host ''a.b'' = canonical_host ''A.b.''" by code_simp
  ultimately show ?thesis by (simp add: requestScheme_def effective_port_def default_port_def)
qed

end
