(* ===== verification/Server_Config.thy ===== *)
theory Server_Config
  imports Security
begin

section \<open>Configuration\<close>

text \<open>
  \<^verbatim>\<open>internal/config/config.go\<close>: the settings of the web server from the environment. \<open>env\<close> gives the value of
  a variable, empty if it is not set; the home directory and the content of a file may be missing.
  \<^verbatim>\<open>filepath.Join\<close> is modelled with its cleaning of the result.
\<close>

subsection \<open>Paths\<close>

definition clean_step :: "bool \<Rightarrow> string list \<Rightarrow> string \<Rightarrow> string list" where
  "clean_step rooted acc c =
     (if c = [] \<or> c = ''.'' then acc
      else if c = ''..'' then
        (if acc \<noteq> [] \<and> last acc \<noteq> ''..'' then butlast acc else if rooted then acc else acc @ [c])
      else acc @ [c])"

definition path_clean :: "string \<Rightarrow> string" where
  "path_clean s =
     (let rooted = has_prefix s ''/'';
          comps = foldl (clean_step rooted) [] (split s CHR ''/'') in
      if rooted then ''/'' @ join comps ''/'' else if comps = [] then ''.'' else join comps ''/'')"

definition path_join :: "string list \<Rightarrow> string" where
  "path_join elems =
     (case dropWhile (\<lambda>e. e = []) elems of [] \<Rightarrow> [] | es \<Rightarrow> path_clean (join es ''/''))"

subsection \<open>Settings\<close>

definition defaultBindAddr :: string where "defaultBindAddr = ''0.0.0.0''"
definition defaultPort :: int where "defaultPort = 8080"
definition defaultCookieTTL :: int where "defaultCookieTTL = 48 * 60 * 60"
definition defaultMaxSessions :: int where "defaultMaxSessions = 32"
definition defaultSnapshotMax :: int where "defaultSnapshotMax = 32 * 1024 * 1024"

record Config =
  cf_BindAddr :: string
  cf_Port :: int
  cf_Password :: string
  cf_StateDir :: string
  cf_HomeDir :: string
  cf_TLSCertFile :: string
  cf_TLSKeyFile :: string
  cf_AuthSecretFile :: string
  cf_CookieSecure :: bool
  cf_CookieTTL :: int
  cf_MaxSessions :: int
  cf_SnapshotMaxBytes :: int

definition getEnv :: "(string \<Rightarrow> string) \<Rightarrow> string \<Rightarrow> string \<Rightarrow> string" where
  "getEnv env key fallback = (if env key \<noteq> [] then env key else fallback)"

definition getBoolEnv :: "(string \<Rightarrow> string) \<Rightarrow> string \<Rightarrow> bool \<Rightarrow> bool" where
  "getBoolEnv env key fallback =
     (let value = to_lower (trim_space (env key)) in
      if value = [] then fallback else value \<in> {''1'', ''true'', ''yes'', ''on''})"

definition config_Validate :: "Config \<Rightarrow> string + unit" where
  "config_Validate c =
     (if trim_space (cf_BindAddr c) = [] then Inl ''CONTROL_AGENTS_BIND_ADDR cannot be empty''
      else if cf_Port c < 1 \<or> cf_Port c > 65535 then Inl ''CONTROL_AGENTS_PORT must be between 1 and 65535''
      else if cf_Password c = [] then Inl ''CONTROL_AGENTS_PASSWORD or CONTROL_AGENTS_PASSWORD_FILE is required''
      else if cf_StateDir c = [] then Inl ''CONTROL_AGENTS_STATE_DIR cannot be empty''
      else if cf_HomeDir c = [] \<or> \<not> has_prefix (cf_HomeDir c) ''/'' then Inl ''service user home directory must be absolute''
      else if cf_TLSCertFile c = [] then Inl ''CONTROL_AGENTS_TLS_CERT_FILE cannot be empty''
      else if cf_TLSKeyFile c = [] then Inl ''CONTROL_AGENTS_TLS_KEY_FILE cannot be empty''
      else if cf_AuthSecretFile c = [] then Inl ''CONTROL_AGENTS_AUTH_SECRET_FILE cannot be empty''
      else if cf_CookieTTL c \<le> 0 then Inl ''CONTROL_AGENTS_COOKIE_TTL_SECONDS must be positive''
      else if cf_MaxSessions c \<le> 0 then Inl ''CONTROL_AGENTS_MAX_SESSIONS must be a positive integer''
      else if cf_SnapshotMaxBytes c \<le> 0 then Inl ''CONTROL_AGENTS_SNAPSHOT_MAX_BYTES must be a positive integer''
      else Inr ())"

text \<open>
  A numeric variable: unset it keeps the default, else it must parse, and be positive where \<open>positive\<close>.
\<close>

definition intEnv :: "(string \<Rightarrow> string) \<Rightarrow> string \<Rightarrow> bool \<Rightarrow> string \<Rightarrow> int \<Rightarrow> string + int" where
  "intEnv env key positive failure fallback =
     (if env key = [] then Inr fallback
      else case parse_int (env key) of
          None \<Rightarrow> Inl failure
        | Some n \<Rightarrow> if positive \<and> n \<le> 0 then Inl failure else Inr n)"

definition LoadFromEnv :: "(string \<Rightarrow> string) \<Rightarrow> string option \<Rightarrow> (string \<Rightarrow> string option) \<Rightarrow> string + Config" where
  "LoadFromEnv env userHome passwordFile =
     (case userHome of
        None \<Rightarrow> Inl ''determine service user home directory''
      | Some home \<Rightarrow>
          (let stateDir = getEnv env ''CONTROL_AGENTS_STATE_DIR'' (path_join [home, ''.local'', ''state'', ''control-agents'']) in
           bindR (intEnv env ''CONTROL_AGENTS_PORT'' False ''CONTROL_AGENTS_PORT must be a number'' defaultPort) (\<lambda>port.
           bindR (intEnv env ''CONTROL_AGENTS_COOKIE_TTL_SECONDS'' False
             ''CONTROL_AGENTS_COOKIE_TTL_SECONDS must be a number'' defaultCookieTTL) (\<lambda>ttl.
           bindR (intEnv env ''CONTROL_AGENTS_MAX_SESSIONS'' True
             ''CONTROL_AGENTS_MAX_SESSIONS must be a positive integer'' defaultMaxSessions) (\<lambda>maxSessions.
           bindR (intEnv env ''CONTROL_AGENTS_SNAPSHOT_MAX_BYTES'' True
             ''CONTROL_AGENTS_SNAPSHOT_MAX_BYTES must be a positive integer'' defaultSnapshotMax) (\<lambda>snapshotMax.
           bindR (if env ''CONTROL_AGENTS_PASSWORD_FILE'' \<noteq> [] then
               (case passwordFile (env ''CONTROL_AGENTS_PASSWORD_FILE'') of
                  None \<Rightarrow> Inl ''read CONTROL_AGENTS_PASSWORD_FILE''
                | Some content \<Rightarrow> Inr (trim_right_set content [CHR 0x0D, CHR 0x0A]))
             else Inr (env ''CONTROL_AGENTS_PASSWORD'')) (\<lambda>password.
           let cfg = \<lparr>cf_BindAddr = getEnv env ''CONTROL_AGENTS_BIND_ADDR'' defaultBindAddr, cf_Port = port,
             cf_Password = password, cf_StateDir = stateDir, cf_HomeDir = home,
             cf_TLSCertFile = getEnv env ''CONTROL_AGENTS_TLS_CERT_FILE'' (path_join [stateDir, ''certs'', ''server.crt'']),
             cf_TLSKeyFile = getEnv env ''CONTROL_AGENTS_TLS_KEY_FILE'' (path_join [stateDir, ''certs'', ''server.key'']),
             cf_AuthSecretFile = getEnv env ''CONTROL_AGENTS_AUTH_SECRET_FILE'' (path_join [stateDir, ''auth'', ''session.key'']),
             cf_CookieSecure = getBoolEnv env ''CONTROL_AGENTS_COOKIE_SECURE'' True, cf_CookieTTL = ttl,
             cf_MaxSessions = maxSessions, cf_SnapshotMaxBytes = snapshotMax\<rparr> in
           bindR (config_Validate cfg) (\<lambda>_. Inr cfg))))))))"

definition ListenAddress :: "Config \<Rightarrow> string" where
  "ListenAddress c = JoinHostPort (cf_BindAddr c) (itoa (cf_Port c))"

text \<open>\<^verbatim>\<open>time.Duration(cfg.CookieTTL)*time.Second\<close> of \<^verbatim>\<open>newServerWithLifecycle\<close>, which wraps.\<close>

definition cookieLifetime :: "Config \<Rightarrow> duration" where
  "cookieLifetime cfg = wrap64 (cf_CookieTTL cfg * second)"

lemma cookieLifetime_exact: "0 < cf_CookieTTL cfg \<Longrightarrow> cf_CookieTTL cfg \<le> 9223372036 \<Longrightarrow> cookieLifetime cfg = cf_CookieTTL cfg * second"
  by (simp add: cookieLifetime_def wrap64_id)

text \<open>
  Validation has no upper bound for the lifetime, and the conversion to nanoseconds wraps: a setting of
  about 585 years passes and gives logins of little more than a second.
\<close>

theorem cookie_lifetime_wraps:
  "\<exists>cfg. LoadFromEnv (\<lambda>key. if key = ''CONTROL_AGENTS_COOKIE_TTL_SECONDS'' then ''18446744075''
         else if key = ''CONTROL_AGENTS_PASSWORD'' then ''pw'' else []) (Some ''/home/u'') (\<lambda>_. None) = Inr cfg \<and>
     cf_CookieTTL cfg = 18446744075 \<and> cookieLifetime cfg = 1290448384"
proof -
  let ?env = "\<lambda>key. if key = ''CONTROL_AGENTS_COOKIE_TTL_SECONDS'' then ''18446744075''
    else if key = ''CONTROL_AGENTS_PASSWORD'' then ''pw'' else []"
  have paths: "path_join [''/home/u'', ''.local'', ''state'', ''control-agents''] = ''/home/u/.local/state/control-agents''"
    by code_simp
  have ttl: "parse_int ''18446744075'' = Some 18446744075"
    by (simp add: parse_int_def parse_digits_def is_digit_def digit_val_def)
  have "trim_space ''0.0.0.0'' = ''0.0.0.0''" by (rule trim_space_graph) simp_all
  moreover have "path_join [''/home/u/.local/state/control-agents'', a, b] \<noteq> []" for a b
    by (simp add: path_join_def path_clean_def Let_def has_prefix_def)
  ultimately show ?thesis
    by (simp add: LoadFromEnv_def getEnv_def intEnv_def paths ttl Let_def bindR_def config_Validate_def
        defaultBindAddr_def defaultPort_def defaultMaxSessions_def defaultSnapshotMax_def has_prefix_def
        cookieLifetime_def wrap64_def)
qed

end
