(* ===== verification/Web_Front.thy ===== *)
theory Web_Front
  imports Security Server_Config Login_Limiter Paste_Tokens Snapshot_Manager Identity Resize_Store
    Output_Activity Capture_Coordinator
begin

section \<open>The front of the web server\<close>

text \<open>
  \<^verbatim>\<open>internal/server/server.go\<close>: what every request passes before it reaches a handler of the API (the security
  headers, the checks of origin and CSRF token, the recovery from panics, compression, the routes with their
  guards) and the handlers for logging in and out, for the CSRF token, for the version and for static files.

  The stores of \<^verbatim>\<open>Server\<close> are the fields of a record; \<open>sv_world\<close> is what lies outside the process (tmux, the
  files). The clock is read several times in a request: \<open>clock i\<close> is the \<open>i\<close>-th reading, in the order of the
  code. \<^verbatim>\<open>http.ServeMux\<close> is modelled on the patterns the code registers. Parsing of forms, the files
  served and the gzip encoder are arguments, as are \<open>sha256\<close> and \<open>hmac\<close>, and the handlers of sessions, of the
  history API and of the terminal proxy, so the guards are proved for any such handlers. A handler that
  panics before it has written anything has no response.
\<close>

subsection \<open>State and responses\<close>

record 'w Server =
  sv_cfg :: Config
  sv_auth :: Authenticator
  sv_limiter :: loginLimiter
  sv_snapshots :: snapshotManager
  sv_pasteTokens :: pasteTokenManager
  sv_identity :: identityStore
  sv_resize :: resizeStore
  sv_activity :: "outputActivityStore option"
  sv_historyCaptures :: historyCaptureCoordinator
  sv_world :: 'w

type_synonym 's handler = "Request \<Rightarrow> Header \<Rightarrow> 's \<Rightarrow> Response option \<times> 's"

definition initialServer :: "Config \<Rightarrow> Authenticator \<Rightarrow> 'w \<Rightarrow> 'w Server" where
  "initialServer cfg authenticator world =
     \<lparr>sv_cfg = cfg, sv_auth = authenticator,
      sv_limiter = newLoginLimiter loginAttemptLimit loginAttemptWindow,
      sv_snapshots = newSnapshotManager \<lparr>sc_IdleTTL = 0, sc_PerViewer = 0, sc_PerUser = 0, sc_PerProcess = 0,
        sc_ProcessMaxBytes = max defaultSnapshotProcessMaxBytes (cf_SnapshotMaxBytes cfg), sc_ProcessMaxNodes = 0,
        sc_PageMaxLines = 0, sc_PageMaxBytes = 0\<rparr>,
      sv_pasteTokens = newPasteTokenManager 0 0, sv_identity = newIdentityStore,
      sv_resize = newResizeStore (60 * second), sv_activity = newOutputActivityStore,
      sv_historyCaptures = newHistoryCaptureCoordinator, sv_world = world\<rparr>"

definition newServerWithLifecycle :: "(string \<Rightarrow> string) \<Rightarrow> faults \<Rightarrow> (string option disk \<Rightarrow> string option disk) \<Rightarrow>
    string option \<Rightarrow> Config \<Rightarrow> 'w \<Rightarrow> 'w Server secrets" where
  "newServerWithLifecycle sha256 faults env random cfg world =
     (let authSecretFile = (if cf_AuthSecretFile cfg = [] then path_join [cf_StateDir cfg, ''auth'', ''session.key'']
        else cf_AuthSecretFile cfg) in
      bindP (LoadOrCreateSecret faults env random authSecretFile) (\<lambda>authSecret.
      bindP (liftP (NewWithSecret sha256 (cf_Password cfg) (cookieLifetime cfg) (cf_CookieSecure cfg) authSecret)) (\<lambda>authenticator.
        returnP (initialServer cfg authenticator world))))"

text \<open>\<^verbatim>\<open>http.Error\<close> and \<^verbatim>\<open>http.Redirect\<close>.\<close>

definition http_Error :: "Header \<Rightarrow> string \<Rightarrow> int \<Rightarrow> Response" where
  "http_Error h message status = \<lparr>rs_Status = status,
     rs_Header = header_Set ''X-Content-Type-Options'' ''nosniff''
       (header_Set ''Content-Type'' ''text/plain; charset=utf-8'' (header_Del ''Content-Length'' h)),
     rs_Body = message @ [CHR 0x0A]\<rparr>"

definition http_NotFound :: "Header \<Rightarrow> Response" where
  "http_NotFound h = http_Error h ''404 page not found'' 404"

definition http_Redirect :: "Request \<Rightarrow> Header \<Rightarrow> string \<Rightarrow> int \<Rightarrow> Response" where
  "http_Redirect r h url status =
     (let h1 = header_Set ''Location'' url h;
          typed = (header_Values ''Content-Type'' h1 = [] \<and> rq_Method r \<in> {''GET'', ''HEAD''});
          h2 = (if typed then header_Set ''Content-Type'' ''text/html; charset=utf-8'' h1 else h1) in
      \<lparr>rs_Status = status, rs_Header = h2,
       rs_Body = (if typed \<and> rq_Method r = ''GET''
         then ''<a href='' @ [CHR 0x22] @ url @ [CHR 0x22] @ ''>Found</a>.'' @ [CHR 0x0A, CHR 0x0A] else [])\<rparr>)"

text \<open>\<^verbatim>\<open>writeJSONStatus\<close> on the encoded payload.\<close>

definition writeJSONStatus :: "Header \<Rightarrow> int \<Rightarrow> string \<Rightarrow> Response" where
  "writeJSONStatus h status data =
     \<lparr>rs_Status = status, rs_Header = header_Set ''Content-Type'' ''application/json'' h, rs_Body = data\<rparr>"

definition writeJSON :: "Header \<Rightarrow> string \<Rightarrow> Response" where
  "writeJSON h data = writeJSONStatus h 200 data"

text \<open>\<^verbatim>\<open>http.SetCookie\<close>: one more \<^verbatim>\<open>Set-Cookie\<close> header; \<open>printCookie\<close> is \<^verbatim>\<open>Cookie.String\<close>.\<close>

definition http_SetCookie :: "(Cookie \<Rightarrow> string) \<Rightarrow> Cookie \<Rightarrow> Header \<Rightarrow> Header" where
  "http_SetCookie printCookie cookie h = header_Add ''Set-Cookie'' (printCookie cookie) h"

subsection \<open>What the front takes from the library\<close>

datatype route =
    RouteLogin
  | RouteLogout
  | RouteAsset
  | RouteVersion
  | RouteCSRF
  | RouteHistory
  | RouteSessions
  | RouteSession
  | RouteTerminal
  | RouteStatic

record 's library =
  lb_sha256 :: "string \<Rightarrow> string"
  lb_hmac :: "string \<Rightarrow> string \<Rightarrow> string"
  lb_parseURL :: "string \<Rightarrow> URL option"
  lb_gzip :: "string \<Rightarrow> string"
  lb_escapedPath :: "Request \<Rightarrow> string"
  lb_movedTo :: "string \<Rightarrow> Request \<Rightarrow> Header \<Rightarrow> Response"
  lb_password :: "Request \<Rightarrow> string option"
  lb_printCookie :: "Cookie \<Rightarrow> string"
  lb_serveFile :: "string \<Rightarrow> Request \<Rightarrow> Header \<Rightarrow> Response"
  lb_fileServer :: "Request \<Rightarrow> Header \<Rightarrow> Response"
  lb_version :: string
  lb_api :: "route \<Rightarrow> Request \<Rightarrow> Header \<Rightarrow> 's \<Rightarrow> Response option \<times> 's"

subsection \<open>Handlers\<close>

definition requireEmptyMutationBody :: "Request \<Rightarrow> bool" where
  "requireEmptyMutationBody r = (case readBody 1 r of None \<Rightarrow> False | Some data \<Rightarrow> length data = 0)"

definition handleCSRF :: "'w Server library \<Rightarrow> (nat \<Rightarrow> time) \<Rightarrow> 'w Server handler" where
  "handleCSRF lib clock r h s =
     (if rq_Method r \<noteq> ''GET'' then (Some (http_Error h ''method not allowed'' 405), s)
      else case CSRFToken (lb_hmac lib) (sv_auth s) (clock 3) r of
          None \<Rightarrow> (Some (http_Error h ''unauthorized'' 401), s)
        | Some token \<Rightarrow> (Some (writeJSON h (json_object [(''token'', json_string token)])), s))"

definition handleLogin :: "'w Server library \<Rightarrow> (nat \<Rightarrow> time) \<Rightarrow> string \<Rightarrow> 'w Server handler" where
  "handleLogin lib clock nonce r h s =
     (if rq_Method r = ''GET'' then
        (if Authenticated (lb_hmac lib) (sv_auth s) (clock 3) r then (Some (http_Redirect r h ''/'' 302), s)
         else (Some (lb_serveFile lib ''static/login.html'' r h), s))
      else if rq_Method r = ''POST'' then
        (let client = clientIP r in
         case ll_Allow (sv_limiter s) client (clock 3) of
           (None, l) \<Rightarrow> (None, s\<lparr>sv_limiter := l\<rparr>)
         | (Some (ok, retryAfter), l) \<Rightarrow>
             (let s1 = s\<lparr>sv_limiter := l\<rparr> in
              if \<not> ok then
                (let seconds = max 1 (retryAfter div second) in
                 (Some (http_Error (header_Set ''Retry-After'' (itoa seconds) h) ''too many login attempts'' 429), s1))
              else case lb_password lib r of
                  None \<Rightarrow> (Some (http_Error h ''invalid form'' 400), s1)
                | Some password \<Rightarrow>
                    (case Login (lb_sha256 lib) (lb_hmac lib) (sv_auth s) password (clock 4) nonce of
                       None \<Rightarrow>
                         (Some (http_Redirect r h ''/login?error=1'' 302),
                          s1\<lparr>sv_limiter := ll_RecordFailure l client (clock 5)\<rparr>)
                     | Some cookie \<Rightarrow>
                         (Some (http_Redirect r (http_SetCookie (lb_printCookie lib) cookie h) ''/'' 302),
                          s1\<lparr>sv_limiter := ll_Reset l client\<rparr>))))
      else (Some (http_Error h ''method not allowed'' 405), s))"

definition handlePublicStaticAsset :: "'w Server library \<Rightarrow> 'w Server handler" where
  "handlePublicStaticAsset lib r h s =
     (if rq_Method r \<noteq> ''GET'' then (Some (http_Error h ''method not allowed'' 405), s)
      else if rq_Path r \<in> {''/app.js'', ''/login.js'', ''/terminal-observer.js'', ''/styles.css''}
        then (Some (lb_serveFile lib (''static'' @ rq_Path r) r h), s)
      else (Some (http_NotFound h), s))"

definition handleLogout :: "'w Server library \<Rightarrow> (nat \<Rightarrow> time) \<Rightarrow> 'w Server handler" where
  "handleLogout lib clock r h s =
     (if rq_Method r \<noteq> ''POST'' then (Some (http_Error h ''method not allowed'' 405), s)
      else if \<not> requireEmptyMutationBody r then (Some (http_Error h ''invalid logout request'' 400), s)
      else
        let s1 = (case LoginScope (lb_sha256 lib) (lb_hmac lib) (sv_auth s) (clock 3) r of
            None \<Rightarrow> s
          | Some scope \<Rightarrow>
              s\<lparr>sv_snapshots := sm_DeleteUser scope (sv_snapshots s),
                sv_pasteTokens := pt_DeleteUser scope (sv_pasteTokens s)\<rparr>) in
        (Some (http_Redirect r (http_SetCookie (lb_printCookie lib) (Logout (sv_auth s)) h) ''/login'' 302), s1))"

definition handleVersion :: "'w Server library \<Rightarrow> 'w Server handler" where
  "handleVersion lib r h s =
     (if rq_Method r \<noteq> ''GET'' then (Some (http_Error h ''method not allowed'' 405), s)
      else (Some (writeJSON h (lb_version lib)), s))"

definition handleStatic :: "'w Server library \<Rightarrow> 'w Server handler" where
  "handleStatic lib r h s =
     (if has_prefix (rq_Path r) ''/api/'' \<or> has_prefix (rq_Path r) ''/terminal/'' then (Some (http_NotFound h), s)
      else if rq_Path r = ''/'' then (Some (lb_serveFile lib ''static/index.html'' r h), s)
      else (Some (lb_fileServer lib r h), s))"

subsection \<open>Routes\<close>

definition routes :: "'w Server library \<Rightarrow> (nat \<Rightarrow> time) \<Rightarrow> string \<Rightarrow> route \<Rightarrow> 'w Server handler" where
  "routes lib clock nonce rt r h s =
     (let guardAPI = (\<lambda>handler. RequireAPI (lb_hmac lib) (sv_auth s) (clock 2) r handler
            (Some (http_Error h ''unauthorized'' 401), s)) in
      case rt of
        RouteLogin \<Rightarrow> handleLogin lib clock nonce r h s
      | RouteLogout \<Rightarrow> handleLogout lib clock r h s
      | RouteAsset \<Rightarrow> handlePublicStaticAsset lib r h s
      | RouteVersion \<Rightarrow> guardAPI (handleVersion lib r h s)
      | RouteCSRF \<Rightarrow> guardAPI (handleCSRF lib clock r h s)
      | RouteStatic \<Rightarrow> Require (lb_hmac lib) (sv_auth s) (clock 2) r (handleStatic lib r h s)
          (Some (http_Redirect r h ''/login'' 302), s)
      | _ \<Rightarrow> guardAPI (lb_api lib rt r h s))"

text \<open>
  \<^verbatim>\<open>http.ServeMux\<close> on the patterns of \<^verbatim>\<open>routes\<close>: a path without its trailing slash matches itself, a pattern that
  ends in a slash matches everything below it, and the longest match wins. Segments are compared after
  percent-decoding. A path that is not clean, or that lacks the slash of a pattern, is redirected.
\<close>

definition mux_patterns :: "(string \<times> route) list" where
  "mux_patterns = [
     (''/login'', RouteLogin), (''/logout'', RouteLogout), (''/app.js'', RouteAsset), (''/login.js'', RouteAsset),
     (''/terminal-observer.js'', RouteAsset), (''/styles.css'', RouteAsset), (''/api/version'', RouteVersion),
     (''/api/csrf'', RouteCSRF), (''/api/v1/'', RouteHistory), (''/api/sessions'', RouteSessions),
     (''/api/sessions/'', RouteSession), (''/terminal/'', RouteTerminal), (''/'', RouteStatic)]"

fun unescape :: "string \<Rightarrow> string option" where
  "unescape [] = Some []"
| "unescape (c # s) =
     (if c = CHR ''%'' then
        (case s of
           a # b # t \<Rightarrow>
             (case (hexval a, hexval b) of
                (Some x, Some y) \<Rightarrow> map_option ((#) (char_of (16 * x + y))) (unescape t)
              | _ \<Rightarrow> None)
         | _ \<Rightarrow> None)
      else map_option ((#) c) (unescape s))"

definition pathUnescape :: "string \<Rightarrow> string" where
  "pathUnescape s = (case unescape s of None \<Rightarrow> s | Some t \<Rightarrow> t)"

definition cleanPath :: "string \<Rightarrow> string" where
  "cleanPath p0 =
     (if p0 = [] then ''/'' else
      let p = (if has_prefix p0 ''/'' then p0 else ''/'' @ p0);
          np = path_clean p in
      if last p = CHR ''/'' \<and> np \<noteq> ''/'' then np @ ''/'' else np)"

definition segments :: "string \<Rightarrow> string list" where
  "segments p = split (drop 1 p) CHR ''/''"

definition mux_exact :: "string list \<Rightarrow> route option" where
  "mux_exact segs = map_option snd (find (\<lambda>(p, _). segments p = segs) mux_patterns)"

definition mux_subtrees :: "string list \<Rightarrow> (string \<times> route) list" where
  "mux_subtrees segs = filter (\<lambda>(p, _). last p = CHR ''/'' \<and> length (segments p) \<le> length segs \<and>
     take (length (segments p) - 1) segs = butlast (segments p)) mux_patterns"

definition mux_match :: "string \<Rightarrow> route option" where
  "mux_match path =
     (let segs = map pathUnescape (segments path) in
      case mux_exact segs of
        Some rt \<Rightarrow> Some rt
      | None \<Rightarrow> map_option snd (foldl (\<lambda>best (p, rt).
            case best of
              None \<Rightarrow> Some (p, rt)
            | Some (q, qrt) \<Rightarrow> if length (segments q) < length (segments p) then Some (p, rt) else best)
          None (mux_subtrees segs)))"

definition mux_slash :: "string \<Rightarrow> bool" where
  "mux_slash path \<longleftrightarrow> path = [] \<or>
     mux_exact (map pathUnescape (segments path)) = None \<and> last path \<noteq> CHR ''/'' \<and>
     mux_exact (map pathUnescape (segments (path @ ''/''))) \<noteq> None"

definition mux_ServeHTTP :: "'w Server library \<Rightarrow> (nat \<Rightarrow> time) \<Rightarrow> string \<Rightarrow> 'w Server handler" where
  "mux_ServeHTTP lib clock nonce r h s =
     (let escaped = lb_escapedPath lib r;
          path = (if rq_Method r = ''CONNECT'' then escaped else cleanPath escaped) in
      if escaped = ''*'' then
        (Some \<lparr>rs_Status = 400, rs_Header = header_Set ''Connection'' ''close'' h, rs_Body = []\<rparr>, s)
      else if mux_slash path then (Some (lb_movedTo lib (cleanPath (rq_Path r) @ ''/'') r h), s)
      else if path \<noteq> escaped then (Some (lb_movedTo lib path r h), s)
      else case mux_match path of
          None \<Rightarrow> (Some (http_NotFound h), s)
        | Some rt \<Rightarrow> routes lib clock nonce rt r h s)"

text \<open>
  A request that ends in a panic: the gzip writer is closed while the panic unwinds and so begins the response,
  and the recovered message follows whatever has been written.
\<close>

datatype outcome =
    Finished Response
  | Panicked "Header + Response"

definition compress_Middleware :: "'s library \<Rightarrow> 's handler \<Rightarrow> Request \<Rightarrow> Header \<Rightarrow> 's \<Rightarrow> outcome \<times> 's" where
  "compress_Middleware lib handler r h s =
     (if \<not> shouldCompress r then
        (case handler r h s of
           (Some response, s') \<Rightarrow> (Finished response, s')
         | (None, s') \<Rightarrow> (Panicked (Inl h), s'))
      else
        let h1 = header_Del ''Content-Length''
              (header_Add ''Vary'' ''Accept-Encoding'' (header_Set ''Content-Encoding'' ''gzip'' h)) in
        case handler r h1 s of
          (Some response, s') \<Rightarrow> (Finished (response\<lparr>rs_Body := lb_gzip lib (rs_Body response)\<rparr>), s')
        | (None, s') \<Rightarrow> (Panicked (Inr \<lparr>rs_Status = 200, rs_Header = h1, rs_Body = lb_gzip lib []\<rparr>), s'))"

definition recovered :: "Header + Response \<Rightarrow> Response" where
  "recovered written =
     (case written of
        Inl h \<Rightarrow> http_Error h ''internal server error'' 500
      | Inr response \<Rightarrow> response\<lparr>rs_Body := rs_Body response @ ''internal server error'' @ [CHR 0x0A]\<rparr>)"

definition initialHeader :: "Request \<Rightarrow> Header" where
  "initialHeader r =
     (let h = applySecurityHeaders r [] in
      if has_prefix (rq_Path r) ''/api/'' then header_Set ''Cache-Control'' ''no-store'' h else h)"

definition server_ServeHTTP :: "'w Server library \<Rightarrow> (nat \<Rightarrow> time) \<Rightarrow> string \<Rightarrow> Request \<Rightarrow> 'w Server \<Rightarrow>
    Response \<times> 'w Server" where
  "server_ServeHTTP lib clock nonce r s =
     (let h = initialHeader r in
      if requiresSameOrigin r \<and> \<not> sameOrigin (lb_parseURL lib) r then (http_Error h ''forbidden'' 403, s)
      else if requiresCSRF r \<and> Authenticated (lb_hmac lib) (sv_auth s) (clock 0) r \<and>
          \<not> VerifyCSRF (lb_hmac lib) (sv_auth s) (clock 1) r (header_Get csrfHeader (rq_Header r))
        then (http_Error h ''forbidden'' 403, s)
      else case compress_Middleware lib (mux_ServeHTTP lib clock nonce) r h s of
          (Finished response, s') \<Rightarrow> (response, s')
        | (Panicked written, s') \<Rightarrow> (recovered written, s'))"

subsection \<open>What reaches a handler\<close>

lemma pick_longest:
  assumes "foldl (\<lambda>best (p, rt). case best of None \<Rightarrow> Some (p, rt)
     | Some (q, qrt) \<Rightarrow> if length (segments q) < length (segments p) then Some (p, rt) else best) best ps = Some y"
  shows "y \<in> set ps \<or> best = Some y"
  using assms by (induction ps arbitrary: best) (fastforce split: option.splits if_splits)+

lemma mux_match_login:
  assumes "mux_match path = Some RouteLogin"
  shows "map pathUnescape (segments path) = [''login'']"
proof -
  define segs where "segs = map pathUnescape (segments path)"
  have sub: "(p, RouteLogin) \<notin> set (mux_subtrees segs)" for p
    by (auto simp: mux_subtrees_def mux_patterns_def)
  have "mux_exact segs = Some RouteLogin"
    using assms sub by (auto simp: mux_match_def segs_def [symmetric] Let_def dest!: pick_longest split: option.splits)
  then have "segs = [''login'']"
    by (auto simp: mux_exact_def mux_patterns_def segments_def split: if_splits)
  then show ?thesis by (simp add: segs_def)
qed

lemma cleanPath_rooted: "\<exists>s. cleanPath p = CHR ''/'' # s"
  by (auto simp: cleanPath_def path_clean_def Let_def has_prefix_def)

lemma pathUnescape_plain: "c \<noteq> CHR ''%'' \<Longrightarrow> pathUnescape (c # s) = c # pathUnescape s"
  by (simp add: pathUnescape_def split: option.split)

lemma route_login:
  assumes "mux_match path = Some RouteLogin" "path = cleanPath p"
  shows "pathUnescape path = ''/login''"
proof -
  obtain s where s: "path = CHR ''/'' # s" using cleanPath_rooted assms(2) by blast
  with mux_match_login [OF assms(1)] obtain x where x: "split s CHR ''/'' = [x]" "pathUnescape x = ''login''"
    by (auto simp: segments_def)
  from x(1) have "s = x" using join_split [of s "CHR ''/''"] by simp
  with x s show ?thesis by (simp add: pathUnescape_plain)
qed

lemma handleLogin_changes:
  "handleLogin lib clock nonce r h s = (resp, s') \<Longrightarrow> s' \<noteq> s \<Longrightarrow> rq_Method r = ''POST''"
  by (auto simp: handleLogin_def split: if_splits)

lemma handleLogout_changes:
  "handleLogout lib clock r h s = (resp, s') \<Longrightarrow> s' \<noteq> s \<Longrightarrow>
     LoginScope (lb_sha256 lib) (lb_hmac lib) (sv_auth s) (clock 3) r \<noteq> None"
  by (auto simp: handleLogout_def Let_def split: if_splits option.splits)

lemma routes_changes:
  assumes "routes lib clock nonce rt r h s = (resp, s')" "s' \<noteq> s"
  shows "rt = RouteLogin \<and> rq_Method r = ''POST'' \<or> Authenticated (lb_hmac lib) (sv_auth s) (clock 2) r \<or>
     LoginScope (lb_sha256 lib) (lb_hmac lib) (sv_auth s) (clock 3) r \<noteq> None"
  using assms by (cases rt) (auto simp: routes_def Require_def RequireAPI_def handlePublicStaticAsset_def
      dest: handleLogin_changes handleLogout_changes split: if_splits)

lemma mux_changes:
  assumes "mux_ServeHTTP lib clock nonce r h s = (resp, s')" "s' \<noteq> s"
    and "pathUnescape (lb_escapedPath lib r) = rq_Path r" "rq_Path r \<noteq> ''/login''"
  shows "Authenticated (lb_hmac lib) (sv_auth s) (clock 2) r \<or>
     LoginScope (lb_sha256 lib) (lb_hmac lib) (sv_auth s) (clock 3) r \<noteq> None"
proof -
  let ?e = "lb_escapedPath lib r"
  from assms(1,2) obtain rt where rt: "mux_match ?e = Some rt" "routes lib clock nonce rt r h s = (resp, s')"
    "rq_Method r \<noteq> ''CONNECT'' \<Longrightarrow> ?e = cleanPath ?e"
    by (auto simp: mux_ServeHTTP_def Let_def split: if_splits option.splits)
  have "\<not> (rt = RouteLogin \<and> rq_Method r = ''POST'')"
    using route_login [of ?e ?e] rt(1,3) assms(3,4) by auto
  then show ?thesis using routes_changes [OF rt(2) assms(2)] by blast
qed

lemma LoginScope_Authenticated:
  "LoginScope sha256 hmac a now r \<noteq> None \<longleftrightarrow> Authenticated hmac a now r"
  by (auto simp: LoginScope_def Authenticated_def split: option.splits)

lemma compress_state: "\<exists>h1. snd (compress_Middleware lib handler r h s) = snd (handler r h1 s)"
proof (cases "shouldCompress r")
  case True
  then show ?thesis
    by (intro exI [of _ "header_Del ''Content-Length''
        (header_Add ''Vary'' ''Accept-Encoding'' (header_Set ''Content-Encoding'' ''gzip'' h))"])
      (simp add: compress_Middleware_def Let_def split: prod.split option.split)
next
  case False
  then show ?thesis
    by (intro exI [of _ h]) (simp add: compress_Middleware_def split: prod.split option.split)
qed

definition passes_front :: "'w Server library \<Rightarrow> (nat \<Rightarrow> time) \<Rightarrow> Request \<Rightarrow> 'w Server \<Rightarrow> bool" where
  "passes_front lib clock r s \<longleftrightarrow>
     (requiresSameOrigin r \<longrightarrow> sameOrigin (lb_parseURL lib) r) \<and>
     (requiresCSRF r \<and> Authenticated (lb_hmac lib) (sv_auth s) (clock 0) r \<longrightarrow>
        VerifyCSRF (lb_hmac lib) (sv_auth s) (clock 1) r (header_Get csrfHeader (rq_Header r)))"

lemma serve_stopped: "\<not> passes_front lib clock r s \<Longrightarrow> snd (server_ServeHTTP lib clock nonce r s) = s"
  by (auto simp: server_ServeHTTP_def passes_front_def Let_def)

lemma serve_reaches:
  assumes "passes_front lib clock r s"
  shows "\<exists>h. snd (server_ServeHTTP lib clock nonce r s) = snd (mux_ServeHTTP lib clock nonce r h s)"
proof -
  have "snd (server_ServeHTTP lib clock nonce r s) =
      snd (compress_Middleware lib (mux_ServeHTTP lib clock nonce) r (initialHeader r) s)"
    using assms unfolding server_ServeHTTP_def passes_front_def Let_def
    by (auto split: prod.split outcome.split)
  then show ?thesis using compress_state [of lib "mux_ServeHTTP lib clock nonce"] by metis
qed

text \<open>
  C1. A request that changes anything outside the login page is a guarded one: whatever the handlers of the
  API do, if the request leaves the server in another state then it carried a valid login cookie; if its
  method is unsafe, or it opens a terminal WebSocket, it came from the application's own origin; and an
  unsafe request of a login that was valid when it arrived carried that login's CSRF token.
\<close>

theorem mutation_guarded:
  assumes "pathUnescape (lb_escapedPath lib r) = rq_Path r" "rq_Path r \<noteq> ''/login''"
    and "snd (server_ServeHTTP lib clock nonce r s) \<noteq> s"
  shows "(\<exists>i \<in> {2, 3}. Authenticated (lb_hmac lib) (sv_auth s) (clock i) r) \<and>
    (isUnsafeMethod (rq_Method r) \<or> has_prefix (rq_Path r) ''/terminal/'' \<and> isWebSocketUpgrade r \<longrightarrow>
       sameOrigin (lb_parseURL lib) r) \<and>
    (isUnsafeMethod (rq_Method r) \<and> Authenticated (lb_hmac lib) (sv_auth s) (clock 0) r \<longrightarrow>
       VerifyCSRF (lb_hmac lib) (sv_auth s) (clock 1) r (header_Get csrfHeader (rq_Header r)))"
proof -
  have front: "passes_front lib clock r s" using serve_stopped assms(3) by blast
  then obtain h where "snd (server_ServeHTTP lib clock nonce r s) = snd (mux_ServeHTTP lib clock nonce r h s)"
    using serve_reaches by blast
  with assms(3) have "snd (mux_ServeHTTP lib clock nonce r h s) \<noteq> s" by simp
  then have "Authenticated (lb_hmac lib) (sv_auth s) (clock 2) r \<or> Authenticated (lb_hmac lib) (sv_auth s) (clock 3) r"
    using mux_changes [of lib clock nonce r h s] assms(1,2) unfolding LoginScope_Authenticated by (metis prod.collapse)
  moreover have "requiresSameOrigin r \<longleftrightarrow> isUnsafeMethod (rq_Method r) \<or>
      has_prefix (rq_Path r) ''/terminal/'' \<and> isWebSocketUpgrade r"
    and "requiresCSRF r \<longleftrightarrow> isUnsafeMethod (rq_Method r)"
    using assms(2) by (auto simp: requiresSameOrigin_def requiresCSRF_def)
  ultimately show ?thesis using front by (simp add: passes_front_def)
qed

text \<open>
  Logging out leaves nothing behind: a request to \<^verbatim>\<open>/logout\<close> that the front lets through, with an empty
  body and a valid login, deletes every history snapshot and every paste token of that login and keeps
  those of every other login.
\<close>

theorem logout_purges:
  assumes "passes_front lib clock r s" "rq_Method r = ''POST''" "lb_escapedPath lib r = ''/logout''"
    and "rq_Body r = []" "\<not> rq_BodyFails r"
    and "LoginScope (lb_sha256 lib) (lb_hmac lib) (sv_auth s) (clock 3) r = Some scope"
    and "accounted (sv_snapshots s)" "pt_wf (sv_pasteTokens s)"
    and "s' = snd (server_ServeHTTP lib clock nonce r s)"
  shows "(\<forall>k v. map_of (sm_snapshots (sv_snapshots s')) k = Some v \<longleftrightarrow>
      map_of (sm_snapshots (sv_snapshots s)) k = Some v \<and> sn_User v \<noteq> scope) \<and>
    (\<forall>k v. map_of (pm_tokens (sv_pasteTokens s')) k = Some v \<longleftrightarrow>
      map_of (pm_tokens (sv_pasteTokens s)) k = Some v \<and> pb_User (st_binding v) \<noteq> scope)"
proof -
  obtain h where h: "s' = snd (mux_ServeHTTP lib clock nonce r h s)"
    using serve_reaches [OF assms(1)] assms(9) by blast
  have mux: "\<not> mux_slash ''/logout''" "cleanPath ''/logout'' = ''/logout''" "mux_match ''/logout'' = Some RouteLogout"
    by code_simp+
  have "s' = s\<lparr>sv_snapshots := sm_DeleteUser scope (sv_snapshots s),
      sv_pasteTokens := pt_DeleteUser scope (sv_pasteTokens s)\<rparr>"
    using assms(2-6) by (simp add: h mux_ServeHTTP_def mux routes_def handleLogout_def requireEmptyMutationBody_def
        readBody_def Let_def)
  then show ?thesis
    using assms(7,8) by (auto simp: sm_DeleteUser_def pt_DeleteUser_def sm_store.purge_lookup pt_store.purge_lookup
        split: option.splits if_splits)
qed

subsection \<open>Witnesses\<close>

definition front_auth :: Authenticator where
  "front_auth = \<lparr>au_passwordHash = ''pw'', au_secret = ''k'', au_ttl = 100 * second, au_secureCookie = True\<rparr>"

definition front_mac :: "string \<Rightarrow> string \<Rightarrow> string" where
  "front_mac k m = k @ m"

definition front_cookie :: string where
  "front_cookie = sign front_mac front_auth 7 ''n''"

definition front_lib :: "nat Server library" where
  "front_lib = \<lparr>lb_sha256 = (\<lambda>s. s), lb_hmac = front_mac,
     lb_parseURL = (\<lambda>_. Some \<lparr>ur_Scheme = ''https'', ur_Opaque = [], ur_User = False, ur_Host = ''a.b'', ur_Path = [],
       ur_RawPath = [], ur_ForceQuery = False, ur_RawQuery = [], ur_Fragment = [], ur_RawFragment = []\<rparr>),
     lb_gzip = (\<lambda>s. s), lb_escapedPath = rq_Path, lb_movedTo = (\<lambda>_ _ h. http_NotFound h), lb_password = (\<lambda>_. None),
     lb_printCookie = ck_Value, lb_serveFile = (\<lambda>_ _ h. http_NotFound h), lb_fileServer = (\<lambda>_ h. http_NotFound h),
     lb_version = [], lb_api = (\<lambda>_ _ h s. (None, s\<lparr>sv_world := Suc (sv_world s)\<rparr>))\<rparr>"

definition front_request :: "string \<Rightarrow> Request" where
  "front_request path = \<lparr>rq_Method = ''POST'', rq_Path = path, rq_Query = [], rq_Host = ''a.b'', rq_TLS = True,
     rq_RemoteAddr = [],
     rq_Header = [(''Origin'', [''https://a.b'']),
       (csrfHeader, [b64_encode (front_mac ''k'' (csrfDomain @ front_cookie))]), (''Accept-Encoding'', [''gzip''])],
     rq_Cookies = [(CookieName, front_cookie)], rq_Body = [], rq_BodyFails = False\<rparr>"

definition front_server :: "nat Server" where
  "front_server = initialServer \<lparr>cf_BindAddr = [], cf_Port = 8080, cf_Password = ''pw'', cf_StateDir = [], cf_HomeDir = [],
     cf_TLSCertFile = [], cf_TLSKeyFile = [], cf_AuthSecretFile = [], cf_CookieSecure = True, cf_CookieTTL = 100,
     cf_MaxSessions = 32, cf_SnapshotMaxBytes = 0\<rparr> front_auth 0"

lemma front_verify: "verify front_mac front_auth (8 * second) front_cookie"
  by (simp add: front_cookie_def verify_sign Auth.in_window_def front_auth_def unix_time_id time_sub_def)

lemma front_csrf:
  "VerifyCSRF front_mac front_auth (8 * second) (front_request path) (header_Get csrfHeader (rq_Header (front_request path)))"
proof -
  have c: "rq_Cookie CookieName (front_request path) = Some front_cookie"
    by (simp add: rq_Cookie_def front_request_def)
  have "header_Get csrfHeader (rq_Header (front_request path)) = b64_encode (front_mac ''k'' (csrfDomain @ front_cookie))"
    by (simp add: front_request_def header_Get_def header_Values_def csrfHeader_def)
  moreover have "trim_space (b64_encode m) = b64_encode m" for m
    by (rule trim_space_url64) (rule b64_encode_url64)
  ultimately show ?thesis
    using c front_verify by (simp add: VerifyCSRF_def CSRFToken_def b64_roundtrip front_auth_def)
qed

lemma front_origin: "sameOrigin (lb_parseURL front_lib) (front_request path)"
  by (simp add: front_lib_def front_request_def sameOrigin_def header_Values_def isSerializedOrigin_def
      matchesRequestOrigin_def requestScheme_def trim_space_graph equal_fold_def)

lemma front_passes: "passes_front front_lib (\<lambda>_. 8 * second) (front_request path) front_server"
  using front_origin front_csrf [of path]
  by (simp add: passes_front_def front_server_def initialServer_def front_lib_def)

lemma front_serve:
  "snd (server_ServeHTTP front_lib (\<lambda>_. 8 * second) [] (front_request ''/api/sessions'') front_server) =
     front_server\<lparr>sv_world := 1\<rparr>"
proof -
  let ?r = "front_request ''/api/sessions''"
  obtain h where "snd (server_ServeHTTP front_lib (\<lambda>_. 8 * second) [] ?r front_server) =
      snd (mux_ServeHTTP front_lib (\<lambda>_. 8 * second) [] ?r h front_server)"
    using serve_reaches [OF front_passes] by blast
  moreover have "\<not> mux_slash ''/api/sessions''" "cleanPath ''/api/sessions'' = ''/api/sessions''"
    "mux_match ''/api/sessions'' = Some RouteSessions"
    by code_simp+
  moreover have "Authenticated front_mac front_auth (8 * second) ?r"
    using front_verify by (simp add: Authenticated_def rq_Cookie_def front_request_def)
  ultimately show ?thesis
    by (simp add: mux_ServeHTTP_def front_lib_def front_request_def routes_def RequireAPI_def
        front_server_def initialServer_def)
qed

theorem mutation_guarded_witness:
  "snd (server_ServeHTTP front_lib (\<lambda>_. 8 * second) [] (front_request ''/api/sessions'') front_server) \<noteq> front_server \<and>
   Authenticated front_mac front_auth (8 * second) (front_request ''/api/sessions'') \<and>
   sameOrigin (lb_parseURL front_lib) (front_request ''/api/sessions'') \<and>
   VerifyCSRF front_mac front_auth (8 * second) (front_request ''/api/sessions'')
     (header_Get csrfHeader (rq_Header (front_request ''/api/sessions'')))"
proof -
  let ?r = "front_request ''/api/sessions''"
  have changed: "snd (server_ServeHTTP front_lib (\<lambda>_. 8 * second) [] ?r front_server) \<noteq> front_server"
    unfolding front_serve by (simp add: front_server_def initialServer_def)
  have path: "pathUnescape (lb_escapedPath front_lib ?r) = rq_Path ?r" "rq_Path ?r \<noteq> ''/login''"
    by (simp_all add: front_lib_def front_request_def pathUnescape_def)
  show ?thesis
    using mutation_guarded [OF path changed] changed
    by (simp add: front_request_def isUnsafeMethod_def front_lib_def front_server_def initialServer_def)
qed

definition front_token :: "string \<Rightarrow> storedPasteToken" where
  "front_token user = \<lparr>st_binding = \<lparr>pb_User = user, pb_SessionRef = ''s'', pb_PaneRef = ''p'', pb_Generation = zero_generation,
     pb_Action = \<lparr>Digest = [], Bytes = 1, Lines = 1, ControlCharacters = False, TrailingNewline = False\<rparr>\<rparr>,
     st_Expires = 0\<rparr>"

theorem logout_purges_witness:
  "map_of (pm_tokens (sv_pasteTokens (snd (server_ServeHTTP front_lib (\<lambda>_. 8 * second) [] (front_request ''/logout'')
      (front_server\<lparr>sv_pasteTokens := \<lparr>pm_ttl = 1, pm_perUser = 1,
         pm_tokens = [(''t'', front_token (b64_encode front_cookie)), (''u'', front_token ''!'')]\<rparr>\<rparr>))))) ''t'' = None \<and>
   map_of (pm_tokens (sv_pasteTokens (snd (server_ServeHTTP front_lib (\<lambda>_. 8 * second) [] (front_request ''/logout'')
      (front_server\<lparr>sv_pasteTokens := \<lparr>pm_ttl = 1, pm_perUser = 1,
         pm_tokens = [(''t'', front_token (b64_encode front_cookie)), (''u'', front_token ''!'')]\<rparr>\<rparr>))))) ''u'' = Some (front_token ''!'')"
  (is "map_of (pm_tokens (sv_pasteTokens (snd (server_ServeHTTP _ ?clock _ ?r ?s)))) _ = None \<and> _")
proof -
  have passes: "passes_front front_lib ?clock ?r ?s"
    using front_passes [of "''/logout''"] by (simp add: passes_front_def)
  have scope: "LoginScope (lb_sha256 front_lib) (lb_hmac front_lib) (sv_auth ?s) (?clock 3) ?r = Some (b64_encode front_cookie)"
    using front_verify by (simp add: LoginScope_def rq_Cookie_def front_request_def front_lib_def front_server_def initialServer_def)
  have wf: "accounted (sv_snapshots ?s)" "pt_wf (sv_pasteTokens ?s)"
    by (simp_all add: front_server_def initialServer_def pt_wf_def gm_wf_def snapshot_invD(1) [OF newSnapshotManager_inv])
  have other: "b64_encode front_cookie \<noteq> ''!''"
    using b64_encode_url64 [of front_cookie] by (auto simp: char_class_defs)
  have user: "pb_User (st_binding (front_token u)) = u" for u by (simp add: front_token_def)
  define t where "t = snd (server_ServeHTTP front_lib ?clock [] ?r ?s)"
  have "(\<forall>k v. map_of (sm_snapshots (sv_snapshots t)) k = Some v \<longleftrightarrow>
      map_of (sm_snapshots (sv_snapshots ?s)) k = Some v \<and> sn_User v \<noteq> b64_encode front_cookie) \<and>
    (\<forall>k v. map_of (pm_tokens (sv_pasteTokens t)) k = Some v \<longleftrightarrow>
      map_of (pm_tokens (sv_pasteTokens ?s)) k = Some v \<and> pb_User (st_binding v) \<noteq> b64_encode front_cookie)"
    by (rule logout_purges [OF passes _ _ _ _ scope wf t_def]) (simp_all add: front_request_def front_lib_def)
  then have tokens: "map_of (pm_tokens (sv_pasteTokens t)) k = Some v \<longleftrightarrow>
      map_of (pm_tokens (sv_pasteTokens ?s)) k = Some v \<and> pb_User (st_binding v) \<noteq> b64_encode front_cookie" for k v
    by blast
  have "map_of (pm_tokens (sv_pasteTokens t)) ''t'' \<noteq> Some v" for v
    using tokens [of "''t''" v] by (auto simp: user)
  then have "map_of (pm_tokens (sv_pasteTokens t)) ''t'' = None" by (meson not_Some_eq)
  moreover have "map_of (pm_tokens (sv_pasteTokens t)) ''u'' = Some (front_token ''!'')"
    using tokens [of "''u''"] other user by simp
  ultimately show ?thesis unfolding t_def ..
qed

subsection \<open>Panics behind the compression\<close>

text \<open>
  A panic of a handler is answered with status 500, unless the client accepts gzip: closing the gzip writer
  while the panic unwinds has then begun a response with status 200, and the message follows the compressed stream.
\<close>

theorem panic_reported_as_success:
  assumes "passes_front lib clock r s" "\<And>h. fst (mux_ServeHTTP lib clock nonce r h s) = None"
  shows "rs_Status (fst (server_ServeHTTP lib clock nonce r s)) = (if shouldCompress r then 200 else 500)"
proof -
  define state where "state h = snd (mux_ServeHTTP lib clock nonce r h s)" for h
  have "mux_ServeHTTP lib clock nonce r h s = (None, state h)" for h
    unfolding state_def by (metis assms(2) prod.collapse)
  then have "\<exists>w. fst (compress_Middleware lib (mux_ServeHTTP lib clock nonce) r (initialHeader r) s) = Panicked w \<and>
      rs_Status (recovered w) = (if shouldCompress r then 200 else 500)"
    by (auto simp: compress_Middleware_def Let_def recovered_def http_Error_def)
  then show ?thesis
    using assms(1) by (auto simp: server_ServeHTTP_def passes_front_def Let_def split: prod.splits)
qed

end
