(* ===== verification/Session_Lifecycle.thy ===== *)
theory Session_Lifecycle
  imports Registry Tmux Server_Config
begin

section \<open>Lifecycle of managed sessions\<close>

text \<open>
  \<^verbatim>\<open>internal/session/lifecycle.go\<close> and \<^verbatim>\<open>errors.go\<close>: creating, selecting, reconciling, using and terminating
  managed sessions. The manager works on interfaces, so \<open>Manager\<close> is a record of the operations the code
  calls on them (the registry store, the tmux client, the terminal bridge, the lock and the file system),
  each a program over an arbitrary world that may fail; \<open>newManager\<close> puts the models of the registry and of the tmux
  client in. The caller's \<^verbatim>\<open>verify\<close> and \<^verbatim>\<open>cleanup\<close> functions are arguments. Logging is not modelled; the
  cancellation of a context is one of the failures.
\<close>

subsection \<open>Errors\<close>

datatype ErrorKind =
    ErrorInvalidName
  | ErrorConflict
  | ErrorNotFound
  | ErrorDependency
  | ErrorBridgeIncomplete

text \<open>
  An error value with what it wraps: \<open>Lifecycle\<close> is \<^verbatim>\<open>session.Error\<close>, \<open>Wrapped\<close> is \<^verbatim>\<open>fmt.Errorf\<close> with \<^verbatim>\<open>%w\<close>, \<open>Joined\<close>
  is \<^verbatim>\<open>errors.Join\<close>; the other constructors are errors of the packages below and of the caller.
\<close>

datatype 'e sessionError =
    Plain string
  | OfRegistry registryError
  | OfTmux tmuxError
  | OfSystem string
  | SystemNotExist
  | OfCaller 'e
  | Lifecycle ErrorKind string string "'e sessionError option"
  | Wrapped string "'e sessionError"
  | Joined "'e sessionError list"

text \<open>\<^verbatim>\<open>errors.Is\<close>: some error in the tree has the property.\<close>

fun errors_Is :: "('e sessionError \<Rightarrow> bool) \<Rightarrow> 'e sessionError \<Rightarrow> bool" where
  "errors_Is p (Lifecycle kind op sid (Some cause)) =
     (p (Lifecycle kind op sid (Some cause)) \<or> errors_Is p cause)"
| "errors_Is p (Wrapped message cause) = (p (Wrapped message cause) \<or> errors_Is p cause)"
| "errors_Is p (Joined causes) = (p (Joined causes) \<or> list_ex (errors_Is p) causes)"
| "errors_Is p err = p err"

fun of_kind :: "ErrorKind \<Rightarrow> 'e sessionError \<Rightarrow> bool" where
  "of_kind kind (Lifecycle k _ _ _) = (k = kind)"
| "of_kind kind _ = False"

fun is_notExist :: "'e sessionError \<Rightarrow> bool" where
  "is_notExist SystemNotExist = True"
| "is_notExist (OfRegistry ErrNotExist) = True"
| "is_notExist _ = False"

fun is_invalidRecord :: "'e sessionError \<Rightarrow> bool" where
  "is_invalidRecord (OfRegistry (ErrInvalidSessionRecord _)) = True"
| "is_invalidRecord _ = False"

definition lifecycleError :: "ErrorKind \<Rightarrow> string \<Rightarrow> string \<Rightarrow> 'e sessionError option \<Rightarrow> 'e sessionError" where
  "lifecycleError kind operation sid err = Lifecycle kind operation sid err"

definition classifyBridgeError :: "string \<Rightarrow> string \<Rightarrow> 'e sessionError \<Rightarrow> 'e sessionError" where
  "classifyBridgeError operation sid err =
     (if errors_Is (of_kind ErrorDependency) err \<or> errors_Is (of_kind ErrorBridgeIncomplete) err then err
      else lifecycleError ErrorDependency operation sid (Some err))"

definition classifyManagedReadError :: "string \<Rightarrow> string \<Rightarrow> 'e sessionError \<Rightarrow> 'e sessionError" where
  "classifyManagedReadError operation sid err =
     lifecycleError (if errors_Is is_notExist err \<or> errors_Is is_invalidRecord err then ErrorNotFound else ErrorDependency)
       operation sid (Some err)"

subsection \<open>Configuration\<close>

definition defaultWindowSize :: string where "defaultWindowSize = ''manual''"
definition defaultMouse :: string where "defaultMouse = ''off''"
definition defaultScrollback :: int where "defaultScrollback = 10000"
definition defaultStartupTimeout :: duration where "defaultStartupTimeout = 5 * second"

record managerConfig =
  mc_StateDir :: string
  mc_HomeDir :: string
  mc_TmuxBinary :: string
  mc_TtydBinary :: string
  mc_WindowSize :: string
  mc_Mouse :: string
  mc_AppName :: string
  mc_WebScrollbackLines :: int
  mc_WebScrollbackConfigured :: bool
  mc_BridgeStartupTimeout :: duration

definition environmentOrDefault :: "(string \<Rightarrow> string) \<Rightarrow> string \<Rightarrow> string \<Rightarrow> string" where
  "environmentOrDefault env name fallback = (if env name \<noteq> [] then env name else fallback)"

text \<open>\<open>resolveBinary\<close> is \<^verbatim>\<open>tmux.ResolveBinary\<close>, which finds and checks the installed tmux.\<close>

definition ConfigFromEnvironment :: "(string \<Rightarrow> string) \<Rightarrow> (string \<Rightarrow> string + string) \<Rightarrow> string \<Rightarrow> string \<Rightarrow>
    string + managerConfig" where
  "ConfigFromEnvironment env resolveBinary stateDir homeDir =
     bindR (let value = env ''CONTROL_AGENTS_WEB_SCROLLBACK_LINES'' in
        if value = [] then Inr defaultScrollback
        else case parse_int value of
            None \<Rightarrow> Inl ''CONTROL_AGENTS_WEB_SCROLLBACK_LINES must be a non-negative integer''
          | Some parsed \<Rightarrow>
              if parsed < 0 then Inl ''CONTROL_AGENTS_WEB_SCROLLBACK_LINES must be a non-negative integer'' else Inr parsed)
       (\<lambda>scrollback. bindR (resolveBinary homeDir) (\<lambda>tmuxBinary.
         Inr \<lparr>mc_StateDir = stateDir, mc_HomeDir = homeDir, mc_TmuxBinary = tmuxBinary, mc_TtydBinary = [],
              mc_WindowSize = environmentOrDefault env ''CONTROL_AGENTS_TMUX_WINDOW_SIZE'' defaultWindowSize,
              mc_Mouse = environmentOrDefault env ''CONTROL_AGENTS_TMUX_MOUSE'' defaultMouse,
              mc_AppName = env ''CONTROL_AGENTS_APP_NAME'', mc_WebScrollbackLines = scrollback,
              mc_WebScrollbackConfigured = True, mc_BridgeStartupTimeout = 0\<rparr>))"

definition withDefaults :: "managerConfig \<Rightarrow> managerConfig" where
  "withDefaults cfg = cfg
     \<lparr>mc_TmuxBinary := if mc_TmuxBinary cfg = [] then ''tmux'' else mc_TmuxBinary cfg,
      mc_TtydBinary := if mc_TtydBinary cfg = [] then ''ttyd'' else mc_TtydBinary cfg,
      mc_WindowSize := if mc_WindowSize cfg = [] then defaultWindowSize else mc_WindowSize cfg,
      mc_Mouse := if mc_Mouse cfg = [] then defaultMouse else mc_Mouse cfg,
      mc_WebScrollbackLines := if \<not> mc_WebScrollbackConfigured cfg \<and> mc_WebScrollbackLines cfg = 0
        then defaultScrollback else mc_WebScrollbackLines cfg,
      mc_BridgeStartupTimeout := if mc_BridgeStartupTimeout cfg \<le> 0 then defaultStartupTimeout
        else mc_BridgeStartupTimeout cfg\<rparr>"

definition validateConfig :: "managerConfig \<Rightarrow> string + unit" where
  "validateConfig cfg =
     (if trim_space (mc_StateDir cfg) = [] then Inl ''managed session state directory cannot be empty''
      else if trim_space (mc_HomeDir cfg) = [] \<or> \<not> has_prefix (mc_HomeDir cfg) ''/''
        then Inl ''managed session home directory must be absolute''
      else if mc_Mouse cfg \<noteq> ''on'' \<and> mc_Mouse cfg \<noteq> ''off''
        then Inl ''CONTROL_AGENTS_TMUX_MOUSE must be either on or off''
      else if mc_WebScrollbackLines cfg < 0 then Inl ''managed session web scrollback must be non-negative''
      else Inr ())"

subsection \<open>The manager\<close>

type_synonym ('w, 'e, 'a) lifecycle = "('w, 'e sessionError, 'a) prog"

record ('w, 'e) Manager =
  mg_cfg :: managerConfig
  mg_Ensure :: "('w, registryError, unit) prog"
  mg_ListCompatible :: "('w, registryError, Session list) prog"
  mg_ReadCompatible :: "string \<Rightarrow> ('w, registryError, Session) prog"
  mg_Write :: "Session \<Rightarrow> ('w, registryError, unit) prog"
  mg_Remove :: "string \<Rightarrow> ('w, registryError, unit) prog"
  mg_HasSession :: "string \<Rightarrow> ('w, bool) tmux"
  mg_CreateManagedSession :: "string \<Rightarrow> string \<Rightarrow> ManagedSessionOptions \<Rightarrow> ('w, unit) tmux"
  mg_ConfigureHistory :: "string \<Rightarrow> ('w, unit) tmux"
  mg_ConfigureManualWindowSize :: "string \<Rightarrow> ('w, unit) tmux"
  mg_SetSessionEnvironment :: "string \<Rightarrow> string \<Rightarrow> string \<Rightarrow> ('w, unit) tmux"
  mg_KillSession :: "string \<Rightarrow> ('w, unit) tmux"
  mg_bridgeEnsure :: "Session \<Rightarrow> ('w, 'e, int) lifecycle"
  mg_bridgeStop :: "Session \<Rightarrow> ('w, 'e, unit) lifecycle"
  mg_acquire :: "string \<Rightarrow> string \<Rightarrow> ('w, 'e, unit) lifecycle"
  mg_release :: "string \<Rightarrow> 'w \<Rightarrow> 'w"
  mg_mkdirAll :: "string \<Rightarrow> ('w, 'e, unit) lifecycle"
  mg_chmod :: "string \<Rightarrow> ('w, 'e, unit) lifecycle"
  mg_remove :: "string \<Rightarrow> ('w, 'e, unit) lifecycle"
  mg_NewPublicRef :: "('w, 'e, string) lifecycle"
  mg_timestamp :: "'w \<Rightarrow> string"

definition forwardedAgentDirectory :: string where "forwardedAgentDirectory = ''agent''"
definition forwardedAgentSocket :: string where "forwardedAgentSocket = ''forwarded.sock''"

definition stateFile :: "('w, 'e) Manager \<Rightarrow> string \<Rightarrow> string \<Rightarrow> string" where
  "stateFile m dir name = path_join [mc_StateDir (mg_cfg m), dir, name]"

definition stateDirectory :: "('w, 'e) Manager \<Rightarrow> string \<Rightarrow> string" where
  "stateDirectory m dir = path_join [mc_StateDir (mg_cfg m), dir]"

definition agentSocket :: "('w, 'e) Manager \<Rightarrow> string" where
  "agentSocket m = stateFile m forwardedAgentDirectory forwardedAgentSocket"

text \<open>Errors of a package below enter the code as they are, or wrapped with a message.\<close>

definition mapErr :: "('e \<Rightarrow> 'f) \<Rightarrow> ('w, 'e, 'a) prog \<Rightarrow> ('w, 'f, 'a) prog" where
  "mapErr f p = (\<lambda>w. case p w of (Inl e, w') \<Rightarrow> (Inl (f e), w') | (Inr v, w') \<Rightarrow> (Inr v, w'))"

definition ensurePrivateState :: "('w, 'e) Manager \<Rightarrow> ('w, 'e, unit) lifecycle" where
  "ensurePrivateState m =
     bindP (mapErr OfRegistry (mg_Ensure m)) (\<lambda>_.
       eachP (\<lambda>path.
         bindP (mapErr (Wrapped ''create private state directory'') (mg_mkdirAll m path)) (\<lambda>_.
           mapErr (Wrapped ''set private state directory permissions'') (mg_chmod m path)))
         (mc_StateDir (mg_cfg m) # map (stateDirectory m) [''sockets'', ''logs'', ''locks'', ''resize'', forwardedAgentDirectory]))"

definition lock :: "('w, 'e) Manager \<Rightarrow> string \<Rightarrow> ('w, 'e, unit) lifecycle" where
  "lock m sid = bindP (ensurePrivateState m) (\<lambda>_. mg_acquire m (stateDirectory m ''locks'') sid)"

text \<open>The body of an operation under its lock, with the deferred \<^verbatim>\<open>lock.Close()\<close>.\<close>

definition locked :: "('w, 'e) Manager \<Rightarrow> string \<Rightarrow> string \<Rightarrow> ('w, 'e, 'a) lifecycle \<Rightarrow> ('w, 'e, 'a) lifecycle" where
  "locked m operation sid body =
     bindP (mapErr (\<lambda>e. lifecycleError ErrorDependency operation sid (Some e)) (lock m sid)) (\<lambda>_ w.
       case body w of (r, w') \<Rightarrow> (r, mg_release m sid w'))"

definition migrateRecord :: "('w, 'e) Manager \<Rightarrow> Session \<Rightarrow> ('w, 'e, Session) lifecycle" where
  "migrateRecord m managed =
     bindP (if ValidPublicRef (se_PublicRef managed) then returnP (se_PublicRef managed) else mg_NewPublicRef m) (\<lambda>ref.
       let migrated = managed\<lparr>se_Name := se_ID managed, se_PublicRef := ref\<rparr> in
       bindP (mapErr (\<lambda>e. Wrapped ''migrate legacy managed session'' (OfRegistry e)) (mg_Write m migrated)) (\<lambda>_.
         returnP migrated))"

definition readManaged :: "('w, 'e) Manager \<Rightarrow> string \<Rightarrow> ('w, 'e, Session) lifecycle" where
  "readManaged m sid =
     bindP (mapErr OfRegistry (mg_ReadCompatible m sid)) (\<lambda>managed.
       if se_Name managed = se_ID managed \<and> ValidPublicRef (se_PublicRef managed) then returnP managed
       else migrateRecord m managed)"

text \<open>All artifacts are tried; the record goes only if none failed.\<close>

fun removePaths :: "('w, 'e) Manager \<Rightarrow> string list \<Rightarrow> 'w \<Rightarrow> 'e sessionError list \<times> 'w" where
  "removePaths m [] w = ([], w)"
| "removePaths m (path # paths) w =
     (case mg_remove m path w of
        (r, w1) \<Rightarrow>
          (case removePaths m paths w1 of
             (errs, w2) \<Rightarrow>
               (case r of
                  Inl e \<Rightarrow> (if errors_Is is_notExist e then errs else Wrapped ''remove session artifact'' e # errs, w2)
                | Inr _ \<Rightarrow> (errs, w2))))"

definition removeArtifacts :: "('w, 'e) Manager \<Rightarrow> Session \<Rightarrow> ('w, 'e, unit) lifecycle" where
  "removeArtifacts m managed = (\<lambda>w.
     case removePaths m
         [stateFile m ''sockets'' (se_ID managed @ ''.sock''), stateFile m ''logs'' (se_ID managed @ ''.log''),
          stateFile m ''resize'' (se_ID managed @ ''.json''), stateFile m ''resize'' (se_PublicRef managed @ ''.json'')] w of
       (errs, w1) \<Rightarrow>
         if errs \<noteq> [] then (Inl (Joined errs), w1) else mapErr OfRegistry (mg_Remove m (se_ID managed)) w1)"

definition cleanupLocked :: "('w, 'e) Manager \<Rightarrow> Session \<Rightarrow> ('w, 'e, unit) lifecycle" where
  "cleanupLocked m managed =
     bindP (mapErr (Wrapped ''stop terminal bridge'') (mg_bridgeStop m managed)) (\<lambda>_. removeArtifacts m managed)"

definition killTmuxIfPresent :: "('w, 'e) Manager \<Rightarrow> string \<Rightarrow> ('w, 'e, unit) lifecycle" where
  "killTmuxIfPresent m name =
     bindP (mapErr OfTmux (mg_HasSession m name)) (\<lambda>alive.
       if \<not> alive then returnP () else mapErr OfTmux (mg_KillSession m name))"

text \<open>The caller discards the error of this clean-up: it is the world after its three steps.\<close>

definition cleanupNewSession :: "('w, 'e) Manager \<Rightarrow> Session \<Rightarrow> 'w \<Rightarrow> 'w" where
  "cleanupNewSession m managed w =
     snd (removeArtifacts m managed (snd (killTmuxIfPresent m (se_TmuxName managed) (snd (mg_bridgeStop m managed w)))))"

definition checkSession :: "('w, 'e) Manager \<Rightarrow> string \<Rightarrow> string \<Rightarrow> string \<Rightarrow> ('w, 'e, bool) lifecycle" where
  "checkSession m operation sid name =
     mapErr (\<lambda>e. lifecycleError ErrorDependency operation sid (Some (Wrapped ''check tmux session'' (OfTmux e)))) (mg_HasSession m name)"

definition ensureBridgeLocked :: "('w, 'e) Manager \<Rightarrow> Session \<Rightarrow> ('w, 'e, Session) lifecycle" where
  "ensureBridgeLocked m managed =
     (let failed = (\<lambda>message e. lifecycleError ErrorDependency ''ensure bridge'' (se_ID managed) (Some (Wrapped message e))) in
      bindP (mapErr (\<lambda>e. failed ''configure tmux history'' (OfTmux e)) (mg_ConfigureHistory m (se_TmuxName managed))) (\<lambda>_.
      bindP (mapErr (\<lambda>e. failed ''configure fixed tmux sizing'' (OfTmux e))
        (mg_ConfigureManualWindowSize m (se_TmuxName managed))) (\<lambda>_.
      bindP (mapErr (classifyBridgeError ''ensure bridge'' (se_ID managed)) (mg_bridgeEnsure m managed)) (\<lambda>pid.
      bindP (mapErr (\<lambda>e. failed ''configure forwarded agent socket'' (OfTmux e))
        (mg_SetSessionEnvironment m (se_TmuxName managed) ''SSH_AUTH_SOCK'' (agentSocket m))) (\<lambda>_.
      if se_PID managed = pid then returnP managed
      else
        let updated = managed\<lparr>se_PID := pid\<rparr> in
        bindP (mapErr (\<lambda>e. failed ''update bridge metadata'' (OfRegistry e)) (mg_Write m updated)) (\<lambda>_.
          returnP updated))))))"

subsection \<open>Operations\<close>

definition statusLabel :: "('w, 'e) Manager \<Rightarrow> string \<Rightarrow> string" where
  "statusLabel m name = (if trim_space (mc_AppName (mg_cfg m)) \<noteq> [] then mc_AppName (mg_cfg m) else name)"

definition newSession :: "('w, 'e) Manager \<Rightarrow> string \<Rightarrow> string \<Rightarrow> Session" where
  "newSession m name createdAt =
     \<lparr>se_ID = name, se_Name = name, se_PublicRef = [], se_TmuxName = name,
      se_Socket = stateFile m ''sockets'' (name @ ''.sock''), se_PID = 0, se_CWD = mc_HomeDir (mg_cfg m),
      se_CreatedAt = createdAt\<rparr>"

text \<open>An error after which the session that was begun is taken down again.\<close>

definition orTakeDown :: "('w \<Rightarrow> 'w) \<Rightarrow> ('e \<Rightarrow> 'f) \<Rightarrow> ('w, 'e, 'a) prog \<Rightarrow> ('w, 'f, 'a) prog" where
  "orTakeDown takeDown f p = (\<lambda>w. case p w of (Inl e, w') \<Rightarrow> (Inl (f e), takeDown w') | (Inr v, w') \<Rightarrow> (Inr v, w'))"

definition createNew :: "('w, 'e) Manager \<Rightarrow> string \<Rightarrow> ('w, 'e, Session \<times> bool) lifecycle" where
  "createNew m name =
     (let failed = (\<lambda>e. lifecycleError ErrorDependency ''create'' name (Some e)) in
      bindP (checkSession m ''create'' name name) (\<lambda>exists.
      if exists then
        failP (lifecycleError ErrorConflict ''create'' name (Some (Plain ''an unmanaged tmux session already uses this name'')))
      else
        bindP (orTakeDown (\<lambda>w. snd (killTmuxIfPresent m name w))
            (\<lambda>e. failed (Wrapped ''create tmux session'' (OfTmux e)))
          (mg_CreateManagedSession m name (mc_HomeDir (mg_cfg m))
            \<lparr>mo_WindowSize = mc_WindowSize (mg_cfg m), mo_Mouse = mc_Mouse (mg_cfg m),
             mo_StatusLeft = ''['' @ statusLabel m name @ ''] '', mo_SSHAuthSock = agentSocket m\<rparr>)) (\<lambda>_ w.
        let managed = newSession m name (mg_timestamp m w) in
        bindP (orTakeDown (cleanupNewSession m managed) failed (mg_NewPublicRef m)) (\<lambda>ref.
        let managed1 = managed\<lparr>se_PublicRef := ref\<rparr> in
        bindP (orTakeDown (cleanupNewSession m managed1) (classifyBridgeError ''create'' name) (mg_bridgeEnsure m managed1)) (\<lambda>pid.
        let managed2 = managed1\<lparr>se_PID := pid\<rparr> in
        bindP (orTakeDown (cleanupNewSession m managed2) (\<lambda>e. failed (Wrapped ''write managed session record'' (OfRegistry e)))
          (mg_Write m managed2)) (\<lambda>_.
          returnP (managed2, True)))) w)))"

definition createLocked :: "('w, 'e) Manager \<Rightarrow> string \<Rightarrow> ('w, 'e, Session \<times> bool) lifecycle" where
  "createLocked m name = (\<lambda>w.
     case readManaged m name w of
       (Inr existing, w1) \<Rightarrow>
         bindP (checkSession m ''create'' name (se_TmuxName existing)) (\<lambda>alive.
           if alive then bindP (ensureBridgeLocked m existing) (\<lambda>managed. returnP (managed, False))
           else
             bindP (mapErr (\<lambda>e. lifecycleError ErrorDependency ''create'' name (Some e)) (cleanupLocked m existing)) (\<lambda>_.
               createNew m name)) w1
     | (Inl readErr, w1) \<Rightarrow>
         if errors_Is is_invalidRecord readErr \<or> errors_Is is_notExist readErr then createNew m name w1
         else (Inl (lifecycleError ErrorDependency ''create'' name (Some readErr)), w1))"

definition CreateOrSelect :: "('w, 'e) Manager \<Rightarrow> string \<Rightarrow> ('w, 'e, Session \<times> bool) lifecycle" where
  "CreateOrSelect m name =
     (if \<not> ValidID name then
        failP (lifecycleError ErrorInvalidName ''create'' name
          (Some (Plain ''name must match [A-Za-z0-9][A-Za-z0-9._-]{0,63}'')))
      else locked m ''create'' name (createLocked m name))"

definition Create :: "('w, 'e) Manager \<Rightarrow> string \<Rightarrow> ('w, 'e, Session) lifecycle" where
  "Create m name = bindP (CreateOrSelect m name) (\<lambda>(managed, _). returnP managed)"

text \<open>The common start of the operations on one session: the record, and whether its session is alive.\<close>

definition liveSession :: "('w, 'e) Manager \<Rightarrow> string \<Rightarrow> string \<Rightarrow> ('w, 'e, Session) lifecycle" where
  "liveSession m operation sid =
     bindP (mapErr (classifyManagedReadError operation sid) (readManaged m sid)) (\<lambda>managed.
     bindP (checkSession m operation sid (se_TmuxName managed)) (\<lambda>alive.
       if alive then returnP managed
       else tryP (cleanupLocked m managed) (\<lambda>r.
         failP (lifecycleError ErrorNotFound operation sid (case r of Inl e \<Rightarrow> Some e | Inr _ \<Rightarrow> None)))))"

definition EnsureBridge :: "('w, 'e) Manager \<Rightarrow> string \<Rightarrow> ('w, 'e, Session) lifecycle" where
  "EnsureBridge m sid =
     (if \<not> ValidID sid then failP (lifecycleError ErrorInvalidName ''ensure bridge'' sid None)
      else locked m ''ensure bridge'' sid (bindP (liveSession m ''ensure bridge'' sid) (ensureBridgeLocked m)))"

definition WithSession :: "('w, 'e) Manager \<Rightarrow> string \<Rightarrow> (Session \<Rightarrow> ('w, 'e, unit) lifecycle) \<Rightarrow> ('w, 'e, unit) lifecycle" where
  "WithSession m sid use =
     (if \<not> ValidID sid then failP (lifecycleError ErrorInvalidName ''use'' sid None)
      else locked m ''use'' sid (bindP (liveSession m ''use'' sid) use))"

definition reconcileOne :: "('w, 'e) Manager \<Rightarrow> string \<Rightarrow> ('w, 'e, Session option) lifecycle" where
  "reconcileOne m sid =
     (let failed = (\<lambda>e. lifecycleError ErrorDependency ''reconcile'' sid (Some e)) in
      locked m ''reconcile'' sid
        (tryP (readManaged m sid) (\<lambda>r.
           case r of
             Inl e \<Rightarrow> if errors_Is is_notExist e then returnP None else failP (failed e)
           | Inr managed \<Rightarrow>
               bindP (checkSession m ''reconcile'' sid (se_TmuxName managed)) (\<lambda>alive.
                 if \<not> alive then bindP (mapErr failed (cleanupLocked m managed)) (\<lambda>_. returnP None)
                 else bindP (ensureBridgeLocked m managed) (\<lambda>managed. returnP (Some managed))))))"

fun reconcileEach :: "('w, 'e) Manager \<Rightarrow> string list \<Rightarrow> 'w \<Rightarrow> (Session list \<times> 'e sessionError list) \<times> 'w" where
  "reconcileEach m [] w = (([], []), w)"
| "reconcileEach m (sid # sids) w =
     (case reconcileOne m sid w of
        (r, w1) \<Rightarrow>
          (case reconcileEach m sids w1 of
             ((kept, errs), w2) \<Rightarrow>
               (case r of
                  Inl e \<Rightarrow> ((kept, e # errs), w2)
                | Inr None \<Rightarrow> ((kept, errs), w2)
                | Inr (Some managed) \<Rightarrow> ((managed # kept, errs), w2))))"

definition Reconcile :: "('w, 'e) Manager \<Rightarrow> ('w, 'e, Session list) lifecycle" where
  "Reconcile m =
     bindP (mapErr (\<lambda>e. lifecycleError ErrorDependency ''reconcile'' [] (Some (OfRegistry e))) (mg_ListCompatible m)) (\<lambda>records w.
       case reconcileEach m (map se_ID records) w of
         ((reconciled, errs), w1) \<Rightarrow> (if errs \<noteq> [] then Inl (Joined errs) else Inr reconciled, w1))"

definition manager_List :: "('w, 'e) Manager \<Rightarrow> ('w, 'e, Session list) lifecycle" where
  "manager_List m = Reconcile m"

text \<open>The part of a termination after all checks.\<close>

definition endSession :: "('w, 'e) Manager \<Rightarrow> string \<Rightarrow> ('w \<Rightarrow> 'w) option \<Rightarrow> Session \<Rightarrow> ('w, 'e, unit) lifecycle" where
  "endSession m sid cleanup managed =
     (let failed = (\<lambda>message e. lifecycleError ErrorDependency ''terminate'' sid (Some (Wrapped message e))) in
      bindP (mapErr (failed ''stop terminal bridge'') (mg_bridgeStop m managed)) (\<lambda>_.
      bindP (checkSession m ''terminate'' sid (se_TmuxName managed)) (\<lambda>alive.
      bindP (if alive then mapErr (\<lambda>e. failed ''kill tmux session'' (OfTmux e)) (mg_KillSession m (se_TmuxName managed))
        else returnP ()) (\<lambda>_ w.
        mapErr (\<lambda>e. lifecycleError ErrorDependency ''terminate'' sid (Some e)) (removeArtifacts m managed)
          (case cleanup of None \<Rightarrow> w | Some f \<Rightarrow> f w)))))"

definition TerminateChecked :: "('w, 'e) Manager \<Rightarrow> string \<Rightarrow> string \<Rightarrow> (Session \<Rightarrow> ('w, 'e, unit) lifecycle) option \<Rightarrow>
    ('w \<Rightarrow> 'w) option \<Rightarrow> ('w, 'e, unit) lifecycle" where
  "TerminateChecked m sid expectedPublicRef verification cleanup =
     (if \<not> ValidID sid then failP (lifecycleError ErrorInvalidName ''terminate'' sid None)
      else locked m ''terminate'' sid
        (bindP (mapErr (classifyManagedReadError ''terminate'' sid) (readManaged m sid)) (\<lambda>managed.
         if expectedPublicRef \<noteq> [] \<and> se_PublicRef managed \<noteq> expectedPublicRef then
           failP (lifecycleError ErrorNotFound ''terminate'' sid (Some (Plain ''public session reference changed'')))
         else
           bindP (case verification of None \<Rightarrow> returnP () | Some check \<Rightarrow> check managed) (\<lambda>_.
             endSession m sid cleanup managed))))"

definition TerminateWithCleanup :: "('w, 'e) Manager \<Rightarrow> string \<Rightarrow> ('w \<Rightarrow> 'w) option \<Rightarrow> ('w, 'e, unit) lifecycle" where
  "TerminateWithCleanup m sid cleanup = TerminateChecked m sid [] None cleanup"

definition Terminate :: "('w, 'e) Manager \<Rightarrow> string \<Rightarrow> ('w, 'e, unit) lifecycle" where
  "Terminate m sid = TerminateWithCleanup m sid None"

subsection \<open>Programs that leave a view of the world alone\<close>

definition quiet :: "('w \<Rightarrow> 'v) \<Rightarrow> ('w, 'e, 'a) prog \<Rightarrow> bool" where
  "quiet view p \<longleftrightarrow> (\<forall>w. view (snd (p w)) = view w)"

named_theorems quietI \<open>programs that leave the view alone\<close>

lemma quietD: "quiet view p \<Longrightarrow> p w = (r, w') \<Longrightarrow> view w' = view w"
  unfolding quiet_def by (metis snd_conv)

lemma quiet_return [quietI]: "quiet view (returnP x)" "quiet view (failP e)"
  by (simp_all add: quiet_def)

lemma quiet_bind [quietI]: "quiet view p \<Longrightarrow> (\<And>x. quiet view (f x)) \<Longrightarrow> quiet view (bindP p f)"
  by (auto simp: quiet_def bindP_apply split: prod.splits sum.splits) (metis snd_conv)+

lemma quiet_mapErr [quietI]: "quiet view p \<Longrightarrow> quiet view (mapErr f p)"
  by (auto simp: quiet_def mapErr_def split: prod.splits sum.splits) (metis snd_conv)+

lemma quiet_each [quietI]: "(\<And>x. quiet view (f x)) \<Longrightarrow> quiet view (eachP f xs)"
  by (induction xs) (simp_all add: quietI)

lemma bindP_elim:
  assumes "bindP p f w = (r, w')"
  obtains e where "p w = (Inl e, w')" "r = Inl e" | x w1 where "p w = (Inr x, w1)" "f x w1 = (r, w')"
  using assms by (auto simp: bindP_apply split: prod.splits sum.splits)

lemma mapErr_Inr [result_simps]: "mapErr f p w = (Inr x, w') \<longleftrightarrow> p w = (Inr x, w')"
  by (auto simp: mapErr_def split: prod.splits sum.splits)

lemma mapErr_Inl [result_simps]: "mapErr f p w = (Inl e, w') \<longleftrightarrow> (\<exists>d. p w = (Inl d, w') \<and> e = f d)"
  by (auto simp: mapErr_def split: prod.splits sum.splits)

lemma orTakeDown_Inr [result_simps]: "orTakeDown t f p w = (Inr x, w') \<longleftrightarrow> p w = (Inr x, w')"
  by (auto simp: orTakeDown_def split: prod.splits sum.splits)

lemma orTakeDown_Inl [result_simps]:
  "orTakeDown t f p w = (Inl e, w') \<longleftrightarrow> (\<exists>d w1. p w = (Inl d, w1) \<and> e = f d \<and> w' = t w1)"
  by (auto simp: orTakeDown_def split: prod.splits sum.splits)

subsection \<open>The environment of a manager\<close>

text \<open>
  What the operations rely on. \<open>sessions w\<close> are the names of the tmux sessions that exist, \<open>records w\<close> the
  records of the registry by session, and \<open>target S t\<close> is the session that a tmux command with \<^verbatim>\<open>-t t\<close> acts on when
  the sessions \<open>S\<close> exist. Of it only this is assumed: a session is named by its own name, and only
  existing sessions are acted on. (In tmux a target that is not the name of a session also stands for the one
  session whose name starts with it.) Session names do not contain periods. Nothing else acts on the world
  between two calls.
\<close>

locale session_environment =
  fixes m :: "('w, 'e) Manager"
    and sessions :: "'w \<Rightarrow> string set"
    and records :: "'w \<Rightarrow> string \<rightharpoonup> Session option"
    and target :: "string set \<Rightarrow> string \<Rightarrow> string option"
  assumes target_exact: "n \<in> S \<Longrightarrow> target S n = Some n"
    and target_exists: "target S t = Some n \<Longrightarrow> n \<in> S"
    and quiet_state: "quiet (\<lambda>w. (sessions w, records w)) (mg_Ensure m)" "quiet (\<lambda>w. (sessions w, records w)) (mg_mkdirAll m path)"
      "quiet (\<lambda>w. (sessions w, records w)) (mg_chmod m path)" "quiet (\<lambda>w. (sessions w, records w)) (mg_remove m path)"
      "quiet (\<lambda>w. (sessions w, records w)) (mg_acquire m dir sid)" "quiet (\<lambda>w. (sessions w, records w)) (mg_NewPublicRef m)"
    and quiet_release: "(sessions (mg_release m sid w), records (mg_release m sid w)) = (sessions w, records w)"
    and quiet_tmux: "quiet (\<lambda>w. (sessions w, records w)) (mg_ConfigureHistory m t)"
      "quiet (\<lambda>w. (sessions w, records w)) (mg_ConfigureManualWindowSize m t)"
      "quiet (\<lambda>w. (sessions w, records w)) (mg_SetSessionEnvironment m t name value)"
    and quiet_bridge: "quiet (\<lambda>w. (sessions w, records w)) (mg_bridgeEnsure m s)"
      "quiet (\<lambda>w. (sessions w, records w)) (mg_bridgeStop m s)"
    and has_session: "mg_HasSession m t w = (rb, w') \<Longrightarrow>
      sessions w' = sessions w \<and> records w' = records w \<and> (\<forall>b. rb = Inr b \<longrightarrow> b = (target (sessions w) t \<noteq> None))"
    and kill_session: "mg_KillSession m t w = (r, w') \<Longrightarrow> records w' = records w \<and>
      (sessions w' = sessions w - set_option (target (sessions w) t) \<or> r \<noteq> Inr () \<and> sessions w' = sessions w)"
    and create_session: "CHR ''.'' \<notin> set n \<Longrightarrow> mg_CreateManagedSession m n home options w = (r, w') \<Longrightarrow>
      records w' = records w \<and>
      (sessions w' = insert n (sessions w) \<or> r \<noteq> Inr () \<and> sessions w' = sessions w)"
    and read_record: "mg_ReadCompatible m sid w = (rs, w') \<Longrightarrow> sessions w' = sessions w \<and> records w' = records w \<and>
      (\<forall>s. rs = Inr s \<longrightarrow> records w sid = Some (Some s) \<and> se_ID s = sid \<and> se_TmuxName s = sid) \<and>
      (rs = Inl ErrNotExist \<longrightarrow> records w sid = None)"
    and write_record: "mg_Write m s w = (rg, w') \<Longrightarrow> sessions w' = sessions w \<and>
      (records w' = (records w)(se_ID s \<mapsto> Some (sessionJSON s)) \<or> rg \<noteq> Inr () \<and> records w' = records w)"
    and remove_record: "mg_Remove m sid w = (rg, w') \<Longrightarrow> sessions w' = sessions w \<and>
      (records w' = (records w)(sid := None) \<or> rg \<noteq> Inr () \<and> records w' = records w)"
begin

abbreviation view :: "'w \<Rightarrow> string set \<times> (string \<rightharpoonup> Session option)" where
  "view w \<equiv> (sessions w, records w)"

lemmas quiet_env = quiet_state quiet_tmux quiet_bridge

lemma quiet_lock: "quiet view (lock m sid)"
  unfolding lock_def ensurePrivateState_def by (intro quietI quiet_env)

lemma quiet_check: "quiet view (checkSession m operation sid name)"
  unfolding checkSession_def by (intro quietI) (simp add: quiet_def has_session [OF prod.collapse [symmetric]])

text \<open>An operation under the lock has the effect of its body, or none.\<close>

lemma locked_cases:
  assumes "locked m operation sid body w = (r, w')"
  obtains e where "r = Inl (lifecycleError ErrorDependency operation sid (Some e))" "view w' = view w"
  | w1 w2 where "view w1 = view w" "body w1 = (r, w2)" "view w' = view w2"
  using assms unfolding locked_def
proof (cases rule: bindP_elim)
  case (1 e)
  then show thesis using that(1) quietD [OF quiet_lock] by (auto simp: result_simps)
next
  case (2 x w1)
  then obtain w2 where "body w1 = (r, w2)" "w' = mg_release m sid w2" by (auto split: prod.splits)
  with 2(1) show thesis using that(2) quietD [OF quiet_lock] quiet_release by (metis mapErr_Inr)
qed

text \<open>Reading a record may migrate it; nothing else changes.\<close>

definition migrated :: "string \<Rightarrow> Session \<Rightarrow> Session \<Rightarrow> bool" where
  "migrated sid s s' \<longleftrightarrow> se_ID s = sid \<and> se_TmuxName s = sid \<and>
     s' = s\<lparr>se_Name := sid, se_PublicRef := se_PublicRef s'\<rparr> \<and>
     (ValidPublicRef (se_PublicRef s) \<longrightarrow> se_PublicRef s' = se_PublicRef s)"

lemma migratedD:
  assumes "migrated sid s s'"
  shows "se_ID s' = sid" "se_TmuxName s' = sid" "se_Name s' = sid" "ValidPublicRef (se_PublicRef s) \<Longrightarrow> se_PublicRef s' = se_PublicRef s"
proof -
  have s': "s' = s\<lparr>se_Name := sid, se_PublicRef := se_PublicRef s'\<rparr>" and "se_ID s = sid" "se_TmuxName s = sid"
    using assms by (simp_all add: migrated_def)
  then show "se_ID s' = sid" "se_TmuxName s' = sid" "se_Name s' = sid"
    by (metis Session.select_convs Session.surjective Session.update_convs)+
qed (use assms in \<open>simp add: migrated_def\<close>)

text \<open>The record of a session as it was handed to the registry, or as it reads back from there.\<close>

definition stored :: "'w \<Rightarrow> Session \<Rightarrow> bool" where
  "stored w s \<longleftrightarrow> records w (se_ID s) \<in> {Some (Some s), Some (Some (sessionJSON s))}"

lemma migrateRecord_world:
  assumes "migrateRecord m s w = (r, w')"
  shows "sessions w' = sessions w \<and> (\<forall>n. n \<noteq> se_ID s \<longrightarrow> records w' n = records w n) \<and>
    (records w' (se_ID s) = None \<longrightarrow> records w (se_ID s) = None) \<and>
    (\<forall>s'. r = Inr s' \<longrightarrow> s' = s\<lparr>se_Name := se_ID s, se_PublicRef := se_PublicRef s'\<rparr> \<and>
      (ValidPublicRef (se_PublicRef s) \<longrightarrow> se_PublicRef s' = se_PublicRef s) \<and> stored w' s')"
  using assms unfolding migrateRecord_def
proof (cases rule: bindP_elim)
  case (1 e)
  then have "view w' = view w"
    by (cases "ValidPublicRef (se_PublicRef s)") (auto dest: quietD [OF quiet_state(6)])
  with 1 show ?thesis by simp
next
  case (2 ref w1)
  then have w1: "view w1 = view w" and ref: "ValidPublicRef (se_PublicRef s) \<Longrightarrow> ref = se_PublicRef s"
    by (cases "ValidPublicRef (se_PublicRef s)"; auto dest: quietD [OF quiet_state(6)])+
  define s1 where "s1 = s\<lparr>se_Name := se_ID s, se_PublicRef := ref\<rparr>"
  have s1: "se_ID s1 = se_ID s" "se_PublicRef s1 = ref" by (simp_all add: s1_def)
  obtain r1 where written: "mg_Write m s1 w1 = (r1, w')"
    and r: "r1 = Inr () \<and> r = Inr s1 \<or> r1 \<noteq> Inr () \<and> isl r"
    using 2(2) unfolding Let_def s1_def [symmetric] by (cases rule: bindP_elim) (auto simp: result_simps)
  have "sessions w' = sessions w \<and> (records w' = (records w)(se_ID s \<mapsto> Some (sessionJSON s1)) \<or> r1 \<noteq> Inr () \<and> records w' = records w)"
    using write_record [OF written] w1 s1(1) by auto
  then show ?thesis using r s1 ref by (auto simp: stored_def s1_def)
qed

lemma readManaged_cases:
  assumes "readManaged m sid w = (r, w')"
  shows "sessions w' = sessions w \<and> (\<forall>n. n \<noteq> sid \<longrightarrow> records w' n = records w n) \<and>
    (records w' sid = None \<longleftrightarrow> records w sid = None) \<and>
    (\<forall>s'. r = Inr s' \<longrightarrow> stored w' s' \<and> (\<exists>s. records w sid = Some (Some s) \<and> migrated sid s s'))"
  using assms unfolding readManaged_def
proof (cases rule: bindP_elim)
  case (1 e)
  then show ?thesis using read_record by (auto simp: result_simps)
next
  case (2 s w1)
  then have w1: "view w1 = view w" "records w sid = Some (Some s)" "se_ID s = sid" "se_TmuxName s = sid"
    using read_record [of sid w "Inr s" w1] by (auto simp: result_simps)
  show ?thesis
  proof (cases "se_Name s = se_ID s \<and> ValidPublicRef (se_PublicRef s)")
    case True
    with 2(2) w1 show ?thesis by (auto simp: stored_def migrated_def)
  next
    case False
    with 2(2) have "migrateRecord m s w1 = (r, w')" by simp
    with migrateRecord_world [OF this] w1 show ?thesis by (auto simp: migrated_def)
  qed
qed

lemmas readManaged_world = conjunct1 [OF readManaged_cases]
  conjunct1 [OF conjunct2 [OF readManaged_cases]] conjunct1 [OF conjunct2 [OF conjunct2 [OF readManaged_cases]]]

lemma readManaged_Inr:
  "readManaged m sid w = (Inr s', w') \<Longrightarrow> \<exists>s. records w sid = Some (Some s) \<and> migrated sid s s'"
  "readManaged m sid w = (Inr s', w') \<Longrightarrow> stored w' s'"
  using readManaged_cases by blast+

lemma removePaths_quiet: "removePaths m paths w = (errs, w') \<Longrightarrow> view w' = view w"
proof (induction paths arbitrary: w errs)
  case (Cons path paths)
  then show ?case
    using quietD [OF quiet_state(4)] by (fastforce split: prod.splits sum.splits if_splits)
qed simp

text \<open>Removing the artifacts of a session removes its record in the end, or leaves the records alone.\<close>

lemma removeArtifacts_world:
  assumes "removeArtifacts m s w = (r, w')"
  shows "sessions w' = sessions w \<and>
    (records w' = (records w)(se_ID s := None) \<or> r \<noteq> Inr () \<and> records w' = records w)"
proof -
  let ?paths = "[stateFile m ''sockets'' (se_ID s @ ''.sock''), stateFile m ''logs'' (se_ID s @ ''.log''),
    stateFile m ''resize'' (se_ID s @ ''.json''), stateFile m ''resize'' (se_PublicRef s @ ''.json'')]"
  obtain errs w1 where removed: "removePaths m ?paths w = (errs, w1)" by (rule prod.exhaust)
  have w1: "view w1 = view w" by (rule removePaths_quiet [OF removed])
  have "(if errs \<noteq> [] then (Inl (Joined errs), w1) else mapErr OfRegistry (mg_Remove m (se_ID s)) w1) = (r, w')"
    using assms unfolding removeArtifacts_def removed by simp
  with w1 show ?thesis
    using remove_record [of "se_ID s" w1] by (cases r) (auto simp: result_simps split: if_splits)
qed

subsection \<open>Termination of a session\<close>

lemma endSession_world:
  assumes "endSession m sid cleanup s w = (r, w')" "se_ID s = sid" "se_TmuxName s = sid"
    and "\<And>f w. cleanup = Some f \<Longrightarrow> view (f w) = view w"
  shows "(sessions w' = sessions w - set_option (target (sessions w) sid) \<or> r \<noteq> Inr () \<and> sessions w' = sessions w) \<and>
    (records w' = (records w)(sid := None) \<or> r \<noteq> Inr () \<and> records w' = records w)"
  using assms(1) unfolding endSession_def Let_def
proof (cases rule: bindP_elim)
  case (1 e)
  then show ?thesis using quietD [OF quiet_bridge(2)] by (auto simp: result_simps)
next
  case (2 x w1)
  then have w1: "view w1 = view w" using quietD [OF quiet_bridge(2)] by (auto simp: result_simps)
  from 2(2) show ?thesis
  proof (cases rule: bindP_elim)
    case (1 e)
    then show ?thesis using quietD [OF quiet_check] w1 by auto
  next
    case (2 alive w2)
    then have w2: "view w2 = view w1" using quietD [OF quiet_check] by auto
    have alive: "alive \<longleftrightarrow> target (sessions w) sid \<noteq> None"
      using 2(1) has_session [of "se_TmuxName s" w1 "Inr alive" w2] w1 assms(3) by (auto simp: checkSession_def result_simps)
    from 2(2) show ?thesis
    proof (cases rule: bindP_elim)
      case (1 e)
      then show ?thesis
        using kill_session [of sid w2] w1 w2 assms(3) by (cases alive) (auto simp: result_simps)
    next
      case (2 y w3)
      then have w3: "records w3 = records w2" "sessions w3 = sessions w2 - set_option (target (sessions w2) sid)"
        using kill_session [of sid w2 "Inr y" w3] assms(3) alive w1 w2 by (auto simp: result_simps split: if_splits)
      let ?w = "case cleanup of None \<Rightarrow> w3 | Some f \<Rightarrow> f w3"
      have "view ?w = view w3" using assms(4) by (auto split: option.split)
      moreover obtain r1 where "removeArtifacts m s ?w = (r1, w')" "r1 \<noteq> Inr () \<longrightarrow> r \<noteq> Inr ()"
        using 2(2) by (cases r) (auto simp: result_simps)
      ultimately show ?thesis
        using removeArtifacts_world [of s ?w r1 w'] w1 w2 w3 assms(2) by auto
    qed
  qed
qed

text \<open>A termination is refused and changes nothing but a migration, or all checks passed on the record read.\<close>

lemma terminate_cases:
  assumes "TerminateChecked m sid ref check cleanup w = (r, w')"
    and "\<And>f s. check = Some f \<Longrightarrow> quiet view (f s)" "\<And>f w. cleanup = Some f \<Longrightarrow> view (f w) = view w"
  obtains (refused) "r \<noteq> Inr ()" "sessions w' = sessions w" "\<forall>n. n \<noteq> sid \<longrightarrow> records w' n = records w n"
      "records w' sid = None \<longleftrightarrow> records w sid = None"
  | (ended) s s' where "records w sid = Some (Some s)" "migrated sid s s'" "ref \<noteq> [] \<longrightarrow> se_PublicRef s' = ref"
      "\<forall>f. check = Some f \<longrightarrow> (\<exists>w1. fst (f s' w1) = Inr ())" "\<forall>n. n \<noteq> sid \<longrightarrow> records w' n = records w n"
      "sessions w' = sessions w - set_option (target (sessions w) sid) \<or> r \<noteq> Inr () \<and> sessions w' = sessions w"
      "r = Inr () \<longrightarrow> records w' sid = None"
proof (cases "ValidID sid")
  case True
  with assms(1) have "locked m ''terminate'' sid
        (bindP (mapErr (classifyManagedReadError ''terminate'' sid) (readManaged m sid)) (\<lambda>managed.
         if ref \<noteq> [] \<and> se_PublicRef managed \<noteq> ref then
           failP (lifecycleError ErrorNotFound ''terminate'' sid (Some (Plain ''public session reference changed'')))
         else
           bindP (case check of None \<Rightarrow> returnP () | Some f \<Rightarrow> f managed) (\<lambda>_. endSession m sid cleanup managed))) w = (r, w')"
    by (simp add: TerminateChecked_def)
  then show thesis
  proof (cases rule: locked_cases)
    case (1 e)
    then show ?thesis using refused by simp
  next
    case (2 w1 w2)
    from 2(2) show ?thesis
    proof (cases rule: bindP_elim)
      case (1 e)
      then show ?thesis using refused readManaged_world [of sid w1] 2(1,3) by (auto simp: result_simps)
    next
      case (2 s' w3)
      then have read: "readManaged m sid w1 = (Inr s', w3)" by (simp add: result_simps)
      obtain s where s: "records w1 sid = Some (Some s)" "migrated sid s s'" using readManaged_Inr(1) [OF read] by blast
      note world = readManaged_world [OF read]
      show ?thesis
      proof (cases "ref \<noteq> [] \<and> se_PublicRef s' \<noteq> ref")
        case True
        then show ?thesis using refused world 2(2) \<open>view w1 = view w\<close> \<open>view w' = view w2\<close> by auto
      next
        case False
        with 2(2) have "bindP (case check of None \<Rightarrow> returnP () | Some f \<Rightarrow> f s')
            (\<lambda>_. endSession m sid cleanup s') w3 = (r, w2)" by simp
        then show ?thesis
        proof (cases rule: bindP_elim)
          case (1 e)
          then have "view w2 = view w3"
            using assms(2) quietD [of view "the check s'" w3 "Inl e" w2] by (cases check) auto
          with 1 show ?thesis using refused world \<open>view w1 = view w\<close> \<open>view w' = view w2\<close> by auto
        next
          case (2 x w4)
          then have w4: "view w4 = view w3"
            using assms(2) quietD [of view "the check s'" w3 "Inr x" w4] by (cases check) auto
          have accepted: "\<forall>f. check = Some f \<longrightarrow> (\<exists>w1. fst (f s' w1) = Inr ())"
            using 2(1) by (auto intro!: exI [of _ w3])
          have ends: "(sessions w2 = sessions w4 - set_option (target (sessions w4) sid) \<or> r \<noteq> Inr () \<and> sessions w2 = sessions w4) \<and>
              (records w2 = (records w4)(sid := None) \<or> r \<noteq> Inr () \<and> records w2 = records w4)"
            by (rule endSession_world [OF 2(2) migratedD(1,2) [OF s(2)]]) (rule assms(3))
          show ?thesis
            by (rule ended [OF _ s(2) _ accepted])
              (use s(1) False world w4 ends \<open>view w1 = view w\<close> \<open>view w' = view w2\<close> in auto)
        qed
      qed
    qed
  qed
qed (use assms(1) refused in \<open>auto simp: TerminateChecked_def\<close>)

subsection \<open>Creation of a session\<close>

lemma ensureBridge_world:
  assumes "ensureBridgeLocked m s w = (r, w')"
  shows "sessions w' = sessions w \<and> (\<forall>n. n \<noteq> se_ID s \<longrightarrow> records w' n = records w n) \<and>
    (records w' (se_ID s) = None \<longrightarrow> records w (se_ID s) = None) \<and>
    (\<forall>s'. r = Inr s' \<longrightarrow> se_ID s' = se_ID s \<and> se_PublicRef s' = se_PublicRef s \<and> (stored w s \<longrightarrow> stored w' s'))"
proof -
  have unchanged: ?thesis if "view w' = view w" "\<And>s'. r = Inr s' \<Longrightarrow> s' = s"
    using that by (auto simp: stored_def)
  show ?thesis
    using assms unfolding ensureBridgeLocked_def Let_def
  proof (elim bindP_elim, goal_cases)
    case (5 x w1 y w2 pid w3 z w4)
    then have quiet: "view w4 = view w"
      using quietD [OF quiet_tmux(1)] quietD [OF quiet_tmux(2)] quietD [OF quiet_tmux(3)] quietD [OF quiet_bridge(1)]
      by (auto simp: result_simps)
    show ?case
    proof (cases "se_PID s = pid")
      case False
      with 5(5) obtain r1 where "mg_Write m (s\<lparr>se_PID := pid\<rparr>) w4 = (r1, w')" "r1 = Inr () \<and> r = Inr (s\<lparr>se_PID := pid\<rparr>) \<or> r1 \<noteq> Inr () \<and> isl r"
        by (auto simp: Let_def result_simps elim!: bindP_elim)
      with quiet show ?thesis using write_record [of "s\<lparr>se_PID := pid\<rparr>" w4 r1 w'] by (auto simp: stored_def)
    qed (use 5(5) quiet unchanged in auto)
  qed (auto intro!: unchanged simp: result_simps dest!: quietD [OF quiet_tmux(1)] quietD [OF quiet_tmux(2)]
      quietD [OF quiet_tmux(3)] quietD [OF quiet_bridge(1)])
qed

lemma kill_present_world:
  assumes "killTmuxIfPresent m name w = (r, w')"
  shows "records w' = records w \<and> sessions w' \<in> {sessions w, sessions w - set_option (target (sessions w) name)}"
  using assms unfolding killTmuxIfPresent_def
proof (cases rule: bindP_elim)
  case (1 e)
  then show ?thesis using has_session by (auto simp: result_simps)
next
  case (2 alive w1)
  then have "view w1 = view w" using has_session by (auto simp: result_simps)
  with 2(2) show ?thesis using kill_session [of name w1] by (cases r; cases alive) (auto simp: result_simps)
qed

lemma cleanupNew_world:
  assumes "se_ID s = name" "se_TmuxName s = name"
  shows "sessions (cleanupNewSession m s w) \<in> {sessions w, sessions w - set_option (target (sessions w) name)} \<and>
    (\<forall>n. n \<noteq> name \<longrightarrow> records (cleanupNewSession m s w) n = records w n)"
proof -
  let ?w1 = "snd (mg_bridgeStop m s w)"
  let ?w2 = "snd (killTmuxIfPresent m name ?w1)"
  have "view ?w1 = view w" using quiet_bridge(2) by (simp add: quiet_def)
  moreover have "records ?w2 = records ?w1 \<and> sessions ?w2 \<in> {sessions ?w1, sessions ?w1 - set_option (target (sessions ?w1) name)}"
    by (rule kill_present_world [OF prod.collapse [symmetric]])
  moreover have "sessions (snd (removeArtifacts m s ?w2)) = sessions ?w2 \<and>
      (\<forall>n. n \<noteq> name \<longrightarrow> records (snd (removeArtifacts m s ?w2)) n = records ?w2 n)"
    using removeArtifacts_world [OF prod.collapse [symmetric], of s ?w2] assms(1) by auto
  ultimately show ?thesis unfolding cleanupNewSession_def assms(2) by auto
qed

text \<open>What a creation may change: the session and the record of that name, from a world where it did not exist.\<close>

definition creates :: "string \<Rightarrow> 'w \<Rightarrow> 'w \<Rightarrow> bool" where
  "creates name w w' \<longleftrightarrow> sessions w' \<in> {sessions w, insert name (sessions w)} \<and>
     (\<forall>n. n \<noteq> name \<longrightarrow> records w' n = records w n)"

lemma creates_kill:
  assumes "target (sessions w) name = None" "creates name w w1"
    and "sessions w2 \<in> {sessions w1, sessions w1 - set_option (target (sessions w1) name)}"
    and "\<forall>n. n \<noteq> name \<longrightarrow> records w2 n = records w1 n"
  shows "creates name w w2"
proof -
  have fresh: "name \<notin> sessions w" using assms(1) target_exact by fastforce
  have "sessions w1 - set_option (target (sessions w1) name) = sessions w"
    using assms(1,2) fresh target_exact [of name "insert name (sessions w)"] by (auto simp: creates_def)
  then show ?thesis using assms(2-4) by (auto simp: creates_def)
qed

lemma creates_cleanup:
  assumes "target (sessions w) name = None" "creates name w w1" "se_ID s = name" "se_TmuxName s = name"
  shows "creates name w (cleanupNewSession m s w1)"
  using creates_kill [OF assms(1,2)] cleanupNew_world [OF assms(3,4), of w1] by blast

lemma creates_quiet: "view w' = view w1 \<Longrightarrow> creates name w w1 \<Longrightarrow> creates name w w'"
  by (simp add: creates_def)

text \<open>The steps after tmux has created the session.\<close>

lemma createRest_world:
  assumes "bindP (orTakeDown (cleanupNewSession m s) failed (mg_NewPublicRef m)) (\<lambda>ref.
        let s1 = s\<lparr>se_PublicRef := ref\<rparr> in
        bindP (orTakeDown (cleanupNewSession m s1) (classifyBridgeError ''create'' name) (mg_bridgeEnsure m s1)) (\<lambda>pid.
        let s2 = s1\<lparr>se_PID := pid\<rparr> in
        bindP (orTakeDown (cleanupNewSession m s2) (\<lambda>e. failed (Wrapped ''write managed session record'' (OfRegistry e)))
          (mg_Write m s2)) (\<lambda>_. returnP (s2, True)))) w1 = (r, w')"
    and "target (sessions w) name = None" "creates name w w1" "se_ID s = name" "se_TmuxName s = name"
  shows "creates name w w' \<and> (\<forall>s' c. r = Inr (s', c) \<longrightarrow> c \<and> se_ID s' = name \<and> stored w' s' \<and> sessions w' = sessions w1)"
  using assms(1)
proof (cases rule: bindP_elim)
  case (1 e)
  then obtain w2 where "view w2 = view w1" "w' = cleanupNewSession m s w2" "r = Inl e"
    using quietD [OF quiet_state(6)] unfolding orTakeDown_Inl by blast
  then show ?thesis using creates_cleanup [OF assms(2) creates_quiet assms(4,5)] assms(3) by simp
next
  case (2 ref w2)
  then have w2: "view w2 = view w1" using quietD [OF quiet_state(6)] by (auto simp: result_simps)
  define s1 where "s1 = s\<lparr>se_PublicRef := ref\<rparr>"
  have s1: "se_ID s1 = name" "se_TmuxName s1 = name" using assms(4,5) by (simp_all add: s1_def)
  from 2(2) show ?thesis unfolding Let_def s1_def [symmetric]
  proof (cases rule: bindP_elim)
    case (1 e)
    then obtain w3 where "view w3 = view w2" "w' = cleanupNewSession m s1 w3" "r = Inl e"
      using quietD [OF quiet_bridge(1)] unfolding orTakeDown_Inl by blast
    then show ?thesis using creates_cleanup [OF assms(2) creates_quiet s1] assms(3) w2 by simp
  next
    case (2 pid w3)
    then have w3: "view w3 = view w2" using quietD [OF quiet_bridge(1)] by (auto simp: result_simps)
    define s2 where "s2 = s1\<lparr>se_PID := pid\<rparr>"
    have s2: "se_ID s2 = name" "se_TmuxName s2 = name" using s1 by (simp_all add: s2_def)
    have c3: "creates name w w3" using creates_quiet assms(3) w2 w3 by simp
    from 2(2) show ?thesis unfolding s2_def [symmetric]
    proof (cases rule: bindP_elim)
      case (1 e)
      then obtain d w4 where w4: "mg_Write m s2 w3 = (Inl d, w4)" "w' = cleanupNewSession m s2 w4" "r = Inl e"
        by (auto simp: result_simps)
      then have "creates name w w4" using c3 write_record [OF w4(1)] s2 by (auto simp: creates_def)
      then show ?thesis using creates_cleanup [OF assms(2) _ s2] w4 by simp
    next
      case (2 x w4)
      then show ?thesis
        using c3 write_record [of s2 w3 "Inr x" w4] w2 w3 s2 by (auto simp: result_simps creates_def stored_def)
    qed
  qed
qed

lemma createNew_world:
  assumes "createNew m name w = (r, w')" "CHR ''.'' \<notin> set name"
  shows "if target (sessions w) name = None
    then creates name w w' \<and> (\<forall>s c. r = Inr (s, c) \<longrightarrow> c \<and> se_ID s = name \<and> stored w' s \<and> name \<in> sessions w')
    else isl r \<and> view w' = view w"
  using assms(1) unfolding createNew_def Let_def
proof (cases rule: bindP_elim)
  case (1 e)
  then show ?thesis using quietD [OF quiet_check] by (auto simp: creates_def)
next
  case (2 exists w1)
  then have w1: "view w1 = view w" using quietD [OF quiet_check] by blast
  have exists: "exists \<longleftrightarrow> target (sessions w) name \<noteq> None"
    using 2(1) has_session [of name w "Inr exists" w1] by (auto simp: checkSession_def result_simps)
  show ?thesis
  proof (cases "exists")
    case True
    with 2(2) w1 exists show ?thesis by auto
  next
    case False
    with 2(2) show ?thesis unfolding if_not_P [OF False]
    proof (cases rule: bindP_elim)
      case (1 e)
      then obtain d w2 where w2: "mg_CreateManagedSession m name (mc_HomeDir (mg_cfg m))
            \<lparr>mo_WindowSize = mc_WindowSize (mg_cfg m), mo_Mouse = mc_Mouse (mg_cfg m),
             mo_StatusLeft = ''['' @ statusLabel m name @ ''] '', mo_SSHAuthSock = agentSocket m\<rparr> w1 = (Inl d, w2)"
        "w' = snd (killTmuxIfPresent m name w2)" by (auto simp: result_simps)
      then have "creates name w w2" using create_session [OF assms(2) w2(1)] w1 by (auto simp: creates_def)
      then have "creates name w w'"
        using creates_kill [of w name w2 w'] kill_present_world [OF prod.collapse [symmetric], of name w2] w2(2) False exists by auto
      then show ?thesis using False exists 1(2) by simp
    next
      case (2 x w2)
      then have w2: "creates name w w2" "name \<in> sessions w2"
        using create_session [OF assms(2), of "mc_HomeDir (mg_cfg m)" _ w1 "Inr x" w2] w1 by (auto simp: result_simps creates_def)
      have "target (sessions w) name = None" using False exists by simp
      from createRest_world [unfolded Let_def, OF 2(2) this w2(1)] w2(2) this show ?thesis by (auto simp: newSession_def)
    qed
  qed
qed

lemma cleanupLocked_world:
  assumes "cleanupLocked m s w = (r, w')"
  shows "sessions w' = sessions w \<and> (records w' = (records w)(se_ID s := None) \<or> r \<noteq> Inr () \<and> records w' = records w)"
  using assms unfolding cleanupLocked_def
proof (cases rule: bindP_elim)
  case (1 e)
  then show ?thesis using quietD [OF quiet_bridge(2)] by (auto simp: result_simps)
next
  case (2 x w1)
  then show ?thesis using quietD [OF quiet_bridge(2)] removeArtifacts_world [OF 2(2)] by (auto simp: result_simps)
qed

lemma select_world:
  assumes "bindP (checkSession m ''create'' name name) (\<lambda>alive.
         if alive then bindP (ensureBridgeLocked m s) (\<lambda>managed. returnP (managed, False))
         else bindP (mapErr f (cleanupLocked m s)) (\<lambda>_. createNew m name)) w = (r, w')"
    and "stored w s" "se_ID s = name" "CHR ''.'' \<notin> set name"
  shows "creates name w w' \<and> (name \<in> sessions w \<longrightarrow> name \<in> sessions w') \<and>
    (\<forall>s' c. r = Inr (s', c) \<longrightarrow> se_ID s' = name \<and> stored w' s' \<and>
       (if target (sessions w) name = None then c \<and> name \<in> sessions w' else \<not> c))"
  using assms(1)
proof (cases rule: bindP_elim)
  case (1 e)
  then show ?thesis using quietD [OF quiet_check] by (auto simp: creates_def)
next
  case (2 alive w1)
  then have w1: "view w1 = view w" using quietD [OF quiet_check] by blast
  have alive: "alive \<longleftrightarrow> target (sessions w) name \<noteq> None"
    using 2(1) has_session [of name w "Inr alive" w1] by (auto simp: checkSession_def result_simps)
  show ?thesis
  proof (cases "alive")
    case True
    then obtain r1 where r1: "ensureBridgeLocked m s w1 = (r1, w')" "\<And>s' c. r = Inr (s', c) \<Longrightarrow> r1 = Inr s' \<and> \<not> c"
      using 2(2) by (auto elim!: bindP_elim)
    have "stored w1 s" using assms(2) w1 by (simp add: stored_def)
    with ensureBridge_world [OF r1(1)] w1 assms(3)
    have "sessions w' = sessions w" "\<forall>n. n \<noteq> name \<longrightarrow> records w' n = records w n"
      "\<And>s'. r1 = Inr s' \<Longrightarrow> se_ID s' = name \<and> stored w' s'" by simp_all
    then show ?thesis using r1(2) alive True by (fastforce simp: creates_def)
  next
    case False
    with 2(2) have "bindP (mapErr f (cleanupLocked m s)) (\<lambda>_. createNew m name) w1 = (r, w')" by simp
    then show ?thesis
    proof (cases rule: bindP_elim)
      case (1 e)
      then obtain d where "cleanupLocked m s w1 = (Inl d, w')" unfolding mapErr_Inl by blast
      from cleanupLocked_world [OF this] w1 assms(3)
      have "sessions w' = sessions w" "\<forall>n. n \<noteq> name \<longrightarrow> records w' n = records w n" by auto
      then show ?thesis using 1(2) by (simp add: creates_def)
    next
      case (2 x w2)
      then have w2: "sessions w2 = sessions w" "\<forall>n. n \<noteq> name \<longrightarrow> records w2 n = records w n"
        using cleanupLocked_world [of s w1 "Inr x" w2] w1 assms(3) unfolding mapErr_Inr by auto
      moreover have "target (sessions w2) name = None" using alive False w2 by simp
      ultimately show ?thesis using createNew_world [OF 2(2) assms(4)] by (auto simp: creates_def)
    qed
  qed
qed

lemma create_or_select_world:
  assumes "CreateOrSelect m name w = (r, w')" "CHR ''.'' \<notin> set name"
  shows "creates name w w' \<and> (name \<in> sessions w \<longrightarrow> name \<in> sessions w') \<and>
    (\<forall>s c. r = Inr (s, c) \<longrightarrow> se_ID s = name \<and> stored w' s \<and>
       (if target (sessions w) name = None then c \<and> name \<in> sessions w' else \<not> c)) \<and>
    (target (sessions w) name \<noteq> None \<and> records w name = None \<longrightarrow> isl r \<and> view w' = view w)"
proof (cases "ValidID name")
  case True
  then have "locked m ''create'' name (createLocked m name) w = (r, w')" using assms(1) by (simp add: CreateOrSelect_def)
  then show ?thesis
  proof (cases rule: locked_cases)
    case (1 e)
    then show ?thesis by (auto simp: creates_def)
  next
    case (2 w1 w2)
    obtain r3 w3 where read: "readManaged m name w1 = (r3, w3)" by (rule prod.exhaust)
    note world = readManaged_cases [OF read]
    show ?thesis
    proof (cases r3)
      case (Inr s)
      with world obtain s0 where s: "stored w3 s" "records w1 name = Some (Some s0)" "migrated name s0 s" by blast
      note id = migratedD(1,2) [OF s(3)]
      have "creates name w3 w2 \<and> (name \<in> sessions w3 \<longrightarrow> name \<in> sessions w2) \<and>
        (\<forall>s' c. r = Inr (s', c) \<longrightarrow> se_ID s' = name \<and> stored w2 s' \<and>
           (if target (sessions w3) name = None then c \<and> name \<in> sessions w2 else \<not> c))"
        using 2(2) read Inr id(2) by (intro select_world [OF _ s(1) id(1) assms(2)]) (simp add: createLocked_def)
      then show ?thesis using world s(2) 2(1,3) by (auto simp: creates_def stored_def)
    next
      case (Inl e)
      then have "createNew m name w3 = (r, w2) \<or> isl r \<and> w2 = w3"
        using 2(2) read by (auto simp: createLocked_def split: if_splits)
      moreover have "records w3 = records w1" if "records w1 name = None"
        by (rule ext) (metis that world)
      ultimately show ?thesis
        using createNew_world [of name w3 r w2] assms(2) world 2(1,3) by (auto simp: creates_def stored_def split: if_splits)
    qed
  qed
qed (use assms(1) in \<open>auto simp: CreateOrSelect_def creates_def\<close>)

subsection \<open>Reconciliation\<close>

lemma reconcileOne_world:
  assumes "reconcileOne m sid w = (r, w')"
  shows "sessions w' = sessions w \<and> (\<forall>n. n \<noteq> sid \<longrightarrow> records w' n = records w n) \<and>
    (records w sid \<noteq> None \<and> target (sessions w) sid \<noteq> None \<longrightarrow> records w' sid \<noteq> None) \<and>
    (\<forall>s. r = Inr (Some s) \<longrightarrow> se_ID s = sid \<and> stored w' s \<and> target (sessions w) sid \<noteq> None)"
  using assms unfolding reconcileOne_def Let_def
proof (cases rule: locked_cases)
  case (1 e)
  then show ?thesis by auto
next
  case (2 w1 w2)
  obtain r3 w3 where read: "readManaged m sid w1 = (r3, w3)" by (rule prod.exhaust)
  note world = readManaged_cases [OF read]
  have w3: "sessions w3 = sessions w" "\<And>n. n \<noteq> sid \<Longrightarrow> records w3 n = records w n" "records w3 sid = None \<longleftrightarrow> records w sid = None"
    using world 2(1) by simp_all
  have w': "sessions w' = sessions w2" "records w' = records w2" using 2(3) by simp_all
  show ?thesis
  proof (cases r3)
    case (Inl e)
    then have "w2 = w3" "\<And>s. r \<noteq> Inr (Some s)" using 2(2) read by (auto simp: tryP_apply split: if_splits)
    then show ?thesis using w3 w' by simp
  next
    case (Inr s)
    with world obtain s0 where s: "stored w3 s" "records w1 sid = Some (Some s0)" "migrated sid s0 s" by blast
    note id = migratedD(1,2) [OF s(3)]
    have "bindP (checkSession m ''reconcile'' sid sid) (\<lambda>alive.
        if \<not> alive then bindP (mapErr (\<lambda>e. lifecycleError ErrorDependency ''reconcile'' sid (Some e)) (cleanupLocked m s)) (\<lambda>_. returnP None)
        else bindP (ensureBridgeLocked m s) (\<lambda>managed. returnP (Some managed))) w3 = (r, w2)"
      using 2(2) read Inr id(2) by (simp add: tryP_apply)
    then show ?thesis
    proof (cases rule: bindP_elim)
      case (1 e)
      then show ?thesis using quietD [OF quiet_check 1(1)] w3 w' by simp
    next
      case (2 alive w4)
      then have w4: "view w4 = view w3" using quietD [OF quiet_check] by blast
      have alive: "alive \<longleftrightarrow> target (sessions w) sid \<noteq> None"
        using 2(1) has_session [of sid w3 "Inr alive" w4] w3 by (auto simp: checkSession_def result_simps)
      show ?thesis
      proof (cases "alive")
        case True
        then obtain r1 where r1: "ensureBridgeLocked m s w4 = (r1, w2)" "\<And>s'. r = Inr (Some s') \<Longrightarrow> r1 = Inr s'"
          using 2(2) by (auto elim!: bindP_elim)
        have "stored w4 s" using s(1) w4 by (simp add: stored_def)
        with ensureBridge_world [OF r1(1)] w4 id(1)
        have bridged: "sessions w2 = sessions w3" "\<forall>n. n \<noteq> sid \<longrightarrow> records w2 n = records w3 n"
          "records w2 sid = None \<longrightarrow> records w3 sid = None" "\<forall>s'. r1 = Inr s' \<longrightarrow> se_ID s' = sid \<and> stored w2 s'" by simp_all
        then have "\<forall>s'. r = Inr (Some s') \<longrightarrow> se_ID s' = sid \<and> stored w2 s'" using r1(2) by blast
        then show ?thesis using bridged(1-3) alive True w3 w' by (auto simp: stored_def)
      next
        case False
        then obtain r1 where "cleanupLocked m s w4 = (r1, w2)" and none: "\<And>s'. r \<noteq> Inr (Some s')"
          using 2(2) by (auto simp: result_simps elim!: bindP_elim)
        from cleanupLocked_world [OF this(1)] w4 id(1)
        have "sessions w2 = sessions w3" "\<forall>n. n \<noteq> sid \<longrightarrow> records w2 n = records w3 n" by auto
        then show ?thesis using none alive False w3 w' by simp
      qed
    qed
  qed
qed

lemma reconcileEach_world:
  assumes "reconcileEach m sids w = ((kept, errs), w')"
  shows "sessions w' = sessions w \<and> (\<forall>n. n \<notin> set sids \<longrightarrow> records w' n = records w n) \<and>
    (\<forall>n. records w n \<noteq> None \<and> target (sessions w) n \<noteq> None \<longrightarrow> records w' n \<noteq> None) \<and>
    (\<forall>s \<in> set kept. target (sessions w) (se_ID s) \<noteq> None \<and> records w' (se_ID s) \<noteq> None)"
  using assms
proof (induction sids arbitrary: w kept errs)
  case (Cons sid sids)
  obtain r w1 where one: "reconcileOne m sid w = (r, w1)" by (rule prod.exhaust)
  obtain kept1 errs1 where each: "reconcileEach m sids w1 = ((kept1, errs1), w')"
    and kept: "kept = (case r of Inr (Some s) \<Rightarrow> s # kept1 | _ \<Rightarrow> kept1)"
    using Cons.prems one
    by (cases "reconcileEach m sids w1") (auto simp del: reconcileEach.simps(1) split: sum.splits option.splits)
  note world = reconcileOne_world [OF one]
  note rest = Cons.IH [OF each]
  have kept_set: "s \<in> set kept1 \<or> r = Inr (Some s)" if "s \<in> set kept" for s
    using that kept by (auto split: sum.splits option.splits)
  have alive: "records w1 n \<noteq> None" if "records w n \<noteq> None" "target (sessions w) n \<noteq> None" for n
    using world that by (cases "n = sid") auto
  have new: "records w1 (se_ID s) \<noteq> None" "target (sessions w) (se_ID s) \<noteq> None" if "r = Inr (Some s)" for s
    using world that by (auto simp: stored_def)
  have same: "sessions w1 = sessions w" using world by simp
  show ?case
  proof (intro conjI ballI allI impI, goal_cases)
    case 1
    then show ?case using rest same by simp
  next
    case (2 n)
    then show ?case using rest world by simp
  next
    case (3 n)
    then show ?case using rest alive [of n] same by simp
  next
    case (4 s)
    then show ?case using kept_set [of s] rest new(2) [of s] same by auto
  next
    case (5 s)
    then show ?case using kept_set [of s] rest new [of s] same by auto
  qed
qed simp

lemma reconcile_world:
  assumes "Reconcile m w = (r, w')"
    and "\<And>rl w1. mg_ListCompatible m w = (rl, w1) \<Longrightarrow> view w1 = view w"
  shows "sessions w' = sessions w \<and>
    (\<forall>n. records w n \<noteq> None \<and> target (sessions w) n \<noteq> None \<longrightarrow> records w' n \<noteq> None) \<and>
    (\<forall>kept. r = Inr kept \<longrightarrow> (\<forall>s \<in> set kept. target (sessions w) (se_ID s) \<noteq> None \<and> records w' (se_ID s) \<noteq> None))"
  using assms(1) unfolding Reconcile_def
proof (cases rule: bindP_elim)
  case (1 e)
  then show ?thesis using assms(2) by (auto simp: result_simps)
next
  case (2 entries w1)
  then have w1: "view w1 = view w" using assms(2) by (auto simp: result_simps)
  obtain kept errs where "reconcileEach m (map se_ID entries) w1 = ((kept, errs), w')"
    "r = (if errs \<noteq> [] then Inl (Joined errs) else Inr kept)"
    using 2(2) by (auto split: prod.splits)
  then show ?thesis using reconcileEach_world [of "map se_ID entries" w1 kept errs w'] w1 by auto
qed

end

end
