(* ===== verification/Session_System.thy ===== *)
theory Session_System
  imports Session_Lifecycle
begin

section \<open>The lifecycle on the registry and the tmux client\<close>

text \<open>
  \<^verbatim>\<open>newManager\<close> of \<^verbatim>\<open>internal/session/lifecycle.go\<close>: the manager works on the models of the session registry and of
  the tmux client. The world is the registry's disk and the rest (the tmux server, the processes, the
  other files). What the code relies on outside itself is the locale \<open>managed_host\<close>: how the tmux server answers
  the commands the client sends, and that terminal bridges, locks and files do not create or end tmux sessions.
  The locale \<open>session_environment\<close> is interpreted on this manager, and the properties of the operations follow.
\<close>

subsection \<open>The manager of the program\<close>

record 't System =
  sy_registry :: "Session option disk"
  sy_rest :: 't

definition onRegistry :: "(Session option disk, 'e, 'a) prog \<Rightarrow> ('t System, 'e, 'a) prog" where
  "onRegistry p = (\<lambda>sy. case p (sy_registry sy) of (r, d) \<Rightarrow> (r, sy\<lparr>sy_registry := d\<rparr>))"

definition onRest :: "('t, 'e, 'a) prog \<Rightarrow> ('t System, 'e, 'a) prog" where
  "onRest p = (\<lambda>sy. case p (sy_rest sy) of (r, t) \<Rightarrow> (r, sy\<lparr>sy_rest := t\<rparr>))"

record ('t, 'e) host =
  ho_bridgeEnsure :: "Session \<Rightarrow> ('t, 'e, int) lifecycle"
  ho_bridgeStop :: "Session \<Rightarrow> ('t, 'e, unit) lifecycle"
  ho_acquire :: "string \<Rightarrow> string \<Rightarrow> ('t, 'e, unit) lifecycle"
  ho_release :: "string \<Rightarrow> 't \<Rightarrow> 't"
  ho_mkdirAll :: "string \<Rightarrow> ('t, 'e, unit) lifecycle"
  ho_chmod :: "string \<Rightarrow> ('t, 'e, unit) lifecycle"
  ho_remove :: "string \<Rightarrow> ('t, 'e, unit) lifecycle"
  ho_NewPublicRef :: "('t, 'e, string) lifecycle"
  ho_timestamp :: "'t \<Rightarrow> string"

definition newManager :: "managerConfig \<Rightarrow> faults \<Rightarrow> (string \<Rightarrow> time option) \<Rightarrow> (nat \<Rightarrow> string) \<Rightarrow> Store \<Rightarrow> 't Client \<Rightarrow>
    ('t, 'e) host \<Rightarrow> ('t System, 'e) Manager" where
  "newManager cfg faults parseTime temp store c host =
     \<lparr>mg_cfg = cfg,
      mg_Ensure = onRegistry (Ensure faults),
      mg_ListCompatible = onRegistry (ListCompatible faults parseTime store),
      mg_ReadCompatible = (\<lambda>sid. onRegistry (ReadCompatible faults store sid)),
      mg_Write = (\<lambda>s. onRegistry (\<lambda>d. registry_Write faults store (temp (dk_calls d)) s d)),
      mg_Remove = (\<lambda>sid. onRegistry (registry_Remove faults sid)),
      mg_HasSession = (\<lambda>t. onRest (HasSession c t)),
      mg_CreateManagedSession = (\<lambda>n home options. onRest (CreateManagedSession c n home options)),
      mg_ConfigureHistory = (\<lambda>t. onRest (ConfigureHistory c t)),
      mg_ConfigureManualWindowSize = (\<lambda>t. onRest (ConfigureManualWindowSize c t)),
      mg_SetSessionEnvironment = (\<lambda>t name value. onRest (SetSessionEnvironment c t name value)),
      mg_KillSession = (\<lambda>t. onRest (KillSession c t)),
      mg_bridgeEnsure = (\<lambda>s. onRest (ho_bridgeEnsure host s)),
      mg_bridgeStop = (\<lambda>s. onRest (ho_bridgeStop host s)),
      mg_acquire = (\<lambda>dir sid. onRest (ho_acquire host dir sid)),
      mg_release = (\<lambda>sid sy. sy\<lparr>sy_rest := ho_release host sid (sy_rest sy)\<rparr>),
      mg_mkdirAll = (\<lambda>path. onRest (ho_mkdirAll host path)),
      mg_chmod = (\<lambda>path. onRest (ho_chmod host path)),
      mg_remove = (\<lambda>path. onRest (ho_remove host path)),
      mg_NewPublicRef = onRest (ho_NewPublicRef host),
      mg_timestamp = (\<lambda>sy. ho_timestamp host (sy_rest sy))\<rparr>"

text \<open>The sessions and the records of a world.\<close>

definition system_sessions :: "('t \<Rightarrow> string set) \<Rightarrow> 't System \<Rightarrow> string set" where
  "system_sessions live sy = live (sy_rest sy)"

definition system_records :: "'t System \<Rightarrow> string \<rightharpoonup> Session option" where
  "system_records sy sid = map_of (dk_files (sy_registry sy)) (sessionFile sid)"

abbreviation system_view :: "('t \<Rightarrow> string set) \<Rightarrow> 't System \<Rightarrow> string set \<times> (string \<rightharpoonup> Session option)" where
  "system_view live sy \<equiv> (system_sessions live sy, system_records sy)"

lemmas system_defs = system_sessions_def system_records_def

lemma quiet_onRest [quietI]: "quiet live p \<Longrightarrow> quiet (system_view live) (onRest p)"
  by (simp add: quiet_def onRest_def system_defs split_def fun_eq_iff)

lemma quiet_onRegistry [quietI]: "quiet dk_files p \<Longrightarrow> quiet (system_view live) (onRegistry p)"
  by (simp add: quiet_def onRegistry_def system_defs split_def fun_eq_iff)

lemma onRest_iff: "onRest p sy = (r, sy') \<longleftrightarrow> (\<exists>t. p (sy_rest sy) = (r, t) \<and> sy' = sy\<lparr>sy_rest := t\<rparr>)"
  by (auto simp: onRest_def split: prod.splits)

lemma onRegistry_iff: "onRegistry p sy = (r, sy') \<longleftrightarrow> (\<exists>d. p (sy_registry sy) = (r, d) \<and> sy' = sy\<lparr>sy_registry := d\<rparr>)"
  by (auto simp: onRegistry_def split: prod.splits)

subsection \<open>The registry as the manager sees it\<close>

lemma quiet_sysCall [quietI]: "quiet dk_files (sysCall faults e)"
  by (simp add: quiet_def)

lemma quiet_Ensure [quietI]: "quiet dk_files (Ensure faults)"
  unfolding Ensure_def by (intro quietI)

lemma quiet_try [quietI]: "quiet view p \<Longrightarrow> (\<And>r. quiet view (f r)) \<Longrightarrow> quiet view (tryP p f)"
  by (auto simp: quiet_def tryP_apply split: prod.splits) (metis snd_conv)

lemma quiet_read [quietI]: "quiet dk_files (read faults s sid compatible)"
  by (simp add: quiet_def read_files)

lemma quiet_readEntries [quietI]: "quiet dk_files (readEntries faults s compatible names)"
proof (induction names)
  case (Cons name names)
  then show ?case by (auto intro!: quietI split: sum.split)
qed (simp add: quiet_def)

lemma quiet_ListCompatible [quietI]: "quiet dk_files (ListCompatible faults parseTime s)"
proof -
  have "quiet dk_files (\<lambda>d. bindP (readEntries faults s True (sort_slice string_less (map fst (dk_files d))))
      (\<lambda>sessions. returnP (sort_slice (sessionLess parseTime) sessions)) d)"
    unfolding quiet_def by (intro allI) (rule quiet_bind [OF quiet_readEntries quiet_return(1), unfolded quiet_def, rule_format])
  then show ?thesis unfolding ListCompatible_def list_sessions_def by (intro quietI)
qed

lemma read_compatible_cases:
  assumes "ReadCompatible faults s sid d = (r, d')"
  shows "dk_files d' = dk_files d \<and>
    (\<forall>x. r = Inr x \<longrightarrow> map_of (dk_files d) (sessionFile sid) = Some (Some x) \<and> se_ID x = sid \<and> se_TmuxName x = sid) \<and>
    (r = Inl ErrNotExist \<longrightarrow> map_of (dk_files d) (sessionFile sid) = None)"
proof -
  have "se_TmuxName x = se_ID x" if "validateCompatible s x = Inr u" for x u
    using that by (auto simp: validateCompatible_def split: if_splits)
  then show ?thesis
    using assms by (auto simp: ReadCompatible_def read_def readFile_def bindP_apply sysCall_def
        split: if_splits option.splits sum.splits prod.splits)
qed

lemma sessionFile_inj: "sessionFile a = sessionFile b \<longleftrightarrow> a = b"
  by (simp add: sessionFile_def)

lemma registry_write_cases:
  assumes "registry_Write faults s tmp x d = (r, d')"
  shows "(\<lambda>sid. map_of (dk_files d') (sessionFile sid)) =
      (\<lambda>sid. map_of (dk_files d) (sessionFile sid))(se_ID x \<mapsto> Some (sessionJSON x)) \<or>
    r \<noteq> Inr () \<and> (\<lambda>sid. map_of (dk_files d') (sessionFile sid)) = (\<lambda>sid. map_of (dk_files d) (sessionFile sid))"
proof -
  have outcome: "write_outcome x (tempName (se_ID x) tmp) (map_of (dk_files d)) r d'"
    using tripleD [OF registry_Write_outcome [where M = "map_of (dk_files d)"] refl assms] by simp
  have ne: "sessionFile sid \<noteq> tempName (se_ID x) tmp" for sid
    using temp_not_json session_file_json by metis
  show ?thesis
    using outcome unfolding write_outcome_def
  proof (elim disjE exE conjE)
    fix e y
    assume "r = Inl e" "map_of (dk_files d') = (map_of (dk_files d))(tempName (se_ID x) tmp := y)"
    then show ?thesis using ne by simp
  qed (simp add: fun_eq_iff sessionFile_inj)
qed

lemma registry_remove_cases:
  assumes "registry_Remove faults sid d = (r, d')"
  shows "(\<lambda>n. map_of (dk_files d') (sessionFile n)) = (\<lambda>n. map_of (dk_files d) (sessionFile n))(sid := None) \<or>
    r \<noteq> Inr () \<and> dk_files d' = dk_files d"
  using assms
  by (auto simp: registry_Remove_def removeFile_def tryP_apply bindP_apply sysCall_def gm_simps fun_eq_iff sessionFile_inj
      split: if_splits option.splits sum.splits prod.splits registryError.splits)

subsection \<open>The host\<close>

text \<open>
  The tmux server, as far as the manager uses it. \<open>target S t\<close> is the session that \<^verbatim>\<open>-t t\<close> stands for. A session
  name has no period in it. The commands that set options, hooks, and environments or list windows do
  not create or end sessions.
\<close>

locale tmux_server =
  fixes c :: "'t Client"
    and live :: "'t \<Rightarrow> string set"
    and target :: "string set \<Rightarrow> string \<Rightarrow> string option"
  assumes exact: "n \<in> S \<Longrightarrow> target S n = Some n"
    and existing: "target S t = Some n \<Longrightarrow> n \<in> S"
    and has: "cl_run c [''has-session'', ''-t'', t] w = (r, w') \<Longrightarrow> live w' = live w \<and>
      (r = Inr () \<longrightarrow> target (live w) t \<noteq> None) \<and> (r = Inl ExitError \<longrightarrow> target (live w) t = None)"
    and kill: "cl_run c [''kill-session'', ''-t'', t] w = (r, w') \<Longrightarrow>
      live w' = live w - set_option (target (live w) t) \<or> r \<noteq> Inr () \<and> live w' = live w"
    and new: "CHR ''.'' \<notin> set n \<Longrightarrow>
      cl_run c ([''start-server'', '';'', ''new-session'', ''-d'', ''-s'', n] @ rest) w = (r, w') \<Longrightarrow>
      live w' = insert n (live w) \<or> r \<noteq> Inr () \<and> live w' = live w"
    and settings: "cmd \<in> {''set-option'', ''set-hook'', ''set-environment''} \<Longrightarrow> quiet live (cl_run c (cmd # args))"
    and windows: "quiet live (cl_output c (''list-windows'' # args))"
begin

lemma quiet_ConfigureHistory: "quiet live (ConfigureHistory c t)"
  unfolding ConfigureHistory_def by (rule settings) simp

lemma quiet_windowIDs: "quiet live (managedWindowIDs c t)"
  unfolding managedWindowIDs_def Let_def by (rule quiet_bind [OF windows]) (auto intro: quietI)

lemma quiet_ManualWindowSize: "quiet live (ConfigureManualWindowSize c t)"
  unfolding ConfigureManualWindowSize_def by (intro quietI quiet_windowIDs settings) simp_all

lemma quiet_SetEnvironment: "quiet live (SetSessionEnvironment c t name value)"
  unfolding SetSessionEnvironment_def using settings by (auto intro: quietI)

lemma quiet_eachIn: "(\<And>x. x \<in> set xs \<Longrightarrow> quiet view (f x)) \<Longrightarrow> quiet view (eachP f xs)"
  by (induction xs) (auto intro!: quietI)

lemma quiet_ConfigureManaged: "quiet live (ConfigureManagedSession c n options)"
  unfolding ConfigureManagedSession_def
  by (intro quiet_bind quiet_ConfigureHistory quiet_ManualWindowSize quiet_eachIn)
    (auto split: if_splits intro!: settings)

lemma has_cases:
  assumes "HasSession c t w = (r, w')"
  shows "live w' = live w \<and> (\<forall>b. r = Inr b \<longrightarrow> b = (target (live w) t \<noteq> None))"
proof -
  obtain r1 where r1: "cl_run c [''has-session'', ''-t'', t] w = (r1, w')"
    "r = (case r1 of Inr _ \<Rightarrow> Inr True | Inl ExitError \<Rightarrow> Inr False | Inl err \<Rightarrow> Inl err)"
    using assms by (auto simp: HasSession_def tryP_apply split: prod.splits sum.splits tmuxError.splits)
  with has [OF r1(1)] show ?thesis by (auto split: sum.splits tmuxError.splits)
qed

lemma create_cases:
  assumes "CreateManagedSession c n home options w = (r, w')" "CHR ''.'' \<notin> set n"
  shows "live w' = insert n (live w) \<or> r \<noteq> Inr () \<and> live w' = live w"
proof (cases "trim_space home = []")
  case False
  let ?rest = "[''-c'', home] @ (if mo_SSHAuthSock options \<noteq> [] then [''-e'', ''SSH_AUTH_SOCK='' @ mo_SSHAuthSock options] else []) @
         [cl_binary c, ''wait-for'', ''control-agents-bootstrap-'' @ n, '';'',
          ''set-option'', ''-t'', n, ''history-limit'', itoa ManagedHistoryLimit, '';'',
          ''set-hook'', ''-t'', n, managedWindowHook, managedWindowCommand, '';'',
          ''new-window'', ''-d'', ''-a'', ''-t'', n @ '':'', ''-c'', home, '';'',
          ''kill-window'', ''-t'', n @ '':'']"
  from assms(1) False have "bindP (cl_run c ([''start-server'', '';'', ''new-session'', ''-d'', ''-s'', n] @ ?rest))
      (\<lambda>_. ConfigureManagedSession c n options) w = (r, w')"
    by (simp add: CreateManagedSession_def)
  then show ?thesis
  proof (cases rule: bindP_elim)
    case (1 e)
    then show ?thesis using new [OF assms(2)] by blast
  next
    case (2 x w1)
    then show ?thesis using new [OF assms(2) 2(1)] quietD [OF quiet_ConfigureManaged 2(2)] by auto
  qed
qed (use assms(1) in \<open>auto simp: CreateManagedSession_def\<close>)

end

locale managed_host = tmux_server c live target
  for c :: "'t Client" and live target +
  fixes host :: "('t, 'e) host"
  assumes bridges: "quiet live (ho_bridgeEnsure host s)" "quiet live (ho_bridgeStop host s)"
    and files: "quiet live (ho_acquire host dir sid)" "quiet live (ho_mkdirAll host path)" "quiet live (ho_chmod host path)"
      "quiet live (ho_remove host path)" "quiet live (ho_NewPublicRef host)"
    and releases: "live (ho_release host sid t) = live t"

sublocale managed_host \<subseteq> lifecycle: session_environment "newManager cfg faults parseTime temp store c host"
    "system_sessions live" system_records target
  for cfg faults parseTime temp store
proof (unfold_locales, goal_cases)
  case (15 t w r w')
  then show ?case using has_cases [of t "sy_rest w" r] by (auto simp: newManager_def onRest_iff system_defs fun_eq_iff)
next
  case (16 t w r w')
  then show ?case using kill [of t "sy_rest w" r] by (auto simp: newManager_def KillSession_def onRest_iff system_defs fun_eq_iff)
next
  case (17 n home options w r w')
  then show ?case
    using create_cases [of n home options "sy_rest w" r] by (auto simp: newManager_def onRest_iff system_defs fun_eq_iff)
next
  case (18 sid w r w')
  then show ?case using read_compatible_cases [of faults store sid "sy_registry w" r]
    by (auto simp: newManager_def onRegistry_iff system_defs fun_eq_iff)
next
  case (19 s w r w')
  then obtain d where d: "registry_Write faults store (temp (dk_calls (sy_registry w))) s (sy_registry w) = (r, d)"
    "w' = w\<lparr>sy_registry := d\<rparr>" by (auto simp: newManager_def onRegistry_iff)
  with registry_write_cases [OF d(1)] show ?case by (simp add: system_sessions_def system_records_def [abs_def])
next
  case (20 sid w r w')
  then obtain d where d: "registry_Remove faults sid (sy_registry w) = (r, d)" "w' = w\<lparr>sy_registry := d\<rparr>"
    by (auto simp: newManager_def onRegistry_iff)
  with registry_remove_cases [OF d(1)] show ?case by (auto simp: system_sessions_def system_records_def [abs_def])
next
  case (9 sid w)
  then show ?case by (simp add: newManager_def system_defs releases fun_eq_iff)
qed (auto simp: newManager_def exact intro!: quietI files bridges quiet_ConfigureHistory
    quiet_ManualWindowSize quiet_SetEnvironment dest: existing)

context managed_host
begin

lemma terminated:
  assumes "TerminateChecked (newManager cfg faults parseTime temp store c host) sid ref check cleanup w = (r, w')"
    and "\<And>f s. check = Some f \<Longrightarrow> quiet (system_view live) (f s)"
    and "\<And>f w. cleanup = Some f \<Longrightarrow> system_view live (f w) = system_view live w"
  shows "live (sy_rest w') \<subseteq> live (sy_rest w) \<and>
    (\<forall>n \<in> live (sy_rest w) - live (sy_rest w'). target (live (sy_rest w)) sid = Some n) \<and>
    (\<forall>n. n \<noteq> sid \<longrightarrow> system_records w' n = system_records w n) \<and>
    (live (sy_rest w') \<noteq> live (sy_rest w) \<or> system_records w' sid = None \<and> system_records w sid \<noteq> None \<longrightarrow>
      (\<exists>s s'. system_records w sid = Some (Some s) \<and> se_ID s' = sid \<and>
         (ref \<noteq> [] \<and> ValidPublicRef (se_PublicRef s) \<longrightarrow> se_PublicRef s = ref) \<and>
         (\<forall>f. check = Some f \<longrightarrow> (\<exists>w1. fst (f s' w1) = Inr ())))) \<and>
    (r = Inr () \<longrightarrow> sid \<notin> live (sy_rest w') \<and> system_records w' sid = None)"
proof (rule lifecycle.terminate_cases [OF assms(1)], goal_cases)
  case 3
  then show ?case by (auto simp: system_sessions_def)
next
  case ended: (4 s s')
  have ends: "live (sy_rest w') = live (sy_rest w) - set_option (target (live (sy_rest w)) sid) \<or>
      r \<noteq> Inr () \<and> live (sy_rest w') = live (sy_rest w)"
    using ended(6) by (simp add: system_sessions_def)
  have "sid \<notin> live (sy_rest w')" if "r = Inr ()"
    using ends that exact [of sid "live (sy_rest w)"] by (cases "sid \<in> live (sy_rest w)") auto
  moreover have "\<exists>s s'. system_records w sid = Some (Some s) \<and> se_ID s' = sid \<and>
      (ref \<noteq> [] \<and> ValidPublicRef (se_PublicRef s) \<longrightarrow> se_PublicRef s = ref) \<and>
      (\<forall>f. check = Some f \<longrightarrow> (\<exists>w1. fst (f s' w1) = Inr ()))"
    using ended(1,3,4) lifecycle.migratedD(1,4) [OF ended(2)] by (intro exI [of _ s] exI [of _ s']) auto
  ultimately show ?case using ends ended(5,7) by auto
qed (use assms(2,3) in blast)+

lemma created:
  assumes "CreateOrSelect (newManager cfg faults parseTime temp store c host) name w = (r, w')" "CHR ''.'' \<notin> set name"
  shows "live (sy_rest w') \<in> {live (sy_rest w), insert name (live (sy_rest w))} \<and>
    (\<forall>n. n \<noteq> name \<longrightarrow> system_records w' n = system_records w n) \<and>
    (\<forall>s c. r = Inr (s, c) \<longrightarrow> se_ID s = name \<and>
       system_records w' name \<in> {Some (Some s), Some (Some (sessionJSON s))} \<and>
       (if target (live (sy_rest w)) name = None then c \<and> name \<in> live (sy_rest w') else \<not> c)) \<and>
    (target (live (sy_rest w)) name \<noteq> None \<and> system_records w name = None \<longrightarrow>
       isl r \<and> live (sy_rest w') = live (sy_rest w) \<and> system_records w' name = None)"
proof -
  note world = lifecycle.create_or_select_world [OF assms, unfolded lifecycle.creates_def lifecycle.stored_def system_sessions_def]
  note stored = conjunct1 [OF conjunct2 [OF conjunct2 [OF world]]]
  note conflict = conjunct2 [OF conjunct2 [OF conjunct2 [OF world]]]
  show ?thesis
  proof (intro conjI allI impI, goal_cases)
    case 1
    then show ?case by (rule conjunct1 [OF conjunct1 [OF world]])
  next
    case (2 n)
    then show ?case using conjunct2 [OF conjunct1 [OF world]] by blast
  next
    case (3 s c)
    then show ?case using stored by blast
  next
    case (4 s c)
    then show ?case using stored by metis
  next
    case (5 s c)
    then show ?case using stored by blast
  qed (use conflict in blast, use conflict in simp, use conflict in simp)
qed

lemma reconciled:
  assumes "Reconcile (newManager cfg faults parseTime temp store c host) w = (r, w')"
  shows "live (sy_rest w') = live (sy_rest w) \<and>
    (\<forall>n. system_records w n \<noteq> None \<and> target (live (sy_rest w)) n \<noteq> None \<longrightarrow> system_records w' n \<noteq> None) \<and>
    (\<forall>kept. r = Inr kept \<longrightarrow>
       (\<forall>s \<in> set kept. target (live (sy_rest w)) (se_ID s) \<noteq> None \<and> system_records w' (se_ID s) \<noteq> None))"
proof -
  have listing: "quiet (system_view live) (mg_ListCompatible (newManager cfg faults parseTime temp store c host))"
    unfolding newManager_def by (simp add: quietI)
  have same: "system_view live w1 = system_view live w"
    if l: "mg_ListCompatible (newManager cfg faults parseTime temp store c host) w = (rl, w1)" for rl w1
    by (rule quietD [OF listing l])
  show ?thesis using lifecycle.reconcile_world [OF assms same] unfolding system_sessions_def .
qed

end

subsection \<open>Properties\<close>

text \<open>
  C7. Terminating a session ends nothing else and only what was authorised. Whatever fails: the only tmux session that can
  end is the one the session's name stands for in tmux, and no other record changes. If a session ended or the record
  went away, the registry held a record for the name, its public reference (if it had a valid one) was
  the expected one, and the caller's verification accepted it. On success the session does not exist and
  has no record.
\<close>

theorem terminate_checked:
  assumes "managed_host c live target host" and "m = newManager cfg faults parseTime temp store c host"
    and "TerminateChecked m sid ref check cleanup w = (r, w')"
    and "\<And>f s. check = Some f \<Longrightarrow> quiet (system_view live) (f s)"
    and "\<And>f w. cleanup = Some f \<Longrightarrow> system_view live (f w) = system_view live w"
  shows "live (sy_rest w') \<subseteq> live (sy_rest w) \<and>
    (\<forall>n \<in> live (sy_rest w) - live (sy_rest w'). target (live (sy_rest w)) sid = Some n) \<and>
    (\<forall>n. n \<noteq> sid \<longrightarrow> system_records w' n = system_records w n) \<and>
    (live (sy_rest w') \<noteq> live (sy_rest w) \<or> system_records w' sid = None \<and> system_records w sid \<noteq> None \<longrightarrow>
      (\<exists>s s'. system_records w sid = Some (Some s) \<and> se_ID s' = sid \<and>
         (ref \<noteq> [] \<and> ValidPublicRef (se_PublicRef s) \<longrightarrow> se_PublicRef s = ref) \<and>
         (\<forall>f. check = Some f \<longrightarrow> (\<exists>w1. fst (f s' w1) = Inr ())))) \<and>
    (r = Inr () \<longrightarrow> sid \<notin> live (sy_rest w') \<and> system_records w' sid = None)"
  by (rule managed_host.terminated [OF assms(1) assms(3) [unfolded assms(2)]]) (rule assms(4,5), assumption)+

text \<open>
  C10. Creating or selecting a session whose name has no period, while nothing else creates or ends tmux sessions, ends none of the
  sessions that were there and changes no other record. On success the record of the session is in the registry, and the
  session was created exactly when the name stood for no tmux session before, and then it exists. A tmux session without a record is left
  alone: the call fails and changes neither the sessions nor the record. The two conditions are needed: tmux replaces the
  periods of a name, and a session of this name that appears in the middle of the call is killed when the creation fails because of it.
\<close>

theorem create_or_select:
  assumes "managed_host c live target host" and "m = newManager cfg faults parseTime temp store c host"
    and "CreateOrSelect m name w = (r, w')" "CHR ''.'' \<notin> set name"
  shows "live (sy_rest w') \<in> {live (sy_rest w), insert name (live (sy_rest w))} \<and>
    (\<forall>n. n \<noteq> name \<longrightarrow> system_records w' n = system_records w n) \<and>
    (\<forall>s c. r = Inr (s, c) \<longrightarrow> se_ID s = name \<and>
       system_records w' name \<in> {Some (Some s), Some (Some (sessionJSON s))} \<and>
       (if target (live (sy_rest w)) name = None then c \<and> name \<in> live (sy_rest w') else \<not> c)) \<and>
    (target (live (sy_rest w)) name \<noteq> None \<and> system_records w name = None \<longrightarrow>
       isl r \<and> live (sy_rest w') = live (sy_rest w) \<and> system_records w' name = None)"
  by (rule managed_host.created [OF assms(1) assms(3) [unfolded assms(2)] assms(4)])

text \<open>
  C23. Reconciliation creates and ends no tmux session; it sets options, hooks and the environment of those it keeps. It drops a record only
  when its name stands for no session in tmux, neither as the name of one nor as the beginning of the name of just one, so never
  while the session of the record is there. The sessions it reports have a record and stand for a session in tmux, which may
  be one whose name only begins with theirs. Nothing else creates or ends sessions meanwhile.
\<close>

theorem reconcile_safe:
  assumes "managed_host c live target host" and "m = newManager cfg faults parseTime temp store c host"
    and "Reconcile m w = (r, w')"
  shows "live (sy_rest w') = live (sy_rest w) \<and>
    (\<forall>n. system_records w n \<noteq> None \<and> system_records w' n = None \<longrightarrow>
       target (live (sy_rest w)) n = None \<and> n \<notin> live (sy_rest w)) \<and>
    (\<forall>kept. r = Inr kept \<longrightarrow>
       (\<forall>s \<in> set kept. target (live (sy_rest w)) (se_ID s) \<noteq> None \<and> system_records w' (se_ID s) \<noteq> None))"
proof -
  note rec = managed_host.reconciled [OF assms(1) assms(3) [unfolded assms(2)]]
  have "n \<notin> live (sy_rest w)" if "target (live (sy_rest w)) n = None" for n
    using tmux_server.exact [OF managed_host.axioms(1) [OF assms(1)]] that by fastforce
  then show ?thesis using rec by metis
qed

subsection \<open>A tmux server\<close>

text \<open>
  A server that keeps the names of its sessions and resolves targets as the manual of tmux says: an exact name, or else
  the one session whose name starts with the target.
\<close>

definition prefix_target :: "string set \<Rightarrow> string \<Rightarrow> string option" where
  "prefix_target S t = (if t \<in> S then Some t
     else if is_singleton {n \<in> S. has_prefix n t} then Some (the_elem {n \<in> S. has_prefix n t}) else None)"

definition find_session :: "string list \<Rightarrow> string \<Rightarrow> string option" where
  "find_session xs t = (if t \<in> set xs then Some t
     else case remdups (filter (\<lambda>n. has_prefix n t) xs) of [n] \<Rightarrow> Some n | _ \<Rightarrow> None)"

lemma find_session_target: "find_session xs t = prefix_target (set xs) t"
proof -
  have set: "{n \<in> set xs. has_prefix n t} = set (remdups (filter (\<lambda>n. has_prefix n t) xs))" by auto
  have "(case ys of [n] \<Rightarrow> Some n | _ \<Rightarrow> None) = (if is_singleton (set ys) then Some (the_elem (set ys)) else None)"
    if "distinct ys" for ys :: "string list"
    using that by (auto simp: is_singleton_def split: list.split)
  from this [of "remdups (filter (\<lambda>n. has_prefix n t) xs)"] show ?thesis
    unfolding find_session_def prefix_target_def set by simp
qed

definition server_run :: "string list \<Rightarrow> (string list, unit) tmux" where
  "server_run args xs =
     (let cmd = args ! 1 in
      if cmd = ''has-session'' then (if find_session xs (args ! 3) = None then Inl ExitError else Inr (), xs)
      else if cmd = ''kill-session'' then
        (case find_session xs (args ! 3) of None \<Rightarrow> (Inl ExitError, xs) | Some n \<Rightarrow> (Inr (), removeAll n xs))
      else if cmd = ''start-server'' then
        (if args ! 6 \<in> set xs then (Inl ExitError, xs) else (Inr (), (args ! 6) # xs))
      else (Inr (), xs))"

definition server_client :: "string list Client" where
  "server_client = \<lparr>cl_runner = \<lparr>rn_Output = (\<lambda>_ xs. (Inr ''@0'', xs)), rn_Run = server_run,
     rn_RunWithInput = None, rn_OutputLimited = None\<rparr>, cl_processDescendant = None, cl_binary = ''tmux''\<rparr>"

definition quiet_host :: "(string list, unit) host" where
  "quiet_host = \<lparr>ho_bridgeEnsure = (\<lambda>_. returnP 7), ho_bridgeStop = (\<lambda>_. returnP ()), ho_acquire = (\<lambda>_ _. returnP ()),
     ho_release = (\<lambda>_ t. t), ho_mkdirAll = (\<lambda>_. returnP ()), ho_chmod = (\<lambda>_. returnP ()),
     ho_remove = (\<lambda>_. failP SystemNotExist),
     ho_NewPublicRef = returnP (b64_encode (replicate 24 CHR ''r'')), ho_timestamp = (\<lambda>_. ''2026-01-01T00:00:00Z'')\<rparr>"

interpretation server: managed_host server_client set prefix_target quiet_host
proof (unfold_locales, goal_cases)
  case (2 S t n)
  then show ?case
    by (auto simp: prefix_target_def is_singleton_def split: if_splits)
next
  case (3 t w r w')
  then show ?case
    by (auto simp: cl_run_def server_client_def server_run_def find_session_target [symmetric] split: if_splits)
next
  case (4 t w r w')
  then show ?case
    by (auto simp: cl_run_def server_client_def server_run_def find_session_target [symmetric] split: option.splits)
next
  case (5 n rest w r w')
  then show ?case by (auto simp: cl_run_def server_client_def server_run_def split: if_splits)
qed (auto simp: quiet_def cl_run_def cl_output_def server_client_def server_run_def prefix_target_def quiet_host_def
    returnP_def failP_def)

definition demo_config :: managerConfig where
  "demo_config = \<lparr>mc_StateDir = ''/s'', mc_HomeDir = ''/h'', mc_TmuxBinary = ''tmux'', mc_TtydBinary = ''ttyd'',
     mc_WindowSize = ''manual'', mc_Mouse = ''off'', mc_AppName = [], mc_WebScrollbackLines = 0,
     mc_WebScrollbackConfigured = True, mc_BridgeStartupTimeout = 0\<rparr>"

definition demo_manager :: "(string list System, unit) Manager" where
  "demo_manager = newManager demo_config (\<lambda>_. False) (\<lambda>_. None) (\<lambda>_. ''x'') (NewStore ''/s'') server_client quiet_host"

definition demo_record :: "string \<Rightarrow> Session" where
  "demo_record sid = \<lparr>se_ID = sid, se_Name = sid, se_PublicRef = b64_encode (replicate 24 CHR ''r''), se_TmuxName = sid,
     se_Socket = expectedSocket (NewStore ''/s'') sid, se_PID = 7, se_CWD = ''/h'', se_CreatedAt = []\<rparr>"

definition demo_world :: "string list \<Rightarrow> string list \<Rightarrow> string list System" where
  "demo_world names live =
     \<lparr>sy_registry = \<lparr>dk_files = map (\<lambda>n. (sessionFile n, Some (demo_record n))) names, dk_calls = 0\<rparr>, sy_rest = live\<rparr>"

definition later :: "nat \<Rightarrow> 't System \<Rightarrow> 't System" where
  "later n sy = sy\<lparr>sy_registry := (sy_registry sy)\<lparr>dk_calls := dk_calls (sy_registry sy) + n\<rparr>\<rparr>"

lemma later_simps [simp]: "sy_rest (later n sy) = sy_rest sy" "dk_files (sy_registry (later n sy)) = dk_files (sy_registry sy)"
  by (simp_all add: later_def)

lemma demo_quiet: "mg_mkdirAll demo_manager path = returnP ()" "mg_chmod demo_manager path = returnP ()"
    "mg_acquire demo_manager dir sid = returnP ()" "mg_bridgeStop demo_manager s = returnP ()"
    "mg_release demo_manager sid w = w" "mg_remove demo_manager path = failP SystemNotExist"
  by (simp_all add: fun_eq_iff demo_manager_def newManager_def onRest_def quiet_host_def)

lemma demo_ensure: "mg_Ensure demo_manager sy = (Inr (), later 6 sy)"
proof -
  have "Ensure (\<lambda>_. False) d = (Inr (), d\<lparr>dk_calls := dk_calls d + 6\<rparr>)" for d
    by (simp add: Ensure_def sysCall_def bindP_apply numeral_eq_Suc)
  then show ?thesis by (simp add: demo_manager_def newManager_def onRegistry_def later_def)
qed

lemma mapErr_return [simp]: "mapErr f (returnP x) = returnP x" "mapErr f (failP e) = failP (f e)"
  by (simp_all add: fun_eq_iff mapErr_def)

lemma demo_lock: "lock demo_manager sid sy = (Inr (), later 6 sy)"
  by (simp add: lock_def ensurePrivateState_def demo_quiet demo_ensure bindP_apply mapErr_def)

lemma demo_read:
  assumes "map_of (dk_files (sy_registry sy)) (sessionFile sid) = Some (Some (demo_record sid))"
    and "ValidID sid" "validateCompatible (NewStore ''/s'') (demo_record sid) = Inr ()" "ValidPublicRef (se_PublicRef (demo_record sid))"
  shows "readManaged demo_manager sid sy = (Inr (demo_record sid), later 1 sy)"
proof -
  have "se_ID (demo_record sid) = sid" "se_Name (demo_record sid) = sid" by (simp_all add: demo_record_def)
  with assms show ?thesis
    by (simp add: readManaged_def demo_manager_def newManager_def mapErr_def onRegistry_def ReadCompatible_def read_def
        readFile_def sysCall_def bindP_apply later_def)
qed

lemma demo_artifacts: "removePaths demo_manager paths w = ([], w)"
  by (induction paths) (simp_all add: demo_quiet)

lemma demo_terminate:
  assumes "map_of (dk_files (sy_registry sy)) (sessionFile sid) = Some (Some (demo_record sid))"
    and "ValidID sid" "validateCompatible (NewStore ''/s'') (demo_record sid) = Inr ()" "ValidPublicRef (se_PublicRef (demo_record sid))"
    and "find_session (sy_rest sy) sid = Some n"
  shows "\<exists>sy'. TerminateChecked demo_manager sid [] None None sy = (Inr (), sy') \<and> sy_rest sy' = removeAll n (sy_rest sy)"
proof -
  have demo: "se_ID (demo_record sid) = sid" "se_TmuxName (demo_record sid) = sid" by (simp_all add: demo_record_def)
  have read: "readManaged demo_manager sid (later 6 sy) = (Inr (demo_record sid), later 1 (later 6 sy))"
    using assms(1-4) by (intro demo_read) simp_all
  define w1 where "w1 = later 1 (later 6 sy)"
  have rest: "sy_rest w1 = sy_rest sy" by (simp add: w1_def)
  have check: "checkSession demo_manager ''terminate'' sid sid w1 = (Inr True, w1)"
    using assms(5) rest by (simp add: checkSession_def mapErr_def demo_manager_def newManager_def onRest_def HasSession_def
        tryP_apply cl_run_def server_client_def server_run_def)
  have kill: "mg_KillSession demo_manager sid w1 = (Inr (), w1\<lparr>sy_rest := removeAll n (sy_rest sy)\<rparr>)"
    using assms(5) rest by (simp add: demo_manager_def newManager_def onRest_def KillSession_def cl_run_def
        server_client_def server_run_def)
  have "\<exists>sy'. mg_Remove demo_manager sid w = (Inr (), sy') \<and> sy_rest sy' = sy_rest w" for w
    using assms(2) by (auto simp: demo_manager_def newManager_def onRegistry_def registry_Remove_def removeFile_def
        tryP_apply bindP_apply sysCall_def split: option.split)
  then obtain sy' where sy': "mg_Remove demo_manager sid (w1\<lparr>sy_rest := removeAll n (sy_rest sy)\<rparr>) = (Inr (), sy')"
    "sy_rest sy' = removeAll n (sy_rest sy)" by fastforce
  have ends: "endSession demo_manager sid None (demo_record sid) w1 = (Inr (), sy')"
    using sy'(1) by (simp add: endSession_def demo demo_quiet bindP_apply check kill mapErr_def removeArtifacts_def
        demo_artifacts Let_def del: removePaths.simps)
  have "TerminateChecked demo_manager sid [] None None sy = (Inr (), sy')"
    using assms(2) ends read unfolding w1_def by (simp add: TerminateChecked_def locked_def bindP_apply mapErr_def demo_lock demo_quiet)
  then show ?thesis using sy'(2) by simp
qed

lemma demo_dev: "ValidID ''dev''" "validateCompatible (NewStore ''/s'') (demo_record ''dev'') = Inr ()"
    "ValidPublicRef (se_PublicRef (demo_record ''dev''))"
    "map_of (dk_files (sy_registry (demo_world [''dev''] names))) (sessionFile ''dev'') = Some (Some (demo_record ''dev''))"
  by (code_simp, code_simp, code_simp, simp add: demo_world_def)

theorem terminate_checked_witness:
  "\<exists>w'. TerminateChecked demo_manager ''dev'' [] None None (demo_world [''dev''] [''dev'', ''other'']) = (Inr (), w') \<and>
     ''dev'' \<notin> set (sy_rest w') \<and> system_records w' ''dev'' = None \<and> ''other'' \<in> set (sy_rest w')"
proof -
  let ?w = "demo_world [''dev''] [''dev'', ''other'']"
  have found: "find_session (sy_rest ?w) ''dev'' = Some ''dev''" by (simp add: find_session_def demo_world_def)
  obtain w' where run: "TerminateChecked demo_manager ''dev'' [] None None ?w = (Inr (), w')"
    "sy_rest w' = removeAll ''dev'' [''dev'', ''other'']"
    using demo_terminate [OF demo_dev(4,1-3) found] by (auto simp: demo_world_def)
  have "(Inr () :: unit sessionError + unit) = Inr () \<longrightarrow> ''dev'' \<notin> set (sy_rest w') \<and> system_records w' ''dev'' = None"
    using terminate_checked [OF server.managed_host_axioms demo_manager_def run(1)] by simp
  then show ?thesis using run by (intro exI [of _ w']) simp
qed

theorem create_or_select_witness:
  "isl (fst (CreateOrSelect demo_manager ''dev'' (demo_world [] [''dev'', ''other'']))) \<and>
   set (sy_rest (snd (CreateOrSelect demo_manager ''dev'' (demo_world [] [''dev'', ''other''])))) = {''dev'', ''other''}"
proof -
  have "CHR ''.'' \<notin> set ''dev''" by simp
  from create_or_select [OF server.managed_host_axioms demo_manager_def prod.collapse [symmetric] this,
      of "demo_world [] [''dev'', ''other'']"]
  show ?thesis by (simp add: demo_world_def prefix_target_def system_records_def)
qed

theorem reconcile_safe_witness:
  "set (sy_rest (snd (Reconcile demo_manager (demo_world [''dev''] [''dev'', ''other''])))) = {''dev'', ''other''} \<and>
   system_records (snd (Reconcile demo_manager (demo_world [''dev''] [''dev'', ''other'']))) ''dev'' \<noteq> None"
proof -
  let ?w = "demo_world [''dev''] [''dev'', ''other'']"
  have there: "system_records ?w ''dev'' \<noteq> None" "''dev'' \<in> set (sy_rest ?w)" "set (sy_rest ?w) = {''dev'', ''other''}"
    by (simp_all add: demo_world_def system_records_def)
  note safe = reconcile_safe [OF server.managed_host_axioms demo_manager_def prod.collapse [symmetric], of ?w]
  show ?thesis
  proof
    show "set (sy_rest (snd (Reconcile demo_manager ?w))) = {''dev'', ''other''}" using conjunct1 [OF safe] there(3) by (rule trans)
    show "system_records (snd (Reconcile demo_manager ?w)) ''dev'' \<noteq> None"
      using spec [OF conjunct1 [OF conjunct2 [OF safe]], of "''dev''"] there(1,2) by argo
  qed
qed

subsection \<open>Targets that are not exact\<close>

text \<open>
  The client names sessions to tmux with \<^verbatim>\<open>-t name\<close> and not \<^verbatim>\<open>-t =name\<close>. If the session of a record has ended and
  another session's name begins with the same letters, tmux takes that one: terminating \<open>dev\<close> succeeds and
  kills \<open>dev2\<close>.
\<close>

theorem terminate_kills_namesake:
  "\<exists>w'. TerminateChecked demo_manager ''dev'' [] None None (demo_world [''dev''] [''dev2'', ''other'']) = (Inr (), w') \<and>
     sy_rest w' = [''other'']"
proof -
  let ?w = "demo_world [''dev''] [''dev2'', ''other'']"
  have found: "find_session (sy_rest ?w) ''dev'' = Some ''dev2''" by (simp add: find_session_def demo_world_def has_prefix_def)
  show ?thesis
    using demo_terminate [OF demo_dev(4,1-3) found] by (auto simp: demo_world_def)
qed

end
