(* ===== verification/Bridge_Commands.thy ===== *)
theory Bridge_Commands
  imports Registry Server_Config
begin

section \<open>Recognising terminal bridges\<close>

text \<open>
  The part of \<^verbatim>\<open>internal/session/bridge.go\<close> that only computes: the command line of the ttyd process that serves a
  session, how the command line of a running process is classified, and which processes a reconciliation
  keeps and stops. The lemmas show that the bridge of a session is recognised as such and as
  nobody else's, and that a reconciliation keeps at most one process, which is a current one.
\<close>

datatype bridgeCommandKind =
    bridgeCommandUnrelated
  | bridgeCommandLegacy
  | bridgeCommandCurrent

record verifiedBridgeProcesses =
  vp_current :: "int list"
  vp_legacy :: "int list"

text \<open>\<^verbatim>\<open>filepath.Base\<close>.\<close>

definition path_base :: "string \<Rightarrow> string" where
  "path_base p =
     (if p = [] then ''.''
      else let q = trim_right_set p [CHR ''/''] in
        if q = [] then ''/'' else rev (takeWhile (\<lambda>c. c \<noteq> CHR ''/'') (rev q)))"

definition NUL :: string where "NUL = [CHR 0x00]"

subsection \<open>Command lines\<close>

definition bridgeArguments :: "Session \<Rightarrow> int \<Rightarrow> string \<Rightarrow> string list" where
  "bridgeArguments managed scrollback tmuxBinary =
     [''-W'', ''-i'', se_Socket managed, ''-b'', ''/terminal/'' @ se_PublicRef managed,
      ''-t'', ''scrollback='' @ itoa scrollback,
      tmuxBinary, ''attach-session'', ''-E'', ''-t'', se_TmuxName managed]"

fun hasOptionValue :: "string list \<Rightarrow> string \<Rightarrow> string \<Rightarrow> bool" where
  "hasOptionValue (a # b # rest) option value = (a = option \<and> b = value \<or> hasOptionValue (b # rest) option value)"
| "hasOptionValue _ option value = False"

fun optionValue :: "string list \<Rightarrow> string \<Rightarrow> string" where
  "optionValue (a # b # rest) option = (if a = option then b else optionValue (b # rest) option)"
| "optionValue _ option = []"

definition hasArgumentSuffix :: "string list \<Rightarrow> string list \<Rightarrow> bool" where
  "hasArgumentSuffix arguments suffix =
     (if suffix = [] \<or> length suffix > length arguments then False
      else join (drop (length arguments - length suffix) arguments) NUL = join suffix NUL)"

definition classifyBridgeCommand :: "string list \<Rightarrow> string \<Rightarrow> string \<Rightarrow> Session \<Rightarrow> bridgeCommandKind" where
  "classifyBridgeCommand arguments ttydBase tmuxBinary managed =
     (case arguments of
        [] \<Rightarrow> bridgeCommandUnrelated
      | binary # options \<Rightarrow>
          if path_base binary \<noteq> ttydBase then bridgeCommandUnrelated
          else if \<not> hasOptionValue options ''-i'' (se_Socket managed) then bridgeCommandUnrelated
          else
            let base = optionValue options ''-b'';
                currentBase = ''/terminal/'' @ se_PublicRef managed;
                legacyBase = ''/terminal/'' @ se_ID managed in
            if base \<noteq> currentBase \<and> base \<noteq> legacyBase then bridgeCommandUnrelated
            else if hasArgumentSuffix options [tmuxBinary, ''attach-session'', ''-E'', ''-t'', se_TmuxName managed] then
              (if base = legacyBase \<and> base \<noteq> currentBase then bridgeCommandLegacy else bridgeCommandCurrent)
            else if hasArgumentSuffix options [tmuxBinary, ''attach-session'', ''-t'', se_TmuxName managed]
              then bridgeCommandLegacy
            else bridgeCommandUnrelated)"

definition bridgeCommandMatches :: "string list \<Rightarrow> string \<Rightarrow> string \<Rightarrow> Session \<Rightarrow> bool" where
  "bridgeCommandMatches arguments ttydBase tmuxBinary managed \<longleftrightarrow>
     classifyBridgeCommand arguments ttydBase tmuxBinary managed = bridgeCommandCurrent"

definition legacyBridgeCommandMatches :: "string list \<Rightarrow> string \<Rightarrow> string \<Rightarrow> Session \<Rightarrow> bool" where
  "legacyBridgeCommandMatches arguments ttydBase tmuxBinary managed \<longleftrightarrow>
     classifyBridgeCommand arguments ttydBase tmuxBinary managed = bridgeCommandLegacy"

text \<open>
  The command line of the previous release, whose option \<^verbatim>\<open>scrollback=n\<close> ttyd may have split in two: the text of
  the option, and whether it was split.
\<close>

definition scrollbackOption :: "string list \<Rightarrow> (string \<times> bool) option" where
  "scrollbackOption arguments =
     (if has_prefix (arguments ! 7) ''scrollback='' then Some (trim_prefix (arguments ! 7) ''scrollback='', False)
      else if arguments ! 7 = ''scrollback'' \<and> length arguments > 8 then Some (arguments ! 8, True)
      else None)"

definition previousCandidates :: "Session \<Rightarrow> int \<Rightarrow> string \<Rightarrow> bool \<Rightarrow> string list list" where
  "previousCandidates managed scrollback scrollbackText normalized =
     (let current = bridgeArguments managed scrollback ''tmux'';
          legacy = [''-W'', ''-i'', se_Socket managed, ''-b'', ''/terminal/'' @ se_ID managed,
            ''-t'', ''scrollback='' @ scrollbackText, ''tmux'', ''attach-session'', ''-t'', se_TmuxName managed] in
      map (\<lambda>candidate. if normalized then take 6 candidate @ [''scrollback'', scrollbackText] @ drop 7 candidate
        else candidate) [current, legacy])"

definition previousRegisteredBridgeCommandMatches :: "string list \<Rightarrow> string \<Rightarrow> Session \<Rightarrow> bool" where
  "previousRegisteredBridgeCommandMatches arguments ttydBase managed =
     (if length arguments < 8 \<or> path_base (arguments ! 0) \<noteq> ttydBase \<or> \<not> ValidPublicRef (se_PublicRef managed) then False
      else case scrollbackOption arguments of
          None \<Rightarrow> False
        | Some (scrollbackText, normalized) \<Rightarrow>
            (case parse_int scrollbackText of
               None \<Rightarrow> False
             | Some scrollback \<Rightarrow>
                 if scrollback < 0 \<or> itoa scrollback \<noteq> scrollbackText then False
                 else
                   list_ex (\<lambda>candidate. join arguments NUL = join (arguments ! 0 # candidate) NUL)
                     (previousCandidates managed scrollback scrollbackText normalized)))"

definition classifyCommand :: "string \<Rightarrow> string \<Rightarrow> Session \<Rightarrow> int \<Rightarrow> string list \<Rightarrow> bridgeCommandKind" where
  "classifyCommand ttydBinary tmuxBinary managed pid arguments =
     (let kind = classifyBridgeCommand arguments (path_base ttydBinary) tmuxBinary managed in
      if kind \<noteq> bridgeCommandUnrelated then kind
      else if pid = se_PID managed \<and> previousRegisteredBridgeCommandMatches arguments (path_base ttydBinary) managed
        then bridgeCommandLegacy
      else bridgeCommandUnrelated)"

text \<open>\<open>processCommandLine\<close> on the bytes of \<^verbatim>\<open>/proc/<pid>/cmdline\<close>, \<open>processState\<close> on those of \<^verbatim>\<open>/proc/<pid>/stat\<close>.\<close>

definition processCommandLine :: "string \<Rightarrow> string list option" where
  "processCommandLine data =
     (let line = trim_right_set data [CHR 0x00] in if line = [] then None else Some (split line CHR 0x00))"

definition processState :: "string \<Rightarrow> string option" where
  "processState line =
     (if CHR '')'' \<notin> set line then None
      else
        let rest = rev (takeWhile (\<lambda>c. c \<noteq> CHR '')'') (rev line)) in
        if length rest < 2 then None
        else case str_fields rest of [] \<Rightarrow> None | state # _ \<Rightarrow> Some state)"

subsection \<open>Processes of a session\<close>

definition vp_add :: "int \<Rightarrow> bridgeCommandKind \<Rightarrow> verifiedBridgeProcesses \<Rightarrow> verifiedBridgeProcesses" where
  "vp_add pid kind p =
     (case kind of
        bridgeCommandCurrent \<Rightarrow> p\<lparr>vp_current := vp_current p @ [pid]\<rparr>
      | bridgeCommandLegacy \<Rightarrow> p\<lparr>vp_legacy := vp_legacy p @ [pid]\<rparr>
      | bridgeCommandUnrelated \<Rightarrow> p)"

definition vp_all :: "verifiedBridgeProcesses \<Rightarrow> int list" where
  "vp_all p = sort (vp_current p @ vp_legacy p)"

definition containsPID :: "int list \<Rightarrow> int \<Rightarrow> bool" where
  "containsPID pids target = list_ex (\<lambda>pid. pid = target) pids"

definition reconcilePlan :: "verifiedBridgeProcesses \<Rightarrow> int \<Rightarrow> bool \<Rightarrow> int \<times> int list" where
  "reconcilePlan p registeredPID ready =
     (let keep = (if ready \<and> vp_current p \<noteq> [] then
            (if containsPID (vp_current p) registeredPID then registeredPID else hd (vp_current p)) else 0) in
      (keep, filter (\<lambda>pid. pid \<noteq> keep) (vp_all p)))"


subsection \<open>The bridge of a session is recognised\<close>

text \<open>
  The bytes of \<^verbatim>\<open>/proc/<pid>/cmdline\<close> of a bridge: its arguments, each closed by a zero byte. The option parser of ttyd
  may overwrite the equality sign of its option by a zero byte.
\<close>

definition bridgeCommandLine :: "string \<Rightarrow> Session \<Rightarrow> int \<Rightarrow> string \<Rightarrow> bool \<Rightarrow> string" where
  "bridgeCommandLine binary managed scrollback tmuxBinary overwritten =
     (let arguments = bridgeArguments managed scrollback tmuxBinary in
      join (binary # take 6 arguments @
            [''scrollback'' @ (if overwritten then NUL else ''='') @ itoa scrollback] @ drop 7 arguments) NUL @ NUL)"

definition seenArguments :: "string \<Rightarrow> Session \<Rightarrow> int \<Rightarrow> string \<Rightarrow> bool \<Rightarrow> string list" where
  "seenArguments binary managed scrollback tmuxBinary overwritten =
     binary # [''-W'', ''-i'', se_Socket managed, ''-b'', ''/terminal/'' @ se_PublicRef managed, ''-t''] @
     (if overwritten then [''scrollback'', itoa scrollback] else [''scrollback='' @ itoa scrollback]) @
     [tmuxBinary, ''attach-session'', ''-E'', ''-t'', se_TmuxName managed]"

definition zero_free :: "string \<Rightarrow> bool" where
  "zero_free s \<longleftrightarrow> CHR 0x00 \<notin> set s"

lemma zero_free_append [simp]: "zero_free (a @ b) \<longleftrightarrow> zero_free a \<and> zero_free b"
  by (simp add: zero_free_def)

lemma zero_free_Cons [simp]: "zero_free (c # s) \<longleftrightarrow> c \<noteq> CHR 0x00 \<and> zero_free s" "zero_free []"
  by (auto simp: zero_free_def)

lemma join_zero_inj:
  assumes "join xs NUL = join ys NUL" "xs \<noteq> []" "ys \<noteq> []" "list_all zero_free xs" "list_all zero_free ys"
  shows "xs = ys"
proof -
  have "split (join zs NUL) (CHR 0x00) = zs" if "zs \<noteq> []" "list_all zero_free zs" for zs
    unfolding NUL_def by (rule split_join) (use that in \<open>auto simp: list_all_iff zero_free_def\<close>)
  then show ?thesis using assms by metis
qed

lemma suffix_zero_free:
  assumes "list_all zero_free arguments" "list_all zero_free suffix"
  shows "hasArgumentSuffix arguments suffix \<longleftrightarrow>
    suffix \<noteq> [] \<and> length suffix \<le> length arguments \<and> drop (length arguments - length suffix) arguments = suffix"
proof (cases "suffix = [] \<or> length arguments < length suffix")
  case False
  let ?tail = "drop (length arguments - length suffix) arguments"
  have "?tail = suffix" if "join ?tail NUL = join suffix NUL"
  proof (rule join_zero_inj [OF that])
    have "0 < length suffix" using False by simp
    with False show "?tail \<noteq> []" by (metis diff_less drop_eq_Nil2 leD length_0_conv neq0_conv not_less_zero leI order.strict_trans2)
  qed (use False assms in \<open>auto simp: list_all_iff dest: in_set_dropD\<close>)
  with False show ?thesis by (auto simp: hasArgumentSuffix_def)
qed (auto simp: hasArgumentSuffix_def)

lemma join_snoc: "\<exists>front. join (xs @ [y]) sep = front @ y"
proof (induction xs sep rule: join.induct)
  case (3 x z zs sep)
  then obtain front where "join ((z # zs) @ [y]) sep = front @ y" by blast
  then have "join ((x # z # zs) @ [y]) sep = (x @ sep @ front) @ y" by simp
  then show ?case by blast
qed simp_all

text \<open>What the registry demands of a record.\<close>

lemma record_facts:
  assumes "validateCanonical store s = Inr ()"
  shows "ValidID (se_ID s)" "ValidPublicRef (se_PublicRef s)" "se_TmuxName s = se_ID s"
    "has_prefix (se_Socket s) ''/''" "se_Socket s = expectedSocket store (se_ID s)"
  using assms by (auto simp: validateCanonical_def Validate_def bindR_Inr_iff split: if_splits)

lemma ValidID_facts:
  assumes "ValidID sid"
  shows "sid \<noteq> []" "zero_free sid" "is_alnum (hd sid)"
proof -
  have "list_all (\<lambda>c. is_alnum c \<or> c = CHR ''.'' \<or> c = CHR ''_'' \<or> c = CHR ''-'') sid"
    using assms by (cases sid) (auto simp: ValidID_def match_class_def)
  then show "zero_free sid" by (auto simp: zero_free_def list_all_iff char_class_defs)
qed (use assms in \<open>simp_all add: ValidID_def\<close>)

lemma ValidPublicRef_zero_free: "ValidPublicRef ref \<Longrightarrow> zero_free ref"
  by (auto simp: zero_free_def ValidPublicRef_def match_class_def list_all_iff char_class_defs)

lemma itoa_zero_free [simp]: "zero_free (itoa n)"
  by (simp add: zero_free_def itoa_no_char is_digit_def)

lemma socket_inj: "expectedSocket store a = expectedSocket store b \<Longrightarrow> a = b"
  by (simp add: expectedSocket_def pathJoin_def split: if_splits)

lemma socket_zero_free: "zero_free (st_stateDir store) \<Longrightarrow> zero_free sid \<Longrightarrow> zero_free (expectedSocket store sid)"
  by (simp add: expectedSocket_def pathJoin_def)

lemma seen_zero_free:
  assumes "validateCanonical store s = Inr ()" "zero_free (st_stateDir store)" "zero_free binary" "zero_free tmuxBinary"
  shows "list_all zero_free (seenArguments binary s n tmuxBinary overwritten)"
  using assms ValidID_facts [OF record_facts(1) [OF assms(1)]] ValidPublicRef_zero_free [OF record_facts(2) [OF assms(1)]]
    record_facts(3,5) [OF assms(1)] socket_zero_free [of store "se_ID s"]
  by (simp add: seenArguments_def)

lemma seen_command_line:
  assumes "validateCanonical store s = Inr ()" "zero_free (st_stateDir store)" "zero_free binary" "zero_free tmuxBinary"
  shows "processCommandLine (bridgeCommandLine binary s n tmuxBinary overwritten) =
    Some (seenArguments binary s n tmuxBinary overwritten)"
proof -
  let ?seen = "seenArguments binary s n tmuxBinary overwritten"
  have line: "bridgeCommandLine binary s n tmuxBinary overwritten = join ?seen NUL @ NUL"
    by (simp add: bridgeCommandLine_def seenArguments_def bridgeArguments_def)
  have free: "list_all zero_free ?seen" by (rule seen_zero_free [OF assms])
  have "?seen = butlast ?seen @ [se_ID s]" by (simp add: seenArguments_def record_facts(3) [OF assms(1)])
  then obtain front where front: "join ?seen NUL = front @ se_ID s" using join_snoc by metis
  have last: "se_ID s \<noteq> []" "zero_free (se_ID s)" using ValidID_facts [OF record_facts(1) [OF assms(1)]] by simp_all
  have trim: "trim_right_set (join ?seen NUL @ NUL) [CHR 0x00] = join ?seen NUL"
  proof -
    obtain c r where "rev (se_ID s) = c # r" using last(1) by (cases "rev (se_ID s)") auto
    moreover from this last(2) have "c \<noteq> CHR 0x00" by (metis zero_free_Cons(1) zero_free_def set_rev)
    ultimately show ?thesis by (simp add: trim_right_set_def NUL_def front [unfolded NUL_def])
  qed
  have "split (join ?seen NUL) (CHR 0x00) = ?seen"
    unfolding NUL_def by (rule split_join) (use free in \<open>auto simp: list_all_iff zero_free_def seenArguments_def\<close>)
  moreover have "join ?seen NUL \<noteq> []" using front last(1) by simp
  ultimately show ?thesis unfolding processCommandLine_def line trim Let_def by simp
qed


text \<open>\<open>-i\<close> occurs once, before the socket, and the first \<open>-b\<close> stands before the base path.\<close>

lemma seen_options:
  assumes "validateCanonical store s = Inr ()" "has_prefix socket ''/''"
  shows "hasOptionValue (tl (seenArguments binary s n tmuxBinary overwritten)) ''-i'' socket \<longleftrightarrow> socket = se_Socket s"
    and "optionValue (tl (seenArguments binary s n tmuxBinary overwritten)) ''-b'' = ''/terminal/'' @ se_PublicRef s"
proof -
  have "itoa n \<noteq> ''-i''" "itoa n \<noteq> ''-b''" using itoa_no_char [of "CHR ''i''" n] itoa_no_char [of "CHR ''b''" n]
    by (auto simp: is_digit_def)
  then show "hasOptionValue (tl (seenArguments binary s n tmuxBinary overwritten)) ''-i'' socket \<longleftrightarrow> socket = se_Socket s"
    "optionValue (tl (seenArguments binary s n tmuxBinary overwritten)) ''-b'' = ''/terminal/'' @ se_PublicRef s"
    using assms(2) record_facts(4) [OF assms(1)]
    by (auto simp: seenArguments_def has_prefix_iff)
qed

lemma classify_own:
  assumes "validateCanonical store s = Inr ()" "zero_free (st_stateDir store)" "zero_free binary" "zero_free tmuxBinary"
    and "path_base binary = path_base ttydBinary"
  shows "classifyCommand ttydBinary tmuxBinary s pid (seenArguments binary s n tmuxBinary overwritten) = bridgeCommandCurrent"
proof -
  let ?seen = "seenArguments binary s n tmuxBinary overwritten"
  let ?suffix = "[tmuxBinary, ''attach-session'', ''-E'', ''-t'', se_TmuxName s]"
  have "list_all zero_free ?seen" by (rule seen_zero_free [OF assms(1-4)])
  then have "hasArgumentSuffix (tl ?seen) ?suffix"
    by (subst suffix_zero_free) (auto simp: seenArguments_def)
  then have "classifyBridgeCommand (binary # tl ?seen) (path_base ttydBinary) tmuxBinary s = bridgeCommandCurrent"
    using seen_options [OF assms(1) record_facts(4) [OF assms(1)], of binary n tmuxBinary overwritten]
    by (simp add: classifyBridgeCommand_def assms(5) Let_def)
  moreover have "?seen = binary # tl ?seen" by (simp add: seenArguments_def)
  ultimately have "classifyBridgeCommand ?seen (path_base ttydBinary) tmuxBinary s = bridgeCommandCurrent"
    by simp
  then show ?thesis by (simp add: classifyCommand_def Let_def)
qed

lemma previous_candidate:
  assumes "previousRegisteredBridgeCommandMatches arguments ttydBase t"
    and "zero_free (arguments ! 0)" "zero_free (se_Socket t)" "zero_free (se_PublicRef t)" "zero_free (se_ID t)"
      "zero_free (se_TmuxName t)"
  shows "\<exists>candidate. join arguments NUL = join candidate NUL \<and> list_all zero_free candidate \<and> candidate \<noteq> [] \<and>
    candidate ! 3 = se_Socket t"
proof -
  obtain n shown normalized candidate where "itoa n = shown" "candidate \<in> set (previousCandidates t n shown normalized)"
    and joined: "join arguments NUL = join (arguments ! 0 # candidate) NUL"
    using assms(1)
    by (auto simp: previousRegisteredBridgeCommandMatches_def list_ex_iff simp del: join.simps
        split: if_splits option.splits prod.splits)
  then have "list_all zero_free candidate" "candidate ! 2 = se_Socket t" "candidate \<noteq> []"
    using assms(2-) by (auto simp: previousCandidates_def bridgeArguments_def Let_def split: if_splits)
  with joined assms(2) show ?thesis by (intro exI [of _ "arguments ! 0 # candidate"]) (simp add: numeral_3_eq_3 numeral_2_eq_2)
qed

lemma classify_other:
  assumes "validateCanonical store s = Inr ()" "zero_free (st_stateDir store)" "zero_free binary" "zero_free tmuxBinary"
    and "validateCanonical store t = Inr ()" "se_ID t \<noteq> se_ID s"
  shows "classifyCommand ttydBinary tmuxBinary t pid (seenArguments binary s n tmuxBinary overwritten) = bridgeCommandUnrelated"
proof -
  let ?seen = "seenArguments binary s n tmuxBinary overwritten"
  have sockets: "se_Socket t \<noteq> se_Socket s"
    using socket_inj assms(6) record_facts(5) [OF assms(1)] record_facts(5) [OF assms(5)] by metis
  have seen: "?seen = binary # tl ?seen" by (simp add: seenArguments_def)
  have "\<not> hasOptionValue (tl ?seen) ''-i'' (se_Socket t)"
    using seen_options(1) [OF assms(1) record_facts(4) [OF assms(5)]] sockets by simp
  then have unrelated: "classifyBridgeCommand ?seen (path_base ttydBinary) tmuxBinary t = bridgeCommandUnrelated"
    by (subst seen) (simp add: classifyBridgeCommand_def)
  have free: "zero_free (se_Socket t)" "zero_free (se_PublicRef t)" "zero_free (se_ID t)" "zero_free (se_TmuxName t)"
    using record_facts(3,5) [OF assms(5)] ValidID_facts(2) [OF record_facts(1) [OF assms(5)]]
      ValidPublicRef_zero_free [OF record_facts(2) [OF assms(5)]] socket_zero_free [OF assms(2), of "se_ID t"] by simp_all
  have third: "?seen ! 3 = se_Socket s" by (simp add: seenArguments_def)
  have "join ?seen NUL \<noteq> join candidate NUL"
    if "list_all zero_free candidate" "candidate \<noteq> []" "candidate ! 3 = se_Socket t" for candidate
  proof
    assume "join ?seen NUL = join candidate NUL"
    then have "?seen = candidate"
      by (rule join_zero_inj) (use seen that seen_zero_free [OF assms(1-4)] in auto)
    with third that(3) sockets show False by simp
  qed
  then have "\<not> previousRegisteredBridgeCommandMatches ?seen (path_base ttydBinary) t"
    using previous_candidate [of ?seen "path_base ttydBinary" t] free assms(3) seen by (metis list.distinct(1) nth_Cons_0)
  with unrelated show ?thesis by (simp add: classifyCommand_def Let_def)
qed


subsection \<open>The plan of a reconciliation\<close>

lemma containsPID_set [simp]: "containsPID pids target \<longleftrightarrow> target \<in> set pids"
  by (induction pids) (auto simp: containsPID_def)

text \<open>At most one process is kept, a current one and the registered one if possible; all others are stopped.\<close>

lemma reconcilePlan_facts:
  assumes "reconcilePlan p registered ready = (keep, stop)"
  shows "set stop = set (vp_current p) \<union> set (vp_legacy p) - {keep}"
    and "keep = 0 \<or> ready \<and> keep \<in> set (vp_current p)"
    and "ready \<and> registered \<in> set (vp_current p) \<Longrightarrow> keep = registered"
proof -
  let ?keep = "if ready \<and> vp_current p \<noteq> [] then
      (if registered \<in> set (vp_current p) then registered else hd (vp_current p)) else 0"
  have "(?keep, filter (\<lambda>pid. pid \<noteq> ?keep) (vp_all p)) = (keep, stop)"
    using assms unfolding reconcilePlan_def Let_def containsPID_set .
  note pair = Pair_inject [OF this]
  have keep: "keep = ?keep" by (rule pair) (erule sym)
  have "stop = filter (\<lambda>pid. pid \<noteq> ?keep) (vp_all p)" by (rule pair) (erule sym)
  then have stop: "stop = filter (\<lambda>pid. pid \<noteq> keep) (vp_all p)" unfolding keep .
  show "set stop = set (vp_current p) \<union> set (vp_legacy p) - {keep}" unfolding stop by (auto simp: vp_all_def)
  show "keep = 0 \<or> ready \<and> keep \<in> set (vp_current p)" unfolding keep by simp
  assume "ready \<and> registered \<in> set (vp_current p)"
  then show "keep = registered" unfolding keep by auto
qed

subsection \<open>Properties\<close>

text \<open>
  C39. The bridge started for a session is recognised from the bytes of its command line as the current bridge
  of that session, also after ttyd has overwritten the equality sign of its option, and it is not taken for
  a bridge, current or legacy, of any other session of the same state directory, whatever process
  identifier either has recorded. So adoption and clean-up of one session never reach the bridge of another.
\<close>

theorem bridge_recognised:
  assumes "validateCanonical store s = Inr ()" "path_base binary = path_base ttydBinary"
    and "zero_free (st_stateDir store)" "zero_free binary" "zero_free tmuxBinary"
  shows "\<exists>arguments. processCommandLine (bridgeCommandLine binary s scrollback tmuxBinary overwritten) = Some arguments \<and>
    classifyCommand ttydBinary tmuxBinary s pid arguments = bridgeCommandCurrent \<and>
    (\<forall>t. validateCanonical store t = Inr () \<and> se_ID t \<noteq> se_ID s \<longrightarrow>
       classifyCommand ttydBinary tmuxBinary t pid arguments = bridgeCommandUnrelated)"
proof (intro exI conjI allI impI)
  show "processCommandLine (bridgeCommandLine binary s scrollback tmuxBinary overwritten) =
      Some (seenArguments binary s scrollback tmuxBinary overwritten)"
    by (rule seen_command_line [OF assms(1,3-5)])
  show "classifyCommand ttydBinary tmuxBinary s pid (seenArguments binary s scrollback tmuxBinary overwritten) =
      bridgeCommandCurrent"
    by (rule classify_own [OF assms(1,3-5,2)])
  fix t
  assume t: "validateCanonical store t = Inr () \<and> se_ID t \<noteq> se_ID s"
  show "classifyCommand ttydBinary tmuxBinary t pid (seenArguments binary s scrollback tmuxBinary overwritten) =
      bridgeCommandUnrelated"
    by (rule classify_other [OF assms(1,3-5) conjunct1 [OF t] conjunct2 [OF t]])
qed


theorem bridge_recognised_witness:
  "\<exists>arguments. processCommandLine (bridgeCommandLine ''/bin/ttyd'' \<lparr>se_ID = ''dev'', se_Name = ''dev'',
       se_PublicRef = replicate 32 CHR ''A'', se_TmuxName = ''dev'', se_Socket = ''/s/sockets/dev.sock'', se_PID = 0, se_CWD = ''/h'',
       se_CreatedAt = []\<rparr> 100 ''tmux'' True) = Some arguments \<and>
     classifyCommand ''ttyd'' ''tmux'' \<lparr>se_ID = ''dev'', se_Name = ''dev'', se_PublicRef = replicate 32 CHR ''A'', se_TmuxName = ''dev'',
       se_Socket = ''/s/sockets/dev.sock'', se_PID = 0, se_CWD = ''/h'', se_CreatedAt = []\<rparr> 8 arguments = bridgeCommandCurrent"
proof -
  let ?s = "\<lparr>se_ID = ''dev'', se_Name = ''dev'', se_PublicRef = replicate 32 CHR ''A'', se_TmuxName = ''dev'',
       se_Socket = ''/s/sockets/dev.sock'', se_PID = 0, se_CWD = ''/h'', se_CreatedAt = []\<rparr>"
  have "validateCanonical (NewStore ''/s'') ?s = Inr ()" "path_base ''/bin/ttyd'' = path_base ''ttyd''" by code_simp+
  from bridge_recognised [OF this, of "''tmux''" 100 True 8] show ?thesis by (simp add: NewStore_def) blast
qed

end
