(* ===== verification/Loops.thy ===== *)
theory Loops
  imports Prelude
begin

section \<open>Loops that may not end\<close>

text \<open>
  A \<^verbatim>\<open>for { ... }\<close> loop of the code waits for another process and ends only when a clock advances or an event
  occurs. Its body is a program that returns or goes round again with the values of its variables, and the loop
  is a partial function: not returning is \<open>None\<close>. The rules give what holds when it returns, and that it returns
  when a measure falls with every round.
\<close>

type_synonym ('w, 'e, 'a) partial_prog = "'w \<Rightarrow> (('e + 'a) \<times> 'w) option"

datatype ('a, 's) round = Done 'a | Again 's

partial_function (option) loopP :: "('s \<Rightarrow> ('w, 'e, ('a, 's) round) prog) \<Rightarrow> 's \<Rightarrow> ('w, 'e, 'a) partial_prog" where
  "loopP body s w =
     (case body s w of
        (Inl e, w') \<Rightarrow> Some (Inl e, w')
      | (Inr (Done x), w') \<Rightarrow> Some (Inr x, w')
      | (Inr (Again s'), w') \<Rightarrow> loopP body s' w')"

text \<open>Handling an error may give another kind of error.\<close>

definition handleP :: "('w, 'e, 'a) prog \<Rightarrow> ('e + 'a \<Rightarrow> ('w, 'f, 'b) prog) \<Rightarrow> ('w, 'f, 'b) prog" where
  "handleP p f = (\<lambda>w. case p w of (r, w') \<Rightarrow> f r w')"

definition liftO :: "('w, 'e, 'a) prog \<Rightarrow> ('w, 'e, 'a) partial_prog" where
  "liftO p = (\<lambda>w. Some (p w))"

definition bindO :: "('w, 'e, 'a) partial_prog \<Rightarrow> ('a \<Rightarrow> ('w, 'e, 'b) partial_prog) \<Rightarrow> ('w, 'e, 'b) partial_prog" where
  "bindO p f = (\<lambda>w. case p w of None \<Rightarrow> None | Some (Inl e, w') \<Rightarrow> Some (Inl e, w') | Some (Inr x, w') \<Rightarrow> f x w')"

definition tryO :: "('w, 'e, 'a) partial_prog \<Rightarrow> ('e + 'a \<Rightarrow> ('w, 'f, 'b) partial_prog) \<Rightarrow> ('w, 'f, 'b) partial_prog" where
  "tryO p f = (\<lambda>w. case p w of None \<Rightarrow> None | Some (r, w') \<Rightarrow> f r w')"

lemma bindO_lift: "bindO (liftO p) f w = (case p w of (Inl e, w') \<Rightarrow> Some (Inl e, w') | (Inr x, w') \<Rightarrow> f x w')"
  by (simp add: bindO_def liftO_def)

subsection \<open>Relations between the world before and after\<close>

text \<open>
  \<open>relates R p\<close>: whenever the program returns, the worlds before and after are related. For a reflexive and
  transitive relation this is kept by every way of composing programs. \<open>returns I p\<close>: it does return from
  every world of \<open>I\<close>, to a world of \<open>I\<close>.
\<close>

definition relates :: "('w \<Rightarrow> 'w \<Rightarrow> bool) \<Rightarrow> ('w, 'e, 'a) prog \<Rightarrow> bool" where
  "relates R p \<longleftrightarrow> (\<forall>w. R w (snd (p w)))"

definition relatesO :: "('w \<Rightarrow> 'w \<Rightarrow> bool) \<Rightarrow> ('w, 'e, 'a) partial_prog \<Rightarrow> bool" where
  "relatesO R p \<longleftrightarrow> (\<forall>w r w'. p w = Some (r, w') \<longrightarrow> R w w')"

definition returns :: "('w, 'e, 'a) partial_prog \<Rightarrow> bool" where
  "returns p \<longleftrightarrow> (\<forall>w. \<exists>r w'. p w = Some (r, w'))"

named_theorems relatesI \<open>programs that relate the worlds before and after\<close>
named_theorems returnsI \<open>programs that return\<close>

lemma relatesD: "relates R p \<Longrightarrow> p w = (r, w') \<Longrightarrow> R w w'"
  unfolding relates_def by (metis snd_conv)

lemma relatesOD: "relatesO R p \<Longrightarrow> p w = Some (r, w') \<Longrightarrow> R w w'"
  by (auto simp: relatesO_def)

lemma relates_return [relatesI]: "reflp R \<Longrightarrow> relates R (returnP x)" "reflp R \<Longrightarrow> relates R (failP e)"
  by (simp_all add: relates_def reflpD)

lemma relates_bind [relatesI]:
  "transp R \<Longrightarrow> relates R p \<Longrightarrow> (\<And>x. relates R (f x)) \<Longrightarrow> relates R (bindP p f)"
  by (auto simp: relates_def bindP_apply split: prod.splits sum.splits) (metis snd_conv transpD)+

lemma relates_try [relatesI]:
  "transp R \<Longrightarrow> relates R p \<Longrightarrow> (\<And>r. relates R (f r)) \<Longrightarrow> relates R (tryP p f)"
  by (auto simp: relates_def tryP_apply split: prod.splits) (metis snd_conv transpD)+

lemma relates_handle [relatesI]:
  "transp R \<Longrightarrow> relates R p \<Longrightarrow> (\<And>r. relates R (f r)) \<Longrightarrow> relates R (handleP p f)"
  by (auto simp: relates_def handleP_def split: prod.splits) (metis snd_conv transpD)+

lemma relatesO_lift [relatesI]: "relates R p \<Longrightarrow> relatesO R (liftO p)"
  by (auto simp: relatesO_def liftO_def dest: relatesD)

lemma relatesO_bind [relatesI]:
  "transp R \<Longrightarrow> relatesO R p \<Longrightarrow> (\<And>x. relatesO R (f x)) \<Longrightarrow> relatesO R (bindO p f)"
  by (fastforce simp: relatesO_def bindO_def split: option.splits prod.splits sum.splits dest: transpD)

lemma relatesO_try [relatesI]:
  "transp R \<Longrightarrow> relatesO R p \<Longrightarrow> (\<And>r. relatesO R (f r)) \<Longrightarrow> relatesO R (tryO p f)"
  by (fastforce simp: relatesO_def tryO_def split: option.splits prod.splits dest: transpD)

lemma returns_lift [returnsI]: "returns (liftO p)"
  by (simp add: returns_def liftO_def)

lemma returns_bind [returnsI]: "returns p \<Longrightarrow> (\<And>x. returns (f x)) \<Longrightarrow> returns (bindO p f)"
proof (unfold returns_def, rule allI)
  fix w
  assume "\<forall>w. \<exists>r w'. p w = Some (r, w')" and f: "\<And>x. \<forall>w. \<exists>r w'. f x w = Some (r, w')"
  then obtain r w' where "p w = Some (r, w')" by blast
  with f show "\<exists>r w'. bindO p f w = Some (r, w')" by (cases r) (simp_all add: bindO_def)
qed

lemma returns_try [returnsI]: "returns p \<Longrightarrow> (\<And>r. returns (f r)) \<Longrightarrow> returns (tryO p f)"
  unfolding returns_def tryO_def by (metis (no_types, lifting) case_prod_conv option.simps(5))

subsection \<open>Rules for loops\<close>

lemma loop_result:
  assumes "loopP body s w = Some (r, w')" and "I s w"
    and "\<And>s w s' w'. I s w \<Longrightarrow> body s w = (Inr (Again s'), w') \<Longrightarrow> I s' w'"
    and "\<And>s w x w'. I s w \<Longrightarrow> body s w = (Inr (Done x), w') \<Longrightarrow> Q (Inr x) w'"
    and "\<And>s w e w'. I s w \<Longrightarrow> body s w = (Inl e, w') \<Longrightarrow> Q (Inl e) w'"
  shows "Q r w'"
proof -
  have "body' = body \<longrightarrow> I s w \<longrightarrow> Q (fst p) (snd p)" if "loopP body' s w = Some p" for body' s w p
    using _ that
  proof (rule loopP.raw_induct)
    fix loop :: "('d \<Rightarrow> 'c \<Rightarrow> ('a + ('b, 'd) round) \<times> 'c) \<Rightarrow> 'd \<Rightarrow> 'c \<Rightarrow> (('a + 'b) \<times> 'c) option" and body' s w p
    assume "\<And>body' s w p. loop body' s w = Some p \<Longrightarrow> body' = body \<longrightarrow> I s w \<longrightarrow> Q (fst p) (snd p)"
      and "(case body' s w of (Inl e, w') \<Rightarrow> Some (Inl e, w') | (Inr (Done x), w') \<Rightarrow> Some (Inr x, w')
        | (Inr (Again s'), w') \<Rightarrow> loop body' s' w') = Some p"
    then show "body' = body \<longrightarrow> I s w \<longrightarrow> Q (fst p) (snd p)"
      using assms(3-5) by (fastforce split: prod.splits sum.splits round.splits)
  qed
  with assms(1,2) show ?thesis by fastforce
qed

lemma loop_returns:
  assumes "I s w"
    and "\<And>s w s' w'. I s w \<Longrightarrow> body s w = (Inr (Again s'), w') \<Longrightarrow> I s' w' \<and> (m s' w' :: nat) < m s w"
  shows "\<exists>r w'. loopP body s w = Some (r, w')"
  using assms(1)
proof (induction "m s w" arbitrary: s w rule: less_induct)
  case less
  show ?case
  proof (cases "\<exists>s' w'. body s w = (Inr (Again s'), w')")
    case True
    then obtain s' w' where "body s w = (Inr (Again s'), w')" by blast
    with less assms(2) [OF less.prems] show ?thesis by (subst loopP.simps) auto
  next
    case False
    then show ?thesis by (subst loopP.simps) (auto split: prod.splits sum.splits round.splits)
  qed
qed

end
