(* ===== verification/Bridge_Processes.thy ===== *)
theory Bridge_Processes
  imports Bridge_Commands Session_Lifecycle Loops
begin

section \<open>Terminal bridges\<close>

text \<open>
  The part of \<^verbatim>\<open>internal/session/bridge.go\<close> and \<^verbatim>\<open>pidfd_linux.go\<close> that acts: finding, starting, adopting and stopping the
  ttyd process of a session. \<open>bridgeSystem\<close> holds the calls of the operating system it makes, each a program
  over an arbitrary world in which any number of other processes run; any of them may fail. The
  map of owned processes is part of that world, since the goroutines that reap them change it at any time.
  Texts of error messages are abridged. The loops that wait are partial functions (\<open>loopP\<close>).

  The lemmas of \<open>process_world\<close> show that a signal reaches a process only after that process itself was seen to
  run the installed ttyd with a command line of the session; those of \<open>bridge_clock\<close> that every operation
  returns when the clock advances.
\<close>

subsection \<open>The operating system\<close>

type_synonym channel = nat
type_synonym fileID = "nat \<times> nat"

record fileInfo =
  fi_id :: fileID
  fi_socket :: bool
  fi_symlink :: bool

datatype errno = ESRCH | EPERM | OtherErrno string
datatype 'x reapOutcome = Reaped | Cancelled 'x | Elapsed
datatype 'x startOutcome = PathOrExecError 'x | StartFailed 'x | Started int channel
datatype contextKind = BackgroundContext | RequestContext

record ('w, 'e) bridgeSystem =
  bs_lookPath :: "string \<Rightarrow> ('w, 'e, string) lifecycle"
  bs_stat :: "string \<Rightarrow> ('w, 'e, fileInfo) lifecycle"
  bs_lstat :: "string \<Rightarrow> ('w, 'e, fileInfo) lifecycle"
  bs_readFile :: "string \<Rightarrow> ('w, 'e, string) lifecycle"
  bs_readDir :: "string \<Rightarrow> ('w, 'e, (string \<times> bool) list) lifecycle"
  bs_remove :: "string \<Rightarrow> ('w, 'e, unit) lifecycle"
  bs_mkdirAll :: "string \<Rightarrow> ('w, 'e, unit) lifecycle"
  bs_chmod :: "string \<Rightarrow> ('w, 'e, unit) lifecycle"
  bs_openLog :: "string \<Rightarrow> ('w, 'e, unit) lifecycle"
  bs_chmodLog :: "('w, 'e, unit) lifecycle"
  bs_closeLog :: "'w \<Rightarrow> 'w"
  bs_dialUnix :: "string \<Rightarrow> ('w, 'e, unit) lifecycle"
  bs_start :: "string \<Rightarrow> string list \<Rightarrow> 'w \<Rightarrow> 'e sessionError startOutcome \<times> 'w"
  bs_now :: "'w \<Rightarrow> time \<times> 'w"
  bs_pause :: "contextKind \<Rightarrow> duration \<Rightarrow> ('w, 'e, unit) lifecycle"
  bs_reaped :: "channel \<Rightarrow> 'w \<Rightarrow> bool \<times> 'w"
  bs_awaitReap :: "contextKind \<Rightarrow> channel \<Rightarrow> duration \<Rightarrow> 'w \<Rightarrow> 'e sessionError reapOutcome \<times> 'w"
  bs_pidfdOpen :: "int \<Rightarrow> ('w, errno, int) prog"
  bs_pidfdSignal :: "int \<Rightarrow> int \<Rightarrow> ('w, errno, unit) prog"
  bs_close :: "int \<Rightarrow> 'w \<Rightarrow> 'w"
  bs_owned :: "'w \<Rightarrow> (int, channel) gomap"
  bs_setOwned :: "(int, channel) gomap \<Rightarrow> 'w \<Rightarrow> 'w"

text \<open>A call without an error, as a program.\<close>

definition callP :: "('w \<Rightarrow> 'a \<times> 'w) \<Rightarrow> ('w, 'x, 'a) prog" where
  "callP c = (\<lambda>w. case c w of (x, w') \<Rightarrow> (Inr x, w'))"

definition effectP :: "('w \<Rightarrow> 'w) \<Rightarrow> ('w, 'x, unit) prog" where
  "effectP c = (\<lambda>w. (Inr (), c w))"

lemma bindP_call: "bindP (callP c) f w = (case c w of (x, w') \<Rightarrow> f x w')"
  by (simp add: bindP_apply callP_def split: prod.split)

definition SIGTERM :: int where "SIGTERM = 15"
definition SIGKILL :: int where "SIGKILL = 9"

fun errnoError :: "errno \<Rightarrow> 'e sessionError" where
  "errnoError ESRCH = OfSystem ''no such process''"
| "errnoError EPERM = OfSystem ''operation not permitted''"
| "errnoError (OtherErrno message) = OfSystem message"

text \<open>\<^verbatim>\<open>filepath.Join("/proc", strconv.Itoa(pid), name)\<close>\<close>

definition procFile :: "int \<Rightarrow> string \<Rightarrow> string" where
  "procFile pid name = ''/proc/'' @ itoa pid @ ''/'' @ name"

subsection \<open>The bridge\<close>

record processBridge =
  br_ttydBinary :: string
  br_tmuxBinary :: string
  br_logsDir :: string
  br_scrollback :: int
  br_timeout :: duration
  br_poll :: duration

definition millisecond :: duration where "millisecond = 1000000"

definition newProcessBridge :: "managerConfig \<Rightarrow> string \<Rightarrow> processBridge" where
  "newProcessBridge cfg logsDir =
     \<lparr>br_ttydBinary = mc_TtydBinary cfg, br_tmuxBinary = mc_TmuxBinary cfg, br_logsDir = logsDir,
      br_scrollback = mc_WebScrollbackLines cfg, br_timeout = mc_BridgeStartupTimeout cfg, br_poll = 50 * millisecond\<rparr>"

definition registerOwned :: "('w, 'e) bridgeSystem \<Rightarrow> int \<Rightarrow> channel \<Rightarrow> 'w \<Rightarrow> 'w" where
  "registerOwned os pid reaped w = (if pid \<le> 1 then w else bs_setOwned os (gm_put pid reaped (bs_owned os w)) w)"

definition unregisterOwned :: "('w, 'e) bridgeSystem \<Rightarrow> int \<Rightarrow> channel \<Rightarrow> 'w \<Rightarrow> 'w" where
  "unregisterOwned os pid reaped w =
     (if map_of (bs_owned os w) pid = Some reaped then bs_setOwned os (gm_del pid (bs_owned os w)) w else w)"

definition ownedProcess :: "('w, 'e) bridgeSystem \<Rightarrow> int \<Rightarrow> 'w \<Rightarrow> channel option" where
  "ownedProcess os pid w = map_of (bs_owned os w) pid"

definition waitForOwnedReap :: "('w, 'e) bridgeSystem \<Rightarrow> contextKind \<Rightarrow> channel \<Rightarrow> duration \<Rightarrow> ('w, 'e, unit) lifecycle" where
  "waitForOwnedReap os ctx reaped timeout =
     (if timeout \<le> 0 then failP (Plain ''verified ttyd process exited but its Go child was not reaped'')
      else bindP (callP (bs_awaitReap os ctx reaped timeout)) (\<lambda>outcome.
        case outcome of
          Reaped \<Rightarrow> returnP ()
        | Cancelled e \<Rightarrow> failP e
        | Elapsed \<Rightarrow> failP (Plain ''verified ttyd process exited but its Go child was not reaped'')))"

subsection \<open>Process handles\<close>

definition handle_Alive :: "('w, 'e) bridgeSystem \<Rightarrow> int \<Rightarrow> ('w, 'e, bool) lifecycle" where
  "handle_Alive os fd =
     handleP (bs_pidfdSignal os fd 0) (\<lambda>r.
       case r of
         Inr _ \<Rightarrow> returnP True
       | Inl EPERM \<Rightarrow> returnP True
       | Inl ESRCH \<Rightarrow> returnP False
       | Inl e \<Rightarrow> failP (errnoError e))"

text \<open>A signal to a process that is gone is not an error.\<close>

definition handle_Signal :: "('w, 'e) bridgeSystem \<Rightarrow> string \<Rightarrow> int \<Rightarrow> int \<Rightarrow> ('w, 'e, unit) lifecycle" where
  "handle_Signal os message fd signal =
     handleP (bs_pidfdSignal os fd signal) (\<lambda>r.
       case r of
         Inl ESRCH \<Rightarrow> returnP ()
       | Inl e \<Rightarrow> failP (Wrapped message (errnoError e))
       | Inr _ \<Rightarrow> returnP ())"

subsection \<open>Looking at processes\<close>

definition expectedExecutable :: "('w, 'e) bridgeSystem \<Rightarrow> string \<Rightarrow> ('w, 'e, fileInfo) lifecycle" where
  "expectedExecutable os binary = bindP (bs_lookPath os binary) (bs_stat os)"

definition processExecutableMatches :: "('w, 'e) bridgeSystem \<Rightarrow> int \<Rightarrow> fileInfo \<Rightarrow> ('w, 'e, bool) lifecycle" where
  "processExecutableMatches os pid expected =
     (if pid \<le> 1 then returnP False
      else tryP (bs_stat os (procFile pid ''exe'')) (\<lambda>r.
        returnP (case r of Inl _ \<Rightarrow> False | Inr actual \<Rightarrow> fi_id expected = fi_id actual)))"

definition commandLineOf :: "('w, 'e) bridgeSystem \<Rightarrow> int \<Rightarrow> ('w, 'e, string list) lifecycle" where
  "commandLineOf os pid =
     bindP (bs_readFile os (procFile pid ''cmdline'')) (\<lambda>data.
       case processCommandLine data of None \<Rightarrow> failP (Plain ''empty process command line'') | Some arguments \<Rightarrow> returnP arguments)"

definition stateOf :: "('w, 'e) bridgeSystem \<Rightarrow> int \<Rightarrow> ('w, 'e, string) lifecycle" where
  "stateOf os pid =
     bindP (bs_readFile os (procFile pid ''stat'')) (\<lambda>data.
       case processState data of None \<Rightarrow> failP (Plain ''unexpected process stat format'') | Some state \<Rightarrow> returnP state)"

definition pidKindForExecutable :: "('w, 'e) bridgeSystem \<Rightarrow> processBridge \<Rightarrow> Session \<Rightarrow> int \<Rightarrow> fileInfo \<Rightarrow>
    ('w, 'e, bridgeCommandKind) lifecycle" where
  "pidKindForExecutable os b managed pid executable =
     (if pid \<le> 1 then returnP bridgeCommandUnrelated
      else bindP (processExecutableMatches os pid executable) (\<lambda>matches.
        if \<not> matches then returnP bridgeCommandUnrelated
        else tryP (commandLineOf os pid) (\<lambda>r.
          returnP (case r of
            Inl _ \<Rightarrow> bridgeCommandUnrelated
          | Inr arguments \<Rightarrow> classifyCommand (br_ttydBinary b) (br_tmuxBinary b) managed pid arguments))))"

definition pidKind :: "('w, 'e) bridgeSystem \<Rightarrow> processBridge \<Rightarrow> Session \<Rightarrow> int \<Rightarrow> ('w, 'e, bridgeCommandKind) lifecycle" where
  "pidKind os b managed pid =
     tryP (expectedExecutable os (br_ttydBinary b)) (\<lambda>r.
       case r of Inl _ \<Rightarrow> returnP bridgeCommandUnrelated | Inr executable \<Rightarrow> pidKindForExecutable os b managed pid executable)"

definition pidVerified :: "('w, 'e) bridgeSystem \<Rightarrow> processBridge \<Rightarrow> Session \<Rightarrow> int \<Rightarrow> ('w, 'e, bool) lifecycle" where
  "pidVerified os b managed pid = bindP (pidKind os b managed pid) (\<lambda>kind. returnP (kind = bridgeCommandCurrent))"

definition processAlive :: "('w, 'e) bridgeSystem \<Rightarrow> (int \<Rightarrow> int \<Rightarrow> ('w, errno, unit) prog) \<Rightarrow> int \<Rightarrow> ('w, 'e, bool) lifecycle" where
  "processAlive os kill pid =
     (if pid \<le> 1 then returnP False
      else tryP (stateOf os pid) (\<lambda>r.
        if r = Inr ''Z'' then returnP False
        else handleP (kill pid 0) (\<lambda>r. returnP (r = Inr () \<or> r = Inl EPERM))))"

text \<open>The processes among the entries of \<^verbatim>\<open>/proc\<close>.\<close>

fun scanEntries :: "('w, 'e) bridgeSystem \<Rightarrow> processBridge \<Rightarrow> Session \<Rightarrow> fileInfo \<Rightarrow> (string \<times> bool) list \<Rightarrow>
    verifiedBridgeProcesses \<Rightarrow> ('w, 'e, verifiedBridgeProcesses) lifecycle" where
  "scanEntries os b managed executable [] verified = returnP verified"
| "scanEntries os b managed executable ((name, isDir) # entries) verified =
     (case if isDir then parse_int name else None of
        None \<Rightarrow> scanEntries os b managed executable entries verified
      | Some pid \<Rightarrow>
          if pid \<le> 1 then scanEntries os b managed executable entries verified
          else bindP (pidKindForExecutable os b managed pid executable) (\<lambda>kind.
            scanEntries os b managed executable entries (vp_add pid kind verified)))"

definition verifiedProcesses :: "('w, 'e) bridgeSystem \<Rightarrow> processBridge \<Rightarrow> Session \<Rightarrow> ('w, 'e, verifiedBridgeProcesses) lifecycle" where
  "verifiedProcesses os b managed =
     (let none = \<lparr>vp_current = [], vp_legacy = []\<rparr> in
      tryP (expectedExecutable os (br_ttydBinary b)) (\<lambda>r.
        case r of
          Inl _ \<Rightarrow> returnP none
        | Inr executable \<Rightarrow>
            tryP (bs_readDir os ''/proc'') (\<lambda>r.
              case r of
                Inl _ \<Rightarrow> bindP (pidKindForExecutable os b managed (se_PID managed) executable) (\<lambda>kind.
                  returnP (vp_add (se_PID managed) kind none))
              | Inr entries \<Rightarrow> bindP (scanEntries os b managed executable entries none) (\<lambda>verified.
                  returnP \<lparr>vp_current = sort (vp_current verified), vp_legacy = sort (vp_legacy verified)\<rparr>))))"

text \<open>A handle of the process, if it is a bridge of the session: checked after it was opened, and found alive after the check.\<close>

definition openVerifiedHandle :: "('w, 'e) bridgeSystem \<Rightarrow> processBridge \<Rightarrow> Session \<Rightarrow> int \<Rightarrow> ('w, 'e, int option) lifecycle" where
  "openVerifiedHandle os b managed pid =
     (if pid \<le> 1 then returnP None
      else handleP (bs_pidfdOpen os pid) (\<lambda>r.
        case r of
          Inl ESRCH \<Rightarrow> returnP None
        | Inl e \<Rightarrow> failP (Wrapped ''pidfd_open process'' (errnoError e))
        | Inr fd \<Rightarrow>
            let refuse = bindP (effectP (bs_close os fd)) (\<lambda>_. returnP None) in
            tryP (bindP (expectedExecutable os (br_ttydBinary b)) (processExecutableMatches os pid)) (\<lambda>r.
              if r \<noteq> Inr True then refuse
              else tryP (commandLineOf os pid) (\<lambda>r.
                if (case r of Inl _ \<Rightarrow> True | Inr arguments \<Rightarrow>
                    classifyCommand (br_ttydBinary b) (br_tmuxBinary b) managed pid arguments = bridgeCommandUnrelated)
                then refuse
                else tryP (handle_Alive os fd) (\<lambda>r.
                  case r of
                    Inl e \<Rightarrow> bindP (effectP (bs_close os fd)) (\<lambda>_. failP e)
                  | Inr False \<Rightarrow> refuse
                  | Inr True \<Rightarrow> returnP (Some fd))))))"


subsection \<open>Stopping\<close>

definition deferClose :: "('w, 'e) bridgeSystem \<Rightarrow> int \<Rightarrow> ('w, 'x, 'a) partial_prog \<Rightarrow> ('w, 'x, 'a) partial_prog" where
  "deferClose os fd body = (\<lambda>w. case body w of None \<Rightarrow> None | Some (r, w') \<Rightarrow> Some (r, bs_close os fd w'))"

definition pauseAgain :: "('w, 'e) bridgeSystem \<Rightarrow> contextKind \<Rightarrow> duration \<Rightarrow> 's \<Rightarrow> ('w, 'e, ('a, 's) round) lifecycle" where
  "pauseAgain os ctx d s = bindP (bs_pause os ctx d) (\<lambda>_. returnP (Again s))"

text \<open>
  One round of the loop that waits for the end of a process: \<open>deadline\<close> and \<open>killSent\<close> are its variables. The
  process has ended when its owner has reaped it, when it is a zombie of another owner, or when the handle finds
  it gone.
\<close>

definition roundGone :: "('w, 'e) bridgeSystem \<Rightarrow> contextKind \<Rightarrow> channel option \<Rightarrow> time \<Rightarrow>
    ('w, 'e, (unit, time \<times> bool) round) lifecycle" where
  "roundGone os ctx owned deadline =
     (case owned of
        None \<Rightarrow> returnP (Done ())
      | Some reaped \<Rightarrow> bindP (callP (bs_now os)) (\<lambda>now.
          bindP (waitForOwnedReap os ctx reaped (time_sub deadline now)) (\<lambda>_. returnP (Done ()))))"

definition roundZombie :: "('w, 'e) bridgeSystem \<Rightarrow> contextKind \<Rightarrow> channel option \<Rightarrow> time \<times> bool \<Rightarrow>
    ('w, 'e, (unit, time \<times> bool) round) lifecycle" where
  "roundZombie os ctx owned st =
     (if owned = None then returnP (Done ())
      else bindP (callP (bs_now os)) (\<lambda>now.
        if now > fst st then failP (Plain ''verified ttyd process exited but its Go child was not reaped'')
        else pauseAgain os ctx (20 * millisecond) st))"

definition roundAlive :: "('w, 'e) bridgeSystem \<Rightarrow> contextKind \<Rightarrow> int \<Rightarrow> time \<times> bool \<Rightarrow>
    ('w, 'e, (unit, time \<times> bool) round) lifecycle" where
  "roundAlive os ctx fd st =
     bindP (callP (bs_now os)) (\<lambda>now.
       if now > fst st then
         if snd st then failP (Plain ''verified ttyd process did not stop after SIGKILL'')
         else bindP (handle_Signal os ''kill verified ttyd process'' fd SIGKILL) (\<lambda>_.
           bindP (callP (bs_now os)) (\<lambda>now'. pauseAgain os ctx (20 * millisecond) (now' + second, True)))
       else pauseAgain os ctx (20 * millisecond) st)"

definition stopRound :: "('w, 'e) bridgeSystem \<Rightarrow> contextKind \<Rightarrow> channel option \<Rightarrow> int \<Rightarrow> int \<Rightarrow> time \<times> bool \<Rightarrow>
    ('w, 'e, (unit, time \<times> bool) round) lifecycle" where
  "stopRound os ctx owned pid fd st =
     bindP (case owned of None \<Rightarrow> returnP False | Some reaped \<Rightarrow> callP (bs_reaped os reaped)) (\<lambda>done.
       if done then returnP (Done ())
       else tryP (stateOf os pid) (\<lambda>r.
         if r = Inr ''Z'' then roundZombie os ctx owned st
         else tryP (handle_Alive os fd) (\<lambda>r.
           case r of
             Inl e \<Rightarrow> failP (Wrapped ''check verified ttyd process'' e)
           | Inr False \<Rightarrow> roundGone os ctx owned (fst st)
           | Inr True \<Rightarrow> roundAlive os ctx fd st)))"

definition stopVerifiedPID :: "('w, 'e) bridgeSystem \<Rightarrow> processBridge \<Rightarrow> contextKind \<Rightarrow> Session \<Rightarrow> int \<Rightarrow>
    ('w, 'e sessionError, unit) partial_prog" where
  "stopVerifiedPID os b ctx managed pid = (\<lambda>w.
     let owned = ownedProcess os pid w in
     bindO (liftO (openVerifiedHandle os b managed pid)) (\<lambda>handle.
       case handle of
         None \<Rightarrow> (case owned of Some reaped \<Rightarrow> liftO (waitForOwnedReap os ctx reaped second) | None \<Rightarrow> liftO (returnP ()))
       | Some fd \<Rightarrow> deferClose os fd
           (bindO (liftO (handle_Signal os ''stop verified ttyd process'' fd SIGTERM)) (\<lambda>_.
            bindO (liftO (callP (bs_now os))) (\<lambda>now.
              loopP (stopRound os ctx owned pid fd) (now + second, False))))) w)"

text \<open>\<^verbatim>\<open>Stop\<close> tries every process and joins the errors.\<close>

fun stopEach :: "('w, 'e) bridgeSystem \<Rightarrow> processBridge \<Rightarrow> contextKind \<Rightarrow> Session \<Rightarrow> int list \<Rightarrow>
    ('w, 'x, 'e sessionError list) partial_prog" where
  "stopEach os b ctx managed [] = liftO (returnP [])"
| "stopEach os b ctx managed (pid # pids) =
     tryO (stopVerifiedPID os b ctx managed pid) (\<lambda>r.
       bindO (stopEach os b ctx managed pids) (\<lambda>errs.
         liftO (returnP (case r of Inl e \<Rightarrow> e # errs | Inr _ \<Rightarrow> errs))))"

definition bridge_Stop :: "('w, 'e) bridgeSystem \<Rightarrow> processBridge \<Rightarrow> contextKind \<Rightarrow> Session \<Rightarrow>
    ('w, 'e sessionError, unit) partial_prog" where
  "bridge_Stop os b ctx managed =
     bindO (liftO (verifiedProcesses os b managed)) (\<lambda>verified.
     bindO (stopEach os b ctx managed (vp_all verified)) (\<lambda>errs.
       liftO (if errs = [] then returnP () else failP (Joined errs))))"

subsection \<open>Starting\<close>

definition socketReady :: "('w, 'e) bridgeSystem \<Rightarrow> string \<Rightarrow> ('w, 'e, bool) lifecycle" where
  "socketReady os path =
     tryP (bs_stat os path) (\<lambda>r.
       case r of
         Inl _ \<Rightarrow> returnP False
       | Inr info \<Rightarrow>
           if \<not> fi_socket info then returnP False
           else tryP (bs_dialUnix os path) (\<lambda>r. returnP (\<not> isl r)))"

definition secureSocket :: "('w, 'e) bridgeSystem \<Rightarrow> string \<Rightarrow> ('w, 'e, unit) lifecycle" where
  "secureSocket os path =
     bindP (mapErr (Wrapped ''inspect ttyd unix socket'') (bs_lstat os path)) (\<lambda>info.
       if fi_symlink info \<or> \<not> fi_socket info then failP (Plain ''ttyd endpoint is not a direct unix socket'')
       else mapErr (Wrapped ''set ttyd unix socket permissions'') (bs_chmod os path))"

text \<open>A process started in vain is stopped; the error of that is dropped.\<close>

definition giveUp :: "('w, 'e) bridgeSystem \<Rightarrow> processBridge \<Rightarrow> Session \<Rightarrow> int \<Rightarrow> 'e sessionError \<Rightarrow>
    ('w, 'e sessionError, 'a) partial_prog" where
  "giveUp os b managed pid e = tryO (stopVerifiedPID os b BackgroundContext managed pid) (\<lambda>_. liftO (failP e))"

text \<open>How the wait for the socket ends: the process is ready, was reaped, or has to be given up.\<close>

datatype 'x startResult = StartReady | StartDead | StartGiveUp 'x

definition startRound :: "('w, 'e) bridgeSystem \<Rightarrow> processBridge \<Rightarrow> contextKind \<Rightarrow> Session \<Rightarrow> int \<Rightarrow> channel \<Rightarrow> time \<Rightarrow> unit \<Rightarrow>
    ('w, 'e, ('e sessionError startResult, unit) round) lifecycle" where
  "startRound os b ctx managed pid reaped deadline _ =
     (let failed = lifecycleError ErrorBridgeIncomplete ''start bridge'' (se_ID managed) in
      bindP (bindP (socketReady os (se_Socket managed)) (\<lambda>ready.
          if ready then pidVerified os b managed pid else returnP False)) (\<lambda>verified.
      if verified then
        tryP (secureSocket os (se_Socket managed)) (\<lambda>r.
          case r of
            Inl e \<Rightarrow> returnP (Done (StartGiveUp
              (lifecycleError ErrorBridgeIncomplete ''secure bridge socket'' (se_ID managed) (Some e))))
          | Inr _ \<Rightarrow> returnP (Done StartReady))
      else
        bindP (callP (bs_reaped os reaped)) (\<lambda>dead.
        if dead then returnP (Done StartDead)
        else bindP (callP (bs_now os)) (\<lambda>now.
        if now > deadline then returnP (Done (StartGiveUp (failed (Some (Plain ''timed out waiting for ttyd unix socket'')))))
        else tryP (bs_pause os ctx (br_poll b)) (\<lambda>r.
          case r of Inl e \<Rightarrow> returnP (Done (StartGiveUp (failed (Some e)))) | Inr _ \<Rightarrow> returnP (Again ()))))))"

definition openBridgeLog :: "('w, 'e) bridgeSystem \<Rightarrow> processBridge \<Rightarrow> Session \<Rightarrow> ('w, 'e, unit) lifecycle" where
  "openBridgeLog os b managed =
     (let failed = (\<lambda>message e. lifecycleError ErrorDependency ''start bridge'' (se_ID managed) (Some (Wrapped message e))) in
      bindP (mapErr (failed ''create bridge log directory'') (bs_mkdirAll os (br_logsDir b))) (\<lambda>_.
      bindP (mapErr (failed ''set bridge log directory permissions'') (bs_chmod os (br_logsDir b))) (\<lambda>_.
      bindP (mapErr (failed ''open bridge log'') (bs_openLog os (path_join [br_logsDir b, se_ID managed @ ''.log'']))) (\<lambda>_.
        tryP (bs_chmodLog os) (\<lambda>r.
          case r of
            Inl e \<Rightarrow> bindP (effectP (bs_closeLog os)) (\<lambda>_. failP (failed ''set bridge log permissions'' e))
          | Inr _ \<Rightarrow> returnP ())))))"

definition launch :: "('w, 'e) bridgeSystem \<Rightarrow> processBridge \<Rightarrow> Session \<Rightarrow> ('w, 'e, int \<times> channel) lifecycle" where
  "launch os b managed =
     (let failed = (\<lambda>kind message e. lifecycleError kind ''start bridge'' (se_ID managed) (Some (Wrapped message e))) in
      bindP (callP (bs_start os (br_ttydBinary b) (bridgeArguments managed (br_scrollback b) (br_tmuxBinary b)))) (\<lambda>outcome.
        case outcome of
          PathOrExecError e \<Rightarrow> bindP (effectP (bs_closeLog os)) (\<lambda>_. failP (failed ErrorDependency ''execute ttyd'' e))
        | StartFailed e \<Rightarrow> bindP (effectP (bs_closeLog os)) (\<lambda>_. failP (failed ErrorBridgeIncomplete ''ttyd failed to start'' e))
        | Started pid reaped \<Rightarrow>
            bindP (effectP (registerOwned os pid reaped)) (\<lambda>_.
            bindP (effectP (bs_closeLog os)) (\<lambda>_. returnP (pid, reaped)))))"

definition bridge_start :: "('w, 'e) bridgeSystem \<Rightarrow> processBridge \<Rightarrow> contextKind \<Rightarrow> Session \<Rightarrow>
    ('w, 'e sessionError, int) partial_prog" where
  "bridge_start os b ctx managed =
     (let failed = lifecycleError ErrorBridgeIncomplete ''start bridge'' (se_ID managed) in
      if length (se_Socket managed) > 100 then liftO (failP (failed (Some (Plain ''unix socket path is too long''))))
      else
        bindO (liftO (openBridgeLog os b managed)) (\<lambda>_.
        bindO (liftO (launch os b managed)) (\<lambda>(pid, reaped).
        bindO (liftO (callP (bs_now os))) (\<lambda>now.
        bindO (loopP (startRound os b ctx managed pid reaped (now + br_timeout b)) ()) (\<lambda>result.
          case result of
            StartReady \<Rightarrow> liftO (returnP pid)
          | StartDead \<Rightarrow> liftO (failP (failed (Some (Plain ''ttyd exited before its socket was ready''))))
          | StartGiveUp e \<Rightarrow> giveUp os b managed pid e)))))"

subsection \<open>Ensuring a bridge\<close>

fun stopAll :: "('w, 'e) bridgeSystem \<Rightarrow> processBridge \<Rightarrow> contextKind \<Rightarrow> Session \<Rightarrow> int list \<Rightarrow>
    ('w, 'e sessionError, unit) partial_prog" where
  "stopAll os b ctx managed [] = liftO (returnP ())"
| "stopAll os b ctx managed (pid # pids) =
     tryO (stopVerifiedPID os b ctx managed pid) (\<lambda>r.
       case r of
         Inl e \<Rightarrow> liftO (failP (lifecycleError ErrorDependency ''replace bridge'' (se_ID managed) (Some e)))
       | Inr _ \<Rightarrow> stopAll os b ctx managed pids)"

definition removeSocket :: "('w, 'e) bridgeSystem \<Rightarrow> Session \<Rightarrow> ('w, 'e, unit) lifecycle" where
  "removeSocket os managed =
     tryP (bs_remove os (se_Socket managed)) (\<lambda>r.
       case r of
         Inl e \<Rightarrow> if errors_Is is_notExist e then returnP ()
           else failP (lifecycleError ErrorDependency ''replace bridge'' (se_ID managed) (Some (Wrapped ''remove stale socket'' e)))
       | Inr _ \<Rightarrow> returnP ())"

definition bridge_Ensure :: "('w, 'e) bridgeSystem \<Rightarrow> processBridge \<Rightarrow> contextKind \<Rightarrow> Session \<Rightarrow>
    ('w, 'e sessionError, int) partial_prog" where
  "bridge_Ensure os b ctx managed =
     bindO (liftO (verifiedProcesses os b managed)) (\<lambda>verified.
     bindO (liftO (socketReady os (se_Socket managed))) (\<lambda>ready.
       let (keep, stop) = reconcilePlan verified (se_PID managed) ready in
       bindO (stopAll os b (if keep \<noteq> 0 then BackgroundContext else ctx) managed stop) (\<lambda>_.
         if keep \<noteq> 0 then
           liftO (bindP (mapErr (\<lambda>e. lifecycleError ErrorBridgeIncomplete ''secure bridge socket'' (se_ID managed) (Some e))
             (secureSocket os (se_Socket managed))) (\<lambda>_. returnP keep))
         else bindO (liftO (removeSocket os managed)) (\<lambda>_. bridge_start os b ctx managed))))"


subsection \<open>Whom signals reach\<close>

text \<open>
  What the operating system promises about processes. \<open>evolves w w'\<close>: the world may become \<open>w'\<close> while other processes
  run. \<open>holder w pid\<close> is the process with that identifier, which keeps it until it is reaped (\<open>gone\<close>);
  \<open>handleOf w fd\<close> is the process of an open handle; \<open>fileAt w path\<close> is the file a path leads to, where
  \<^verbatim>\<open>/proc/<pid>/exe\<close> leads to the program the holder runs (\<open>runs\<close>) and \<^verbatim>\<open>/proc/<pid>/cmdline\<close> reads its command line
  (\<open>command\<close>). \<open>delivered w\<close> lists the signals this program has delivered. A handle stays with its process until it is
  closed, and a signal through it is delivered only to this process, while it is not reaped.
\<close>

definition calm :: "('w \<Rightarrow> 'w \<Rightarrow> bool) \<Rightarrow> ('w \<Rightarrow> int \<rightharpoonup> 'p) \<Rightarrow> ('w \<Rightarrow> ('p \<times> int) list) \<Rightarrow> 'w \<Rightarrow> 'w \<Rightarrow> bool" where
  "calm evolves handleOf delivered w w' \<longleftrightarrow>
     evolves w w' \<and> delivered w' = delivered w \<and> (\<forall>fd p. handleOf w fd = Some p \<longrightarrow> handleOf w' fd = Some p)"

text \<open>
  Between \<open>w0\<close> and \<open>w\<close> the process was seen to run the file that the search path gives for ttyd, and to have a
  command line of the session.
\<close>

definition seen_bridge :: "('w, 'e) bridgeSystem \<Rightarrow> ('w \<Rightarrow> 'w \<Rightarrow> bool) \<Rightarrow> ('w \<Rightarrow> int \<rightharpoonup> 'p) \<Rightarrow> ('w \<Rightarrow> string \<rightharpoonup> fileID) \<Rightarrow>
    ('w \<Rightarrow> 'p \<Rightarrow> fileID) \<Rightarrow> ('w \<Rightarrow> 'p \<Rightarrow> string) \<Rightarrow> processBridge \<Rightarrow> Session \<Rightarrow> 'w \<Rightarrow> 'w \<Rightarrow> 'p \<Rightarrow> bool" where
  "seen_bridge os evolves holder fileAt runs command b s w0 w p \<longleftrightarrow>
     (\<exists>path u u' v x y pid arguments.
        evolves w0 u \<and> bs_lookPath os (br_ttydBinary b) u = (Inr path, u') \<and> evolves u' v \<and> fileAt v path = Some (runs x p) \<and>
        evolves v x \<and> holder x pid = Some p \<and> evolves x y \<and> holder y pid = Some p \<and> evolves y w \<and>
        processCommandLine (command y p) = Some arguments \<and>
        classifyCommand (br_ttydBinary b) (br_tmuxBinary b) s pid arguments \<noteq> bridgeCommandUnrelated)"

locale process_world =
  fixes os :: "('w, 'e) bridgeSystem"
    and evolves :: "'w \<Rightarrow> 'w \<Rightarrow> bool"
    and gone :: "'w \<Rightarrow> 'p \<Rightarrow> bool"
    and holder :: "'w \<Rightarrow> int \<rightharpoonup> 'p"
    and handleOf :: "'w \<Rightarrow> int \<rightharpoonup> 'p"
    and fileAt :: "'w \<Rightarrow> string \<rightharpoonup> fileID"
    and runs :: "'w \<Rightarrow> 'p \<Rightarrow> fileID"
    and command :: "'w \<Rightarrow> 'p \<Rightarrow> string"
    and delivered :: "'w \<Rightarrow> ('p \<times> int) list"
  assumes evolves_refl: "evolves w w"
    and evolves_trans: "evolves w w1 \<Longrightarrow> evolves w1 w2 \<Longrightarrow> evolves w w2"
    and gone_forever: "evolves w w' \<Longrightarrow> gone w p \<Longrightarrow> gone w' p"
    and holder_stays: "evolves w w' \<Longrightarrow> holder w pid = Some p \<Longrightarrow> \<not> gone w' p \<Longrightarrow> holder w' pid = Some p"
    and proc_exe: "fileAt w (procFile pid ''exe'') = Some f \<Longrightarrow> \<exists>p. holder w pid = Some p \<and> runs w p = f"
    and stat_reads: "bs_stat os path w = (Inr info, w') \<Longrightarrow> fileAt w' path = Some (fi_id info)"
    and cmdline_reads: "bs_readFile os (procFile pid ''cmdline'') w = (Inr data, w') \<Longrightarrow>
      \<exists>p. holder w' pid = Some p \<and> command w' p = data"
    and open_handle: "bs_pidfdOpen os pid w = (Inr fd, w') \<Longrightarrow> \<exists>p. handleOf w' fd = Some p \<and> holder w' pid = Some p"
    and signal_evolves: "bs_pidfdSignal os fd sig w = (res, w') \<Longrightarrow> evolves w w' \<and>
      (\<forall>fd' p'. handleOf w fd' = Some p' \<longrightarrow> handleOf w' fd' = Some p') \<and>
      (delivered w' = delivered w \<or> (\<exists>p. handleOf w fd = Some p \<and> delivered w' = delivered w @ [(p, sig)]))"
    and signal_alive: "bs_pidfdSignal os fd 0 w = (res, w') \<Longrightarrow> handleOf w fd = Some p \<Longrightarrow>
      res = Inr () \<or> res = Inl EPERM \<Longrightarrow> \<not> gone w' p"
    and close_evolves: "evolves w (bs_close os fd w) \<and> delivered (bs_close os fd w) = delivered w"
    and calm_files: "relates (calm evolves handleOf delivered) (bs_lookPath os path)"
      "relates (calm evolves handleOf delivered) (bs_stat os path)"
      "relates (calm evolves handleOf delivered) (bs_lstat os path)"
      "relates (calm evolves handleOf delivered) (bs_readFile os path)"
      "relates (calm evolves handleOf delivered) (bs_readDir os path)"
      "relates (calm evolves handleOf delivered) (bs_remove os path)"
      "relates (calm evolves handleOf delivered) (bs_mkdirAll os path)"
      "relates (calm evolves handleOf delivered) (bs_chmod os path)"
      "relates (calm evolves handleOf delivered) (bs_openLog os path)"
      "relates (calm evolves handleOf delivered) (bs_chmodLog os)"
      "relates (calm evolves handleOf delivered) (bs_dialUnix os path)"
    and calm_time: "relates (calm evolves handleOf delivered) (bs_pause os ctx d)"
      "relates (calm evolves handleOf delivered) (bs_pidfdOpen os pid)"
      "calm evolves handleOf delivered w (snd (bs_now os w))"
      "calm evolves handleOf delivered w (snd (bs_reaped os c w))"
      "calm evolves handleOf delivered w (snd (bs_awaitReap os ctx c d w))"
      "calm evolves handleOf delivered w (snd (bs_start os binary arguments w))"
      "calm evolves handleOf delivered w (bs_closeLog os w)"
      "calm evolves handleOf delivered w (bs_setOwned os m w)"
begin

abbreviation still :: "'w \<Rightarrow> 'w \<Rightarrow> bool" where
  "still \<equiv> calm evolves handleOf delivered"

lemma still_preorder: "reflp still" "transp still"
  by (auto simp: calm_def reflp_def transp_def evolves_refl intro: evolves_trans)

lemma still_call: "(\<And>w. still w (snd (c w))) \<Longrightarrow> relates still (callP c)"
  by (auto simp: relates_def callP_def split: prod.splits) (metis snd_conv)

lemma still_effect: "(\<And>w. still w (f w)) \<Longrightarrow> relates still (effectP f)"
  by (simp add: relates_def effectP_def)

lemma still_mapErr: "relates still p \<Longrightarrow> relates still (mapErr f p)"
  by (auto simp: relates_def mapErr_def split: prod.splits sum.splits) (metis snd_conv)+

lemmas stillI = relates_return [OF still_preorder(1)] relates_bind [OF still_preorder(2)]
  relates_try [OF still_preorder(2)] still_mapErr calm_files calm_time(1,2)
  still_call [OF calm_time(3)] still_call [OF calm_time(4)] still_call [OF calm_time(5)] still_call [OF calm_time(6)]
  still_effect [OF calm_time(7)]

text \<open>Looking at processes disturbs nothing.\<close>

lemma still_looks:
  "relates still (expectedExecutable os binary)"
  "relates still (processExecutableMatches os pid info)"
  "relates still (commandLineOf os pid)"
  "relates still (stateOf os pid)"
  by (auto simp: expectedExecutable_def processExecutableMatches_def commandLineOf_def stateOf_def
      intro!: stillI split: option.splits)

lemma still_kind: "relates still (pidKindForExecutable os b s pid info)" "relates still (pidKind os b s pid)"
  "relates still (pidVerified os b s pid)"
proof -
  show kind: "relates still (pidKindForExecutable os b s pid info)" for info
    by (auto simp: pidKindForExecutable_def intro!: stillI still_looks)
  show "relates still (pidKind os b s pid)"
    by (auto simp: pidKind_def intro!: stillI still_looks kind split: sum.splits)
  then show "relates still (pidVerified os b s pid)" by (auto simp: pidVerified_def intro!: stillI)
qed

lemma still_scan: "relates still (scanEntries os b s info entries verified)"
proof (induction entries arbitrary: verified)
  case Nil
  show ?case unfolding scanEntries.simps by (rule stillI)
next
  case (Cons entry entries)
  then show ?case
    by (cases entry) (auto intro!: stillI still_kind split: option.splits)
qed

lemma still_verified: "relates still (verifiedProcesses os b s)"
  by (auto simp: verifiedProcesses_def Let_def intro!: stillI still_looks still_kind still_scan split: sum.splits)

lemma still_wait: "relates still (waitForOwnedReap os ctx c d)"
  by (auto simp: waitForOwnedReap_def intro!: stillI split: reapOutcome.splits)

lemma still_socket: "relates still (socketReady os path)" "relates still (secureSocket os path)"
  by (auto simp: socketReady_def secureSocket_def intro!: stillI split: sum.splits)

text \<open>From \<open>w0\<close> to \<open>w\<close> only bridges of the session were sent a signal.\<close>

abbreviation bridge_process :: "processBridge \<Rightarrow> Session \<Rightarrow> 'w \<Rightarrow> 'w \<Rightarrow> 'p \<Rightarrow> bool" where
  "bridge_process \<equiv> seen_bridge os evolves holder fileAt runs command"

definition honest :: "processBridge \<Rightarrow> Session \<Rightarrow> 'w \<Rightarrow> 'w \<Rightarrow> bool" where
  "honest b s w0 w \<longleftrightarrow> evolves w0 w \<and>
     (\<exists>sent. delivered w = delivered w0 @ sent \<and> (\<forall>(p, sig) \<in> set sent. sig \<noteq> 0 \<longrightarrow> bridge_process b s w0 w p))"

lemma bridge_process_mono:
  "bridge_process b s w1 w2 p \<Longrightarrow> evolves w0 w1 \<Longrightarrow> evolves w2 w3 \<Longrightarrow> bridge_process b s w0 w3 p"
  unfolding seen_bridge_def by (meson evolves_trans)

lemma honest_preorder: "reflp (honest b s)" "transp (honest b s)"
proof -
  show "reflp (honest b s)" by (auto simp: reflp_def honest_def evolves_refl)
  show "transp (honest b s)"
  proof (rule transpI)
    fix w0 w1 w2
    assume "honest b s w0 w1" "honest b s w1 w2"
    then obtain sent1 sent2 where "evolves w0 w1" "evolves w1 w2" "delivered w1 = delivered w0 @ sent1"
      "delivered w2 = delivered w1 @ sent2"
      "\<forall>(p, sig) \<in> set sent1. sig \<noteq> 0 \<longrightarrow> bridge_process b s w0 w1 p"
      "\<forall>(p, sig) \<in> set sent2. sig \<noteq> 0 \<longrightarrow> bridge_process b s w1 w2 p"
      by (auto simp: honest_def)
    then show "honest b s w0 w2"
      unfolding honest_def
      by (intro conjI exI [of _ "sent1 @ sent2"])
        (auto intro: evolves_trans bridge_process_mono evolves_refl)
  qed
qed

lemma still_honest: "still w w' \<Longrightarrow> honest b s w w'"
  by (auto simp: calm_def honest_def)

lemma relates_still_honest: "relates still p \<Longrightarrow> relates (honest b s) p"
  by (auto simp: relates_def still_honest)

lemma honest_trans: "honest b s w0 w1 \<Longrightarrow> honest b s w1 w2 \<Longrightarrow> honest b s w0 w2"
  using honest_preorder(2) by (rule transpD)

lemma honest_close: "honest b s w (bs_close os fd w)"
  using close_evolves [of w fd] by (auto simp: honest_def)

text \<open>A handle whose process is known to be a bridge of the session; signals through it are honest.\<close>

definition verifiedHandle :: "processBridge \<Rightarrow> Session \<Rightarrow> 'w \<Rightarrow> 'w \<Rightarrow> int \<Rightarrow> bool" where
  "verifiedHandle b s w0 w fd \<longleftrightarrow> honest b s w0 w \<and> (\<exists>p. handleOf w fd = Some p \<and> bridge_process b s w0 w p)"

lemma verified_still: "verifiedHandle b s w0 w fd \<Longrightarrow> still w w' \<Longrightarrow> verifiedHandle b s w0 w' fd"
  unfolding verifiedHandle_def
  by (auto simp: calm_def intro: honest_trans [OF _ still_honest] bridge_process_mono evolves_refl)

lemma verified_signal:
  assumes "verifiedHandle b s w0 w fd" "bs_pidfdSignal os fd sig w = (r, w')"
  shows "verifiedHandle b s w0 w' fd"
proof -
  obtain p where p: "handleOf w fd = Some p" "bridge_process b s w0 w p" and "honest b s w0 w"
    using assms(1) by (auto simp: verifiedHandle_def)
  then obtain sent where sent: "evolves w0 w" "delivered w = delivered w0 @ sent"
    "\<forall>(p, sig) \<in> set sent. sig \<noteq> 0 \<longrightarrow> bridge_process b s w0 w p" by (auto simp: honest_def)
  note signal = signal_evolves [OF assms(2)]
  have later: "bridge_process b s w0 w' q" if "bridge_process b s w0 w q" for q
    by (rule bridge_process_mono [OF that evolves_refl]) (use signal in blast)
  have "\<exists>more. delivered w' = delivered w0 @ sent @ more \<and> set more \<subseteq> {(p, sig)}"
    using signal p(1) sent(2) by (metis append.assoc append_Nil2 empty_subsetI list.set(1) list.simps(15) option.inject order_refl)
  then obtain more where "delivered w' = delivered w0 @ sent @ more" "set more \<subseteq> {(p, sig)}" by blast
  then have "honest b s w0 w'"
    unfolding honest_def using signal sent(1,3) later p(2)
    by (intro conjI exI [of _ "sent @ more"]) (auto intro: evolves_trans)
  with signal p later show ?thesis by (auto simp: verifiedHandle_def)
qed

lemma evolves_call: "relates still p \<Longrightarrow> p w = (r, w') \<Longrightarrow> evolves w w'"
  by (drule relatesD) (auto simp: calm_def)

lemma honest_alive: "relates (honest b s) (handle_Alive os fd)"
proof -
  have "honest b s w w'" if "bs_pidfdSignal os fd 0 w = (r, w')" for w r w'
    using signal_evolves [OF that] by (auto simp: honest_def)
  then have "relates (honest b s) (bs_pidfdSignal os fd 0)"
    unfolding relates_def by (metis prod.collapse)
  then show ?thesis
    by (auto simp: handle_Alive_def intro!: relates_handle honest_preorder relates_return split: sum.splits errno.splits)
qed

lemmas honestI = relates_return [OF honest_preorder(1)] relates_bind [OF honest_preorder(2)]
  relates_try [OF honest_preorder(2)] relates_handle [OF honest_preorder(2)] honest_alive
  calm_files [THEN relates_still_honest] calm_time(1,2) [THEN relates_still_honest]
  still_looks [THEN relates_still_honest] still_verified [THEN relates_still_honest]
  still_wait [THEN relates_still_honest] still_socket [THEN relates_still_honest]
  still_kind [THEN relates_still_honest]

lemma honest_open: "relates (honest b s) (openVerifiedHandle os b t pid)"
proof -
  have "relates (honest b s) (effectP (bs_close os fd))" for fd
    by (simp add: relates_def effectP_def honest_close)
  then show ?thesis
    unfolding openVerifiedHandle_def Let_def
    by (auto intro!: honestI calm_time(2) [THEN relates_still_honest] split: sum.splits errno.splits bool.splits)
qed

lemma alive_true:
  assumes "handle_Alive os fd w = (Inr True, w')" "handleOf w fd = Some p"
  shows "\<not> gone w' p"
proof -
  obtain r w1 where r: "bs_pidfdSignal os fd 0 w = (r, w1)" by fastforce
  with assms(1) have "w1 = w'" "r = Inr () \<or> r = Inl EPERM"
    by (auto simp: handle_Alive_def handleP_def split: sum.splits errno.splits)
  with signal_alive [OF r assms(2)] show ?thesis by simp
qed

lemma alive_handles:
  assumes "handle_Alive os fd w = (r, w')" "handleOf w fd' = Some p"
  shows "handleOf w' fd' = Some p"
proof -
  obtain r1 w1 where r: "bs_pidfdSignal os fd 0 w = (r1, w1)" by fastforce
  with assms(1) have "w1 = w'" by (auto simp: handle_Alive_def handleP_def split: sum.splits errno.splits)
  with signal_evolves [OF r] assms(2) show ?thesis by blast
qed

lemma open_verified:
  assumes "openVerifiedHandle os b s pid w = (Inr (Some fd), w')"
  shows "verifiedHandle b s w w' fd"
proof -
  from assms obtain w1 path u' info v actual x data y arguments where steps:
      "bs_pidfdOpen os pid w = (Inr fd, w1)"
      "bs_lookPath os (br_ttydBinary b) w1 = (Inr path, u')" "bs_stat os path u' = (Inr info, v)"
      "bs_stat os (procFile pid ''exe'') v = (Inr actual, x)" "fi_id info = fi_id actual"
      "bs_readFile os (procFile pid ''cmdline'') x = (Inr data, y)" "processCommandLine data = Some arguments"
      "classifyCommand (br_ttydBinary b) (br_tmuxBinary b) s pid arguments \<noteq> bridgeCommandUnrelated"
      "handle_Alive os fd y = (Inr True, w')"
    by (auto simp: openVerifiedHandle_def expectedExecutable_def processExecutableMatches_def commandLineOf_def Let_def
        handleP_def tryP_apply bindP_apply effectP_def
        split: if_splits prod.splits sum.splits errno.splits option.splits bool.splits)
  note looks = calm_files [THEN relatesD]
  have still: "still w1 u'" "still u' v" "still v x" "still x y"
    using looks(1) [OF steps(2)] looks(2) [OF steps(3)] looks(2) [OF steps(4)] looks(4) [OF steps(6)] .
  have opened: "still w w1" using relatesD [OF calm_time(2) steps(1)] .
  obtain p where p: "handleOf w1 fd = Some p" "holder w1 pid = Some p" using open_handle [OF steps(1)] by blast
  then have handle: "handleOf y fd = Some p" using still by (auto simp: calm_def)
  have alive: "\<not> gone w' p" by (rule alive_true [OF steps(9) handle])
  have last: "evolves y w'" using relatesD [OF honest_alive steps(9)] by (auto simp: honest_def)
  have order: "evolves w w1" "evolves w1 u'" "evolves u' v" "evolves v x" "evolves x y"
    using still opened by (auto simp: calm_def)
  then have "\<not> gone x p" "\<not> gone y p" using gone_forever alive last by (meson evolves_trans)+
  then have held: "holder x pid = Some p" "holder y pid = Some p"
    using holder_stays p(2) order by (meson evolves_trans)+
  have "runs x p = fi_id info" using proc_exe [OF stat_reads [OF steps(4)]] held(1) steps(5) by auto
  then have seen: "fileAt v path = Some (runs x p)" using stat_reads [OF steps(3)] by simp
  have "command y p = data" using cmdline_reads [OF steps(6)] held(2) by auto
  then have "bridge_process b s w w' p"
    unfolding seen_bridge_def using order last steps(2,7,8) seen held by blast
  moreover have "handleOf w' fd = Some p"
    using handle alive_handles [OF steps(9)] by blast
  ultimately show ?thesis
    using relatesD [OF honest_open assms] by (auto simp: verifiedHandle_def)
qed

text \<open>Through a verified handle everything is honest, and it stays verified.\<close>

definition keeps :: "processBridge \<Rightarrow> Session \<Rightarrow> int \<Rightarrow> 'w \<Rightarrow> 'w \<Rightarrow> bool" where
  "keeps b s fd w w' \<longleftrightarrow> (\<forall>w0. verifiedHandle b s w0 w fd \<longrightarrow> verifiedHandle b s w0 w' fd)"

lemma keeps_preorder: "reflp (keeps b s fd)" "transp (keeps b s fd)"
  by (auto simp: reflp_def transp_def keeps_def)

lemma keeps_still: "relates still p \<Longrightarrow> relates (keeps b s fd) p"
  by (auto simp: relates_def keeps_def intro: verified_still)

lemma keeps_signal: "relates (keeps b s fd) (bs_pidfdSignal os fd sig)"
  unfolding relates_def keeps_def by (metis prod.collapse verified_signal)

lemmas keepsI = relates_return [OF keeps_preorder(1)] relates_bind [OF keeps_preorder(2)]
  relates_try [OF keeps_preorder(2)] relates_handle [OF keeps_preorder(2)] keeps_signal
  still_looks [THEN keeps_still] still_wait [THEN keeps_still] calm_time(1) [THEN keeps_still]
  still_call [OF calm_time(3), THEN keeps_still] still_call [OF calm_time(4), THEN keeps_still]

lemma keeps_handle: "relates (keeps b s fd) (handle_Alive os fd)" "relates (keeps b s fd) (handle_Signal os message fd sig)"
  by (auto simp: handle_Alive_def handle_Signal_def intro!: keepsI split: sum.splits errno.splits)

lemma keeps_pause: "relates (keeps b s fd) (pauseAgain os ctx d st)"
  by (auto simp: pauseAgain_def intro!: keepsI)

lemma keeps_rounds: "relates (keeps b s fd) (roundGone os ctx owned deadline)"
  "relates (keeps b s fd) (roundZombie os ctx owned st)" "relates (keeps b s fd) (roundAlive os ctx fd st)"
  by (auto simp: roundGone_def roundZombie_def roundAlive_def intro!: keepsI keeps_pause keeps_handle split: option.splits)

lemma keeps_round: "relates (keeps b s fd) (stopRound os ctx owned pid fd st)"
  by (auto simp: stopRound_def intro!: keepsI keeps_rounds keeps_handle split: option.splits sum.splits bool.splits)

lemma stop_loop_honest:
  assumes "loopP (stopRound os ctx owned pid fd) st w = Some (r, w')" "verifiedHandle b s w0 w fd"
  shows "verifiedHandle b s w0 w' fd"
proof (rule loop_result [OF assms(1), of "\<lambda>_ w. verifiedHandle b s w0 w fd"])
  show "verifiedHandle b s w0 w fd" by (rule assms(2))
qed (use keeps_round [THEN relatesD] in \<open>auto simp: keeps_def\<close>)

lemma stop_body_honest:
  assumes "bindO (liftO (handle_Signal os message fd SIGTERM)) (\<lambda>_. bindO (liftO (callP (bs_now os))) (\<lambda>now.
      loopP (stopRound os ctx owned pid fd) (now + second, False))) w = Some (r, w')"
    and "verifiedHandle b s w0 w fd"
  shows "verifiedHandle b s w0 w' fd"
proof -
  obtain r1 w1 where first: "handle_Signal os message fd SIGTERM w = (r1, w1)" by fastforce
  obtain now w2 where time: "bs_now os w1 = (now, w2)" by fastforce
  have "verifiedHandle b s w0 w1 fd" using relatesD [OF keeps_handle(2) first] assms(2) by (simp add: keeps_def)
  moreover from this have "verifiedHandle b s w0 w2 fd" using verified_still calm_time(3) [of w1] time by simp
  ultimately show ?thesis
    using assms(1) stop_loop_honest
    by (cases r1) (auto simp: bindO_def liftO_def callP_def first time)
qed

lemma honest_stop: "relatesO (honest b s) (stopVerifiedPID os b ctx s pid)"
proof (unfold relatesO_def, intro allI impI)
  fix w r w'
  assume run: "stopVerifiedPID os b ctx s pid w = Some (r, w')"
  obtain r1 w1 where opened: "openVerifiedHandle os b s pid w = (r1, w1)" by fastforce
  have first: "honest b s w w1" by (rule relatesD [OF honest_open opened])
  show "honest b s w w'"
  proof (cases "\<exists>fd. r1 = Inr (Some fd)")
    case True
    then obtain fd where r1: "r1 = Inr (Some fd)" by blast
    have verified: "verifiedHandle b s w w1 fd" by (rule open_verified) (use opened r1 in simp)
    from run r1 opened obtain w2 where "w' = bs_close os fd w2" and body:
      "bindO (liftO (handle_Signal os ''stop verified ttyd process'' fd SIGTERM)) (\<lambda>_.
         bindO (liftO (callP (bs_now os))) (\<lambda>now.
           loopP (stopRound os ctx (ownedProcess os pid w) pid fd) (now + second, False))) w1 = Some (r, w2)"
      unfolding stopVerifiedPID_def Let_def bindO_lift [of "openVerifiedHandle os b s pid"] opened r1
      by (auto simp: deferClose_def split: option.splits)
    then show ?thesis
      using stop_body_honest [OF body verified] by (auto simp: verifiedHandle_def intro: honest_trans honest_close)
  next
    case False
    with run opened have "w' = w1 \<or> (\<exists>c. waitForOwnedReap os ctx c second w1 = (r, w'))"
      by (auto simp: stopVerifiedPID_def Let_def bindO_def liftO_def split: option.splits sum.splits)
    then have "honest b s w1 w'"
      using still_wait [THEN relates_still_honest, THEN relatesD] reflpD [OF honest_preorder(1)] by metis
    then show ?thesis by (rule honest_trans [OF first])
  qed
qed

lemma honest_stops: "relatesO (honest b s) (stopEach os b ctx s pids)" "relatesO (honest b s) (stopAll os b ctx s pids)"
proof (induction pids)
  case Nil
  {
    case 1
    show ?case by (auto intro!: relatesO_lift honestI)
  next
    case 2
    show ?case by (auto intro!: relatesO_lift honestI)
  }
next
  case (Cons pid pids)
  {
    case 1
    show ?case
      using Cons(1) by (auto intro!: relatesO_try relatesO_bind relatesO_lift honest_preorder honestI honest_stop)
  next
    case 2
    show ?case
      using Cons(2) by (auto intro!: relatesO_try relatesO_lift honest_preorder honestI honest_stop split: sum.splits)
  }
qed

lemma honest_Stop: "relatesO (honest b s) (bridge_Stop os b ctx s)"
  by (auto simp: bridge_Stop_def intro!: relatesO_bind relatesO_lift honest_preorder honestI honest_stops)

lemma honest_start_round: "relates (honest b s) (startRound os b ctx s pid reaped deadline st)"
  unfolding startRound_def Let_def
  by (auto intro!: honestI relates_still_honest [OF still_call [OF calm_time(3)]]
      relates_still_honest [OF still_call [OF calm_time(4)]] split: sum.splits)

lemma still_register: "still w (registerOwned os pid reaped w)"
  by (auto simp: registerOwned_def calm_time(8) reflpD [OF still_preorder(1)])

lemma honest_launch: "relates (honest b s) (openBridgeLog os b s)" "relates (honest b s) (launch os b s)"
  by (auto simp: openBridgeLog_def launch_def Let_def intro!: relates_still_honest stillI still_effect still_register
      split: sum.splits startOutcome.splits)

lemma honest_start: "relatesO (honest b s) (bridge_start os b ctx s)"
proof -
  have "relatesO (honest b s) (loopP (startRound os b ctx s pid reaped deadline) ())" for pid reaped deadline
  proof (unfold relatesO_def, intro allI impI)
    fix w r w'
    assume "loopP (startRound os b ctx s pid reaped deadline) () w = Some (r, w')"
    then show "honest b s w w'"
      by (rule loop_result [where I = "\<lambda>_. honest b s w"])
        (use honest_start_round [THEN relatesD] reflpD [OF honest_preorder(1)] honest_trans in blast)+
  qed
  then show ?thesis
    by (auto simp: bridge_start_def giveUp_def Let_def intro!: relatesO_bind relatesO_try relatesO_lift honest_preorder honestI
        honest_launch honest_stop relates_still_honest [OF still_call [OF calm_time(3)]] split: startResult.splits)
qed

lemma honest_Ensure: "relatesO (honest b s) (bridge_Ensure os b ctx s)"
proof -
  have "relates (honest b s) (removeSocket os s)"
    by (auto simp: removeSocket_def intro!: honestI split: sum.splits)
  moreover have "relates (honest b s) (mapErr f (secureSocket os path))" for f path
    by (rule relates_still_honest [OF still_mapErr [OF still_socket(2)]])
  ultimately show ?thesis
    by (auto simp: bridge_Ensure_def Let_def intro!: relatesO_bind relatesO_lift honest_preorder honestI
        honest_stops honest_start split: prod.splits)
qed

end

subsection \<open>Every operation returns\<close>

text \<open>
  \<open>clock\<close> is the monotonic clock that \<^verbatim>\<open>time.Now\<close> reads: no call sets it back, and a pause that was not cut off by the
  context lasts at least as long as asked.
\<close>

locale bridge_clock =
  fixes os :: "('w, 'e) bridgeSystem"
    and clock :: "'w \<Rightarrow> time"
  assumes clock_read: "bs_now os w = (t, w') \<Longrightarrow> clock w \<le> t \<and> t \<le> clock w'"
    and clock_pause: "bs_pause os ctx d w = (Inr (), w') \<Longrightarrow> clock w + d \<le> clock w'"
    and clock_calls: "clock w \<le> clock (snd (bs_lookPath os path w))" "clock w \<le> clock (snd (bs_stat os path w))"
      "clock w \<le> clock (snd (bs_lstat os path w))" "clock w \<le> clock (snd (bs_readFile os path w))"
      "clock w \<le> clock (snd (bs_chmod os path w))" "clock w \<le> clock (snd (bs_dialUnix os path w))"
      "clock w \<le> clock (snd (bs_reaped os c w))" "clock w \<le> clock (snd (bs_pidfdSignal os fd sig w))"
begin

abbreviation passes :: "'w \<Rightarrow> 'w \<Rightarrow> bool" where
  "passes w w' \<equiv> clock w \<le> clock w'"

lemma passes_preorder: "reflp passes" "transp passes"
  by (auto simp: reflp_def transp_def)

lemma passes_calls: "relates passes (bs_lookPath os path)" "relates passes (bs_stat os path)" "relates passes (bs_lstat os path)"
  "relates passes (bs_readFile os path)" "relates passes (bs_chmod os path)" "relates passes (bs_dialUnix os path)"
  "relates passes (bs_pidfdSignal os fd sig)"
  by (simp_all add: relates_def clock_calls)

lemma passes_callP: "relates passes (callP (bs_reaped os c))" "relates passes (callP (bs_now os))"
proof -
  show "relates passes (callP (bs_reaped os c))"
    using clock_calls(7) by (auto simp: relates_def callP_def split: prod.splits) (metis snd_conv)
  show "relates passes (callP (bs_now os))"
    using clock_read by (auto simp: relates_def callP_def split: prod.splits) (meson order_trans)
qed

lemma passes_mapErr: "relates passes p \<Longrightarrow> relates passes (mapErr f p)"
  by (auto simp: relates_def mapErr_def split: prod.splits sum.splits) (metis snd_conv)+

lemmas passesI = relates_return [OF passes_preorder(1)] relates_bind [OF passes_preorder(2)]
  relates_try [OF passes_preorder(2)] relates_handle [OF passes_preorder(2)] passes_mapErr passes_calls passes_callP

lemma passes_looks: "relates passes (stateOf os pid)" "relates passes (handle_Alive os fd)"
  "relates passes (handle_Signal os message fd sig)" "relates passes (socketReady os path)"
  "relates passes (pidVerified os b s pid)"
  by (auto simp: stateOf_def handle_Alive_def handle_Signal_def socketReady_def pidVerified_def pidKind_def
      pidKindForExecutable_def expectedExecutable_def processExecutableMatches_def commandLineOf_def
      intro!: passesI split: option.splits sum.splits errno.splits)

text \<open>The measure of the loop that stops a process: the time left to the deadline, and a second more before the kill.\<close>

definition remaining :: "time \<times> bool \<Rightarrow> 'w \<Rightarrow> nat" where
  "remaining st w = (if snd st then 0 else nat (second + 1)) + nat (fst st + 20 * millisecond - clock w)"

lemma remaining_passes: "passes w w' \<Longrightarrow> remaining st w' \<le> remaining st w"
  by (auto simp: remaining_def)

lemma pause_again:
  "pauseAgain os ctx d st w = (Inr (Again st'), w') \<Longrightarrow> st' = st \<and> clock w + d \<le> clock w'"
  by (auto simp: pauseAgain_def bindP_apply split: prod.splits sum.splits dest: clock_pause)

lemma zombie_again:
  assumes "roundZombie os ctx owned st w = (Inr (Again st'), w')"
  shows "remaining st' w' < remaining st w"
proof -
  obtain t w1 where now: "bs_now os w = (t, w1)" by fastforce
  with assms have "t \<le> fst st" "st' = st" "clock w1 + 20 * millisecond \<le> clock w'"
    by (auto simp: roundZombie_def bindP_apply callP_def split: if_splits dest: pause_again)
  with clock_read [OF now] show ?thesis by (auto simp: remaining_def millisecond_def)
qed

lemma alive_again:
  assumes "roundAlive os ctx fd st w = (Inr (Again st'), w')"
  shows "remaining st' w' < remaining st w"
proof -
  obtain t w1 where now: "bs_now os w = (t, w1)" by fastforce
  note read = clock_read [OF now]
  show ?thesis
  proof (cases "t > fst st")
    case False
    with assms now have "st' = st" "clock w1 + 20 * millisecond \<le> clock w'"
      by (auto simp: roundAlive_def bindP_apply callP_def dest: pause_again)
    with False read show ?thesis by (auto simp: remaining_def millisecond_def)
  next
    case True
    obtain r w2 where kill: "handle_Signal os ''kill verified ttyd process'' fd SIGKILL w1 = (r, w2)" by fastforce
    obtain t' w3 where now': "bs_now os w2 = (t', w3)" by fastforce
    from assms True now kill now' have "\<not> snd st" "st' = (t' + second, True)" "clock w3 + 20 * millisecond \<le> clock w'"
      by (auto simp: roundAlive_def bindP_apply callP_def split: if_splits sum.splits dest: pause_again)
    with clock_read [OF now'] show ?thesis by (auto simp: remaining_def millisecond_def second_def)
  qed
qed

lemma gone_again: "roundGone os ctx owned deadline w \<noteq> (Inr (Again st'), w')"
  by (auto simp: roundGone_def bindP_apply bindP_call split: option.splits prod.splits sum.splits)

lemma round_again:
  assumes "stopRound os ctx owned pid fd st w = (Inr (Again st'), w')"
  shows "remaining st' w' < remaining st w"
proof -
  define check :: "('w, 'e, bool) lifecycle" where "check = (case owned of None \<Rightarrow> returnP False | Some reaped \<Rightarrow> callP (bs_reaped os reaped))"
  have reaped: "relates passes check" by (auto simp: check_def intro!: passesI split: option.splits)
  obtain d w1 where d: "check w = (d, w1)" by fastforce
  obtain z w2 where z: "stateOf os pid w1 = (z, w2)" by fastforce
  obtain a w3 where a: "handle_Alive os fd w2 = (a, w3)" by fastforce
  have order: "remaining st w2 \<le> remaining st w" "remaining st w3 \<le> remaining st w"
    using relatesD [OF reaped d] relatesD [OF passes_looks(1) z] relatesD [OF passes_looks(2) a]
    by (auto intro!: remaining_passes)
  have "roundZombie os ctx owned st w2 = (Inr (Again st'), w') \<or> roundAlive os ctx fd st w3 = (Inr (Again st'), w')"
    using assms unfolding stopRound_def check_def [symmetric] bindP_apply [of check] d
    by (auto simp: tryP_apply z a gone_again split: sum.splits if_splits bool.splits)
  with zombie_again alive_again order show ?thesis by (meson order.strict_trans2)
qed

lemma returns_stop: "returns (stopVerifiedPID os b ctx s pid)"
proof -
  have "returns (loopP (stopRound os ctx owned pid fd) st)" for owned fd st
    unfolding returns_def
    by (intro allI loop_returns [where I = "\<lambda>_ _. True" and m = remaining]) (simp_all add: round_again)
  then have body: "returns (bindO (liftO (handle_Signal os message fd SIGTERM)) (\<lambda>_. bindO (liftO (callP (bs_now os))) (\<lambda>now.
      loopP (stopRound os ctx owned pid fd) (now + second, False))))" for message fd owned
    by (intro returnsI)
  have "returns (deferClose os fd p)" if "returns p" for fd and p :: "('w, 'e sessionError, unit) partial_prog"
    using that unfolding returns_def deferClose_def by (metis (no_types, lifting) case_prod_conv option.simps(5))
  with body have "returns (case handle of
         None \<Rightarrow> (case owned of Some reaped \<Rightarrow> liftO (waitForOwnedReap os ctx reaped second) | None \<Rightarrow> liftO (returnP ()))
       | Some fd \<Rightarrow> deferClose os fd
           (bindO (liftO (handle_Signal os ''stop verified ttyd process'' fd SIGTERM)) (\<lambda>_.
            bindO (liftO (callP (bs_now os))) (\<lambda>now.
              loopP (stopRound os ctx owned pid fd) (now + second, False)))))" for handle owned
    by (auto split: option.splits intro: returns_lift)
  then have "returns (bindO (liftO (openVerifiedHandle os b s pid)) (\<lambda>handle. case handle of
         None \<Rightarrow> (case owned of Some reaped \<Rightarrow> liftO (waitForOwnedReap os ctx reaped second) | None \<Rightarrow> liftO (returnP ()))
       | Some fd \<Rightarrow> deferClose os fd
           (bindO (liftO (handle_Signal os ''stop verified ttyd process'' fd SIGTERM)) (\<lambda>_.
            bindO (liftO (callP (bs_now os))) (\<lambda>now.
              loopP (stopRound os ctx owned pid fd) (now + second, False))))))" for owned
    by (intro returnsI)
  then show ?thesis by (auto simp: returns_def stopVerifiedPID_def Let_def)
qed

lemma returns_stops: "returns (stopEach os b ctx s pids)" "returns (stopAll os b ctx s pids)"
proof (induction pids)
  case (Cons pid pids)
  {
    case 1
    show ?case using Cons(1) by (auto intro!: returnsI returns_stop)
  next
    case 2
    show ?case using Cons(2) by (auto intro!: returnsI returns_stop split: sum.splits)
  }
qed (simp_all add: returnsI)

lemma start_again:
  assumes "startRound os b ctx s pid reaped deadline st w = (Inr (Again st'), w')" "0 < br_poll b"
  shows "nat (deadline + br_poll b - clock w') < nat (deadline + br_poll b - clock w)"
proof -
  let ?verified = "bindP (socketReady os (se_Socket s)) (\<lambda>ready. if ready then pidVerified os b s pid else returnP False)"
  have "relates passes ?verified" by (auto intro!: passesI passes_looks)
  moreover obtain v w1 where v: "?verified w = (v, w1)" by fastforce
  ultimately have first: "passes w w1" by (rule relatesD)
  obtain d w2 where d: "bs_reaped os reaped w1 = (d, w2)" by fastforce
  have second: "passes w1 w2" using clock_calls(7) [of w1 reaped] d by simp
  obtain t w3 where now: "bs_now os w2 = (t, w3)" by fastforce
  from assms(1) v d now have "t \<le> deadline" "bs_pause os ctx (br_poll b) w3 = (Inr (), w')"
    by (auto simp: startRound_def Let_def bindP_apply [of ?verified] bindP_call tryP_apply
        split: sum.splits if_splits prod.splits)
  with clock_pause [of ctx "br_poll b" w3 w'] clock_read [OF now] first second assms(2) show ?thesis by simp
qed

lemma returns_start: "0 < br_poll b \<Longrightarrow> returns (bridge_start os b ctx s)"
proof -
  assume poll: "0 < br_poll b"
  have "returns (loopP (startRound os b ctx s pid reaped deadline) ())" for pid reaped deadline
    unfolding returns_def
    by (intro allI loop_returns [where I = "\<lambda>_ _. True" and m = "\<lambda>_ w. nat (deadline + br_poll b - clock w)"])
      (intro conjI TrueI start_again poll, assumption?)+
  then show ?thesis
    by (auto simp: bridge_start_def giveUp_def Let_def intro!: returnsI returns_stop split: startResult.splits)
qed

lemma returns_Stop: "returns (bridge_Stop os b ctx s)"
  by (auto simp: bridge_Stop_def intro!: returnsI returns_stops)

lemma returns_Ensure: "0 < br_poll b \<Longrightarrow> returns (bridge_Ensure os b ctx s)"
  by (auto simp: bridge_Ensure_def Let_def intro!: returnsI returns_stops returns_start split: prod.splits)

end

end
