(* ===== verification/Bridge_System.thy ===== *)
theory Bridge_System
  imports Bridge_Processes
begin

section \<open>Terminal bridges on a process table\<close>

text \<open>
  The properties of terminal bridges, and an operating system that satisfies what they rely on: a table of
  processes with their programs and command lines, handles that name one incarnation of a process, signals that
  end it, and a clock.
\<close>

subsection \<open>Properties\<close>

text \<open>
  C8. Signals reach bridges of the session only. Whatever else runs on the machine, whatever call fails and
  however often process identifiers are reused meanwhile: every process that \<open>Stop\<close> or \<open>Ensure\<close> sent a signal
  was, between the start of the operation and its end, seen to be itself running the file that the search path
  gives for ttyd, with a command line that belongs to this session.
\<close>

theorem bridge_signals_own:
  assumes "process_world os evolves gone holder handleOf fileAt runs command delivered"
    and "bridge_Stop os b ctx s w = Some (stopped, w') \<or> bridge_Ensure os b ctx s w = Some (ensured, w')"
  shows "\<exists>sent. delivered w' = delivered w @ sent \<and>
    (\<forall>(p, sig) \<in> set sent. sig \<noteq> 0 \<longrightarrow> seen_bridge os evolves holder fileAt runs command b s w w' p)"
proof -
  have "process_world.honest os evolves holder fileAt runs command delivered b s w w'"
    using assms(2) relatesOD [OF process_world.honest_Stop [OF assms(1)]]
      relatesOD [OF process_world.honest_Ensure [OF assms(1)]] by blast
  then show ?thesis by (simp add: process_world.honest_def [OF assms(1)])
qed

text \<open>
  C24. Ensuring and stopping a bridge always returns, whatever other processes do and whatever calls fail: if no
  call sets the clock back and a pause lasts as long as asked, the loops that wait for a socket, for the end of a
  process after SIGTERM and again after SIGKILL, and for its reaping all end.
\<close>

theorem bridge_returns:
  assumes "bridge_clock os clock"
  shows "(\<exists>r w'. bridge_Ensure os (newProcessBridge cfg logsDir) ctx s w = Some (r, w')) \<and>
    (\<exists>r w'. bridge_Stop os (newProcessBridge cfg logsDir) ctx s w = Some (r, w'))"
proof -
  have "0 < br_poll (newProcessBridge cfg logsDir)" by (simp add: newProcessBridge_def millisecond_def)
  with bridge_clock.returns_Ensure [OF assms] bridge_clock.returns_Stop [OF assms] show ?thesis
    by (auto simp: returns_def)
qed

subsection \<open>A process table\<close>

text \<open>
  A process is an identifier with the number of its incarnation. A slot of the table holds the current incarnation
  and whether it lives. The number of a handle is its place among the opened handles; closing empties it.
\<close>

record processTable =
  tb_slot :: "int \<Rightarrow> nat \<times> bool"
  tb_pids :: "int list"
  tb_program :: "int \<times> nat \<Rightarrow> fileID"
  tb_command :: "int \<times> nat \<Rightarrow> string"
  tb_handles :: "(int \<times> nat) option list"
  tb_sockets :: "string list"
  tb_clock :: time
  tb_sent :: "((int \<times> nat) \<times> int) list"
  tb_owned :: "(int, channel) gomap"

definition tb_holder :: "processTable \<Rightarrow> int \<rightharpoonup> int \<times> nat" where
  "tb_holder w pid = (if snd (tb_slot w pid) then Some (pid, fst (tb_slot w pid)) else None)"

definition tb_gone :: "processTable \<Rightarrow> int \<times> nat \<Rightarrow> bool" where
  "tb_gone w p \<longleftrightarrow> snd p < fst (tb_slot w (fst p)) \<or> snd p = fst (tb_slot w (fst p)) \<and> \<not> snd (tb_slot w (fst p))"

definition tb_evolves :: "processTable \<Rightarrow> processTable \<Rightarrow> bool" where
  "tb_evolves w w' \<longleftrightarrow>
     (\<forall>pid. fst (tb_slot w pid) < fst (tb_slot w' pid) \<or>
        fst (tb_slot w pid) = fst (tb_slot w' pid) \<and> (snd (tb_slot w' pid) \<longrightarrow> snd (tb_slot w pid)))"

definition tb_handle :: "processTable \<Rightarrow> int \<rightharpoonup> int \<times> nat" where
  "tb_handle w fd = (if 0 \<le> fd \<and> nat fd < length (tb_handles w) then tb_handles w ! nat fd else None)"

definition ttydPath :: string where "ttydPath = ''/usr/bin/ttyd''"
definition ttydFile :: fileID where "ttydFile = (1, 1)"

text \<open>The process of the table with a given file in \<^verbatim>\<open>/proc\<close>.\<close>

definition tb_process :: "processTable \<Rightarrow> string \<Rightarrow> string \<Rightarrow> (int \<times> nat) option" where
  "tb_process w name path =
     (case find (\<lambda>pid. procFile pid name = path) (tb_pids w) of None \<Rightarrow> None | Some pid \<Rightarrow> tb_holder w pid)"

definition tb_file :: "processTable \<Rightarrow> string \<rightharpoonup> fileID" where
  "tb_file w path =
     (if path = ttydPath then Some ttydFile
      else if path \<in> set (tb_sockets w) \<and> \<not> has_prefix path ''/proc/'' then Some (2, 2)
      else map_option (tb_program w) (tb_process w ''exe'' path))"

definition tb_stat :: "string \<Rightarrow> (processTable, 'e, fileInfo) lifecycle" where
  "tb_stat path w =
     (case tb_file w path of
        None \<Rightarrow> (Inl SystemNotExist, w)
      | Some f \<Rightarrow> (Inr \<lparr>fi_id = f, fi_socket = f = (2, 2), fi_symlink = False\<rparr>, w))"

definition tb_readFile :: "string \<Rightarrow> (processTable, 'e, string) lifecycle" where
  "tb_readFile path w =
     (case tb_process w ''cmdline'' path of
        Some p \<Rightarrow> (Inr (tb_command w p), w)
      | None \<Rightarrow>
          (case tb_process w ''stat'' path of
             Some p \<Rightarrow> (Inr (itoa (fst p) @ '' (ttyd) S 1''), w)
           | None \<Rightarrow> (Inl SystemNotExist, w)))"

definition tb_signal :: "int \<Rightarrow> int \<Rightarrow> (processTable, errno, unit) prog" where
  "tb_signal fd sig w =
     (case tb_handle w fd of
        None \<Rightarrow> (Inl (OtherErrno ''bad file descriptor''), w)
      | Some p \<Rightarrow>
          if tb_holder w (fst p) \<noteq> Some p then (Inl ESRCH, w)
          else if sig = 0 then (Inr (), w)
          else (Inr (), w\<lparr>tb_sent := tb_sent w @ [(p, sig)], tb_slot := (tb_slot w)(fst p := (snd p, False))\<rparr>))"

definition tb_open :: "int \<Rightarrow> (processTable, errno, int) prog" where
  "tb_open pid w =
     (case tb_holder w pid of
        None \<Rightarrow> (Inl ESRCH, w)
      | Some p \<Rightarrow> (Inr (int (length (tb_handles w))), w\<lparr>tb_handles := tb_handles w @ [Some p]\<rparr>))"

definition tb_close :: "int \<Rightarrow> processTable \<Rightarrow> processTable" where
  "tb_close fd w = (if fd < 0 then w else w\<lparr>tb_handles := (tb_handles w)[nat fd := None]\<rparr>)"

text \<open>A new process takes an identifier no process has, and opens its socket.\<close>

definition tb_start :: "string \<Rightarrow> string list \<Rightarrow> processTable \<Rightarrow> 'e sessionError startOutcome \<times> processTable" where
  "tb_start binary arguments w =
     (let pid = foldr max (tb_pids w) 1 + 1; p = (pid, fst (tb_slot w pid) + 1) in
      (Started pid (nat pid),
       w\<lparr>tb_slot := (tb_slot w)(pid := (snd p, True)), tb_pids := tb_pids w @ [pid],
         tb_program := (tb_program w)(p := ttydFile), tb_command := (tb_command w)(p := join (binary # arguments) NUL @ NUL),
         tb_sockets := optionValue arguments ''-i'' # tb_sockets w\<rparr>))"

definition tb_lives :: "channel \<Rightarrow> processTable \<Rightarrow> bool" where
  "tb_lives c w = snd (tb_slot w (int c))"

definition tableSystem :: "(processTable, unit) bridgeSystem" where
  "tableSystem =
     \<lparr>bs_lookPath = (\<lambda>_. returnP ttydPath), bs_stat = tb_stat, bs_lstat = tb_stat, bs_readFile = tb_readFile,
      bs_readDir = (\<lambda>_ w. (Inr (map (\<lambda>pid. (itoa pid, True)) (tb_pids w)), w)),
      bs_remove = (\<lambda>path w. (Inr (), w\<lparr>tb_sockets := removeAll path (tb_sockets w)\<rparr>)),
      bs_mkdirAll = (\<lambda>_. returnP ()), bs_chmod = (\<lambda>_. returnP ()), bs_openLog = (\<lambda>_. returnP ()), bs_chmodLog = returnP (),
      bs_closeLog = (\<lambda>w. w),
      bs_dialUnix = (\<lambda>path w. (if path \<in> set (tb_sockets w) then Inr () else Inl SystemNotExist, w)),
      bs_start = tb_start,
      bs_now = (\<lambda>w. (tb_clock w, w)), bs_pause = (\<lambda>_ d w. (Inr (), w\<lparr>tb_clock := tb_clock w + \<bar>d\<bar>\<rparr>)),
      bs_reaped = (\<lambda>c w. (\<not> tb_lives c w, w)),
      bs_awaitReap = (\<lambda>_ c d w. if tb_lives c w then (Elapsed, w\<lparr>tb_clock := tb_clock w + \<bar>d\<bar>\<rparr>) else (Reaped, w)),
      bs_pidfdOpen = tb_open, bs_pidfdSignal = tb_signal, bs_close = tb_close, bs_owned = tb_owned,
      bs_setOwned = (\<lambda>m w. w\<lparr>tb_owned := m\<rparr>)\<rparr>"

lemma itoa_inj: "itoa a = itoa b \<Longrightarrow> a = b"
proof -
  have digits: "digits m = digits n \<Longrightarrow> m = n" for m n using foldl_digits by metis
  have "hd (digits n) \<noteq> CHR ''-''" for n using hd_digits [of n] by (auto simp: is_digit_def)
  then show "itoa a = itoa b \<Longrightarrow> a = b"
    by (auto simp: itoa_def split: if_splits dest!: digits) (metis list.sel(1))+
qed

lemma procFile_inj: "procFile a name = procFile b name \<longleftrightarrow> a = b"
  by (auto simp: procFile_def dest: itoa_inj)

lemma tb_process_file: "tb_process w name (procFile pid name) = Some p \<Longrightarrow> tb_holder w pid = Some p"
  by (auto simp: tb_process_def procFile_inj find_Some_iff split: option.splits)

lemma procFile_other: "procFile a ''exe'' \<noteq> ttydPath"
  by (simp add: procFile_def ttydPath_def)


lemma tb_evolves_same: "tb_slot w' = tb_slot w \<Longrightarrow> tb_evolves w w'"
  by (simp add: tb_evolves_def)

lemma tb_calm_same:
  "tb_slot w' = tb_slot w \<Longrightarrow> tb_sent w' = tb_sent w \<Longrightarrow> tb_handles w' = tb_handles w \<Longrightarrow>
    calm tb_evolves tb_handle tb_sent w w'"
  by (simp add: calm_def tb_evolves_same tb_handle_def)

lemma tb_calm_open: "calm tb_evolves tb_handle tb_sent w (snd (tb_open pid w))"
  by (auto simp: calm_def tb_open_def tb_evolves_same tb_handle_def nth_append split: option.splits if_splits)

lemma tb_calm_start: "calm tb_evolves tb_handle tb_sent w (snd (tb_start binary arguments w))"
  by (auto simp: calm_def tb_start_def tb_evolves_def tb_handle_def Let_def)

lemma tb_calm_reads: "calm tb_evolves tb_handle tb_sent w (snd (tb_stat path w))"
  "calm tb_evolves tb_handle tb_sent w (snd (tb_readFile path w))"
  by (auto simp: tb_stat_def tb_readFile_def intro: tb_calm_same split: option.splits)

lemma tb_signal_cases:
  assumes "tb_signal fd sig w = (res, w')"
  shows "w' = w \<or> (\<exists>p. tb_handle w fd = Some p \<and> tb_holder w (fst p) = Some p \<and>
    w' = w\<lparr>tb_sent := tb_sent w @ [(p, sig)], tb_slot := (tb_slot w)(fst p := (snd p, False))\<rparr>)"
  using assms by (auto simp: tb_signal_def split: option.splits if_splits)

lemma tb_signal_evolves: "tb_signal fd sig w = (res, w') \<Longrightarrow> tb_evolves w w'"
  by (drule tb_signal_cases) (auto simp: tb_evolves_def tb_holder_def split: if_splits)

lemma tb_holder_file:
  assumes "tb_file w (procFile pid ''exe'') = Some f"
  shows "\<exists>p. tb_holder w pid = Some p \<and> tb_program w p = f"
proof -
  have "has_prefix (procFile pid ''exe'') ''/proc/''" by (simp add: procFile_def has_prefix_def)
  with assms obtain p where "tb_process w ''exe'' (procFile pid ''exe'') = Some p" "tb_program w p = f"
    by (auto simp: tb_file_def procFile_other)
  with tb_process_file [OF this(1)] show ?thesis by blast
qed

lemma procFile_names: "procFile a ''cmdline'' \<noteq> procFile b ''stat''"
proof
  assume "procFile a ''cmdline'' = procFile b ''stat''"
  then have "last (procFile a ''cmdline'') = last (procFile b ''stat'')" by simp
  then show False by (simp add: procFile_def)
qed

lemma tb_read_cmdline:
  assumes "tb_readFile (procFile pid ''cmdline'') w = (Inr data, w')"
  shows "\<exists>p. tb_holder w' pid = Some p \<and> tb_command w' p = data"
proof -
  have "tb_process w ''stat'' (procFile pid ''cmdline'') = None"
    using procFile_names [of pid] by (auto simp: tb_process_def find_Some_iff split: option.splits) (metis nth_mem)
  with assms show ?thesis by (auto simp: tb_readFile_def dest: tb_process_file split: option.splits)
qed

interpretation table_clock: bridge_clock tableSystem tb_clock
  by unfold_locales (auto simp: tableSystem_def tb_stat_def tb_readFile_def tb_signal_def split: option.splits)

interpretation table: process_world tableSystem tb_evolves tb_gone tb_holder tb_handle tb_file tb_program tb_command tb_sent
proof (unfold_locales, goal_cases)
  case (2 w w1 w2)
  show ?case
    unfolding tb_evolves_def
  proof (rule allI)
    fix pid
    from 2 show "fst (tb_slot w pid) < fst (tb_slot w2 pid) \<or>
        fst (tb_slot w pid) = fst (tb_slot w2 pid) \<and> (snd (tb_slot w2 pid) \<longrightarrow> snd (tb_slot w pid))"
      unfolding tb_evolves_def by (elim allE [of _ pid]) auto
  qed
next
  case (3 w w' p)
  then show ?case by (auto simp: tb_evolves_def tb_gone_def) (metis order.strict_trans)+
next
  case (4 w w' pid p)
  then show ?case by (auto simp: tb_evolves_def tb_gone_def tb_holder_def split: if_splits)
next
  case (5 w pid f)
  then show ?case by (rule tb_holder_file)
next
  case (6 path w info w')
  then show ?case by (auto simp: tableSystem_def tb_stat_def split: option.splits)
next
  case (7 pid w data w')
  then show ?case using tb_read_cmdline by (simp add: tableSystem_def)
next
  case (8 pid w fd w')
  then have "tb_open pid w = (Inr fd, w')" by (simp add: tableSystem_def)
  then obtain p where "tb_holder w pid = Some p" "fd = int (length (tb_handles w))" "w' = w\<lparr>tb_handles := tb_handles w @ [Some p]\<rparr>"
    by (auto simp: tb_open_def split: option.splits)
  then show ?case by (intro exI [of _ p]) (auto simp: tb_handle_def tb_holder_def split: if_splits)
next
  case (10 fd w res w' p)
  then have "tb_signal fd 0 w = (res, w')" by (simp add: tableSystem_def)
  with 10(2,3) show ?case by (cases p) (auto simp: tb_signal_def tb_gone_def tb_holder_def split: if_splits option.splits)
next
  case (11 w fd)
  then show ?case by (simp add: tableSystem_def tb_close_def tb_evolves_same)
next
  case (9 fd sig w res w')
  then have run: "tb_signal fd sig w = (res, w')" by (simp add: tableSystem_def)
  then show ?case using tb_signal_evolves [OF run] tb_signal_cases [OF run] by (auto simp: tb_handle_def)
qed (auto simp: tableSystem_def tb_evolves_same tb_holder_file relates_def tb_calm_reads tb_calm_open tb_calm_start
    intro: tb_calm_same)


subsection \<open>Two sessions\<close>

definition bridge_session :: "string \<Rightarrow> Session" where
  "bridge_session sid = \<lparr>se_ID = sid, se_Name = sid, se_PublicRef = b64_encode (replicate 24 CHR ''r''), se_TmuxName = sid,
     se_Socket = expectedSocket (NewStore ''/s'') sid, se_PID = 7, se_CWD = ''/h'', se_CreatedAt = []\<rparr>"

definition table_bridge :: processBridge where
  "table_bridge = \<lparr>br_ttydBinary = ''ttyd'', br_tmuxBinary = ''tmux'', br_logsDir = ''/l'', br_scrollback = 100,
     br_timeout = second, br_poll = 50 * millisecond\<rparr>"

text \<open>Process 7 is the bridge of \<open>dev\<close>, process 9 the one of \<open>other\<close>.\<close>

definition table_world :: processTable where
  "table_world =
     \<lparr>tb_slot = (\<lambda>_. (0, False))(7 := (1, True), 9 := (1, True)), tb_pids = [7, 9], tb_program = (\<lambda>_. ttydFile),
      tb_command = (\<lambda>p. bridgeCommandLine ''ttyd'' (bridge_session (if fst p = 7 then ''dev'' else ''other'')) 100 ''tmux'' True),
      tb_handles = [], tb_sockets = [], tb_clock = 0, tb_sent = [], tb_owned = []\<rparr>"

lemma bridge_session_valid: "validateCanonical (NewStore ''/s'') (bridge_session ''dev'') = Inr ()"
  "validateCanonical (NewStore ''/s'') (bridge_session ''other'') = Inr ()"
  by code_simp+

lemma table_commands:
  "processCommandLine (bridgeCommandLine ''ttyd'' (bridge_session sid) 100 ''tmux'' True) =
     Some (seenArguments ''ttyd'' (bridge_session sid) 100 ''tmux'' True)" if "sid \<in> {''dev'', ''other''}"
  using that bridge_session_valid by (auto simp: zero_free_def NewStore_def intro!: seen_command_line)

lemma table_own: "classifyCommand ''ttyd'' ''tmux'' (bridge_session ''dev'') pid
    (seenArguments ''ttyd'' (bridge_session ''dev'') 100 ''tmux'' True) = bridgeCommandCurrent"
  by (rule classify_own [OF bridge_session_valid(1)]) (simp_all add: zero_free_def NewStore_def)

lemma table_other: "classifyCommand ''ttyd'' ''tmux'' (bridge_session ''dev'') pid
    (seenArguments ''ttyd'' (bridge_session ''other'') 100 ''tmux'' True) = bridgeCommandUnrelated"
  by (rule classify_other [OF bridge_session_valid(2)])
    (simp_all add: zero_free_def NewStore_def bridge_session_valid [unfolded NewStore_def], simp add: bridge_session_def)

lemma table_process:
  "tb_process w name (procFile pid name) = (if pid \<in> set (tb_pids w) then tb_holder w pid else None)"
proof -
  have "find (\<lambda>q. q = pid) pids = (if pid \<in> set pids then Some pid else None)" for pids :: "int list"
    by (induction pids) auto
  then show ?thesis by (simp add: tb_process_def procFile_inj)
qed

lemma table_proc_file: "tb_file w (procFile pid ''exe'') =
    (if pid \<in> set (tb_pids w) then map_option (tb_program w) (tb_holder w pid) else None)"
  by (simp add: tb_file_def procFile_other table_process) (simp add: procFile_def has_prefix_def)

lemma table_executable: "expectedExecutable tableSystem binary w =
    (Inr \<lparr>fi_id = ttydFile, fi_socket = False, fi_symlink = False\<rparr>, w)"
  by (simp add: expectedExecutable_def bindP_apply tableSystem_def tb_stat_def tb_file_def ttydFile_def)

lemma table_matches:
  "1 < pid \<Longrightarrow> processExecutableMatches tableSystem pid info w =
    (Inr (case if pid \<in> set (tb_pids w) then tb_holder w pid else None of
        None \<Rightarrow> False | Some p \<Rightarrow> fi_id info = tb_program w p), w)"
  by (auto simp: processExecutableMatches_def tryP_apply tableSystem_def tb_stat_def table_proc_file split: option.splits)

lemma table_command:
  "pid \<in> set (tb_pids w) \<Longrightarrow> tb_holder w pid = Some p \<Longrightarrow> commandLineOf tableSystem pid w =
    (case processCommandLine (tb_command w p) of None \<Rightarrow> (Inl (Plain ''empty process command line''), w)
     | Some arguments \<Rightarrow> (Inr arguments, w))"
  by (simp add: commandLineOf_def bindP_apply tableSystem_def tb_readFile_def table_process split: option.split)

lemma table_kind:
  assumes "tb_pids w = [7, 9]" "tb_program w = (\<lambda>_. ttydFile)" "tb_command w = tb_command table_world"
    and "tb_slot w 7 = (1, True)" "tb_slot w 9 = (1, True)" "fi_id info = ttydFile"
  shows "pidKindForExecutable tableSystem table_bridge (bridge_session ''dev'') 7 info w = (Inr bridgeCommandCurrent, w)"
    and "pidKindForExecutable tableSystem table_bridge (bridge_session ''dev'') 9 info w = (Inr bridgeCommandUnrelated, w)"
  using assms
  by (simp_all add: pidKindForExecutable_def bindP_apply tryP_apply table_matches table_command tb_holder_def
      table_world_def table_commands table_bridge_def table_own table_other)


lemma table_verified:
  "verifiedProcesses tableSystem table_bridge (bridge_session ''dev'') table_world =
     (Inr \<lparr>vp_current = [7], vp_legacy = []\<rparr>, table_world)"
proof -
  have "bs_readDir tableSystem ''/proc'' table_world = (Inr [(itoa 7, True), (itoa 9, True)], table_world)"
    by (simp add: tableSystem_def table_world_def)
  moreover have "parse_int (itoa 7) = Some 7" "parse_int (itoa 9) = Some 9" by (simp_all add: parse_int_itoa)
  moreover have "tb_pids table_world = [7, 9]" "tb_program table_world = (\<lambda>_. ttydFile)" "tb_slot table_world 7 = (1, True)"
    "tb_slot table_world 9 = (1, True)" by (simp_all add: table_world_def)
  ultimately show ?thesis
    by (simp add: verifiedProcesses_def Let_def tryP_apply table_executable bindP_apply table_kind vp_add_def)
qed

definition stopped_world :: processTable where
  "stopped_world = table_world\<lparr>tb_handles := [None], tb_slot := (tb_slot table_world)(7 := (1, False)), tb_sent := [((7, 1), SIGTERM)]\<rparr>"

lemma table_stop:
  "stopVerifiedPID tableSystem table_bridge RequestContext (bridge_session ''dev'') 7 table_world = Some (Inr (), stopped_world)"
proof -
  let ?open = "table_world\<lparr>tb_handles := [Some (7, 1)]\<rparr>"
  let ?dead = "?open\<lparr>tb_slot := (tb_slot table_world)(7 := (1, False)), tb_sent := [((7, 1), SIGTERM)]\<rparr>"
  have facts: "tb_pids table_world = [7, 9]" "tb_program table_world = (\<lambda>_. ttydFile)" "tb_slot table_world 7 = (1, True)"
    "tb_handles table_world = []" "tb_sent table_world = []" by (simp_all add: table_world_def)
  note one = One_nat_def [symmetric]
  have opened: "openVerifiedHandle tableSystem table_bridge (bridge_session ''dev'') 7 table_world = (Inr (Some 0), ?open)"
  proof -
    have "bs_pidfdOpen tableSystem 7 table_world = (Inr 0, ?open)"
      by (simp add: tableSystem_def tb_open_def tb_holder_def facts)
    moreover have "handle_Alive tableSystem 0 ?open = (Inr True, ?open)"
      by (simp add: handle_Alive_def handleP_def tableSystem_def tb_signal_def tb_handle_def tb_holder_def facts)
    moreover have "commandLineOf tableSystem 7 ?open =
        (Inr (seenArguments ''ttyd'' (bridge_session ''dev'') 100 ''tmux'' True), ?open)"
      by (simp add: table_command tb_holder_def facts) (simp add: table_world_def table_commands)
    ultimately show ?thesis
      by (simp add: openVerifiedHandle_def handleP_def Let_def tryP_apply bindP_apply table_executable table_matches
          tb_holder_def facts table_bridge_def table_own)
  qed
  have signal: "handle_Signal tableSystem message 0 SIGTERM ?open = (Inr (), ?dead)" for message
    by (simp add: handle_Signal_def handleP_def tableSystem_def tb_signal_def tb_handle_def tb_holder_def facts SIGTERM_def)
  have "tb_process ?dead ''cmdline'' (procFile 7 ''stat'') = None"
    by (simp add: tb_process_def procFile_names facts)
  then have "stateOf tableSystem 7 ?dead = (Inl SystemNotExist, ?dead)"
    by (simp add: stateOf_def bindP_apply tableSystem_def tb_readFile_def table_process tb_holder_def)
  moreover have "handle_Alive tableSystem 0 ?dead = (Inr False, ?dead)"
    by (simp add: handle_Alive_def handleP_def tableSystem_def tb_signal_def tb_handle_def tb_holder_def)
  ultimately have "stopRound tableSystem RequestContext None 7 0 st ?dead = (Inr (Done ()), ?dead)" for st
    by (simp add: stopRound_def bindP_apply tryP_apply roundGone_def)
  then have loop: "loopP (stopRound tableSystem RequestContext None 7 0) st ?dead = Some (Inr (), ?dead)" for st
    by (subst loopP.simps) simp
  have "ownedProcess tableSystem 7 table_world = None" by (simp add: ownedProcess_def tableSystem_def table_world_def)
  moreover have "bs_now tableSystem ?dead = (tb_clock ?dead, ?dead)" and "bs_close tableSystem 0 ?dead = stopped_world"
    by (simp_all add: tableSystem_def tb_close_def stopped_world_def)
  ultimately show ?thesis
    by (simp add: stopVerifiedPID_def Let_def bindO_lift callP_def opened deferClose_def signal loop one del: One_nat_def)
qed

lemma table_Stop: "bridge_Stop tableSystem table_bridge RequestContext (bridge_session ''dev'') table_world = Some (Inr (), stopped_world)"
  by (simp add: bridge_Stop_def bindO_lift table_verified vp_all_def)
    (simp add: bindO_def liftO_def tryO_def table_stop)

text \<open>Stopping the bridge of \<open>dev\<close> sends one signal, to process 7, which was seen to be that bridge.\<close>

theorem bridge_signals_own_witness:
  "\<exists>w'. bridge_Stop tableSystem table_bridge RequestContext (bridge_session ''dev'') table_world = Some (Inr (), w') \<and>
     tb_sent w' = [((7, 1), SIGTERM)] \<and>
     seen_bridge tableSystem tb_evolves tb_holder tb_file tb_program tb_command table_bridge (bridge_session ''dev'')
       table_world w' (7, 1)"
proof -
  have sent: "tb_sent stopped_world = [((7, 1), SIGTERM)]" "tb_sent table_world = []"
    by (simp_all add: stopped_world_def table_world_def)
  from bridge_signals_own [OF table.process_world_axioms disjI1 [OF table_Stop]] sent
  have "seen_bridge tableSystem tb_evolves tb_holder tb_file tb_program tb_command table_bridge (bridge_session ''dev'')
      table_world stopped_world (7, 1)" by (simp add: SIGTERM_def)
  with table_Stop sent(1) show ?thesis by blast
qed

theorem bridge_returns_witness:
  "\<exists>r w'. bridge_Ensure tableSystem (newProcessBridge (withDefaults \<lparr>mc_StateDir = ''/s'', mc_HomeDir = ''/h'', mc_TmuxBinary = [],
      mc_TtydBinary = [], mc_WindowSize = [], mc_Mouse = [], mc_AppName = [], mc_WebScrollbackLines = 0,
      mc_WebScrollbackConfigured = False, mc_BridgeStartupTimeout = 0\<rparr>) ''/l'') RequestContext (bridge_session ''dev'')
      table_world = Some (r, w')"
  using bridge_returns [OF table_clock.bridge_clock_axioms] by blast

end
