(* ===== verification/Web_Lifecycle.thy ===== *)
theory Web_Lifecycle
  imports Session_System Web_Front
begin

section \<open>The lifecycle as the web server sees it\<close>

text \<open>
  \<^verbatim>\<open>webSessionLifecycle\<close> of \<^verbatim>\<open>internal/server/server.go\<close>: the interface through which the handlers list, create,
  use and terminate sessions. The functions that a handler passes in act on the exchange the request is part of: the server, the
  response written so far, and the variables of the handler that its functions assign.

  The locale \<open>web_lifecycle\<close> says what the handlers rely on: the stores of the web server belong to the handlers, and a function is
  called at most once, on a session with the identifier asked for. \<open>timed_lifecycle\<close> is the same contract for a relation \<open>since\<close> between
  an earlier and a later state, so that what a function saw can be placed within the request. Both hold of the manager of
  \<^verbatim>\<open>internal/session\<close>, whose operations are lifted from the host to the exchange.
\<close>

subsection \<open>Exchanges\<close>

record 'w exchange =
  ex_server :: "'w Server"
  ex_response :: "Response option"
  ex_pane :: "(Session \<times> paneBinding) option"
  ex_capture :: "HistoryCapture option"

definition onServer :: "('w Server, 'e, 'a) prog \<Rightarrow> ('w exchange, 'e, 'a) prog" where
  "onServer p = (\<lambda>ex. case p (ex_server ex) of (r, s) \<Rightarrow> (r, ex\<lparr>ex_server := s\<rparr>))"

definition onWorld :: "('w, 'e, 'a) prog \<Rightarrow> ('w Server, 'e, 'a) prog" where
  "onWorld p = (\<lambda>s. case p (sv_world s) of (r, w) \<Rightarrow> (r, s\<lparr>sv_world := w\<rparr>))"

definition onHost :: "('w, 'e, 'a) prog \<Rightarrow> ('w exchange, 'e, 'a) prog" where
  "onHost p = onServer (onWorld p)"

text \<open>What belongs to the web server: everything but the world outside the process.\<close>

definition stores :: "'w Server \<Rightarrow> unit Server" where
  "stores s = \<lparr>sv_cfg = sv_cfg s, sv_auth = sv_auth s, sv_limiter = sv_limiter s, sv_snapshots = sv_snapshots s,
     sv_pasteTokens = sv_pasteTokens s, sv_identity = sv_identity s, sv_resize = sv_resize s, sv_activity = sv_activity s,
     sv_historyCaptures = sv_historyCaptures s, sv_world = ()\<rparr>"

definition own :: "'w exchange \<Rightarrow> unit Server \<times> Response option \<times> (Session \<times> paneBinding) option \<times> HistoryCapture option" where
  "own ex = (stores (ex_server ex), ex_response ex, ex_pane ex, ex_capture ex)"

definition host_of :: "'w exchange \<Rightarrow> 'w" where
  "host_of ex = sv_world (ex_server ex)"

lemma own_onHost [quietI]: "quiet own (onHost p)"
  by (simp add: quiet_def onHost_def onServer_def onWorld_def own_def stores_def split: prod.split)

lemma quiet_host: "quiet view p \<Longrightarrow> quiet (\<lambda>ex. view (host_of ex)) (onHost p)"
  by (simp add: quiet_def onHost_def onServer_def onWorld_def host_of_def split_def)

lemma onHost_iff: "onHost p ex = (r, ex') \<longleftrightarrow>
    (\<exists>w. p (host_of ex) = (r, w) \<and> ex' = ex\<lparr>ex_server := (ex_server ex)\<lparr>sv_world := w\<rparr>\<rparr>)"
  by (auto simp: onHost_def onServer_def onWorld_def host_of_def split: prod.splits)

subsection \<open>The interface\<close>

record ('x, 'e) webSessionLifecycle =
  wl_List :: "('x, 'e, Session list) lifecycle"
  wl_CreateOrSelect :: "string \<Rightarrow> ('x, 'e, Session \<times> bool) lifecycle"
  wl_TerminateWithCleanup :: "string \<Rightarrow> ('x \<Rightarrow> 'x) \<Rightarrow> ('x, 'e, unit) lifecycle"
  wl_TerminateChecked :: "string \<Rightarrow> string \<Rightarrow> (Session \<Rightarrow> ('x, 'e, unit) lifecycle) \<Rightarrow> ('x \<Rightarrow> 'x) \<Rightarrow> ('x, 'e, unit) lifecycle"
  wl_WithSession :: "string \<Rightarrow> (Session \<Rightarrow> ('x, 'e, unit) lifecycle) \<Rightarrow> ('x, 'e, unit) lifecycle"

text \<open>An error of the lifecycle itself, as opposed to one its caller's function returned.\<close>

definition own_error :: "'e sessionError + unit \<Rightarrow> bool" where
  "own_error r \<longleftrightarrow> (\<exists>kind op sid cause. r = Inl (Lifecycle kind op sid cause))"

locale web_lifecycle =
  fixes lc :: "('x, 'e) webSessionLifecycle"
    and mine :: "'x \<Rightarrow> 'o"
  assumes listing: "quiet mine (wl_List lc)"
    and creating: "quiet mine (wl_CreateOrSelect lc name)"
    and using_session: "wl_WithSession lc sid use x = (r, x') \<Longrightarrow>
      own_error r \<and> mine x' = mine x \<or>
      (\<exists>s x1 x2. se_ID s = sid \<and> mine x1 = mine x \<and> use s x1 = (r, x2) \<and> mine x' = mine x2)"
    and terminating: "wl_TerminateChecked lc sid ref check cleanup x = (r, x') \<Longrightarrow>
      own_error r \<and> mine x' = mine x \<or>
      (\<exists>s x1 r1 x2. se_ID s = sid \<and> (ref \<noteq> [] \<longrightarrow> se_PublicRef s = ref) \<and> mine x1 = mine x \<and> check s x1 = (r1, x2) \<and>
         (r1 \<noteq> Inr () \<and> r = r1 \<and> mine x' = mine x2 \<or>
          r1 = Inr () \<and> own_error r \<and> mine x' = mine x2 \<or>
          r1 = Inr () \<and> (own_error r \<or> r = Inr ()) \<and> (\<exists>x3. mine x3 = mine x2 \<and> mine x' = mine (cleanup x3))))"

subsection \<open>Time\<close>

text \<open>\<open>since x y\<close>: \<open>y\<close> is \<open>x\<close> or came after it. A program that only moves forward ends in a state that came after the first.\<close>

definition forward :: "('x \<Rightarrow> 'x \<Rightarrow> bool) \<Rightarrow> ('x, 'e, 'a) prog \<Rightarrow> bool" where
  "forward since p \<longleftrightarrow> (\<forall>x. since x (snd (p x)))"

named_theorems forwardI \<open>programs that only move forward\<close>

lemma forwardD: "forward since p \<Longrightarrow> p x = (r, x') \<Longrightarrow> since x x'"
  by (metis forward_def snd_conv)

lemma forward_runs: "(\<And>x r x'. p x = (r, x') \<Longrightarrow> since x x') \<Longrightarrow> forward since p"
  unfolding forward_def by (metis prod.collapse)

locale passage =
  fixes since :: "'x \<Rightarrow> 'x \<Rightarrow> bool"
  assumes since_refl: "since x x"
    and since_trans: "since x y \<Longrightarrow> since y z \<Longrightarrow> since x z"
begin

lemma forward_return [forwardI]: "forward since (returnP v)" "forward since (failP e)"
  by (simp_all add: forward_def since_refl)

lemma forward_bind [forwardI]:
  assumes "forward since p" "\<And>v. forward since (f v)"
  shows "forward since (bindP p f)"
proof (rule forward_runs)
  fix x r x'
  assume "bindP p f x = (r, x')"
  then show "since x x'"
    by (cases rule: bindP_elim) (use assms in \<open>blast intro: since_trans dest: forwardD\<close>)+
qed

lemma forward_try [forwardI]:
  assumes "forward since p" "\<And>r. forward since (f r)"
  shows "forward since (tryP p f)"
proof (rule forward_runs)
  fix x r x'
  assume "tryP p f x = (r, x')"
  then obtain r1 x1 where "p x = (r1, x1)" "f r1 x1 = (r, x')" by (auto simp: tryP_apply split: prod.splits)
  then show "since x x'" using assms by (blast intro: since_trans dest: forwardD)
qed

lemma forward_mapErr [forwardI]:
  assumes "forward since p"
  shows "forward since (mapErr f p)"
proof (rule forward_runs)
  fix x r x'
  assume "mapErr f p x = (r, x')"
  then have "snd (p x) = x'" by (auto simp: mapErr_def split: prod.splits sum.splits)
  then show "since x x'" using assms by (auto simp: forward_def)
qed

lemma forward_each [forwardI]: "(\<And>v. forward since (f v)) \<Longrightarrow> forward since (eachP f vs)"
  by (induction vs) (auto intro!: forwardI)

end

text \<open>The same contract in time. A function that is called runs in between.\<close>

locale timed_lifecycle = passage since
  for since :: "'x \<Rightarrow> 'x \<Rightarrow> bool" +
  fixes lc :: "('x, 'e) webSessionLifecycle"
  assumes listing: "forward since (wl_List lc)"
    and creating: "forward since (wl_CreateOrSelect lc name)"
    and using_session: "wl_WithSession lc sid use x = (r, x') \<Longrightarrow>
      own_error r \<and> since x x' \<or>
      (\<exists>s x1 x2. se_ID s = sid \<and> since x x1 \<and> use s x1 = (r, x2) \<and> since x2 x')"
    and terminating: "wl_TerminateChecked lc sid ref check cleanup x = (r, x') \<Longrightarrow>
      own_error r \<and> since x x' \<or>
      (\<exists>s x1 r1 x2. se_ID s = sid \<and> (ref \<noteq> [] \<longrightarrow> se_PublicRef s = ref) \<and> since x x1 \<and> check s x1 = (r1, x2) \<and>
         (r1 \<noteq> Inr () \<and> r = r1 \<and> since x2 x' \<or>
          r1 = Inr () \<and> own_error r \<and> since x2 x' \<or>
          r1 = Inr () \<and> (own_error r \<or> r = Inr ()) \<and> (\<exists>x3. since x2 x3 \<and> since (cleanup x3) x')))"
begin

text \<open>A function that only moves forward makes the whole move forward.\<close>

lemma using_forward:
  assumes "\<And>s. forward since (use s)"
  shows "forward since (wl_WithSession lc sid use)"
proof (rule forward_runs)
  fix x r x'
  assume "wl_WithSession lc sid use x = (r, x')"
  from using_session [OF this] show "since x x'" using assms by (blast intro: since_trans dest: forwardD)
qed

text \<open>What time does not change is the handlers' own.\<close>

lemma untimed:
  assumes "\<And>x y. since x y \<Longrightarrow> mine y = mine x"
  shows "web_lifecycle lc mine"
proof (unfold_locales, goal_cases)
  case 1
  then show ?case using listing assms by (simp add: quiet_def forward_def)
next
  case (2 name)
  then show ?case using creating [of name] assms by (simp add: quiet_def forward_def)
next
  case (3 sid use x r x')
  from using_session [OF this] show ?case using assms by metis
next
  case (4 sid ref check cleanup x r x')
  from terminating [OF this] show ?case
    by (elim disjE exE conjE) (blast dest: assms)+
qed

end

text \<open>And what is the handlers' own is an order: nothing of theirs changes.\<close>

lemma own_timed:
  assumes "web_lifecycle lc mine"
  shows "timed_lifecycle (\<lambda>x y. mine y = mine x) lc"
proof (unfold_locales, goal_cases)
  case 3
  then show ?case using web_lifecycle.listing [OF assms] by (simp add: quiet_def forward_def)
next
  case (4 name)
  then show ?case using web_lifecycle.creating [OF assms, of name] by (simp add: quiet_def forward_def)
next
  case (5 sid use x r x')
  from web_lifecycle.using_session [OF assms this] show ?case .
next
  case (6 sid ref check cleanup x r x')
  from web_lifecycle.terminating [OF assms this] show ?case .
qed simp_all

lemma timed_passage: "timed_lifecycle since lc \<Longrightarrow> passage since"
  by (rule timed_lifecycle.axioms)

text \<open>The order of the exchanges of a request, from an order of the worlds: nothing of the server's own changes.\<close>

definition kept_since :: "('w \<Rightarrow> 'w \<Rightarrow> bool) \<Rightarrow> 'w exchange \<Rightarrow> 'w exchange \<Rightarrow> bool" where
  "kept_since since x y \<longleftrightarrow> own y = own x \<and> since (host_of x) (host_of y)"

lemma timed_own: "timed_lifecycle (kept_since since) lc \<Longrightarrow> web_lifecycle lc own"
  by (erule timed_lifecycle.untimed) (simp add: kept_since_def)

lemma kept_passage:
  assumes "passage (kept_since since)"
  shows "passage since"
proof
  let ?at = "\<lambda>w. undefined\<lparr>ex_server := undefined\<lparr>sv_world := w\<rparr>\<rparr>"
  have kept: "kept_since since (?at x) (?at y) \<longleftrightarrow> since x y" for x y
    by (simp add: kept_since_def own_def stores_def host_of_def)
  show "since x x" for x using passage.since_refl [OF assms] kept by blast
  show "since x z" if "since x y" "since y z" for x y z
    using passage.since_trans [OF assms, of "?at x" "?at y" "?at z"] that unfolding kept .
qed

lemma kept_sinceD: "kept_since since x y \<Longrightarrow> own y = own x \<and> since (host_of x) (host_of y)"
  by (simp add: kept_since_def)

lemma host_of_simps [simp]: "host_of (ex\<lparr>ex_server := s\<rparr>) = sv_world s"
  by (simp add: host_of_def)

subsection \<open>The manager behind the interface\<close>

definition managerLifecycle :: "('x, 'e) Manager \<Rightarrow> ('x, 'e) webSessionLifecycle" where
  "managerLifecycle m =
     \<lparr>wl_List = manager_List m, wl_CreateOrSelect = CreateOrSelect m,
      wl_TerminateWithCleanup = (\<lambda>sid cleanup. TerminateWithCleanup m sid (Some cleanup)),
      wl_TerminateChecked = (\<lambda>sid ref check cleanup. TerminateChecked m sid ref (Some check) (Some cleanup)),
      wl_WithSession = WithSession m\<rparr>"

definition liftManager :: "('w, 'e) Manager \<Rightarrow> ('w exchange, 'e) Manager" where
  "liftManager m =
     \<lparr>mg_cfg = mg_cfg m, mg_Ensure = onHost (mg_Ensure m), mg_ListCompatible = onHost (mg_ListCompatible m),
      mg_ReadCompatible = (\<lambda>sid. onHost (mg_ReadCompatible m sid)), mg_Write = (\<lambda>s. onHost (mg_Write m s)),
      mg_Remove = (\<lambda>sid. onHost (mg_Remove m sid)), mg_HasSession = (\<lambda>t. onHost (mg_HasSession m t)),
      mg_CreateManagedSession = (\<lambda>n home options. onHost (mg_CreateManagedSession m n home options)),
      mg_ConfigureHistory = (\<lambda>t. onHost (mg_ConfigureHistory m t)),
      mg_ConfigureManualWindowSize = (\<lambda>t. onHost (mg_ConfigureManualWindowSize m t)),
      mg_SetSessionEnvironment = (\<lambda>t name v. onHost (mg_SetSessionEnvironment m t name v)),
      mg_KillSession = (\<lambda>t. onHost (mg_KillSession m t)), mg_bridgeEnsure = (\<lambda>s. onHost (mg_bridgeEnsure m s)),
      mg_bridgeStop = (\<lambda>s. onHost (mg_bridgeStop m s)), mg_acquire = (\<lambda>dir sid. onHost (mg_acquire m dir sid)),
      mg_release = (\<lambda>sid ex. ex\<lparr>ex_server := (ex_server ex)\<lparr>sv_world := mg_release m sid (host_of ex)\<rparr>\<rparr>),
      mg_mkdirAll = (\<lambda>path. onHost (mg_mkdirAll m path)), mg_chmod = (\<lambda>path. onHost (mg_chmod m path)),
      mg_remove = (\<lambda>path. onHost (mg_remove m path)), mg_NewPublicRef = onHost (mg_NewPublicRef m),
      mg_timestamp = (\<lambda>ex. mg_timestamp m (host_of ex))\<rparr>"

lemma own_errorI [simp]: "own_error (Inl (lifecycleError kind op sid cause))"
  by (simp add: own_error_def lifecycleError_def)

text \<open>A manager whose own steps only move forward; the functions it is given need not.\<close>

locale forward_manager = passage since
  for since :: "'x \<Rightarrow> 'x \<Rightarrow> bool" +
  fixes m :: "('x, 'e) Manager"
  assumes steps: "forward since (mg_Ensure m)" "forward since (mg_ListCompatible m)" "forward since (mg_ReadCompatible m sid)"
      "forward since (mg_Write m s)" "forward since (mg_Remove m sid)" "forward since (mg_HasSession m t)"
      "forward since (mg_CreateManagedSession m n home options)" "forward since (mg_ConfigureHistory m t)"
      "forward since (mg_ConfigureManualWindowSize m t)" "forward since (mg_SetSessionEnvironment m t name v)"
      "forward since (mg_KillSession m t)" "forward since (mg_bridgeEnsure m s)" "forward since (mg_bridgeStop m s)"
      "forward since (mg_acquire m dir sid)" "forward since (mg_mkdirAll m path)" "forward since (mg_chmod m path)"
      "forward since (mg_remove m path)" "forward since (mg_NewPublicRef m)"
    and release: "since x (mg_release m sid x)"
    and reads: "mg_ReadCompatible m sid x = (Inr s, x') \<Longrightarrow> se_ID s = sid"
begin

lemma onward_lock: "forward since (lock m sid)"
  unfolding lock_def ensurePrivateState_def by (intro forwardI steps)

lemma onward_locked:
  assumes "forward since body"
  shows "forward since (locked m operation sid body)"
proof -
  have "forward since (\<lambda>w. case body w of (r, w') \<Rightarrow> (r, mg_release m sid w'))"
    by (rule forward_runs) (use assms in \<open>auto split: prod.splits dest: forwardD intro: since_trans release\<close>)
  then show ?thesis unfolding locked_def by (intro forwardI onward_lock)
qed

lemma onward_migrate: "forward since (migrateRecord m s)"
  unfolding migrateRecord_def Let_def by (auto intro!: forwardI steps)

lemma onward_read: "forward since (readManaged m sid)"
  unfolding readManaged_def by (auto intro!: forwardI steps onward_migrate)

lemma onward_check: "forward since (checkSession m operation sid name)"
  unfolding checkSession_def by (intro forwardI steps)

lemma onward_paths: "since x (snd (removePaths m paths x))"
proof (induction paths arbitrary: x)
  case (Cons path paths)
  obtain r x1 where r: "mg_remove m path x = (r, x1)" by (rule prod.exhaust)
  obtain errs x2 where errs: "removePaths m paths x1 = (errs, x2)" by (rule prod.exhaust)
  have "snd (removePaths m (path # paths) x) = x2" by (simp add: r errs split: sum.split)
  then show ?case using since_trans [OF forwardD [OF steps(17) r] Cons.IH [of x1]] errs by simp
qed (simp add: since_refl)

lemma onward_artifacts: "forward since (removeArtifacts m s)"
proof -
  let ?paths = "[stateFile m ''sockets'' (se_ID s @ ''.sock''), stateFile m ''logs'' (se_ID s @ ''.log''),
    stateFile m ''resize'' (se_ID s @ ''.json''), stateFile m ''resize'' (se_PublicRef s @ ''.json'')]"
  have remove: "forward since (mapErr OfRegistry (mg_Remove m (se_ID s)) :: ('x, 'e, unit) lifecycle)" by (intro forwardI steps)
  have "since x (snd (removeArtifacts m s x))" for x
  proof -
    obtain errs x1 where removed: "removePaths m ?paths x = (errs, x1)" by (rule prod.exhaust)
    have "since x x1" using onward_paths [of x ?paths] removed by simp
    moreover have "since x1 (snd (removeArtifacts m s x))"
      unfolding removeArtifacts_def removed using remove [unfolded forward_def, rule_format, of x1] since_refl by simp
    ultimately show ?thesis by (rule since_trans)
  qed
  then show ?thesis by (simp add: forward_def)
qed

lemma onward_cleanup: "forward since (cleanupLocked m s)"
  unfolding cleanupLocked_def by (intro forwardI steps onward_artifacts)

lemma onward_kill: "forward since (killTmuxIfPresent m name)"
  unfolding killTmuxIfPresent_def by (auto intro!: forwardI steps)

lemma onward_undo: "since x (cleanupNewSession m s x)"
  using onward_artifacts onward_kill steps(13) since_trans unfolding cleanupNewSession_def forward_def by metis

lemma onward_takeDown:
  assumes "\<And>x. since x (f x)" "forward since p"
  shows "forward since (orTakeDown f g p)"
  by (rule forward_runs) (use assms in \<open>auto simp: orTakeDown_def split: prod.splits sum.splits dest: forwardD intro: since_trans\<close>)

lemma onward_ensure: "forward since (ensureBridgeLocked m s)"
  unfolding ensureBridgeLocked_def Let_def by (auto intro!: forwardI steps)

lemma onward_createNew: "forward since (createNew m name)"
proof -
  have kill: "since x (snd (killTmuxIfPresent m name x))" for x
    using onward_kill by (simp add: forward_def)
  have writing: "forward since (orTakeDown (cleanupNewSession m s) f (mg_Write m s') :: ('x, 'e, unit) lifecycle)" for s s' f
    by (intro onward_takeDown onward_undo steps)
  have bridge: "forward since (orTakeDown (cleanupNewSession m s) f (mg_bridgeEnsure m s') :: ('x, 'e, int) lifecycle)" for s s' f
    by (intro onward_takeDown onward_undo steps)
  have ref: "forward since (orTakeDown (cleanupNewSession m s) f (mg_NewPublicRef m) :: ('x, 'e, string) lifecycle)" for s f
    by (intro onward_takeDown onward_undo steps)
  have tail: "forward since (bindP (orTakeDown (cleanupNewSession m s) failed (mg_NewPublicRef m)) (\<lambda>ref.
        bindP (orTakeDown (cleanupNewSession m (s\<lparr>se_PublicRef := ref\<rparr>)) (classifyBridgeError ''create'' name)
          (mg_bridgeEnsure m (s\<lparr>se_PublicRef := ref\<rparr>))) (\<lambda>pid.
        bindP (orTakeDown (cleanupNewSession m (s\<lparr>se_PublicRef := ref, se_PID := pid\<rparr>))
            (\<lambda>e. failed (Wrapped ''write managed session record'' (OfRegistry e)))
          (mg_Write m (s\<lparr>se_PublicRef := ref, se_PID := pid\<rparr>))) (\<lambda>_. returnP (s\<lparr>se_PublicRef := ref, se_PID := pid\<rparr>, True)))))"
    for s failed
    by (intro forward_bind ref bridge writing forward_return)
  show ?thesis
    unfolding createNew_def Let_def
  proof (rule forward_bind [OF onward_check], goal_cases)
    case (1 exists)
    have begun: "forward since (bindP (orTakeDown (\<lambda>w. snd (killTmuxIfPresent m name w)) f p) g :: ('x, 'e, Session \<times> bool) lifecycle)"
      if "forward since p" "\<And>u w. since w (snd (g u w))" for f p g
      using that by (intro forward_bind onward_takeDown kill) (simp_all add: forward_def)
    show ?case
    proof (cases "exists")
      case False
      show ?thesis unfolding if_not_P [OF False]
      proof (rule begun [OF steps(7)], goal_cases)
        case (1 u w)
        show ?case
          by (rule tail [of "newSession m name (mg_timestamp m w)", unfolded forward_def, rule_format])
      qed
    qed (simp add: forwardI)
  qed
qed

lemma onward_create: "forward since (CreateOrSelect m name)"
proof -
  have "since x (snd (createLocked m name x))" for x
  proof -
    obtain r x1 where read: "readManaged m name x = (r, x1)" by (rule prod.exhaust)
    have x1: "since x x1" using forwardD [OF onward_read read] .
    have select: "forward since (bindP (checkSession m ''create'' name (se_TmuxName existing)) (\<lambda>alive.
           if alive then bindP (ensureBridgeLocked m existing) (\<lambda>managed. returnP (managed, False))
           else
             bindP (mapErr (\<lambda>e. lifecycleError ErrorDependency ''create'' name (Some e)) (cleanupLocked m existing)) (\<lambda>_.
               createNew m name)))" for existing
      by (auto intro!: forwardI onward_check onward_ensure onward_cleanup onward_createNew)
    show ?thesis
      using read since_trans [OF x1] select onward_createNew x1 by (cases r) (auto simp: createLocked_def forward_def)
  qed
  then have "forward since (createLocked m name)" by (simp add: forward_def)
  then show ?thesis unfolding CreateOrSelect_def by (auto intro!: forwardI onward_locked)
qed

lemma onward_reconcileOne: "forward since (reconcileOne m sid)"
  unfolding reconcileOne_def Let_def
  by (intro onward_locked forward_try onward_read) (auto intro!: forwardI onward_check onward_cleanup onward_ensure split: sum.split)

lemma onward_reconcile: "since x (snd (reconcileEach m sids x))"
proof (induction sids arbitrary: x)
  case (Cons sid sids)
  obtain r x1 where r: "reconcileOne m sid x = (r, x1)" by (rule prod.exhaust)
  obtain kept errs x2 where rest: "reconcileEach m sids x1 = ((kept, errs), x2)" by (metis prod.exhaust)
  have "snd (reconcileEach m (sid # sids) x) = x2" by (simp add: r rest split: sum.split option.split)
  then show ?case using since_trans [OF forwardD [OF onward_reconcileOne r] Cons.IH [of x1]] rest by simp
qed (simp add: since_refl)

lemma onward_list: "forward since (manager_List m)"
proof -
  have "forward since (\<lambda>w. case reconcileEach m sids w of
         ((reconciled, errs), w1) \<Rightarrow> (if errs \<noteq> [] then Inl (sessionError.Joined errs) else Inr reconciled, w1))" for sids
    using onward_reconcile by (auto simp: forward_def split: prod.splits) (metis snd_conv)
  then show ?thesis unfolding manager_List_def Reconcile_def by (intro forwardI steps)
qed

lemma locked_run:
  assumes "locked m operation sid body x = (r, x')"
  obtains (refused) e where "r = Inl (lifecycleError ErrorDependency operation sid (Some e))" "since x x'"
  | (ran) x1 x2 where "since x x1" "body x1 = (r, x2)" "since x2 x'"
  using assms unfolding locked_def
proof (cases rule: bindP_elim)
  case (1 e)
  then show thesis using refused forwardD [OF onward_lock] by (auto simp: result_simps)
next
  case (2 u x1)
  then obtain x2 where "body x1 = (r, x2)" "x' = mg_release m sid x2" by (auto split: prod.splits)
  moreover have "since x x1" using 2(1) forwardD [OF onward_lock] by (auto simp: result_simps)
  ultimately show thesis using ran release by simp
qed

lemma read_ID:
  assumes "readManaged m sid x = (Inr s, x')"
  shows "se_ID s = sid"
  using assms unfolding readManaged_def
proof (cases rule: bindP_elim)
  case (2 s0 x1)
  then have "se_ID s0 = sid" using reads by (auto simp: result_simps)
  with 2(2) show ?thesis by (auto simp: migrateRecord_def Let_def result_simps split: if_splits elim!: bindP_elim)
qed simp

lemma live_cases:
  assumes "liveSession m operation sid x = (r, x')"
  shows "since x x' \<and> (case r of Inl e \<Rightarrow> (\<exists>kind op n cause. e = Lifecycle kind op n cause) | Inr s \<Rightarrow> se_ID s = sid)"
  using assms unfolding liveSession_def
proof (cases rule: bindP_elim)
  case (1 e)
  then show ?thesis
    using forwardD [OF onward_read] by (auto simp: result_simps classifyManagedReadError_def lifecycleError_def)
next
  case (2 s x1)
  then have s: "se_ID s = sid" "since x x1" using read_ID forwardD [OF onward_read] by (auto simp: result_simps)
  from 2(2) show ?thesis
  proof (cases rule: bindP_elim)
    case (1 e)
    then show ?thesis
      using since_trans [OF s(2) forwardD [OF onward_check 1(1)]] by (auto simp: checkSession_def result_simps lifecycleError_def)
  next
    case (2 alive x2)
    then have x2: "since x x2" using since_trans [OF s(2) forwardD [OF onward_check 2(1)]] by simp
    show ?thesis
    proof (cases "alive")
      case True
      with 2(2) x2 s(1) show ?thesis by auto
    next
      case False
      with 2(2) have "tryP (cleanupLocked m s) (\<lambda>r. failP (lifecycleError ErrorNotFound operation sid
          (case r of Inl e \<Rightarrow> Some e | Inr _ \<Rightarrow> None))) x2 = (r, x')" by simp
      then show ?thesis
        using forwardD [OF onward_cleanup] since_trans [OF x2] by (auto simp: tryP_apply lifecycleError_def split: prod.splits)
    qed
  qed
qed

lemma with_session_cases:
  assumes "WithSession m sid use x = (r, x')"
  shows "own_error r \<and> since x x' \<or>
    (\<exists>s x1 x2. se_ID s = sid \<and> since x x1 \<and> use s x1 = (r, x2) \<and> since x2 x')"
proof (cases "ValidID sid")
  case True
  with assms have "locked m ''use'' sid (bindP (liveSession m ''use'' sid) use) x = (r, x')" by (simp add: WithSession_def)
  then show ?thesis
  proof (cases rule: locked_run)
    case (ran x1 x2)
    from ran(2) show ?thesis
    proof (cases rule: bindP_elim)
      case (1 e)
      have "since x x'" using live_cases [OF 1(1)] since_trans [OF ran(1)] since_trans [OF _ ran(3)] by blast
      with 1 show ?thesis using live_cases [OF 1(1)] by (auto simp: own_error_def)
    next
      case (2 s x3)
      then have "se_ID s = sid" "since x x3" using live_cases [OF 2(1)] since_trans [OF ran(1)] by auto
      with 2(2) ran(3) show ?thesis by blast
    qed
  qed simp
qed (use assms since_refl own_errorI in \<open>auto simp: WithSession_def\<close>)

lemma end_cases:
  assumes "endSession m sid (Some cleanup) s x = (r, x')"
  shows "own_error r \<and> since x x' \<or>
    (own_error r \<or> r = Inr ()) \<and> (\<exists>x3. since x x3 \<and> since (cleanup x3) x')"
  using assms unfolding endSession_def Let_def
proof (cases rule: bindP_elim)
  case (1 e)
  then show ?thesis using forwardD [OF steps(13)] by (auto simp: result_simps)
next
  case (2 u x1)
  then have x1: "since x x1" using forwardD [OF steps(13)] by (auto simp: result_simps)
  from 2(2) show ?thesis
  proof (cases rule: bindP_elim)
    case (1 e)
    then show ?thesis using since_trans [OF x1 forwardD [OF onward_check 1(1)]] by (auto simp: checkSession_def result_simps)
  next
    case (2 alive x2)
    then have x2: "since x x2" using since_trans [OF x1 forwardD [OF onward_check 2(1)]] by simp
    from 2(2) show ?thesis
    proof (cases rule: bindP_elim)
      case (1 e)
      then show ?thesis using forwardD [OF steps(11)] since_trans [OF x2] by (cases alive) (auto simp: result_simps)
    next
      case (2 v x3)
      then have x3: "since x x3" using forwardD [OF steps(11)] since_trans [OF x2] x2 by (cases alive) (auto simp: result_simps)
      obtain r1 where "removeArtifacts m s (cleanup x3) = (r1, x')" "own_error r \<or> r = Inr ()"
        using 2(2) by (cases r) (auto simp: result_simps)
      then show ?thesis using forwardD [OF onward_artifacts] x3 by blast
    qed
  qed
qed

lemma terminate_checked_cases:
  assumes "TerminateChecked m sid ref (Some check) (Some cleanup) x = (r, x')"
  shows "own_error r \<and> since x x' \<or>
      (\<exists>s x1 r1 x2. se_ID s = sid \<and> (ref \<noteq> [] \<longrightarrow> se_PublicRef s = ref) \<and> since x x1 \<and> check s x1 = (r1, x2) \<and>
         (r1 \<noteq> Inr () \<and> r = r1 \<and> since x2 x' \<or>
          r1 = Inr () \<and> own_error r \<and> since x2 x' \<or>
          r1 = Inr () \<and> (own_error r \<or> r = Inr ()) \<and> (\<exists>x3. since x2 x3 \<and> since (cleanup x3) x')))"
proof (cases "ValidID sid")
  case True
  with assms have "locked m ''terminate'' sid
        (bindP (mapErr (classifyManagedReadError ''terminate'' sid) (readManaged m sid)) (\<lambda>managed.
         if ref \<noteq> [] \<and> se_PublicRef managed \<noteq> ref then
           failP (lifecycleError ErrorNotFound ''terminate'' sid (Some (Plain ''public session reference changed'')))
         else bindP (check managed) (\<lambda>_. endSession m sid (Some cleanup) managed))) x = (r, x')"
    by (simp add: TerminateChecked_def cong: if_cong)
  then show ?thesis
  proof (cases rule: locked_run)
    case (ran x1 x2)
    from ran(2) show ?thesis
    proof (cases rule: bindP_elim)
      case (1 e)
      then have "since x1 x2" using forwardD [OF onward_read] by (auto simp: result_simps)
      then have "since x x'" using since_trans [OF ran(1)] since_trans [OF _ ran(3)] by blast
      with 1 show ?thesis by (auto simp: result_simps classifyManagedReadError_def)
    next
      case (2 s x3)
      then have s: "se_ID s = sid" "since x x3" using read_ID since_trans [OF ran(1) forwardD [OF onward_read]] by (auto simp: result_simps)
      show ?thesis
      proof (cases "ref \<noteq> [] \<and> se_PublicRef s \<noteq> ref")
        case True
        with 2(2) s(2) since_trans [OF _ ran(3)] show ?thesis by auto
      next
        case False
        with 2(2) have "bindP (check s) (\<lambda>_. endSession m sid (Some cleanup) s) x3 = (r, x2)" by simp
        then show ?thesis
        proof (cases rule: bindP_elim)
          case (1 e)
          with s False ran(3) show ?thesis using since_trans by blast
        next
          case (2 u x4)
          have "own_error r \<and> since x4 x2 \<or>
              (own_error r \<or> r = Inr ()) \<and> (\<exists>x3. since x4 x3 \<and> since (cleanup x3) x2)"
            by (rule end_cases [OF 2(2)])
          with 2(1) s False since_trans [OF _ ran(3)] show ?thesis
            by (intro disjI2 exI [of _ s] exI [of _ x3] exI [of _ "Inr ()"] exI [of _ x4]) auto
        qed
      qed
    qed
  qed simp
qed (use assms since_refl own_errorI in \<open>auto simp: TerminateChecked_def\<close>)

end

sublocale forward_manager \<subseteq> web: timed_lifecycle since "managerLifecycle m"
proof (unfold_locales, goal_cases)
  case (3 sid use x r x')
  then show ?case by (intro with_session_cases) (simp add: managerLifecycle_def)
next
  case (4 sid ref check cleanup x r x')
  then show ?case by (intro terminate_checked_cases) (simp add: managerLifecycle_def)
qed (simp_all add: managerLifecycle_def onward_list onward_create)

subsection \<open>The manager of the program\<close>

text \<open>A tmux client and a host whose commands and calls only move the world forward.\<close>

locale timed_host = passage since
  for since :: "'t \<Rightarrow> 't \<Rightarrow> bool" +
  fixes c :: "'t Client" and host :: "('t, 'e) host"
  assumes commands: "forward since (cl_run c args)" "forward since (cl_output c args)"
    and calls: "forward since (ho_bridgeEnsure host s)" "forward since (ho_bridgeStop host s)" "forward since (ho_acquire host dir sid)"
      "forward since (ho_mkdirAll host path)" "forward since (ho_chmod host path)" "forward since (ho_remove host path)"
      "forward since (ho_NewPublicRef host)"
    and releases: "since t (ho_release host sid t)"
begin

lemma forward_has: "forward since (HasSession c t)"
  unfolding HasSession_def by (intro forwardI commands) (auto intro!: forwardI split: sum.split tmuxError.split)

lemma forward_kill: "forward since (KillSession c t)"
  unfolding KillSession_def by (rule commands)

lemma forward_history: "forward since (ConfigureHistory c t)"
  unfolding ConfigureHistory_def by (rule commands)

lemma forward_windows: "forward since (ConfigureManualWindowSize c t)"
  unfolding ConfigureManualWindowSize_def managedWindowIDs_def Let_def
  by (intro forwardI commands) (auto intro!: forwardI)

lemma forward_environment: "forward since (SetSessionEnvironment c t name value)"
  unfolding SetSessionEnvironment_def by (auto intro!: forwardI commands)

lemma forward_managed: "forward since (CreateManagedSession c n home options)"
  unfolding CreateManagedSession_def ConfigureManagedSession_def
  by (auto intro!: forwardI commands forward_history forward_windows)

end

lemma program_reads:
  "mg_ReadCompatible (newManager cfg faults parseTime temp store c host) sid w = (Inr s, w') \<Longrightarrow> se_ID s = sid"
  using read_compatible_cases [of faults store sid "sy_registry w"] by (auto simp: newManager_def onRegistry_iff)

text \<open>What the manager does to the exchange, when what it does to the system moves forward.\<close>

definition system_since :: "('t \<Rightarrow> 't \<Rightarrow> bool) \<Rightarrow> 't System \<Rightarrow> 't System \<Rightarrow> bool" where
  "system_since since w w' \<longleftrightarrow> since (sy_rest w) (sy_rest w')"

lemma forward_onRest: "forward since p \<Longrightarrow> forward (kept_since (system_since since)) (onHost (onRest p))"
  by (auto simp: onHost_iff onRest_iff kept_since_def system_since_def own_def stores_def host_of_def intro!: forward_runs)
    (rule forwardD)

lemma forward_onRegistry: "(\<And>x. since x x) \<Longrightarrow> forward (kept_since (system_since since)) (onHost (onRegistry p))"
  by (auto simp: forward_def onHost_def onServer_def onWorld_def onRegistry_def kept_since_def system_since_def own_def stores_def
      host_of_def split: prod.split)

sublocale timed_host \<subseteq> manager: forward_manager "kept_since (system_since since)"
    "liftManager (newManager cfg faults parseTime temp store c host)"
  for cfg faults parseTime temp store
proof (unfold_locales, goal_cases)
  case (1 x)
  then show ?case by (simp add: kept_since_def system_since_def since_refl)
next
  case (2 x y z)
  then show ?case by (auto simp: kept_since_def system_since_def intro: since_trans)
next
  case (21 x sid)
  then show ?case
    by (simp add: kept_since_def system_since_def liftManager_def newManager_def own_def stores_def host_of_def releases)
next
  case (22 sid x s x')
  then show ?case using program_reads by (auto simp: liftManager_def onHost_iff)
qed (simp_all add: liftManager_def newManager_def forward_onRest forward_onRegistry [OF since_refl] commands calls forward_has forward_kill
    forward_history forward_windows forward_environment forward_managed)

text \<open>Every client and every host, without an order; then the handlers' own is all that is kept.\<close>

interpretation program: timed_host "\<lambda>_ _. True" c host for c host
  by unfold_locales (simp_all add: forward_def)

interpretation program_web: web_lifecycle "managerLifecycle (liftManager (newManager cfg faults parseTime temp store c host))" own
  for cfg faults parseTime temp store c host
  by (rule timed_own [OF program.manager.web.timed_lifecycle_axioms])

text \<open>A client that records its commands, whose log only grows, and a host that does not write to it.\<close>

definition grown :: "'c list \<times> 'v \<Rightarrow> 'c list \<times> 'v \<Rightarrow> bool" where
  "grown x y \<longleftrightarrow> (\<exists>cmds. fst y = fst x @ cmds)"

definition beside_log :: "('v, 'e, 'a) prog \<Rightarrow> ('c list \<times> 'v, 'e, 'a) prog" where
  "beside_log p = (\<lambda>(log, v). case p v of (r, v') \<Rightarrow> (r, (log, v')))"

definition recording_host :: "('v, 'e) host \<Rightarrow> ('c list \<times> 'v, 'e) host" where
  "recording_host h = \<lparr>ho_bridgeEnsure = (\<lambda>s. beside_log (ho_bridgeEnsure h s)), ho_bridgeStop = (\<lambda>s. beside_log (ho_bridgeStop h s)),
     ho_acquire = (\<lambda>dir sid. beside_log (ho_acquire h dir sid)), ho_release = (\<lambda>sid (log, v). (log, ho_release h sid v)),
     ho_mkdirAll = (\<lambda>path. beside_log (ho_mkdirAll h path)), ho_chmod = (\<lambda>path. beside_log (ho_chmod h path)),
     ho_remove = (\<lambda>path. beside_log (ho_remove h path)), ho_NewPublicRef = beside_log (ho_NewPublicRef h),
     ho_timestamp = (\<lambda>(log, v). ho_timestamp h v)\<rparr>"

lemma grown_passage: "passage grown"
  by unfold_locales (auto simp: grown_def)

lemma forward_beside: "forward grown (beside_log p)"
  by (auto simp: forward_def grown_def beside_log_def split: prod.split)

lemma grown_output: "forward grown (cl_output (logged_client rn binary) args)"
  by (auto simp: forward_def grown_def cl_output_def logged_client_def logged_def logP_def split: prod.split)

lemma grown_run: "forward grown (cl_run (logged_client rn binary) args)"
  by (auto simp: forward_def grown_def cl_run_def logged_client_def logged_def logP_def split: prod.split)

interpretation recording: timed_host grown "logged_client rn binary" "recording_host h" for rn binary h
  using grown_passage
  by (auto simp: timed_host_def timed_host_axioms_def grown_output grown_run recording_host_def forward_beside)
    (simp add: grown_def)

end
