(* ===== verification/Request_Json.thy ===== *)
theory Request_Json
  imports Http Snapshot_Manager
begin

section \<open>JSON request bodies\<close>

text \<open>
  How \<^verbatim>\<open>internal/server/server.go\<close> reads the body of a request: \<open>decodeLifecycleRequest\<close> with \<open>validateObjectFields\<close>
  and \<open>decodeStringFields\<close>, and the part of \<^verbatim>\<open>encoding/json\<close> they use. A body is one object whose names
  are known and distinct. Every field of every request is a string, an integer or a boolean, so an array or
  an object as a value is always refused, and the parser refuses it at once. A body that is not valid UTF-8 is refused
  before it is parsed.

  The lemmas show that what the program's own encoder prints is read back, and that every string of
  a decoded request is valid UTF-8.
\<close>

subsection \<open>Text\<close>

datatype json =
    JString string
  | JNumber string
  | JBool bool
  | JNull

definition json_ws :: "char \<Rightarrow> bool" where
  "json_ws c \<longleftrightarrow> c = CHR '' '' \<or> c = CHR 0x09 \<or> c = CHR 0x0A \<or> c = CHR 0x0D"

definition skip_ws :: "string \<Rightarrow> string" where
  "skip_ws s = dropWhile json_ws s"

text \<open>\<^verbatim>\<open>utf8.EncodeRune\<close> on a rune that is not a surrogate.\<close>

definition encode_rune :: "rune \<Rightarrow> string" where
  "encode_rune r =
     (if r < 128 then [char_of r]
      else if r < 2048 then [char_of (192 + r div 64), char_of (128 + r mod 64)]
      else if r < 65536 then [char_of (224 + r div 4096), char_of (128 + r div 64 mod 64), char_of (128 + r mod 64)]
      else [char_of (240 + r div 262144), char_of (128 + r div 4096 mod 64), char_of (128 + r div 64 mod 64),
        char_of (128 + r mod 64)])"

definition hex_rune :: "char \<Rightarrow> char \<Rightarrow> char \<Rightarrow> char \<Rightarrow> rune option" where
  "hex_rune a b c d =
     (case (hexval a, hexval b, hexval c, hexval d) of
        (Some w, Some x, Some y, Some z) \<Rightarrow> Some (w * 4096 + x * 256 + y * 16 + z)
      | _ \<Rightarrow> None)"

text \<open>The second half of a surrogate pair, if the text goes on with one.\<close>

definition low_surrogate :: "string \<Rightarrow> rune option" where
  "low_surrogate s =
     (case s of
        e # u # a # b # c # d # _ \<Rightarrow>
          if e = CHR 0x5C \<and> u = CHR ''u'' then
            (case hex_rune a b c d of
               Some r \<Rightarrow> if 0xDC00 \<le> r \<and> r < 0xE000 then Some r else None
             | None \<Rightarrow> None)
          else None
      | _ \<Rightarrow> None)"

definition simple_escape :: "char \<Rightarrow> char option" where
  "simple_escape c = map_of [(CHR 0x22, CHR 0x22), (CHR 0x5C, CHR 0x5C), (CHR ''/'', CHR ''/''), (CHR ''b'', CHR 0x08),
     (CHR ''f'', CHR 0x0C), (CHR ''n'', CHR 0x0A), (CHR ''r'', CHR 0x0D), (CHR ''t'', CHR 0x09)] c"

text \<open>A string after its opening quote: its value, and the text after the closing quote.\<close>

fun json_unquote :: "string \<Rightarrow> (string \<times> string) option" where
  "json_unquote [] = None"
| "json_unquote (c # s) =
     (if c = CHR 0x22 then Some ([], s)
      else if byte c < 32 then None
      else if c \<noteq> CHR 0x5C then map_option (\<lambda>(t, rest). (c # t, rest)) (json_unquote s)
      else
        (case s of
           [] \<Rightarrow> None
         | e # s1 \<Rightarrow>
             if e \<noteq> CHR ''u'' then
               (case simple_escape e of
                  None \<Rightarrow> None
                | Some v \<Rightarrow> map_option (\<lambda>(t, rest). (v # t, rest)) (json_unquote s1))
             else
               (case s1 of
                  h1 # h2 # h3 # h4 # s2 \<Rightarrow>
                    (case hex_rune h1 h2 h3 h4 of
                       None \<Rightarrow> None
                     | Some r \<Rightarrow>
                         if 0xD800 \<le> r \<and> r < 0xE000 then
                           (case if r < 0xDC00 then low_surrogate s2 else None of
                              None \<Rightarrow> map_option (\<lambda>(t, rest). (encode_rune rune_error @ t, rest)) (json_unquote s2)
                            | Some low \<Rightarrow> map_option (\<lambda>(t, rest).
                                (encode_rune ((r - 0xD800) * 1024 + (low - 0xDC00) + 0x10000) @ t, rest))
                                (json_unquote (drop 6 s2)))
                         else map_option (\<lambda>(t, rest). (encode_rune r @ t, rest)) (json_unquote s2))
                | _ \<Rightarrow> None)))"

definition takes_digits :: "string \<Rightarrow> (string \<times> string) option" where
  "takes_digits s = (if takeWhile is_digit s = [] then None else Some (takeWhile is_digit s, dropWhile is_digit s))"

text \<open>The text of a number, and what follows.\<close>

definition number_fraction :: "string \<times> string \<Rightarrow> (string \<times> string) option" where
  "number_fraction = (\<lambda>(lit, s).
     case s of
       c # t \<Rightarrow> if c = CHR ''.'' then map_option (\<lambda>(ds, rest). (lit @ [c] @ ds, rest)) (takes_digits t) else Some (lit, s)
     | [] \<Rightarrow> Some (lit, s))"

fun exponent_sign :: "string \<Rightarrow> string \<times> string" where
  "exponent_sign (c # s) = (if c = CHR ''+'' \<or> c = CHR ''-'' then ([c], s) else ([], c # s))"
| "exponent_sign [] = ([], [])"

definition number_exponent :: "string \<times> string \<Rightarrow> (string \<times> string) option" where
  "number_exponent = (\<lambda>(lit, s).
     case s of
       c # t \<Rightarrow>
         if c = CHR ''e'' \<or> c = CHR ''E'' then
           (case exponent_sign t of
              (sign, u) \<Rightarrow> map_option (\<lambda>(ds, rest). (lit @ [c] @ sign @ ds, rest)) (takes_digits u))
         else Some (lit, s)
     | [] \<Rightarrow> Some (lit, s))"

definition number_whole :: "string \<Rightarrow> (string \<times> string) option" where
  "number_whole s =
     (case s of
        [] \<Rightarrow> None
      | c # t \<Rightarrow>
          if c = CHR ''0'' then Some ([c], t) else takes_digits s)"

definition json_number :: "string \<Rightarrow> (string \<times> string) option" where
  "json_number s =
     (case s of
        [] \<Rightarrow> None
      | c # t \<Rightarrow>
          Option.bind (if c = CHR ''-'' then map_option (\<lambda>(ds, rest). (c # ds, rest)) (number_whole t) else number_whole s)
            (\<lambda>r. Option.bind (number_fraction r) number_exponent))"

definition json_scalar :: "string \<Rightarrow> (json \<times> string) option" where
  "json_scalar s =
     (case s of
        [] \<Rightarrow> None
      | c # t \<Rightarrow>
          if c = CHR 0x22 then map_option (\<lambda>(v, rest). (JString v, rest)) (json_unquote t)
          else if has_prefix s ''true'' then Some (JBool True, drop 4 s)
          else if has_prefix s ''false'' then Some (JBool False, drop 5 s)
          else if has_prefix s ''null'' then Some (JNull, drop 4 s)
          else map_option (\<lambda>(lit, rest). (JNumber lit, rest)) (json_number s))"

text \<open>The members after the opening brace; \<open>n\<close> bounds their number.\<close>

fun json_members :: "nat \<Rightarrow> string \<Rightarrow> ((string \<times> json) list \<times> string) option" where
  "json_members 0 s = None"
| "json_members (Suc n) s =
     (case skip_ws s of
        [] \<Rightarrow> None
      | q # t \<Rightarrow>
          if q \<noteq> CHR 0x22 then None
          else
            (case json_unquote t of
               None \<Rightarrow> None
             | Some (key, u) \<Rightarrow>
                 (case skip_ws u of
                    [] \<Rightarrow> None
                  | colon # v \<Rightarrow>
                      if colon \<noteq> CHR '':'' then None
                      else
                        (case json_scalar (skip_ws v) of
                           None \<Rightarrow> None
                         | Some (value, x) \<Rightarrow>
                             (case skip_ws x of
                                [] \<Rightarrow> None
                              | c # y \<Rightarrow>
                                  if c = CHR ''}'' then Some ([(key, value)], y)
                                  else if c = CHR '','' then map_option (\<lambda>(ms, rest). ((key, value) # ms, rest)) (json_members n y)
                                  else None)))))"

definition json_parseObject :: "string \<Rightarrow> ((string \<times> json) list \<times> string) option" where
  "json_parseObject s =
     (case skip_ws s of
        [] \<Rightarrow> None
      | c # t \<Rightarrow>
          if c \<noteq> CHR ''{'' then None
          else (case skip_ws t of
              [] \<Rightarrow> None
            | d # rest \<Rightarrow> if d = CHR ''}'' then Some ([], rest) else json_members (length t) t))"

subsection \<open>Requests\<close>

definition lifecycleRequestMaxBytes :: nat where "lifecycleRequestMaxBytes = 4 * 1024"

text \<open>The object of a body, with known and distinct names and nothing after it.\<close>

definition validateObjectFields :: "string list \<Rightarrow> (string \<times> json) list \<Rightarrow> bool" where
  "validateObjectFields allowed members \<longleftrightarrow> distinct (map fst members) \<and> set (map fst members) \<subseteq> set allowed"

definition decodeObject :: "string list \<Rightarrow> string \<Rightarrow> (string \<times> json) list option" where
  "decodeObject allowed data =
     (if \<not> valid_utf8 data then None
      else case json_parseObject data of
          None \<Rightarrow> None
        | Some (members, rest) \<Rightarrow> if validateObjectFields allowed members \<and> skip_ws rest = [] then Some members else None)"

definition decodeLifecycleRequest :: "string list \<Rightarrow> Request \<Rightarrow> (string \<times> json) list option" where
  "decodeLifecycleRequest allowed r = Option.bind (readBody lifecycleRequestMaxBytes r) (decodeObject allowed)"

text \<open>
  The value of a field: a missing one and \<^verbatim>\<open>null\<close> leave the zero value, a value of another type is an error.
  \<open>stringField\<close> is the reading of a pointer by \<open>decodeStringFields\<close>, which refuses both.
\<close>

definition textField :: "string \<Rightarrow> (string \<times> json) list \<Rightarrow> string option" where
  "textField name members =
     (case map_of members name of None \<Rightarrow> Some [] | Some JNull \<Rightarrow> Some [] | Some (JString v) \<Rightarrow> Some v | Some _ \<Rightarrow> None)"

definition intField :: "string \<Rightarrow> (string \<times> json) list \<Rightarrow> int option" where
  "intField name members =
     (case map_of members name of None \<Rightarrow> Some 0 | Some JNull \<Rightarrow> Some 0 | Some (JNumber lit) \<Rightarrow> parse_int lit | Some _ \<Rightarrow> None)"

definition boolField :: "string \<Rightarrow> (string \<times> json) list \<Rightarrow> bool option" where
  "boolField name members =
     (case map_of members name of None \<Rightarrow> Some False | Some JNull \<Rightarrow> Some False | Some (JBool b) \<Rightarrow> Some b | Some _ \<Rightarrow> None)"

definition stringField :: "string \<Rightarrow> (string \<times> json) list \<Rightarrow> string option" where
  "stringField name members = (case map_of members name of Some (JString v) \<Rightarrow> Some v | _ \<Rightarrow> None)"


subsection \<open>Strings are valid UTF-8\<close>

lemma valid_utf8_step: "s \<noteq> [] \<Longrightarrow> valid_utf8 s \<longleftrightarrow>
    decode_rune s \<noteq> (rune_error, 1) \<and> valid_utf8 (drop (snd (decode_rune s)) s)"
  by (subst valid_utf8.simps) simp

lemma valid_utf8_Nil [simp]: "valid_utf8 []"
  by (subst valid_utf8.simps) simp

lemma valid_utf8_Cons [simp]: "byte c < 128 \<Longrightarrow> valid_utf8 (c # s) \<longleftrightarrow> valid_utf8 s"
  by (subst valid_utf8_step) (simp_all add: decode_rune_ascii rune_error_def)

lemma decode_encode:
  assumes "r < 0x110000" "\<not> (0xD800 \<le> r \<and> r < 0xE000)"
  shows "decode_rune (encode_rune r @ s) = (r, length (encode_rune r))"
proof -
  consider "r < 128" | "128 \<le> r" "r < 2048" | "2048 \<le> r" "r < 65536" | "65536 \<le> r" by linarith
  then show ?thesis
  proof cases
    case 1
    then show ?thesis by (simp add: encode_rune_def decode_rune_ascii)
  next
    case 2
    then have "r div 64 < 32" "2 \<le> r div 64" by linarith+
    with 2 show ?thesis
      by (simp add: encode_rune_def decode_rune_def Let_def utf8_cont_def cont_bits_def)
  next
    case 3
    define a b c where "a = r div 4096" and "b = r div 64 mod 64" and "c = r mod 64"
    have r: "r = a * 4096 + b * 64 + c"
    proof -
      have "r = r div 64 * 64 + c" by (simp add: c_def)
      moreover have "r div 64 = r div 64 div 64 * 64 + b" by (simp add: b_def)
      ultimately show ?thesis by (simp add: a_def div_mult2_eq [symmetric])
    qed
    have bounds: "a < 16" "b < 64" "c < 64" using 3 by (simp_all add: a_def b_def c_def)
    moreover have "a = 0 \<Longrightarrow> 32 \<le> b" using 3 r \<open>c < 64\<close> by linarith
    moreover have "a = 13 \<Longrightarrow> b < 32" using r assms(2) bounds by linarith
    ultimately show ?thesis
      using 3 by (simp add: encode_rune_def decode_rune_def Let_def utf8_cont_def utf8_second_def cont_bits_def
          a_def [symmetric] b_def [symmetric] c_def [symmetric]) (simp add: r)
  next
    case 4
    define a b c d where "a = r div 262144" and "b = r div 4096 mod 64" and "c = r div 64 mod 64" and "d = r mod 64"
    have r: "r = a * 262144 + b * 4096 + c * 64 + d"
    proof -
      have "r = r div 64 * 64 + d" by (simp add: d_def)
      moreover have "r div 64 = r div 64 div 64 * 64 + c" by (simp add: c_def)
      moreover have "r div 4096 = r div 4096 div 64 * 64 + b" by (simp add: b_def)
      ultimately show ?thesis by (simp add: a_def div_mult2_eq [symmetric])
    qed
    have "a \<le> 4" "b < 64" "c < 64" "d < 64" using assms(1) by (simp_all add: a_def b_def c_def d_def)
    moreover have "a = 0 \<Longrightarrow> 16 \<le> b" using 4 r \<open>c < 64\<close> \<open>d < 64\<close> by linarith
    moreover have "a = 4 \<Longrightarrow> b < 16" using assms(1) r by linarith
    ultimately show ?thesis
      using 4 by (simp add: encode_rune_def decode_rune_def Let_def utf8_cont_def utf8_second_def cont_bits_def
          a_def [symmetric] b_def [symmetric] c_def [symmetric] d_def [symmetric]) (simp add: r)
  qed
qed

lemma valid_utf8_encode:
  assumes "r < 0x110000" "\<not> (0xD800 \<le> r \<and> r < 0xE000)" "valid_utf8 t"
  shows "valid_utf8 (encode_rune r @ t)"
proof -
  have "encode_rune r \<noteq> []" by (simp add: encode_rune_def)
  moreover have "(r, length (encode_rune r)) \<noteq> (rune_error, 1)" by (auto simp: encode_rune_def rune_error_def)
  ultimately show ?thesis using assms by (subst valid_utf8_step) (simp_all add: decode_encode)
qed

lemma unquote_high:
  "list_all (\<lambda>c. 128 \<le> byte c) p \<Longrightarrow>
    json_unquote (p @ s) = map_option (\<lambda>(t, rest). (p @ t, rest)) (json_unquote s)"
proof (induction p)
  case (Cons c p)
  then have "c \<noteq> CHR 0x22" "c \<noteq> CHR 0x5C" by auto
  with Cons show ?case by (cases "json_unquote s") auto
qed (simp add: case_prod_unfold option.map_id0 id_def [symmetric])


lemma hexval_ascii: "hexval c = Some v \<Longrightarrow> byte c < 128 \<and> v < 16"
  by (auto simp: hexval_def is_digit_def split: if_splits)

lemma hex_rune_ascii: "hex_rune a b c d = Some r \<Longrightarrow>
    byte a < 128 \<and> byte b < 128 \<and> byte c < 128 \<and> byte d < 128 \<and> r < 65536"
  by (auto simp: hex_rune_def dest!: hexval_ascii split: option.splits)

lemma simple_escape_ascii: "simple_escape c = Some v \<Longrightarrow> byte c < 128 \<and> byte v < 128"
  by (auto simp: simple_escape_def split: if_splits)

lemma low_surrogate_valid:
  "low_surrogate s = Some r \<Longrightarrow> valid_utf8 s \<Longrightarrow> valid_utf8 (drop 6 s) \<and> 0xDC00 \<le> r \<and> r < 0xE000"
  by (auto simp: low_surrogate_def dest!: hex_rune_ascii split: list.splits if_splits option.splits)

text \<open>A whole rune of several bytes is copied.\<close>

lemma valid_utf8_high:
  assumes "valid_utf8 (c # s)" "128 \<le> byte c"
  obtains p u where "c # s = p @ u" "p \<noteq> []" "list_all (\<lambda>d. 128 \<le> byte d) p" "valid_utf8 u"
    "\<And>t. valid_utf8 t \<Longrightarrow> valid_utf8 (p @ t)"
proof -
  obtain r n where rune: "decode_rune (c # s) = (r, n)" by fastforce
  have good: "(r, n) \<noteq> (rune_error, 1)" "valid_utf8 (drop n (c # s))"
    using assms(1) rune by (simp_all add: valid_utf8_step)
  have n: "1 \<le> n" "n \<le> length (c # s)" using decode_rune_size [of "c # s"] rune by simp_all
  have high: "list_all (\<lambda>d. 128 \<le> byte d) (take n (c # s))"
    by (rule decode_rune_cases [OF rune _ good(1)])
      (use assms(2) in \<open>auto simp: utf8_cont_def utf8_second_def\<close>)
  have "valid_utf8 (take n (c # s) @ t)" if "valid_utf8 t" for t
  proof -
    have "decode_rune (take n (c # s) @ t) = (r, n)" by (rule decode_rune_stable [OF rune _ good(1)]) simp
    moreover have "length (take n (c # s)) = n" "take n (c # s) \<noteq> []" using n by auto
    ultimately show ?thesis using good(1) that by (subst valid_utf8_step) auto
  qed
  then show thesis using that [of "take n (c # s)" "drop n (c # s)"] high good(2) n(1) by auto
qed

lemma encode_error: "valid_utf8 t \<Longrightarrow> valid_utf8 (encode_rune rune_error @ t)"
  by (rule valid_utf8_encode) (simp_all add: rune_error_def)

text \<open>What follows the four digits of an escaped code unit.\<close>

definition unquote_unicode :: "rune \<Rightarrow> string \<Rightarrow> (string \<times> string) option" where
  "unquote_unicode r s2 = (if 0xD800 \<le> r \<and> r < 0xE000 then
     (case if r < 0xDC00 then low_surrogate s2 else None of
        None \<Rightarrow> map_option (\<lambda>(t, rest). (encode_rune rune_error @ t, rest)) (json_unquote s2)
      | Some low \<Rightarrow> map_option (\<lambda>(t, rest). (encode_rune ((r - 0xD800) * 1024 + (low - 0xDC00) + 0x10000) @ t, rest))
          (json_unquote (drop 6 s2)))
     else map_option (\<lambda>(t, rest). (encode_rune r @ t, rest)) (json_unquote s2))"

lemma unquote_unicode_valid:
  assumes "unquote_unicode r s2 = Some (t, rest)" "valid_utf8 s2" "r < 65536"
    and IH: "\<And>u v. valid_utf8 u \<Longrightarrow> length u \<le> length s2 \<Longrightarrow> json_unquote u = Some (v, rest) \<Longrightarrow> valid_utf8 v \<and> valid_utf8 rest"
  shows "valid_utf8 t \<and> valid_utf8 rest"
proof (cases "0xD800 \<le> r \<and> r < 0xE000")
  case False
  with assms(1) obtain v where "json_unquote s2 = Some (v, rest)" "t = encode_rune r @ v"
    by (auto simp: unquote_unicode_def)
  with IH [OF assms(2)] False assms(3) show ?thesis by (simp add: valid_utf8_encode)
next
  case surrogate: True
  show ?thesis
  proof (cases "if r < 0xDC00 then low_surrogate s2 else None")
    case None
    with assms(1) surrogate obtain v where "json_unquote s2 = Some (v, rest)" "t = encode_rune rune_error @ v"
      by (auto simp: unquote_unicode_def)
    with IH [OF assms(2)] show ?thesis by (simp add: encode_error)
  next
    case (Some low)
    then have pair: "r < 0xDC00" "low_surrogate s2 = Some low" by (auto split: if_splits)
    obtain v where v: "json_unquote (drop 6 s2) = Some (v, rest)"
      "t = encode_rune ((r - 0xD800) * 1024 + (low - 0xDC00) + 0x10000) @ v"
      using assms(1) surrogate Some by (auto simp: unquote_unicode_def)
    have low: "valid_utf8 (drop 6 s2)" "0xDC00 \<le> low" "low < 0xE000" using low_surrogate_valid [OF pair(2) assms(2)] by simp_all
    have "(r - 0xD800) * 1024 + (low - 0xDC00) + 0x10000 < 0x110000" using pair(1) low(3) by linarith
    with IH [OF low(1) _ v(1)] v(2) show ?thesis by (simp add: valid_utf8_encode)
  qed
qed

lemma unquote_valid:
  assumes "valid_utf8 s" "json_unquote s = Some (t, rest)"
  shows "valid_utf8 t \<and> valid_utf8 rest"
  using assms
proof (induction "length s" arbitrary: s t rule: less_induct)
  case less
  show ?case
  proof (cases s)
    case Nil
    with less.prems show ?thesis by simp
  next
    case (Cons c s')
    have IH: "valid_utf8 u \<Longrightarrow> length u \<le> length s' \<Longrightarrow> json_unquote u = Some (v, rest) \<Longrightarrow> valid_utf8 v \<and> valid_utf8 rest"
      for u v using less.hyps [of u v] Cons by simp
    show ?thesis
    proof (cases "128 \<le> byte c")
      case True
      obtain p u where p: "c # s' = p @ u" "p \<noteq> []" "list_all (\<lambda>d. 128 \<le> byte d) p" "valid_utf8 u"
        "\<And>t. valid_utf8 t \<Longrightarrow> valid_utf8 (p @ t)"
        using valid_utf8_high [OF less.prems(1) [unfolded Cons] True] by blast
      have "length u \<le> length s'" using p(1,2) by (cases p) auto
      moreover obtain v where "json_unquote u = Some (v, rest)" "t = p @ v"
        using less.prems(2) unfolding Cons p(1) unquote_high [OF p(3)] by auto
      ultimately show ?thesis using IH [OF p(4)] p(5) by blast
    next
      case False
      then have valid: "valid_utf8 s'" using less.prems(1) Cons by simp
      consider "c = CHR 0x22" | (plain) "c \<noteq> CHR 0x22" "c \<noteq> CHR 0x5C" | (escape) "c = CHR 0x5C" by blast
      then show ?thesis
      proof cases
        case 1
        with less.prems(2) Cons valid show ?thesis by simp
      next
        case plain
        with less.prems(2) Cons obtain v where "json_unquote s' = Some (v, rest)" "t = c # v" by (auto split: if_splits)
        with IH [OF valid] False show ?thesis by simp
      next
        case escape
        obtain e s1 where s': "s' = e # s1" using less.prems(2) Cons escape by (cases s') auto
        show ?thesis
        proof (cases "e = CHR ''u''")
          case False
          with less.prems(2) Cons escape s' obtain x v where x: "simple_escape e = Some x" "json_unquote s1 = Some (v, rest)"
            "t = x # v" by (auto split: option.splits)
          with valid s' have "valid_utf8 s1" using simple_escape_ascii by auto
          with IH [OF this _ x(2)] s' x simple_escape_ascii [OF x(1)] show ?thesis by simp
        next
          case True
          with less.prems(2) Cons escape s' obtain h1 h2 h3 h4 s2 r where s1: "s1 = h1 # h2 # h3 # h4 # s2"
            and r: "hex_rune h1 h2 h3 h4 = Some r" by (auto split: list.splits option.splits)
          have hex: "byte h1 < 128" "byte h2 < 128" "byte h3 < 128" "byte h4 < 128" "r < 65536"
            using hex_rune_ascii [OF r] by simp_all
          with valid s' s1 True have s2: "valid_utf8 s2" by simp
          have "unquote_unicode r s2 = Some (t, rest)"
            using less.prems(2) Cons escape s' s1 True r by (simp add: unquote_unicode_def)
          then show ?thesis by (rule unquote_unicode_valid) (use s2 hex(5) IH s' s1 in auto)
        qed
      qed
    qed
  qed
qed


lemma valid_utf8_ascii_append: "list_all (\<lambda>c. byte c < 128) p \<Longrightarrow> valid_utf8 (p @ s) \<longleftrightarrow> valid_utf8 s"
  by (induction p) simp_all

lemma takes_digits_split: "takes_digits s = Some (ds, rest) \<Longrightarrow> s = ds @ rest \<and> list_all (\<lambda>c. byte c < 128) ds"
  by (auto simp: takes_digits_def list_all_iff is_digit_def dest!: set_takeWhileD split: if_splits)

lemma number_steps:
  "number_whole s = Some (ds, rest) \<Longrightarrow> s = ds @ rest \<and> list_all (\<lambda>c. byte c < 128) ds"
  "number_fraction (lit, t) = Some (lit', t') \<Longrightarrow> \<exists>p. lit' = lit @ p \<and> t = p @ t' \<and> list_all (\<lambda>c. byte c < 128) p"
  "number_exponent (lit, t) = Some (lit', t') \<Longrightarrow> \<exists>p. lit' = lit @ p \<and> t = p @ t' \<and> list_all (\<lambda>c. byte c < 128) p"
proof -
  have sign: "exponent_sign u = (sg, w) \<Longrightarrow> u = sg @ w \<and> list_all (\<lambda>c. byte c < 128) sg" for u sg w
    by (cases u) (auto split: if_splits)
  show "number_whole s = Some (ds, rest) \<Longrightarrow> s = ds @ rest \<and> list_all (\<lambda>c. byte c < 128) ds"
    by (auto simp: number_whole_def dest!: takes_digits_split split: list.splits if_splits)
  show "number_fraction (lit, t) = Some (lit', t') \<Longrightarrow> \<exists>p. lit' = lit @ p \<and> t = p @ t' \<and> list_all (\<lambda>c. byte c < 128) p"
    by (auto simp: number_fraction_def dest!: takes_digits_split split: list.splits if_splits)
  show "number_exponent (lit, t) = Some (lit', t') \<Longrightarrow> \<exists>p. lit' = lit @ p \<and> t = p @ t' \<and> list_all (\<lambda>c. byte c < 128) p"
    by (auto simp: number_exponent_def dest!: takes_digits_split sign split: list.splits if_splits prod.splits)
qed

lemma number_split:
  assumes "json_number s = Some (lit, rest)"
  shows "s = lit @ rest \<and> list_all (\<lambda>c. byte c < 128) lit"
proof -
  from assms obtain c t l0 t0 l1 t1 where s: "s = c # t"
    and first: "(if c = CHR ''-'' then map_option (\<lambda>(ds, rest). (c # ds, rest)) (number_whole t) else number_whole s) = Some (l0, t0)"
    and steps: "number_fraction (l0, t0) = Some (l1, t1)" "number_exponent (l1, t1) = Some (lit, rest)"
    unfolding json_number_def bind_eq_Some_conv by (auto simp: bind_eq_Some_conv split: list.splits)
  have "s = l0 @ t0" "list_all (\<lambda>c. byte c < 128) l0"
    using first s by (auto dest: number_steps(1) split: if_splits)
  with number_steps(2) [OF steps(1)] number_steps(3) [OF steps(2)] show ?thesis by auto
qed

definition json_valid :: "json \<Rightarrow> bool" where
  "json_valid v = (case v of JString t \<Rightarrow> valid_utf8 t | _ \<Rightarrow> True)"

lemma literal_valid: "has_prefix s p \<Longrightarrow> list_all (\<lambda>c. byte c < 128) p \<Longrightarrow> valid_utf8 s \<Longrightarrow> valid_utf8 (drop (length p) s)"
  by (auto simp: has_prefix_iff valid_utf8_ascii_append)

lemma scalar_cases:
  assumes "json_scalar s = Some (v, rest)"
  obtains (string) t u where "s = CHR 0x22 # t" "json_unquote t = Some (u, rest)" "v = JString u"
  | (literal) p where "has_prefix s p" "p \<in> {''true'', ''false'', ''null''}" "rest = drop (length p) s" "v \<in> {JBool True, JBool False, JNull}"
  | (number) lit where "json_number s = Some (lit, rest)" "v = JNumber lit"
proof -
  obtain c t where s: "s = c # t" using assms by (cases s) (auto simp: json_scalar_def)
  consider "c = CHR 0x22" | "c \<noteq> CHR 0x22" "has_prefix s ''true''" | "c \<noteq> CHR 0x22" "\<not> has_prefix s ''true''" "has_prefix s ''false''"
    | "c \<noteq> CHR 0x22" "\<not> has_prefix s ''true''" "\<not> has_prefix s ''false''" "has_prefix s ''null''"
    | "c \<noteq> CHR 0x22" "\<not> has_prefix s ''true''" "\<not> has_prefix s ''false''" "\<not> has_prefix s ''null''" by blast
  then show thesis
  proof cases
    case 1
    with assms s show thesis using string by (auto simp: json_scalar_def)
  next
    case 2
    with assms have "v = JBool True" "rest = drop (length ''true'') s" by (simp_all add: json_scalar_def s eq_commute eval_nat_numeral)
    with 2 show thesis by (intro literal [of "''true''"]) simp_all
  next
    case 3
    with assms have "v = JBool False" "rest = drop (length ''false'') s" by (simp_all add: json_scalar_def s eq_commute eval_nat_numeral)
    with 3 show thesis by (intro literal [of "''false''"]) simp_all
  next
    case 4
    with assms have "v = JNull" "rest = drop (length ''null'') s" by (simp_all add: json_scalar_def s eq_commute eval_nat_numeral)
    with 4 show thesis by (intro literal [of "''null''"]) simp_all
  next
    case 5
    with assms s show thesis using number by (auto simp: json_scalar_def)
  qed
qed

lemma scalar_valid:
  assumes "json_scalar s = Some (v, rest)" "valid_utf8 s"
  shows "json_valid v \<and> valid_utf8 rest"
  using assms(1)
proof (cases rule: scalar_cases)
  case (string t u)
  with assms(2) have "valid_utf8 t" by simp
  from unquote_valid [OF this string(2)] show ?thesis by (simp add: json_valid_def string(3))
next
  case (literal p)
  from literal(2) have "list_all (\<lambda>c. byte c < 128) p" by auto
  from literal_valid [OF literal(1) this assms(2)] have "valid_utf8 rest" by (simp only: literal(3))
  moreover from literal(4) have "json_valid v" by (auto simp: json_valid_def)
  ultimately show ?thesis by simp
next
  case (number lit)
  from number_split [OF number(1)] assms(2) number(2) show ?thesis by (auto simp: json_valid_def valid_utf8_ascii_append)
qed

lemma skip_ws_valid [simp]: "valid_utf8 (skip_ws s) \<longleftrightarrow> valid_utf8 s"
proof (induction s)
  case (Cons c s)
  have "byte c < 128" if "json_ws c" using that by (auto simp: json_ws_def)
  with Cons show ?case by (auto simp: skip_ws_def)
qed (simp add: skip_ws_def)

lemma members_valid:
  "json_members n s = Some (ms, rest) \<Longrightarrow> valid_utf8 s \<Longrightarrow>
    (\<forall>(k, v) \<in> set ms. valid_utf8 k \<and> json_valid v) \<and> valid_utf8 rest"
proof (induction n arbitrary: s ms)
  case (Suc n)
  from Suc.prems(1) obtain t key u v val x c y where steps: "skip_ws s = CHR 0x22 # t" "json_unquote t = Some (key, u)"
      "skip_ws u = CHR '':'' # v" "json_scalar (skip_ws v) = Some (val, x)" "skip_ws x = c # y"
    and last: "if c = CHR ''}'' then Some ([(key, val)], y) = Some (ms, rest)
      else c = CHR '','' \<and> map_option (\<lambda>(ms, rest). ((key, val) # ms, rest)) (json_members n y) = Some (ms, rest)"
    by (auto split: list.splits option.splits if_splits)
  have "valid_utf8 t" using Suc.prems(2) steps(1) skip_ws_valid [of s] by simp
  then have key: "valid_utf8 key" "valid_utf8 u" using unquote_valid steps(2) by blast+
  then have "valid_utf8 v" using steps(3) skip_ws_valid [of u] by simp
  then have val: "json_valid val" "valid_utf8 x" using scalar_valid [OF steps(4)] by simp_all
  show ?case
  proof (cases "c = CHR ''}''")
    case True
    with last key(1) val steps(5) skip_ws_valid [of x] show ?thesis by auto
  next
    case False
    with last obtain ms' where ms': "json_members n y = Some (ms', rest)" "ms = (key, val) # ms'" "c = CHR '',''" by auto
    then have "valid_utf8 y" using val(2) steps(5) skip_ws_valid [of x] by simp
    with Suc.IH [OF ms'(1)] ms'(2) key(1) val(1) show ?thesis by simp
  qed
qed simp


subsection \<open>What is printed is read back\<close>

lemma cont_value: "utf8_cont c \<Longrightarrow> cont_bits c < 64 \<and> char_of (128 + cont_bits c) = c"
  by (auto simp: utf8_cont_def cont_bits_def)

lemma div_mod_parts:
  assumes "b < (64::nat)" "c < 64"
  shows "(a * 64 + b) div 64 = a" "(a * 64 + b) mod 64 = b"
    "(a * 4096 + b * 64 + c) div 4096 = a" "(a * 4096 + b * 64 + c) div 64 mod 64 = b" "(a * 4096 + b * 64 + c) mod 64 = c"
proof -
  show parts: "(a * 64 + b) div 64 = a" "(a * 64 + b) mod 64 = b" for a using assms by simp_all
  have e: "a * 4096 + b * 64 + c = (a * 64 + b) * 64 + c" by simp
  have n: "((a * 64 + b) * 64 + c) div 64 = a * 64 + b" using assms by simp
  have "((a * 64 + b) * 64 + c) div 4096 = ((a * 64 + b) * 64 + c) div 64 div 64" by (simp add: div_mult2_eq [symmetric])
  then show "(a * 4096 + b * 64 + c) div 4096 = a" by (simp only: e n parts)
  show "(a * 4096 + b * 64 + c) div 64 mod 64 = b" by (simp only: e n parts)
  have "(x * 64 + c) mod 64 = c" for x using assms by simp
  then show "(a * 4096 + b * 64 + c) mod 64 = c" by (simp only: e)
qed

text \<open>Of the runes of three bytes.\<close>

lemma encode_decode_three:
  assumes "decode_rune s = (r, n)" "s \<noteq> []" "0x800 \<le> r" "r < 0x10000" "(r, n) \<noteq> (rune_error, 1)"
  shows "take n s = encode_rune r"
  using assms(1,2,5)
proof (cases rule: decode_rune_cases)
  case (three c c1 c2 t)
  then have r: "r = (byte c - 224) * 4096 + cont_bits c1 * 64 + cont_bits c2"
    using assms(1) by (auto simp: decode_rune_def Let_def split: if_splits)
  have c: "cont_bits c1 < 64" "char_of (128 + cont_bits c1) = c1" "cont_bits c2 < 64" "char_of (128 + cont_bits c2) = c2"
    using three cont_value by (auto simp: utf8_second_def)
  have "char_of (224 + (byte c - 224)) = c" using three by simp
  with assms(3,4) three(1,6) show ?thesis
    by (simp add: encode_rune_def r div_mod_parts [OF c(1,3)] c)
next
  case (ascii c t)
  with assms(1,3) show ?thesis by (auto simp: decode_rune_ascii)
next
  case (two c c1 t)
  then have "r = (byte c - 192) * 64 + cont_bits c1" using assms(1) by (auto simp: decode_rune_def Let_def split: if_splits)
  moreover have "cont_bits c1 < 64" using two cont_value by simp
  ultimately have "r < 0x800" using two(3) by linarith
  with assms(3) show ?thesis by simp
next
  case (four c c1 c2 c3 t)
  then have r: "r = (byte c - 240) * 262144 + cont_bits c1 * 4096 + cont_bits c2 * 64 + cont_bits c3"
    using assms(1) by (auto simp: decode_rune_def Let_def split: if_splits)
  have "byte c = 240 \<longrightarrow> 16 \<le> cont_bits c1" using four by (auto simp: utf8_second_def cont_bits_def)
  with four(2) r have "0x10000 \<le> r" by (cases "byte c = 240") auto
  with assms(4) show ?thesis by simp
qed

lemma hexval_lower: "n < 16 \<Longrightarrow> hexval (hex_lower ! n) = Some n"
proof -
  have "list_all (\<lambda>k. hexval (hex_lower ! k) = Some k) [0..<16]" by code_simp
  then show "n < 16 \<Longrightarrow> hexval (hex_lower ! n) = Some n" by (simp add: list_all_iff)
qed

lemma unquote_escape:
  assumes "byte c < 128"
  shows "json_unquote (json_escape c @ t) = map_option (\<lambda>(v, rest). (c # v, rest)) (json_unquote t)"
proof (cases "json_escape c = [CHR 0x5C, CHR ''u'', CHR ''0'', CHR ''0''] @ hex2 (byte c)")
  case True
  have "hexval (hex_lower ! (byte c div 16 mod 16)) = Some (byte c div 16)" "hexval (hex_lower ! (byte c mod 16)) = Some (byte c mod 16)"
    using assms by (simp_all add: hexval_lower)
  then have "hex_rune (CHR ''0'') (CHR ''0'') (hex_lower ! (byte c div 16 mod 16)) (hex_lower ! (byte c mod 16)) = Some (byte c)"
    by (simp add: hex_rune_def hexval_def is_digit_def)
  then show ?thesis using assms by (simp add: True hex2_def encode_rune_def)
next
  case False
  then have "c = CHR 0x22 \<or> c = CHR 0x5C \<or> c \<in> {CHR 0x08, CHR 0x0C, CHR 0x0A, CHR 0x0D, CHR 0x09} \<or>
      json_escape c = [c] \<and> 32 \<le> byte c \<and> c \<noteq> CHR 0x22 \<and> c \<noteq> CHR 0x5C"
    by (auto simp: json_escape_def split: if_splits)
  then show ?thesis
  proof (elim disjE)
    assume "json_escape c = [c] \<and> 32 \<le> byte c \<and> c \<noteq> CHR 0x22 \<and> c \<noteq> CHR 0x5C"
    then show ?thesis by simp
  qed (auto simp: json_escape_def simple_escape_def)
qed

lemma unquote_body: "valid_utf8 s \<Longrightarrow> json_unquote (json_body s @ CHR 0x22 # rest) = Some (s, rest)"
proof (induction s rule: json_body.induct)
  case (1 s)
  consider "s = []" | (ascii) "s \<noteq> []" "byte (hd s) < 128" | (high) "s \<noteq> []" "128 \<le> byte (hd s)" by linarith
  then show ?case
  proof cases
    case 1
    then show ?thesis by (simp add: json_body.simps)
  next
    case ascii
    then obtain c t where s: "s = c # t" by (cases s) auto
    have "json_unquote (json_body t @ CHR 0x22 # rest) = Some (t, rest)" using "1.IH"(1) ascii "1.prems" s by simp
    then show ?thesis using ascii(2) s by (subst json_body.simps) (simp add: unquote_escape)
  next
    case high
    obtain r n where rune: "decode_rune s = (r, n)" by fastforce
    have good: "(r, n) \<noteq> (rune_error, 1)" "valid_utf8 (drop n s)" using "1.prems" rune high(1) by (simp_all add: valid_utf8_step)
    have IH: "json_unquote (json_body (drop n s) @ CHR 0x22 # rest) = Some (drop n s, rest)"
      using "1.IH"(2) high rune good(2) by simp
    have all: "list_all (\<lambda>d. 128 \<le> byte d) (take n s)"
      by (rule decode_rune_cases [OF rune high(1) good(1)]) (use high(2) in \<open>auto simp: utf8_cont_def utf8_second_def\<close>)
    show ?thesis
    proof (cases "r = 0x2028 \<or> r = 0x2029")
      case False
      with high rune good(1) have "json_body s = take n s @ json_body (drop n s)"
        by (subst json_body.simps) (auto simp del: One_nat_def)
      with IH show ?thesis by (simp add: unquote_high [OF all])
    next
      case True
      then have "take n s = encode_rune r" using encode_decode_three [OF rune high(1) _ _ good(1)] by auto
      then have "encode_rune r @ drop n s = s" by (metis append_take_drop_id)
      moreover have "json_body s = [CHR 0x5C] @ (if r = 0x2028 then ''u2028'' else ''u2029'') @ json_body (drop n s)"
        using True high rune by (subst json_body.simps) (auto simp: rune_error_def)
      ultimately show ?thesis using True IH by (auto simp: hex_rune_def hexval_def is_digit_def)
    qed
  qed
qed

text \<open>The values the encoder prints: integers among the numbers.\<close>

definition json_print :: "json \<Rightarrow> string" where
  "json_print v = (case v of JString t \<Rightarrow> json_string t | JNumber lit \<Rightarrow> lit | JBool b \<Rightarrow> json_bool b | JNull \<Rightarrow> ''null'')"

definition json_printable :: "json \<Rightarrow> bool" where
  "json_printable v = (case v of JString t \<Rightarrow> valid_utf8 t | JNumber lit \<Rightarrow> map_option itoa (parse_int lit) = Some lit | _ \<Rightarrow> True)"

lemma digits_zero: "hd (digits n) = CHR ''0'' \<Longrightarrow> digits n = ''0''"
proof (induction n rule: digits.induct)
  case (1 n)
  show ?case
  proof (cases "n < 10")
    case True
    then have "char_of (48 + n) = CHR ''0''" using 1(2) digits.simps [of n] by simp
    with True show ?thesis using digits.simps [of n] by simp
  next
    case False
    then have split: "digits n = digits (n div 10) @ [char_of (48 + n mod 10)]" by (simp add: digits.simps [of n])
    with 1 False have "digits (n div 10) = ''0''" by simp
    with foldl_digits [of "n div 10"] have "n div 10 = 0" by (simp add: digit_val_def)
    with False show ?thesis by simp
  qed
qed

lemma takes_all: "ds \<noteq> [] \<Longrightarrow> list_all is_digit ds \<Longrightarrow> \<not> is_digit c \<Longrightarrow> takes_digits (ds @ c # rest) = Some (ds, c # rest)"
  by (simp add: takes_digits_def list_all_iff takeWhile_tail dropWhile_append3)

lemma number_itoa:
  assumes "c = CHR '','' \<or> c = CHR ''}''"
  shows "json_number (itoa n @ c # rest) = Some (itoa n, c # rest)"
proof -
  have c: "\<not> is_digit c" using assms by (auto simp: is_digit_def)
  have whole: "number_whole (digits k @ c # rest) = Some (digits k, c # rest)" for k
  proof (cases "hd (digits k) = CHR ''0''")
    case True
    from digits_zero [OF this] show ?thesis by (simp add: number_whole_def)
  next
    case False
    then obtain d t where d: "digits k = d # t" "d \<noteq> CHR ''0''" by (cases "digits k") auto
    from takes_all [OF digits_nonempty digits_all_digit c, of k rest] d show ?thesis by (simp add: number_whole_def)
  qed
  have tail: "Option.bind (number_fraction (lit, c # rest)) number_exponent = Some (lit, c # rest)" for lit
    using assms by (auto simp: number_fraction_def number_exponent_def)
  show ?thesis
  proof (cases "n < 0")
    case True
    then show ?thesis using tail by (simp add: itoa_def json_number_def whole)
  next
    case False
    obtain d t where d: "digits (nat n) = d # t" "d \<noteq> CHR ''-''"
      using digit_not_sign [OF hd_digits, of "nat n"] by (cases "digits (nat n)") auto
    with False whole [of "nat n"] tail [of "d # t"] show ?thesis by (simp add: itoa_def json_number_def)
  qed
qed

lemma scalar_print:
  assumes "json_printable v" "c = CHR '','' \<or> c = CHR ''}''"
  shows "json_scalar (json_print v @ c # rest) = Some (v, c # rest)"
proof (cases v)
  case (JString t)
  with assms(1) show ?thesis
    by (simp add: json_printable_def json_print_def json_scalar_def json_string_def unquote_body)
next
  case (JNumber lit)
  with assms(1) obtain n where n: "lit = itoa n" by (auto simp: json_printable_def)
  obtain d t where d: "itoa n = d # t" by (cases "itoa n") (auto simp: itoa_def split: if_splits)
  then have "is_digit d \<or> d = CHR ''-''" using itoa_chars [of d n] by simp
  then have "d \<notin> {CHR 0x22, CHR ''t'', CHR ''f'', CHR ''n''}" by (auto simp: is_digit_def)
  then show ?thesis using number_itoa [OF assms(2), of n rest] d
    by (simp add: json_print_def JNumber n json_scalar_def has_prefix_def)
qed (auto simp: json_print_def json_bool_def json_scalar_def has_prefix_def)

lemma print_start: "json_printable v \<Longrightarrow> \<exists>c t. json_print v = c # t \<and> \<not> json_ws c"
proof (cases v)
  case (JNumber lit)
  assume "json_printable v"
  with JNumber obtain n where n: "lit = itoa n" by (auto simp: json_printable_def)
  obtain d t where d: "itoa n = d # t" by (cases "itoa n") (auto simp: itoa_def split: if_splits)
  then have "is_digit d \<or> d = CHR ''-''" using itoa_chars [of d n] by simp
  then have "\<not> json_ws d" by (auto simp: is_digit_def json_ws_def)
  with d show ?thesis by (simp add: json_print_def JNumber n)
qed (auto simp: json_print_def json_string_def json_bool_def json_ws_def)

lemma skip_print: "json_printable v \<Longrightarrow> skip_ws (json_print v @ s) = json_print v @ s"
  using print_start [of v] by (auto simp: skip_ws_def)

lemma skip_id: "\<not> json_ws c \<Longrightarrow> skip_ws (c # s) = c # s"
  by (simp add: skip_ws_def)

abbreviation json_member :: "string \<times> json \<Rightarrow> string" where
  "json_member m \<equiv> json_string (fst m) @ '':'' @ json_print (snd m)"

lemma members_print:
  "ms \<noteq> [] \<Longrightarrow> length ms \<le> n \<Longrightarrow> \<forall>(k, v) \<in> set ms. valid_utf8 k \<and> json_printable v \<Longrightarrow>
    json_members n (join (map json_member ms) '','' @ ''}'' @ rest) = Some (ms, rest)"
proof (induction ms arbitrary: n)
  case (Cons m ms)
  obtain k v where m: "m = (k, v)" by fastforce
  obtain n' where n: "n = Suc n'" using Cons.prems(2) by (cases n) auto
  have ok: "valid_utf8 k" "json_printable v" using Cons.prems(3) m by simp_all
  have one: "json_members (Suc n') (json_member (k, v) @ c # u) =
      (if c = CHR ''}'' then Some ([(k, v)], u)
       else map_option (\<lambda>(ms, rest). ((k, v) # ms, rest)) (json_members n' u))"
    if c: "c = CHR '','' \<or> c = CHR ''}''" for c u
  proof -
    have "\<not> json_ws c" using c by (auto simp: json_ws_def)
    moreover have "\<not> json_ws (CHR 0x22)" "\<not> json_ws (CHR '':'')" by (simp_all add: json_ws_def)
    ultimately show ?thesis
      using c by (auto simp: json_string_def skip_id unquote_body [OF ok(1)] skip_print [OF ok(2)] scalar_print [OF ok(2) c])
  qed
  show ?case
  proof (cases ms)
    case Nil
    then show ?thesis using one [of "CHR ''}''" rest] by (simp only: m n) simp
  next
    case (Cons m' ms')
    then have "json_members n' (join (map json_member ms) '','' @ ''}'' @ rest) = Some (ms, rest)"
      using Cons.IH [of n'] Cons.prems n by simp
    with one [of "CHR '',''" "join (map json_member ms) '','' @ ''}'' @ rest"] Cons show ?thesis by (simp only: m n) simp
  qed
qed simp

lemma escape_valid: "byte c < 128 \<Longrightarrow> list_all (\<lambda>d. byte d < 128) (json_escape c)"
  using hexval_ascii [OF hexval_lower, of "byte c div 16"] hexval_ascii [OF hexval_lower, of "byte c mod 16"]
  by (auto simp: json_escape_def hex2_def)

lemma body_valid: "valid_utf8 t \<Longrightarrow> valid_utf8 (json_body s @ t)"
proof (induction s rule: json_body.induct)
  case (1 s)
  consider "s = []" | (ascii) "s \<noteq> []" "byte (hd s) < 128" | (high) "s \<noteq> []" "128 \<le> byte (hd s)" by linarith
  then show ?case
  proof cases
    case 1
    then show ?thesis using "1.prems" by (simp add: json_body.simps)
  next
    case ascii
    then show ?thesis using "1.IH"(1) "1.prems" escape_valid [OF ascii(2)]
      by (subst json_body.simps) (simp add: valid_utf8_ascii_append)
  next
    case high
    obtain r n where rune: "decode_rune s = (r, n)" by fastforce
    have IH: "valid_utf8 (json_body (drop n s) @ t)" using "1.IH"(2) high "1.prems" rune by simp
    show ?thesis
    proof (cases "(r, n) = (rune_error, 1) \<or> r = 0x2028 \<or> r = 0x2029")
      case True
      then show ?thesis using high rune IH by (subst json_body.simps) (auto simp del: One_nat_def)
    next
      case False
      then have copy: "json_body s = take n s @ json_body (drop n s)"
        using high rune by (subst json_body.simps) (auto simp del: One_nat_def)
      have n: "length (take n s) = n" "take n s \<noteq> []" using decode_rune_size [of s] high(1) rune by auto
      have "decode_rune (take n s @ u) = (r, n)" for u using decode_rune_stable [OF rune high(1)] False by blast
      then have "valid_utf8 (take n s @ json_body (drop n s) @ t)"
        using False IH n by (subst valid_utf8_step) (auto simp del: One_nat_def)
      then show ?thesis by (simp add: copy)
    qed
  qed
qed

lemma json_print_valid: "json_printable v \<Longrightarrow> valid_utf8 t \<Longrightarrow> valid_utf8 (json_print v @ t)"
proof (cases v)
  case (JNumber lit)
  assume "json_printable v" "valid_utf8 t"
  with JNumber obtain n where n: "lit = itoa n" by (auto simp: json_printable_def)
  have "list_all (\<lambda>c. byte c < 128) (itoa n)" using itoa_chars is_digit_graph by (fastforce simp: list_all_iff)
  with \<open>valid_utf8 t\<close> show ?thesis by (simp add: json_print_def JNumber n valid_utf8_ascii_append)
qed (auto simp: json_print_def json_string_def json_bool_def body_valid)

lemma join_valid: "valid_utf8 t \<Longrightarrow> \<forall>(k, v) \<in> set ms. json_printable v \<Longrightarrow> valid_utf8 (join (map json_member ms) '','' @ t)"
proof (induction ms)
  case (Cons m ms)
  have one: "valid_utf8 u \<Longrightarrow> valid_utf8 (json_member m @ u)" for u
    using Cons.prems(2) by (cases m) (simp add: json_string_def body_valid json_print_valid)
  with Cons show ?case by (cases ms) auto
qed simp

lemma decode_print:
  assumes "distinct (map fst ms)" "list_all (\<lambda>(k, v). valid_utf8 k \<and> json_printable v) ms"
  shows "decodeObject (map fst ms) (json_object (map (\<lambda>(k, v). (k, json_print v)) ms)) = Some ms"
proof -
  have ms: "\<forall>(k, v) \<in> set ms. valid_utf8 k \<and> json_printable v" using assms(2) by (simp add: list_all_iff)
  let ?data = "json_object (map (\<lambda>(k, v). (k, json_print v)) ms)"
  define inner where "inner = join (map json_member ms) '','' @ ''}''"
  have data: "?data = CHR ''{'' # inner"
    by (simp add: json_object_def inner_def case_prod_unfold comp_def)
  have "valid_utf8 ?data" using join_valid [of "''}''" ms] ms unfolding data inner_def by auto
  moreover have "json_parseObject ?data = Some (ms, [])"
  proof (cases ms)
    case Nil
    then show ?thesis unfolding data inner_def by (simp add: json_parseObject_def skip_ws_def json_ws_def)
  next
    case (Cons m ms')
    then obtain u where u: "inner = CHR 0x22 # u" by (cases ms') (auto simp: inner_def json_string_def)
    have "length ms \<le> length (join (map json_member ms) '','')" for ms
      by (induction ms rule: induct_list012) (auto simp: json_string_def)
    then have "length ms \<le> length inner" by (simp add: le_SucI inner_def)
    from members_print [OF _ this ms, of "[]"] Cons have "json_members (length inner) inner = Some (ms, [])"
      by (simp add: inner_def)
    then show ?thesis unfolding data by (simp only: json_parseObject_def) (simp add: u skip_id json_ws_def del: json_members.simps)
  qed
  ultimately show ?thesis using assms(1) by (simp add: decodeObject_def validateObjectFields_def skip_ws_def)
qed

text \<open>
  The reader of request bodies accepts what the program's own encoder prints: an object with distinct names whose values are
  valid UTF-8 strings, 64-bit integers, booleans and nulls is decoded to exactly these members.
\<close>

theorem request_roundtrip:
  assumes "distinct (map fst ms)" "list_all (\<lambda>(k, v). valid_utf8 k \<and> json_printable v) ms"
  shows "decodeObject (map fst ms) (json_object (map (\<lambda>(k, v). (k, json_print v)) ms)) = Some ms"
  by (rule decode_print [OF assms])

definition sample_members :: "(string \<times> json) list" where
  "sample_members = [(''key'', JString [CHR 0x22, CHR 0x0A]), (''n'', JNumber (itoa (- 12))), (''b'', JBool True)]"

theorem request_roundtrip_witness:
  "decodeObject (map fst sample_members) (json_object (map (\<lambda>(k, v). (k, json_print v)) sample_members)) = Some sample_members"
  by (rule request_roundtrip) (simp_all add: sample_members_def json_printable_def parse_int_itoa min_int64_def max_int64_def)

text \<open>
  C38. A request that is decoded has a body of at most 4096 bytes, distinct names that are all fields of the request,
  and only valid UTF-8 in its names and strings, escaped code units included.
\<close>

theorem request_well_formed:
  assumes "decodeLifecycleRequest allowed r = Some ms"
  shows "length (rq_Body r) \<le> 4096 \<and> distinct (map fst ms) \<and>
    list_all (\<lambda>(k, v). k \<in> set allowed \<and> valid_utf8 k \<and> json_valid v) ms"
proof -
  from assms have len: "length (rq_Body r) \<le> 4096" and object: "decodeObject allowed (rq_Body r) = Some ms"
    by (auto simp: decodeLifecycleRequest_def readBody_def lifecycleRequestMaxBytes_def split: if_splits)
  from object obtain rest where data: "valid_utf8 (rq_Body r)" and parse: "json_parseObject (rq_Body r) = Some (ms, rest)"
    and names: "distinct (map fst ms)" "set (map fst ms) \<subseteq> set allowed"
    by (auto simp: decodeObject_def validateObjectFields_def split: if_splits option.splits)
  from parse obtain t where t: "skip_ws (rq_Body r) = CHR ''{'' # t"
    and cases: "ms = [] \<or> json_members (length t) t = Some (ms, rest)"
    by (auto simp: json_parseObject_def split: list.splits if_splits)
  have "valid_utf8 t" using data t skip_ws_valid [of "rq_Body r"] by simp
  with cases members_valid have "\<forall>(k, v) \<in> set ms. valid_utf8 k \<and> json_valid v" by (metis empty_iff empty_set)
  with len names show ?thesis by (fastforce simp: list_all_iff)
qed

definition sample_post :: "string \<Rightarrow> Request" where
  "sample_post body = \<lparr>rq_Method = ''POST'', rq_Path = ''/api/sessions'', rq_Query = [], rq_Host = [], rq_TLS = True,
     rq_RemoteAddr = [], rq_Header = [], rq_Cookies = [], rq_Body = body, rq_BodyFails = False\<rparr>"

definition sample_create :: string where
  "sample_create = ''{ '' @ json_string ''name'' @ '': '' @ [CHR 0x22, CHR 0x5C] @ ''u00e9'' @ [CHR 0x22] @ ''}''"

theorem request_well_formed_witness:
  "length sample_create \<le> 4096 \<and> distinct [''name''] \<and> valid_utf8 [CHR 0xC3, CHR 0xA9]"
proof -
  have body: "sample_create = ''{ '' @ [CHR 0x22] @ ''name'' @ [CHR 0x22] @ '': '' @ [CHR 0x22, CHR 0x5C] @ ''u00e9'' @ [CHR 0x22] @ ''}''"
    by (simp add: sample_create_def json_string_def json_body_plain json_plain_def)
  have "json_parseObject sample_create = Some ([(''name'', JString [CHR 0xC3, CHR 0xA9])], [])"
    unfolding body
    by (simp add: json_parseObject_def skip_ws_def json_ws_def json_scalar_def hex_rune_def hexval_def is_digit_def encode_rune_def
        char_of_def bit_0)
  moreover have "valid_utf8 sample_create" unfolding body by simp
  ultimately have "decodeLifecycleRequest [''name''] (sample_post sample_create) = Some [(''name'', JString [CHR 0xC3, CHR 0xA9])]"
    by (simp add: decodeLifecycleRequest_def readBody_def lifecycleRequestMaxBytes_def sample_post_def decodeObject_def
        validateObjectFields_def skip_ws_def body)
  from request_well_formed [OF this] show ?thesis by (simp add: sample_post_def json_valid_def)
qed

end
