(* ===== verification/Session_Api.thy ===== *)
theory Session_Api
  imports Web_Lifecycle Request_Json
begin

section \<open>The session API\<close>

text \<open>
  The handlers of \<^verbatim>\<open>/api/sessions\<close> and below in \<^verbatim>\<open>internal/server/server.go\<close>: listing, creating and terminating sessions, and
  input, paste, resizing and control of the terminal of a session. A handler that works on one session is a program over the server that
  ends in a response, in a refusal that is also a response, or in a panic (the nil dereference of
  \<^verbatim>\<open>resolvePane\<close>). \<open>answer\<close> writes the response to the exchange.

  The clock is read several times; \<open>ap_clock i\<close> is the \<open>i\<close>-th reading of a request, and \<open>ap_interfere\<close> what other
  requests do to the identities while \<^verbatim>\<open>resolvePane\<close> does not hold its lock. Otherwise a handler runs alone. The tmux client, the
  settings files and the lifecycle are arguments. Logging is not modelled.
\<close>

subsection \<open>The server as handlers use it\<close>

datatype apiError =
    PublicSessionNotFound
  | IdentityFailure identityError
  | CaptureFailure tmuxError

datatype refusal =
    Refuse Response
  | HandlerPanic

record 'w api =
  ap_sha256 :: "string \<Rightarrow> string"
  ap_hmac :: "string \<Rightarrow> string \<Rightarrow> string"
  ap_clock :: "nat \<Rightarrow> time"
  ap_rands :: "nat \<Rightarrow> string"
  ap_interfere :: "identityStore \<Rightarrow> identityStore"
  ap_tokenRandom :: string
  ap_bufferRandom :: "string option"
  ap_tempRandom :: string
  ap_isPrint :: "rune \<Rightarrow> bool"
  ap_formatTime :: "time \<Rightarrow> string"
  ap_marshalTime :: "time \<Rightarrow> string"
  ap_tmux :: "'w Client"
  ap_faults :: faults
  ap_disk :: "'w \<Rightarrow> resizeSettings option disk"
  ap_setDisk :: "resizeSettings option disk \<Rightarrow> 'w \<Rightarrow> 'w"
  ap_sessions :: "('w exchange, apiError) webSessionLifecycle"

type_synonym ('w, 'a) step = "('w Server, refusal, 'a) prog"

definition onIdentity :: "('w, 'a) identity \<Rightarrow> ('w Server, identityError, 'a) prog" where
  "onIdentity p = (\<lambda>s. case p (sv_world s, sv_identity s) of (r, (w, st)) \<Rightarrow> (r, s\<lparr>sv_world := w, sv_identity := st\<rparr>))"

definition onDisk :: "'w api \<Rightarrow> 'a resize_disk \<Rightarrow> ('w Server, resizeError, 'a) prog" where
  "onDisk api p = onWorld (\<lambda>w. case p (ap_disk api w) of (r, d) \<Rightarrow> (r, ap_setDisk api d w))"

definition ensureP :: "bool \<Rightarrow> Response \<Rightarrow> ('w, unit) step" where
  "ensureP b response = (if b then returnP () else failP (Refuse response))"

definition requestP :: "'a option \<Rightarrow> Response \<Rightarrow> ('w, 'a) step" where
  "requestP request response = (case request of None \<Rightarrow> failP (Refuse response) | Some x \<Rightarrow> returnP x)"

definition refusing :: "Response \<Rightarrow> ('w Server, 'e, 'a) prog \<Rightarrow> ('w, 'a) step" where
  "refusing response = mapErr (\<lambda>_. Refuse response)"

definition notAllowed :: "Header \<Rightarrow> Response" where "notAllowed h = http_Error h ''method not allowed'' 405"

text \<open>The first response counts; more text of a handler that has already answered is added to the body.\<close>

definition respond :: "Response \<Rightarrow> 'w exchange \<Rightarrow> 'w exchange" where
  "respond response ex = ex\<lparr>ex_response := Some (case ex_response ex of None \<Rightarrow> response
     | Some old \<Rightarrow> old\<lparr>rs_Body := rs_Body old @ rs_Body response\<rparr>)\<rparr>"

definition answer :: "('w, Response) step \<Rightarrow> ('w exchange, apiError, unit) lifecycle" where
  "answer body = (\<lambda>ex. case onServer body ex of
       (Inr response, ex') \<Rightarrow> (Inr (), respond response ex')
     | (Inl (Refuse response), ex') \<Rightarrow> (Inr (), respond response ex')
     | (Inl HandlerPanic, ex') \<Rightarrow> (Inl (OfCaller (IdentityFailure NilDereference)), ex'))"

definition isPanic :: "apiError sessionError \<Rightarrow> bool" where
  "isPanic e \<longleftrightarrow> e = OfCaller (IdentityFailure NilDereference)"

subsection \<open>Requests\<close>

definition maxKeyNameBytes :: nat where "maxKeyNameBytes = 32"
definition maxResizeModeBytes :: nat where "maxResizeModeBytes = 32"
definition maxControlActionBytes :: nat where "maxControlActionBytes = 32"
definition maxControlWindowNameBytes :: nat where "maxControlWindowNameBytes = 128"
definition maxViewerUserAgentBytes :: nat where "maxViewerUserAgentBytes = 512"
definition maxViewerIPBytes :: nat where "maxViewerIPBytes = 128"
definition maxOpaqueReferenceBytes :: nat where "maxOpaqueReferenceBytes = 128"

lemmas api_limits = maxKeyNameBytes_def maxResizeModeBytes_def maxControlActionBytes_def maxControlWindowNameBytes_def
  maxViewerUserAgentBytes_def maxViewerIPBytes_def maxOpaqueReferenceBytes_def

record terminateSessionRequest =
  ts_ConfirmName :: string
  ts_PaneRef :: PaneRef

record resizeRequest =
  rr_Mode :: string
  rr_ViewerID :: ViewerID
  rr_PaneRef :: PaneRef

record resizeViewerRequest =
  rv_ViewerID :: ViewerID
  rv_PaneRef :: PaneRef
  rv_Width :: int
  rv_Height :: int
  rv_Transient :: bool

record pasteAPIRequest =
  pa_Text :: string
  pa_PaneRef :: PaneRef
  pa_Token :: string

record pasteTokenAPIRequest =
  pk_PaneRef :: PaneRef
  pk_Digest :: string
  pk_Bytes :: int
  pk_Lines :: int
  pk_ControlCharacters :: bool
  pk_TrailingNewline :: bool

record keyAPIRequest =
  ka_Key :: string
  ka_Text :: string
  ka_PaneRef :: PaneRef

record controlAPIRequest =
  ca_Action :: string
  ca_WindowRef :: WindowRef
  ca_PaneRef :: PaneRef
  ca_Name :: string

definition createSessionName :: "Request \<Rightarrow> string option" where
  "createSessionName r = Option.bind (decodeLifecycleRequest [''name''] r) (stringField ''name'')"

definition decodeTerminate :: "Request \<Rightarrow> terminateSessionRequest option" where
  "decodeTerminate r =
     Option.bind (decodeLifecycleRequest [''confirmName'', ''paneRef''] r) (\<lambda>ms.
     Option.bind (stringField ''confirmName'' ms) (\<lambda>name.
     Option.bind (stringField ''paneRef'' ms) (\<lambda>pane. Some \<lparr>ts_ConfirmName = name, ts_PaneRef = pane\<rparr>)))"

definition decodeResize :: "Request \<Rightarrow> resizeRequest option" where
  "decodeResize r =
     Option.bind (decodeLifecycleRequest [''mode'', ''viewerId'', ''paneRef''] r) (\<lambda>ms.
     Option.bind (textField ''mode'' ms) (\<lambda>mode.
     Option.bind (textField ''viewerId'' ms) (\<lambda>viewer.
     Option.bind (textField ''paneRef'' ms) (\<lambda>pane. Some \<lparr>rr_Mode = mode, rr_ViewerID = viewer, rr_PaneRef = pane\<rparr>))))"

definition decodeResizeViewer :: "Request \<Rightarrow> resizeViewerRequest option" where
  "decodeResizeViewer r =
     Option.bind (decodeLifecycleRequest [''viewerId'', ''paneRef'', ''width'', ''height'', ''transient''] r) (\<lambda>ms.
     Option.bind (textField ''viewerId'' ms) (\<lambda>viewer.
     Option.bind (textField ''paneRef'' ms) (\<lambda>pane.
     Option.bind (intField ''width'' ms) (\<lambda>width.
     Option.bind (intField ''height'' ms) (\<lambda>height.
     Option.bind (boolField ''transient'' ms) (\<lambda>transient.
       Some \<lparr>rv_ViewerID = viewer, rv_PaneRef = pane, rv_Width = width, rv_Height = height, rv_Transient = transient\<rparr>))))))"

text \<open>A paste has its own limit on the body.\<close>

definition decodePaste :: "Request \<Rightarrow> pasteAPIRequest option" where
  "decodePaste r =
     Option.bind (readBody (MaxPasteBytes * 8 + 1024) r) (\<lambda>data.
     Option.bind (decodeObject [''text'', ''paneRef'', ''token''] data) (\<lambda>ms.
     Option.bind (textField ''text'' ms) (\<lambda>text0.
     Option.bind (textField ''paneRef'' ms) (\<lambda>pane.
     Option.bind (textField ''token'' ms) (\<lambda>token. Some \<lparr>pa_Text = text0, pa_PaneRef = pane, pa_Token = token\<rparr>)))))"

definition decodePasteToken :: "Request \<Rightarrow> pasteTokenAPIRequest option" where
  "decodePasteToken r =
     Option.bind (decodeLifecycleRequest
         [''paneRef'', ''digest'', ''bytes'', ''lines'', ''controlCharacters'', ''trailingNewline''] r) (\<lambda>ms.
     Option.bind (textField ''paneRef'' ms) (\<lambda>pane.
     Option.bind (textField ''digest'' ms) (\<lambda>digest.
     Option.bind (intField ''bytes'' ms) (\<lambda>bytes.
     Option.bind (intField ''lines'' ms) (\<lambda>lines.
     Option.bind (boolField ''controlCharacters'' ms) (\<lambda>ctrl.
     Option.bind (boolField ''trailingNewline'' ms) (\<lambda>trailing.
       Some \<lparr>pk_PaneRef = pane, pk_Digest = digest, pk_Bytes = bytes, pk_Lines = lines, pk_ControlCharacters = ctrl,
         pk_TrailingNewline = trailing\<rparr>)))))))"

definition decodeKey :: "Request \<Rightarrow> keyAPIRequest option" where
  "decodeKey r =
     Option.bind (decodeLifecycleRequest [''key'', ''text'', ''paneRef''] r) (\<lambda>ms.
     Option.bind (textField ''key'' ms) (\<lambda>key.
     Option.bind (textField ''text'' ms) (\<lambda>text0.
     Option.bind (textField ''paneRef'' ms) (\<lambda>pane. Some \<lparr>ka_Key = key, ka_Text = text0, ka_PaneRef = pane\<rparr>))))"

definition decodeControl :: "Request \<Rightarrow> controlAPIRequest option" where
  "decodeControl r =
     Option.bind (decodeLifecycleRequest [''action'', ''windowRef'', ''paneRef'', ''name''] r) (\<lambda>ms.
     Option.bind (textField ''action'' ms) (\<lambda>action.
     Option.bind (textField ''windowRef'' ms) (\<lambda>window.
     Option.bind (textField ''paneRef'' ms) (\<lambda>pane.
     Option.bind (textField ''name'' ms) (\<lambda>name.
       Some \<lparr>ca_Action = action, ca_WindowRef = window, ca_PaneRef = pane, ca_Name = name\<rparr>)))))"

text \<open>The longest run of whole runes within the limit; an invalid byte becomes U+FFFD.\<close>

function boundedRunes :: "nat \<Rightarrow> string \<Rightarrow> string" where
  "boundedRunes space s =
     (if s = [] then []
      else
        let (r, n) = decode_rune s in
        if length (encode_rune r) > space then []
        else encode_rune r @ boundedRunes (space - length (encode_rune r)) (drop n s))"
  by pat_completeness auto
termination
proof (relation "measure (length \<circ> snd)", goal_cases)
  case (2 space s x r n)
  from arg_cong [OF this(3), of snd] this(2) have "n = snd (decode_rune s)" by simp
  with 2 show ?case using decode_rune_size [of s] by simp
qed simp

declare boundedRunes.simps [simp del]

definition boundedUTF8 :: "string \<Rightarrow> nat \<Rightarrow> string" where
  "boundedUTF8 s maximum = boundedRunes maximum s"

text \<open>\<^verbatim>\<open>strconv.Quote\<close>, which \<^verbatim>\<open>fmt\<close> uses for \<^verbatim>\<open>%q\<close>.\<close>

definition hex_digits :: "nat \<Rightarrow> nat \<Rightarrow> string" where
  "hex_digits n r = map (\<lambda>i. hex_lower ! (r div 16 ^ (n - 1 - i) mod 16)) [0..<n]"

definition quote_rune :: "(rune \<Rightarrow> bool) \<Rightarrow> rune \<Rightarrow> string" where
  "quote_rune isPrint r =
     (if r = 0x22 \<or> r = 0x5C then [CHR 0x5C, char_of r]
      else if isPrint r then encode_rune r
      else case map_of [(7, CHR ''a''), (8, CHR ''b''), (12, CHR ''f''), (10, CHR ''n''), (13, CHR ''r''), (9, CHR ''t''), (11, CHR ''v'')] r of
          Some c \<Rightarrow> [CHR 0x5C, c]
        | None \<Rightarrow>
            if r < 0x20 \<or> r = 0x7F then [CHR 0x5C, CHR ''x''] @ hex_digits 2 r
            else if r < 0x10000 then [CHR 0x5C, CHR ''u''] @ hex_digits 4 r
            else [CHR 0x5C, CHR ''U''] @ hex_digits 8 r)"

function quote_body :: "(rune \<Rightarrow> bool) \<Rightarrow> string \<Rightarrow> string" where
  "quote_body isPrint s =
     (if s = [] then []
      else (if decode_rune s = (rune_error, 1) then [CHR 0x5C, CHR ''x''] @ hex_digits 2 (byte (hd s))
            else quote_rune isPrint (fst (decode_rune s))) @ quote_body isPrint (drop (snd (decode_rune s)) s))"
  by pat_completeness auto
termination
  using decode_rune_size by (relation "measure (length \<circ> snd)") (auto simp: Suc_le_eq)

declare quote_body.simps [simp del]

definition go_quote :: "(rune \<Rightarrow> bool) \<Rightarrow> string \<Rightarrow> string" where
  "go_quote isPrint s = [CHR 0x22] @ quote_body isPrint s @ [CHR 0x22]"

subsection \<open>Responses\<close>

definition json_array :: "string list \<Rightarrow> string" where
  "json_array items = ''['' @ join items '','' @ '']''"

definition json_ok :: string where "json_ok = json_object [(''ok'', ''true'')]"

record sessionResponse =
  sr_ID :: SessionRef
  sr_Name :: string
  sr_CWD :: string
  sr_CreatedAt :: string
  sr_ActiveWindowRef :: WindowRef
  sr_ActivePaneRef :: PaneRef
  sr_WindowWidth :: int
  sr_WindowHeight :: int
  sr_TmuxWindowCount :: int

definition json_session :: "sessionResponse \<Rightarrow> string" where
  "json_session s = json_object (
     [(''id'', json_string (sr_ID s)), (''name'', json_string (sr_Name s)), (''cwd'', json_string (sr_CWD s)),
      (''createdAt'', json_string (sr_CreatedAt s)), (''activeWindowRef'', json_string (sr_ActiveWindowRef s)),
      (''activePaneRef'', json_string (sr_ActivePaneRef s)), (''windowWidth'', itoa (sr_WindowWidth s)),
      (''windowHeight'', itoa (sr_WindowHeight s))] @
     (if sr_TmuxWindowCount s = 0 then [] else [(''tmuxWindowCount'', itoa (sr_TmuxWindowCount s))]))"

definition json_window :: "publicWindow \<Rightarrow> string" where
  "json_window w = json_object (
     [(''ref'', json_string (pw_Ref w)), (''name'', json_string (pw_Name w)), (''active'', json_bool (pw_Active w)),
      (''panes'', itoa (pw_Panes w))] @
     (if pw_ActivePaneRef w = [] then [] else [(''activePaneRef'', json_string (pw_ActivePaneRef w))]) @
     [(''width'', itoa (pw_Width w)), (''height'', itoa (pw_Height w))])"

definition json_topology :: "publicTopology \<Rightarrow> string" where
  "json_topology topology = json_object
     [(''activePaneRef'', json_string (pt_ActivePaneRef topology)),
      (''windows'', json_array (map json_window (pt_Windows topology)))]"

record resizeResponse =
  rp_Mode :: string
  rp_SelectedViewerID :: ViewerID
  rp_Viewers :: "resizeViewer list"
  rp_WindowRef :: WindowRef
  rp_WindowWidth :: int
  rp_WindowHeight :: int
  rp_Applied :: "ResizeState option"

definition json_viewer :: "(time \<Rightarrow> string) \<Rightarrow> resizeViewer \<Rightarrow> string" where
  "json_viewer marshalTime v = json_object
     [(''id'', json_string (vw_ID v)), (''ip'', json_string (vw_IP v)), (''userAgent'', json_string (vw_UserAgent v)),
      (''width'', itoa (vw_Width v)), (''height'', itoa (vw_Height v)), (''lastSeen'', marshalTime (vw_LastSeen v)),
      (''active'', ''true'')]"

definition json_applied :: "ResizeState \<Rightarrow> string" where
  "json_applied a = json_object (
     (if rs_Mode a = [] then [] else [(''mode'', json_string (rs_Mode a))]) @
     (if rs_ClientName a = [] then [] else [(''clientName'', json_string (rs_ClientName a))]) @
     (if rs_Width a = 0 then [] else [(''width'', itoa (rs_Width a))]) @
     (if rs_Height a = 0 then [] else [(''height'', itoa (rs_Height a))]))"

definition resizeCapabilities :: "(string \<times> bool) list" where
  "resizeCapabilities = [(resizeModeFixed, True), (resizeModeFitOnce, True), (resizeModeFollowDevice, False)]"

definition json_resize :: "(time \<Rightarrow> string) \<Rightarrow> resizeResponse \<Rightarrow> string" where
  "json_resize marshalTime p = json_object (
     [(''mode'', json_string (rp_Mode p))] @
     (if rp_SelectedViewerID p = [] then [] else [(''selectedViewerId'', json_string (rp_SelectedViewerID p))]) @
     [(''viewers'', json_array (map (json_viewer marshalTime) (rp_Viewers p))),
      (''window'', json_object [(''ref'', json_string (rp_WindowRef p)), (''width'', itoa (rp_WindowWidth p)),
        (''height'', itoa (rp_WindowHeight p))]),
      (''capabilities'', json_array (map (\<lambda>(mode, supported).
        json_object [(''mode'', json_string mode), (''supported'', json_bool supported)]) resizeCapabilities))] @
     (case rp_Applied p of None \<Rightarrow> [] | Some a \<Rightarrow> [(''applied'', json_applied a)]))"

subsection \<open>Panes and sessions\<close>

definition mutationPane :: "'w api \<Rightarrow> Header \<Rightarrow> Session \<Rightarrow> PaneRef \<Rightarrow> ('w, paneBinding) step" where
  "mutationPane api h managed ref =
     mapErr (\<lambda>e. if e = NilDereference then HandlerPanic else Refuse (http_Error h ''stale terminal identity'' 409))
       (onIdentity (resolvePane (ap_rands api) (ap_tmux api) (ap_interfere api) managed ref True))"

definition refreshTopology :: "'w api \<Rightarrow> Session \<Rightarrow> ('w Server, identityError, publicTopology) prog" where
  "refreshTopology api managed = onIdentity (refresh (ap_rands api) (ap_tmux api) managed)"

definition currentPane :: "'w api \<Rightarrow> Header \<Rightarrow> Session \<Rightarrow> ('w, paneBinding) step" where
  "currentPane api h managed =
     bindP (refusing (http_Error h ''failed to resolve terminal identity'' 502) (refreshTopology api managed)) (\<lambda>topology.
       mutationPane api h managed (pt_ActivePaneRef topology))"

definition publicSession :: "'w api \<Rightarrow> Session \<Rightarrow> ('w Server, identityError, sessionResponse) prog" where
  "publicSession api managed =
     bindP (refreshTopology api managed) (\<lambda>topology. returnP
       \<lparr>sr_ID = se_PublicRef managed, sr_Name = se_Name managed, sr_CWD = se_CWD managed, sr_CreatedAt = se_CreatedAt managed,
        sr_ActiveWindowRef = pt_ActiveWindowRef topology, sr_ActivePaneRef = pt_ActivePaneRef topology,
        sr_WindowWidth = pt_WindowWidth topology, sr_WindowHeight = pt_WindowHeight topology,
        sr_TmuxWindowCount = (let n = length (pt_Windows topology) in if n > 1 then int n else 0)\<rparr>)"

definition findPublicSession :: "'w api \<Rightarrow> SessionRef \<Rightarrow> ('w exchange, apiError, Session) lifecycle" where
  "findPublicSession api ref =
     (if \<not> ValidPublicRef ref then failP (OfCaller PublicSessionNotFound)
      else bindP (wl_List (ap_sessions api)) (\<lambda>sessions.
        case find (\<lambda>managed. se_PublicRef managed = ref) sessions of
          None \<Rightarrow> failP (OfCaller PublicSessionNotFound)
        | Some managed \<Rightarrow> returnP managed))"

definition withPublicSession :: "'w api \<Rightarrow> SessionRef \<Rightarrow> (Session \<Rightarrow> ('w exchange, apiError, unit) lifecycle) \<Rightarrow>
    ('w exchange, apiError, unit) lifecycle" where
  "withPublicSession api ref use =
     bindP (findPublicSession api ref) (\<lambda>managed.
       wl_WithSession (ap_sessions api) (se_ID managed) (\<lambda>current.
         if se_PublicRef current \<noteq> ref then failP (OfCaller PublicSessionNotFound) else use current))"

definition lifecycleHTTPStatus :: "apiError sessionError \<Rightarrow> int" where
  "lifecycleHTTPStatus err =
     (if errors_Is (of_kind ErrorInvalidName) err then 400
      else if errors_Is (of_kind ErrorConflict) err then 409
      else if errors_Is (of_kind ErrorNotFound) err then 404
      else 503)"

definition lifecycleErrorMessage :: "apiError sessionError \<Rightarrow> string" where
  "lifecycleErrorMessage err =
     (let status = lifecycleHTTPStatus err in
      if status = 400 then ''invalid managed session name''
      else if status = 409 then ''managed session conflict''
      else if status = 404 then ''managed session not found''
      else ''session lifecycle unavailable'')"

definition lifecycleRefusal :: "Header \<Rightarrow> apiError sessionError \<Rightarrow> Response" where
  "lifecycleRefusal h err = http_Error h (lifecycleErrorMessage err) (lifecycleHTTPStatus err)"

subsection \<open>Keys and paste\<close>

definition keyRefusal :: "Header \<Rightarrow> tmuxError \<Rightarrow> Response" where
  "keyRefusal h err =
     (case err of
        ErrUnsupportedKey _ \<Rightarrow> http_Error h ''unsupported key'' 400
      | ErrInvalidInput \<Rightarrow> http_Error h ''unsupported key'' 400
      | _ \<Rightarrow> http_Error h ''failed to send key'' 502)"

definition handleKeysAPI :: "'w api \<Rightarrow> Request \<Rightarrow> Header \<Rightarrow> Session \<Rightarrow> ('w, Response) step" where
  "handleKeysAPI api r h session =
     (let bad = http_Error h ''invalid key request'' 400 in
      bindP (ensureP (rq_Method r = ''POST'') (notAllowed h)) (\<lambda>_.
      bindP (requestP (decodeKey r) bad) (\<lambda>request.
      bindP (ensureP (length (ka_Key request) \<le> maxKeyNameBytes \<and> length (ka_Text request) \<le> 4 \<and>
        length (ka_PaneRef request) \<le> maxOpaqueReferenceBytes) bad) (\<lambda>_.
      bindP (mutationPane api h session (ka_PaneRef request)) (\<lambda>pane.
      bindP (ensureP ((ka_Key request = []) \<noteq> (ka_Text request = [])) bad) (\<lambda>_.
      bindP (mapErr (\<lambda>e. Refuse (keyRefusal h e)) (onWorld
        (if ka_Text request \<noteq> [] then SendText (ap_isPrint api) (ap_tmux api) (pn_rawID pane) (ka_Text request)
         else SendKey (ap_tmux api) (pn_rawID pane) (ka_Key request)))) (\<lambda>_.
      returnP (writeJSON h json_ok))))))))"

definition loginScope :: "'w api \<Rightarrow> Request \<Rightarrow> Header \<Rightarrow> ('w, string) step" where
  "loginScope api r h = (\<lambda>s. requestP (LoginScope (ap_sha256 api) (ap_hmac api) (sv_auth s) (ap_clock api 0) r)
     (http_Error h ''unauthorized'' 401) s)"

definition consumeToken :: "'w api \<Rightarrow> Header \<Rightarrow> string \<Rightarrow> pasteTokenBinding \<Rightarrow> ('w, unit) step" where
  "consumeToken api h token expected = (\<lambda>s.
     case pt_Consume (sv_pasteTokens s) token expected (ap_clock api 1) of
       (r, m) \<Rightarrow> (case r of Inl _ \<Rightarrow> Inl (Refuse (http_Error h ''invalid or expired paste token'' 409)) | Inr u \<Rightarrow> Inr u,
         s\<lparr>sv_pasteTokens := m\<rparr>))"

definition pasteRefusal :: "Header \<Rightarrow> tmuxError \<Rightarrow> Response" where
  "pasteRefusal h err =
     (if err = ErrInvalidPaste then http_Error h ''invalid paste'' 400
      else http_Error h ''failed to paste terminal text'' 502)"

definition handlePasteAPI :: "'w api \<Rightarrow> Request \<Rightarrow> Header \<Rightarrow> SessionRef \<Rightarrow> Session \<Rightarrow> ('w, Response) step" where
  "handlePasteAPI api r h ref session =
     (let bad = http_Error h ''invalid paste request'' 400 in
      bindP (ensureP (rq_Method r = ''POST'') (notAllowed h)) (\<lambda>_.
      bindP (loginScope api r h) (\<lambda>user.
      bindP (requestP (decodePaste r) bad) (\<lambda>request.
      bindP (ensureP (valid_utf8 (pa_Text request) \<and> pa_Text request \<noteq> [] \<and> length (pa_Text request) \<le> MaxPasteBytes \<and>
        CHR 0x00 \<notin> set (pa_Text request) \<and> length (pa_PaneRef request) \<le> maxOpaqueReferenceBytes \<and>
        pasteTokenIDPattern (pa_Token request)) bad) (\<lambda>_.
      bindP (mutationPane api h session (pa_PaneRef request)) (\<lambda>pane.
      bindP (consumeToken api h (pa_Token request)
        \<lparr>pb_User = user, pb_SessionRef = ref, pb_PaneRef = pa_PaneRef request, pb_Generation = pn_generation pane,
         pb_Action = pasteTextAction (ap_sha256 api) (pa_Text request)\<rparr>) (\<lambda>_.
      bindP (mapErr (\<lambda>e. Refuse (pasteRefusal h e))
        (onWorld (tmux_Paste (ap_tmux api) (ap_bufferRandom api) (pn_rawID pane) (pa_Text request)))) (\<lambda>_.
      returnP (writeJSON h json_ok)))))))))"

definition createToken :: "'w api \<Rightarrow> Header \<Rightarrow> pasteTokenBinding \<Rightarrow> ('w, string \<times> time) step" where
  "createToken api h binding = (\<lambda>s.
     case pt_Create (sv_pasteTokens s) binding (ap_clock api 1) (ap_tokenRandom api) of
       (r, m) \<Rightarrow> (case r of Inl _ \<Rightarrow> Inl (Refuse (http_Error h ''invalid paste token request'' 400)) | Inr t \<Rightarrow> Inr t,
         s\<lparr>sv_pasteTokens := m\<rparr>))"

definition handlePasteTokenAPI :: "'w api \<Rightarrow> Request \<Rightarrow> Header \<Rightarrow> SessionRef \<Rightarrow> Session \<Rightarrow> ('w, Response) step" where
  "handlePasteTokenAPI api r h ref session =
     (let bad = http_Error h ''invalid paste token request'' 400 in
      bindP (ensureP (rq_Method r = ''POST'') (notAllowed h)) (\<lambda>_.
      bindP (loginScope api r h) (\<lambda>user.
      bindP (requestP (decodePasteToken r) bad) (\<lambda>request.
      bindP (ensureP (length (pk_PaneRef request) \<le> maxOpaqueReferenceBytes \<and> length (pk_Digest request) \<le> 43) bad) (\<lambda>_.
      bindP (mutationPane api h session (pk_PaneRef request)) (\<lambda>pane.
      bindP (createToken api h
        \<lparr>pb_User = user, pb_SessionRef = ref, pb_PaneRef = pk_PaneRef request, pb_Generation = pn_generation pane,
         pb_Action = \<lparr>Digest = pk_Digest request, Bytes = pk_Bytes request, Lines = pk_Lines request,
           ControlCharacters = pk_ControlCharacters request, TrailingNewline = pk_TrailingNewline request\<rparr>\<rparr>) (\<lambda>(token, expires).
      returnP (writeJSONStatus h 201 (json_object
        [(''expiresAt'', json_string (ap_formatTime api expires)), (''token'', json_string token)])))))))))"

subsection \<open>Resizing\<close>

datatype applyError =
    InvalidResizeRequest string
  | ResizeFailed

definition resizeErrorText :: "'w api \<Rightarrow> string \<Rightarrow> string" where
  "resizeErrorText api mode = ''unsupported resize mode '' @ go_quote (ap_isPrint api) mode"

definition viewerOf :: "'w api \<Rightarrow> SessionRef \<Rightarrow> ViewerID \<Rightarrow> ('w Server, applyError, resizeViewer) prog" where
  "viewerOf api ref viewerID = (\<lambda>s.
     case rz_Viewer ref viewerID (ap_clock api 2) (sv_resize s) of
       (viewer, store) \<Rightarrow>
         (if viewerID = [] then Inl (InvalidResizeRequest ''selected web viewer is not active'')
          else case viewer of None \<Rightarrow> Inl (InvalidResizeRequest ''selected web viewer is not active'') | Some v \<Rightarrow> Inr v,
          s\<lparr>sv_resize := store\<rparr>))"

definition saveSettings :: "'w api \<Rightarrow> SessionRef \<Rightarrow> resizeSettings \<Rightarrow> ('w Server, applyError, unit) prog" where
  "saveSettings api ref settings =
     mapErr (\<lambda>_. ResizeFailed) (onDisk api (rz_Save (ap_faults api) (ap_tempRandom api) ref settings))"

definition applyResizeRequest :: "'w api \<Rightarrow> SessionRef \<Rightarrow> paneBinding \<Rightarrow> resizeRequest \<Rightarrow>
    ('w Server, applyError, ResizeState) prog" where
  "applyResizeRequest api ref pane request =
     (let mode = normalizeResizeMode (rr_Mode request) in
      case validateResizeMode mode of
        Inl _ \<Rightarrow> failP (InvalidResizeRequest (resizeErrorText api mode))
      | Inr _ \<Rightarrow>
          if mode = resizeModeFixed then
            bindP (mapErr (\<lambda>_. ResizeFailed) (onWorld (ResizeFixed (ap_tmux api) (pn_windowID pane)))) (\<lambda>state.
            bindP (saveSettings api ref \<lparr>rz_Mode = resizeModeFixed, rz_SelectedViewerID = []\<rparr>) (\<lambda>_.
            returnP (state\<lparr>rs_Mode := resizeModeFixed\<rparr>)))
          else if mode = resizeModeFitOnce then
            (let viewerID = trim_space (rr_ViewerID request) in
             bindP (viewerOf api ref viewerID) (\<lambda>viewer.
             bindP (mapErr (\<lambda>_. ResizeFailed)
               (onWorld (ResizeManual (ap_tmux api) (pn_windowID pane) (vw_Width viewer) (vw_Height viewer)))) (\<lambda>state.
             bindP (saveSettings api ref \<lparr>rz_Mode = resizeModeFixed, rz_SelectedViewerID = viewerID\<rparr>) (\<lambda>_.
             returnP (state\<lparr>rs_Mode := resizeModeFitOnce\<rparr>)))))
          else if mode = resizeModeFollowDevice then
            failP (InvalidResizeRequest ''follow this device is not available yet'')
          else failP (InvalidResizeRequest ''unsupported resize mode''))"

definition viewerBefore :: "resizeViewer \<Rightarrow> resizeViewer \<Rightarrow> bool" where
  "viewerBefore a b =
     (if vw_LastSeen a \<noteq> vw_LastSeen b then vw_LastSeen a > vw_LastSeen b else string_less (vw_ID a) (vw_ID b))"

definition viewersP :: "'w api \<Rightarrow> SessionRef \<Rightarrow> ('w, resizeViewer list) step" where
  "viewersP api ref = (\<lambda>s. case rz_Viewers ref (ap_clock api 3) (sv_resize s) of
     (viewers, store) \<Rightarrow> (Inr viewers, s\<lparr>sv_resize := store\<rparr>))"

definition resizeResponseOf :: "'w api \<Rightarrow> Header \<Rightarrow> SessionRef \<Rightarrow> Session \<Rightarrow> ResizeState option \<Rightarrow> ('w, Response) step" where
  "resizeResponseOf api h ref session applied =
     (let failed = http_Error h ''failed to read resize state'' 500 in
      bindP (refusing failed (onDisk api (rz_Load (ap_faults api) ref))) (\<lambda>settings.
      bindP (viewersP api ref) (\<lambda>viewers.
      bindP (refusing failed (refreshTopology api session)) (\<lambda>topology.
      returnP (writeJSON h (json_resize (ap_marshalTime api)
        \<lparr>rp_Mode = rz_Mode settings, rp_SelectedViewerID = rz_SelectedViewerID settings,
         rp_Viewers = sort_slice viewerBefore viewers, rp_WindowRef = pt_ActiveWindowRef topology,
         rp_WindowWidth = pt_WindowWidth topology, rp_WindowHeight = pt_WindowHeight topology, rp_Applied = applied\<rparr>))))))"

definition applyRefusal :: "Header \<Rightarrow> applyError \<Rightarrow> Response" where
  "applyRefusal h err =
     (case err of
        InvalidResizeRequest message \<Rightarrow> http_Error h (''invalid resize request: '' @ message) 400
      | ResizeFailed \<Rightarrow> http_Error h ''failed to resize terminal'' 502)"

definition handleResizeAPI :: "'w api \<Rightarrow> Request \<Rightarrow> Header \<Rightarrow> SessionRef \<Rightarrow> Session \<Rightarrow> ('w, Response) step" where
  "handleResizeAPI api r h ref session =
     (let bad = http_Error h ''invalid resize request'' 400 in
      if rq_Method r = ''GET'' then resizeResponseOf api h ref session None
      else if rq_Method r = ''POST'' then
        bindP (requestP (decodeResize r) bad) (\<lambda>request.
        bindP (ensureP (length (rr_Mode request) \<le> maxResizeModeBytes \<and>
          length (rr_PaneRef request) \<le> maxOpaqueReferenceBytes \<and>
          (rr_ViewerID request \<noteq> [] \<longrightarrow> viewerIDPattern (rr_ViewerID request))) bad) (\<lambda>_.
        bindP (mutationPane api h session (rr_PaneRef request)) (\<lambda>pane.
        bindP (mapErr (\<lambda>e. Refuse (applyRefusal h e)) (applyResizeRequest api ref pane request)) (\<lambda>applied.
        resizeResponseOf api h ref session (Some applied)))))
      else failP (Refuse (notAllowed h)))"

definition recordViewer :: "'w api \<Rightarrow> Header \<Rightarrow> SessionRef \<Rightarrow> resizeViewer \<Rightarrow> ('w, resizeViewer) step" where
  "recordViewer api h ref viewer = (\<lambda>s.
     case rz_RecordViewer ref viewer (ap_clock api 2) (sv_resize s) of
       (r, store) \<Rightarrow>
         (case r of
            Inl errResizeViewerCapacity \<Rightarrow>
              Inl (Refuse (http_Error (header_Set ''Retry-After'' ''10'' h) ''resize viewer capacity reached'' 429))
          | Inl _ \<Rightarrow> Inl (Refuse (http_Error h ''invalid resize viewer request'' 400))
          | Inr v \<Rightarrow> Inr v,
          s\<lparr>sv_resize := store\<rparr>))"

definition handleResizeViewerAPI :: "'w api \<Rightarrow> Request \<Rightarrow> Header \<Rightarrow> SessionRef \<Rightarrow> Session \<Rightarrow> ('w, Response) step" where
  "handleResizeViewerAPI api r h ref session =
     (let bad = http_Error h ''invalid resize viewer request'' 400 in
      bindP (ensureP (rq_Method r = ''POST'') (notAllowed h)) (\<lambda>_.
      bindP (requestP (decodeResizeViewer r) bad) (\<lambda>request.
      bindP (ensureP (length (rv_PaneRef request) \<le> maxOpaqueReferenceBytes \<and> viewerIDPattern (rv_ViewerID request)) bad) (\<lambda>_.
      bindP (mutationPane api h session (rv_PaneRef request)) (\<lambda>_.
      bindP (recordViewer api h ref
        \<lparr>vw_ID = rv_ViewerID request, vw_SessionID = [], vw_IP = boundedUTF8 (clientIP r) maxViewerIPBytes,
         vw_UserAgent = boundedUTF8 (header_Get ''User-Agent'' (rq_Header r)) maxViewerUserAgentBytes,
         vw_Width = rv_Width request, vw_Height = rv_Height request, vw_LastSeen = zero_time\<rparr>) (\<lambda>_.
      resizeResponseOf api h ref session None))))))"

subsection \<open>Control\<close>

definition topologyResponse :: "'w api \<Rightarrow> Header \<Rightarrow> Session \<Rightarrow> ('w, Response) step" where
  "topologyResponse api h session =
     bindP (refusing (http_Error h ''failed to list tmux windows'' 502) (refreshTopology api session)) (\<lambda>topology.
       returnP (writeJSON h (json_topology topology)))"

definition controlRefusal :: "Header \<Rightarrow> tmuxError \<Rightarrow> Response" where
  "controlRefusal h err =
     (case err of
        ErrUnsupportedControlAction _ \<Rightarrow> http_Error h ''unsupported tmux control action'' 400
      | ErrInvalidControlRequest _ \<Rightarrow> http_Error h ''unsupported tmux control action'' 400
      | _ \<Rightarrow> http_Error h ''failed to run tmux control action'' 502)"

definition windowTargetOf :: "Header \<Rightarrow> Session \<Rightarrow> paneBinding \<Rightarrow> controlAPIRequest \<Rightarrow> ('w, string) step" where
  "windowTargetOf h session pane request =
     (if ca_Action request \<noteq> ''select-window'' then returnP (pn_windowID pane)
      else (\<lambda>s. case resolveWindow (sv_identity s) session (ca_WindowRef request) of
          Inl _ \<Rightarrow> (Inl (Refuse (http_Error h ''stale terminal identity'' 409)), s)
        | Inr window \<Rightarrow> (Inr (wb_rawID window), s)))"

definition handleTmuxControlAPI :: "'w api \<Rightarrow> Request \<Rightarrow> Header \<Rightarrow> Session \<Rightarrow> ('w, Response) step" where
  "handleTmuxControlAPI api r h session =
     (let bad = http_Error h ''invalid tmux control request'' 400 in
      if rq_Method r = ''GET'' then topologyResponse api h session
      else if rq_Method r = ''POST'' then
        bindP (requestP (decodeControl r) bad) (\<lambda>request.
        bindP (ensureP (length (ca_Action request) \<le> maxControlActionBytes \<and>
          length (ca_Name request) \<le> maxControlWindowNameBytes \<and> length (ca_PaneRef request) \<le> maxOpaqueReferenceBytes \<and>
          length (ca_WindowRef request) \<le> maxOpaqueReferenceBytes) bad) (\<lambda>_.
        bindP (mutationPane api h session (ca_PaneRef request)) (\<lambda>pane.
        bindP (windowTargetOf h session pane request) (\<lambda>windowTarget.
        bindP (mapErr (\<lambda>e. Refuse (controlRefusal h e))
          (onWorld (control (ap_tmux api) (pn_rawID pane) windowTarget (ca_Action request) (ca_Name request)))) (\<lambda>_.
        topologyResponse api h session)))))
      else failP (Refuse (notAllowed h)))"

subsection \<open>One session\<close>

definition parseSessionAPIPath :: "string \<Rightarrow> (SessionRef \<times> string) option" where
  "parseSessionAPIPath path =
     (let trimmed = trim_prefix path ''/api/sessions/'' in
      if trimmed = path then None
      else
        let parts = split (trim_set trimmed ''/'') CHR ''/'' in
        if length parts < 2 \<or> length parts > 3 \<or> \<not> ValidPublicRef (parts ! 0) then None
        else Some (parts ! 0, join (tl parts) ''/''))"

definition parseSessionDeletePath :: "string \<Rightarrow> SessionRef option" where
  "parseSessionDeletePath path =
     (let trimmed = trim_prefix path ''/api/sessions/'' in
      if trimmed = path \<or> CHR ''/'' \<in> set trimmed \<or> \<not> ValidPublicRef trimmed then None else Some trimmed)"

text \<open>The function a session request runs on its session.\<close>

definition sessionAction :: "'w api \<Rightarrow> string \<Rightarrow> Request \<Rightarrow> Header \<Rightarrow> SessionRef \<Rightarrow> Session \<Rightarrow> ('w, Response) step" where
  "sessionAction api suffix r h ref session =
     (if suffix = ''keys'' then handleKeysAPI api r h session
      else if suffix = ''paste'' then handlePasteAPI api r h ref session
      else if suffix = ''paste/token'' then handlePasteTokenAPI api r h ref session
      else if suffix = ''resize'' then handleResizeAPI api r h ref session
      else if suffix = ''resize/viewer'' then handleResizeViewerAPI api r h ref session
      else if suffix = ''tmux-control'' then handleTmuxControlAPI api r h session
      else returnP (http_NotFound h))"

text \<open>The response to an error of \<^verbatim>\<open>withPublicSession\<close>; a panic goes on.\<close>

definition answerError :: "(apiError sessionError \<Rightarrow> Response) \<Rightarrow> ('w exchange, apiError, unit) lifecycle \<Rightarrow>
    ('w exchange, apiError, unit) lifecycle" where
  "answerError refusal p = (\<lambda>ex. case p ex of
       (Inr _, ex') \<Rightarrow> (Inr (), ex')
     | (Inl err, ex') \<Rightarrow> if isPanic err then (Inl err, ex') else (Inr (), respond (refusal err) ex'))"

definition forgetSession :: "SessionRef \<Rightarrow> 'w Server \<Rightarrow> 'w Server" where
  "forgetSession ref s = s
     \<lparr>sv_resize := rz_ForgetSession ref (sv_resize s), sv_snapshots := sm_DeleteSession ref (sv_snapshots s),
      sv_pasteTokens := pt_DeleteSession ref (sv_pasteTokens s), sv_activity := oa_Forget (sv_activity s) ref,
      sv_identity := forget ref (sv_identity s)\<rparr>"

definition verifyPane :: "'w api \<Rightarrow> PaneRef \<Rightarrow> Session \<Rightarrow> ('w exchange, apiError, unit) lifecycle" where
  "verifyPane api ref current =
     bindP (mapErr (\<lambda>e. OfCaller (IdentityFailure e))
       (onServer (onIdentity (resolvePane (ap_rands api) (ap_tmux api) (ap_interfere api) current ref True)))) (\<lambda>_. returnP ())"

definition terminateRefusal :: "Header \<Rightarrow> apiError sessionError \<Rightarrow> Response" where
  "terminateRefusal h err =
     (if errors_Is (\<lambda>e. e = OfCaller (IdentityFailure errStaleTerminalIdentity)) err
      then http_Error h ''stale terminal identity'' 409 else lifecycleRefusal h err)"

definition terminateFound :: "'w api \<Rightarrow> Header \<Rightarrow> SessionRef \<Rightarrow> terminateSessionRequest \<Rightarrow> Session \<Rightarrow>
    ('w exchange, apiError, unit) lifecycle" where
  "terminateFound api h ref request managed =
     (if ts_ConfirmName request \<noteq> se_Name managed then
        (\<lambda>ex. (Inr (), respond (http_Error h ''invalid session termination confirmation'' 400) ex))
      else
        answerError (terminateRefusal h)
          (bindP (wl_TerminateChecked (ap_sessions api) (se_ID managed) ref (verifyPane api (ts_PaneRef request))
             (\<lambda>ex. ex\<lparr>ex_server := forgetSession ref (ex_server ex)\<rparr>)) (\<lambda>_ ex.
           (Inr (), respond \<lparr>rs_Status = 204, rs_Header = h, rs_Body = []\<rparr> ex))))"

definition handleTerminateSession :: "'w api \<Rightarrow> Request \<Rightarrow> Header \<Rightarrow> SessionRef \<Rightarrow> ('w exchange, apiError, unit) lifecycle" where
  "handleTerminateSession api r h ref =
     (let bad = http_Error h ''invalid session termination confirmation'' 400 in
      case decodeTerminate r of
        None \<Rightarrow> (\<lambda>ex. (Inr (), respond bad ex))
      | Some request \<Rightarrow>
          if length (ts_ConfirmName request) > 64 \<or> length (ts_PaneRef request) > maxOpaqueReferenceBytes
          then (\<lambda>ex. (Inr (), respond bad ex))
          else (\<lambda>ex. case findPublicSession api ref ex of
              (Inl _, ex1) \<Rightarrow> (Inr (), respond (http_Error h ''managed session not found'' 404) ex1)
            | (Inr managed, ex1) \<Rightarrow> terminateFound api h ref request managed ex1))"

definition sessionRefusal :: "Header \<Rightarrow> apiError sessionError \<Rightarrow> Response" where
  "sessionRefusal h err =
     (if errors_Is (\<lambda>e. e = OfCaller PublicSessionNotFound) err then http_Error h ''managed session not found'' 404
      else lifecycleRefusal h err)"

definition handleSessionAPI :: "'w api \<Rightarrow> Request \<Rightarrow> Header \<Rightarrow> ('w exchange, apiError, unit) lifecycle" where
  "handleSessionAPI api r h =
     (if rq_Method r = ''DELETE'' then
        (case parseSessionDeletePath (rq_Path r) of
           None \<Rightarrow> (\<lambda>ex. (Inr (), respond (http_Error h ''invalid managed session id'' 400) ex))
         | Some ref \<Rightarrow> handleTerminateSession api r h ref)
      else
        (case parseSessionAPIPath (rq_Path r) of
           None \<Rightarrow> (\<lambda>ex. (Inr (), respond (http_NotFound h) ex))
         | Some (ref, suffix) \<Rightarrow>
             answerError (sessionRefusal h) (withPublicSession api ref (\<lambda>session. answer (sessionAction api suffix r h ref session)))))"

subsection \<open>All sessions\<close>

text \<open>A session whose topology cannot be read is left out.\<close>

fun publicSessions :: "'w api \<Rightarrow> Session list \<Rightarrow> 'w Server \<Rightarrow> sessionResponse list \<times> 'w Server" where
  "publicSessions api [] s = ([], s)"
| "publicSessions api (managed # sessions) s =
     (case publicSession api managed s of
        (r, s1) \<Rightarrow> (case publicSessions api sessions s1 of
           (responses, s2) \<Rightarrow> (case r of Inl _ \<Rightarrow> (responses, s2) | Inr response \<Rightarrow> (response # responses, s2))))"

definition handleListSessions :: "'w api \<Rightarrow> Header \<Rightarrow> ('w exchange, apiError, unit) lifecycle" where
  "handleListSessions api h = (\<lambda>ex.
     case wl_List (ap_sessions api) ex of
       (Inl _, ex1) \<Rightarrow> (Inr (), respond (http_Error h ''failed to list sessions'' 500) ex1)
     | (Inr sessions, ex1) \<Rightarrow>
         answer (\<lambda>s. case publicSessions api sessions s of
           (payload, s1) \<Rightarrow> (Inr (writeJSON h (json_object [(''sessions'', json_array (map json_session payload))])), s1)) ex1)"

definition createdResponse :: "'w api \<Rightarrow> Header \<Rightarrow> Session \<Rightarrow> bool \<Rightarrow> ('w, Response) step" where
  "createdResponse api h managed created =
     bindP (refusing (http_Error h ''session topology unavailable'' 503) (publicSession api managed)) (\<lambda>response.
       returnP (writeJSONStatus h (if created then 201 else 200)
         (json_object [(''created'', json_bool created), (''session'', json_session response)])))"

text \<open>The part of a creation that the server runs under \<^verbatim>\<open>webCreateMu\<close>.\<close>

definition createNamed :: "'w api \<Rightarrow> Header \<Rightarrow> string \<Rightarrow> ('w exchange, apiError, unit) lifecycle" where
  "createNamed api h name = (\<lambda>ex.
     case wl_List (ap_sessions api) ex of
       (Inl _, ex1) \<Rightarrow> (Inr (), respond (http_Error h ''session lifecycle unavailable'' 503) ex1)
     | (Inr sessions, ex1) \<Rightarrow>
         if \<not> list_ex (\<lambda>managed. se_ID managed = name) sessions \<and> int (length sessions) \<ge> cf_MaxSessions (sv_cfg (ex_server ex1)) then
           (Inr (), respond (http_Error h ''managed session limit reached'' 409) ex1)
         else
           (case wl_CreateOrSelect (ap_sessions api) name ex1 of
              (Inl err, ex2) \<Rightarrow> (Inr (), respond (lifecycleRefusal h err) ex2)
            | (Inr (managed, created), ex2) \<Rightarrow> answer (createdResponse api h managed created) ex2))"

definition handleCreateSession :: "'w api \<Rightarrow> Request \<Rightarrow> Header \<Rightarrow> ('w exchange, apiError, unit) lifecycle" where
  "handleCreateSession api r h =
     (let bad = http_Error h ''invalid session create request'' 400 in
      case createSessionName r of
        None \<Rightarrow> (\<lambda>ex. (Inr (), respond bad ex))
      | Some name \<Rightarrow> if \<not> ValidID name then (\<lambda>ex. (Inr (), respond bad ex)) else createNamed api h name)"

definition handleSessions :: "'w api \<Rightarrow> Request \<Rightarrow> Header \<Rightarrow> ('w exchange, apiError, unit) lifecycle" where
  "handleSessions api r h =
     (if rq_Method r = ''GET'' then handleListSessions api h
      else if rq_Method r = ''POST'' then handleCreateSession api r h
      else (\<lambda>ex. (Inr (), respond (notAllowed h) ex)))"

text \<open>The handler as the front calls it: the response, or none after a panic.\<close>

definition newExchange :: "'w Server \<Rightarrow> 'w exchange" where
  "newExchange s = \<lparr>ex_server = s, ex_response = None, ex_pane = None, ex_capture = None\<rparr>"

definition runHandler :: "('w exchange, apiError, unit) lifecycle \<Rightarrow> 'w Server \<Rightarrow> Response option \<times> 'w Server" where
  "runHandler p s =
     (case p (newExchange s) of
        (Inl _, ex) \<Rightarrow> (None, ex_server ex)
      | (Inr _, ex) \<Rightarrow> (ex_response ex, ex_server ex))"

definition apiHandler :: "'w api \<Rightarrow> (Request \<Rightarrow> Header \<Rightarrow> 'w Server \<Rightarrow> Response option \<times> 'w Server) \<Rightarrow> route \<Rightarrow> 'w Server handler" where
  "apiHandler api others rt r h s =
     (case rt of
        RouteSessions \<Rightarrow> runHandler (handleSessions api r h) s
      | RouteSession \<Rightarrow> runHandler (handleSessionAPI api r h) s
      | _ \<Rightarrow> others r h s)"

end
