(* ===== verification/Session_Api_Safety.thy ===== *)
theory Session_Api_Safety
  imports Session_Api
begin

section \<open>What the session API sends to tmux\<close>

text \<open>
  The handlers are run on a tmux client that records its commands. Commands that only read are told from the
  others, and the others are traced to the pane reference of the request.
\<close>

subsection \<open>Programs that write a log\<close>

definition wrote :: "('x \<Rightarrow> 'c list) \<Rightarrow> ('c \<Rightarrow> bool) \<Rightarrow> 'x \<Rightarrow> 'x \<Rightarrow> bool" where
  "wrote view P x x' \<longleftrightarrow> (\<exists>cmds. view x' = view x @ cmds \<and> list_all P cmds)"

definition writes :: "('x \<Rightarrow> 'c list) \<Rightarrow> ('c \<Rightarrow> bool) \<Rightarrow> ('x, 'e, 'a) prog \<Rightarrow> bool" where
  "writes view P p \<longleftrightarrow> (\<forall>x. wrote view P x (snd (p x)))"

named_theorems writesI \<open>programs that write only commands of a kind\<close>

lemma wrote_same: "view x' = view x \<Longrightarrow> wrote view P x x'"
  by (simp add: wrote_def)

lemma wrote_trans: "wrote view P x y \<Longrightarrow> wrote view P y z \<Longrightarrow> wrote view P x z"
  by (force simp: wrote_def)

lemma wrote_mono: "wrote view P x y \<Longrightarrow> (\<And>c. P c \<Longrightarrow> Q c) \<Longrightarrow> wrote view Q x y"
  by (auto simp: wrote_def list_all_iff)

lemma writesD: "writes view P p \<Longrightarrow> p x = (r, x') \<Longrightarrow> wrote view P x x'"
  by (metis writes_def snd_conv)

lemma writes_same: "(\<And>x. view (snd (p x)) = view x) \<Longrightarrow> writes view P p"
  by (simp add: writes_def wrote_same)

lemma writes_runs: "(\<And>x r x'. p x = (r, x') \<Longrightarrow> wrote view P x x') \<Longrightarrow> writes view P p"
  unfolding writes_def by (metis prod.collapse)

text \<open>A program that runs another on a part of its world.\<close>

lemma writes_part:
  assumes "writes view P p"
    and "\<And>x r x'. q x = (r, x') \<Longrightarrow> \<exists>y r1 y'. p y = (r1, y') \<and> view y = view' x \<and> view y' = view' x'"
  shows "writes view' P q"
proof (rule writes_runs)
  fix x r x'
  assume "q x = (r, x')"
  from assms(2) [OF this] obtain y r1 y' where "p y = (r1, y')" "view y = view' x" "view y' = view' x'" by blast
  with writesD [OF assms(1), of y r1 y'] show "wrote view' P x x'" by (simp add: wrote_def)
qed

lemma writes_return [writesI]: "writes view P (returnP v)" "writes view P (failP e)" "writes view P (liftP r)"
  by (simp_all add: writes_same)

lemma writes_bind [writesI]:
  assumes "writes view P p" "\<And>v. writes view P (f v)"
  shows "writes view P (bindP p f)"
proof -
  have "wrote view P x (snd (bindP p f x))" for x
    using assms by (cases "p x") (auto simp: writes_def bindP_apply intro: wrote_trans split: sum.split dest!: spec [of _ x])
  then show ?thesis by (simp add: writes_def)
qed

lemma writes_try [writesI]:
  assumes "writes view P p" "\<And>r. writes view P (f r)"
  shows "writes view P (tryP p f)"
proof -
  have "wrote view P x (snd (tryP p f x))" for x
    using assms by (cases "p x") (auto simp: writes_def tryP_apply intro: wrote_trans dest!: spec [of _ x])
  then show ?thesis by (simp add: writes_def)
qed

lemma mapErr_run: "mapErr f p x = (r, x') \<Longrightarrow> p x = (fst (p x), x')"
  by (cases "p x"; cases "fst (p x)") (simp_all add: mapErr_def)

lemma writes_mapErr [writesI]:
  assumes "writes view P p"
  shows "writes view P (mapErr f p)"
proof (rule writes_runs)
  fix x r x'
  assume "mapErr f p x = (r, x')"
  from writesD [OF assms mapErr_run [OF this]] show "wrote view P x x'" .
qed

lemma writes_mono:
  assumes "writes view P p" "\<And>c. P c \<Longrightarrow> Q c"
  shows "writes view Q p"
proof (rule writes_runs)
  fix x r x'
  assume "p x = (r, x')"
  from writesD [OF assms(1) this] show "wrote view Q x x'" by (rule wrote_mono) (rule assms(2))
qed

text \<open>The log of a recording client, in the worlds of the layers.\<close>

type_synonym command = "string list \<times> string"

abbreviation identity_log :: "(command list \<times> 'v) \<times> identityStore \<Rightarrow> command list" where
  "identity_log \<equiv> \<lambda>x. fst (fst x)"

abbreviation sent :: "(command list \<times> 'v) Server \<Rightarrow> command list" where
  "sent s \<equiv> fst (sv_world s)"

lemma writes_output [writesI]: "P (binary # args, []) \<Longrightarrow> writes fst P (cl_output (logged_client rn binary) args)"
  by (simp add: writes_def wrote_def cl_output_def logged_client_def logged_def logP_def split: prod.split)

lemma writes_run [writesI]: "P (binary # args, []) \<Longrightarrow> writes fst P (cl_run (logged_client rn binary) args)"
  by (simp add: writes_def wrote_def cl_run_def logged_client_def logged_def logP_def split: prod.split)

lemma writes_onTmux [writesI]: "writes fst P p \<Longrightarrow> writes identity_log P (onTmux p)"
  by (erule writes_part) (fastforce simp: onTmux_def split: prod.splits sum.splits)

lemma writes_onIdentity [writesI]: "writes identity_log P p \<Longrightarrow> writes sent P (onIdentity p)"
proof (erule writes_part)
  fix s r s'
  assume "onIdentity p s = (r, s')"
  then show "\<exists>y r1 y'. p y = (r1, y') \<and> fst (fst y) = sent s \<and> fst (fst y') = sent s'"
    by (intro exI [of _ "(sv_world s, sv_identity s)"]) (auto simp: onIdentity_def split: prod.splits)
qed

lemma writes_onWorld [writesI]: "writes fst P p \<Longrightarrow> writes sent P (onWorld p)"
proof (erule writes_part)
  fix s r s'
  assume "onWorld p s = (r, s')"
  then show "\<exists>y r1 y'. p y = (r1, y') \<and> fst y = sent s \<and> fst y' = sent s'"
    by (intro exI [of _ "sv_world s"]) (auto simp: onWorld_def split: prod.splits)
qed

lemma writes_step [writesI]: "writes sent P (ensureP b response)" "writes sent P (requestP request response)"
  "writes sent P (loginScope api r h)" "writes sent P (consumeToken api h token expected)"
  "writes sent P (createToken api h binding)" "writes sent P (recordViewer api h ref viewer)"
  "writes sent P (viewersP api ref)" "writes sent P (viewerOf api ref viewerID)" "writes sent P (windowTargetOf h session pane action)"
  by (auto intro!: writes_same simp: ensureP_def requestP_def loginScope_def consumeToken_def createToken_def recordViewer_def
      viewersP_def viewerOf_def windowTargetOf_def split: option.split prod.split sum.split)

lemma writes_onDisk:
  assumes "\<And>d w. fst (ap_setDisk api d w) = fst w"
  shows "writes sent P (onDisk api p)"
proof (rule writes_same)
  fix s
  show "sent (snd (onDisk api p s)) = sent s"
    using assms [of _ "sv_world s"] by (simp add: onDisk_def onWorld_def split_def)
qed

subsection \<open>Commands that read\<close>

definition reading :: "command \<Rightarrow> bool" where
  "reading c \<longleftrightarrow> (case fst c of _ # cmd # _ \<Rightarrow> cmd = ''display-message'' \<or> cmd = ''list-panes'' | _ \<Rightarrow> False)"

lemma topology_reads: "writes fst reading (tmux_Topology (logged_client rn binary) target)"
  unfolding tmux_Topology_def Let_def by (auto intro!: writesI simp: reading_def split: prod.split)

lemma verify_reads: "writes fst reading (VerifyPaneGeneration (logged_client rn binary) pane expected)"
  unfolding VerifyPaneGeneration_def Let_def by (auto intro!: writesI simp: reading_def split: prod.split sum.split)

lemma refresh_reads: "writes identity_log reading (refresh rands (logged_client rn binary) managed)"
proof -
  have "writes identity_log reading (\<lambda>(w, store). case applyTopology rands managed topology store of (r, store') \<Rightarrow> (r, (w, store')))"
    for topology by (auto intro!: writes_same split: prod.split)
  then show ?thesis unfolding refresh_def by (intro writesI topology_reads)
qed

lemma resolve_reads: "writes identity_log reading (resolvePane rands (logged_client rn binary) env managed ref active)"
proof (cases "ref = []")
  case False
  let ?c = "logged_client rn binary"
  have verify: "wrote identity_log reading (w, store) (w', store')"
    if "VerifyPaneGeneration ?c pane expected w = (r, w')" for w w' store store' r pane expected
    using writesD [OF verify_reads that] by (simp add: wrote_def)
  have "writes identity_log reading (\<lambda>(w, store0).
      let store = env store0 in
      case map_of (is_sessions store) (se_PublicRef managed) of
        None \<Rightarrow> (Inl NilDereference, (w, store))
      | Some identity \<Rightarrow>
          (case map_of (si_panes identity) ref of
             None \<Rightarrow> (Inl errStaleTerminalIdentity, (w, store))
           | Some binding \<Rightarrow>
               if active \<and> \<not> pn_active binding then (Inl errStaleTerminalIdentity, (w, store))
               else
                 let expected = \<lparr>ServerStart = TmuxServerStart (pn_generation binding),
                       ServerPID = TmuxServerPID (pn_generation binding),
                       GenPaneID = PaneID (pn_generation binding)\<rparr> in
                 (case VerifyPaneGeneration ?c (pn_rawID binding) expected w of
                    (Inl e, w') \<Rightarrow> (Inl errStaleTerminalIdentity, (w', store))
                  | (Inr _, w') \<Rightarrow> (Inr binding, (w', store)))))"
    (is "writes _ _ ?lookup")
  proof (rule writes_runs)
    fix x r x'
    assume "?lookup x = (r, x')"
    then show "wrote identity_log reading x x'"
      by (cases x) (auto simp: Let_def intro: wrote_same verify split: option.splits if_splits prod.splits sum.splits)
  qed
  then show ?thesis
    unfolding resolvePane_def using False by (simp only: if_False) (intro writesI refresh_reads)
qed (simp add: resolvePane_def writesI)

subsection \<open>Commands that act\<close>

text \<open>
  The commands a request may send besides: those aimed at the pane, at its window, or at a given window, and those on the buffer
  of a paste.
\<close>

definition touches :: "paneBinding \<Rightarrow> string \<Rightarrow> command \<Rightarrow> bool" where
  "touches b window c \<longleftrightarrow>
     command_target (fst c) \<in> {Some (pn_rawID b), Some (pn_windowID b), Some window} \<or>
     (case fst c of [_, cmd, _, buffer] \<Rightarrow> cmd = ''delete-buffer'' \<and> has_prefix buffer ''control-agents-paste-''
      | [_, cmd, _, buffer, _] \<Rightarrow> cmd = ''load-buffer'' \<and> has_prefix buffer ''control-agents-paste-'' | _ \<Rightarrow> False)"

abbreviation permitted :: "paneBinding \<Rightarrow> string \<Rightarrow> command \<Rightarrow> bool" where
  "permitted b window \<equiv> \<lambda>c. reading c \<or> touches b window c"

text \<open>The reference of a pane in a request.\<close>

definition requestPane :: "string \<Rightarrow> Request \<Rightarrow> PaneRef option" where
  "requestPane suffix r =
     (if suffix = ''keys'' then map_option ka_PaneRef (decodeKey r)
      else if suffix = ''paste'' then map_option pa_PaneRef (decodePaste r)
      else if suffix = ''paste/token'' then map_option pk_PaneRef (decodePasteToken r)
      else if suffix = ''resize'' then map_option rr_PaneRef (decodeResize r)
      else if suffix = ''resize/viewer'' then map_option rv_PaneRef (decodeResizeViewer r)
      else if suffix = ''tmux-control'' then map_option ca_PaneRef (decodeControl r)
      else None)"

text \<open>
  The pane a request stands for, with the window a control request may name: the pane is what \<^verbatim>\<open>resolvePane\<close> returned
  when it was run for the session and the reference, in the state \<open>s\<close> in which the action began; \<open>w\<close> and \<open>store\<close> are the world and the
  identities it left. The window is the pane's, or one of the session in this store.
\<close>

definition designates :: "'w api \<Rightarrow> Session \<Rightarrow> string \<Rightarrow> Request \<Rightarrow> 'w Server \<Rightarrow> 'w \<Rightarrow> identityStore \<Rightarrow> paneBinding \<Rightarrow> string \<Rightarrow> bool" where
  "designates api session suffix r s w store b window \<longleftrightarrow>
     (\<exists>ref. requestPane suffix r = Some ref \<and>
        resolvePane (ap_rands api) (ap_tmux api) (ap_interfere api) session ref True (sv_world s, sv_identity s) = (Inr b, (w, store)) \<and>
        (window = pn_windowID b \<or>
         (\<exists>request binding. decodeControl r = Some request \<and>
            resolveWindow store session (ca_WindowRef request) = Inr binding \<and> window = wb_rawID binding)))"

lemma target_touches: "command_target cmd = Some t \<Longrightarrow> t \<in> {pn_rawID b, pn_windowID b, window} \<Longrightarrow> permitted b window (cmd, input)"
  by (auto simp: touches_def)

lemma mutation_cases:
  assumes "ap_tmux api = logged_client rn binary" "bindP (mutationPane api h session ref) f s = (r, s')"
  obtains (refused) "wrote sent reading s s'" "isl r"
  | (resolved) b w S1 where
      "resolvePane (ap_rands api) (ap_tmux api) (ap_interfere api) session ref True (sv_world s, sv_identity s) = (Inr b, (w, S1))"
      "wrote sent reading s (s\<lparr>sv_world := w, sv_identity := S1\<rparr>)" "f b (s\<lparr>sv_world := w, sv_identity := S1\<rparr>) = (r, s')"
proof -
  obtain r0 w S1 where r0: "resolvePane (ap_rands api) (ap_tmux api) (ap_interfere api) session ref True
      (sv_world s, sv_identity s) = (r0, (w, S1))" by (metis prod.exhaust)
  have reads: "wrote sent reading s (s\<lparr>sv_world := w, sv_identity := S1\<rparr>)"
    using writesD [OF resolve_reads [where rn = rn and binary = binary] r0 [unfolded assms(1)]] by (simp add: wrote_def)
  show thesis
  proof (cases r0)
    case (Inl e)
    then have "s' = s\<lparr>sv_world := w, sv_identity := S1\<rparr>" "isl r"
      using assms(2) r0 by (auto simp: bindP_apply mutationPane_def mapErr_def onIdentity_def)
    then show thesis using refused reads by simp
  next
    case (Inr b)
    then have "f b (s\<lparr>sv_world := w, sv_identity := S1\<rparr>) = (r, s')"
      using assms(2) r0 by (simp add: bindP_apply mutationPane_def mapErr_def onIdentity_def)
    then show thesis using resolved r0 reads Inr by simp
  qed
qed

text \<open>The outcome of a handler that names a pane.\<close>

definition confined :: "(command list \<times> 'v) api \<Rightarrow> Session \<Rightarrow> string \<Rightarrow> Request \<Rightarrow> (command list \<times> 'v) Server \<Rightarrow>
    (command list \<times> 'v) Server \<Rightarrow> bool" where
  "confined api session suffix r s s' \<longleftrightarrow> wrote sent reading s s' \<or>
     (\<exists>w store b window. designates api session suffix r s w store b window \<and> wrote sent reading s (s\<lparr>sv_world := w\<rparr>) \<and>
        wrote sent (permitted b window) (s\<lparr>sv_world := w\<rparr>) s')"

lemma confinedI:
  assumes "designates api session suffix r s w store b window" "wrote sent reading s (s\<lparr>sv_world := w, sv_identity := store'\<rparr>)"
    and "wrote sent (permitted b window) (s\<lparr>sv_world := w, sv_identity := store'\<rparr>) s'"
  shows "confined api session suffix r s s'"
proof -
  have "wrote sent reading s (s\<lparr>sv_world := w\<rparr>)" "wrote sent (permitted b window) (s\<lparr>sv_world := w\<rparr>) s'"
    using assms(2,3) by (simp_all add: wrote_def)
  with assms(1) show ?thesis unfolding confined_def by blast
qed

lemma confined_pane:
  assumes "ap_tmux api = logged_client rn binary" "bindP (mutationPane api h session ref) f s = (r0, s')"
    and "requestPane suffix r = Some ref"
    and "\<And>b. writes sent (permitted b (pn_windowID b)) (f b)"
  shows "confined api session suffix r s s'"
  using assms(1,2)
proof (cases rule: mutation_cases)
  case refused
  then show ?thesis by (simp add: confined_def)
next
  case (resolved b w S1)
  have "designates api session suffix r s w S1 b (pn_windowID b)"
    using resolved(1) assms(3) unfolding designates_def by blast
  then show ?thesis using resolved(2) writesD [OF assms(4) resolved(3)] by (rule confinedI)
qed

text \<open>The checks before the pane is resolved leave the server alone.\<close>

lemma check_elim:
  assumes "bindP (ensureP b response) f s = (r, s')"
  obtains "s' = s" "r = Inl (Refuse response)" "\<not> b" | "b" "f () s = (r, s')"
  using assms by (auto simp: ensureP_def split: if_splits)

lemma request_elim:
  assumes "bindP (requestP request response) f s = (r, s')"
  obtains "s' = s" "r = Inl (Refuse response)" "request = None" | x where "request = Some x" "f x s = (r, s')"
  using assms by (auto simp: requestP_def split: option.splits)

lemma scope_elim:
  assumes "bindP (loginScope api q h) f s = (r, s')"
  obtains "s' = s" "isl r" | user where
    "LoginScope (ap_sha256 api) (ap_hmac api) (sv_auth s) (ap_clock api 0) q = Some user" "f user s = (r, s')"
  using assms by (auto simp: loginScope_def requestP_def bindP_apply split: option.splits)

lemma confined_same: "confined api session suffix r s s"
  by (simp add: confined_def wrote_same)

lemma send_touches:
  "writes fst (permitted b window) (SendText isPrint (logged_client rn binary) (pn_rawID b) text0)"
  "writes fst (permitted b window) (SendKey (logged_client rn binary) (pn_rawID b) key)"
  unfolding SendText_def SendKey_def
  by (auto intro!: writesI simp: command_target_def touches_def split: option.split)

lemma resize_touches:
  "writes fst (permitted b window) (ResizeFixed (logged_client rn binary) (pn_windowID b))"
  "writes fst (permitted b window) (ResizeManual (logged_client rn binary) (pn_windowID b) width height)"
  unfolding ResizeFixed_def ResizeManual_def by (auto intro!: writesI simp: command_target_def touches_def)

lemma writes_input:
  assumes "P (binary # args, input)" "rn_RunWithInput (cl_runner (logged_client rn binary)) = Some f"
  shows "writes fst P (f input (binary # args))"
  using assms by (auto simp: logged_client_def logged_def logP_def writes_def wrote_def split: prod.split)

lemma paste_touches:
  "writes fst (permitted b window) (tmux_Paste (logged_client rn binary) random (pn_rawID b) text0)"
proof -
  let ?c = "logged_client rn binary"
  have binary: "cl_binary ?c = binary" by (simp add: logged_client_def)
  let ?P = "permitted b window"
  have pasting: "writes fst ?P (cl_run ?c [''paste-buffer'', ''-p'', ''-r'', ''-b'', ''control-agents-paste-'' @ t, ''-t'', pn_rawID b])" for t
    by (intro writesI) (simp add: touches_def command_target_def)
  have deleting: "writes fst ?P (cl_run ?c [''delete-buffer'', ''-b'', ''control-agents-paste-'' @ t])" for t
    by (intro writesI) (simp add: touches_def has_prefix_def)
  have loading: "writes fst ?P (f text0 [binary, ''load-buffer'', ''-b'', ''control-agents-paste-'' @ t, ''-''])"
    if "rn_RunWithInput (cl_runner ?c) = Some f" for f t
    by (rule writes_input [OF _ that]) (simp add: touches_def has_prefix_def)
  have body: "writes fst ?P (tryP (bindP (f text0 [binary, ''load-buffer'', ''-b'', ''control-agents-paste-'' @ t, ''-''])
        (\<lambda>_. cl_run ?c [''paste-buffer'', ''-p'', ''-r'', ''-b'', ''control-agents-paste-'' @ t, ''-t'', pn_rawID b]))
      (\<lambda>result. tryP (cl_run ?c [''delete-buffer'', ''-b'', ''control-agents-paste-'' @ t]) (\<lambda>cleanup.
         case (result, cleanup) of (Inr _, Inr _) \<Rightarrow> returnP () | (Inl e, Inr _) \<Rightarrow> failP e
         | (Inr _, Inl e) \<Rightarrow> failP e | (Inl e, Inl e') \<Rightarrow> failP (ErrJoin e e'))))"
    if "rn_RunWithInput (cl_runner ?c) = Some f" for f t
    by (rule writes_try [OF writes_bind [OF loading [OF that] pasting]], rule writes_try [OF deleting])
      (simp add: writes_return split: sum.split)
  show ?thesis
    unfolding tmux_Paste_def Let_def binary
    using body by (auto intro: writes_return split: option.split)
qed

lemma control_touches:
  "writes fst (permitted b window) (control (logged_client rn binary) (pn_rawID b) window action name)"
proof (rule writes_runs)
  fix x r x'
  assume run: "control (logged_client rn binary) (pn_rawID b) window action name x = (r, x')"
  obtain log w where x: "x = (log, w)" by (metis prod.exhaust)
  have "fst x' = log \<or> (\<exists>cmd. aimed (pn_rawID b) window cmd \<and> fst x' = log @ [(cmd, [])])"
    using control_at_most_one [of "pn_rawID b" window rn binary action name] run unfolding at_most_one_def x
    by (metis fst_conv snd_conv)
  then show "wrote fst (permitted b window) x x'"
    unfolding wrote_def x by (auto simp: aimed_def touches_def)
qed


subsection \<open>The handlers\<close>

lemma refresh_writes:
  "ap_tmux api = logged_client rn binary \<Longrightarrow> writes sent reading (refreshTopology api managed)"
  unfolding refreshTopology_def by (intro writesI) (simp add: refresh_reads)

lemma resize_response_writes:
  assumes "ap_tmux api = logged_client rn binary" "\<And>d w. fst (ap_setDisk api d w) = fst w"
  shows "writes sent reading (resizeResponseOf api h ref session applied)"
  unfolding resizeResponseOf_def Let_def refusing_def
  by (intro writesI writes_onDisk assms(2) refresh_writes [OF assms(1)])

lemma topology_response_writes:
  "ap_tmux api = logged_client rn binary \<Longrightarrow> writes sent reading (topologyResponse api h session)"
  unfolding topologyResponse_def refusing_def by (intro writesI refresh_writes)

lemma apply_touches:
  assumes "ap_tmux api = logged_client rn binary" "\<And>d w. fst (ap_setDisk api d w) = fst w"
  shows "writes sent (permitted b window) (applyResizeRequest api ref b request)"
proof -
  have save: "writes sent (permitted b window) (saveSettings api ref settings)" for settings
    unfolding saveSettings_def by (intro writesI writes_onDisk assms(2))
  have resize: "writes sent (permitted b window) (mapErr f (onWorld (ResizeFixed (ap_tmux api) (pn_windowID b))))"
    "writes sent (permitted b window) (mapErr f (onWorld (ResizeManual (ap_tmux api) (pn_windowID b) x y)))" for f x y
    unfolding assms(1) by (intro writesI resize_touches)+
  show ?thesis
    unfolding applyResizeRequest_def Let_def by (auto intro!: writesI save resize split: sum.split)
qed

lemma keys_confined:
  assumes "ap_tmux api = logged_client rn binary" "handleKeysAPI api r h session s = (res, s')"
  shows "confined api session ''keys'' r s s'"
  using assms(2) unfolding handleKeysAPI_def Let_def
proof (elim check_elim request_elim, goal_cases)
  case (4 request)
  have "requestPane ''keys'' r = Some (ka_PaneRef request)" by (simp add: requestPane_def 4(2))
  moreover have "writes fst (permitted b (pn_windowID b))
      (if ka_Text request \<noteq> [] then SendText (ap_isPrint api) (ap_tmux api) (pn_rawID b) (ka_Text request)
       else SendKey (ap_tmux api) (pn_rawID b) (ka_Key request))" for b
    unfolding assms(1) by (simp add: send_touches)
  ultimately show ?case
    by (intro confined_pane [OF assms(1) 4(4)] writesI)
qed (simp_all add: confined_same)

lemma paste_confined:
  assumes "ap_tmux api = logged_client rn binary" "handlePasteAPI api r h ref session s = (res, s')"
  shows "confined api session ''paste'' r s s'"
  using assms(2) unfolding handlePasteAPI_def Let_def
proof (elim check_elim request_elim scope_elim, goal_cases)
  case (5 user request)
  have "requestPane ''paste'' r = Some (pa_PaneRef request)" by (simp add: requestPane_def 5(3))
  moreover have "writes fst (permitted b (pn_windowID b))
      (tmux_Paste (ap_tmux api) (ap_bufferRandom api) (pn_rawID b) (pa_Text request))" for b
    unfolding assms(1) by (rule paste_touches)
  ultimately show ?case by (intro confined_pane [OF assms(1) 5(5)] writesI)
qed (simp_all add: confined_same)

lemma paste_token_confined:
  assumes "ap_tmux api = logged_client rn binary" "handlePasteTokenAPI api r h ref session s = (res, s')"
  shows "confined api session ''paste/token'' r s s'"
  using assms(2) unfolding handlePasteTokenAPI_def Let_def
proof (elim check_elim request_elim scope_elim, goal_cases)
  case (5 user request)
  have "requestPane ''paste/token'' r = Some (pk_PaneRef request)" by (simp add: requestPane_def 5(3))
  then show ?case
    by (intro confined_pane [OF assms(1) 5(5)] writesI) (auto intro: writesI split: prod.split)
qed (simp_all add: confined_same)

lemma resize_confined:
  assumes "ap_tmux api = logged_client rn binary" "\<And>d w. fst (ap_setDisk api d w) = fst w"
    and "handleResizeAPI api r h ref session s = (res, s')"
  shows "confined api session ''resize'' r s s'"
proof -
  have response: "writes sent reading (resizeResponseOf api h ref session applied)" for applied
    by (rule resize_response_writes [OF assms(1,2)])
  consider "rq_Method r = ''GET''" | "rq_Method r = ''POST''" | "rq_Method r \<noteq> ''GET''" "rq_Method r \<noteq> ''POST''" by blast
  then show ?thesis
  proof cases
    case 1
    with assms(3) writesD [OF response] show ?thesis by (simp add: handleResizeAPI_def confined_def)
  next
    case 2
    with assms(3) show ?thesis unfolding handleResizeAPI_def Let_def
    proof (simp, elim check_elim request_elim, goal_cases)
      case (3 request)
      have "requestPane ''resize'' r = Some (rr_PaneRef request)" using 3 by (simp add: requestPane_def)
      then show ?case
        by (intro confined_pane [OF assms(1) 3(6)] writesI apply_touches [OF assms(1,2)] writes_mono [OF response]) simp_all
    qed (simp_all add: confined_same)
  next
    case 3
    with assms(3) show ?thesis by (simp add: handleResizeAPI_def confined_same)
  qed
qed

lemma viewer_confined:
  assumes "ap_tmux api = logged_client rn binary" "\<And>d w. fst (ap_setDisk api d w) = fst w"
    and "handleResizeViewerAPI api r h ref session s = (res, s')"
  shows "confined api session ''resize/viewer'' r s s'"
  using assms(3) unfolding handleResizeViewerAPI_def Let_def
proof (elim check_elim request_elim, goal_cases)
  case (4 request)
  have "requestPane ''resize/viewer'' r = Some (rv_PaneRef request)" by (simp add: requestPane_def 4(2))
  then show ?case
    by (intro confined_pane [OF assms(1) 4(4)] writesI writes_mono [OF resize_response_writes [OF assms(1,2)]]) simp_all
qed (simp_all add: confined_same)

lemma window_elim:
  assumes "bindP (windowTargetOf h session pane request) f s = (r, s')"
  obtains "s' = s" | window where
    "window = pn_windowID pane \<or> (\<exists>binding. resolveWindow (sv_identity s) session (ca_WindowRef request) = Inr binding \<and>
       window = wb_rawID binding)" "f window s = (r, s')"
proof -
  have "windowTargetOf h session pane request s = (Inr (pn_windowID pane), s) \<or>
      (\<exists>e. windowTargetOf h session pane request s = (Inl e, s)) \<or>
      (\<exists>binding. resolveWindow (sv_identity s) session (ca_WindowRef request) = Inr binding \<and>
        windowTargetOf h session pane request s = (Inr (wb_rawID binding), s))"
    by (simp add: windowTargetOf_def split: sum.split)
  then consider (pane) "windowTargetOf h session pane request s = (Inr (pn_windowID pane), s)"
    | (fails) e where "windowTargetOf h session pane request s = (Inl e, s)"
    | (window) binding where "resolveWindow (sv_identity s) session (ca_WindowRef request) = Inr binding"
        "windowTargetOf h session pane request s = (Inr (wb_rawID binding), s)" by blast
  then show thesis
  proof cases
    case pane
    then show thesis using assms that(2) [of "pn_windowID pane"] by (simp add: bindP_apply)
  next
    case fails
    then show thesis using assms that(1) by (simp add: bindP_apply)
  next
    case window
    then show thesis using assms that(2) [of "wb_rawID binding"] by (simp add: bindP_apply)
  qed
qed

lemma control_confined:
  assumes "ap_tmux api = logged_client rn binary" "handleTmuxControlAPI api r h session s = (res, s')"
  shows "confined api session ''tmux-control'' r s s'"
proof -
  have response: "writes sent reading (topologyResponse api h session)"
    by (rule topology_response_writes [OF assms(1)])
  consider "rq_Method r = ''GET''" | "rq_Method r = ''POST''" | "rq_Method r \<noteq> ''GET''" "rq_Method r \<noteq> ''POST''" by blast
  then show ?thesis
  proof cases
    case 1
    with assms(2) writesD [OF response] show ?thesis by (simp add: handleTmuxControlAPI_def confined_def)
  next
    case 2
    with assms(2) show ?thesis unfolding handleTmuxControlAPI_def Let_def
    proof (simp, elim check_elim request_elim, goal_cases)
      case (3 request)
      have pane: "requestPane ''tmux-control'' r = Some (ca_PaneRef request)" using 3 by (simp add: requestPane_def)
      from assms(1) 3(6) show ?case
      proof (cases rule: mutation_cases)
        case refused
        then show ?thesis by (simp add: confined_def)
      next
        case (resolved b w S1)
        let ?s1 = "s\<lparr>sv_world := w, sv_identity := S1\<rparr>"
        let ?tail = "\<lambda>window. bindP (mapErr (\<lambda>e. Refuse (controlRefusal h e))
            (onWorld (control (ap_tmux api) (pn_rawID b) window (ca_Action request) (ca_Name request))))
          (\<lambda>_. topologyResponse api h session)"
        have tail: "writes sent (permitted b window) (?tail window)" for window
          unfolding assms(1) by (intro writesI control_touches writes_mono [OF response]) simp_all
        from resolved(3) have "(\<exists>window. designates api session ''tmux-control'' r s w S1 b window \<and> ?tail window ?s1 = (res, s')) \<or> s' = ?s1"
        proof (cases rule: window_elim)
          case (2 window)
          have "designates api session ''tmux-control'' r s w S1 b window"
            unfolding designates_def by (intro exI [of _ "ca_PaneRef request"]) (use pane resolved(1) 3(4) 2(1) in auto)
          with 2(2) show ?thesis by blast
        qed simp
        then show ?thesis
        proof
          assume "s' = ?s1"
          with resolved(2) show ?thesis by (simp add: confined_def)
        next
          assume "\<exists>window. designates api session ''tmux-control'' r s w S1 b window \<and> ?tail window ?s1 = (res, s')"
          then obtain window where window: "designates api session ''tmux-control'' r s w S1 b window" "?tail window ?s1 = (res, s')" by blast
          then show ?thesis using resolved(2) writesD [OF tail window(2)] by (intro confinedI)
        qed
      qed
    qed (simp_all add: confined_same)
  next
    case 3
    with assms(2) show ?thesis by (simp add: handleTmuxControlAPI_def confined_same)
  qed
qed

text \<open>
  C5. The action that a request takes on its session, once the lifecycle has found the session, sends tmux nothing but commands that read,
  unless \<^verbatim>\<open>resolvePane\<close>, run when the action begins, returned the pane that the pane reference of the request names in this session.
  Then the commands up to the answer of \<^verbatim>\<open>resolvePane\<close> only read, and every later one that does not is aimed at this pane, at its window
  or, when a control request names one, at a window that the store of identities \<^verbatim>\<open>resolvePane\<close> left has for the same session, or
  it is a command on the buffer of a paste. What the lifecycle itself sends before, to configure the sessions it lists, is not part of
  the action.
\<close>

theorem session_commands_confined:
  assumes "ap_tmux api = logged_client rn binary" "\<And>d w. fst (ap_setDisk api d w) = fst w"
    and "sessionAction api suffix r h ref session s = (res, s')"
  shows "\<exists>cmds. sent s' = sent s @ cmds \<and> (list_all reading cmds \<or>
     (\<exists>w store b window before after. designates api session suffix r s w store b window \<and> fst w = sent s @ before \<and>
        cmds = before @ after \<and> list_all reading before \<and> list_all (permitted b window) after))"
proof -
  have "confined api session suffix r s s'"
    using assms(3) keys_confined [OF assms(1)] paste_confined [OF assms(1)] paste_token_confined [OF assms(1)]
      resize_confined [OF assms(1,2)] viewer_confined [OF assms(1,2)] control_confined [OF assms(1)]
    unfolding sessionAction_def by (auto simp: confined_same split: if_splits)
  then show ?thesis
  proof (unfold confined_def, elim disjE exE conjE)
    assume "wrote sent reading s s'"
    then show ?thesis unfolding wrote_def by blast
  next
    fix w store b window
    assume "designates api session suffix r s w store b window" "wrote sent reading s (s\<lparr>sv_world := w\<rparr>)"
      "wrote sent (permitted b window) (s\<lparr>sv_world := w\<rparr>) s'"
    then show ?thesis unfolding wrote_def by fastforce
  qed
qed


subsection \<open>A paste needs its token\<close>

text \<open>
  C2. If a paste request sends tmux any command that is not just a read, then the request carries a valid login, a well-formed text and
  the name of a token that was in the store and not expired, and the token was issued to this login for this session, this pane in its
  present generation, and exactly this text. The token is gone afterwards, and the command is one of the three of this paste:
  the text loaded from standard input, pasted to the pane, and the buffer deleted.
\<close>

theorem paste_needs_token:
  assumes "ap_tmux api = logged_client rn binary" "pt_wf (sv_pasteTokens s)"
    and "handlePasteAPI api r h ref session s = (res, s')"
    and "cmd \<in> set (drop (length (sent s)) (sent s'))" "\<not> reading cmd"
  shows "\<exists>user request b w store tok bytes pasted.
     LoginScope (ap_sha256 api) (ap_hmac api) (sv_auth s) (ap_clock api 0) r = Some user \<and> decodePaste r = Some request \<and>
     resolvePane (ap_rands api) (ap_tmux api) (ap_interfere api) session (pa_PaneRef request) True (sv_world s, sv_identity s)
       = (Inr b, (w, store)) \<and>
     map_of (pm_tokens (sv_pasteTokens s)) (pa_Token request) = Some tok \<and> ap_clock api 1 < st_Expires tok \<and>
     st_binding tok = \<lparr>pb_User = user, pb_SessionRef = ref, pb_PaneRef = pa_PaneRef request, pb_Generation = pn_generation b,
       pb_Action = pasteTextAction (ap_sha256 api) (pa_Text request)\<rparr> \<and>
     map_of (pm_tokens (sv_pasteTokens s')) (pa_Token request) = None \<and>
     cmd \<in> set (paste_commands binary (''control-agents-paste-'' @ b64_encode bytes) (pn_rawID b) (pa_Text request) pasted)"
proof -
  have no: False if "wrote sent reading s s'" using that assms(4,5) by (auto simp: wrote_def list_all_iff)
  from assms(3) show ?thesis
    unfolding handlePasteAPI_def Let_def
  proof (elim check_elim request_elim scope_elim, goal_cases)
    case (5 user request)
    from assms(1) 5(5) show ?case
    proof (cases rule: mutation_cases)
      case (resolved b w S1)
      let ?s1 = "s\<lparr>sv_world := w, sv_identity := S1\<rparr>"
      let ?binding = "\<lparr>pb_User = user, pb_SessionRef = ref, pb_PaneRef = pa_PaneRef request, pb_Generation = pn_generation b,
         pb_Action = pasteTextAction (ap_sha256 api) (pa_Text request)\<rparr>"
      obtain rc m where consumed: "pt_Consume (sv_pasteTokens s) (pa_Token request) ?binding (ap_clock api 1) = (rc, m)"
        by (metis prod.exhaust)
      let ?s2 = "?s1\<lparr>sv_pasteTokens := m\<rparr>"
      show ?thesis
      proof (cases rc)
        case (Inl e)
        then have "s' = ?s2" using resolved(3) consumed by (auto simp: consumeToken_def bindP_apply)
        with resolved(2) have "wrote sent reading s s'" by (simp add: wrote_def)
        with no show ?thesis by blast
      next
        case (Inr u)
        have tok: "\<exists>tok. map_of (pm_tokens (sv_pasteTokens s)) (pa_Token request) = Some tok \<and> st_binding tok = ?binding \<and>
            ap_clock api 1 < st_Expires tok"
          by (rule pt_Consume_ok [OF assms(2)]) (use consumed Inr in auto)
        have "pasteTokenIDPattern (pa_Token request)" using consumed Inr by (auto simp: pt_Consume_def Let_def split: if_splits)
        then have gone: "map_of (pm_tokens m) (pa_Token request) = None"
          using pt_Consume_state [OF consumed] pt_wf_prune [OF assms(2)] by (simp add: gm_simps)
        obtain rp w2 where pasted: "tmux_Paste (logged_client rn binary) (ap_bufferRandom api) (pn_rawID b) (pa_Text request) w = (rp, w2)"
          by (metis prod.exhaust)
        have s': "s' = ?s2\<lparr>sv_world := w2\<rparr>"
          using resolved(3) consumed Inr pasted
          by (cases rp) (auto simp: consumeToken_def bindP_apply [of "\<lambda>s. _ s"] bindP_apply mapErr_def onWorld_def assms(1))
        have "fst w2 = fst w \<or> (\<exists>bytes pasted. fst w2 = fst w @
            paste_commands binary (''control-agents-paste-'' @ b64_encode bytes) (pn_rawID b) (pa_Text request) pasted)"
          using paste_log [of rn binary "ap_bufferRandom api" "pn_rawID b" "pa_Text request" "fst w" "snd w" rp "fst w2" "snd w2"] pasted
          by auto
        moreover obtain cmds where "fst w = sent s @ cmds" "list_all reading cmds" using resolved(2) by (auto simp: wrote_def)
        ultimately obtain bytes pasted where
          "cmd \<in> set (paste_commands binary (''control-agents-paste-'' @ b64_encode bytes) (pn_rawID b) (pa_Text request) pasted)"
          using assms(4,5) s' by (auto simp: list_all_iff)
        moreover obtain tok where "map_of (pm_tokens (sv_pasteTokens s)) (pa_Token request) = Some tok" "st_binding tok = ?binding"
          "ap_clock api 1 < st_Expires tok" using tok by blast
        moreover have "sv_pasteTokens s' = m" by (simp add: s')
        ultimately show ?thesis
          by (intro exI [of _ user] exI [of _ request] exI [of _ b] exI [of _ w] exI [of _ S1] exI [of _ tok] exI [of _ bytes]
              exI [of _ pasted] conjI) (simp_all add: 5(2,3) resolved(1) gone)
      qed
    qed (use no in blast)
  qed (use assms(4) in simp_all)
qed


subsection \<open>A server with one pane\<close>

definition demo_runner :: "unit CommandRunner" where
  "demo_runner = pane_runner\<lparr>rn_Run := (\<lambda>_. returnP ()), rn_RunWithInput := Some (\<lambda>_ _. returnP ())\<rparr>"

definition demo_lifecycle :: "('x, apiError) webSessionLifecycle" where
  "demo_lifecycle = \<lparr>wl_List = returnP [], wl_CreateOrSelect = (\<lambda>name. failP (lifecycleError ErrorConflict ''create'' name None)),
     wl_TerminateWithCleanup = (\<lambda>_ _. returnP ()), wl_TerminateChecked = (\<lambda>_ _ _ _. returnP ()), wl_WithSession = (\<lambda>_ _. returnP ())\<rparr>"

definition demo_api :: "(command list \<times> unit) api" where
  "demo_api = \<lparr>ap_sha256 = (\<lambda>m. m), ap_hmac = front_mac, ap_clock = (\<lambda>_. 8 * second), ap_rands = demo_rands,
     ap_interfere = (\<lambda>st. st), ap_tokenRandom = [], ap_bufferRandom = Some ''abc'', ap_tempRandom = [], ap_isPrint = (\<lambda>_. True),
     ap_formatTime = (\<lambda>_. []), ap_marshalTime = (\<lambda>_. []), ap_tmux = logged_client demo_runner ''tmux'', ap_faults = (\<lambda>_. False),
     ap_disk = (\<lambda>_. \<lparr>dk_files = [], dk_calls = 0\<rparr>), ap_setDisk = (\<lambda>_ w. w), ap_sessions = demo_lifecycle\<rparr>"

definition demo_web_config :: Config where
  "demo_web_config = \<lparr>cf_BindAddr = [], cf_Port = 8080, cf_Password = ''pw'', cf_StateDir = [], cf_HomeDir = [],
     cf_TLSCertFile = [], cf_TLSKeyFile = [], cf_AuthSecretFile = [], cf_CookieSecure = True, cf_CookieTTL = 100,
     cf_MaxSessions = 1, cf_SnapshotMaxBytes = 1000\<rparr>"

definition demo_server :: "(string, storedPasteToken) gomap \<Rightarrow> (command list \<times> unit) Server" where
  "demo_server tokens = (initialServer demo_web_config front_auth ([], ()))\<lparr>sv_pasteTokens :=
     \<lparr>pm_ttl = defaultPasteTokenTTL, pm_perUser = 1, pm_tokens = tokens\<rparr>\<rparr>"

definition demo_post :: "(string \<times> json) list \<Rightarrow> Request" where
  "demo_post members = \<lparr>rq_Method = ''POST'', rq_Path = [], rq_Query = [], rq_Host = [], rq_TLS = True, rq_RemoteAddr = [],
     rq_Header = [], rq_Cookies = [(CookieName, front_cookie)],
     rq_Body = json_object (map (\<lambda>(k, v). (k, json_print v)) members), rq_BodyFails = False\<rparr>"

definition demo_key :: Request where
  "demo_key = demo_post [(''key'', JString ''enter''), (''text'', JString []), (''paneRef'', JString ''p_eA'')]"

lemma demo_decode:
  assumes "distinct (map fst ms)" "list_all (\<lambda>(k, v). valid_utf8 k \<and> json_printable v) ms"
    and "length (json_object (map (\<lambda>(k, v). (k, json_print v)) ms)) \<le> 4096"
  shows "decodeLifecycleRequest (map fst ms) (demo_post ms) = Some ms"
  using assms(3) decode_print [OF assms(1,2)]
  by (simp add: decodeLifecycleRequest_def readBody_def demo_post_def lifecycleRequestMaxBytes_def)

lemma demo_decode_key: "decodeKey demo_key = Some \<lparr>ka_Key = ''enter'', ka_Text = [], ka_PaneRef = ''p_eA''\<rparr>"
proof -
  let ?ms = "[(''key'', JString ''enter''), (''text'', JString []), (''paneRef'', JString ''p_eA'')]"
  have "decodeLifecycleRequest (map fst ?ms) (demo_post ?ms) = Some ?ms"
    by (rule demo_decode) (simp_all add: json_printable_def json_object_def json_print_def json_string_def json_body_plain json_plain_def)
  then show ?thesis by (simp add: decodeKey_def demo_key_def textField_def)
qed

lemma demo_resolve:
  "fst (resolvePane demo_rands (logged_client demo_runner ''tmux'') (\<lambda>st. st) demo_managed ''p_eA'' True (([], ()), newIdentityStore)) =
     Inr \<lparr>pn_ref = ''p_eA'', pn_rawID = ''%2'', pn_windowID = ''@1'', pn_active = True,
       pn_generation = \<lparr>TmuxServerStart = ''7'', TmuxServerPID = 9, PaneID = ''%2''\<rparr>\<rparr>"
  by code_simp

lemma demo_pane:
  obtains w S where "mutationPane demo_api h demo_managed ''p_eA'' (demo_server tokens) =
     (Inr \<lparr>pn_ref = ''p_eA'', pn_rawID = ''%2'', pn_windowID = ''@1'', pn_active = True,
       pn_generation = \<lparr>TmuxServerStart = ''7'', TmuxServerPID = 9, PaneID = ''%2''\<rparr>\<rparr>,
      (demo_server tokens)\<lparr>sv_world := w, sv_identity := S\<rparr>)"
proof -
  obtain w S where "resolvePane demo_rands (logged_client demo_runner ''tmux'') (\<lambda>st. st) demo_managed ''p_eA'' True (([], ()), newIdentityStore)
     = (Inr \<lparr>pn_ref = ''p_eA'', pn_rawID = ''%2'', pn_windowID = ''@1'', pn_active = True,
       pn_generation = \<lparr>TmuxServerStart = ''7'', TmuxServerPID = 9, PaneID = ''%2''\<rparr>\<rparr>, (w, S))"
    using demo_resolve by (metis prod.collapse)
  then show thesis
    by (intro that) (simp add: mutationPane_def mapErr_def onIdentity_def demo_api_def demo_server_def initialServer_def)
qed

theorem session_commands_confined_witness:
  "\<exists>w store b window. designates demo_api demo_managed ''keys'' demo_key (demo_server []) w store b window \<and>
     ([''tmux'', ''send-keys'', ''-t'', ''%2'', ''Enter''], []) \<in>
       set (sent (snd (sessionAction demo_api ''keys'' demo_key [] ''r'' demo_managed (demo_server [])))) \<and>
     touches b window ([''tmux'', ''send-keys'', ''-t'', ''%2'', ''Enter''], [])"
proof -
  let ?cmd = "([''tmux'', ''send-keys'', ''-t'', ''%2'', ''Enter''], []) :: command"
  obtain w S where pane: "mutationPane demo_api [] demo_managed ''p_eA'' (demo_server []) =
     (Inr \<lparr>pn_ref = ''p_eA'', pn_rawID = ''%2'', pn_windowID = ''@1'', pn_active = True,
       pn_generation = \<lparr>TmuxServerStart = ''7'', TmuxServerPID = 9, PaneID = ''%2''\<rparr>\<rparr>,
      (demo_server [])\<lparr>sv_world := w, sv_identity := S\<rparr>)" by (rule demo_pane)
  have client: "ap_tmux demo_api = logged_client demo_runner ''tmux''" by (simp add: demo_api_def)
  have post: "rq_Method demo_key = ''POST''" by (simp add: demo_key_def demo_post_def)
  have key: "map_of supportedKeys (to_lower (trim_space ''enter'')) = Some ''Enter''" by code_simp
  have run: "sessionAction demo_api ''keys'' demo_key [] ''r'' demo_managed (demo_server []) =
      (Inr (writeJSON [] json_ok), (demo_server [])\<lparr>sv_world := (fst w @ [?cmd], ()), sv_identity := S\<rparr>)"
    using pane
    by (simp add: sessionAction_def handleKeysAPI_def demo_decode_key requestP_def ensureP_def api_limits bindP_apply mapErr_def onWorld_def
        post SendKey_def key client cl_run_def
        logged_client_def logged_def logP_def demo_runner_def split_def)
  have disk: "fst (ap_setDisk demo_api d x) = fst x" for d x by (simp add: demo_api_def)
  have start: "sent (demo_server []) = []" by (simp add: demo_server_def initialServer_def)
  have acts: "\<not> reading ?cmd" by (simp add: reading_def)
  have last: "?cmd \<in> set (sent ((demo_server [])\<lparr>sv_world := (fst w @ [?cmd], ()), sv_identity := S\<rparr>))" by simp
  from session_commands_confined [OF client disk run] obtain cmds where
    sent: "sent ((demo_server [])\<lparr>sv_world := (fst w @ [?cmd], ()), sv_identity := S\<rparr>) = sent (demo_server []) @ cmds"
    and split: "list_all reading cmds \<or> (\<exists>w1 store b window before after.
      designates demo_api demo_managed ''keys'' demo_key (demo_server []) w1 store b window \<and>
      fst w1 = sent (demo_server []) @ before \<and> cmds = before @ after \<and> list_all reading before \<and> list_all (permitted b window) after)"
    by blast
  have cmds: "?cmd \<in> set cmds" using sent last unfolding start by simp
  have "\<not> list_all reading cmds" using cmds acts by (auto simp only: list_all_iff)
  with split obtain w1 store b window before after where
    pane: "designates demo_api demo_managed ''keys'' demo_key (demo_server []) w1 store b window"
    and parts: "cmds = before @ after" "list_all reading before" "list_all (permitted b window) after"
    by blast
  have "?cmd \<in> set after" using cmds acts parts(1,2) by (auto simp only: list_all_iff set_append)
  then have "permitted b window ?cmd" using parts(3) unfolding list_all_iff by (rule bspec [rotated])
  then have "touches b window ?cmd" using acts by simp
  with pane show ?thesis unfolding run snd_conv using last by blast
qed

definition demo_token :: string where
  "demo_token = ''pt_'' @ replicate 24 CHR ''a''"

definition demo_stored :: storedPasteToken where
  "demo_stored = \<lparr>st_binding = \<lparr>pb_User = b64_encode front_cookie, pb_SessionRef = ''r'', pb_PaneRef = ''p_eA'',
     pb_Generation = \<lparr>TmuxServerStart = ''7'', TmuxServerPID = 9, PaneID = ''%2''\<rparr>, pb_Action = pasteTextAction (\<lambda>m. m) ''hi''\<rparr>,
     st_Expires = 9 * second\<rparr>"

definition demo_paste :: Request where
  "demo_paste = demo_post [(''text'', JString ''hi''), (''paneRef'', JString ''p_eA''), (''token'', JString demo_token)]"

lemma demo_decode_paste: "decodePaste demo_paste = Some \<lparr>pa_Text = ''hi'', pa_PaneRef = ''p_eA'', pa_Token = demo_token\<rparr>"
proof -
  let ?ms = "[(''text'', JString ''hi''), (''paneRef'', JString ''p_eA''), (''token'', JString demo_token)]"
  have utf8: "valid_utf8 demo_token" by (rule valid_utf8_ascii) (simp add: demo_token_def list_all_iff)
  have plain: "list_all json_plain demo_token" by (simp add: demo_token_def json_plain_def list_all_iff)
  have "decodeObject (map fst ?ms) (json_object (map (\<lambda>(k, v). (k, json_print v)) ?ms)) = Some ?ms"
    using utf8 by (intro decode_print) (simp_all add: json_printable_def)
  moreover have "length (json_object (map (\<lambda>(k, v). (k, json_print v)) ?ms)) \<le> MaxPasteBytes * 8 + 1024"
    by (simp add: json_object_def json_print_def json_string_def json_body_plain plain MaxPasteBytes_def)
      (simp add: json_plain_def json_body_plain demo_token_def)
  ultimately show ?thesis
    by (simp add: decodePaste_def demo_paste_def demo_post_def readBody_def textField_def)
qed

theorem paste_needs_token_witness:
  "map_of (pm_tokens (sv_pasteTokens (demo_server [(demo_token, demo_stored)]))) demo_token = Some demo_stored \<and>
   map_of (pm_tokens (sv_pasteTokens (snd (handlePasteAPI demo_api demo_paste [] ''r'' demo_managed
     (demo_server [(demo_token, demo_stored)]))))) demo_token = None"
proof -
  let ?s = "demo_server [(demo_token, demo_stored)]"
  let ?load = "([''tmux'', ''load-buffer'', ''-b'', ''control-agents-paste-'' @ b64_encode ''abc'', ''-''], ''hi'') :: command"
  obtain w S where pane: "mutationPane demo_api [] demo_managed ''p_eA'' ?s =
     (Inr \<lparr>pn_ref = ''p_eA'', pn_rawID = ''%2'', pn_windowID = ''@1'', pn_active = True,
       pn_generation = \<lparr>TmuxServerStart = ''7'', TmuxServerPID = 9, PaneID = ''%2''\<rparr>\<rparr>, ?s\<lparr>sv_world := w, sv_identity := S\<rparr>)"
    by (rule demo_pane)
  have client: "ap_tmux demo_api = logged_client demo_runner ''tmux''" by (simp add: demo_api_def)
  have post: "rq_Method demo_paste = ''POST''" by (simp add: demo_paste_def demo_post_def)
  have fields: "ap_clock demo_api i = 8 * second" "ap_sha256 demo_api = (\<lambda>m. m)" "ap_bufferRandom demo_api = Some ''abc''" for i
    by (simp_all add: demo_api_def)
  have user: "LoginScope (ap_sha256 demo_api) (ap_hmac demo_api) (sv_auth ?s) (ap_clock demo_api 0) demo_paste = Some (b64_encode front_cookie)"
    using front_verify
    by (simp add: LoginScope_def demo_paste_def demo_post_def rq_Cookie_def demo_api_def demo_server_def initialServer_def)
  have stored: "sv_pasteTokens ?s = \<lparr>pm_ttl = defaultPasteTokenTTL, pm_perUser = 1, pm_tokens = [(demo_token, demo_stored)]\<rparr>"
    by (simp add: demo_server_def)
  have wf: "pt_wf (sv_pasteTokens ?s)" by (simp add: stored pt_wf_def gm_wf_def)
  have pattern: "pasteTokenIDPattern demo_token" by code_simp
  have live: "st_Expires demo_stored = 9 * second" by (simp add: demo_stored_def)
  have consume: "fst (pt_Consume (sv_pasteTokens ?s) demo_token (st_binding demo_stored) (8 * second)) = Inr ()"
    using pattern live by (simp add: stored pt_Consume_def pt_pruneLocked_def gm_simps second_def gm_drop_def Let_def)
  define m where "m = snd (pt_Consume (sv_pasteTokens ?s) demo_token (st_binding demo_stored) (8 * second))"
  have token: "consumeToken demo_api [] demo_token
      \<lparr>pb_User = b64_encode front_cookie, pb_SessionRef = ''r'', pb_PaneRef = ''p_eA'',
        pb_Generation = \<lparr>TmuxServerStart = ''7'', TmuxServerPID = 9, PaneID = ''%2''\<rparr>, pb_Action = pasteTextAction (\<lambda>m. m) ''hi''\<rparr>
      (?s\<lparr>sv_world := w, sv_identity := S\<rparr>) = (Inr (), ?s\<lparr>sv_world := w, sv_identity := S, sv_pasteTokens := m\<rparr>)"
    using consume by (simp add: consumeToken_def fields m_def demo_stored_def split_def)
  have paste: "\<exists>w2. tmux_Paste (logged_client demo_runner ''tmux'') (Some ''abc'') ''%2'' ''hi'' w = (Inr (), w2) \<and>
      fst w2 = fst w @ paste_commands ''tmux'' (''control-agents-paste-'' @ b64_encode ''abc'') ''%2'' ''hi'' True"
    by (simp add: tmux_Paste_def Let_def tryP_apply bindP_apply logged_client_def logged_def logP_def
        cl_run_def paste_commands_def demo_runner_def MaxPasteBytes_def split_def)
  then obtain w2 where w2: "tmux_Paste (logged_client demo_runner ''tmux'') (Some ''abc'') ''%2'' ''hi'' w = (Inr (), w2)"
    "fst w2 = fst w @ paste_commands ''tmux'' (''control-agents-paste-'' @ b64_encode ''abc'') ''%2'' ''hi'' True" by blast
  have run: "handlePasteAPI demo_api demo_paste [] ''r'' demo_managed ?s =
      (Inr (writeJSON [] json_ok), ?s\<lparr>sv_world := w2, sv_identity := S, sv_pasteTokens := m\<rparr>)"
    using pane token w2(1) user pattern
    by (simp add: handlePasteAPI_def demo_decode_paste requestP_def ensureP_def api_limits bindP_apply mapErr_def onWorld_def
        post client loginScope_def fields MaxPasteBytes_def)
  have start: "sent ?s = []" by (simp add: demo_server_def initialServer_def)
  have "?load \<in> set (drop (length (sent ?s)) (sent (?s\<lparr>sv_world := w2, sv_identity := S, sv_pasteTokens := m\<rparr>)))"
    using w2(2) by (simp add: start paste_commands_def)
  moreover have "\<not> reading ?load" by (simp add: reading_def)
  ultimately obtain request where "decodePaste demo_paste = Some request"
    "map_of (pm_tokens m) (pa_Token request) = None"
    using paste_needs_token [OF client wf run] by fastforce
  then show ?thesis unfolding run by (auto simp: demo_decode_paste stored)
qed

end
