(* ===== verification/Session_Api_Lifecycle.thy ===== *)
theory Session_Api_Lifecycle
  imports Session_Api_Safety
begin

section \<open>The API over the lifecycle\<close>

text \<open>
  What the handlers of sessions do to the stores of the server, for every lifecycle that keeps the contract
  \<open>web_lifecycle\<close> of \<^verbatim>\<open>Web_Lifecycle\<close>, which the manager of the program keeps: requests run on the session their path names.
  With its timed form, a deletion is confirmed within the request, and then exactly the entries of one session are forgotten, store
  by store (\<open>only_forgotten\<close>).
\<close>

subsection \<open>Runs\<close>

lemma answerError_elim:
  assumes "answerError refusal p ex = (Inr (), ex')"
  obtains (passed) "p ex = (Inr (), ex')"
  | (failed) err ex1 where "p ex = (Inl err, ex1)" "ex' = respond (refusal err) ex1"
  using assms by (auto simp: answerError_def split: prod.splits sum.splits if_splits)

lemma answer_cases:
  assumes "answer body ex = (r, ex')"
  obtains (answered) response s' where "r = Inr ()" "body (ex_server ex) \<in> {(Inr response, s'), (Inl (Refuse response), s')}"
      "ex' = respond response (ex\<lparr>ex_server := s'\<rparr>)"
  | (panicked) "r = Inl (OfCaller (IdentityFailure NilDereference))"
  using assms by (auto simp: answer_def onServer_def split: prod.splits sum.splits refusal.splits)

lemma own_eq: "own x = own y \<Longrightarrow> stores (ex_server x) = stores (ex_server y) \<and> ex_response x = ex_response y \<and>
    ex_pane x = ex_pane y \<and> ex_capture x = ex_capture y"
  by (simp add: own_def)

lemma respond_simps [simp]: "ex_server (respond response ex) = ex_server ex"
  "ex_response (respond response ex) = Some (case ex_response ex of None \<Rightarrow> response
     | Some old \<Rightarrow> old\<lparr>rs_Body := rs_Body old @ rs_Body response\<rparr>)"
  by (simp_all add: respond_def)

lemma newExchange_simps [simp]: "ex_server (newExchange s) = s" "ex_response (newExchange s) = None"
  by (simp_all add: newExchange_def)

lemma runHandler_Some: "runHandler p s = (Some response, s') \<longleftrightarrow>
    (\<exists>u ex. p (newExchange s) = (Inr u, ex) \<and> ex_response ex = Some response \<and> ex_server ex = s')"
  by (auto simp: runHandler_def split: prod.splits sum.splits)

text \<open>Statuses of the errors.\<close>

definition error_status :: "int \<Rightarrow> bool" where
  "error_status status \<longleftrightarrow> status \<in> {400, 404, 409, 503}"

lemma http_Error_status [simp]: "rs_Status (http_Error h message status) = status"
  by (simp add: http_Error_def)

lemma lifecycle_status: "error_status (rs_Status (lifecycleRefusal h err))"
  by (simp add: lifecycleRefusal_def lifecycleHTTPStatus_def error_status_def)

lemma refusal_status: "error_status (rs_Status (sessionRefusal h err))" "error_status (rs_Status (terminateRefusal h err))"
  using lifecycle_status [of h err]
  by (simp_all add: sessionRefusal_def terminateRefusal_def) (simp_all add: error_status_def)

subsection \<open>Finding and using a session\<close>

lemma find_elim:
  assumes "timed_lifecycle since (ap_sessions api)" "findPublicSession api ref ex = (r, ex')"
  obtains (missing) "isl r" "since ex ex'"
  | (found) managed sessions where "r = Inr managed" "since ex ex'" "ValidPublicRef ref" "se_PublicRef managed = ref"
      "wl_List (ap_sessions api) ex = (Inr sessions, ex')" "managed \<in> set sessions"
proof (cases "ValidPublicRef ref")
  case True
  note listed = forwardD [OF timed_lifecycle.listing [OF assms(1)]]
  from True have "bindP (wl_List (ap_sessions api)) (\<lambda>sessions.
      case find (\<lambda>managed. se_PublicRef managed = ref) sessions of
        None \<Rightarrow> failP (OfCaller PublicSessionNotFound) | Some managed \<Rightarrow> returnP managed) ex = (r, ex')"
    using assms(2) by (simp add: findPublicSession_def)
  then show thesis
  proof (cases rule: bindP_elim)
    case (1 e)
    then show thesis using missing listed [OF 1(1)] by simp
  next
    case (2 sessions x1)
    then show thesis
      using missing found True listed [OF 2(1)] by (auto simp: find_Some_iff failP_def returnP_def split: option.splits)
  qed
next
  case False
  then show thesis using missing assms(2) passage.since_refl [OF timed_passage [OF assms(1)]] by (auto simp: findPublicSession_def failP_def)
qed

lemma with_elim:
  assumes "timed_lifecycle since (ap_sessions api)" "withPublicSession api ref use ex = (r, ex')"
  obtains (none) "isl r" "since ex ex'"
  | (used) session ex1 ex2 where "se_PublicRef session = ref" "since ex ex1" "use session ex1 = (r, ex2)" "since ex2 ex'"
  using assms(2) unfolding withPublicSession_def
proof (cases rule: bindP_elim)
  case (1 e)
  from assms(1) 1(1) show thesis by (cases rule: find_elim) (use 1 none in auto)
next
  case (2 managed x1)
  note trans = passage.since_trans [OF timed_passage [OF assms(1)]]
  from assms(1) 2(1) have x1: "since ex x1" by (cases rule: find_elim) auto
  from timed_lifecycle.using_session [OF assms(1) 2(2)] show thesis
  proof (elim disjE exE conjE)
    assume "own_error r" "since x1 ex'"
    then show thesis using none trans [OF x1] by (auto simp: own_error_def)
  next
    fix s y1 y2
    assume "since x1 y1" "since y2 ex'"
      "(if se_PublicRef s \<noteq> ref then failP (OfCaller PublicSessionNotFound) else use s) y1 = (r, y2)"
    note later = trans [OF x1 \<open>since x1 y1\<close>]
    show thesis
    proof (cases "se_PublicRef s = ref")
      case True
      then show thesis using used later \<open>since y2 ex'\<close> \<open>(if _ then _ else _) y1 = (r, y2)\<close> by simp
    next
      case False
      then have "isl r" "y2 = y1" using \<open>(if _ then _ else _) y1 = (r, y2)\<close> by (auto simp: failP_def)
      then show thesis using none trans [OF later] \<open>since y2 ex'\<close> by blast
    qed
  qed
qed

text \<open>
  C22. A request below a session, other than a deletion, is answered in one of two ways: by an error status with all stores of the server
  as they were, or by exactly what the action of its path does and answers on a session whose public reference is the one of the path,
  started with the stores as they were.
\<close>

theorem session_request_scoped:
  assumes "web_lifecycle (ap_sessions api) own" "rq_Method r \<noteq> ''DELETE''"
    and "runHandler (handleSessionAPI api r h) s = (Some response, s')"
  shows "error_status (rs_Status response) \<and> stores s' = stores s \<or>
     (\<exists>ref suffix session s1 s2. parseSessionAPIPath (rq_Path r) = Some (ref, suffix) \<and> se_PublicRef session = ref \<and>
        stores s1 = stores s \<and> stores s2 = stores s' \<and>
        sessionAction api suffix r h ref session s1 \<in> {(Inr response, s2), (Inl (Refuse response), s2)})"
proof (cases "parseSessionAPIPath (rq_Path r)")
  case None
  then have "error_status (rs_Status response) \<and> s' = s"
    using assms(2,3) by (auto simp: handleSessionAPI_def runHandler_Some http_NotFound_def error_status_def)
  then show ?thesis by simp
next
  case (Some target)
  obtain ref suffix where path: "parseSessionAPIPath (rq_Path r) = Some (ref, suffix)" using Some by (cases target) simp
  from assms(2,3) path obtain ex where
    run: "answerError (sessionRefusal h) (withPublicSession api ref (\<lambda>session. answer (sessionAction api suffix r h ref session)))
      (newExchange s) = (Inr (), ex)" and ex: "ex_response ex = Some response" "ex_server ex = s'"
    by (auto simp: handleSessionAPI_def runHandler_Some)
  from run show ?thesis
  proof (cases rule: answerError_elim)
    case passed
    from own_timed [OF assms(1)] passed show ?thesis
    proof (cases rule: with_elim)
      case (used session ex1 ex2)
      from used(3) show ?thesis
      proof (cases rule: answer_cases)
        case (answered response1 s2)
        have "response1 = response" "stores s2 = stores s'" "stores (ex_server ex1) = stores s"
          using answered(3) own_eq [OF used(4)] own_eq [OF used(2)] ex by auto
        with answered(2) used(1) path show ?thesis by blast
      qed simp
    qed simp
  next
    case (failed err ex1)
    from own_timed [OF assms(1)] failed(1) have "own ex1 = own (newExchange s)"
    proof (cases rule: with_elim)
      case (used session y1 y2)
      from used(3) show ?thesis
      proof (cases rule: answer_cases)
        case panicked
        then have False using run failed by (auto simp: answerError_def isPanic_def)
        then show ?thesis ..
      qed simp
    qed
    then have "response = sessionRefusal h err" "stores s' = stores s"
      using failed(2) ex own_eq [of ex1 "newExchange s"] by auto
    then show ?thesis using refusal_status(1) by blast
  qed
qed

subsection \<open>Deletion\<close>

text \<open>
  The entries of a map but those that belong to the session, and what a server is that has forgotten one session and nothing else:
  every store is as it was but for the entries of this session. The identities are those of \<open>st\<close>.
\<close>

definition without :: "('v \<Rightarrow> bool) \<Rightarrow> ('k \<Rightarrow> 'v option) \<Rightarrow> 'k \<Rightarrow> 'v option" where
  "without P m k = (case m k of None \<Rightarrow> None | Some v \<Rightarrow> if P v then None else Some v)"

definition only_forgotten :: "SessionRef \<Rightarrow> identityStore \<Rightarrow> 'w Server \<Rightarrow> 'w Server \<Rightarrow> bool" where
  "only_forgotten ref st s s' \<longleftrightarrow>
     map_of (sm_snapshots (sv_snapshots s')) =
       without (\<lambda>snapshot. sb_SessionRef (sn_Binding snapshot) = ref) (map_of (sm_snapshots (sv_snapshots s))) \<and>
     map_of (pm_tokens (sv_pasteTokens s')) =
       without (\<lambda>tok. pb_SessionRef (st_binding tok) = ref) (map_of (pm_tokens (sv_pasteTokens s))) \<and>
     map_of (rz_viewers (sv_resize s')) = (map_of (rz_viewers (sv_resize s)))(ref := None) \<and>
     (\<forall>other. oa_Epoch (sv_activity s') other = (if other = ref then 0 else oa_Epoch (sv_activity s) other)) \<and>
     map_of (is_sessions (sv_identity s')) = (map_of (is_sessions st))(ref := None) \<and>
     accounted (sv_snapshots s') \<and> sm_config (sv_snapshots s') = sm_config (sv_snapshots s) \<and>
     pm_ttl (sv_pasteTokens s') = pm_ttl (sv_pasteTokens s) \<and> pm_perUser (sv_pasteTokens s') = pm_perUser (sv_pasteTokens s) \<and>
     rz_viewerTTL (sv_resize s') = rz_viewerTTL (sv_resize s) \<and>
     rz_maxViewersPerSession (sv_resize s') = rz_maxViewersPerSession (sv_resize s) \<and>
     rz_maxViewersPerProcess (sv_resize s') = rz_maxViewersPerProcess (sv_resize s) \<and>
     is_used (sv_identity s') = is_used st \<and> sv_cfg s' = sv_cfg s \<and> sv_auth s' = sv_auth s \<and> sv_limiter s' = sv_limiter s \<and>
     sv_historyCaptures s' = sv_historyCaptures s"

lemma stores_eq: "stores s = stores t \<Longrightarrow> sv_cfg s = sv_cfg t \<and> sv_auth s = sv_auth t \<and> sv_limiter s = sv_limiter t \<and>
    sv_snapshots s = sv_snapshots t \<and> sv_pasteTokens s = sv_pasteTokens t \<and> sv_identity s = sv_identity t \<and>
    sv_resize s = sv_resize t \<and> sv_activity s = sv_activity t \<and> sv_historyCaptures s = sv_historyCaptures t"
  by (simp add: stores_def)

lemma forget_only:
  assumes "ref \<noteq> []" "pt_wf (sv_pasteTokens s)" "accounted (sv_snapshots s)"
    and "stores t = stores (s\<lparr>sv_identity := st\<rparr>)" "stores s' = stores (forgetSession ref t)"
  shows "only_forgotten ref st s s'"
proof -
  have "stores s' = stores (forgetSession ref (s\<lparr>sv_identity := st\<rparr>))"
    using assms(5) stores_eq [OF assms(4)] by (simp add: forgetSession_def stores_def)
  from stores_eq [OF this] have s': "sv_snapshots s' = sm_DeleteSession ref (sv_snapshots s)"
    "sv_pasteTokens s' = pt_DeleteSession ref (sv_pasteTokens s)" "sv_resize s' = rz_ForgetSession ref (sv_resize s)"
    "sv_activity s' = oa_Forget (sv_activity s) ref" "sv_identity s' = forget ref st" "sv_cfg s' = sv_cfg s"
    "sv_auth s' = sv_auth s" "sv_limiter s' = sv_limiter s" "sv_historyCaptures s' = sv_historyCaptures s"
    by (simp_all add: forgetSession_def)
  have "gm_wf (sm_snapshots (sv_snapshots s))" using assms(3) by (simp add: accounted_def)
  then have "map_of (sm_snapshots (sv_snapshots s')) =
      without (\<lambda>snapshot. sb_SessionRef (sn_Binding snapshot) = ref) (map_of (sm_snapshots (sv_snapshots s)))"
    by (auto simp: s' sm_DeleteSession_def sm_deleteWhere_snapshots gm_drop_map_of without_def split: option.split)
  moreover have "map_of (pm_tokens (sv_pasteTokens s')) =
      without (\<lambda>tok. pb_SessionRef (st_binding tok) = ref) (map_of (pm_tokens (sv_pasteTokens s)))"
    using assms(2) by (auto simp: s' pt_DeleteSession_def pt_purge_def pt_wf_def gm_drop_map_of without_def split: option.split)
  moreover have "oa_Epoch (sv_activity s') other = (if other = ref then 0 else oa_Epoch (sv_activity s) other)" for other
    using assms(1) by (simp add: s' oa_Forget_def oa_Epoch_def current_epoch_def gm_simps split: option.split)
  ultimately show ?thesis
    using accounted_deleteWhere [OF assms(3)]
    by (simp add: only_forgotten_def s' sm_DeleteSession_def pt_DeleteSession_def pt_purge_def rz_ForgetSession_def forget_def gm_simps)
qed

lemma verify_run:
  assumes "verifyPane api ref current ex = (r, ex')"
  obtains r0 w1 st1 where "resolvePane (ap_rands api) (ap_tmux api) (ap_interfere api) current ref True
      (host_of ex, sv_identity (ex_server ex)) = (r0, (w1, st1))" "host_of ex' = w1"
    "stores (ex_server ex') = stores ((ex_server ex)\<lparr>sv_identity := st1\<rparr>)" "ex_response ex' = ex_response ex"
    "r = (case r0 of Inl e \<Rightarrow> Inl (OfCaller (IdentityFailure e)) | Inr _ \<Rightarrow> Inr ())"
proof -
  obtain r0 w1 st1 where "resolvePane (ap_rands api) (ap_tmux api) (ap_interfere api) current ref True
      (sv_world (ex_server ex), sv_identity (ex_server ex)) = (r0, (w1, st1))" by (metis prod.exhaust)
  then show thesis
    using assms by (intro that [of r0 w1 st1]) (auto simp: verifyPane_def mapErr_def onServer_def onIdentity_def bindP_apply stores_def
        host_of_def returnP_def split: sum.splits)
qed

text \<open>
  A pane of this session that tmux confirmed between \<open>w\<close> and \<open>w'\<close>: \<^verbatim>\<open>resolvePane\<close> ran in between, on the identities \<open>store\<close>, in
  a record of the session, and returned the pane. It left the identities \<open>st\<close>.
\<close>

definition pane_confirmed :: "('w \<Rightarrow> 'w \<Rightarrow> bool) \<Rightarrow> 'w api \<Rightarrow> string \<Rightarrow> SessionRef \<Rightarrow> PaneRef \<Rightarrow> 'w \<Rightarrow> identityStore \<Rightarrow> 'w \<Rightarrow> identityStore \<Rightarrow>
    bool" where
  "pane_confirmed since api sid ref pane w store w' st \<longleftrightarrow>
     (\<exists>current w0 w1 b. se_ID current = sid \<and> se_PublicRef current = ref \<and> since w w0 \<and>
        resolvePane (ap_rands api) (ap_tmux api) (ap_interfere api) current pane True (w0, store) = (Inr b, (w1, st)) \<and> since w1 w')"

text \<open>
  What a deletion must have gone through between its first state \<open>s\<close> and its last \<open>s'\<close>: the path named a session, the lifecycle, asked
  in \<open>s\<close>, listed it, the body repeated its name, and after that the pane of the body was confirmed in the record of the session.
\<close>

definition confirmed :: "('w \<Rightarrow> 'w \<Rightarrow> bool) \<Rightarrow> 'w api \<Rightarrow> Request \<Rightarrow> 'w Server \<Rightarrow> SessionRef \<Rightarrow> identityStore \<Rightarrow> 'w Server \<Rightarrow> bool" where
  "confirmed since api r s ref st s' \<longleftrightarrow>
     (\<exists>request managed sessions ex1.
        parseSessionDeletePath (rq_Path r) = Some ref \<and> decodeTerminate r = Some request \<and>
        wl_List (ap_sessions api) (newExchange s) = (Inr sessions, ex1) \<and> managed \<in> set sessions \<and> se_PublicRef managed = ref \<and>
        ts_ConfirmName request = se_Name managed \<and>
        pane_confirmed since api (se_ID managed) ref (ts_PaneRef request) (host_of ex1) (sv_identity s) (sv_world s') st)"

text \<open>The identities are the same, or those that one \<^verbatim>\<open>resolvePane\<close> left.\<close>

definition resolving :: "'w api \<Rightarrow> identityStore \<Rightarrow> identityStore \<Rightarrow> bool" where
  "resolving api store st \<longleftrightarrow> st = store \<or> (\<exists>current pane w r w1.
     resolvePane (ap_rands api) (ap_tmux api) (ap_interfere api) current pane True (w, store) = (r, (w1, st)))"

text \<open>The runs of \<^verbatim>\<open>TerminateChecked\<close> with the verification and the clean-up of the handler.\<close>

lemma terminate_elim:
  fixes api :: "'w api"
  assumes contract: "timed_lifecycle (kept_since since) (ap_sessions api)" and ref: "ref \<noteq> []"
    and run: "wl_TerminateChecked (ap_sessions api) sid ref (verifyPane api pane)
      (\<lambda>ex. ex\<lparr>ex_server := forgetSession ref (ex_server ex)\<rparr>) ex = (res, ex')"
  obtains (kept) st where "isl res" "ex_response ex' = ex_response ex"
      "stores (ex_server ex') = stores ((ex_server ex)\<lparr>sv_identity := st\<rparr>)" "resolving api (sv_identity (ex_server ex)) st"
  | (forgot) st and t :: "'w Server" where "pane_confirmed since api sid ref pane (host_of ex) (sv_identity (ex_server ex)) (host_of ex') st"
      "ex_response ex' = ex_response ex" "stores t = stores ((ex_server ex)\<lparr>sv_identity := st\<rparr>)"
      "stores (ex_server ex') = stores (forgetSession ref t)"
  using timed_lifecycle.terminating [OF contract run]
proof (elim disjE exE conjE)
  assume "own_error res" "kept_since since ex ex'"
  then show thesis
    using own_eq [OF conjunct1 [OF kept_sinceD [OF \<open>kept_since since ex ex'\<close>]]]
    by (intro kept [of "sv_identity (ex_server ex)"]) (auto simp: own_error_def stores_def resolving_def)
next
  note trans = passage.since_trans [OF kept_passage [OF timed_passage [OF contract]]]
  fix current x1 r1 x2
  assume s: "se_ID current = sid" "ref \<noteq> [] \<longrightarrow> se_PublicRef current = ref" "kept_since since ex x1"
    "verifyPane api pane current x1 = (r1, x2)"
  have x1: "stores (ex_server x1) = stores (ex_server ex)" "ex_response x1 = ex_response ex" "since (host_of ex) (host_of x1)"
    "sv_identity (ex_server x1) = sv_identity (ex_server ex)"
    using kept_sinceD [OF s(3)] own_eq [of x1 ex] by (simp_all add: stores_def)
  from s(4) obtain r0 w1 st1 where v: "resolvePane (ap_rands api) (ap_tmux api) (ap_interfere api) current pane True
      (host_of x1, sv_identity (ex_server x1)) = (r0, (w1, st1))" "host_of x2 = w1"
      "stores (ex_server x2) = stores ((ex_server x1)\<lparr>sv_identity := st1\<rparr>)" "ex_response x2 = ex_response x1"
      "r1 = (case r0 of Inl e \<Rightarrow> Inl (OfCaller (IdentityFailure e)) | Inr _ \<Rightarrow> Inr ())"
    by (rule verify_run)
  have x2: "stores (ex_server x2) = stores ((ex_server ex)\<lparr>sv_identity := st1\<rparr>)"
    using v(3) stores_eq [OF x1(1)] by (simp add: stores_def)
  have unforgotten: thesis if "isl res" "kept_since since x2 ex'"
    using kept [of st1] that(1) own_eq [OF conjunct1 [OF kept_sinceD [OF that(2)]]] x2 v(1,4) x1(2,4) unfolding resolving_def by metis
  have forgotten: thesis
    if r1: "r1 = Inr ()" and x3: "kept_since since x2 x3" "kept_since since (x3\<lparr>ex_server := forgetSession ref (ex_server x3)\<rparr>) ex'" for x3
  proof -
    note same = own_eq [OF conjunct1 [OF kept_sinceD [OF x3(1)]]] own_eq [OF conjunct1 [OF kept_sinceD [OF x3(2)]]]
    have "sv_world (forgetSession ref (ex_server x3)) = host_of x3" by (simp add: forgetSession_def host_of_def)
    then have "since w1 (host_of ex')" using kept_sinceD [OF x3(1)] kept_sinceD [OF x3(2)] trans v(2) by auto
    moreover obtain b where "r0 = Inr b" using r1 v(5) by (cases r0) auto
    ultimately have "pane_confirmed since api sid ref pane (host_of ex) (sv_identity (ex_server ex)) (host_of ex') st1"
      unfolding pane_confirmed_def using s(1,2) ref x1(3,4) v(1) by metis
    then show thesis using forgot [of st1 "ex_server x3"] same x2 v(4) x1(2) by simp
  qed
  { assume "r1 \<noteq> Inr ()" "res = r1" "kept_since since x2 ex'"
    then show thesis using unforgotten by (cases r1) auto
  next
    assume "r1 = Inr ()" "own_error res" "kept_since since x2 ex'"
    then show thesis using unforgotten by (auto simp: own_error_def)
  next
    fix x3
    assume "r1 = Inr ()" "own_error res" "kept_since since x2 x3" "kept_since since (x3\<lparr>ex_server := forgetSession ref (ex_server x3)\<rparr>) ex'"
    then show thesis by (intro forgotten)
  next
    fix x3
    assume "r1 = Inr ()" "res = Inr ()" "kept_since since x2 x3" "kept_since since (x3\<lparr>ex_server := forgetSession ref (ex_server x3)\<rparr>) ex'"
    then show thesis by (intro forgotten) }
qed

lemma terminate_outcome:
  fixes api :: "'w api"
  assumes "timed_lifecycle (kept_since since) (ap_sessions api)" "ref \<noteq> []" "ts_ConfirmName request = se_Name managed"
    and "terminateFound api h ref request managed ex = (Inr (), ex')" "ex_response ex = None" "ex_response ex' = Some response"
  obtains (kept) st where "error_status (rs_Status response)" "resolving api (sv_identity (ex_server ex)) st"
      "stores (ex_server ex') = stores ((ex_server ex)\<lparr>sv_identity := st\<rparr>)"
  | (forgot) st and t :: "'w Server" where "rs_Status response = 204 \<or> error_status (rs_Status response)"
      "pane_confirmed since api (se_ID managed) ref (ts_PaneRef request) (host_of ex) (sv_identity (ex_server ex)) (host_of ex') st"
      "stores t = stores ((ex_server ex)\<lparr>sv_identity := st\<rparr>)" "stores (ex_server ex') = stores (forgetSession ref t)"
proof -
  obtain res ex1 where run: "wl_TerminateChecked (ap_sessions api) (se_ID managed) ref (verifyPane api (ts_PaneRef request))
      (\<lambda>ex. ex\<lparr>ex_server := forgetSession ref (ex_server ex)\<rparr>) ex = (res, ex1)" by (rule prod.exhaust)
  have same: "ex_response ex1 = ex_response ex \<Longrightarrow> ex_server ex' = ex_server ex1 \<and>
      (rs_Status response = 204 \<and> \<not> isl res \<or> error_status (rs_Status response) \<and> isl res)"
    using assms(3-6) run refusal_status(2) by (auto simp: terminateFound_def answerError_def bindP_apply split: sum.splits if_splits)
  from assms(1,2) run show thesis
  proof (cases rule: terminate_elim)
    case (kept st)
    then show thesis using same that(1) by auto
  next
    case (forgot st t)
    then show thesis using same that(2) [of st t] by (auto simp: host_of_def)
  qed
qed

text \<open>Whatever comes before the termination leaves the stores alone.\<close>

lemma deletion_start:
  assumes "timed_lifecycle (kept_since since) (ap_sessions api)" "rq_Method r = ''DELETE''"
    and "runHandler (handleSessionAPI api r h) s = (Some response, s')"
  obtains (refused) "stores s' = stores s" "error_status (rs_Status response)"
  | (found) ref request managed sessions ex1 ex where "parseSessionDeletePath (rq_Path r) = Some ref" "decodeTerminate r = Some request"
      "ref \<noteq> []" "wl_List (ap_sessions api) (newExchange s) = (Inr sessions, ex1)" "managed \<in> set sessions" "se_PublicRef managed = ref"
      "ts_ConfirmName request = se_Name managed" "own ex1 = own (newExchange s)"
      "terminateFound api h ref request managed ex1 = (Inr (), ex)" "ex_response ex = Some response" "ex_server ex = s'"
proof (cases "parseSessionDeletePath (rq_Path r)")
  case None
  then show thesis using assms(2,3) by (intro refused) (auto simp: handleSessionAPI_def runHandler_Some error_status_def)
next
  case path: (Some ref)
  with assms(2,3) obtain ex where run: "handleTerminateSession api r h ref (newExchange s) = (Inr (), ex)"
    "ex_response ex = Some response" "ex_server ex = s'"
    by (auto simp: handleSessionAPI_def runHandler_Some)
  consider "decodeTerminate r = None" | request where "decodeTerminate r = Some request"
      "length (ts_ConfirmName request) > 64 \<or> length (ts_PaneRef request) > maxOpaqueReferenceBytes"
    | request where "decodeTerminate r = Some request"
      "\<not> (length (ts_ConfirmName request) > 64 \<or> length (ts_PaneRef request) > maxOpaqueReferenceBytes)" by fastforce
  then show thesis
  proof cases
    case (3 request)
    obtain r1 ex1 where look: "findPublicSession api ref (newExchange s) = (r1, ex1)" by (rule prod.exhaust)
    from assms(1) look show thesis
    proof (cases rule: find_elim)
      case missing
      then show thesis using run 3 look own_eq [OF conjunct1 [OF kept_sinceD [OF missing(2)]]]
        by (intro refused) (auto simp: handleTerminateSession_def Let_def error_status_def split: sum.splits)
    next
      case there: (found managed sessions)
      have start: "own ex1 = own (newExchange s)" using kept_sinceD [OF there(2)] by simp
      have rest: "terminateFound api h ref request managed ex1 = (Inr (), ex)"
        using run(1) 3 there(1) look by (simp add: handleTerminateSession_def Let_def)
      show thesis
      proof (cases "ts_ConfirmName request = se_Name managed")
        case False
        then show thesis using rest run own_eq [OF start] by (intro refused) (auto simp: terminateFound_def error_status_def)
      next
        case True
        have "ref \<noteq> []" using there(3) by (auto simp: ValidPublicRef_def match_class_def)
        then show thesis using found [OF path 3(1)] there(4-6) True start rest run(2,3) by blast
      qed
    qed
  qed (use run in \<open>auto simp: handleTerminateSession_def Let_def error_status_def intro!: refused\<close>)
qed

text \<open>
  C3. A deletion is confirmed or changes nothing. Either the answer is an error, and all stores stay as they were but for the identities
  that a resolution of the pane may have recorded; or, in this order and during this request, the lifecycle listed a session whose
  public reference is the one of the path, the body repeated its name, and tmux confirmed the pane of the body as a pane of this session;
  and then the server has forgotten this session and nothing else: exactly the snapshots and paste tokens bound to its reference are
  gone, its viewers, its output counter and its identities, and every entry of every other session is as it was. Only then can the
  answer be success.
\<close>

theorem session_deletion_confirmed:
  assumes "timed_lifecycle (kept_since since) (ap_sessions api)" "rq_Method r = ''DELETE''"
    and "pt_wf (sv_pasteTokens s)" "accounted (sv_snapshots s)"
    and "runHandler (handleSessionAPI api r h) s = (Some response, s')"
  shows "error_status (rs_Status response) \<and>
        (\<exists>st. resolving api (sv_identity s) st \<and> stores s' = stores (s\<lparr>sv_identity := st\<rparr>)) \<or>
     (rs_Status response = 204 \<or> error_status (rs_Status response)) \<and>
        (\<exists>ref st. confirmed since api r s ref st s' \<and> only_forgotten ref st s s')"
  using assms(1,2,5)
proof (cases rule: deletion_start)
  case refused
  then show ?thesis by (intro disjI1 conjI exI [of _ "sv_identity s"]) (simp_all add: resolving_def)
next
  case (found ref request managed sessions ex1 ex)
  have start: "stores (ex_server ex1) = stores s" "ex_response ex1 = None" "sv_identity (ex_server ex1) = sv_identity s"
    using own_eq [OF found(8)] by (simp_all add: stores_def)
  from assms(1) found(3,7,9) start(2) found(10) show ?thesis
  proof (cases rule: terminate_outcome)
    case (kept st)
    then show ?thesis using found(11) stores_eq [OF start(1)] by (auto simp: stores_def)
  next
    case (forgot st t)
    have "confirmed since api r s ref st s'"
      unfolding confirmed_def using found(1,2,4-7,11) forgot(2) start(3) by (metis host_of_def)
    moreover have "stores t = stores (s\<lparr>sv_identity := st\<rparr>)" using forgot(3) stores_eq [OF start(1)] by (simp add: stores_def)
    then have "only_forgotten ref st s s'"
      using forget_only [OF found(3) assms(3,4)] forgot(4) found(11) by blast
    ultimately show ?thesis using forgot(1) by blast
  qed
qed

subsection \<open>A server with one session\<close>

text \<open>The session is \<open>demo_session\<close> of \<^verbatim>\<open>Registry\<close>, named \<open>a\<close>.\<close>

definition one_session :: "('x, apiError) webSessionLifecycle" where
  "one_session =
     \<lparr>wl_List = returnP [demo_session], wl_CreateOrSelect = (\<lambda>name. failP (lifecycleError ErrorConflict ''create'' name None)),
      wl_TerminateWithCleanup = (\<lambda>sid cleanup x. (Inr (), cleanup x)),
      wl_TerminateChecked = (\<lambda>sid ref check cleanup.
        if sid = se_ID demo_session \<and> ref = se_PublicRef demo_session then bindP (check demo_session) (\<lambda>_ x. (Inr (), cleanup x))
        else failP (lifecycleError ErrorNotFound ''terminate'' sid None)),
      wl_WithSession = (\<lambda>sid use.
        if sid = se_ID demo_session then use demo_session else failP (lifecycleError ErrorNotFound ''use'' sid None))\<rparr>"

lemma one_session_timed:
  assumes "passage since"
  shows "timed_lifecycle since one_session"
proof -
  note refl = passage.since_refl [OF assms]
  have uses: "own_error r \<and> since x x' \<or> (\<exists>s x1 x2. se_ID s = sid \<and> since x x1 \<and> use s x1 = (r, x2) \<and> since x2 x')"
    if "wl_WithSession one_session sid use x = (r, x')" for sid use x r x'
  proof (cases "sid = se_ID demo_session")
    case True
    with that have "use demo_session x = (r, x')" by (simp add: one_session_def)
    with True refl show ?thesis by blast
  next
    case False
    with that refl show ?thesis by (auto simp: one_session_def own_error_def failP_def lifecycleError_def)
  qed
  have ends: "own_error r \<and> since x x' \<or>
      (\<exists>s x1 r1 x2. se_ID s = sid \<and> (ref \<noteq> [] \<longrightarrow> se_PublicRef s = ref) \<and> since x x1 \<and> check s x1 = (r1, x2) \<and>
         (r1 \<noteq> Inr () \<and> r = r1 \<and> since x2 x' \<or>
          r1 = Inr () \<and> own_error r \<and> since x2 x' \<or>
          r1 = Inr () \<and> (own_error r \<or> r = Inr ()) \<and> (\<exists>x3. since x2 x3 \<and> since (cleanup x3) x')))"
    if "wl_TerminateChecked one_session sid ref check cleanup x = (r, x')" for sid ref check cleanup x r x'
  proof (cases "sid = se_ID demo_session \<and> ref = se_PublicRef demo_session")
    case True
    obtain r1 x1 where check: "check demo_session x = (r1, x1)" by (rule prod.exhaust)
    with True that have "r1 \<noteq> Inr () \<and> r = r1 \<and> x' = x1 \<or> r1 = Inr () \<and> r = Inr () \<and> x' = cleanup x1"
      by (cases r1) (auto simp: one_session_def bindP_apply)
    with True check refl show ?thesis by blast
  next
    case False
    with that refl have "own_error r \<and> since x x'"
      by (auto simp: one_session_def own_error_def failP_def lifecycleError_def split: if_splits)
    then show ?thesis ..
  qed
  have listed: "forward since (wl_List one_session)" "forward since (wl_CreateOrSelect one_session name)" for name
    using passage.forward_return [OF assms] by (simp_all add: one_session_def)
  show ?thesis
    using assms listed uses ends by (intro timed_lifecycle.intro timed_lifecycle_axioms.intro)
qed

lemma own_passage: "passage (\<lambda>x y. mine y = mine x)"
  by unfold_locales simp_all

lemma one_session_contract: "web_lifecycle one_session own"
  by (rule timed_lifecycle.untimed [OF one_session_timed [OF own_passage [of own]]]) simp

lemma kept_grown: "passage (kept_since grown)"
  by unfold_locales (auto simp: kept_since_def grown_def)

definition web_runner :: "unit CommandRunner" where
  "web_runner = demo_runner\<lparr>rn_Output := (\<lambda>args. if ''capture-pane'' \<in> set args then returnP ''hi''
     else if has_prefix (last args) ''#{pane_width}''
       then returnP (join [''80'', ''24'', ''0'', ''2000'', ''10'', ''0''] [US])
     else rn_Output demo_runner args)\<rparr>"

definition web_api :: "(command list \<times> unit) api" where
  "web_api = demo_api\<lparr>ap_tmux := logged_client web_runner ''tmux'', ap_sessions := one_session\<rparr>"

definition web_binding :: paneBinding where
  "web_binding = \<lparr>pn_ref = ''p_eA'', pn_rawID = ''%2'', pn_windowID = ''@1'', pn_active = True,
     pn_generation = \<lparr>TmuxServerStart = ''7'', TmuxServerPID = 9, PaneID = ''%2''\<rparr>\<rparr>"

lemma web_resolve:
  "fst (resolvePane demo_rands (logged_client web_runner ''tmux'') (\<lambda>st. st) demo_session ''p_eA'' True (([], ()), newIdentityStore)) =
     Inr web_binding"
  by code_simp

lemma web_resolved:
  obtains w S where "resolvePane (ap_rands web_api) (ap_tmux web_api) (ap_interfere web_api) demo_session ''p_eA'' True
    (sv_world (demo_server tokens), sv_identity (demo_server tokens)) = (Inr web_binding, (w, S))"
proof -
  have "ap_rands web_api = demo_rands" "ap_tmux web_api = logged_client web_runner ''tmux''" "ap_interfere web_api = (\<lambda>st. st)"
    "sv_world (demo_server tokens) = ([], ())" "sv_identity (demo_server tokens) = newIdentityStore"
    by (simp_all add: web_api_def demo_api_def demo_server_def initialServer_def)
  then show thesis using web_resolve that by (metis prod.collapse)
qed

lemma web_find: "findPublicSession web_api (se_PublicRef demo_session) ex = (Inr demo_session, ex)"
proof -
  have "ValidPublicRef (se_PublicRef demo_session)" by code_simp
  then show ?thesis by (simp add: findPublicSession_def web_api_def one_session_def bindP_apply)
qed

definition web_path :: "string \<Rightarrow> string" where
  "web_path rest = ''/api/sessions/'' @ se_PublicRef demo_session @ rest"

lemma decode_same: "decodeLifecycleRequest fs (r\<lparr>rq_Path := path\<rparr>) = decodeLifecycleRequest fs r"
  "decodeLifecycleRequest fs (r\<lparr>rq_Method := verb\<rparr>) = decodeLifecycleRequest fs r"
  "decodeLifecycleRequest fs (r\<lparr>rq_Header := headers\<rparr>) = decodeLifecycleRequest fs r"
  by (simp_all add: decodeLifecycleRequest_def readBody_def)

text \<open>The key of \<open>demo_key\<close>, sent to the session.\<close>

definition web_key :: Request where
  "web_key = demo_key\<lparr>rq_Path := web_path ''/keys''\<rparr>"

lemma web_decode_key: "decodeKey web_key = Some \<lparr>ka_Key = ''enter'', ka_Text = [], ka_PaneRef = ''p_eA''\<rparr>"
  using demo_decode_key by (simp add: decodeKey_def decode_same web_key_def)

theorem session_request_scoped_witness:
  "\<exists>response s'. runHandler (handleSessionAPI web_api web_key []) (demo_server []) = (Some response, s') \<and> rs_Status response = 200 \<and>
     (\<exists>ref suffix session s1 s2. parseSessionAPIPath (rq_Path web_key) = Some (ref, suffix) \<and> se_PublicRef session = ref \<and>
        stores s1 = stores (demo_server []) \<and> stores s2 = stores s' \<and>
        sessionAction web_api suffix web_key [] ref session s1 \<in> {(Inr response, s2), (Inl (Refuse response), s2)})"
proof -
  let ?s = "demo_server []" and ?cmd = "([''tmux'', ''send-keys'', ''-t'', ''%2'', ''Enter''], []) :: command"
  obtain w S where "resolvePane (ap_rands web_api) (ap_tmux web_api) (ap_interfere web_api) demo_session ''p_eA'' True
    (sv_world ?s, sv_identity ?s) = (Inr web_binding, (w, S))" by (rule web_resolved)
  then have pane: "mutationPane web_api [] demo_session ''p_eA'' ?s = (Inr web_binding, ?s\<lparr>sv_world := w, sv_identity := S\<rparr>)"
    by (simp add: mutationPane_def mapErr_def onIdentity_def)
  have client: "ap_tmux web_api = logged_client web_runner ''tmux''" "ap_sessions web_api = one_session" by (simp_all add: web_api_def)
  have post: "rq_Method web_key = ''POST''" by (simp add: web_key_def demo_key_def demo_post_def)
  have key: "map_of supportedKeys (to_lower (trim_space ''enter'')) = Some ''Enter''" by code_simp
  have act: "sessionAction web_api ''keys'' web_key [] ref demo_session ?s =
      (Inr (writeJSON [] json_ok), ?s\<lparr>sv_world := (fst w @ [?cmd], ()), sv_identity := S\<rparr>)" for ref
    using pane
    by (simp add: sessionAction_def handleKeysAPI_def web_decode_key requestP_def ensureP_def api_limits bindP_apply mapErr_def onWorld_def
        post SendKey_def key client cl_run_def web_binding_def
        logged_client_def logged_def logP_def web_runner_def demo_runner_def split_def)
  have path: "parseSessionAPIPath (rq_Path web_key) = Some (se_PublicRef demo_session, ''keys'')" by code_simp
  have run: "runHandler (handleSessionAPI web_api web_key []) ?s =
      (Some (writeJSON [] json_ok), ?s\<lparr>sv_world := (fst w @ [?cmd], ()), sv_identity := S\<rparr>)"
    using act by (simp add: handleSessionAPI_def post path answerError_def withPublicSession_def bindP_apply web_find client one_session_def
        runHandler_def answer_def onServer_def newExchange_def respond_def)
  have ok: "rs_Status (writeJSON [] json_ok) = 200" by (simp add: writeJSON_def writeJSONStatus_def)
  have contract: "web_lifecycle (ap_sessions web_api) own" by (simp add: client one_session_contract)
  have get: "rq_Method web_key \<noteq> ''DELETE''" by (simp add: post)
  from session_request_scoped [OF contract get run] ok show ?thesis
    by (intro exI [of _ "writeJSON [] json_ok"] exI [of _ "?s\<lparr>sv_world := (fst w @ [?cmd], ()), sv_identity := S\<rparr>"])
      (simp only: run error_status_def, simp)
qed

text \<open>The deletion of the session, confirmed with its name and its pane.\<close>

definition web_delete :: Request where
  "web_delete = (demo_post [(''confirmName'', JString ''a''), (''paneRef'', JString ''p_eA'')])\<lparr>rq_Path := web_path [], rq_Method := ''DELETE''\<rparr>"

lemma web_decode_delete: "decodeTerminate web_delete = Some \<lparr>ts_ConfirmName = ''a'', ts_PaneRef = ''p_eA''\<rparr>"
proof -
  let ?ms = "[(''confirmName'', JString ''a''), (''paneRef'', JString ''p_eA'')]"
  have "decodeLifecycleRequest (map fst ?ms) (demo_post ?ms) = Some ?ms"
    by (rule demo_decode) (simp_all add: json_printable_def json_object_def json_print_def json_string_def json_body_plain json_plain_def)
  then show ?thesis by (simp add: decodeTerminate_def web_delete_def decode_same stringField_def)
qed

definition web_token :: "SessionRef \<Rightarrow> storedPasteToken" where
  "web_token ref = demo_stored\<lparr>st_binding := (st_binding demo_stored)\<lparr>pb_SessionRef := ref\<rparr>\<rparr>"

definition web_tokens :: "(string, storedPasteToken) gomap" where
  "web_tokens = [(''pt_1'', web_token (se_PublicRef demo_session)), (''pt_2'', web_token ''r'')]"

theorem session_deletion_confirmed_witness:
  "\<exists>response s' ref st. runHandler (handleSessionAPI web_api web_delete []) (demo_server web_tokens) = (Some response, s') \<and>
     rs_Status response = 204 \<and> confirmed grown web_api web_delete (demo_server web_tokens) ref st s' \<and>
     only_forgotten ref st (demo_server web_tokens) s' \<and>
     map_of (pm_tokens (sv_pasteTokens s')) ''pt_1'' = None \<and> map_of (pm_tokens (sv_pasteTokens s')) ''pt_2'' = Some (web_token ''r'')"
proof -
  let ?s = "demo_server web_tokens" and ?response = "\<lparr>rs_Status = 204, rs_Header = [], rs_Body = []\<rparr>"
  let ?ref = "se_PublicRef demo_session"
  obtain w S where pane: "resolvePane (ap_rands web_api) (ap_tmux web_api) (ap_interfere web_api) demo_session ''p_eA'' True
    (sv_world ?s, sv_identity ?s) = (Inr web_binding, (w, S))" by (rule web_resolved)
  have client: "ap_sessions web_api = one_session" by (simp add: web_api_def)
  have request: "rq_Method web_delete = ''DELETE''" by (simp add: web_delete_def)
  have path: "parseSessionDeletePath (rq_Path web_delete) = Some ?ref" by code_simp
  have name: "se_Name demo_session = ''a''" by (simp add: demo_session_def)
  define s1 where "s1 = forgetSession ?ref (?s\<lparr>sv_world := w, sv_identity := S\<rparr>)"
  have checked: "verifyPane web_api ''p_eA'' demo_session (newExchange ?s) = (Inr (), (newExchange ?s)\<lparr>ex_server := ?s\<lparr>sv_world := w, sv_identity := S\<rparr>\<rparr>)"
    using pane by (simp add: verifyPane_def bindP_apply mapErr_def onServer_def onIdentity_def newExchange_def)
  have run: "runHandler (handleSessionAPI web_api web_delete []) ?s = (Some ?response, s1)"
    using checked by (simp add: handleSessionAPI_def request path handleTerminateSession_def web_decode_delete maxOpaqueReferenceBytes_def
        web_find terminateFound_def name answerError_def client one_session_def bindP_apply runHandler_def s1_def respond_def newExchange_def)
  have contract: "timed_lifecycle (kept_since grown) (ap_sessions web_api)"
    by (simp add: client one_session_timed [OF kept_grown])
  have tokens: "sv_pasteTokens ?s = \<lparr>pm_ttl = defaultPasteTokenTTL, pm_perUser = 1, pm_tokens = web_tokens\<rparr>"
    by (simp add: demo_server_def)
  have wf: "pt_wf (sv_pasteTokens ?s)" unfolding pt_wf_def gm_wf_def tokens by (simp add: web_tokens_def)
  have accounts: "accounted (sv_snapshots ?s)"
    by (rule snapshot_invD(1)) (simp add: demo_server_def initialServer_def newSnapshotManager_inv)
  have "\<not> error_status (rs_Status ?response)" by (simp add: error_status_def)
  with session_deletion_confirmed [OF contract request wf accounts run] obtain ref st where
    gone: "confirmed grown web_api web_delete ?s ref st s1" "only_forgotten ref st ?s s1" by blast
  have "ref = ?ref" using gone(1) path unfolding confirmed_def by auto
  then have "map_of (pm_tokens (sv_pasteTokens s1)) = without (\<lambda>tok. pb_SessionRef (st_binding tok) = ?ref) (map_of web_tokens)"
    using gone(2) by (simp add: only_forgotten_def tokens)
  moreover have "?ref \<noteq> ''r''" by code_simp
  ultimately have "map_of (pm_tokens (sv_pasteTokens s1)) ''pt_1'' = None"
    "map_of (pm_tokens (sv_pasteTokens s1)) ''pt_2'' = Some (web_token ''r'')"
    by (simp_all add: without_def web_tokens_def web_token_def)
  with run gone show ?thesis by (intro exI [of _ ?response] exI [of _ s1] exI [of _ ref] exI [of _ st]) simp
qed

end
