(* ===== verification/History_Api.thy ===== *)
theory History_Api
  imports Session_Api
begin

section \<open>The history API\<close>

text \<open>
  \<^verbatim>\<open>internal/server/history_api.go\<close>: the handlers that capture the history of a pane, keep it as a snapshot and
  hand it out in pages. They compose the lifecycle, the identities, the capture coordinator, the ANSI parser, the output counters and the
  snapshot manager.

  \<open>historyApi\<close> extends the environment of \<^verbatim>\<open>Session_Api\<close> by what only these handlers use: \<open>ha_output\<close> is what other
  connections record while a command of the capture runs, \<open>ha_waiting\<close> what happens while the request waits for the capture of another
  one (the outcome of that capture, unless this request is cancelled first), \<open>ha_context\<close> when the parser finds its context
  done. The functions a handler passes to the lifecycle assign its variables, which are slots of the exchange.
\<close>

subsection \<open>State of a request\<close>

record historyCaptureProduct =
  hp_Capture :: HistoryCapture
  hp_Lines :: "historyLine list"
  hp_ParseBytes :: int
  hp_NodeEstimate :: int

datatype historyFailure =
    Coordinating captureError
  | WaitEnded
  | Capturing "apiError sessionError"
  | Parsing historyError
  | CapturePanic

type_synonym historyOutcome = "historyFailure + historyCaptureProduct"

record 'w historyApi =
  ha_api :: "'w api"
  ha_output :: "outputActivityStore option \<Rightarrow> outputActivityStore option"
  ha_callID :: nat
  ha_waiting :: "nat \<Rightarrow> 'w Server \<Rightarrow> historyOutcome option \<times> 'w Server"
  ha_context :: ansi_context
  ha_timedOut :: bool
  ha_isDeadline :: "apiError sessionError \<Rightarrow> bool"
  ha_snapshotRandom :: string
  ha_cursorRandom :: string

definition stale :: "apiError sessionError" where
  "stale = OfCaller (IdentityFailure errStaleTerminalIdentity)"

definition is_stale :: "apiError sessionError \<Rightarrow> bool" where
  "is_stale err \<longleftrightarrow> errors_Is (\<lambda>e. e = stale) err"

text \<open>Variables that are still zero.\<close>

definition zero_metadata :: HistoryMetadata where
  "zero_metadata = \<lparr>Columns = 0, Rows = 0, HistorySize = 0, HistoryLimit = 0, HistoryBytes = 0, AlternateScreen = False, OutputEpoch = 0\<rparr>"

definition zero_capture :: HistoryCapture where
  "zero_capture = \<lparr>hc_Text = [], hc_Before = zero_metadata, hc_After = zero_metadata\<rparr>"

definition zero_pane :: "Session \<times> paneBinding" where
  "zero_pane = (\<lparr>se_ID = [], se_Name = [], se_PublicRef = [], se_TmuxName = [], se_Socket = [], se_PID = 0, se_CWD = [],
      se_CreatedAt = []\<rparr>,
    \<lparr>pn_ref = [], pn_rawID = [], pn_windowID = [], pn_active = False,
      pn_generation = \<lparr>TmuxServerStart = [], TmuxServerPID = 0, PaneID = []\<rparr>\<rparr>)"

subsection \<open>Paths\<close>

definition parseHistoryCreatePath :: "string \<Rightarrow> PaneRef option" where
  "parseHistoryCreatePath path =
     (let prefix = ''/api/v1/panes/''; suffix = ''/history-snapshots'' in
      if \<not> has_prefix path prefix \<or> \<not> has_suffix path suffix then None
      else
        let ref = trim_suffix (trim_prefix path prefix) suffix in
        if ref = [] \<or> length ref > maxOpaqueReferenceBytes \<or> CHR ''/'' \<in> set ref \<or> \<not> has_prefix ref ''p_'' then None else Some ref)"

definition parseHistorySnapshotPath :: "string \<Rightarrow> (string \<times> bool) option" where
  "parseHistorySnapshotPath path =
     (let prefix = ''/api/v1/history-snapshots/'' in
      if \<not> has_prefix path prefix then None
      else
        let rest = trim_prefix path prefix;
            pages = has_suffix rest ''/pages'';
            sid = (if pages then trim_suffix rest ''/pages'' else rest) in
        if sid = [] \<or> CHR ''/'' \<in> set sid then None else Some (sid, pages))"

subsection \<open>The pane of a snapshot\<close>

text \<open>\<^verbatim>\<open>resolvePane\<close> as the functions of the handlers call it.\<close>

definition paneOf :: "'w api \<Rightarrow> Session \<Rightarrow> PaneRef \<Rightarrow> bool \<Rightarrow> ('w exchange, apiError, paneBinding) lifecycle" where
  "paneOf api managed ref active =
     mapErr (\<lambda>e. OfCaller (IdentityFailure e))
       (onServer (onIdentity (resolvePane (ap_rands api) (ap_tmux api) (ap_interfere api) managed ref active)))"

text \<open>An error is replaced by the one for a stale identity; a panic goes on.\<close>

definition orStale :: "('w exchange, apiError, 'a) lifecycle \<Rightarrow> ('w exchange, apiError, 'a) lifecycle" where
  "orStale = mapErr (\<lambda>e. if isPanic e then e else stale)"

definition resolveSnapshotPane :: "'w api \<Rightarrow> snapshotBinding \<Rightarrow> ('w exchange, apiError, paneBinding) lifecycle" where
  "resolveSnapshotPane api binding =
     bindP (findPublicSession api (sb_SessionRef binding)) (\<lambda>managed.
     bindP (orStale (paneOf api managed (sb_PaneRef binding) False)) (\<lambda>pane.
       if pn_generation pane \<noteq> sb_Generation binding then failP stale else returnP pane))"

text \<open>The function \<^verbatim>\<open>findHistoryPane\<close> runs on every session until one has the pane.\<close>

definition paneIn :: "'w api \<Rightarrow> Session \<Rightarrow> PaneRef \<Rightarrow> Session \<Rightarrow> ('w exchange, apiError, unit) lifecycle" where
  "paneIn api managed ref candidate =
     (if se_PublicRef candidate \<noteq> se_PublicRef managed then failP stale
      else bindP (paneOf api candidate ref True) (\<lambda>resolved ex. (Inr (), ex\<lparr>ex_pane := Some (candidate, resolved)\<rparr>)))"

fun findPaneIn :: "'w api \<Rightarrow> PaneRef \<Rightarrow> Session list \<Rightarrow> ('w exchange, apiError, Session \<times> paneBinding) lifecycle" where
  "findPaneIn api ref [] = failP stale"
| "findPaneIn api ref (managed # sessions) = (\<lambda>ex.
     case wl_WithSession (ap_sessions api) (se_ID managed) (paneIn api managed ref) (ex\<lparr>ex_pane := None\<rparr>) of
       (Inr _, ex1) \<Rightarrow> (Inr (case ex_pane ex1 of None \<Rightarrow> zero_pane | Some found \<Rightarrow> found), ex1)
     | (Inl err, ex1) \<Rightarrow> if is_stale err then findPaneIn api ref sessions ex1 else (Inl err, ex1))"

definition findHistoryPane :: "'w api \<Rightarrow> PaneRef \<Rightarrow> ('w exchange, apiError, Session \<times> paneBinding) lifecycle" where
  "findHistoryPane api ref = bindP (wl_List (ap_sessions api)) (findPaneIn api ref)"

subsection \<open>Captures\<close>

text \<open>The client of the capture: other connections record output while its commands run.\<close>

definition noting :: "(outputActivityStore option \<Rightarrow> outputActivityStore option) \<Rightarrow> ('w, 'a) tmux \<Rightarrow> ('w Server, 'a) tmux" where
  "noting output p = (\<lambda>s. case onWorld p s of (r, s') \<Rightarrow> (r, s'\<lparr>sv_activity := output (sv_activity s')\<rparr>))"

definition captureClient :: "'w historyApi \<Rightarrow> 'w Server Client" where
  "captureClient ha =
     (let c = ap_tmux (ha_api ha); rn = cl_runner c; during = ha_output ha in
      \<lparr>cl_runner = \<lparr>rn_Output = (\<lambda>cmd. noting during (rn_Output rn cmd)), rn_Run = (\<lambda>cmd. noting during (rn_Run rn cmd)),
         rn_RunWithInput = map_option (\<lambda>f input cmd. noting during (f input cmd)) (rn_RunWithInput rn),
         rn_OutputLimited = map_option (\<lambda>f n cmd. noting during (f n cmd)) (rn_OutputLimited rn)\<rparr>,
       cl_processDescendant = cl_processDescendant c, cl_binary = cl_binary c\<rparr>)"

text \<open>The function a capture runs on the session.\<close>

definition captureIn :: "'w historyApi \<Rightarrow> Session \<Rightarrow> paneBinding \<Rightarrow> PaneRef \<Rightarrow> Session \<Rightarrow> ('w exchange, apiError, unit) lifecycle" where
  "captureIn ha managed pane paneRef current =
     (if se_PublicRef current \<noteq> se_PublicRef managed then failP stale
      else bindP (orStale (paneOf (ha_api ha) current paneRef True)) (\<lambda>resolved.
        if pn_generation resolved \<noteq> pn_generation pane then failP stale
        else bindP (mapErr (\<lambda>e. OfCaller (CaptureFailure e)) (onServer (\<lambda>s.
               CaptureHistory (captureClient ha) (pn_rawID resolved) (cf_SnapshotMaxBytes (sv_cfg s))
                 (Some (\<lambda>s. sint (oa_Epoch (sv_activity s) (se_PublicRef current)))) s)))
               (\<lambda>capture ex. (Inr (), ex\<lparr>ex_capture := Some capture\<rparr>))))"

definition captureProduct :: "'w historyApi \<Rightarrow> Session \<Rightarrow> paneBinding \<Rightarrow> PaneRef \<Rightarrow>
    ('w exchange, historyFailure, historyCaptureProduct) prog" where
  "captureProduct ha managed pane paneRef = (\<lambda>ex.
     case wl_WithSession (ap_sessions (ha_api ha)) (se_ID managed) (captureIn ha managed pane paneRef) (ex\<lparr>ex_capture := None\<rparr>) of
       (Inl err, ex1) \<Rightarrow> (Inl (if isPanic err then CapturePanic else Capturing err), ex1)
     | (Inr _, ex1) \<Rightarrow>
         (let capture = (case ex_capture ex1 of None \<Rightarrow> zero_capture | Some c \<Rightarrow> c) in
          case parseHistoryANSIContext (ha_context ha) (hc_Text capture) of
            Inl err \<Rightarrow> (Inl (Parsing err), ex1)
          | Inr lines \<Rightarrow>
              (Inr \<lparr>hp_Capture = capture, hp_Lines = lines, hp_ParseBytes = int (length (hc_Text capture)),
                 hp_NodeEstimate = historyNodeEstimate lines\<rparr>, ex1)))"

text \<open>
  \<^verbatim>\<open>Do\<close>, from its critical sections. The capture runs in the request's own goroutine, so after a panic the last section is not
  reached.
\<close>

definition onCaptures :: "(historyCaptureCoordinator \<Rightarrow> historyCaptureCoordinator) \<Rightarrow> 'w exchange \<Rightarrow> 'w exchange" where
  "onCaptures f ex = ex\<lparr>ex_server := (ex_server ex)\<lparr>sv_historyCaptures := f (sv_historyCaptures (ex_server ex))\<rparr>\<rparr>"

definition coordinator_Do :: "'w historyApi \<Rightarrow> historyCaptureKey \<Rightarrow> ('w exchange, historyFailure, historyCaptureProduct) prog \<Rightarrow>
    ('w exchange, historyFailure, historyCaptureProduct) prog" where
  "coordinator_Do ha key capture = (\<lambda>ex.
     case cc_begin key (ap_clock (ha_api ha) 1) (ha_callID ha) (sv_historyCaptures (ex_server ex)) of
       (Refused err, c) \<Rightarrow> (Inl (Coordinating err), onCaptures (\<lambda>_. c) ex)
     | (Capture_Coordinator.Joined call, c) \<Rightarrow>
         (case onServer (\<lambda>s. case ha_waiting ha call s of (r, s') \<Rightarrow> (Inr r, s')) (onCaptures (\<lambda>_. c) ex) of
            (Inr None, ex1) \<Rightarrow> (Inl WaitEnded, onCaptures (cc_removeWaiter key call) ex1)
          | (Inr (Some outcome), ex1) \<Rightarrow> (outcome, ex1)
          | (Inl err, ex1) \<Rightarrow> (Inl err, ex1))
     | (Started _, c) \<Rightarrow>
         (case capture (onCaptures (\<lambda>_. c) ex) of
            (Inl CapturePanic, ex1) \<Rightarrow> (Inl CapturePanic, ex1)
          | (r, ex1) \<Rightarrow> (r, onCaptures (cc_finish key) ex1)))"

subsection \<open>Handlers\<close>

definition historyMode :: "Request \<Rightarrow> string option" where
  "historyMode r = Option.bind (decodeLifecycleRequest [''mode''] r) (textField ''mode'')"

definition captureFailureStatus :: "'w historyApi \<Rightarrow> historyFailure \<Rightarrow> int" where
  "captureFailureStatus ha failure =
     (case failure of
        Coordinating _ \<Rightarrow> 429
      | WaitEnded \<Rightarrow> if ha_timedOut ha then 504 else 502
      | Parsing errContext \<Rightarrow> if ha_timedOut ha then 504 else 502
      | Parsing errHistoryANSIResourceLimit \<Rightarrow> 413
      | Capturing err \<Rightarrow>
          if errors_Is (ha_isDeadline ha) err then 504
          else if is_stale err then 409
          else if errors_Is (\<lambda>e. e = OfCaller (CaptureFailure ErrSnapshotTooLarge)) err then 413
          else 502
      | CapturePanic \<Rightarrow> 500)"

definition captureRefusal :: "'w historyApi \<Rightarrow> Header \<Rightarrow> historyFailure \<Rightarrow> Response" where
  "captureRefusal ha h failure =
     (let status = captureFailureStatus ha failure in
      http_Error (if status = 429 then header_Set ''Retry-After'' ''10'' h else h) ''failed to capture terminal history'' status)"

definition createRefusal :: "Header \<Rightarrow> snapshotError \<Rightarrow> Response" where
  "createRefusal h err =
     (case err of
        errSnapshotCapacity \<Rightarrow> http_Error h ''history snapshot capacity reached'' 503
      | errSnapshotResourceLimit \<Rightarrow> http_Error h ''terminal history exceeds rendering limits'' 413
      | _ \<Rightarrow> http_Error h ''failed to create history snapshot'' 500)"

text \<open>The snapshot of a captured history; a history of the alternate screen is never reflowed.\<close>

definition snapshotRequest :: "string \<Rightarrow> ViewerID \<Rightarrow> PaneRef \<Rightarrow> string \<Rightarrow> Session \<times> paneBinding \<Rightarrow> historyCaptureProduct \<Rightarrow>
    snapshotCreate" where
  "snapshotRequest user viewer paneRef mode found product =
     (let capture = hp_Capture product;
          alternate = AlternateScreen (hc_Before capture) \<or> AlternateScreen (hc_After capture) in
      \<lparr>cr_User = user, cr_Viewer = viewer, cr_SessionRef = se_PublicRef (fst found), cr_PaneRef = paneRef,
       cr_Generation = pn_generation (snd found), cr_Mode = (if alternate then ''fixed'' else mode),
       cr_Capture = (if alternate then capture\<lparr>hc_Before := (hc_Before capture)\<lparr>AlternateScreen := True\<rparr>\<rparr> else capture),
       cr_Lines = hp_Lines product, cr_NodeEstimate = hp_NodeEstimate product\<rparr>)"

definition createSnapshot :: "'w historyApi \<Rightarrow> Header \<Rightarrow> snapshotCreate \<Rightarrow> ('w, Response) step" where
  "createSnapshot ha h request = (\<lambda>s.
     case sm_Create request (ap_clock (ha_api ha) 2) (ha_snapshotRandom ha) (ha_cursorRandom ha) (sv_snapshots s) of
       (r, m) \<Rightarrow> (Inr (case r of Inl err \<Rightarrow> createRefusal h err | Inr page \<Rightarrow> writeJSONStatus h 201 (json_page page)),
         s\<lparr>sv_snapshots := m\<rparr>))"

definition captureKey :: "string \<Rightarrow> ViewerID \<Rightarrow> PaneRef \<Rightarrow> string \<Rightarrow> Session \<times> paneBinding \<Rightarrow> historyCaptureKey" where
  "captureKey user viewer paneRef mode found =
     \<lparr>ck_User = user, ck_Viewer = viewer, ck_SessionRef = se_PublicRef (fst found), ck_PaneRef = paneRef,
      ck_Generation = pn_generation (snd found), ck_Mode = mode\<rparr>"

text \<open>What a handler does with a result, whatever it is. A response ends the handler; a panic is passed on.\<close>

definition attempt :: "('x, 'e, 'a) prog \<Rightarrow> ('e + 'a \<Rightarrow> ('x, 'f, 'b) prog) \<Rightarrow> ('x, 'f, 'b) prog" where
  "attempt p f = (\<lambda>x. case p x of (r, x1) \<Rightarrow> f r x1)"

definition respondWith :: "Response \<Rightarrow> ('w exchange, apiError, unit) lifecycle" where
  "respondWith response = (\<lambda>ex. (Inr (), respond response ex))"

definition panicked :: "('w exchange, apiError, unit) lifecycle" where
  "panicked = failP (OfCaller (IdentityFailure NilDereference))"

definition captureAndCreate :: "'w historyApi \<Rightarrow> Header \<Rightarrow> string \<Rightarrow> ViewerID \<Rightarrow> PaneRef \<Rightarrow> string \<Rightarrow> Session \<times> paneBinding \<Rightarrow>
    ('w exchange, apiError, unit) lifecycle" where
  "captureAndCreate ha h user viewer paneRef mode found =
     attempt (coordinator_Do ha (captureKey user viewer paneRef mode found) (captureProduct ha (fst found) (snd found) paneRef)) (\<lambda>r.
       case r of
         Inl CapturePanic \<Rightarrow> panicked
       | Inl failure \<Rightarrow> respondWith (captureRefusal ha h failure)
       | Inr product \<Rightarrow> answer (createSnapshot ha h (snapshotRequest user viewer paneRef mode found product)))"

definition handleCreateHistorySnapshot :: "'w historyApi \<Rightarrow> Request \<Rightarrow> Header \<Rightarrow> string \<Rightarrow> ViewerID \<Rightarrow> PaneRef \<Rightarrow>
    ('w exchange, apiError, unit) lifecycle" where
  "handleCreateHistorySnapshot ha r h user viewer paneRef =
     (if rq_Method r \<noteq> ''POST'' then respondWith (notAllowed h)
      else case historyMode r of
          None \<Rightarrow> respondWith (http_Error h ''invalid history snapshot request'' 400)
        | Some given \<Rightarrow>
            (let lowered = to_lower (trim_space given); mode = (if lowered = [] then ''reflow'' else lowered) in
             if mode \<noteq> ''reflow'' \<and> mode \<noteq> ''fixed'' then respondWith (http_Error h ''invalid history snapshot mode'' 400)
             else attempt (findHistoryPane (ha_api ha) paneRef) (\<lambda>r1.
                 case r1 of
                   Inl err \<Rightarrow> if isPanic err then panicked else respondWith (http_Error h ''stale terminal identity'' 409)
                 | Inr found \<Rightarrow> captureAndCreate ha h user viewer paneRef mode found)))"

definition lookupRefusal :: "Header \<Rightarrow> snapshotError \<Rightarrow> Response" where
  "lookupRefusal h err =
     (case err of
        errSnapshotGone \<Rightarrow> http_Error h ''history snapshot is gone'' 410
      | errSnapshotCursor \<Rightarrow> http_Error h ''invalid history cursor'' 400
      | _ \<Rightarrow> http_Error h ''history snapshot not found'' 404)"

definition onSnapshots :: "(snapshotManager \<Rightarrow> (snapshotError + 'a) \<times> snapshotManager) \<Rightarrow>
    ('w exchange, snapshotError, 'a) prog" where
  "onSnapshots p = onServer (\<lambda>s. case p (sv_snapshots s) of (r, m) \<Rightarrow> (r, s\<lparr>sv_snapshots := m\<rparr>))"

text \<open>Both ways to read a snapshot begin with its binding and its pane, and drop it when the pane is not the same any more.\<close>

definition withSnapshotPane :: "'w historyApi \<Rightarrow> Header \<Rightarrow> string \<Rightarrow> ViewerID \<Rightarrow> string \<Rightarrow>
    (snapshotBinding \<Rightarrow> paneBinding \<Rightarrow> ('w exchange, apiError, unit) lifecycle) \<Rightarrow> ('w exchange, apiError, unit) lifecycle" where
  "withSnapshotPane ha h user viewer sid use =
     (let clock = ap_clock (ha_api ha) in
      attempt (onSnapshots (sm_Binding sid user viewer (clock 1))) (\<lambda>r.
        case r of
          Inl err \<Rightarrow> respondWith (lookupRefusal h err)
        | Inr binding \<Rightarrow>
            attempt (resolveSnapshotPane (ha_api ha) binding) (\<lambda>r1.
              case r1 of
                Inl err \<Rightarrow>
                  if isPanic err then panicked
                  else attempt (onSnapshots (sm_Delete sid user viewer (clock 2))) (\<lambda>_.
                    respondWith (http_Error h ''history snapshot is gone'' 410))
              | Inr pane \<Rightarrow> use binding pane)))"

definition handleHistorySnapshotPage :: "'w historyApi \<Rightarrow> Request \<Rightarrow> Header \<Rightarrow> string \<Rightarrow> ViewerID \<Rightarrow> string \<Rightarrow>
    ('w exchange, apiError, unit) lifecycle" where
  "handleHistorySnapshotPage ha r h user viewer sid =
     (if rq_Method r \<noteq> ''GET'' then respondWith (notAllowed h)
      else withSnapshotPane ha h user viewer sid (\<lambda>_ _.
        let cursor = (case map_of (rq_Query r) ''before'' of None \<Rightarrow> [] | Some v \<Rightarrow> v) in
        attempt (onSnapshots (sm_Page sid cursor user viewer (ap_clock (ha_api ha) 2) (ha_cursorRandom ha))) (\<lambda>r1.
          case r1 of
            Inl err \<Rightarrow> respondWith (lookupRefusal h err)
          | Inr page \<Rightarrow> respondWith (writeJSON h (json_page page)))))"

definition newOutput :: "snapshotBinding \<Rightarrow> HistoryMetadata \<Rightarrow> outputActivityStore option \<Rightarrow> bool" where
  "newOutput binding activity store \<longleftrightarrow>
     sint (oa_Epoch store (sb_SessionRef binding)) \<noteq> sb_OutputEpoch binding \<or> HistoryBytes activity \<noteq> sb_HistoryBytes binding"

definition activityResponse :: "'w historyApi \<Rightarrow> Header \<Rightarrow> snapshotBinding \<Rightarrow> paneBinding \<Rightarrow> ('w, Response) step" where
  "activityResponse ha h binding pane =
     bindP (refusing (http_Error h ''failed to read terminal activity'' 502)
       (onWorld (HistoryActivity (ap_tmux (ha_api ha)) (pn_rawID pane)))) (\<lambda>activity s.
       (Inr (writeJSON h (json_object [(''newOutput'', json_bool (newOutput binding activity (sv_activity s)))])), s))"

definition handleHistorySnapshot :: "'w historyApi \<Rightarrow> Request \<Rightarrow> Header \<Rightarrow> string \<Rightarrow> ViewerID \<Rightarrow> string \<Rightarrow>
    ('w exchange, apiError, unit) lifecycle" where
  "handleHistorySnapshot ha r h user viewer sid =
     (if rq_Method r = ''GET'' then
        withSnapshotPane ha h user viewer sid (\<lambda>binding pane. answer (activityResponse ha h binding pane))
      else if rq_Method r \<noteq> ''DELETE'' then respondWith (notAllowed h)
      else if \<not> requireEmptyMutationBody r then respondWith (http_Error h ''invalid history snapshot delete request'' 400)
      else attempt (onSnapshots (sm_Delete sid user viewer (ap_clock (ha_api ha) 1))) (\<lambda>r1.
          case r1 of
            Inl err \<Rightarrow> respondWith (lookupRefusal h err)
          | Inr _ \<Rightarrow> respondWith \<lparr>rs_Status = 204, rs_Header = h, rs_Body = []\<rparr>))"

definition historyViewerHeader :: string where
  "historyViewerHeader = ''X-Control-Agents-Viewer-Id''"

definition handleHistoryAPI :: "'w historyApi \<Rightarrow> Request \<Rightarrow> Header \<Rightarrow> ('w exchange, apiError, unit) lifecycle" where
  "handleHistoryAPI ha r h0 = (\<lambda>ex.
     let api = ha_api ha; h = header_Set ''Cache-Control'' ''no-store'' h0 in
     case LoginScope (ap_sha256 api) (ap_hmac api) (sv_auth (ex_server ex)) (ap_clock api 0) r of
       None \<Rightarrow> respondWith (http_Error h ''unauthorized'' 401) ex
     | Some user \<Rightarrow>
         let viewer = trim_space (header_Get historyViewerHeader (rq_Header r)) in
         if \<not> viewerIDPattern viewer then respondWith (http_Error h ''invalid viewer identity'' 400) ex
         else (case parseHistoryCreatePath (rq_Path r) of
             Some paneRef \<Rightarrow> handleCreateHistorySnapshot ha r h user viewer paneRef ex
           | None \<Rightarrow>
               (case parseHistorySnapshotPath (rq_Path r) of
                  Some (sid, pages) \<Rightarrow>
                    (if pages then handleHistorySnapshotPage ha r h user viewer sid ex
                     else handleHistorySnapshot ha r h user viewer sid ex)
                | None \<Rightarrow> respondWith (http_NotFound h) ex)))"

text \<open>All handlers of the API but the terminal proxy's, as the front calls them.\<close>

definition serverHandlers :: "'w historyApi \<Rightarrow> (Request \<Rightarrow> Header \<Rightarrow> 'w Server \<Rightarrow> Response option \<times> 'w Server) \<Rightarrow>
    route \<Rightarrow> 'w Server handler" where
  "serverHandlers ha terminal rt =
     (if rt = RouteHistory then (\<lambda>r h. runHandler (handleHistoryAPI ha r h)) else apiHandler (ha_api ha) terminal rt)"

end
