(* ===== verification/History_Api_Safety.thy ===== *)
theory History_Api_Safety
  imports Session_Api_Lifecycle History_Api
begin

section \<open>Histories of the API\<close>

text \<open>
  What a request of the history API may read, what a snapshot it creates shows, and that its capture gives its slot back.

  That tmux confirmed a pane within a request is said by the chain of states: \<open>onward s t\<close> places \<open>t\<close> after \<open>s\<close>, for every order of the
  worlds outside the process in which the lifecycle and the tmux client only move forward (\<open>timed_api\<close>), and has the identities change by
  runs of \<^verbatim>\<open>resolvePane\<close> alone. Between the confirmation of a pane and the capture of its history there is no state at all. For a
  recording client the order is that of its log.
\<close>

subsection \<open>Runs\<close>

lemma attempt_elim:
  assumes "attempt p f x = (r, x')"
  obtains r1 x1 where "p x = (r1, x1)" "f r1 x1 = (r, x')"
  using assms by (auto simp: attempt_def split: prod.splits)

lemma respondWith_iff: "respondWith response ex = (r, ex') \<longleftrightarrow> r = Inr () \<and> ex' = respond response ex"
  by (auto simp: respondWith_def)

lemma panicked_iff: "panicked ex = (r, ex') \<longleftrightarrow> r = Inl (OfCaller (IdentityFailure NilDereference)) \<and> ex' = ex"
  by (auto simp: panicked_def failP_def)

lemma onSnapshots_iff: "onSnapshots p ex = (r, ex') \<longleftrightarrow>
    (\<exists>m. p (sv_snapshots (ex_server ex)) = (r, m) \<and> ex' = ex\<lparr>ex_server := (ex_server ex)\<lparr>sv_snapshots := m\<rparr>\<rparr>)"
  by (auto simp: onSnapshots_def onServer_def split: prod.splits)

lemmas run_simps = respondWith_iff panicked_iff onSnapshots_iff

lemma paneOf_elim:
  assumes "paneOf api managed ref active ex = (r, ex')"
  obtains r0 w1 st1 where "resolvePane (ap_rands api) (ap_tmux api) (ap_interfere api) managed ref active
      (sv_world (ex_server ex), sv_identity (ex_server ex)) = (r0, (w1, st1))"
    "ex' = ex\<lparr>ex_server := (ex_server ex)\<lparr>sv_world := w1, sv_identity := st1\<rparr>\<rparr>"
    "r = (case r0 of Inl e \<Rightarrow> Inl (OfCaller (IdentityFailure e)) | Inr b \<Rightarrow> Inr b)"
proof -
  obtain r0 w1 st1 where "resolvePane (ap_rands api) (ap_tmux api) (ap_interfere api) managed ref active
      (sv_world (ex_server ex), sv_identity (ex_server ex)) = (r0, (w1, st1))" by (metis prod.exhaust)
  then show thesis using assms
    by (intro that [of r0 w1 st1]) (auto simp: paneOf_def mapErr_def onServer_def onIdentity_def split: sum.splits)
qed

lemma orStale_elim:
  assumes "orStale p ex = (r, ex')"
  obtains r0 where "p ex = (r0, ex')" "r = (case r0 of Inl e \<Rightarrow> Inl (if isPanic e then e else stale) | Inr v \<Rightarrow> Inr v)"
  using assms by (auto simp: orStale_def mapErr_def split: prod.splits sum.splits)

subsection \<open>Reading a snapshot\<close>

text \<open>The session is listed, and then its pane confirmed, from exactly the state the listing left.\<close>

lemma snapshot_pane_resolved:
  assumes "resolveSnapshotPane api binding ex = (Inr pane, ex')"
  shows "\<exists>sessions managed ex1 w1 st1. wl_List (ap_sessions api) ex = (Inr sessions, ex1) \<and> managed \<in> set sessions \<and>
     se_PublicRef managed = sb_SessionRef binding \<and>
     resolvePane (ap_rands api) (ap_tmux api) (ap_interfere api) managed (sb_PaneRef binding) False
       (host_of ex1, sv_identity (ex_server ex1)) = (Inr pane, (w1, st1)) \<and>
     pn_generation pane = sb_Generation binding \<and> ex' = ex1\<lparr>ex_server := (ex_server ex1)\<lparr>sv_world := w1, sv_identity := st1\<rparr>\<rparr>"
  using assms unfolding resolveSnapshotPane_def
proof (cases rule: bindP_elim)
  case (2 managed ex1)
  obtain sessions where ref: "wl_List (ap_sessions api) ex = (Inr sessions, ex1)" "managed \<in> set sessions" "se_PublicRef managed = sb_SessionRef binding"
    using 2(1) by (auto simp: findPublicSession_def bindP_apply find_Some_iff failP_def returnP_def split: if_splits sum.splits option.splits prod.splits)
  from 2(2) show ?thesis
  proof (cases rule: bindP_elim)
    case (2 pane0 ex2)
    then have pane: "pn_generation pane = sb_Generation binding" "pane0 = pane" "ex' = ex2"
      by (auto simp: failP_def returnP_def split: if_splits)
    from 2(1) obtain r0 where "paneOf api managed (sb_PaneRef binding) False ex1 = (r0, ex2)" "r0 = Inr pane"
      using pane(2) by (elim orStale_elim) (auto split: sum.splits)
    then obtain w1 st1 where "resolvePane (ap_rands api) (ap_tmux api) (ap_interfere api) managed (sb_PaneRef binding) False
        (host_of ex1, sv_identity (ex_server ex1)) = (Inr pane, (w1, st1))"
      "ex2 = ex1\<lparr>ex_server := (ex_server ex1)\<lparr>sv_world := w1, sv_identity := st1\<rparr>\<rparr>"
      by (elim paneOf_elim) (auto simp: host_of_def split: sum.splits)
    then show ?thesis using ref pane(1,3) by blast
  qed simp
qed simp

lemma binding_known:
  assumes "snapshot_inv m" "sm_Binding sid user viewer now m = (Inr binding, m')"
  shows "\<exists>snapshot. map_of (sm_snapshots m) sid = Some snapshot \<and> sn_User snapshot = user \<and> sn_Viewer snapshot = viewer \<and>
     now - sc_IdleTTL (sm_config m) \<le> sn_LastAccess snapshot \<and> sn_Binding snapshot = binding"
proof -
  obtain s1 m1 where auth: "sm_authorizedLocked sid user viewer now m = (Inr s1, m1)" "sn_Binding s1 = binding"
    using assms(2) by (auto simp: sm_Binding_def split: prod.splits sum.splits)
  then show ?thesis using sm_prune_lookup [OF snapshot_invD(5) [OF assms(1)]] by (elim sm_authorized_Inr) auto
qed

text \<open>The statuses of refusals differ from success.\<close>

lemma lookup_status: "rs_Status (lookupRefusal h err) \<noteq> 200"
  by (simp add: lookupRefusal_def split: snapshotError.split)

text \<open>Resolving leaves the response and the slots of the exchange alone.\<close>

lemma paneOf_silent: "paneOf api managed ref active ex = (r, ex') \<Longrightarrow>
    ex_response ex' = ex_response ex \<and> ex_pane ex' = ex_pane ex \<and> ex_capture ex' = ex_capture ex \<and>
    (\<exists>st. stores (ex_server ex') = (stores (ex_server ex))\<lparr>sv_identity := st\<rparr>)"
  by (elim paneOf_elim) (auto simp: stores_def)

lemma find_silent:
  assumes "web_lifecycle (ap_sessions api) own" "findPublicSession api ref ex = (r, ex')"
  shows "own ex' = own ex"
  using own_timed [OF assms(1)] assms(2) by (rule find_elim) auto

abbreviation coordinator :: "'w exchange \<Rightarrow> historyCaptureCoordinator" where
  "coordinator ex \<equiv> sv_historyCaptures (ex_server ex)"

lemma stores_coordinator: "stores s = (stores t)\<lparr>sv_identity := st\<rparr> \<Longrightarrow> sv_historyCaptures s = sv_historyCaptures t"
  "stores s = stores t \<Longrightarrow> sv_historyCaptures s = sv_historyCaptures t"
  by (simp_all add: stores_def)

lemma resolve_silent:
  assumes "web_lifecycle (ap_sessions api) own" "resolveSnapshotPane api binding ex = (r, ex')"
  shows "ex_response ex' = ex_response ex \<and> coordinator ex' = coordinator ex"
  using assms(2) unfolding resolveSnapshotPane_def
proof (cases rule: bindP_elim)
  case (1 e)
  then show ?thesis using own_eq [OF find_silent [OF assms(1) 1(1)]] stores_coordinator(2) by metis
next
  case (2 managed ex1)
  have ex1: "ex_response ex1 = ex_response ex" "coordinator ex1 = coordinator ex"
    using own_eq [OF find_silent [OF assms(1) 2(1)]] stores_coordinator(2) by metis+
  have keep: "ex_response ex2 = ex_response ex1 \<and> coordinator ex2 = coordinator ex1"
    if "orStale (paneOf api managed (sb_PaneRef binding) False) ex1 = (r2, ex2)" for r2 ex2
    using that by (elim orStale_elim) (auto dest!: paneOf_silent stores_coordinator(1))
  from 2(2) show ?thesis
  proof (cases rule: bindP_elim)
    case (1 e)
    then show ?thesis using keep [OF 1(1)] ex1 by simp
  next
    case (2 pane ex2)
    then show ?thesis using keep [OF 2(1)] ex1 by (auto simp: failP_def returnP_def split: if_splits)
  qed
qed

lemma with_snapshot_elim:
  assumes "web_lifecycle (ap_sessions (ha_api ha)) own" "withSnapshotPane ha h user viewer sid use ex = (Inr (), ex')"
  obtains (refused) response ex1 where "ex' = respond response ex1" "rs_Status response \<noteq> 200" "ex_response ex1 = ex_response ex"
  | (served) binding pane m ex1 where
      "sm_Binding sid user viewer (ap_clock (ha_api ha) 1) (sv_snapshots (ex_server ex)) = (Inr binding, m)"
      "resolveSnapshotPane (ha_api ha) binding (ex\<lparr>ex_server := (ex_server ex)\<lparr>sv_snapshots := m\<rparr>\<rparr>) = (Inr pane, ex1)"
      "use binding pane ex1 = (Inr (), ex')"
proof -
  obtain r m where bound: "sm_Binding sid user viewer (ap_clock (ha_api ha) 1) (sv_snapshots (ex_server ex)) = (r, m)" by (rule prod.exhaust)
  let ?ex = "ex\<lparr>ex_server := (ex_server ex)\<lparr>sv_snapshots := m\<rparr>\<rparr>"
  show thesis
  proof (cases r)
    case (Inl err)
    then have "ex' = respond (lookupRefusal h err) ?ex"
      using assms(2) bound by (auto simp: withSnapshotPane_def Let_def attempt_def run_simps onSnapshots_def onServer_def)
    then show thesis using refused lookup_status by fastforce
  next
    case (Inr binding)
    obtain r1 ex1 where pane: "resolveSnapshotPane (ha_api ha) binding ?ex = (r1, ex1)" by (rule prod.exhaust)
    have ex1: "ex_response ex1 = ex_response ex" using resolve_silent [OF assms(1) pane] by simp
    show thesis
    proof (cases r1)
      case err: (Inl err)
      then obtain r2 ex2 where "onSnapshots (sm_Delete sid user viewer (ap_clock (ha_api ha) 2)) ex1 = (r2, ex2)"
        "ex' = respond (http_Error h ''history snapshot is gone'' 410) ex2"
        using assms(2) bound pane Inr
        by (auto simp: withSnapshotPane_def Let_def attempt_def run_simps onSnapshots_def onServer_def split: prod.splits if_splits)
      then show thesis using refused [of "http_Error h ''history snapshot is gone'' 410" ex2] ex1 by (auto simp: onSnapshots_iff)
    next
      case pane1: (Inr pane1)
      then show thesis using served [of binding m pane1 ex1] assms(2) bound pane Inr
        by (auto simp: withSnapshotPane_def Let_def attempt_def onSnapshots_def onServer_def)
    qed
  qed
qed

text \<open>What comes after the confirmation: a page is read without tmux, for the activity tmux is asked once more about the pane.\<close>

definition served_after :: "'w api \<Rightarrow> bool \<Rightarrow> paneBinding \<Rightarrow> 'w \<Rightarrow> 'w \<Rightarrow> bool" where
  "served_after api pages pane w w' \<longleftrightarrow> (if pages then w' = w else \<exists>r. HistoryActivity (ap_tmux api) (pn_rawID pane) w = (r, w'))"

lemma page_world:
  assumes "attempt (onSnapshots p) (\<lambda>r1. case r1 of Inl err \<Rightarrow> respondWith (f err) | Inr v \<Rightarrow> respondWith (g v)) x = (r, x')"
  shows "sv_world (ex_server x') = sv_world (ex_server x) \<and> sv_identity (ex_server x') = sv_identity (ex_server x)"
  using assms by (auto simp: attempt_def run_simps onSnapshots_def onServer_def split: prod.splits sum.splits)

lemma activity_world:
  assumes "answer (activityResponse ha h binding pane) x = (r, x')"
  shows "(\<exists>ra. HistoryActivity (ap_tmux (ha_api ha)) (pn_rawID pane) (sv_world (ex_server x)) = (ra, sv_world (ex_server x'))) \<and>
    sv_identity (ex_server x') = sv_identity (ex_server x)"
  using assms by (auto simp: answer_def onServer_def activityResponse_def bindP_apply refusing_def mapErr_def onWorld_def
      split: prod.splits sum.splits refusal.splits)

text \<open>Every reading that is answered with success has passed the same checks and goes through \<^verbatim>\<open>withSnapshotPane\<close>.\<close>

lemma reading_start:
  assumes "runHandler (handleHistoryAPI ha r h) s = (Some response, s')" "rq_Method r = ''GET''" "rs_Status response = 200"
    and "viewer = trim_space (header_Get historyViewerHeader (rq_Header r))"
  obtains user sid pages use ex where
    "LoginScope (ap_sha256 (ha_api ha)) (ap_hmac (ha_api ha)) (sv_auth s) (ap_clock (ha_api ha) 0) r = Some user"
    "parseHistorySnapshotPath (rq_Path r) = Some (sid, pages)"
    "withSnapshotPane ha (header_Set ''Cache-Control'' ''no-store'' h) user viewer sid use (newExchange s) = (Inr (), ex)"
    "\<And>binding pane x. use binding pane x = (Inr (), ex) \<Longrightarrow>
      served_after (ha_api ha) pages pane (sv_world (ex_server x)) (sv_world s') \<and> sv_identity s' = sv_identity (ex_server x)"
    "ex_response ex = Some response"
proof -
  let ?h = "header_Set ''Cache-Control'' ''no-store'' h"
  from assms(1) obtain ex where run: "handleHistoryAPI ha r h (newExchange s) = (Inr (), ex)" "ex_response ex = Some response"
    "ex_server ex = s'"
    by (auto simp: runHandler_Some)
  have no: False if "ex = respond response1 ex1" "rs_Status response1 \<noteq> 200" "ex_response ex1 = None" for response1 ex1
    using that run(2) assms(3) by auto
  obtain user where user: "LoginScope (ap_sha256 (ha_api ha)) (ap_hmac (ha_api ha)) (sv_auth s) (ap_clock (ha_api ha) 0) r = Some user"
    using run(1) no [of "http_Error ?h ''unauthorized'' 401" "newExchange s"]
    by (cases "LoginScope (ap_sha256 (ha_api ha)) (ap_hmac (ha_api ha)) (sv_auth s) (ap_clock (ha_api ha) 0) r")
      (auto simp: handleHistoryAPI_def Let_def run_simps)
  have viewer: "viewerIDPattern viewer"
    using run(1) user assms(4) no [of "http_Error ?h ''invalid viewer identity'' 400" "newExchange s"]
    by (auto simp: handleHistoryAPI_def Let_def run_simps split: if_splits)
  have create: "parseHistoryCreatePath (rq_Path r) = None"
    using run(1) user viewer assms(4) assms(2) no [of "notAllowed ?h" "newExchange s"]
    by (cases "parseHistoryCreatePath (rq_Path r)")
      (auto simp: handleHistoryAPI_def handleCreateHistorySnapshot_def Let_def run_simps notAllowed_def)
  obtain sid pages where path: "parseHistorySnapshotPath (rq_Path r) = Some (sid, pages)"
    using run(1) user viewer assms(4) create no [of "http_NotFound ?h" "newExchange s"]
    by (cases "parseHistorySnapshotPath (rq_Path r)") (auto simp: handleHistoryAPI_def Let_def run_simps http_NotFound_def)
  note start = run(1) user viewer create path assms(2,4)
  show thesis
  proof (cases pages)
    case True
    let ?use = "\<lambda>(_ :: snapshotBinding) (_ :: paneBinding).
        let cursor = (case map_of (rq_Query r) ''before'' of None \<Rightarrow> [] | Some v \<Rightarrow> v) in
        attempt (onSnapshots (sm_Page sid cursor user viewer (ap_clock (ha_api ha) 2) (ha_cursorRandom ha))) (\<lambda>r1.
          case r1 of Inl err \<Rightarrow> respondWith (lookupRefusal ?h err) | Inr page \<Rightarrow> respondWith (writeJSON ?h (json_page page)))"
    have "withSnapshotPane ha ?h user viewer sid ?use (newExchange s) = (Inr (), ex)"
      using start True by (simp add: handleHistoryAPI_def Let_def handleHistorySnapshotPage_def)
    with user path show thesis
      by (rule that) (use True run(2,3) in \<open>auto simp: served_after_def Let_def dest!: page_world\<close>)
  next
    case False
    have "withSnapshotPane ha ?h user viewer sid (\<lambda>binding pane. answer (activityResponse ha ?h binding pane)) (newExchange s) = (Inr (), ex)"
      using start False by (simp add: handleHistoryAPI_def Let_def handleHistorySnapshot_def)
    with user path show thesis
      by (rule that) (use False run(2,3) in \<open>auto simp: served_after_def dest!: activity_world\<close>)
  qed
qed

text \<open>
  C6. A history is read only by the login and the viewer that captured it, while its pane is the same. If a GET of the history API is
  answered with success, the request carried a valid login, and its path names a snapshot that is stored, not expired, and was created by
  this login and this viewer. The request then ran in this order, from its first state to its last: the binding was read from the
  snapshots, the lifecycle listed the sessions, \<^verbatim>\<open>resolvePane\<close>, run on exactly the state the listing left, had tmux confirm the pane of the
  snapshot in the listed session of its reference, in the generation that was captured, and after that a page was read without
  asking tmux anything more, or the activity of this very pane was.
\<close>

theorem history_read_private:
  assumes "web_lifecycle (ap_sessions (ha_api ha)) own" "snapshot_inv (sv_snapshots s)"
    and "runHandler (handleHistoryAPI ha r h) s = (Some response, s')" "rq_Method r = ''GET''" "rs_Status response = 200"
  shows "\<exists>user sid pages snapshot m sessions managed ex1 pane w1.
     LoginScope (ap_sha256 (ha_api ha)) (ap_hmac (ha_api ha)) (sv_auth s) (ap_clock (ha_api ha) 0) r = Some user \<and>
     parseHistorySnapshotPath (rq_Path r) = Some (sid, pages) \<and> map_of (sm_snapshots (sv_snapshots s)) sid = Some snapshot \<and>
     sn_User snapshot = user \<and> sn_Viewer snapshot = trim_space (header_Get historyViewerHeader (rq_Header r)) \<and>
     ap_clock (ha_api ha) 1 - sc_IdleTTL (sm_config (sv_snapshots s)) \<le> sn_LastAccess snapshot \<and>
     sm_Binding sid user (sn_Viewer snapshot) (ap_clock (ha_api ha) 1) (sv_snapshots s) = (Inr (sn_Binding snapshot), m) \<and>
     wl_List (ap_sessions (ha_api ha)) (newExchange (s\<lparr>sv_snapshots := m\<rparr>)) = (Inr sessions, ex1) \<and> managed \<in> set sessions \<and>
     se_PublicRef managed = sb_SessionRef (sn_Binding snapshot) \<and>
     resolvePane (ap_rands (ha_api ha)) (ap_tmux (ha_api ha)) (ap_interfere (ha_api ha)) managed (sb_PaneRef (sn_Binding snapshot)) False
       (host_of ex1, sv_identity s) = (Inr pane, (w1, sv_identity s')) \<and>
     pn_generation pane = sb_Generation (sn_Binding snapshot) \<and> served_after (ha_api ha) pages pane w1 (sv_world s')"
proof -
  let ?viewer = "trim_space (header_Get historyViewerHeader (rq_Header r))"
  obtain user sid pages use ex where
    user: "LoginScope (ap_sha256 (ha_api ha)) (ap_hmac (ha_api ha)) (sv_auth s) (ap_clock (ha_api ha) 0) r = Some user"
    and path: "parseHistorySnapshotPath (rq_Path r) = Some (sid, pages)"
    and read: "withSnapshotPane ha (header_Set ''Cache-Control'' ''no-store'' h) user ?viewer sid use (newExchange s) = (Inr (), ex)"
    and last: "\<And>binding pane x. use binding pane x = (Inr (), ex) \<Longrightarrow>
      served_after (ha_api ha) pages pane (sv_world (ex_server x)) (sv_world s') \<and> sv_identity s' = sv_identity (ex_server x)"
    and response: "ex_response ex = Some response" by (rule reading_start [OF assms(3-5) refl]) blast
  from assms(1) read show ?thesis
  proof (cases rule: with_snapshot_elim)
    case (refused response1 ex1)
    then show ?thesis using response assms(5) by (simp add: newExchange_def)
  next
    case (served binding pane m ex2)
    from binding_known [OF assms(2)] served(1) obtain snapshot where stored:
      "map_of (sm_snapshots (sv_snapshots s)) sid = Some snapshot" "sn_User snapshot = user" "sn_Viewer snapshot = ?viewer"
      "ap_clock (ha_api ha) 1 - sc_IdleTTL (sm_config (sv_snapshots s)) \<le> sn_LastAccess snapshot" "sn_Binding snapshot = binding"
      by fastforce
    have start: "(newExchange s)\<lparr>ex_server := (ex_server (newExchange s))\<lparr>sv_snapshots := m\<rparr>\<rparr> = newExchange (s\<lparr>sv_snapshots := m\<rparr>)"
      by (simp add: newExchange_def)
    from snapshot_pane_resolved [OF served(2) [unfolded start]] obtain sessions managed ex1 w1 st1 where pane:
      "wl_List (ap_sessions (ha_api ha)) (newExchange (s\<lparr>sv_snapshots := m\<rparr>)) = (Inr sessions, ex1)" "managed \<in> set sessions"
      "se_PublicRef managed = sb_SessionRef binding"
      "resolvePane (ap_rands (ha_api ha)) (ap_tmux (ha_api ha)) (ap_interfere (ha_api ha)) managed (sb_PaneRef binding) False
        (host_of ex1, sv_identity (ex_server ex1)) = (Inr pane, (w1, st1))" "pn_generation pane = sb_Generation binding"
      "ex2 = ex1\<lparr>ex_server := (ex_server ex1)\<lparr>sv_world := w1, sv_identity := st1\<rparr>\<rparr>" by blast
    have "own ex1 = own (newExchange (s\<lparr>sv_snapshots := m\<rparr>))"
      using quietD [OF web_lifecycle.listing [OF assms(1)] pane(1)] .
    from own_eq [OF this] have same: "sv_identity (ex_server ex1) = sv_identity s" by (simp add: stores_def)
    have "sv_identity s' = st1" "served_after (ha_api ha) pages pane w1 (sv_world s')"
      using last [OF served(3)] pane(6) by simp_all
    with user path stored served(1) pane(1-5) same show ?thesis by auto
  qed
qed

subsection \<open>The slot of a capture\<close>









subsection \<open>Where and when a pane was found\<close>





text \<open>What the lifecycle and the tmux client promise for this: they only move the world forward.\<close>

definition timed_api :: "('w \<Rightarrow> 'w \<Rightarrow> bool) \<Rightarrow> 'w api \<Rightarrow> bool" where
  "timed_api since api \<longleftrightarrow> timed_lifecycle (kept_since since) (ap_sessions api) \<and> (\<forall>args. forward since (cl_output (ap_tmux api) args))"


text \<open>The manager of the program promises it, with a client that records its commands and a host that leaves the record alone.\<close>

lemma timed_api_program:
  assumes "ap_sessions api =
      managerLifecycle (liftManager (newManager cfg faults parseTime temp store (logged_client rn binary) (recording_host h)))"
    and "\<And>args. forward (system_since grown) (cl_output (ap_tmux api) args)"
  shows "timed_api (system_since grown) api"
  using assms(2) recording.manager.web.timed_lifecycle_axioms by (simp add: timed_api_def assms(1))















subsection \<open>The capture\<close>










lemma onCaptures_simps [simp]: "ex_response (onCaptures f ex) = ex_response ex" "coordinator (onCaptures f ex) = f (coordinator ex)"
  "sv_snapshots (ex_server (onCaptures f ex)) = sv_snapshots (ex_server ex)"
  "sv_world (ex_server (onCaptures f ex)) = sv_world (ex_server ex)" "sv_identity (ex_server (onCaptures f ex)) = sv_identity (ex_server ex)"
  by (simp_all add: onCaptures_def)






















subsection \<open>A capture and a reading\<close>

definition web_history :: "(command list \<times> unit) historyApi" where
  "web_history = \<lparr>ha_api = web_api, ha_output = (\<lambda>store. store), ha_callID = 0, ha_waiting = (\<lambda>_ s. (None, s)),
     ha_context = (\<lambda>_. False), ha_timedOut = False, ha_isDeadline = (\<lambda>_. False),
     ha_snapshotRandom = replicate 24 CHR ''a'', ha_cursorRandom = replicate 24 CHR ''b''\<rparr>"

definition web_viewer :: ViewerID where "web_viewer = replicate 16 CHR ''v''"

definition web_headers :: Header where "web_headers = [(historyViewerHeader, [web_viewer])]"



lemma web_user: "LoginScope (ap_sha256 web_api) (ap_hmac web_api) (sv_auth (demo_server tokens)) (ap_clock web_api 0) (demo_post ms) =
    Some (b64_encode front_cookie)"
  using front_verify
  by (simp add: LoginScope_def demo_post_def rq_Cookie_def web_api_def demo_api_def demo_server_def initialServer_def)





definition web_meta :: HistoryMetadata where
  "web_meta = \<lparr>Columns = 80, Rows = 24, HistorySize = 0, HistoryLimit = 2000, HistoryBytes = 10, AlternateScreen = False, OutputEpoch = 0\<rparr>"


definition web_product :: historyCaptureProduct where
  "web_product = \<lparr>hp_Capture = \<lparr>hc_Text = ''hi'', hc_Before = web_meta, hc_After = web_meta\<rparr>,
     hp_Lines = [\<lparr>Runs = [\<lparr>Text = ''hi'', Style = None\<rparr>], BidiWarning = False\<rparr>], hp_ParseBytes = 2, hp_NodeEstimate = 2\<rparr>"





lemma web_contract: "web_lifecycle (ap_sessions (ha_api web_history)) own"
  by (simp add: web_history_def web_api_def one_session_contract)




text \<open>A reading of such a snapshot.\<close>

definition web_sid :: string where
  "web_sid = newHistoryOpaqueID ''hs'' (replicate 24 CHR ''a'')"

definition web_manager :: snapshotManager where
  "web_manager = snd (sm_Create (snapshotRequest (b64_encode front_cookie) web_viewer ''p_eA'' ''reflow'' (demo_session, web_binding) web_product)
     (8 * second) (replicate 24 CHR ''a'') (replicate 24 CHR ''b'') (sv_snapshots (demo_server [])))"

lemma web_manager_inv: "snapshot_inv web_manager"
proof -
  have "sv_snapshots (demo_server []) = newSnapshotManager \<lparr>sc_IdleTTL = 0, sc_PerViewer = 0, sc_PerUser = 0, sc_PerProcess = 0,
        sc_ProcessMaxBytes = max defaultSnapshotProcessMaxBytes (cf_SnapshotMaxBytes demo_web_config), sc_ProcessMaxNodes = 0,
        sc_PageMaxLines = 0, sc_PageMaxBytes = 0\<rparr>" (is "_ = newSnapshotManager ?config")
    by (simp add: demo_server_def initialServer_def)
  then have "sm_step (newSnapshotManager ?config) web_manager"
    unfolding web_manager_def
    by (simp only:) (rule sm_step.create [OF prod.collapse [symmetric]], simp_all add: newSnapshotManager_def)
  then show ?thesis using sm_step_inv newSnapshotManager_inv by blast
qed

definition web_read :: Request where
  "web_read = (demo_post [])\<lparr>rq_Method := ''GET'', rq_Path := ''/api/v1/history-snapshots/'' @ web_sid @ ''/pages'', rq_Header := web_headers\<rparr>"

definition web_bound :: snapshotBinding where
  "web_bound = \<lparr>sb_SessionRef = se_PublicRef demo_session, sb_PaneRef = ''p_eA'', sb_Generation = pn_generation web_binding,
     sb_OutputEpoch = 0, sb_HistoryBytes = 10\<rparr>"

lemma web_bind:
  "fst (sm_Binding web_sid (b64_encode front_cookie) web_viewer (8 * second) web_manager) = Inr web_bound"
  "isl (fst (sm_Page web_sid [] (b64_encode front_cookie) web_viewer (8 * second) (replicate 24 CHR ''b'')
     (snd (sm_Binding web_sid (b64_encode front_cookie) web_viewer (8 * second) web_manager)))) = False"
  by code_simp+

lemma web_any:
  "fst (resolvePane demo_rands (logged_client web_runner ''tmux'') (\<lambda>st. st) demo_session ''p_eA'' False (([], ()), newIdentityStore)) =
     Inr web_binding"
  by code_simp

theorem history_read_private_witness:
  "\<exists>response s' sid snapshot. runHandler (handleHistoryAPI web_history web_read []) ((demo_server [])\<lparr>sv_snapshots := web_manager\<rparr>) =
     (Some response, s') \<and> rs_Status response = 200 \<and> map_of (sm_snapshots web_manager) sid = Some snapshot \<and>
     sn_User snapshot = b64_encode front_cookie \<and> sn_Viewer snapshot = web_viewer"
proof -
  let ?s = "(demo_server [])\<lparr>sv_snapshots := web_manager\<rparr>" and ?h = "header_Set ''Cache-Control'' ''no-store'' []"
  have api: "ha_api web_history = web_api" "ha_cursorRandom web_history = replicate 24 CHR ''b''" by (simp_all add: web_history_def)
  have rands: "ap_rands web_api = demo_rands" "ap_tmux web_api = logged_client web_runner ''tmux''" "ap_interfere web_api = (\<lambda>st. st)"
    "ap_clock web_api i = 8 * second" for i
    by (simp_all add: web_api_def demo_api_def)
  obtain m where bind: "sm_Binding web_sid (b64_encode front_cookie) web_viewer (8 * second) web_manager = (Inr web_bound, m)"
    using web_bind(1) by (metis prod.collapse)
  then obtain page m' where page: "sm_Page web_sid [] (b64_encode front_cookie) web_viewer (8 * second) (replicate 24 CHR ''b'') m = (Inr page, m')"
    using web_bind(2) by (metis isl_def sum.collapse(2) prod.collapse snd_conv)
  let ?s1 = "?s\<lparr>sv_snapshots := m\<rparr>"
  obtain w S where pane: "resolvePane demo_rands (logged_client web_runner ''tmux'') (\<lambda>st. st) demo_session ''p_eA'' False
      (([], ()), newIdentityStore) = (Inr web_binding, (w, S))"
    using web_any by (metis prod.collapse)
  have world: "sv_world ?s1 = ([], ())" "sv_identity ?s1 = newIdentityStore" by (simp_all add: demo_server_def initialServer_def)
  have resolved: "resolveSnapshotPane web_api web_bound ((newExchange ?s)\<lparr>ex_server := ?s1\<rparr>) =
      (Inr web_binding, (newExchange ?s)\<lparr>ex_server := ?s1\<lparr>sv_world := w, sv_identity := S\<rparr>\<rparr>)"
    using pane world by (simp add: resolveSnapshotPane_def web_bound_def bindP_apply web_find orStale_def paneOf_def mapErr_def onServer_def
        onIdentity_def rands)
  have path: "parseHistoryCreatePath (rq_Path web_read) = None" "parseHistorySnapshotPath (rq_Path web_read) = Some (web_sid, True)"
    by code_simp+
  have viewer: "trim_space (header_Get historyViewerHeader (rq_Header web_read)) = web_viewer" "viewerIDPattern web_viewer" by code_simp+
  have user: "LoginScope (ap_sha256 web_api) (ap_hmac web_api) (sv_auth ?s) (8 * second) web_read = Some (b64_encode front_cookie)"
    using web_user [of "[]" "[]"] by (simp add: LoginScope_def rq_Cookie_def web_read_def rands)
  have get: "rq_Method web_read = ''GET''" "map_of (rq_Query web_read) ''before'' = None" by (simp_all add: web_read_def demo_post_def)
  have run: "runHandler (handleHistoryAPI web_history web_read []) ?s =
      (Some (writeJSON ?h (json_page page)), ?s\<lparr>sv_snapshots := m', sv_world := w, sv_identity := S\<rparr>)"
    using user viewer path bind page resolved
    by (simp add: runHandler_def handleHistoryAPI_def Let_def api rands get handleHistorySnapshotPage_def withSnapshotPane_def attempt_def
        onSnapshots_def onServer_def respondWith_def respond_def newExchange_def)
  have ok: "rs_Status (writeJSON ?h (json_page page)) = 200" by (simp add: writeJSON_def writeJSONStatus_def)
  have inv: "snapshot_inv (sv_snapshots ?s)" by (simp add: web_manager_inv)
  from history_read_private [OF web_contract inv run get(1) ok] user viewer(1) obtain sid snapshot where
    "map_of (sm_snapshots web_manager) sid = Some snapshot" "sn_User snapshot = b64_encode front_cookie" "sn_Viewer snapshot = web_viewer"
    by (auto simp: api rands)
  then show ?thesis using run ok by blast
qed

end
