(* ===== verification/Tmux_Binary.thy ===== *)
theory Tmux_Binary
  imports Session_Api Bridge_Commands
begin

section \<open>Running commands and finding tmux\<close>

text \<open>
  \<^verbatim>\<open>internal/tmux/tmux.go\<close>: how \<^verbatim>\<open>ExecRunner\<close> runs a command and bounds what it reads from it, and how the installed tmux
  is selected and checked. \<open>executor\<close> holds what the code uses of \<^verbatim>\<open>os/exec\<close>, as programs over a world; a started child is a
  number. Selecting tmux asks the file system, the \<^verbatim>\<open>PATH\<close> and the executable itself, which are functions here.

  The lemmas show that every command runs in the UTF-8 locale, that a bounded read keeps its bound and waits for the child
  on every path, and that a selected executable has reported the supported version.
\<close>

subsection \<open>Paths\<close>

text \<open>\<^verbatim>\<open>filepath.Dir\<close>, \<^verbatim>\<open>filepath.IsAbs\<close> and \<^verbatim>\<open>filepath.Abs\<close>; \<open>wd\<close> is the outcome of \<^verbatim>\<open>os.Getwd\<close>.\<close>

definition path_dir :: "string \<Rightarrow> string" where
  "path_dir p = path_clean (rev (dropWhile (\<lambda>c. c \<noteq> CHR ''/'') (rev p)))"

definition path_is_abs :: "string \<Rightarrow> bool" where
  "path_is_abs p \<longleftrightarrow> has_prefix p ''/''"

definition path_abs :: "'e + string \<Rightarrow> string \<Rightarrow> 'e + string" where
  "path_abs wd p = (if path_is_abs p then Inr (path_clean p) else bindR wd (\<lambda>dir. Inr (path_join [dir, p])))"

lemma path_clean_abs: "path_is_abs p \<Longrightarrow> path_is_abs (path_clean p)"
  by (simp add: path_is_abs_def path_clean_def Let_def has_prefix_def)

lemma path_join_abs: "path_is_abs d \<Longrightarrow> path_is_abs (path_join (d # elems))"
proof -
  assume d: "path_is_abs d"
  then obtain t where t: "d = CHR ''/'' # t" by (auto simp: path_is_abs_def has_prefix_iff)
  have "path_is_abs (join (d # elems) ''/'')" by (cases elems) (simp_all add: t path_is_abs_def has_prefix_def)
  then show ?thesis using t by (auto simp: path_join_def intro: path_clean_abs)
qed

lemma path_abs_abs: "path_abs wd p = Inr q \<Longrightarrow> (\<And>d. wd = Inr d \<Longrightarrow> path_is_abs d) \<Longrightarrow> path_is_abs q"
  by (auto simp: path_abs_def result_simps path_clean_abs path_join_abs split: if_splits)

lemma trim_space_nil: "trim_space [] = []"
  by code_simp

subsection \<open>Commands\<close>

record exec_command =
  cm_args :: "string list"
  cm_env :: "string list option"
  cm_stdin :: "string option"

record 'w executor =
  ex_environ :: "string list"
  ex_Output :: "exec_command \<Rightarrow> ('w, string) tmux"
  ex_Run :: "exec_command \<Rightarrow> ('w, unit) tmux"
  ex_StdoutPipe :: "exec_command \<Rightarrow> ('w, unit) tmux"
  ex_Start :: "exec_command \<Rightarrow> ('w, nat) tmux"
  ex_ReadAll :: "nat \<Rightarrow> int \<Rightarrow> 'w \<Rightarrow> (string \<times> tmuxError option) \<times> 'w"
  ex_Kill :: "nat \<Rightarrow> 'w \<Rightarrow> 'w"
  ex_Wait :: "nat \<Rightarrow> ('w, unit) tmux"

definition UTF8Locale :: string where "UTF8Locale = ''C.UTF-8''"

definition ConfigureCommand :: "string list \<Rightarrow> exec_command \<Rightarrow> exec_command" where
  "ConfigureCommand environ command =
     (let environment = (case cm_env command of None \<Rightarrow> environ | Some env \<Rightarrow> env) in
      command\<lparr>cm_env := Some (UTF8Environment environment)\<rparr>)"

definition commandContext :: "'w executor \<Rightarrow> string list \<Rightarrow> exec_command" where
  "commandContext ex args = ConfigureCommand (ex_environ ex) \<lparr>cm_args = args, cm_env = None, cm_stdin = None\<rparr>"

text \<open>
  \<open>ex_ReadAll child n\<close> is \<^verbatim>\<open>io.ReadAll(io.LimitReader(stdout, n))\<close>: the bytes read and the error that ended the reading. The
  bound is a 64-bit integer.
\<close>

definition OutputLimited :: "'w executor \<Rightarrow> int \<Rightarrow> string list \<Rightarrow> ('w, string) tmux" where
  "OutputLimited ex limit args =
     (if limit \<le> 0 then failP ErrSnapshotTooLarge
      else
        let command = commandContext ex args in
        bindP (ex_StdoutPipe ex command) (\<lambda>_.
        bindP (ex_Start ex command) (\<lambda>child w.
          case ex_ReadAll ex child (wrap64 (limit + 1)) w of
            ((output, readErr), w1) \<Rightarrow>
              if int (length output) > limit then
                (case ex_Wait ex child (ex_Kill ex child w1) of (_, w2) \<Rightarrow> (Inl ErrSnapshotTooLarge, w2))
              else
                (case ex_Wait ex child w1 of
                   (waitErr, w2) \<Rightarrow>
                     (case readErr of
                        Some err \<Rightarrow> (Inl err, w2)
                      | None \<Rightarrow> (case waitErr of Inl err \<Rightarrow> (Inl err, w2) | Inr _ \<Rightarrow> (Inr output, w2)))))))"

definition ExecRunner :: "'w executor \<Rightarrow> 'w CommandRunner" where
  "ExecRunner ex =
     \<lparr>rn_Output = (\<lambda>args. ex_Output ex (commandContext ex args)),
      rn_Run = (\<lambda>args. ex_Run ex (commandContext ex args)),
      rn_RunWithInput = Some (\<lambda>input args. ex_Run ex ((commandContext ex args)\<lparr>cm_stdin := Some input\<rparr>)),
      rn_OutputLimited = Some (OutputLimited ex)\<rparr>"

definition NewClient :: "(int \<Rightarrow> int \<Rightarrow> bool) \<Rightarrow> 'w executor \<Rightarrow> 'w Client" where
  "NewClient fromProcess ex = NewClientWithRunner fromProcess (ExecRunner ex)"

text \<open>\<^verbatim>\<open>tmuxAlive\<close> of the registry: \<open>combined\<close> is the outcome of the command with everything it printed.\<close>

definition tmuxAlive :: "'w executor \<Rightarrow> (exec_command \<Rightarrow> (string option \<times> string)) \<Rightarrow> string \<Rightarrow> string \<Rightarrow> string option" where
  "tmuxAlive ex combined binary name =
     (case combined (commandContext ex [binary, ''has-session'', ''-t'', name]) of
        (None, _) \<Rightarrow> None
      | (Some err, printed) \<Rightarrow>
          let message = trim_space printed in Some (if message = [] then err else err @ '': '' @ message))"

definition SetTmuxBinary :: "'w executor \<Rightarrow> (exec_command \<Rightarrow> (string option \<times> string)) \<Rightarrow> string \<Rightarrow> string \<Rightarrow> string option" where
  "SetTmuxBinary ex combined binary = tmuxAlive ex combined (if trim_space binary = [] then ''tmux'' else binary)"

subsection \<open>Finding tmux\<close>

definition SupportedVersion :: string where "SupportedVersion = ''3.7b''"

datatype statOutcome = Present | NotExist | StatFailed string

record installation =
  in_executable :: string
  in_workdir :: "string + string"
  in_stat :: "string \<Rightarrow> statOutcome"
  in_lookPath :: "string \<Rightarrow> string + string"
  in_runCommand :: "exec_command \<Rightarrow> string + string"
  in_environ :: "string list"
  in_isPrint :: "rune \<Rightarrow> bool"

definition VerifyBinary :: "installation \<Rightarrow> string \<Rightarrow> string + unit" where
  "VerifyBinary host binary =
     (case in_runCommand host (ConfigureCommand (in_environ host)
         \<lparr>cm_args = [binary, ''-V''], cm_env = None, cm_stdin = None\<rparr>) of
        Inl err \<Rightarrow> Inl (''verify tmux executable '' @ go_quote (in_isPrint host) binary @ '': '' @ err)
      | Inr output \<Rightarrow>
          let version = trim_space output in
          if version \<noteq> ''tmux '' @ SupportedVersion
          then Inl (''tmux '' @ SupportedVersion @ '' is required; selected '' @ binary @ '' reports '' @ version)
          else Inr ())"

fun installedCandidate :: "installation \<Rightarrow> string list \<Rightarrow> string list \<Rightarrow> string + string option" where
  "installedCandidate host seen [] = Inr None"
| "installedCandidate host seen (candidate # candidates) =
     (case path_abs (in_workdir host) candidate of
        Inl err \<Rightarrow> Inl (''resolve tmux executable '' @ go_quote (in_isPrint host) candidate @ '': '' @ err)
      | Inr absolute \<Rightarrow>
          if absolute \<in> set seen then installedCandidate host seen candidates
          else (case in_stat host absolute of
              NotExist \<Rightarrow> installedCandidate host (absolute # seen) candidates
            | StatFailed err \<Rightarrow> Inl (''inspect tmux executable '' @ go_quote (in_isPrint host) absolute @ '': '' @ err)
            | Present \<Rightarrow> bindR (VerifyBinary host absolute) (\<lambda>_. Inr (Some absolute))))"

definition resolveBinary :: "installation \<Rightarrow> string \<Rightarrow> string \<Rightarrow> string + string" where
  "resolveBinary host executable homeDir =
     (let candidates = (if executable \<noteq> [] then [path_join [path_dir executable, ''tmux'']] else []) @
          (if homeDir \<noteq> [] then [path_join [homeDir, ''.local'', ''bin'', ''tmux'']] else []) in
      bindR (installedCandidate host [] candidates) (\<lambda>installed.
        case installed of
          Some absolute \<Rightarrow> Inr absolute
        | None \<Rightarrow>
            (case in_lookPath host ''tmux'' of
               Inl _ \<Rightarrow> Inl (''tmux '' @ SupportedVersion @ '' is required; install it with install-tmux.sh'')
             | Inr selected \<Rightarrow>
                 (case path_abs (in_workdir host) selected of
                    Inl err \<Rightarrow> Inl (''resolve tmux executable '' @ go_quote (in_isPrint host) selected @ '': '' @ err)
                  | Inr absolute \<Rightarrow> bindR (VerifyBinary host absolute) (\<lambda>_. Inr absolute)))))"

definition ResolveBinary :: "installation \<Rightarrow> string \<Rightarrow> string + string" where
  "ResolveBinary host homeDir = resolveBinary host (in_executable host) homeDir"

subsection \<open>Every command runs in the UTF-8 locale\<close>

definition entry_name :: "string \<Rightarrow> string" where
  "entry_name entry = (case cut entry CHR ''='' of None \<Rightarrow> entry | Some (name, _) \<Rightarrow> name)"

lemma UTF8Environment_locale:
  "entry \<in> set (UTF8Environment environment) \<Longrightarrow> entry_name entry \<in> {''LANG'', ''LC_ALL''} \<Longrightarrow>
     entry \<in> {''LANG='' @ UTF8Locale, ''LC_ALL='' @ UTF8Locale}"
  by (auto simp: UTF8Environment_def entry_name_def UTF8Locale_def Let_def)

lemma UTF8Environment_keeps:
  "entry_name entry \<notin> {''LANG'', ''LC_ALL''} \<Longrightarrow>
     entry \<in> set (UTF8Environment environment) \<longleftrightarrow> entry \<in> set environment"
proof -
  have "entry_name ''LANG=C.UTF-8'' = ''LANG''" "entry_name ''LC_ALL=C.UTF-8'' = ''LC_ALL''"
    by (simp_all add: entry_name_def)
  then show "entry_name entry \<notin> {''LANG'', ''LC_ALL''} \<Longrightarrow> ?thesis"
    by (auto simp: UTF8Environment_def entry_name_def Let_def)
qed

lemma UTF8Environment_idem: "UTF8Environment (UTF8Environment environment) = UTF8Environment environment"
  by (simp add: UTF8Environment_def Let_def)

subsection \<open>Bounded reading\<close>

text \<open>An observer keeps the children that were started and not waited for.\<close>

definition reaping :: "'w executor \<Rightarrow> ('w \<times> nat list) executor" where
  "reaping ex = \<lparr>ex_environ = ex_environ ex,
     ex_Output = (\<lambda>command (w, kids). case ex_Output ex command w of (r, w') \<Rightarrow> (r, w', kids)),
     ex_Run = (\<lambda>command (w, kids). case ex_Run ex command w of (r, w') \<Rightarrow> (r, w', kids)),
     ex_StdoutPipe = (\<lambda>command (w, kids). case ex_StdoutPipe ex command w of (r, w') \<Rightarrow> (r, w', kids)),
     ex_Start = (\<lambda>command (w, kids). case ex_Start ex command w of
        (Inl e, w') \<Rightarrow> (Inl e, w', kids) | (Inr child, w') \<Rightarrow> (Inr child, w', child # kids)),
     ex_ReadAll = (\<lambda>child n (w, kids). case ex_ReadAll ex child n w of (r, w') \<Rightarrow> (r, w', kids)),
     ex_Kill = (\<lambda>child (w, kids). (ex_Kill ex child w, kids)),
     ex_Wait = (\<lambda>child (w, kids). case ex_Wait ex child w of (r, w') \<Rightarrow> (r, w', remove1 child kids))\<rparr>"

lemma OutputLimited_reaps: "snd (snd (OutputLimited (reaping ex) limit args (w, kids))) = kids"
  by (auto simp: OutputLimited_def reaping_def Let_def bindP_apply split: prod.splits sum.splits option.splits)

lemma OutputLimited_read:
  "OutputLimited ex limit args w = (Inr out, w') \<Longrightarrow>
     0 < limit \<and> int (length out) \<le> limit \<and>
     (\<exists>child v v'. ex_ReadAll ex child (wrap64 (limit + 1)) v = ((out, None), v'))"
  by (force simp: OutputLimited_def Let_def bindP_apply split: prod.splits sum.splits option.splits if_splits)

text \<open>
  The answer is complete: what was read below the bound is all that the child wrote, if the reader gives what the child wrote
  as far as the bound it is asked for.
\<close>

lemma OutputLimited_complete:
  assumes "OutputLimited ex limit args w = (Inr out, w')" "limit < max_int64"
    and reader: "\<And>child n v. fst (ex_ReadAll ex child n v) = (take (nat n) (written child), None)"
  shows "\<exists>child. out = written child"
proof -
  obtain child v v' where read: "0 < limit" "int (length out) \<le> limit"
    "ex_ReadAll ex child (wrap64 (limit + 1)) v = ((out, None), v')"
    using OutputLimited_read [OF assms(1)] by blast
  have "wrap64 (limit + 1) = limit + 1" using assms(2) read(1) by (intro wrap64_id) auto
  then have "out = take (nat (limit + 1)) (written child)" using reader [of child "limit + 1" v] read(3) by simp
  then show ?thesis using read(1,2) by (intro exI [of _ child]) (auto simp: min_def split: if_splits)
qed

subsection \<open>The selected executable\<close>

lemma VerifyBinary_version:
  "VerifyBinary host binary = Inr u \<Longrightarrow>
     \<exists>printed. in_runCommand host (ConfigureCommand (in_environ host)
        \<lparr>cm_args = [binary, ''-V''], cm_env = None, cm_stdin = None\<rparr>) = Inr printed \<and> trim_space printed = ''tmux 3.7b''"
  by (auto simp: VerifyBinary_def SupportedVersion_def Let_def split: sum.splits if_splits)

lemma installedCandidate_verified:
  "installedCandidate host seen candidates = Inr (Some binary) \<Longrightarrow>
     VerifyBinary host binary = Inr () \<and> in_stat host binary = Present"
  by (induction host seen candidates rule: installedCandidate.induct)
    (auto simp: result_simps split: sum.splits if_splits statOutcome.splits)

text \<open>Only executables that are not there are passed over.\<close>

lemma installedCandidate_absent:
  "installedCandidate host seen candidates = Inr None \<Longrightarrow> candidate \<in> set candidates \<Longrightarrow>
     \<exists>absolute. path_abs (in_workdir host) candidate = Inr absolute \<and>
       (absolute \<in> set seen \<or> in_stat host absolute = NotExist)"
proof (induction host seen candidates rule: installedCandidate.induct)
  case (2 host seen c candidates)
  then show ?case by (fastforce simp: result_simps split: sum.splits if_splits statOutcome.splits)
qed simp

lemma ResolveBinary_verified: "ResolveBinary host homeDir = Inr binary \<Longrightarrow> VerifyBinary host binary = Inr ()"
  by (auto simp: ResolveBinary_def resolveBinary_def Let_def result_simps
      split: option.splits sum.splits dest: installedCandidate_verified)

lemma ResolveBinary_supported:
  "ResolveBinary host homeDir = Inr binary \<Longrightarrow>
     \<exists>printed. in_runCommand host (ConfigureCommand (in_environ host)
        \<lparr>cm_args = [binary, ''-V''], cm_env = None, cm_stdin = None\<rparr>) = Inr printed \<and> trim_space printed = ''tmux 3.7b''"
  using ResolveBinary_verified VerifyBinary_version by blast

text \<open>An installation with tmux beside the server only.\<close>

definition beside :: installation where
  "beside = \<lparr>in_executable = ''/opt/bin/server'', in_workdir = Inr ''/'',
     in_stat = (\<lambda>p. if p = ''/opt/bin/tmux'' then Present else NotExist), in_lookPath = (\<lambda>_. Inl ''not found''),
     in_runCommand = (\<lambda>command. Inr ''tmux 3.7b''), in_environ = [], in_isPrint = (\<lambda>_. True)\<rparr>"

lemma beside_resolved: "ResolveBinary beside ''/home/u'' = Inr ''/opt/bin/tmux''"
  by code_simp

lemma beside_supported:
  "\<exists>printed. in_runCommand beside (ConfigureCommand (in_environ beside)
     \<lparr>cm_args = [''/opt/bin/tmux'', ''-V''], cm_env = None, cm_stdin = None\<rparr>) = Inr printed \<and> trim_space printed = ''tmux 3.7b''"
  by (rule ResolveBinary_supported [OF beside_resolved])

end
