(* ===== verification/Forwarded_Agent.thy ===== *)
theory Forwarded_Agent
  imports Tmux_Binary Loops
begin

section \<open>The forwarded SSH agent\<close>

text \<open>
  \<^verbatim>\<open>internal/session/agent.go\<close>: the stable symbolic link to the SSH agent that the managed sessions use. The disk maps a path,
  with its directory resolved, to what is there; any call may fail. \<open>agentHost\<close> holds what the code asks outside that disk: the
  working directory, \<^verbatim>\<open>filepath.EvalSymlinks\<close> of a directory, \<^verbatim>\<open>os.Stat\<close>, which follows links, and the random part of the
  name of a temporary file. The loop over a chain of links is a partial function (\<open>loopP\<close>).

  The lemmas show that the loop ends, that its answer is whether the chain of links passes through the stable link, and that
  a refresh changes the stable link only to a socket that does not lead back to it, and only when it reports so.
\<close>

datatype node =
    RegularFile
  | SocketFile
  | SymbolicLink string

record agentHost =
  ah_workdir :: "string + string"
  ah_evalSymlinks :: "string \<Rightarrow> string + string"
  ah_stat :: "node disk \<Rightarrow> string \<Rightarrow> string + node"
  ah_random :: "nat \<Rightarrow> string"

type_synonym 'a agent = "(node disk, string, 'a) prog"

datatype ForwardedAgentStatus =
    ForwardedAgentUnavailable
  | ForwardedAgentInvalid
  | ForwardedAgentAvailable

record ForwardedAgent =
  fa_stateDir :: string
  fa_agentDir :: string
  fa_socketPath :: string

definition NewForwardedAgent :: "agentHost \<Rightarrow> string \<Rightarrow> string + ForwardedAgent" where
  "NewForwardedAgent host stateDir =
     (if trim_space stateDir = [] then Inl ''forwarded agent state directory cannot be empty''
      else case path_abs (ah_workdir host) stateDir of
          Inl err \<Rightarrow> Inl (''resolve forwarded agent state directory: '' @ err)
        | Inr absolute \<Rightarrow>
            let agentDir = path_join [absolute, forwardedAgentDirectory] in
            Inr \<lparr>fa_stateDir = absolute, fa_agentDir = agentDir, fa_socketPath = path_join [agentDir, forwardedAgentSocket]\<rparr>)"

definition ForwardedAgentSocketPath :: "agentHost \<Rightarrow> string \<Rightarrow> string + string" where
  "ForwardedAgentSocketPath host stateDir = bindR (NewForwardedAgent host stateDir) (\<lambda>forwarded. Inr (fa_socketPath forwarded))"

definition sshInvocation :: "(string \<Rightarrow> string option) \<Rightarrow> bool" where
  "sshInvocation lookupEnv \<longleftrightarrow>
     list_ex (\<lambda>name. case lookupEnv name of None \<Rightarrow> False | Some v \<Rightarrow> trim_space v \<noteq> [])
       [''SSH_CONNECTION'', ''SSH_CLIENT'', ''SSH_TTY'']"

subsection \<open>Chains of links\<close>

text \<open>Where a path is on the disk: its directory resolved, its last element as it is.\<close>

definition place :: "agentHost \<Rightarrow> string \<Rightarrow> string" where
  "place host p = (case ah_evalSymlinks host (path_dir p) of Inl _ \<Rightarrow> p | Inr dir \<Rightarrow> path_join [dir, path_base p])"

definition linkTarget :: "string \<Rightarrow> string \<Rightarrow> string" where
  "linkTarget current target =
     (if path_is_abs target then path_clean target else path_clean (path_join [path_dir current, target]))"

definition chainStep :: "faults \<Rightarrow> agentHost \<Rightarrow> string \<Rightarrow> string \<times> string list \<Rightarrow> (bool, string \<times> string list) round agent" where
  "chainStep faults host link = (\<lambda>(path, visited).
     bindP (liftP (ah_evalSymlinks host (path_dir path))) (\<lambda>resolvedDirectory.
     let current = path_join [resolvedDirectory, path_base path] in
     if current = link then returnP (Done True)
     else if current \<in> set visited then failP ''symlink cycle''
     else
       bindP (readFile faults ''no such file'' ''lstat'' current) (\<lambda>info.
       case info of
         SymbolicLink _ \<Rightarrow>
           bindP (readFile faults ''no such file'' ''readlink'' current) (\<lambda>there.
           case there of
             SymbolicLink target \<Rightarrow> returnP (Again (linkTarget current target, visited @ [current]))
           | _ \<Rightarrow> failP ''readlink'')
       | _ \<Rightarrow> returnP (Done False))))"

definition symlinkChainReferences :: "faults \<Rightarrow> agentHost \<Rightarrow> string \<Rightarrow> string \<Rightarrow> (node disk, string, bool) partial_prog" where
  "symlinkChainReferences faults host path link =
     loopP (chainStep faults host (place host (path_clean link))) (path_clean path, [])"

subsection \<open>Replacing the link\<close>

definition makeSymlink :: "faults \<Rightarrow> agentHost \<Rightarrow> string \<Rightarrow> string \<Rightarrow> unit agent" where
  "makeSymlink faults host target path =
     bindP (sysCall faults ''create temporary forwarded agent link'') (\<lambda>_ d.
       if map_of (dk_files d) (place host path) \<noteq> None then (Inl ''create temporary forwarded agent link'', d)
       else (Inr (), d\<lparr>dk_files := gm_put (place host path) (SymbolicLink target) (dk_files d)\<rparr>))"

text \<open>The deferred \<^verbatim>\<open>os.Remove(temporaryPath)\<close>, whose error is dropped.\<close>

definition removeAfter :: "faults \<Rightarrow> string \<Rightarrow> 'a agent \<Rightarrow> 'a agent" where
  "removeAfter faults path p = tryP p (\<lambda>r. tryP (removeFile faults ''no such file'' ''remove'' path) (\<lambda>_. liftP r))"

definition temporaryName :: "agentHost \<Rightarrow> string \<Rightarrow> nat \<Rightarrow> string" where
  "temporaryName host link n = path_dir link @ ''/.forwarded.sock-'' @ ah_random host n"

definition replaceThrough :: "faults \<Rightarrow> agentHost \<Rightarrow> string \<Rightarrow> string \<Rightarrow> string \<Rightarrow> unit agent" where
  "replaceThrough faults host temporaryPath target link =
     (let temporary = place host temporaryPath in
      bindP (createTemp faults ''reserve temporary forwarded agent link'' RegularFile temporary) (\<lambda>_.
      bindP (tryP (sysCall faults ''close temporary forwarded agent link'') (\<lambda>r.
        case r of
          Inl err \<Rightarrow> tryP (removeFile faults ''no such file'' ''remove'' temporary) (\<lambda>_. failP err)
        | Inr _ \<Rightarrow> returnP ())) (\<lambda>_.
      bindP (removeFile faults ''prepare temporary forwarded agent link'' ''prepare temporary forwarded agent link'' temporary) (\<lambda>_.
      removeAfter faults temporary
        (bindP (makeSymlink faults host target temporaryPath) (\<lambda>_.
           rename faults ''replace forwarded agent link'' temporary (place host link)))))))"

definition replaceSymlink :: "faults \<Rightarrow> agentHost \<Rightarrow> string \<Rightarrow> string \<Rightarrow> unit agent" where
  "replaceSymlink faults host target link =
     (\<lambda>d. replaceThrough faults host (temporaryName host link (dk_calls d)) target link d)"

definition ensurePrivateDirectories :: "faults \<Rightarrow> ForwardedAgent \<Rightarrow> unit agent" where
  "ensurePrivateDirectories faults f =
     eachP (\<lambda>directory.
       bindP (sysCall faults ''create private forwarded agent directory'') (\<lambda>_.
         sysCall faults ''set private forwarded agent directory permissions'')) [fa_stateDir f, fa_agentDir f]"

subsection \<open>Refreshing\<close>

definition RefreshFromEnvironment :: "faults \<Rightarrow> agentHost \<Rightarrow> ForwardedAgent \<Rightarrow> (string \<Rightarrow> string option) \<Rightarrow>
    (node disk, string, ForwardedAgentStatus) partial_prog" where
  "RefreshFromEnvironment faults host f lookupEnv =
     (let stop = (\<lambda>status. liftO (returnP status)) in
      if \<not> sshInvocation lookupEnv then stop ForwardedAgentUnavailable
      else case lookupEnv ''SSH_AUTH_SOCK'' of
          None \<Rightarrow> stop ForwardedAgentUnavailable
        | Some target \<Rightarrow>
            if trim_space target = [] then stop ForwardedAgentUnavailable
            else case path_abs (ah_workdir host) target of
                Inl _ \<Rightarrow> stop ForwardedAgentInvalid
              | Inr targetPath \<Rightarrow>
                  if targetPath = fa_socketPath f then stop ForwardedAgentInvalid
                  else
                    tryO (symlinkChainReferences faults host targetPath (fa_socketPath f)) (\<lambda>references.
                      if references \<noteq> Inr False then stop ForwardedAgentInvalid
                      else
                        tryO (liftO (bindP (sysCall faults ''stat'') (\<lambda>_ d. (ah_stat host d targetPath, d)))) (\<lambda>info.
                          if info \<noteq> Inr SocketFile then stop ForwardedAgentInvalid
                          else
                            liftO (bindP (ensurePrivateDirectories faults f) (\<lambda>_.
                              bindP (replaceSymlink faults host targetPath (fa_socketPath f)) (\<lambda>_.
                                returnP ForwardedAgentAvailable))))))"

subsection \<open>Last elements of paths\<close>

definition plain_name :: "string \<Rightarrow> bool" where
  "plain_name x \<longleftrightarrow> x \<noteq> [] \<and> CHR ''/'' \<notin> set x \<and> x \<noteq> ''.'' \<and> x \<noteq> ''..''"

lemma trim_slash: "x \<noteq> [] \<Longrightarrow> CHR ''/'' \<notin> set x \<Longrightarrow> trim_right_set (p @ x) [CHR ''/''] = p @ x"
  by (cases x rule: rev_cases) (auto simp: trim_right_set_def)

lemma last_element:
  assumes "x \<noteq> []" "CHR ''/'' \<notin> set x"
  shows "path_base (d @ CHR ''/'' # x) = x" "path_base x = x"
proof -
  have t: "trim_right_set (d @ CHR ''/'' # x) [CHR ''/''] = d @ CHR ''/'' # x"
    using trim_slash [OF assms, of "d @ ''/''"] by simp
  have "takeWhile (\<lambda>c. c \<noteq> CHR ''/'') (rev x @ CHR ''/'' # rev d) = rev x"
    using assms(2) by (subst takeWhile_append2) auto
  then show "path_base (d @ CHR ''/'' # x) = x" by (simp add: path_base_def t Let_def)
  have t2: "takeWhile (\<lambda>c. c \<noteq> CHR ''/'') (rev x) = rev x" using assms(2) by (auto simp: takeWhile_eq_all_conv)
  show "path_base x = x" using trim_slash [OF assms, of "[]"] assms(1) by (simp add: path_base_def Let_def t2)
qed

lemma join_append_last: "xs \<noteq> [] \<Longrightarrow> join (xs @ [x]) sep = join xs sep @ sep @ x"
  by (induction xs sep rule: join.induct) auto

lemma split_snoc:
  assumes "c \<notin> set x"
  shows "split (d @ c # x) c = split d c @ [x]"
proof -
  have "join (split d c @ [x]) [c] = d @ c # x" by (simp add: join_append_last join_split)
  moreover have "split (join (split d c @ [x]) [c]) c = split d c @ [x]"
    using assms by (intro split_join) (auto dest: split_no_sep)
  ultimately show ?thesis by simp
qed

lemma base_of_clean:
  assumes "plain_name x"
  shows "path_base (path_clean (d @ CHR ''/'' # x)) = x"
proof -
  have x: "x \<noteq> []" "CHR ''/'' \<notin> set x" "x \<noteq> ''.''" "x \<noteq> ''..''" using assms by (auto simp: plain_name_def)
  define rooted where "rooted = has_prefix (d @ CHR ''/'' # x) ''/''"
  define cs where "cs = foldl (clean_step rooted) [] (split d CHR ''/'')"
  have "foldl (clean_step rooted) [] (split (d @ CHR ''/'' # x) CHR ''/'') = cs @ [x]"
    using x by (simp add: split_snoc cs_def) (simp add: clean_step_def)
  then have c: "path_clean (d @ CHR ''/'' # x) = (if rooted then ''/'' else []) @ join (cs @ [x]) ''/''"
    by (cases rooted) (simp_all add: path_clean_def Let_def flip: rooted_def)
  show ?thesis
  proof (cases "cs = []")
    case True
    then show ?thesis using c last_element(1) [OF x(1,2), of "[]"] last_element(2) [OF x(1,2)] by simp
  next
    case False
    then have "path_clean (d @ CHR ''/'' # x) = ((if rooted then ''/'' else []) @ join cs ''/'') @ CHR ''/'' # x"
      using c by (simp add: join_append_last)
    then show ?thesis using last_element(1) [OF x(1,2)] by metis
  qed
qed

lemma base_of_join: "plain_name x \<Longrightarrow> path_base (path_join [dir, x]) = x"
proof (cases "dir = []")
  case True
  assume "plain_name x"
  moreover have "path_clean x = x" if "plain_name x"
  proof -
    have "foldl (clean_step False) [] (split x CHR ''/'') = [x]"
      using that by (simp add: split_single plain_name_def clean_step_def)
    moreover have "\<not> has_prefix x ''/''" using that by (auto simp: plain_name_def has_prefix_iff)
    ultimately show ?thesis by (simp add: path_clean_def)
  qed
  ultimately show ?thesis using True last_element(2) by (auto simp: path_join_def plain_name_def)
next
  case False
  assume "plain_name x"
  then show ?thesis using False base_of_clean [of x dir] by (simp add: path_join_def)
qed

lemma place_base: "plain_name (path_base p) \<Longrightarrow> path_base (place host p) = path_base p"
  by (auto simp: place_def base_of_join split: sum.splits)

subsection \<open>The chain of links\<close>

text \<open>Resolving the path \<open>p\<close> passes through \<open>link\<close>, read off the disk.\<close>

inductive passesThrough :: "agentHost \<Rightarrow> (string, node) gomap \<Rightarrow> string \<Rightarrow> string \<Rightarrow> bool"
  for host :: agentHost and files :: "(string, node) gomap" and link :: string where
  at_link: "ah_evalSymlinks host (path_dir p) = Inr dir \<Longrightarrow> path_join [dir, path_base p] = link \<Longrightarrow>
     passesThrough host files link p"
| by_link: "ah_evalSymlinks host (path_dir p) = Inr dir \<Longrightarrow>
     map_of files (path_join [dir, path_base p]) = Some (SymbolicLink target) \<Longrightarrow>
     passesThrough host files link (linkTarget (path_join [dir, path_base p]) target) \<Longrightarrow> passesThrough host files link p"

code_pred passesThrough .

inductive_simps passesThrough_iff: "passesThrough host files link p"

lemma readFile_cases:
  "readFile faults missing failure name d = (r, d') \<Longrightarrow>
     dk_files d' = dk_files d \<and> (\<forall>c. r = Inr c \<longrightarrow> map_of (dk_files d) name = Some c)"
  by (auto simp: readFile_def sysCall_def bindP_apply split: if_splits option.splits)

lemma chainStep_cases:
  assumes "chainStep faults host link (path, visited) d = (r, d')"
  obtains (failed) e where "r = Inl e" "dk_files d' = dk_files d"
  | (hit) dir where "r = Inr (Done True)" "dk_files d' = dk_files d" "ah_evalSymlinks host (path_dir path) = Inr dir"
      "path_join [dir, path_base path] = link"
  | (miss) dir where "r = Inr (Done False)" "dk_files d' = dk_files d" "ah_evalSymlinks host (path_dir path) = Inr dir"
      "path_join [dir, path_base path] \<noteq> link" "\<nexists>t. map_of (dk_files d) (path_join [dir, path_base path]) = Some (SymbolicLink t)"
  | (again) dir target where "dk_files d' = dk_files d" "ah_evalSymlinks host (path_dir path) = Inr dir"
      "path_join [dir, path_base path] \<noteq> link" "path_join [dir, path_base path] \<notin> set visited"
      "map_of (dk_files d) (path_join [dir, path_base path]) = Some (SymbolicLink target)"
      "r = Inr (Again (linkTarget (path_join [dir, path_base path]) target, visited @ [path_join [dir, path_base path]]))"
  using assms
  by (auto simp: chainStep_def Let_def bindP_apply split: sum.splits if_splits prod.splits node.splits dest!: readFile_cases)

lemma chain_returns: "\<exists>r d'. symlinkChainReferences faults host path link d = Some (r, d')"
proof -
  define links where "links = {p. \<exists>t. map_of (dk_files d) p = Some (SymbolicLink t)}"
  have fin: "finite links"
    unfolding links_def by (rule finite_subset [OF _ finite_dom_map_of [of "dk_files d"]]) auto
  show ?thesis unfolding symlinkChainReferences_def
  proof (rule loop_returns [where I = "\<lambda>_ (e :: node disk). dk_files e = dk_files d" and m = "\<lambda>s _. card (links - set (snd s))"])
    fix s e s' e'
    assume i: "dk_files e = dk_files d"
      and step: "chainStep faults host (place host (path_clean link)) s e = (Inr (Again s'), e')"
    obtain p vis where s: "s = (p, vis)" by fastforce
    from step [unfolded s] show "dk_files e' = dk_files d \<and> card (links - set (snd s')) < card (links - set (snd s))"
    proof (cases rule: chainStep_cases)
      case (again dir target)
      let ?c = "path_join [dir, path_base p]"
      have "?c \<in> links - set vis" using again i by (auto simp: links_def)
      then have "links - set (snd s') \<subset> links - set (snd s)" using again s by auto
      then have "card (links - set (snd s')) < card (links - set (snd s))" using fin by (intro psubset_card_mono) auto
      then show ?thesis using again(1) i by simp
    qed simp_all
  qed simp
qed

lemma chain_answer:
  assumes "symlinkChainReferences faults host path link d = Some (Inr b, d')"
  shows "b \<longleftrightarrow> passesThrough host (dk_files d) (place host (path_clean link)) (path_clean path)"
proof -
  let ?l = "place host (path_clean link)" and ?P = "passesThrough host (dk_files d) (place host (path_clean link))"
  have "case (Inr b :: string + bool) of Inl _ \<Rightarrow> True | Inr b \<Rightarrow> b = ?P (path_clean path)"
  proof (rule loop_result [OF assms [unfolded symlinkChainReferences_def],
        where I = "\<lambda>s e. dk_files e = dk_files d \<and> ?P (fst s) = ?P (path_clean path)"])
    fix s e s' e'
    assume i: "dk_files e = dk_files d \<and> ?P (fst s) = ?P (path_clean path)"
      and step: "chainStep faults host ?l s e = (Inr (Again s'), e')"
    obtain p vis where s: "s = (p, vis)" by fastforce
    show "dk_files e' = dk_files d \<and> ?P (fst s') = ?P (path_clean path)"
      using step unfolding s
    proof (cases rule: chainStep_cases)
      case (again dir target)
      then have "?P p = ?P (fst s')" using i by (subst passesThrough_iff) auto
      then show ?thesis using again i s by simp
    qed simp_all
  next
    fix s e b' e'
    assume i: "dk_files e = dk_files d \<and> ?P (fst s) = ?P (path_clean path)"
      and step: "chainStep faults host ?l s e = (Inr (Done b'), e')"
    obtain p vis where s: "s = (p, vis)" by fastforce
    show "case (Inr b' :: string + bool) of Inl _ \<Rightarrow> True | Inr b \<Rightarrow> b = ?P (path_clean path)"
      using step unfolding s
    proof (cases rule: chainStep_cases)
      case (hit dir)
      then show ?thesis using i s by (auto intro: at_link)
    next
      case (miss dir)
      then have "\<not> ?P p" using i by (subst passesThrough_iff) auto
      then show ?thesis using miss i s by simp
    qed simp_all
  qed simp_all
  then show ?thesis by simp
qed

lemma chain_files:
  assumes "symlinkChainReferences faults host path link d = Some (r, d')"
  shows "dk_files d' = dk_files d"
  by (rule loop_result [OF assms [unfolded symlinkChainReferences_def], where I = "\<lambda>_ e. dk_files e = dk_files d"])
    (auto elim!: chainStep_cases)

subsection \<open>What a refresh does to the disk\<close>

text \<open>Apart from \<open>k\<close>, and the paths of \<open>T\<close>, the program leaves the disk as it is.\<close>

definition keeps :: "string set \<Rightarrow> 'a agent \<Rightarrow> bool" where
  "keeps T p \<longleftrightarrow> (\<forall>d k. k \<notin> T \<longrightarrow> map_of (dk_files (snd (p d))) k = map_of (dk_files d) k)"

lemma keepsD: "keeps T p \<Longrightarrow> p d = (r, d') \<Longrightarrow> k \<notin> T \<Longrightarrow> map_of (dk_files d') k = map_of (dk_files d) k"
  unfolding keeps_def by (metis snd_conv)

lemma keeps_bind: "keeps T p \<Longrightarrow> (\<And>x. keeps T (f x)) \<Longrightarrow> keeps T (bindP p f)"
  by (auto simp: keeps_def bindP_apply split: prod.splits sum.splits) (metis snd_conv)+

lemma keeps_try: "keeps T p \<Longrightarrow> (\<And>r. keeps T (f r)) \<Longrightarrow> keeps T (tryP p f)"
  by (auto simp: keeps_def tryP_apply split: prod.splits) (metis snd_conv)

lemma keeps_basic:
  "keeps T (returnP x)" "keeps T (failP e)" "keeps T (liftP r)" "keeps T (sysCall faults e)"
  "name \<in> T \<Longrightarrow> keeps T (removeFile faults missing failure name)"
  "name \<in> T \<Longrightarrow> keeps T (createTemp faults failure blank name)"
  "place host name \<in> T \<Longrightarrow> keeps T (makeSymlink faults host target name)"
  "old \<in> T \<Longrightarrow> new \<in> T \<Longrightarrow> keeps T (rename faults failure old new)"
  by (auto simp: keeps_def sysCall_def removeFile_def createTemp_def makeSymlink_def rename_def bindP_apply gm_simps
      split: option.splits)

lemmas keepsI = keeps_basic keeps_bind keeps_try

lemma keeps_directories: "keeps T (ensurePrivateDirectories faults f)"
  unfolding ensurePrivateDirectories_def by (simp add: keepsI)

text \<open>The temporary file has a name of its own.\<close>

definition temporary_digits :: "agentHost \<Rightarrow> bool" where
  "temporary_digits host \<longleftrightarrow> (\<forall>n. CHR ''/'' \<notin> set (ah_random host n))"

lemma temporary_place:
  assumes "CHR ''/'' \<notin> set (ah_random host n)" "path_base link = forwardedAgentSocket"
  shows "place host (temporaryName host link n) \<noteq> place host link"
proof -
  let ?name = "''.forwarded.sock-'' @ ah_random host n"
  have p: "plain_name ?name" using assms(1) by (simp add: plain_name_def)
  have "path_base (temporaryName host link n) = ?name"
    using last_element(1) [of ?name "path_dir link"] p by (simp add: temporaryName_def plain_name_def)
  then have "path_base (place host (temporaryName host link n)) = ?name" using place_base p by simp
  moreover have "path_base (place host link) = forwardedAgentSocket"
    using place_base [of link host] assms(2) by (simp add: plain_name_def forwardedAgentSocket_def)
  ultimately show ?thesis by (auto simp: forwardedAgentSocket_def)
qed

lemma socketPath_base: "NewForwardedAgent host stateDir = Inr f \<Longrightarrow> path_base (fa_socketPath f) = forwardedAgentSocket"
  by (auto simp: NewForwardedAgent_def Let_def base_of_join plain_name_def forwardedAgentSocket_def split: if_splits sum.splits)

text \<open>
  \<^verbatim>\<open>replaceSymlink\<close> either fails and leaves the link as it was, or the link is the new one; nothing but the link and the
  temporary name is touched.
\<close>

lemma replaceSymlink_effect:
  assumes run: "replaceSymlink faults host target link d = (r, d')"
    and other: "place host (temporaryName host link (dk_calls d)) \<noteq> place host link"
  shows "map_of (dk_files d') (place host link) =
     (case r of Inl _ \<Rightarrow> map_of (dk_files d) (place host link) | Inr _ \<Rightarrow> Some (SymbolicLink target))"
    and "k \<noteq> place host link \<Longrightarrow> k \<noteq> place host (temporaryName host link (dk_calls d)) \<Longrightarrow>
      map_of (dk_files d') k = map_of (dk_files d) k"
proof -
  let ?tp = "temporaryName host link (dk_calls d)" and ?l = "place host link"
  let ?t = "place host ?tp"
  show "map_of (dk_files d') ?l = (case r of Inl _ \<Rightarrow> map_of (dk_files d) ?l | Inr _ \<Rightarrow> Some (SymbolicLink target))"
    using run other
    by (auto simp: replaceSymlink_def replaceThrough_def Let_def bindP_apply tryP_apply createTemp_def sysCall_def removeFile_def removeAfter_def
        makeSymlink_def rename_def gm_simps split: if_splits option.splits prod.splits sum.splits)
  have "keeps {?t, ?l} (replaceThrough faults host ?tp target link)"
    unfolding replaceThrough_def Let_def removeAfter_def by (auto intro!: keepsI split: sum.split)
  then show "map_of (dk_files d') k = map_of (dk_files d) k" if "k \<noteq> ?l" "k \<noteq> ?t"
    using keepsD run that unfolding replaceSymlink_def by blast
qed

subsection \<open>Cleaning a path twice\<close>

definition cleaned :: "bool \<Rightarrow> string list \<Rightarrow> bool" where
  "cleaned rooted cs \<longleftrightarrow> (\<forall>x\<in>set cs. x \<noteq> [] \<and> x \<noteq> ''.'' \<and> CHR ''/'' \<notin> set x) \<and>
     ''..'' \<notin> set (if rooted then cs else dropWhile (\<lambda>x. x = ''..'') cs)"

lemma dropWhile_butlast: "set (dropWhile P (butlast xs)) \<subseteq> set (dropWhile P xs)"
  by (induction xs) (auto dest: in_set_butlastD)

lemma dropWhile_last: "x \<in> set xs \<Longrightarrow> \<not> P x \<Longrightarrow> last xs \<in> set (dropWhile P xs)"
  by (induction xs) auto

lemma cleaned_step: "cleaned rooted acc \<Longrightarrow> CHR ''/'' \<notin> set x \<Longrightarrow> cleaned rooted (clean_step rooted acc x)"
  using dropWhile_butlast [of "\<lambda>x. x = ''..''" acc] dropWhile_last [of _ acc "\<lambda>x. x = ''..''"]
  by (auto simp: cleaned_def clean_step_def dropWhile_append dest: in_set_butlastD split: if_splits)

lemma cleaned_foldl:
  "cleaned rooted acc \<Longrightarrow> (\<And>x. x \<in> set xs \<Longrightarrow> CHR ''/'' \<notin> set x) \<Longrightarrow> cleaned rooted (foldl (clean_step rooted) acc xs)"
  by (induction xs arbitrary: acc) (simp_all add: cleaned_step)

lemma clean_again: "cleaned rooted (acc @ xs) \<Longrightarrow> foldl (clean_step rooted) acc xs = acc @ xs"
proof (induction xs arbitrary: acc)
  case (Cons x xs)
  have x: "x \<noteq> []" "x \<noteq> ''.''" using Cons.prems by (auto simp: cleaned_def)
  have "clean_step rooted acc x = acc @ [x]"
  proof (cases "x = ''..''")
    case True
    then have "\<not> rooted" using Cons.prems by (auto simp: cleaned_def)
    moreover have "last acc = ''..''" if "acc \<noteq> []"
    proof (rule ccontr)
      assume "last acc \<noteq> ''..''"
      then have "dropWhile (\<lambda>x. x = ''..'') (acc @ x # xs) = dropWhile (\<lambda>x. x = ''..'') acc @ x # xs"
        using that by (intro dropWhile_append1 [of "last acc"]) auto
      then show False using Cons.prems True \<open>\<not> rooted\<close> by (simp add: cleaned_def)
    qed
    ultimately show ?thesis using True by (auto simp: clean_step_def)
  qed (use x in \<open>simp add: clean_step_def\<close>)
  then show ?case using Cons.IH [of "acc @ [x]"] Cons.prems by simp
qed simp

lemma path_clean_idem: "path_clean (path_clean p) = path_clean p"
proof -
  define rooted where "rooted = has_prefix p ''/''"
  define cs where "cs = foldl (clean_step rooted) [] (split p CHR ''/'')"
  have c: "cleaned rooted cs" unfolding cs_def by (rule cleaned_foldl) (auto simp: cleaned_def dest: split_no_sep)
  then have sep: "CHR ''/'' \<notin> set x" if "x \<in> set cs" for x using that by (simp add: cleaned_def)
  have again: "foldl (clean_step rooted) [] cs = cs" using clean_again [of rooted "[]" cs] c by simp
  have p: "path_clean p = (if rooted then ''/'' @ join cs ''/'' else if cs = [] then ''.'' else join cs ''/'')"
    by (cases rooted) (simp_all add: path_clean_def Let_def cs_def rooted_def)
  show ?thesis
  proof (cases "cs = []")
    case True
    moreover have "path_clean ''/'' = ''/''" "path_clean ''.'' = ''.''" by code_simp+
    ultimately show ?thesis using p by simp
  next
    case False
    have s: "split (join cs ''/'') CHR ''/'' = cs" using False sep by (intro split_join) auto
    obtain x xs where "cs = x # xs" using False by (cases cs) auto
    then have first: "\<not> has_prefix (join cs ''/'') ''/''"
      using c by (cases x; cases xs) (auto simp: cleaned_def has_prefix_def)
    show ?thesis
    proof (cases rooted)
      case True
      have "split (CHR ''/'' # join cs ''/'') CHR ''/'' = [] # cs" using split_append [of "CHR ''/''" "[]" "join cs ''/''"] s by simp
      then show ?thesis using True p again False by (simp add: path_clean_def Let_def has_prefix_def clean_step_def)
    next
      case False
      then show ?thesis using p s again first \<open>cs \<noteq> []\<close> by (simp add: path_clean_def Let_def)
    qed
  qed
qed

lemma path_join_clean: "path_clean (path_join [dir, x]) = path_join [dir, x] \<or> dir = [] \<and> x = []"
  by (auto simp: path_join_def path_clean_idem)

lemma socketPath_clean: "NewForwardedAgent host stateDir = Inr f \<Longrightarrow> path_clean (fa_socketPath f) = fa_socketPath f"
  using path_join_clean by (fastforce simp: NewForwardedAgent_def Let_def forwardedAgentSocket_def split: if_splits sum.splits)

lemma path_abs_clean: "path_abs wd p = Inr q \<Longrightarrow> p \<noteq> [] \<Longrightarrow> path_clean q = q"
  using path_join_clean by (fastforce simp: path_abs_def path_clean_idem result_simps split: if_splits)

subsection \<open>Refreshing\<close>

lemma refresh_returns: "\<exists>r d'. RefreshFromEnvironment faults host f lookupEnv d = Some (r, d')"
proof -
  have chain: "returns (symlinkChainReferences faults host path link)" for path link
    unfolding returns_def using chain_returns by blast
  have "returns (RefreshFromEnvironment faults host f lookupEnv)"
    unfolding RefreshFromEnvironment_def Let_def by (auto intro!: returnsI chain split: option.split sum.split)
  then show ?thesis by (simp add: returns_def)
qed

lemma retarget_cases:
  assumes run: "bindP (ensurePrivateDirectories faults f) (\<lambda>_. bindP (replaceSymlink faults host target link) (\<lambda>_.
      returnP ForwardedAgentAvailable)) d = (r, d')"
    and digits: "temporary_digits host" and base: "path_base link = forwardedAgentSocket"
  shows "if r = Inr ForwardedAgentAvailable then map_of (dk_files d') (place host link) = Some (SymbolicLink target)
    else map_of (dk_files d') (place host link) = map_of (dk_files d) (place host link)"
proof -
  obtain r1 d1 where e: "ensurePrivateDirectories faults f d = (r1, d1)" by fastforce
  have same: "map_of (dk_files d1) k = map_of (dk_files d) k" for k
    using keepsD [OF keeps_directories [of "{}"] e] by simp
  show ?thesis
  proof (cases r1)
    case (Inl err)
    then show ?thesis using run e same by (auto simp: bindP_apply)
  next
    case (Inr u)
    obtain r2 d2 where p: "replaceSymlink faults host target link d1 = (r2, d2)" by fastforce
    have "place host (temporaryName host link (dk_calls d1)) \<noteq> place host link"
      using digits base by (intro temporary_place) (auto simp: temporary_digits_def)
    from replaceSymlink_effect(1) [OF p this] show ?thesis
      using run e Inr p same by (cases r2) (auto simp: bindP_apply)
  qed
qed

lemma refresh_cases:
  assumes run: "RefreshFromEnvironment faults host f lookupEnv d = Some (r, d')"
    and f: "NewForwardedAgent host stateDir = Inr f" and digits: "temporary_digits host"
  defines "link \<equiv> place host (fa_socketPath f)"
  shows "r \<noteq> Inr ForwardedAgentAvailable \<and> map_of (dk_files d') link = map_of (dk_files d) link \<or>
    r = Inr ForwardedAgentAvailable \<and> (\<exists>source target d1. lookupEnv ''SSH_AUTH_SOCK'' = Some source \<and>
      path_abs (ah_workdir host) source = Inr target \<and> map_of (dk_files d') link = Some (SymbolicLink target) \<and>
      dk_files d1 = dk_files d \<and> ah_stat host d1 target = Inr SocketFile \<and>
      \<not> passesThrough host (dk_files d) link target)" (is "?stays \<or> ?moves")
proof (cases "sshInvocation lookupEnv \<and> (\<exists>source target. lookupEnv ''SSH_AUTH_SOCK'' = Some source \<and> trim_space source \<noteq> [] \<and>
    path_abs (ah_workdir host) source = Inr target \<and> target \<noteq> fa_socketPath f)")
  case False
  then have "?stays" using run
    by (auto simp: RefreshFromEnvironment_def Let_def liftO_def split: if_splits option.splits sum.splits)
  then show ?thesis ..
next
  case True
  then obtain source target where s: "sshInvocation lookupEnv" "lookupEnv ''SSH_AUTH_SOCK'' = Some source"
    "trim_space source \<noteq> []" "path_abs (ah_workdir host) source = Inr target" "target \<noteq> fa_socketPath f" by blast
  have "source \<noteq> []" using s(3) by (auto simp: trim_space_nil)
  then have clean: "path_clean target = target" "path_clean (fa_socketPath f) = fa_socketPath f"
    using path_abs_clean [OF s(4)] socketPath_clean [OF f] by auto
  obtain rc d1 where c: "symlinkChainReferences faults host target (fa_socketPath f) d = Some (rc, d1)"
    using chain_returns by blast
  have f1: "dk_files d1 = dk_files d" using chain_files [OF c] .
  obtain ri d2 where i: "bindP (sysCall faults ''stat'') (\<lambda>_ d. (ah_stat host d target, d)) d1 = (ri, d2)" by fastforce
  have f2: "dk_files d2 = dk_files d" "ri = Inr SocketFile \<Longrightarrow> ah_stat host d2 target = Inr SocketFile"
    using i f1 by (auto simp: bindP_apply sysCall_def split: if_splits)
  note unfolded = run [unfolded RefreshFromEnvironment_def Let_def] s c i
  show ?thesis
  proof (cases "rc = Inr False \<and> ri = Inr SocketFile")
    case False
    then have "?stays" using unfolded f1 f2 by (auto simp: tryO_def liftO_def split: if_splits)
    then show ?thesis ..
  next
    case True
    then have last: "bindP (ensurePrivateDirectories faults f) (\<lambda>_. bindP (replaceSymlink faults host target (fa_socketPath f)) (\<lambda>_.
        returnP ForwardedAgentAvailable)) d2 = (r, d')"
      using unfolded by (simp add: tryO_def liftO_def)
    have no_loop: "\<not> passesThrough host (dk_files d) link target"
      using chain_answer [OF c [unfolded conjunct1 [OF True]]] clean by (simp add: link_def)
    note out = retarget_cases [OF last digits socketPath_base [OF f], folded link_def]
    show ?thesis
    proof (cases "r = Inr ForwardedAgentAvailable")
      case r: True
      then have "?moves"
        using out s(2,4) f2(1) f2(2) [OF conjunct2 [OF True]] no_loop
        by (intro conjI exI [of _ source] exI [of _ target] exI [of _ d2]) simp_all
      then show ?thesis ..
    next
      case False
      then have "?stays" using out f2(1) by simp
      then show ?thesis ..
    qed
  qed
qed

subsection \<open>Properties\<close>

definition one_agent :: agentHost where
  "one_agent = \<lparr>ah_workdir = Inr ''/'', ah_evalSymlinks = Inr,
     ah_stat = (\<lambda>d p. case map_of (dk_files d) p of None \<Rightarrow> Inl ''no such file'' | Some n \<Rightarrow> Inr n), ah_random = (\<lambda>_. ''1'')\<rparr>"

definition agent_state :: ForwardedAgent where
  "agent_state = \<lparr>fa_stateDir = ''/s'', fa_agentDir = ''/s/agent'', fa_socketPath = ''/s/agent/forwarded.sock''\<rparr>"

text \<open>An agent's socket, and a link that leads back to the stable one.\<close>

definition agent_disk :: "node disk" where
  "agent_disk = \<lparr>dk_files = [(''/tmp/a'', SocketFile), (''/tmp/b'', SymbolicLink ''../s/agent/forwarded.sock''),
     (''/s/agent/forwarded.sock'', SymbolicLink ''/tmp/a'')], dk_calls = 0\<rparr>"

definition ssh_env :: "string \<Rightarrow> string \<Rightarrow> string option" where
  "ssh_env path name = (if name = ''SSH_TTY'' then Some ''/dev/pts/1'' else if name = ''SSH_AUTH_SOCK'' then Some path else None)"

lemma demo_agent: "NewForwardedAgent one_agent ''/s'' = Inr agent_state"
  by code_simp

lemma demo_steps:
  "chainStep (\<lambda>_. False) one_agent ''/s/agent/forwarded.sock'' (''/tmp/a'', []) agent_disk =
     (Inr (Done False), agent_disk\<lparr>dk_calls := 1\<rparr>)"
  "chainStep (\<lambda>_. False) one_agent ''/s/agent/forwarded.sock'' (''/tmp/b'', []) agent_disk =
     (Inr (Again (''/s/agent/forwarded.sock'', [''/tmp/b''])), agent_disk\<lparr>dk_calls := 2\<rparr>)"
  "chainStep (\<lambda>_. False) one_agent ''/s/agent/forwarded.sock'' (''/s/agent/forwarded.sock'', [''/tmp/b'']) (agent_disk\<lparr>dk_calls := 2\<rparr>) =
     (Inr (Done True), agent_disk\<lparr>dk_calls := 2\<rparr>)"
  by code_simp+

lemma demo_paths:
  "place one_agent (path_clean ''/s/agent/forwarded.sock'') = ''/s/agent/forwarded.sock''"
  "path_clean ''/tmp/a'' = ''/tmp/a''" "path_clean ''/tmp/b'' = ''/tmp/b''"
  "path_abs (Inr ''/'' :: string + string) ''/tmp/a'' = Inr ''/tmp/a''" "path_abs (Inr ''/'' :: string + string) ''/tmp/b'' = Inr ''/tmp/b''"
  by code_simp+

lemma demo_chains:
  "symlinkChainReferences (\<lambda>_. False) one_agent ''/tmp/a'' ''/s/agent/forwarded.sock'' agent_disk =
     Some (Inr False, agent_disk\<lparr>dk_calls := 1\<rparr>)"
  "symlinkChainReferences (\<lambda>_. False) one_agent ''/tmp/b'' ''/s/agent/forwarded.sock'' agent_disk =
     Some (Inr True, agent_disk\<lparr>dk_calls := 2\<rparr>)"
  by (simp_all add: symlinkChainReferences_def demo_paths loopP.simps demo_steps)

lemma demo_env:
  "sshInvocation (ssh_env ''/tmp/a'')" "sshInvocation (ssh_env ''/tmp/b'')"
  "ssh_env path ''SSH_AUTH_SOCK'' = Some path" "trim_space ''/tmp/a'' = ''/tmp/a''" "trim_space ''/tmp/b'' = ''/tmp/b''"
  by (code_simp, code_simp, simp add: ssh_env_def, code_simp+)

lemma demo_retarget:
  "bindP (ensurePrivateDirectories (\<lambda>_. False) agent_state) (\<lambda>_.
     bindP (replaceSymlink (\<lambda>_. False) one_agent ''/tmp/a'' ''/s/agent/forwarded.sock'') (\<lambda>_. returnP ForwardedAgentAvailable))
     (agent_disk\<lparr>dk_calls := 2\<rparr>) =
   (Inr ForwardedAgentAvailable, agent_disk\<lparr>dk_calls := 12\<rparr>)"
  by code_simp

lemma demo_refresh:
  "RefreshFromEnvironment (\<lambda>_. False) one_agent agent_state (ssh_env ''/tmp/a'') agent_disk =
     Some (Inr ForwardedAgentAvailable, agent_disk\<lparr>dk_calls := 12\<rparr>)"
proof -
  have "ah_workdir one_agent = Inr ''/''" "fa_socketPath agent_state = ''/s/agent/forwarded.sock''"
    by (simp_all add: one_agent_def agent_state_def)
  moreover have "bindP (sysCall (\<lambda>_. False) ''stat'') (\<lambda>_ d. (ah_stat one_agent d ''/tmp/a'', d)) (agent_disk\<lparr>dk_calls := 1\<rparr>) =
    (Inr SocketFile, agent_disk\<lparr>dk_calls := 2\<rparr>)" by code_simp
  ultimately show ?thesis
    using demo_retarget by (simp add: RefreshFromEnvironment_def demo_env demo_paths demo_chains tryO_def liftO_def)
qed

lemma demo_refused:
  "RefreshFromEnvironment (\<lambda>_. False) one_agent agent_state (ssh_env ''/tmp/b'') agent_disk =
     Some (Inr ForwardedAgentInvalid, agent_disk\<lparr>dk_calls := 2\<rparr>)"
proof -
  have "ah_workdir one_agent = Inr ''/''" "fa_socketPath agent_state = ''/s/agent/forwarded.sock''"
    by (simp_all add: one_agent_def agent_state_def)
  then show ?thesis by (simp add: RefreshFromEnvironment_def demo_env demo_paths demo_chains tryO_def liftO_def)
qed

text \<open>
  C15. A refresh that does not report an available agent leaves the stable link as it was, every failure of a call included. One
  that does has made the stable link lead to the path in \<^verbatim>\<open>SSH_AUTH_SOCK\<close>, which is a socket and whose own links do not pass
  through the stable link, so it never becomes part of a cycle.
\<close>

theorem forwarded_link_refreshed:
  assumes "NewForwardedAgent host stateDir = Inr f" "temporary_digits host"
    and "RefreshFromEnvironment faults host f lookupEnv d = Some (r, d')"
  shows "r \<noteq> Inr ForwardedAgentAvailable \<and>
      map_of (dk_files d') (place host (fa_socketPath f)) = map_of (dk_files d) (place host (fa_socketPath f)) \<or>
    r = Inr ForwardedAgentAvailable \<and> (\<exists>source target d1. lookupEnv ''SSH_AUTH_SOCK'' = Some source \<and>
      path_abs (ah_workdir host) source = Inr target \<and>
      map_of (dk_files d') (place host (fa_socketPath f)) = Some (SymbolicLink target) \<and>
      dk_files d1 = dk_files d \<and> ah_stat host d1 target = Inr SocketFile \<and>
      \<not> passesThrough host (dk_files d) (place host (fa_socketPath f)) target)"
  by (rule refresh_cases [OF assms(3,1,2)])

theorem forwarded_link_refreshed_witness:
  "\<exists>target d1. map_of (dk_files (agent_disk\<lparr>dk_calls := 12\<rparr>)) (place one_agent (fa_socketPath agent_state)) =
      Some (SymbolicLink target) \<and> dk_files d1 = dk_files agent_disk \<and> ah_stat one_agent d1 target = Inr SocketFile \<and>
    \<not> passesThrough one_agent (dk_files agent_disk) (place one_agent (fa_socketPath agent_state)) target"
proof -
  have "temporary_digits one_agent" by (simp add: temporary_digits_def one_agent_def)
  from forwarded_link_refreshed [OF demo_agent this demo_refresh] show ?thesis by blast
qed

lemma refused_link_kept:
  "map_of (dk_files (agent_disk\<lparr>dk_calls := 2\<rparr>)) (place one_agent (fa_socketPath agent_state)) =
     map_of (dk_files agent_disk) (place one_agent (fa_socketPath agent_state))"
  using refresh_cases [OF demo_refused demo_agent] by simp

text \<open>
  C25. A refresh always returns, whatever links the disk holds: the loop over a chain of links ends, since it never visits a link
  twice.
\<close>

theorem forwarded_refresh_returns: "\<exists>r d'. RefreshFromEnvironment faults host f lookupEnv d = Some (r, d')"
  by (rule refresh_returns)

end
