(* ===== verification/Session_Lock.thy ===== *)
theory Session_Lock
  imports Session_Lifecycle Loops
begin

section \<open>The lock of a session\<close>

text \<open>
  \<^verbatim>\<open>internal/session/lock.go\<close>: the lock file of a session, taken with \<^verbatim>\<open>flock\<close> without waiting, every 25 ms until it is free or
  the context ends. \<open>lockTable\<close> is what the kernel keeps: the open descriptors with the paths they are open on, and who
  holds the lock of a path, one of these descriptors or another process. Before every call other processes may take free locks
  and give up their own (\<open>kn_others\<close>), and any call may fail. The loop is a partial function (\<open>loopP\<close>).

  The lemmas show that a lock that one descriptor holds is not given to a second one, that a failure leaves no descriptor open,
  that closing a lock frees it, and that the attempt ends when the context does.
\<close>

subsection \<open>The kernel\<close>

datatype owner = Mine int | Other
datatype otherEvent = Takes string | Drops string
datatype flockError = EWOULDBLOCK | EAGAIN | FlockError string

record lockTable =
  lt_open :: "(int, string) gomap"
  lt_owner :: "(string, owner) gomap"
  lt_next :: int
  lt_calls :: nat

record 'e kernel =
  kn_others :: "nat \<Rightarrow> otherEvent list"
  kn_fails :: "nat \<Rightarrow> 'e option"
  kn_done :: "nat \<Rightarrow> 'e option"

fun others_act :: "otherEvent \<Rightarrow> (string, owner) gomap \<Rightarrow> (string, owner) gomap" where
  "others_act (Takes path) owners = (if map_of owners path = None then gm_put path Other owners else owners)"
| "others_act (Drops path) owners = (if map_of owners path = Some Other then gm_del path owners else owners)"

definition kernelCall :: "'e kernel \<Rightarrow> lockTable \<Rightarrow> lockTable" where
  "kernelCall k t = t\<lparr>lt_owner := fold others_act (kn_others k (lt_calls t)) (lt_owner t), lt_calls := Suc (lt_calls t)\<rparr>"

definition failing :: "'e kernel \<Rightarrow> (lockTable, 'e, unit) lifecycle" where
  "failing k = (\<lambda>t. (case kn_fails k (lt_calls t) of None \<Rightarrow> Inr () | Some e \<Rightarrow> Inl (OfCaller e), kernelCall k t))"

definition openFile :: "'e kernel \<Rightarrow> string \<Rightarrow> (lockTable, 'e, int) lifecycle" where
  "openFile k path = bindP (failing k) (\<lambda>_ t.
     (Inr (lt_next t), t\<lparr>lt_open := gm_put (lt_next t) path (lt_open t), lt_next := lt_next t + 1\<rparr>))"

text \<open>Closing the descriptor gives its lock up, also when \<^verbatim>\<open>close\<close> reports an error.\<close>

definition closeFile :: "'e kernel \<Rightarrow> int \<Rightarrow> (lockTable, 'e, unit) lifecycle" where
  "closeFile k fd = (\<lambda>t. case failing k t of (r, t1) \<Rightarrow>
     (r, t1\<lparr>lt_open := gm_del fd (lt_open t1), lt_owner := gm_drop (\<lambda>_ o1. o1 = Mine fd) (lt_owner t1)\<rparr>))"

definition flockTry :: "'e kernel \<Rightarrow> int \<Rightarrow> (lockTable, flockError, unit) prog" where
  "flockTry k fd = (\<lambda>t. let t1 = kernelCall k t in
     case kn_fails k (lt_calls t) of
       Some _ \<Rightarrow> (Inl (FlockError ''flock''), t1)
     | None \<Rightarrow>
         (case map_of (lt_open t1) fd of
            None \<Rightarrow> (Inl (FlockError ''bad file descriptor''), t1)
          | Some path \<Rightarrow>
              if map_of (lt_owner t1) path = None \<or> map_of (lt_owner t1) path = Some (Mine fd)
              then (Inr (), t1\<lparr>lt_owner := gm_put path (Mine fd) (lt_owner t1)\<rparr>)
              else (Inl EWOULDBLOCK, t1)))"

definition flockRelease :: "'e kernel \<Rightarrow> int \<Rightarrow> (lockTable, 'e, unit) lifecycle" where
  "flockRelease k fd = bindP (failing k) (\<lambda>_ t. (Inr (), t\<lparr>lt_owner := gm_drop (\<lambda>_ o1. o1 = Mine fd) (lt_owner t)\<rparr>))"

text \<open>The \<^verbatim>\<open>select\<close> between the end of the context and the next tick.\<close>

definition awaitTick :: "'e kernel \<Rightarrow> lockTable \<Rightarrow> 'e option \<times> lockTable" where
  "awaitTick k t = (kn_done k (lt_calls t), kernelCall k t)"

subsection \<open>Taking and closing the lock\<close>

definition lockPath :: "string \<Rightarrow> string \<Rightarrow> string" where
  "lockPath locksDir sid = path_join [locksDir, sid @ ''.lock'']"

definition closeAfter :: "'e kernel \<Rightarrow> int \<Rightarrow> 'e sessionError \<Rightarrow> (lockTable, 'e, 'a) lifecycle" where
  "closeAfter k fd err = (\<lambda>t. case closeFile k fd t of (_, t1) \<Rightarrow> (Inl err, t1))"

definition flockRound :: "'e kernel \<Rightarrow> int \<Rightarrow> unit \<Rightarrow> (lockTable, 'e, (int, unit) round) lifecycle" where
  "flockRound k fd _ = (\<lambda>t.
     case flockTry k fd t of
       (Inr _, t1) \<Rightarrow> (Inr (Done fd), t1)
     | (Inl (FlockError message), t1) \<Rightarrow> closeAfter k fd (Wrapped ''acquire lifecycle lock'' (OfSystem message)) t1
     | (Inl _, t1) \<Rightarrow>
         (case awaitTick k t1 of
            (Some ended, t2) \<Rightarrow> closeAfter k fd (OfCaller ended) t2
          | (None, t2) \<Rightarrow> (Inr (Again ()), t2)))"

definition acquireSessionLock :: "'e kernel \<Rightarrow> string \<Rightarrow> string \<Rightarrow> (lockTable, 'e sessionError, int) partial_prog" where
  "acquireSessionLock k locksDir sid =
     bindO (liftO (mapErr (Wrapped ''open lifecycle lock'') (openFile k (lockPath locksDir sid)))) (\<lambda>fd.
     tryO (liftO (failing k)) (\<lambda>chmod.
       case chmod of
         Inl err \<Rightarrow> liftO (closeAfter k fd (Wrapped ''set lifecycle lock permissions'' err))
       | Inr _ \<Rightarrow> loopP (flockRound k fd) ()))"

text \<open>The receiver may be nil or hold no file.\<close>

definition sessionLock_Close :: "'e kernel \<Rightarrow> int option \<Rightarrow> (lockTable, 'e, unit) lifecycle" where
  "sessionLock_Close k taken =
     (case taken of
        None \<Rightarrow> returnP ()
      | Some fd \<Rightarrow>
          tryP (flockRelease k fd) (\<lambda>unlockErr.
          tryP (closeFile k fd) (\<lambda>closeErr.
            let errs = (case unlockErr of Inl e \<Rightarrow> [e] | Inr _ \<Rightarrow> []) @ (case closeErr of Inl e \<Rightarrow> [e] | Inr _ \<Rightarrow> []) in
            if errs = [] then returnP () else failP (Session_Lifecycle.Joined errs))))"

subsection \<open>Who holds what\<close>

definition held :: "lockTable \<Rightarrow> int \<Rightarrow> string \<Rightarrow> bool" where
  "held t fd path \<longleftrightarrow> map_of (lt_owner t) path = Some (Mine fd)"

text \<open>Locks are held by open descriptors, each on its own path.\<close>

definition locks_wf :: "lockTable \<Rightarrow> bool" where
  "locks_wf t \<longleftrightarrow> gm_wf (lt_open t) \<and> gm_wf (lt_owner t) \<and> (\<forall>fd path. held t fd path \<longrightarrow> map_of (lt_open t) fd = Some path) \<and>
     (\<forall>fd. map_of (lt_open t) fd \<noteq> None \<longrightarrow> fd < lt_next t)"

lemma locks_wfD:
  "locks_wf t \<Longrightarrow> gm_wf (lt_open t)" "locks_wf t \<Longrightarrow> gm_wf (lt_owner t)"
  "locks_wf t \<Longrightarrow> held t fd path \<Longrightarrow> map_of (lt_open t) fd = Some path"
  "locks_wf t \<Longrightarrow> map_of (lt_open t) (lt_next t) = None"
  by (auto simp: locks_wf_def)

lemma held_one: "held t fd path \<Longrightarrow> held t fd' path \<Longrightarrow> fd = fd'"
  by (simp add: held_def)

lemma others_Mine: "map_of (fold others_act es owners) path = Some (Mine fd) \<longleftrightarrow> map_of owners path = Some (Mine fd)"
proof (induction es arbitrary: owners)
  case (Cons e es)
  then show ?case by (cases e) (auto simp: gm_simps)
qed simp

lemma others_wf: "gm_wf owners \<Longrightarrow> gm_wf (fold others_act es owners)"
proof (induction es arbitrary: owners)
  case (Cons e es)
  then show ?case by (cases e) (auto intro: gm_wfI)
qed simp

lemma kernelCall_facts [simp]:
  "lt_open (kernelCall k t) = lt_open t" "lt_next (kernelCall k t) = lt_next t"
  "lt_calls (kernelCall k t) = Suc (lt_calls t)" "held (kernelCall k t) fd path \<longleftrightarrow> held t fd path"
  by (simp_all add: kernelCall_def held_def others_Mine)

lemma kernelCall_wf [simp]: "locks_wf t \<Longrightarrow> locks_wf (kernelCall k t)"
  using others_wf by (simp add: locks_wf_def) (simp add: kernelCall_def)

text \<open>Between two states of the kernel only the descriptor \<open>fd\<close> has changed what it holds.\<close>

definition same_holders :: "int \<Rightarrow> lockTable \<Rightarrow> lockTable \<Rightarrow> bool" where
  "same_holders fd t t' \<longleftrightarrow> (\<forall>h path. h \<noteq> fd \<longrightarrow> held t' h path = held t h path)"

lemma failing_result: "failing k t = (r, t') \<Longrightarrow> t' = kernelCall k t"
  by (simp add: failing_def)

lemma openFile_cases:
  assumes "openFile k path t = (r, t')" "locks_wf t"
  shows "locks_wf t' \<and> same_holders fd t t' \<and>
    (case r of Inl _ \<Rightarrow> lt_open t' = lt_open t
     | Inr new \<Rightarrow> new = lt_next t \<and> lt_open t' = lt_open t @ [(new, path)] \<and> (\<forall>p. \<not> held t' new p))"
proof -
  obtain t1 where t1: "t1 = kernelCall k t" by blast
  have w: "locks_wf t1" "lt_open t1 = lt_open t" "lt_next t1 = lt_next t" using t1 assms(2) by simp_all
  have fresh: "map_of (lt_open t) (lt_next t) = None" using locks_wfD(4) [OF assms(2)] .
  then have no: "\<not> held t1 (lt_next t) p" for p using locks_wfD(3) [OF w(1)] w by fastforce
  have "locks_wf (t1\<lparr>lt_open := gm_put (lt_next t) path (lt_open t1), lt_next := lt_next t1 + 1\<rparr>)"
    using w no fresh by (fastforce simp: locks_wf_def held_def gm_simps gm_wfI)
  then show ?thesis
    using assms(1) t1 w no gm_put_fresh [OF fresh]
    by (auto simp: openFile_def bindP_apply failing_def same_holders_def held_def split: option.splits)
      (simp_all add: held_def [symmetric])
qed

lemma closeFile_facts:
  assumes "closeFile k fd t = (r, t')" "locks_wf t"
  shows "locks_wf t'" "same_holders fd t t'" "lt_open t' = gm_del fd (lt_open t)" "\<not> held t' fd path"
proof -
  define t1 where "t1 = kernelCall k t"
  have w: "locks_wf t1" "lt_open t1 = lt_open t" using assms(2) by (simp_all add: t1_def)
  have t': "t' = t1\<lparr>lt_open := gm_del fd (lt_open t1), lt_owner := gm_drop (\<lambda>_ o1. o1 = Mine fd) (lt_owner t1)\<rparr>"
    using assms(1) by (auto simp: closeFile_def t1_def split: prod.splits dest!: failing_result)
  have h: "held t' h p \<longleftrightarrow> h \<noteq> fd \<and> held t1 h p" for h p
    using locks_wfD(2) [OF w(1)] by (auto simp: t' held_def gm_simps split: option.splits)
  show "same_holders fd t t'" using h by (simp add: same_holders_def t1_def)
  show "lt_open t' = gm_del fd (lt_open t)" using t' w by simp
  show "\<not> held t' fd path" using h by simp
  have "\<forall>h p. held t' h p \<longrightarrow> map_of (lt_open t') h = Some p"
    using h locks_wfD(3) [OF w(1)] by (auto simp: t' gm_simps)
  then show "locks_wf t'" using w(1) by (auto simp: locks_wf_def t' gm_simps gm_wfI split: if_splits)
qed

lemma flockTry_cases:
  assumes "flockTry k fd t = (r, t')" "locks_wf t"
  shows "locks_wf t' \<and> same_holders fd t t' \<and> lt_open t' = lt_open t \<and> lt_calls t' = Suc (lt_calls t) \<and>
    (case r of Inl _ \<Rightarrow> \<forall>p. held t' fd p = held t fd p
     | Inr _ \<Rightarrow> \<exists>path. map_of (lt_open t) fd = Some path \<and> held t' fd path \<and> (\<forall>h. held t h path \<longrightarrow> h = fd))"
proof -
  define t1 where "t1 = kernelCall k t"
  have w: "locks_wf t1" "lt_open t1 = lt_open t" using assms(2) by (simp_all add: t1_def)
  have h1: "held t1 h p = held t h p" for h p by (simp add: t1_def)
  show ?thesis
  proof (cases r)
    case (Inl e)
    then have "t' = t1" using assms(1) by (auto simp: flockTry_def Let_def t1_def split: option.splits if_splits)
    then show ?thesis using Inl w h1 by (simp add: same_holders_def) (simp add: t1_def)
  next
    case (Inr u)
    then obtain path where p: "map_of (lt_open t1) fd = Some path"
      "map_of (lt_owner t1) path = None \<or> map_of (lt_owner t1) path = Some (Mine fd)"
      "t' = t1\<lparr>lt_owner := gm_put path (Mine fd) (lt_owner t1)\<rparr>"
      using assms(1) by (auto simp: flockTry_def Let_def t1_def split: option.splits if_splits)
    have h: "held t' h q \<longleftrightarrow> (if q = path then h = fd else held t1 h q)" for h q
      by (auto simp: p(3) held_def gm_simps)
    have "h = fd" if "held t h path" for h using that p(2) h1 [of h path] by (auto simp: held_def)
    moreover have "same_holders fd t t'" using h h1 calculation by (auto simp: same_holders_def)
    moreover have "locks_wf t'"
      using w(1) p(1) h by (auto simp: locks_wf_def p(3) gm_simps gm_wfI split: if_splits)
    ultimately show ?thesis using Inr p w h by (auto simp: t1_def)
  qed
qed

subsection \<open>Taking a lock\<close>

lemma same_holders_trans: "same_holders fd t u \<Longrightarrow> same_holders fd u v \<Longrightarrow> same_holders fd t v"
  by (simp add: same_holders_def)

lemma same_holders_call: "same_holders fd t u \<Longrightarrow> same_holders fd t (kernelCall k u)"
  by (simp add: same_holders_def)

text \<open>Trying for the lock of \<open>path\<close> with the new descriptor \<open>fd\<close>, and the outcome of it, against the state \<open>t0\<close> before.\<close>

definition trying :: "lockTable \<Rightarrow> int \<Rightarrow> string \<Rightarrow> lockTable \<Rightarrow> bool" where
  "trying t0 fd path t \<longleftrightarrow> locks_wf t \<and> same_holders fd t0 t \<and> map_of (lt_open t0) fd = None \<and>
     lt_open t = lt_open t0 @ [(fd, path)] \<and> (\<forall>p. \<not> held t fd p)"

definition took :: "lockTable \<Rightarrow> int \<Rightarrow> string \<Rightarrow> 'x + int \<Rightarrow> lockTable \<Rightarrow> bool" where
  "took t0 fd path r t \<longleftrightarrow> locks_wf t \<and> same_holders fd t0 t \<and>
     (case r of Inl _ \<Rightarrow> lt_open t = lt_open t0
      | Inr got \<Rightarrow> got = fd \<and> held t fd path \<and> lt_open t = lt_open t0 @ [(fd, path)] \<and> (\<forall>h. held t0 h path \<longrightarrow> h = fd))"

lemma trying_call: "trying t0 fd path t \<Longrightarrow> trying t0 fd path (kernelCall k t)"
  by (simp add: trying_def same_holders_call)

lemma closeAfter_took:
  assumes "closeAfter k fd err t = (r, t')" "trying t0 fd path t"
  shows "took t0 fd path (r :: 'e sessionError + int) t'"
proof -
  obtain r1 where c: "closeFile k fd t = (r1, t')" and r: "r = Inl err"
    using assms(1) by (auto simp: closeAfter_def split: prod.splits)
  have wf: "locks_wf t" and t: "same_holders fd t0 t" "map_of (lt_open t0) fd = None" "lt_open t = lt_open t0 @ [(fd, path)]"
    using assms(2) by (auto simp: trying_def)
  note f = closeFile_facts [OF c wf]
  have "lt_open t' = lt_open t0"
    using f(3) t(3) gm_del_absent [OF t(2)] by (simp add: gm_del_def)
  then show ?thesis using f(1,2) t(1) r by (auto simp: took_def intro: same_holders_trans)
qed

lemma flockRound_cases:
  assumes "flockRound k fd u t = (r, t')" "trying t0 fd path t"
  shows "case r of Inl e \<Rightarrow> took t0 fd path (Inl e :: 'e sessionError + int) t'
    | Inr (Done x) \<Rightarrow> took t0 fd path (Inr x :: 'e sessionError + int) t'
    | Inr (Again _) \<Rightarrow> trying t0 fd path t' \<and> kn_done k (Suc (lt_calls t)) = None \<and> lt_calls t < lt_calls t'"
proof -
  obtain r1 t1 where f: "flockTry k fd t = (r1, t1)" by fastforce
  have wf: "locks_wf t" using assms(2) by (simp add: trying_def)
  note c = flockTry_cases [OF f wf]
  show ?thesis
  proof (cases r1)
    case (Inr u)
    then have "r = Inr (Done fd)" "t' = t1" using assms(1) f by (auto simp: flockRound_def)
    moreover obtain p where p: "map_of (lt_open t) fd = Some p" "held t1 fd p" "\<And>h. held t h p \<Longrightarrow> h = fd"
      using c Inr by auto
    have "p = path" using p(1) assms(2) by (auto simp: trying_def)
    then have "h = fd" if "held t0 h path" for h
      using p(3) [of h] that assms(2) by (cases "h = fd") (auto simp: trying_def same_holders_def)
    then have "took t0 fd path (Inr fd :: 'e sessionError + int) t1"
      using c assms(2) \<open>p = path\<close> p(2) by (auto simp: took_def trying_def intro: same_holders_trans)
    ultimately show ?thesis by simp
  next
    case (Inl e)
    have t1: "trying t0 fd path t1" "lt_calls t1 = Suc (lt_calls t)"
      using c Inl assms(2) by (auto simp: trying_def intro: same_holders_trans)
    show ?thesis
    proof (cases "\<exists>err u. closeAfter k fd err u = (r, t') \<and> trying t0 fd path u")
      case True
      then obtain err v where a: "closeAfter k fd err v = (r, t')" "trying t0 fd path v" by blast
      have "r = Inl err" using a(1) by (simp add: closeAfter_def split: prod.splits)
      then show ?thesis
        using closeAfter_took [of k fd err v "Inl err" t' t0 path] a by (simp add: closeAfter_def split: prod.splits)
    next
      case False
      then have "r = Inr (Again ())" "t' = kernelCall k t1" "kn_done k (lt_calls t1) = None"
        using assms(1) f Inl t1 trying_call [OF t1(1), of k]
        by (auto simp: flockRound_def awaitTick_def split: flockError.splits option.splits prod.splits)
      then show ?thesis using t1 trying_call [OF t1(1), of k] by simp
    qed
  qed
qed

lemma acquire_took:
  assumes "acquireSessionLock k locksDir sid t = Some (r, t')" "locks_wf t"
  shows "took t (lt_next t) (lockPath locksDir sid) r t'"
proof -
  let ?path = "lockPath locksDir sid" and ?fd = "lt_next t"
  obtain r1 t1 where o: "openFile k ?path t = (r1, t1)" by fastforce
  note c = openFile_cases [OF o assms(2), of ?fd]
  show ?thesis
  proof (cases r1)
    case (Inl e)
    then show ?thesis
      using assms(1) o c by (auto simp: acquireSessionLock_def bindO_def liftO_def mapErr_def took_def)
  next
    case (Inr fd)
    then have fd: "fd = ?fd" "trying t ?fd ?path t1"
      using c locks_wfD(4) [OF assms(2)] by (auto simp: trying_def)
    obtain r2 t2 where ch: "failing k t1 = (r2, t2)" by fastforce
    have t2: "trying t ?fd ?path t2" using trying_call [OF fd(2)] failing_result [OF ch] by simp
    show ?thesis
    proof (cases r2)
      case (Inl e)
      then have "closeAfter k ?fd (Wrapped ''set lifecycle lock permissions'' e) t2 = (r, t')"
        using assms(1) o Inr fd ch by (simp add: acquireSessionLock_def bindO_def tryO_def liftO_def mapErr_def)
      then show ?thesis by (rule closeAfter_took [OF _ t2])
    next
      case (Inr u)
      then have loop: "loopP (flockRound k ?fd) () t2 = Some (r, t')"
        using assms(1) o \<open>r1 = Inr fd\<close> fd ch by (simp add: acquireSessionLock_def bindO_def tryO_def liftO_def mapErr_def)
      show ?thesis
        by (rule loop_result [OF loop, where I = "\<lambda>_. trying t ?fd ?path"])
          (use t2 flockRound_cases in \<open>force split: sum.splits\<close>)+
    qed
  qed
qed

text \<open>An attempt that fails, on whichever call, leaves no descriptor open.\<close>

lemma acquire_no_leak:
  "acquireSessionLock k locksDir sid t = Some (Inl err, t') \<Longrightarrow> locks_wf t \<Longrightarrow> lt_open t' = lt_open t"
  using acquire_took by (fastforce simp: took_def)

text \<open>The attempt ends when the context does.\<close>

lemma flockRound_again:
  assumes "flockRound k fd s t = (Inr (Again s'), t')"
  shows "kn_done k (Suc (lt_calls t)) = None \<and> lt_calls t < lt_calls t'"
proof -
  obtain r1 t1 where f: "flockTry k fd t = (r1, t1)" by fastforce
  then have "lt_calls t1 = Suc (lt_calls t)"
    by (auto simp: flockTry_def Let_def split: option.splits if_splits)
  then show ?thesis using assms f
    by (cases r1) (auto simp: flockRound_def awaitTick_def closeAfter_def
        split: flockError.splits option.splits prod.splits)
qed

lemma acquire_returns:
  assumes "\<And>n. deadline \<le> n \<Longrightarrow> kn_done k n \<noteq> None"
  shows "\<exists>r t'. acquireSessionLock k locksDir sid t = Some (r, t')"
proof -
  have loop: "returns (loopP (flockRound k fd) s)" for fd s
    unfolding returns_def
  proof
    fix u
    show "\<exists>r t'. loopP (flockRound k fd) s u = Some (r, t')"
    proof (rule loop_returns [where I = "\<lambda>_ _. True" and m = "\<lambda>_ v. deadline - lt_calls v"])
      fix s v s' v'
      assume "flockRound k fd s v = (Inr (Again s'), v')"
      from flockRound_again [OF this] have "\<not> deadline \<le> Suc (lt_calls v)" "lt_calls v < lt_calls v'"
        using assms [of "Suc (lt_calls v)"] by auto
      then show "True \<and> deadline - lt_calls v' < deadline - lt_calls v" by simp
    qed simp
  qed
  have "returns (acquireSessionLock k locksDir sid)"
    unfolding acquireSessionLock_def by (auto intro!: returnsI loop split: sum.split)
  then show ?thesis by (simp add: returns_def)
qed

lemma acquire_keeps:
  assumes "acquireSessionLock k locksDir sid t = Some (r, t')" "locks_wf t" "held t h path"
  shows "held t' h path"
proof -
  have "h \<noteq> lt_next t" using locks_wfD(3,4) [OF assms(2)] assms(3) by fastforce
  then show ?thesis using acquire_took [OF assms(1,2)] assms(3) by (auto simp: took_def same_holders_def)
qed

lemma acquire_exclusive:
  assumes "acquireSessionLock k locksDir sid t = Some (r, t')" "locks_wf t" "held t h (lockPath locksDir sid)"
  shows "isl r"
proof -
  have "h \<noteq> lt_next t" using locks_wfD(3,4) [OF assms(2)] assms(3) by fastforce
  then show ?thesis using acquire_took [OF assms(1,2)] assms(3) by (cases r) (auto simp: took_def)
qed

subsection \<open>Closing a lock\<close>

lemma flockRelease_facts:
  assumes "flockRelease k fd t = (r, t')" "locks_wf t"
  shows "locks_wf t'" "same_holders fd t t'" "lt_open t' = lt_open t"
proof -
  define t1 where "t1 = kernelCall k t"
  have w: "locks_wf t1" "same_holders fd t t1" "lt_open t1 = lt_open t" using assms(2) by (simp_all add: t1_def same_holders_def)
  define t2 where "t2 = t1\<lparr>lt_owner := gm_drop (\<lambda>_ o1. o1 = Mine fd) (lt_owner t1)\<rparr>"
  have h: "held t2 h p \<longleftrightarrow> h \<noteq> fd \<and> held t1 h p" for h p
    using locks_wfD(2) [OF w(1)] by (auto simp: t2_def held_def gm_simps split: option.splits)
  then have "locks_wf t2" using w(1) by (auto simp: locks_wf_def t2_def gm_wfI)
  moreover have "same_holders fd t t2" using w(2) h by (simp add: same_holders_def)
  moreover have "t' = t1 \<or> t' = t2"
    using assms(1) by (auto simp: flockRelease_def bindP_apply t1_def t2_def split: prod.splits sum.splits dest!: failing_result)
  ultimately show "locks_wf t'" "same_holders fd t t'" "lt_open t' = lt_open t" using w by (auto simp: t2_def)
qed

text \<open>Whatever fails, closing frees the lock and touches no other.\<close>

lemma Close_frees:
  assumes "sessionLock_Close k (Some fd) t = (r, t')" "locks_wf t"
  shows "locks_wf t' \<and> same_holders fd t t' \<and> lt_open t' = gm_del fd (lt_open t) \<and> \<not> held t' fd path"
proof -
  obtain r1 t1 where u: "flockRelease k fd t = (r1, t1)" by fastforce
  note f1 = flockRelease_facts [OF u assms(2)]
  obtain r2 t2 where c: "closeFile k fd t1 = (r2, t2)" by fastforce
  note f2 = closeFile_facts [OF c f1(1)]
  have "t' = t2"
    using assms(1) u c by (auto simp: sessionLock_Close_def tryP_apply Let_def returnP_def failP_def split: if_splits)
  then show ?thesis using f1 f2 by (auto intro: same_holders_trans)
qed

text \<open>A lock that was taken and closed leaves the descriptors and the holders of all locks as they were.\<close>

lemma take_and_close:
  assumes "acquireSessionLock k locksDir sid t = Some (Inr fd, t1)" "locks_wf t" "sessionLock_Close k (Some fd) t1 = (r, t')"
  shows "lt_open t' = lt_open t \<and> held t' h path = held t h path"
proof -
  have t1: "locks_wf t1" "same_holders fd t t1" "lt_open t1 = lt_open t @ [(fd, lockPath locksDir sid)]" "fd = lt_next t"
    using acquire_took [OF assms(1,2)] by (auto simp: took_def)
  have fresh: "map_of (lt_open t) fd = None" using locks_wfD(4) [OF assms(2)] t1(4) by simp
  note c = Close_frees [OF assms(3) t1(1)]
  have "lt_open t' = lt_open t" using c t1(3) gm_del_absent [OF fresh] by (simp add: gm_del_def)
  moreover have "held t' h path = held t h path"
  proof (cases "h = fd")
    case True
    then have "\<not> held t h path" using locks_wfD(3) [OF assms(2)] fresh by fastforce
    then show ?thesis using Close_frees [OF assms(3) t1(1), of path] True by simp
  next
    case False
    then show ?thesis using c t1(2) by (simp add: same_holders_def)
  qed
  ultimately show ?thesis by simp
qed

subsection \<open>Properties\<close>

definition busy_kernel :: "unit kernel" where
  "busy_kernel = \<lparr>kn_others = (\<lambda>_. []), kn_fails = (\<lambda>_. None), kn_done = (\<lambda>n. if 9 \<le> n then Some () else None)\<rparr>"

definition busy_table :: lockTable where
  "busy_table = \<lparr>lt_open = [(3, ''/s/locks/a.lock'')], lt_owner = [(''/s/locks/a.lock'', Mine 3)], lt_next = 4, lt_calls = 0\<rparr>"

lemma busy_wf: "locks_wf busy_table"
  by (auto simp: locks_wf_def busy_table_def held_def gm_wf_def)

lemma busy_held: "held busy_table 3 (lockPath ''/s/locks'' ''a'')"
  by code_simp

text \<open>
  C13. While a descriptor of this process holds the lock of a session, an attempt of the same process to take it again fails, however long
  it tries, whatever calls fail, and whatever locks other processes take and give up meanwhile. The failed attempt leaves
  the lock with its holder and no descriptor open. That another process cannot take a lock that is held is the rule of
  \<^verbatim>\<open>flock\<close>, part of the model of the kernel.
\<close>

theorem session_lock_exclusive:
  assumes "locks_wf t" "held t h (lockPath locksDir sid)" "acquireSessionLock k locksDir sid t = Some (r, t')"
  shows "isl r \<and> held t' h (lockPath locksDir sid) \<and> lt_open t' = lt_open t"
proof -
  have "isl r" using acquire_exclusive [OF assms(3,1,2)] .
  moreover obtain err where "r = Inl err" using calculation by (cases r) auto
  ultimately show ?thesis using acquire_keeps [OF assms(3,1,2)] acquire_no_leak assms(1,3) by blast
qed

theorem session_lock_exclusive_witness:
  "\<exists>r t'. acquireSessionLock busy_kernel ''/s/locks'' ''a'' busy_table = Some (r, t') \<and> isl r"
proof -
  obtain r t' where "acquireSessionLock busy_kernel ''/s/locks'' ''a'' busy_table = Some (r, t')"
    using acquire_returns [of 9 busy_kernel "''/s/locks''" "''a''" busy_table] by (auto simp: busy_kernel_def)
  then show ?thesis using session_lock_exclusive [OF busy_wf busy_held] by blast
qed

end
