(* ===== verification/Certificates.thy ===== *)
theory Certificates
  imports Tmux_Binary
begin

section \<open>The TLS certificate\<close>

text \<open>
  \<^verbatim>\<open>internal/cert/cert.go\<close>: the self-signed certificate of the server, the names and addresses it is made for, and the files
  that hold it and its key. The cryptography of the standard library is \<open>certHost\<close>, as is what the machine says of
  its names and addresses; \<^verbatim>\<open>net.ParseIP\<close> and the comparisons of \<^verbatim>\<open>net.IP\<close> are modelled. A file is its content and its
  permissions; any call may fail, and a failed write may leave the file empty.

  The lemmas show that the hosts of a certificate are distinct and none is unspecified, that a pair that loads is kept, that
  a pair that was made loads, and what an interrupted creation leaves behind.
\<close>

subsection \<open>IP addresses\<close>

definition byte_of :: "nat \<Rightarrow> char" where
  "byte_of n = char_of n"

definition v4InV6Prefix :: string where
  "v4InV6Prefix = replicate 10 (byte_of 0) @ replicate 2 (byte_of 255)"

definition to4 :: "string \<Rightarrow> string" where
  "to4 ip = (if length ip = 4 then ip else if length ip = 16 \<and> take 12 ip = v4InV6Prefix then drop 12 ip else [])"

definition ip_equal :: "string \<Rightarrow> string \<Rightarrow> bool" where
  "ip_equal a b \<longleftrightarrow>
     (if length a = length b then a = b
      else if length a = 4 \<and> length b = 16 then take 12 b = v4InV6Prefix \<and> a = drop 12 b
      else if length a = 16 \<and> length b = 4 then take 12 a = v4InV6Prefix \<and> drop 12 a = b
      else False)"

definition IPv4zero :: string where "IPv4zero = v4InV6Prefix @ replicate 4 (byte_of 0)"
definition IPv6unspecified :: string where "IPv6unspecified = replicate 16 (byte_of 0)"
definition IPv6loopback :: string where "IPv6loopback = replicate 15 (byte_of 0) @ [byte_of 1]"

definition IsUnspecified :: "string \<Rightarrow> bool" where
  "IsUnspecified ip \<longleftrightarrow> ip_equal ip IPv4zero \<or> ip_equal ip IPv6unspecified"

definition IsLoopback :: "string \<Rightarrow> bool" where
  "IsLoopback ip \<longleftrightarrow> (if to4 ip \<noteq> [] then hd (to4 ip) = byte_of 127 else ip_equal ip IPv6loopback)"

definition parse_octet :: "string \<Rightarrow> char option" where
  "parse_octet field =
     (let n = foldl (\<lambda>a c. 10 * a + (byte c - 48)) 0 field in
      if field = [] \<or> \<not> list_all is_digit field \<or> length field > 1 \<and> hd field = CHR ''0'' \<or> n > 255 then None
      else Some (byte_of n))"

definition parse_ip4 :: "string \<Rightarrow> string option" where
  "parse_ip4 s =
     (let octets = map parse_octet (split s CHR ''.'') in
      if length octets = 4 \<and> None \<notin> set octets then Some (map the octets) else None)"

definition hex_value :: "string \<Rightarrow> nat" where
  "hex_value s = foldl (\<lambda>acc c. 16 * acc + (case hexval c of None \<Rightarrow> 0 | Some v \<Rightarrow> v)) 0 s"

text \<open>The fields of an IPv6 address after \<open>ip\<close>; \<open>gap\<close> is where \<^verbatim>\<open>::\<close> was.\<close>

function ip6_fields :: "string \<Rightarrow> nat option \<Rightarrow> string \<Rightarrow> (string \<times> nat option) option" where
  "ip6_fields s gap ip =
     (if length ip \<ge> 16 then (if s = [] then Some (ip, gap) else None)
      else
        let digits = takeWhile (\<lambda>c. hexval c \<noteq> None) s; rest = dropWhile (\<lambda>c. hexval c \<noteq> None) s;
            ip' = ip @ [byte_of (hex_value digits div 256), byte_of (hex_value digits mod 256)] in
        if digits = [] \<or> length digits > 4 then None
        else if rest \<noteq> [] \<and> hd rest = CHR ''.'' then
          (if gap = None \<and> length ip \<noteq> 12 \<or> length ip + 4 > 16 then None
           else map_option (\<lambda>octets. (ip @ octets, gap)) (parse_ip4 s))
        else if rest = [] then Some (ip', gap)
        else if hd rest \<noteq> CHR '':'' \<or> length rest = 1 then None
        else if hd (tl rest) = CHR '':'' then
          (if gap \<noteq> None then None
           else if tl (tl rest) = [] then Some (ip', Some (length ip'))
           else ip6_fields (tl (tl rest)) (Some (length ip')) ip')
        else ip6_fields (tl rest) gap ip')"
  by pat_completeness auto
termination by (relation "measure (\<lambda>(s, gap, ip). 16 - length ip)") auto

declare ip6_fields.simps [simp del]

definition parse_ip6 :: "string \<Rightarrow> string option" where
  "parse_ip6 s =
     (let fields = (if s = ''::'' then Some ([], Some 0)
          else if has_prefix s ''::'' then ip6_fields (drop 2 s) (Some 0) [] else ip6_fields s None []) in
      case fields of
        None \<Rightarrow> None
      | Some (ip, None) \<Rightarrow> if length ip = 16 then Some ip else None
      | Some (ip, Some gap) \<Rightarrow>
          if length ip < 16 then Some (take gap ip @ replicate (16 - length ip) (byte_of 0) @ drop gap ip) else None)"

text \<open>\<^verbatim>\<open>net.ParseIP\<close>: nil is the empty list; an address with a zone is refused.\<close>

definition ParseIP :: "string \<Rightarrow> string" where
  "ParseIP s =
     (case dropWhile (\<lambda>c. c \<noteq> CHR ''.'' \<and> c \<noteq> CHR '':'' \<and> c \<noteq> CHR ''%'') s of
        [] \<Rightarrow> []
      | c # _ \<Rightarrow>
          if c = CHR ''.'' then (case parse_ip4 s of None \<Rightarrow> [] | Some octets \<Rightarrow> v4InV6Prefix @ octets)
          else if c = CHR ''%'' \<or> CHR ''%'' \<in> set s then []
          else (case parse_ip6 s of None \<Rightarrow> [] | Some ip \<Rightarrow> ip))"


lemmas ip_eval = ParseIP_def parse_ip6_def has_prefix_def ip6_fields.simps hexval_def is_digit_def hex_value_def Let_def
  parse_ip4_def parse_octet_def

lemma ParseIP_examples:
  "ParseIP ''127.0.0.1'' = v4InV6Prefix @ map byte_of [127, 0, 0, 1]" "ParseIP ''1::2::3'' = []"
  "ParseIP ''01.2.3.4'' = []" "ParseIP ''1.2.3.256'' = []" "ParseIP ''fe80::1%eth0'' = []"
  by (simp_all add: ip_eval)

lemma ParseIP_loopback: "ParseIP ''::1'' = IPv6loopback"
proof -
  have "IPv6loopback = replicate 14 (byte_of 0) @ [byte_of 0, byte_of 1]"
    by (simp add: IPv6loopback_def numeral_eq_Suc)
  then show ?thesis by (simp add: ip_eval)
qed

subsection \<open>Hosts\<close>

record Hosts =
  ho_DNSNames :: "string list"
  ho_IPAddresses :: "string list"

text \<open>An address of an interface is an \<^verbatim>\<open>IPNet\<close>, an \<^verbatim>\<open>IPAddr\<close> or something else.\<close>

datatype interfaceAddr = IPNet string | IPAddr string | OtherAddr

definition addDNS :: "string \<Rightarrow> Hosts \<Rightarrow> Hosts" where
  "addDNS name0 h =
     (let name = trim_space name0 in
      if name = [] then h
      else if list_ex (\<lambda>existing. existing = name) (ho_DNSNames h) then h
      else h\<lparr>ho_DNSNames := ho_DNSNames h @ [name]\<rparr>)"

definition addIP :: "string \<Rightarrow> Hosts \<Rightarrow> Hosts" where
  "addIP ip h =
     (if ip = [] \<or> IsUnspecified ip then h
      else if list_ex (\<lambda>existing. ip_equal existing ip) (ho_IPAddresses h) then h
      else h\<lparr>ho_IPAddresses := ho_IPAddresses h @ [ip]\<rparr>)"

definition interfaceIPs :: "string + interfaceAddr list \<Rightarrow> string list" where
  "interfaceIPs interfaceAddrs =
     (case interfaceAddrs of
        Inl _ \<Rightarrow> []
      | Inr addrs \<Rightarrow>
          filter (\<lambda>ip. \<not> (ip = [] \<or> IsLoopback ip \<or> IsUnspecified ip))
            (map (\<lambda>addr. case addr of IPNet ip \<Rightarrow> ip | IPAddr ip \<Rightarrow> ip | OtherAddr \<Rightarrow> []) addrs))"

definition DefaultHosts :: "string + string \<Rightarrow> string + interfaceAddr list \<Rightarrow> string \<Rightarrow> Hosts" where
  "DefaultHosts hostname interfaceAddrs bindAddr =
     (let h1 = addDNS ''localhost'' \<lparr>ho_DNSNames = [], ho_IPAddresses = []\<rparr>;
          h2 = (case hostname of Inl _ \<Rightarrow> h1 | Inr name \<Rightarrow> addDNS name h1);
          h3 = addIP (ParseIP ''::1'') (addIP (ParseIP ''127.0.0.1'') h2);
          ip = ParseIP (trim_space bindAddr);
          h4 = (if ip \<noteq> [] \<and> \<not> IsUnspecified ip then addIP ip h3 else h3) in
      fold addIP (interfaceIPs interfaceAddrs) h4)"

subsection \<open>Files\<close>

record fileNode =
  fn_data :: string
  fn_mode :: nat

record certTemplate =
  tp_serial :: nat
  tp_commonName :: string
  tp_notBefore :: time
  tp_notAfter :: time
  tp_keyUsage :: string
  tp_extKeyUsage :: "string list"
  tp_basicConstraintsValid :: bool
  tp_DNSNames :: "string list"
  tp_IPAddresses :: "string list"

record 'k certHost =
  ct_hostname :: "string + string"
  ct_interfaceAddrs :: "string + interfaceAddr list"
  ct_generateKey :: "nat \<Rightarrow> string + 'k"
  ct_randomInt :: "nat \<Rightarrow> nat \<Rightarrow> string + nat"
  ct_createCertificate :: "certTemplate \<Rightarrow> 'k \<Rightarrow> string + string"
  ct_marshalKey :: "'k \<Rightarrow> string + string"
  ct_pem :: "string \<Rightarrow> string \<Rightarrow> string"
  ct_X509KeyPair :: "string \<Rightarrow> string \<Rightarrow> string + unit"

type_synonym 'a certs = "(fileNode disk, string, 'a) prog"

definition validity :: duration where
  "validity = 825 * 24 * (60 * minute)"

text \<open>
  \<^verbatim>\<open>os.WriteFile\<close>: the file is opened, and made with the permissions or emptied, and then written. A file that exists keeps its
  permissions.
\<close>

definition writeNode :: "faults \<Rightarrow> string \<Rightarrow> string \<Rightarrow> string \<Rightarrow> nat \<Rightarrow> unit certs" where
  "writeNode faults what path data mode =
     bindP (sysCall faults what) (\<lambda>_.
     bindP (diskUpdate (\<lambda>d. gm_put path \<lparr>fn_data = [],
         fn_mode = (case map_of (dk_files d) path of None \<Rightarrow> mode | Some node \<Rightarrow> fn_mode node)\<rparr> (dk_files d))) (\<lambda>_.
     bindP (sysCall faults what) (\<lambda>_.
     diskUpdate (\<lambda>d. gm_put path \<lparr>fn_data = data,
         fn_mode = (case map_of (dk_files d) path of None \<Rightarrow> mode | Some node \<Rightarrow> fn_mode node)\<rparr> (dk_files d)))))"

text \<open>Making the key and the certificate, with the random numbers of the call \<open>n\<close>, and writing them.\<close>

definition certificateTemplate :: "nat \<Rightarrow> Hosts \<Rightarrow> time \<Rightarrow> certTemplate" where
  "certificateTemplate serial hosts now =
     \<lparr>tp_serial = serial, tp_commonName = ''Control Agents'', tp_notBefore = now - 60 * minute,
      tp_notAfter = now + validity, tp_keyUsage = ''DigitalSignature'', tp_extKeyUsage = [''ServerAuth''],
      tp_basicConstraintsValid = True, tp_DNSNames = ho_DNSNames hosts, tp_IPAddresses = ho_IPAddresses hosts\<rparr>"

definition makePair :: "'k certHost \<Rightarrow> Hosts \<Rightarrow> time \<Rightarrow> nat \<Rightarrow> string + string \<times> string" where
  "makePair host hosts now n =
     bindR (ct_generateKey host n) (\<lambda>privateKey.
     bindR (ct_randomInt host n (2 ^ 128)) (\<lambda>serial.
     bindR (ct_createCertificate host (certificateTemplate serial hosts now) privateKey) (\<lambda>certDER.
     bindR (ct_marshalKey host privateKey) (\<lambda>keyDER.
       Inr (ct_pem host ''CERTIFICATE'' certDER, ct_pem host ''EC PRIVATE KEY'' keyDER)))))"

definition GenerateSelfSignedECC :: "faults \<Rightarrow> 'k certHost \<Rightarrow> string \<Rightarrow> string \<Rightarrow> Hosts \<Rightarrow> time \<Rightarrow> unit certs" where
  "GenerateSelfSignedECC faults host certFile keyFile hosts now =
     bindP (sysCall faults ''create cert directory'') (\<lambda>_.
     bindP (sysCall faults ''create key directory'') (\<lambda>_.
     bindP (\<lambda>d. (makePair host hosts now (dk_calls d), d)) (\<lambda>(certPEM, keyPEM).
     bindP (writeNode faults ''write certificate'' certFile certPEM 420) (\<lambda>_.
       writeNode faults ''write private key'' keyFile keyPEM 384))))"

definition tlsKeyPair :: "faults \<Rightarrow> 'k certHost \<Rightarrow> string \<Rightarrow> string \<Rightarrow> unit certs" where
  "tlsKeyPair faults host certFile keyFile =
     bindP (readFile faults ''no such file'' ''read certificate'' certFile) (\<lambda>certPEM.
     bindP (readFile faults ''no such file'' ''read key'' keyFile) (\<lambda>keyPEM.
       liftP (ct_X509KeyPair host (fn_data certPEM) (fn_data keyPEM))))"

definition EnsureSelfSignedECC :: "faults \<Rightarrow> 'k certHost \<Rightarrow> time \<Rightarrow> string \<Rightarrow> string \<Rightarrow> string \<Rightarrow> unit certs" where
  "EnsureSelfSignedECC faults host now certFile keyFile bindAddr =
     (let generate = GenerateSelfSignedECC faults host certFile keyFile
        (DefaultHosts (ct_hostname host) (ct_interfaceAddrs host) bindAddr) now in
      tryP (readFile faults ''no such file'' ''stat'' certFile) (\<lambda>certStat.
        case certStat of
          Inl _ \<Rightarrow> generate
        | Inr _ \<Rightarrow>
            tryP (readFile faults ''no such file'' ''stat'' keyFile) (\<lambda>keyStat.
              case keyStat of
                Inl _ \<Rightarrow> generate
              | Inr _ \<Rightarrow>
                  tryP (tlsKeyPair faults host certFile keyFile) (\<lambda>loaded.
                    case loaded of
                      Inl err \<Rightarrow> failP (''load TLS certificate: '' @ err)
                    | Inr _ \<Rightarrow> returnP ()))))"

subsection \<open>The hosts of a certificate\<close>

definition hosts_wf :: "Hosts \<Rightarrow> bool" where
  "hosts_wf h \<longleftrightarrow> distinct (ho_DNSNames h) \<and> [] \<notin> set (ho_DNSNames h) \<and>
     sorted_wrt (\<lambda>a b. \<not> ip_equal a b) (ho_IPAddresses h) \<and> (\<forall>ip\<in>set (ho_IPAddresses h). ip \<noteq> [] \<and> \<not> IsUnspecified ip)"

definition covers :: "Hosts \<Rightarrow> string \<Rightarrow> bool" where
  "covers h ip \<longleftrightarrow> (\<exists>a\<in>set (ho_IPAddresses h). ip_equal a ip)"

lemma ip_equal_refl [simp]: "ip_equal a a"
  by (simp add: ip_equal_def)

lemma addDNS_wf: "hosts_wf h \<Longrightarrow> hosts_wf (addDNS name h)"
  by (auto simp: hosts_wf_def addDNS_def Let_def list_ex_iff)

lemma addIP_wf: "hosts_wf h \<Longrightarrow> hosts_wf (addIP ip h)"
  by (auto simp: hosts_wf_def addIP_def list_ex_iff sorted_wrt_append)

lemma addIPs_wf: "hosts_wf h \<Longrightarrow> hosts_wf (fold addIP ips h)"
  by (induction ips arbitrary: h) (simp_all add: addIP_wf)

lemma addIP_covers: "covers h a \<Longrightarrow> covers (addIP ip h) a" "ip \<noteq> [] \<Longrightarrow> \<not> IsUnspecified ip \<Longrightarrow> covers (addIP ip h) ip"
  by (auto simp: covers_def addIP_def list_ex_iff)

lemma addIPs_covers: "covers h a \<Longrightarrow> covers (fold addIP ips h) a"
  by (induction ips arbitrary: h) (simp_all add: addIP_covers)

lemma addIPs_all: "ip \<in> set ips \<Longrightarrow> ip \<noteq> [] \<Longrightarrow> \<not> IsUnspecified ip \<Longrightarrow> covers (fold addIP ips h) ip"
  by (induction ips arbitrary: h) (auto simp: addIP_covers(2) addIPs_covers)

text \<open>
  No name is blank or twice in the list, no address is missing, unspecified or, in any of its notations, twice in the list.
\<close>

lemma DefaultHosts_wf: "hosts_wf (DefaultHosts hostname interfaceAddrs bindAddr)"
  by (auto simp: DefaultHosts_def Let_def hosts_wf_def [of "\<lparr>ho_DNSNames = [], ho_IPAddresses = []\<rparr>"]
      intro!: addIPs_wf addIP_wf addDNS_wf split: sum.split)

lemma DefaultHosts_bind:
  "ParseIP (trim_space bindAddr) \<noteq> [] \<Longrightarrow> \<not> IsUnspecified (ParseIP (trim_space bindAddr)) \<Longrightarrow>
     covers (DefaultHosts hostname interfaceAddrs bindAddr) (ParseIP (trim_space bindAddr))"
  by (simp add: DefaultHosts_def Let_def addIPs_covers addIP_covers(2))

lemma DefaultHosts_interfaces:
  "ip \<in> set (interfaceIPs interfaceAddrs) \<Longrightarrow> covers (DefaultHosts hostname interfaceAddrs bindAddr) ip"
proof -
  assume ip: "ip \<in> set (interfaceIPs interfaceAddrs)"
  then have "ip \<noteq> []" "\<not> IsUnspecified ip" by (auto simp: interfaceIPs_def split: sum.splits)
  with ip show ?thesis by (simp add: DefaultHosts_def Let_def addIPs_all)
qed

subsection \<open>The pair of files\<close>

text \<open>The key pair of the library accepts a certificate made for a key together with this key.\<close>

definition pairs_load :: "'k certHost \<Rightarrow> bool" where
  "pairs_load host \<longleftrightarrow> (\<forall>hosts now n cert key. makePair host hosts now n = Inr (cert, key) \<longrightarrow> ct_X509KeyPair host cert key = Inr ())"

definition pair_loads :: "'k certHost \<Rightarrow> string \<Rightarrow> string \<Rightarrow> fileNode disk \<Rightarrow> bool" where
  "pair_loads host certFile keyFile d \<longleftrightarrow>
     (\<exists>c k. map_of (dk_files d) certFile = Some c \<and> map_of (dk_files d) keyFile = Some k \<and>
        ct_X509KeyPair host (fn_data c) (fn_data k) = Inr ())"

lemma writeNode_ok:
  "writeNode faults what path data mode d = (Inr u, d') \<Longrightarrow>
     map_of (dk_files d') path = Some \<lparr>fn_data = data,
       fn_mode = (case map_of (dk_files d) path of None \<Rightarrow> mode | Some node \<Rightarrow> fn_mode node)\<rparr> \<and>
     (\<forall>other. other \<noteq> path \<longrightarrow> map_of (dk_files d') other = map_of (dk_files d) other)"
  by (auto simp: writeNode_def bindP_apply sysCall_def diskUpdate_def gm_simps split: if_splits)

lemma Generate_loads:
  assumes "GenerateSelfSignedECC faults host certFile keyFile hosts now d = (Inr u, d')"
    and "pairs_load host" "certFile \<noteq> keyFile"
  shows "pair_loads host certFile keyFile d'"
proof -
  obtain d1 n cert key d2 where g: "makePair host hosts now n = Inr (cert, key)"
    "writeNode faults ''write certificate'' certFile cert 420 d1 = (Inr (), d2)"
    "writeNode faults ''write private key'' keyFile key 384 d2 = (Inr (), d')"
    using assms(1) by (auto simp: GenerateSelfSignedECC_def result_simps)
  from writeNode_ok [OF g(2)] writeNode_ok [OF g(3)] assms(3)
  obtain m m' where "map_of (dk_files d') certFile = Some \<lparr>fn_data = cert, fn_mode = m\<rparr>"
    "map_of (dk_files d') keyFile = Some \<lparr>fn_data = key, fn_mode = m'\<rparr>" by auto
  moreover have "ct_X509KeyPair host cert key = Inr ()" using assms(2) g(1) by (auto simp: pairs_load_def)
  ultimately show ?thesis by (auto simp: pair_loads_def)
qed

lemma readFile_result:
  "readFile faults missing failure name d = (r, d') \<Longrightarrow>
     dk_files d' = dk_files d \<and> (\<forall>c. r = Inr c \<longrightarrow> map_of (dk_files d) name = Some c)"
  by (auto simp: readFile_def sysCall_def bindP_apply split: if_splits option.splits)

lemma tlsKeyPair_result:
  assumes "tlsKeyPair faults host certFile keyFile d = (r, d')"
  shows "dk_files d' = dk_files d" "r = Inr u \<Longrightarrow> pair_loads host certFile keyFile d"
proof -
  obtain rc d1 where c: "readFile faults ''no such file'' ''read certificate'' certFile d = (rc, d1)" by fastforce
  obtain rk d2 where k: "readFile faults ''no such file'' ''read key'' keyFile d1 = (rk, d2)" by fastforce
  note f = readFile_result [OF c] readFile_result [OF k]
  show "dk_files d' = dk_files d"
    using assms c k f by (auto simp: tlsKeyPair_def bindP_apply split: sum.splits)
  show "pair_loads host certFile keyFile d" if "r = Inr u"
    using assms c k f that by (auto simp: tlsKeyPair_def bindP_apply pair_loads_def split: sum.splits)
qed

lemma Ensure_loads:
  assumes "EnsureSelfSignedECC faults host now certFile keyFile bindAddr d = (Inr u, d')"
    and "pairs_load host" "certFile \<noteq> keyFile"
  shows "pair_loads host certFile keyFile d'"
proof -
  obtain rc d1 where c: "readFile faults ''no such file'' ''stat'' certFile d = (rc, d1)" by fastforce
  obtain rk d2 where k: "readFile faults ''no such file'' ''stat'' keyFile d1 = (rk, d2)" by fastforce
  obtain rl d3 where l: "tlsKeyPair faults host certFile keyFile d2 = (rl, d3)" by fastforce
  note t = tlsKeyPair_result [OF l]
  have same: "pair_loads host certFile keyFile d3 = pair_loads host certFile keyFile d2" using t(1) by (simp add: pair_loads_def)
  show ?thesis
    using assms c k l Generate_loads [OF _ assms(2,3)] t same
    by (auto simp: EnsureSelfSignedECC_def Let_def tryP_apply split: sum.splits)
qed

text \<open>A pair that does not load is never made again: every later start fails as the first one does.\<close>

lemma mismatched_pair_stays:
  assumes "map_of (dk_files d) certFile = Some c" "map_of (dk_files d) keyFile = Some k"
    and "ct_X509KeyPair host (fn_data c) (fn_data k) = Inl err"
  shows "\<exists>d'. EnsureSelfSignedECC (\<lambda>_. False) host now certFile keyFile bindAddr d = (Inl (''load TLS certificate: '' @ err), d') \<and>
    dk_files d' = dk_files d"
  using assms by (simp add: EnsureSelfSignedECC_def tlsKeyPair_def Let_def tryP_apply bindP_apply readFile_def sysCall_def)

lemma loading_pair_stays:
  assumes "pair_loads host certFile keyFile d"
  shows "\<exists>d'. EnsureSelfSignedECC (\<lambda>_. False) host now certFile keyFile bindAddr d = (Inr (), d') \<and> dk_files d' = dk_files d"
  using assms
  by (auto simp: pair_loads_def EnsureSelfSignedECC_def tlsKeyPair_def Let_def tryP_apply bindP_apply readFile_def sysCall_def)

subsection \<open>An interrupted creation\<close>

text \<open>Certificates and keys that name the call that made them; a pair loads if these agree.\<close>

definition numbered_pairs :: "nat certHost" where
  "numbered_pairs = \<lparr>ct_hostname = Inr ''box'', ct_interfaceAddrs = Inr [], ct_generateKey = Inr, ct_randomInt = (\<lambda>n _. Inr n),
     ct_createCertificate = (\<lambda>_ n. Inr (itoa (int n))), ct_marshalKey = (\<lambda>n. Inr (itoa (int n))), ct_pem = (\<lambda>_ b. b),
     ct_X509KeyPair = (\<lambda>c k. if c = k then Inr () else Inl ''private key does not match public key'')\<rparr>"

lemma numbered_pairs_load: "pairs_load numbered_pairs"
  by (auto simp: pairs_load_def makePair_def numbered_pairs_def)

definition old_key :: "fileNode disk" where
  "old_key = \<lparr>dk_files = [(''k'', \<lparr>fn_data = ''1'', fn_mode = 420\<rparr>)], dk_calls = 0\<rparr>"

definition torn_pair :: "fileNode disk" where
  "torn_pair = \<lparr>dk_files = [(''k'', \<lparr>fn_data = ''1'', fn_mode = 420\<rparr>), (''c'', \<lparr>fn_data = ''3'', fn_mode = 420\<rparr>)], dk_calls = 6\<rparr>"

lemma itoa_three: "itoa 3 = ''3''"
  by code_simp

lemma torn_by_failure:
  "EnsureSelfSignedECC (\<lambda>n. n = 5) numbered_pairs now ''c'' ''k'' bindAddr old_key = (Inl ''write private key'', torn_pair)"
  by (simp add: EnsureSelfSignedECC_def GenerateSelfSignedECC_def makePair_def writeNode_def readFile_def sysCall_def
      diskUpdate_def tryP_apply bindP_apply numbered_pairs_def old_key_def torn_pair_def gm_put_def itoa_three Let_def)

text \<open>The key that replaces an old one keeps the permissions of the old file, here readable by everyone.\<close>

lemma key_mode_kept:
  "\<exists>d'. EnsureSelfSignedECC (\<lambda>_. False) numbered_pairs now ''c'' ''k'' bindAddr old_key = (Inr (), d') \<and>
     map_of (dk_files d') ''k'' = Some \<lparr>fn_data = ''3'', fn_mode = 420\<rparr>"
  by (simp add: EnsureSelfSignedECC_def GenerateSelfSignedECC_def makePair_def writeNode_def readFile_def sysCall_def
      diskUpdate_def tryP_apply bindP_apply numbered_pairs_def old_key_def gm_put_def itoa_three Let_def)

lemma torn_pair_stays:
  "\<exists>d'. EnsureSelfSignedECC (\<lambda>_. False) numbered_pairs now ''c'' ''k'' bindAddr torn_pair =
     (Inl ''load TLS certificate: private key does not match public key'', d') \<and> dk_files d' = dk_files torn_pair"
  using mismatched_pair_stays [of torn_pair "''c''" "\<lparr>fn_data = ''3'', fn_mode = 420\<rparr>" "''k''"
      "\<lparr>fn_data = ''1'', fn_mode = 420\<rparr>" numbered_pairs "''private key does not match public key''" now bindAddr]
  by (simp add: torn_pair_def numbered_pairs_def)

subsection \<open>Properties\<close>

text \<open>
  C26. When \<^verbatim>\<open>EnsureSelfSignedECC\<close> reports success, whether it kept the files or made them, the certificate and the key are both
  there and load as a pair, whatever calls failed on the way.
\<close>

theorem ensured_pair_loads:
  assumes "pairs_load host" "certFile \<noteq> keyFile"
    and "EnsureSelfSignedECC faults host now certFile keyFile bindAddr d = (Inr u, d')"
  shows "pair_loads host certFile keyFile d'"
  using Ensure_loads [OF assms(3,1,2)] .

theorem ensured_pair_loads_witness:
  "\<exists>d'. EnsureSelfSignedECC (\<lambda>_. False) numbered_pairs 0 ''c'' ''k'' [] old_key = (Inr (), d') \<and>
     pair_loads numbered_pairs ''c'' ''k'' d'"
proof -
  obtain d' where e: "EnsureSelfSignedECC (\<lambda>_. False) numbered_pairs 0 ''c'' ''k'' [] old_key = (Inr (), d')"
    using key_mode_kept by blast
  have "''c'' \<noteq> ''k''" by simp
  from ensured_pair_loads [OF numbered_pairs_load this e] e show ?thesis by blast
qed

end
