(* ===== verification/Startup.thy ===== *)
theory Startup
  imports Bridge_System Web_Front Certificates
begin

section \<open>Starting the programs\<close>

text \<open>
  \<^verbatim>\<open>session.New\<close>, which builds the lifecycle that server and client share, \<^verbatim>\<open>server.New\<close>, which reconciles the sessions before it
  builds the web server, \<^verbatim>\<open>cmd/server/main.go\<close>, and \<^verbatim>\<open>internal/version\<close>. \<open>machine\<close> is what the programs find: the environment,
  the installed tmux, the processes, the files. The world of a start is the system of the lifecycle, the disk with the secret
  and the disk with the certificate. How serving ends is an argument.

  The lemmas show that the server listens only after the sessions were reconciled, with a tmux that reported the supported
  version and with a certificate that loads, that a failure of the construction is logged by its class alone, and that
  starting the server ends no tmux session.
\<close>

subsection \<open>Versions\<close>

record Info =
  vi_Version :: string
  vi_Commit :: string
  vi_BuildDate :: string

text \<open>The variables of the package, which the linker may set.\<close>

definition unset_version :: Info where
  "unset_version = \<lparr>vi_Version = ''dev'', vi_Commit = ''unknown'', vi_BuildDate = ''unknown''\<rparr>"

definition version_Current :: "Info \<Rightarrow> Info" where
  "version_Current build = \<lparr>vi_Version = vi_Version build, vi_Commit = vi_Commit build, vi_BuildDate = vi_BuildDate build\<rparr>"

definition version_String :: "Info \<Rightarrow> string" where
  "version_String build = vi_Version build @ '' commit='' @ vi_Commit build @ '' buildDate='' @ vi_BuildDate build"

subsection \<open>The machine\<close>

record ('t, 'e, 'k) machine =
  ma_env :: "string \<Rightarrow> string"
  ma_userHome :: "string option"
  ma_passwordFile :: "string \<Rightarrow> string option"
  ma_installation :: installation
  ma_executor :: "'t executor"
  ma_fromProcess :: "int \<Rightarrow> int \<Rightarrow> bool"
  ma_combined :: "exec_command \<Rightarrow> (string option \<times> string)"
  ma_faults :: faults
  ma_parseTime :: "string \<Rightarrow> time option"
  ma_temp :: "nat \<Rightarrow> string"
  ma_host :: "processBridge \<Rightarrow> ('t, 'e) host"
  ma_sha256 :: "string \<Rightarrow> string"
  ma_secretFaults :: faults
  ma_interfere :: "string option disk \<Rightarrow> string option disk"
  ma_random :: "string option"
  ma_certFaults :: faults
  ma_certs :: "'k certHost"
  ma_now :: time
  ma_version :: Info

record 't startup =
  su_system :: "'t System"
  su_secrets :: "string option disk"
  su_certs :: "fileNode disk"

definition onSystem :: "('t System, 'e, 'a) prog \<Rightarrow> ('t startup, 'e, 'a) prog" where
  "onSystem p = (\<lambda>w. case p (su_system w) of (r, s) \<Rightarrow> (r, w\<lparr>su_system := s\<rparr>))"

definition onSecrets :: "'a secrets \<Rightarrow> ('t startup, authError, 'a) prog" where
  "onSecrets p = (\<lambda>w. case p (su_secrets w) of (r, d) \<Rightarrow> (r, w\<lparr>su_secrets := d\<rparr>))"

definition onCerts :: "'a certs \<Rightarrow> ('t startup, string, 'a) prog" where
  "onCerts p = (\<lambda>w. case p (su_certs w) of (r, d) \<Rightarrow> (r, w\<lparr>su_certs := d\<rparr>))"

subsection \<open>The lifecycle\<close>

text \<open>What \<^verbatim>\<open>New\<close> makes of its configuration before it builds the manager.\<close>

definition preparedConfig :: "('t, 'e, 'k) machine \<Rightarrow> managerConfig \<Rightarrow> 'e sessionError + managerConfig" where
  "preparedConfig ma cfg =
     bindR (if trim_space (mc_TmuxBinary cfg) = [] then
         (case ResolveBinary (ma_installation ma) (mc_HomeDir cfg) of
            Inl err \<Rightarrow> Inl (Plain err) | Inr binary \<Rightarrow> Inr (cfg\<lparr>mc_TmuxBinary := binary\<rparr>))
       else Inr cfg) (\<lambda>cfg1.
     let cfg2 = withDefaults cfg1 in
     if trim_space (mc_StateDir cfg2) = [] then Inl (Plain ''managed session state directory cannot be empty'')
     else case path_abs (in_workdir (ma_installation ma)) (mc_StateDir cfg2) of
         Inl err \<Rightarrow> Inl (Wrapped ''resolve managed session state directory'' (OfSystem err))
       | Inr stateDir \<Rightarrow>
           let cfg3 = cfg2\<lparr>mc_StateDir := stateDir\<rparr> in
           (case validateConfig cfg3 of Inl err \<Rightarrow> Inl (Plain err) | Inr _ \<Rightarrow> Inr cfg3))"

definition managerFor :: "('t, 'e, 'k) machine \<Rightarrow> managerConfig \<Rightarrow> ('t System, 'e) Manager" where
  "managerFor ma cfg =
     newManager cfg (ma_faults ma) (ma_parseTime ma) (ma_temp ma) (NewStore (mc_StateDir cfg))
       (NewClientWithBinary (ma_fromProcess ma) (ExecRunner (ma_executor ma)) (mc_TmuxBinary cfg))
       (ma_host ma (newProcessBridge cfg (path_join [mc_StateDir cfg, ''logs''])))"

definition session_New :: "('t, 'e, 'k) machine \<Rightarrow> managerConfig \<Rightarrow> ('t System, 'e, ('t System, 'e) Manager) lifecycle" where
  "session_New ma cfg =
     bindP (liftP (preparedConfig ma cfg)) (\<lambda>cfg1.
     let manager = managerFor ma cfg1 in
     bindP (ensurePrivateState manager) (\<lambda>_. returnP manager))"

subsection \<open>The web server\<close>

datatype 'e startupError =
    ErrStartupReconciliation
  | StartupSession "'e sessionError"
  | StartupRegistry registryError
  | StartupAuth authError
  | StartupFailed string

record ('t, 'e) application =
  an_server :: "unit Server"
  an_sessions :: "('t System, 'e) Manager"
  an_tmux :: "'t Client"
  an_tmuxAlive :: "string \<Rightarrow> string option"

definition serverHome :: "('t, 'e, 'k) machine \<Rightarrow> Config \<Rightarrow> 'e startupError + string" where
  "serverHome ma cfg =
     (if cf_HomeDir cfg \<noteq> [] then Inr (cf_HomeDir cfg)
      else case ma_userHome ma of
          None \<Rightarrow> Inl (StartupFailed ''determine service user home directory'') | Some home \<Rightarrow> Inr home)"

definition lifecycleConfigOf :: "('t, 'e, 'k) machine \<Rightarrow> Config \<Rightarrow> string \<Rightarrow> 'e startupError + managerConfig" where
  "lifecycleConfigOf ma cfg homeDir =
     (case ConfigFromEnvironment (ma_env ma) (ResolveBinary (ma_installation ma)) (cf_StateDir cfg) homeDir of
        Inl err \<Rightarrow> Inl (StartupFailed err) | Inr lifecycleConfig \<Rightarrow> Inr lifecycleConfig)"

definition reconciled_or_fail :: "('t System, 'e) Manager \<Rightarrow> ('t startup, 'e startupError, Session list) prog" where
  "reconciled_or_fail lifecycle = mapErr (\<lambda>_. ErrStartupReconciliation) (onSystem (Reconcile lifecycle))"

definition server_New :: "('t, 'e, 'k) machine \<Rightarrow> Config \<Rightarrow> ('t startup, 'e startupError, ('t, 'e) application) prog" where
  "server_New ma cfg =
     bindP (mapErr StartupRegistry (onSystem (onRegistry (Ensure (ma_faults ma))))) (\<lambda>_.
     bindP (liftP (serverHome ma cfg)) (\<lambda>homeDir.
     bindP (liftP (lifecycleConfigOf ma cfg homeDir)) (\<lambda>lifecycleConfig.
     bindP (mapErr StartupSession (onSystem (session_New ma lifecycleConfig))) (\<lambda>lifecycle.
     bindP (reconciled_or_fail lifecycle) (\<lambda>_.
     bindP (mapErr StartupAuth (onSecrets (newServerWithLifecycle (ma_sha256 ma) (ma_secretFaults ma) (ma_interfere ma)
         (ma_random ma) cfg ()))) (\<lambda>application.
       returnP \<lparr>an_server = application, an_sessions = lifecycle,
         an_tmux = NewClientWithBinary (ma_fromProcess ma) (ExecRunner (ma_executor ma)) (mc_TmuxBinary lifecycleConfig),
         an_tmuxAlive = SetTmuxBinary (ma_executor ma) (ma_combined ma) (mc_TmuxBinary lifecycleConfig)\<rparr>))))))"

definition StartupFailureReason :: "'e startupError \<Rightarrow> string" where
  "StartupFailureReason err = (if err = ErrStartupReconciliation then ''reconciliation_failure'' else ''startup_failure'')"

subsection \<open>The command\<close>

text \<open>How serving ended: by a signal, with the outcome of the shutdown, or by the listener, \<open>None\<close> for \<^verbatim>\<open>ErrServerClosed\<close>.\<close>

datatype serveEnd =
    Signalled "string option"
  | ListenerEnded "string option"

record tlsConfig =
  tl_MinVersion :: nat
  tl_MaxVersion :: nat

definition VersionTLS13 :: nat where "VersionTLS13 = 772"

definition tls13OnlyConfig :: tlsConfig where
  "tls13OnlyConfig = \<lparr>tl_MinVersion = VersionTLS13, tl_MaxVersion = VersionTLS13\<rparr>"

record ('t, 'e) httpServer =
  hs_Addr :: string
  hs_Handler :: "('t, 'e) application"
  hs_ReadHeaderTimeout :: duration
  hs_TLSConfig :: tlsConfig

type_synonym logEntry = "string \<times> (string \<times> string) list"

text \<open>What a run of the command did: its output, its log, the server that listened and the exit status.\<close>

record ('t, 'e) mainRun =
  mr_output :: string
  mr_log :: "logEntry list"
  mr_listened :: "('t, 'e) httpServer option"
  mr_exit :: int

definition stopped :: "logEntry list \<Rightarrow> int \<Rightarrow> ('t, 'e) mainRun" where
  "stopped entries status = \<lparr>mr_output = [], mr_log = entries, mr_listened = None, mr_exit = status\<rparr>"

definition logServerCreationFailure :: "'e startupError \<Rightarrow> logEntry" where
  "logServerCreationFailure err = (''failed to create server'', [(''reason_code'', StartupFailureReason err)])"

definition serve :: "('t, 'e, 'k) machine \<Rightarrow> Config \<Rightarrow> ('t, 'e) application \<Rightarrow> serveEnd \<Rightarrow> ('t, 'e) mainRun" where
  "serve ma cfg app ending =
     (let httpServer = \<lparr>hs_Addr = ListenAddress cfg, hs_Handler = app, hs_ReadHeaderTimeout = 5 * second,
            hs_TLSConfig = tls13OnlyConfig\<rparr>;
          build = version_Current (ma_version ma);
          listening = (''control agents listening'', [(''scheme'', ''https''), (''addr'', ListenAddress cfg),
            (''state_dir'', cf_StateDir cfg), (''tls_cert'', cf_TLSCertFile cfg), (''version'', vi_Version build),
            (''commit'', vi_Commit build), (''build_date'', vi_BuildDate build)]);
          failure = (case ending of
              Signalled None \<Rightarrow> [] | Signalled (Some err) \<Rightarrow> [(''server shutdown failed'', [(''error'', err)])]
            | ListenerEnded None \<Rightarrow> [] | ListenerEnded (Some err) \<Rightarrow> [(''server failed'', [(''error'', err)])]) in
      \<lparr>mr_output = [], mr_log = listening # failure, mr_listened = Some httpServer, mr_exit = (if failure = [] then 0 else 1)\<rparr>)"

definition serverMain :: "('t, 'e, 'k) machine \<Rightarrow> string list \<Rightarrow> serveEnd \<Rightarrow> 't startup \<Rightarrow> ('t, 'e) mainRun \<times> 't startup" where
  "serverMain ma arguments ending w =
     (if length arguments = 2 \<and> arguments ! 1 = ''--version'' then
        (\<lparr>mr_output = ''control-agents-server '' @ version_String (ma_version ma) @ [LF], mr_log = [], mr_listened = None,
          mr_exit = 0\<rparr>, w)
      else
        (case LoadFromEnv (ma_env ma) (ma_userHome ma)
            (ma_passwordFile ma) of
           Inl err \<Rightarrow> (stopped [(''configuration error'', [(''error'', err)])] 2, w)
         | Inr cfg \<Rightarrow>
             (case server_New ma cfg w of
                (Inl err, w1) \<Rightarrow> (stopped [logServerCreationFailure err] 1, w1)
              | (Inr app, w1) \<Rightarrow>
                  (case onCerts (EnsureSelfSignedECC (ma_certFaults ma) (ma_certs ma) (ma_now ma) (cf_TLSCertFile cfg)
                      (cf_TLSKeyFile cfg) (cf_BindAddr cfg)) w1 of
                     (Inl err, w2) \<Rightarrow> (stopped [(''failed to prepare TLS certificate'', [(''error'', err)])] 1, w2)
                   | (Inr _, w2) \<Rightarrow> (serve ma cfg app ending, w2)))))"

subsection \<open>The tmux of a start\<close>

lemma leading_slash: "leading_space space_encodings (CHR ''/'' # t) = 0"
  by (simp add: leading_space_def space_encodings_def has_prefix_def)

lemma trim_leading_keeps:
  "\<forall>e\<in>set encs. c \<notin> set e \<Longrightarrow> c \<in> set s \<Longrightarrow> c \<in> set (trim_leading encs s)"
proof (induction encs s rule: trim_leading.induct)
  case (1 encs s)
  define n where "n = leading_space encs s"
  show ?case
  proof (cases "n = 0 \<or> s = []")
    case True
    then show ?thesis using "1.prems" by (subst trim_leading.simps) (auto simp: n_def Let_def)
  next
    case False
    then obtain e where e: "e \<in> set encs" "has_prefix s e" "n = length e"
      by (auto simp: n_def leading_space_def split: option.splits dest!: find_Some_iff [THEN iffD1]) (metis nth_mem)
    have "take n s = e" using e by (simp add: has_prefix_def)
    then have "c \<notin> set (take n s)" using "1.prems"(1) e(1) by auto
    then have "c \<in> set (drop n s)" using "1.prems"(2) by (metis Un_iff append_take_drop_id set_append)
    then have "c \<in> set (trim_leading encs (drop n s))" using "1.IH" [of n] False "1.prems"(1) by (simp add: n_def)
    then show ?thesis using False by (subst trim_leading.simps) (simp add: n_def Let_def)
  qed
qed

lemma trim_space_abs: "path_is_abs p \<Longrightarrow> trim_space p \<noteq> []"
proof -
  assume "path_is_abs p"
  then obtain t where t: "p = CHR ''/'' # t" by (auto simp: path_is_abs_def has_prefix_iff)
  then have "trim_leading space_encodings p = p"
    by (subst trim_leading.simps) (simp add: leading_slash Let_def)
  moreover have "\<forall>e\<in>set (map rev space_encodings). CHR ''/'' \<notin> set e" by (simp add: space_encodings_def)
  moreover have "CHR ''/'' \<in> set (rev p)" by (simp add: t)
  ultimately have "CHR ''/'' \<in> set (trim_space p)" using trim_leading_keeps by (fastforce simp: trim_space_def)
  then show ?thesis by auto
qed

text \<open>The working directory is an absolute path, as \<^verbatim>\<open>os.Getwd\<close> gives it.\<close>

definition absolute_workdir :: "installation \<Rightarrow> bool" where
  "absolute_workdir inst \<longleftrightarrow> (\<forall>d. in_workdir inst = Inr d \<longrightarrow> path_is_abs d)"

lemma installedCandidate_abs:
  "installedCandidate inst seen candidates = Inr (Some binary) \<Longrightarrow> absolute_workdir inst \<Longrightarrow> path_is_abs binary"
  by (induction inst seen candidates rule: installedCandidate.induct)
    (auto simp: result_simps absolute_workdir_def split: sum.splits if_splits statOutcome.splits dest: path_abs_abs)

lemma ResolveBinary_abs: "ResolveBinary inst homeDir = Inr binary \<Longrightarrow> absolute_workdir inst \<Longrightarrow> path_is_abs binary"
  by (auto simp: ResolveBinary_def resolveBinary_def Let_def result_simps
      split: option.splits sum.splits dest: installedCandidate_abs)
    (auto simp: absolute_workdir_def dest: path_abs_abs)

lemma lifecycleConfigOf_tmux:
  "lifecycleConfigOf ma cfg homeDir = Inr lifecycleConfig \<Longrightarrow>
     ResolveBinary (ma_installation ma) homeDir = Inr (mc_TmuxBinary lifecycleConfig)"
  by (auto simp: lifecycleConfigOf_def ConfigFromEnvironment_def Let_def result_simps split: sum.splits)

lemma preparedConfig_tmux:
  "preparedConfig ma cfg = Inr cfg' \<Longrightarrow> trim_space (mc_TmuxBinary cfg) \<noteq> [] \<Longrightarrow> mc_TmuxBinary cfg' = mc_TmuxBinary cfg"
  by (auto simp: preparedConfig_def withDefaults_def Let_def trim_space_nil split: if_splits sum.splits)

subsection \<open>A start that succeeds\<close>

lemma session_New_manager:
  assumes "session_New ma cfg w = (Inr manager, w')"
  shows "\<exists>cfg1. preparedConfig ma cfg = Inr cfg1 \<and> manager = managerFor ma cfg1 \<and>
    ensurePrivateState (managerFor ma cfg1) w = (Inr (), w')"
  using assms by (simp add: session_New_def Let_def result_simps) blast

lemma on_parts [result_simps]:
  "onSystem p w = (r, w') \<longleftrightarrow> (\<exists>s. p (su_system w) = (r, s) \<and> w' = w\<lparr>su_system := s\<rparr>)"
  "onSecrets q w = (rs, w') \<longleftrightarrow> (\<exists>d. q (su_secrets w) = (rs, d) \<and> w' = w\<lparr>su_secrets := d\<rparr>)"
  "onCerts c w = (rc, w') \<longleftrightarrow> (\<exists>d. c (su_certs w) = (rc, d) \<and> w' = w\<lparr>su_certs := d\<rparr>)"
  by (auto simp: onSystem_def onSecrets_def onCerts_def split: prod.splits)

text \<open>The sessions were reconciled in the state the start had reached: the state directory made, then the directories of the lifecycle.\<close>

definition reconciled_from :: "('t, 'e, 'k) machine \<Rightarrow> ('t System, 'e) Manager \<Rightarrow> 't startup \<Rightarrow> 't startup \<Rightarrow> bool" where
  "reconciled_from ma manager w w' \<longleftrightarrow> (\<exists>s1 s2 kept. onRegistry (Ensure (ma_faults ma)) (su_system w) = (Inr (), s1) \<and>
     ensurePrivateState manager s1 = (Inr (), s2) \<and> Reconcile manager s2 = (Inr kept, su_system w'))"

lemma server_New_steps:
  assumes "server_New ma cfg w = (Inr app, w')"
  shows "\<exists>homeDir lifecycleConfig cfg1. lifecycleConfigOf ma cfg homeDir = Inr lifecycleConfig \<and>
    preparedConfig ma lifecycleConfig = Inr cfg1 \<and> an_sessions app = managerFor ma cfg1 \<and>
    reconciled_from ma (managerFor ma cfg1) w w' \<and>
    an_tmux app = NewClientWithBinary (ma_fromProcess ma) (ExecRunner (ma_executor ma)) (mc_TmuxBinary lifecycleConfig) \<and>
    su_certs w' = su_certs w"
proof -
  obtain homeDir lifecycleConfig lifecycle kept s1 s2 s3 where
    e: "onRegistry (Ensure (ma_faults ma)) (su_system w) = (Inr (), s1)"
    and c: "lifecycleConfigOf ma cfg homeDir = Inr lifecycleConfig" and n: "session_New ma lifecycleConfig s1 = (Inr lifecycle, s2)"
    and k: "Reconcile lifecycle s2 = (Inr kept, s3)" and w: "su_system w' = s3" "su_certs w' = su_certs w"
    and a: "an_sessions app = lifecycle"
      "an_tmux app = NewClientWithBinary (ma_fromProcess ma) (ExecRunner (ma_executor ma)) (mc_TmuxBinary lifecycleConfig)"
    using assms by (auto simp: server_New_def reconciled_or_fail_def result_simps)
  from session_New_manager [OF n] obtain cfg1 where
    "preparedConfig ma lifecycleConfig = Inr cfg1" "lifecycle = managerFor ma cfg1"
    "ensurePrivateState (managerFor ma cfg1) s1 = (Inr (), s2)" by blast
  then show ?thesis using c e k w a unfolding reconciled_from_def by (intro exI conjI) auto
qed

lemma serverMain_listens:
  assumes "serverMain ma arguments ending w = (run, w')" "mr_listened run = Some hs" "absolute_workdir (ma_installation ma)"
  shows "\<exists>cfg. LoadFromEnv (ma_env ma) (ma_userHome ma) (ma_passwordFile ma) = Inr cfg \<and>
    hs_TLSConfig hs = tls13OnlyConfig \<and>
    VerifyBinary (ma_installation ma) (cl_binary (an_tmux (hs_Handler hs))) = Inr () \<and>
    reconciled_from ma (an_sessions (hs_Handler hs)) w w' \<and>
    (pairs_load (ma_certs ma) \<longrightarrow> cf_TLSCertFile cfg \<noteq> cf_TLSKeyFile cfg \<longrightarrow>
      pair_loads (ma_certs ma) (cf_TLSCertFile cfg) (cf_TLSKeyFile cfg) (su_certs w'))"
proof -
  obtain cfg app w1 w2 where l: "LoadFromEnv (ma_env ma) (ma_userHome ma) (ma_passwordFile ma) = Inr cfg"
    and n: "server_New ma cfg w = (Inr app, w1)"
    and e: "onCerts (EnsureSelfSignedECC (ma_certFaults ma) (ma_certs ma) (ma_now ma) (cf_TLSCertFile cfg)
        (cf_TLSKeyFile cfg) (cf_BindAddr cfg)) w1 = (Inr (), w')"
    and r: "run = serve ma cfg app ending"
    using assms(1,2) by (auto simp: serverMain_def stopped_def split: if_splits sum.splits prod.splits)
  have h: "hs_Handler hs = app" "hs_TLSConfig hs = tls13OnlyConfig"
    using assms(2) by (auto simp: r serve_def Let_def)
  obtain homeDir lifecycleConfig cfg1 where c: "lifecycleConfigOf ma cfg homeDir = Inr lifecycleConfig"
    "an_sessions app = managerFor ma cfg1" "reconciled_from ma (managerFor ma cfg1) w w1"
    "an_tmux app = NewClientWithBinary (ma_fromProcess ma) (ExecRunner (ma_executor ma)) (mc_TmuxBinary lifecycleConfig)"
    using server_New_steps [OF n] by blast
  note b = lifecycleConfigOf_tmux [OF c(1)]
  have "trim_space (mc_TmuxBinary lifecycleConfig) \<noteq> []"
    using trim_space_abs ResolveBinary_abs [OF b assms(3)] by blast
  then have "cl_binary (an_tmux app) = mc_TmuxBinary lifecycleConfig"
    by (simp add: c(4) NewClientWithBinary_def Let_def)
  then have v: "VerifyBinary (ma_installation ma) (cl_binary (an_tmux (hs_Handler hs))) = Inr ()"
    using ResolveBinary_verified [OF b] h by simp
  from e obtain d where d: "EnsureSelfSignedECC (ma_certFaults ma) (ma_certs ma) (ma_now ma) (cf_TLSCertFile cfg)
        (cf_TLSKeyFile cfg) (cf_BindAddr cfg) (su_certs w1) = (Inr (), d)" "w' = w1\<lparr>su_certs := d\<rparr>"
    by (auto simp: result_simps)
  have "pair_loads (ma_certs ma) (cf_TLSCertFile cfg) (cf_TLSKeyFile cfg) (su_certs w')"
    if "pairs_load (ma_certs ma)" "cf_TLSCertFile cfg \<noteq> cf_TLSKeyFile cfg"
    using Ensure_loads [OF d(1) that] d(2) by simp
  moreover have "reconciled_from ma (an_sessions (hs_Handler hs)) w w'"
    using c(2,3) d(2) h by (simp add: reconciled_from_def)
  ultimately show ?thesis using l h v by blast
qed

text \<open>A server that was not built leaves only the class of the failure in the log.\<close>

lemma creation_failure_log:
  assumes "server_New ma cfg w = (Inl err, w1)" "LoadFromEnv (ma_env ma) (ma_userHome ma) (ma_passwordFile ma) = Inr cfg"
    and "\<not> (length arguments = 2 \<and> arguments ! 1 = ''--version'')"
  shows "fst (serverMain ma arguments ending w) = stopped [(''failed to create server'',
    [(''reason_code'', if err = ErrStartupReconciliation then ''reconciliation_failure'' else ''startup_failure'')])] 1"
  unfolding serverMain_def if_not_P [OF assms(3)]
  by (simp add: assms(1,2) logServerCreationFailure_def StartupFailureReason_def)

lemma serverMain_exit: "mr_exit (fst (serverMain ma arguments ending w)) \<in> {0, 1, 2}"
  by (simp add: serverMain_def serve_def stopped_def Let_def split: sum.split prod.split)

subsection \<open>Starting ends no session\<close>

lemma quiet_private_state:
  assumes "managed_host c live target host"
  shows "quiet (system_view live) (ensurePrivateState (newManager cfg faults parseTime temp store c host))"
  unfolding ensurePrivateState_def
  by (intro quietI) (auto simp: newManager_def intro!: quietI managed_host.files [OF assms])

definition quiet_machine :: "('t \<Rightarrow> string set) \<Rightarrow> (string set \<Rightarrow> string \<Rightarrow> string option) \<Rightarrow> ('t, 'e, 'k) machine \<Rightarrow> bool" where
  "quiet_machine live target ma \<longleftrightarrow> (\<forall>binary bridge.
     managed_host (NewClientWithBinary (ma_fromProcess ma) (ExecRunner (ma_executor ma)) binary) live target (ma_host ma bridge))"

lemma quiet_bind_result:
  "quiet view p \<Longrightarrow> (\<And>x w w'. p w = (Inr x, w') \<Longrightarrow> quiet view (f x)) \<Longrightarrow> quiet view (bindP p f)"
  by (auto simp: quiet_def bindP_apply split: prod.splits sum.splits) (metis snd_conv)+

lemma quiet_on_parts [quietI]:
  "quiet (\<lambda>s. live (sy_rest s)) p \<Longrightarrow> quiet (\<lambda>v. live (sy_rest (su_system v))) (onSystem p)"
  "quiet (\<lambda>v. live (sy_rest (su_system v))) (onSecrets q)"
  by (simp_all add: quiet_def onSystem_def onSecrets_def split_def)

lemma quiet_startup:
  assumes host: "quiet_machine live target ma"
  shows "quiet (\<lambda>v. live (sy_rest (su_system v))) (server_New ma cfg)"
proof -
  let ?live = "\<lambda>s. live (sy_rest s)"
  have mh: "managed_host (NewClientWithBinary (ma_fromProcess ma) (ExecRunner (ma_executor ma)) b) live target (ma_host ma br)"
    for b br
    using host by (simp add: quiet_machine_def)
  have kept_private: "quiet ?live (ensurePrivateState (managerFor ma c))" for c
    using quiet_private_state [OF mh] unfolding managerFor_def quiet_def by (simp add: system_sessions_def)
  have reconcile: "quiet ?live (Reconcile (managerFor ma c))" for c
    using managed_host.reconciled [OF mh, THEN conjunct1] unfolding managerFor_def quiet_def by (metis prod.collapse)
  have new: "quiet ?live (session_New ma c)" for c
    unfolding session_New_def Let_def by (rule quiet_bind) (auto simp: quiet_def bindP_apply returnP_def split: prod.splits sum.splits
        dest: quietD [OF kept_private])
  have "quiet (\<lambda>v. live (sy_rest (su_system v))) (reconciled_or_fail m)"
    if "mapErr StartupSession (onSystem (session_New ma c)) w = (Inr m, w')" for m c w w'
    using that session_New_manager [of ma c _ m] unfolding reconciled_or_fail_def
    by (auto simp: result_simps intro!: quietI reconcile)
  then show ?thesis
    unfolding server_New_def
    by (intro quietI quiet_bind_result [OF quiet_mapErr [OF quiet_on_parts(1) [OF new]]] quiet_bind [of _ "reconciled_or_fail _"])
      (auto simp: quiet_def onRegistry_def split: prod.splits)
qed

subsection \<open>A start\<close>

text \<open>The tmux server of \<^theory_text>\<open>Session_System\<close> behind an executor.\<close>

definition tmux_executor :: "string list executor" where
  "tmux_executor = \<lparr>ex_environ = [], ex_Output = (\<lambda>_ xs. (Inr ''@0'', xs)), ex_Run = (\<lambda>command. server_run (cm_args command)),
     ex_StdoutPipe = (\<lambda>_. returnP ()), ex_Start = (\<lambda>_. failP ExitError), ex_ReadAll = (\<lambda>_ _ xs. (([], None), xs)),
     ex_Kill = (\<lambda>_ xs. xs), ex_Wait = (\<lambda>_. returnP ())\<rparr>"

definition first_machine :: "(string list, unit, nat) machine" where
  "first_machine = \<lparr>ma_env = (\<lambda>key. if key = ''CONTROL_AGENTS_PASSWORD'' then ''pw'' else if key = ''CONTROL_AGENTS_STATE_DIR'' then ''/s'' else []),
     ma_userHome = Some ''/home/u'', ma_passwordFile = (\<lambda>_. None), ma_installation = beside, ma_executor = tmux_executor,
     ma_fromProcess = (\<lambda>_ _. False), ma_combined = (\<lambda>_. (None, [])), ma_faults = (\<lambda>_. False), ma_parseTime = (\<lambda>_. None),
     ma_temp = (\<lambda>_. ''x''), ma_host = (\<lambda>_. quiet_host), ma_sha256 = (\<lambda>s. s), ma_secretFaults = (\<lambda>_. False),
     ma_interfere = (\<lambda>d. d), ma_random = Some (replicate 32 CHR ''k''), ma_certFaults = (\<lambda>_. False),
     ma_certs = numbered_pairs, ma_now = 0, ma_version = unset_version\<rparr>"

definition first_world :: "string list startup" where
  "first_world = \<lparr>su_system = demo_world [] [''a''], su_secrets = \<lparr>dk_files = [], dk_calls = 0\<rparr>,
     su_certs = \<lparr>dk_files = [], dk_calls = 0\<rparr>\<rparr>"

lemma tmux_executor_client:
  "cl_run (NewClientWithBinary f (ExecRunner tmux_executor) b) args = server_run (x # args)"
  "cl_output (NewClientWithBinary f (ExecRunner tmux_executor) b) args = (\<lambda>xs. (Inr ''@0'', xs))"
  by (simp_all add: fun_eq_iff cl_run_def cl_output_def NewClientWithBinary_def NewClientWithRunner_def ExecRunner_def tmux_executor_def
      commandContext_def ConfigureCommand_def server_run_def Let_def)

lemma first_machine_quiet: "quiet_machine set prefix_target first_machine"
proof -
  have run: "cl_run (NewClientWithBinary f (ExecRunner tmux_executor) b) = cl_run server_client" for f b
    by (simp add: fun_eq_iff tmux_executor_client(1) [of _ _ _ "''tmux''"]) (simp add: cl_run_def server_client_def)
  have out: "cl_output (NewClientWithBinary f (ExecRunner tmux_executor) b) = cl_output server_client" for f b
    by (simp add: fun_eq_iff tmux_executor_client(2)) (simp add: cl_output_def server_client_def)
  have "managed_host server_client set prefix_target quiet_host" by (rule server.managed_host_axioms)
  then have "managed_host (NewClientWithBinary f (ExecRunner tmux_executor) b) set prefix_target quiet_host" for f b
    by (simp add: managed_host_def tmux_server_def run out)
  then show ?thesis by (simp add: quiet_machine_def first_machine_def)
qed

definition first_config :: Config where
  "first_config = \<lparr>cf_BindAddr = ''0.0.0.0'', cf_Port = 8080, cf_Password = ''pw'', cf_StateDir = ''/s'', cf_HomeDir = ''/home/u'',
     cf_TLSCertFile = ''/s/certs/server.crt'', cf_TLSKeyFile = ''/s/certs/server.key'', cf_AuthSecretFile = ''/s/auth/session.key'',
     cf_CookieSecure = True, cf_CookieTTL = 172800, cf_MaxSessions = 32, cf_SnapshotMaxBytes = 33554432\<rparr>"

lemma first_load: "LoadFromEnv (ma_env first_machine) (ma_userHome first_machine) (ma_passwordFile first_machine) = Inr first_config"
  by code_simp

definition first_lifecycle :: managerConfig where
  "first_lifecycle = \<lparr>mc_StateDir = ''/s'', mc_HomeDir = ''/home/u'', mc_TmuxBinary = ''/opt/bin/tmux'', mc_TtydBinary = [],
     mc_WindowSize = defaultWindowSize, mc_Mouse = defaultMouse, mc_AppName = [], mc_WebScrollbackLines = 10000,
     mc_WebScrollbackConfigured = True, mc_BridgeStartupTimeout = 0\<rparr>"

lemma first_lifecycleConfig: "lifecycleConfigOf first_machine first_config ''/home/u'' = Inr first_lifecycle"
  by code_simp

lemma first_prepared: "preparedConfig first_machine first_lifecycle =
    Inr (first_lifecycle\<lparr>mc_TtydBinary := ''ttyd'', mc_BridgeStartupTimeout := 5 * second\<rparr>)"
  by code_simp

lemma first_private: "ensurePrivateState (managerFor first_machine c) w = (Inr (), later 6 w)"
proof -
  have "Ensure (\<lambda>_. False) d = (Inr (), d\<lparr>dk_calls := dk_calls d + 6\<rparr>)" for d
    by (simp add: Ensure_def sysCall_def bindP_apply numeral_eq_Suc)
  then have "mg_Ensure (managerFor first_machine c) w = (Inr (), later 6 w)"
    by (simp add: managerFor_def newManager_def onRegistry_def later_def first_machine_def)
  moreover have "mg_mkdirAll (managerFor first_machine c) path = returnP ()" "mg_chmod (managerFor first_machine c) path = returnP ()" for path
    by (simp_all add: fun_eq_iff managerFor_def newManager_def onRest_def quiet_host_def first_machine_def)
  ultimately show ?thesis by (simp add: ensurePrivateState_def bindP_apply mapErr_def)
qed

lemma first_reconcile:
  "dk_files (sy_registry w) = [] \<Longrightarrow> fst (Reconcile (managerFor first_machine c) w) = Inr []"
  by (simp add: Reconcile_def managerFor_def newManager_def first_machine_def onRegistry_def ListCompatible_def list_sessions_def
      Ensure_def sysCall_def bindP_apply mapErr_def sort_slice_def)

lemma first_auth:
  "\<exists>server d. newServerWithLifecycle (\<lambda>s. s) (\<lambda>_. False) (\<lambda>d. d) (Some (replicate 32 CHR ''k'')) first_config () \<lparr>dk_files = [], dk_calls = 0\<rparr> =
     (Inr server, d)"
proof -
  have ttl: "cookieLifetime first_config > 0" by (simp add: cookieLifetime_exact first_config_def)
  show ?thesis using ttl
    by (simp add: newServerWithLifecycle_def LoadOrCreateSecret_def loadOrCreateSecret_def readSecretFile_def openExclusive_def
        readFile_def sysCall_def diskUpdate_def bindP_apply tryP_apply randomSecret_def NewWithSecret_def SecretSize_def
        first_config_def Let_def gm_put_def)
qed

lemma first_certs:
  "\<exists>d. EnsureSelfSignedECC (\<lambda>_. False) numbered_pairs 0 (cf_TLSCertFile first_config) (cf_TLSKeyFile first_config)
     (cf_BindAddr first_config) \<lparr>dk_files = [], dk_calls = 0\<rparr> = (Inr (), d)"
  by (simp add: EnsureSelfSignedECC_def GenerateSelfSignedECC_def makePair_def writeNode_def readFile_def sysCall_def
      diskUpdate_def tryP_apply bindP_apply numbered_pairs_def Let_def)

lemma first_built: "\<exists>app w. server_New first_machine first_config first_world = (Inr app, w) \<and> su_certs w = su_certs first_world"
proof -
  obtain server d where a: "newServerWithLifecycle (\<lambda>s. s) (\<lambda>_. False) (\<lambda>d. d) (Some (replicate 32 CHR ''k'')) first_config ()
      \<lparr>dk_files = [], dk_calls = 0\<rparr> = (Inr server, d)"
    using first_auth by blast
  have e: "Ensure (\<lambda>_. False) d = (Inr (), d\<lparr>dk_calls := dk_calls d + 6\<rparr>)" for d
    by (simp add: Ensure_def sysCall_def bindP_apply numeral_eq_Suc)
  have home: "serverHome first_machine first_config = Inr ''/home/u''" by (simp add: serverHome_def first_config_def)
  have k: "\<exists>t. Reconcile (managerFor first_machine c) s = (Inr [], t)" if "dk_files (sy_registry s) = []" for c s
    using first_reconcile [OF that, of c] by (metis prod.collapse)
  define s0 where "s0 = (su_system first_world)\<lparr>sy_registry := (sy_registry (su_system first_world))\<lparr>dk_calls := 6\<rparr>\<rparr>"
  obtain t where t: "Reconcile (managerFor first_machine (first_lifecycle\<lparr>mc_TtydBinary := ''ttyd'',
      mc_BridgeStartupTimeout := 5 * second\<rparr>)) (later 6 s0) = (Inr [], t)"
    using k [of "later 6 s0"] by (auto simp: s0_def first_world_def demo_world_def)
  have env: "ma_faults first_machine = (\<lambda>_. False)" "ma_sha256 first_machine = (\<lambda>s. s)" "ma_secretFaults first_machine = (\<lambda>_. False)"
    "ma_interfere first_machine = (\<lambda>d. d)" "ma_random first_machine = Some (replicate 32 CHR ''k'')"
    by (simp_all add: first_machine_def)
  have w: "onRegistry (Ensure (\<lambda>_. False)) (su_system first_world) = (Inr (), s0)"
    "su_secrets first_world = \<lparr>dk_files = [], dk_calls = 0\<rparr>"
    by (simp_all add: onRegistry_def e s0_def first_world_def demo_world_def)
  have "session_New first_machine first_lifecycle s0 = (Inr (managerFor first_machine (first_lifecycle\<lparr>mc_TtydBinary := ''ttyd'',
      mc_BridgeStartupTimeout := 5 * second\<rparr>)), later 6 s0)"
    by (simp add: session_New_def first_prepared first_private bindP_apply Let_def del: time_units)
  then show ?thesis
    by (simp add: server_New_def bindP_apply mapErr_def onSystem_def onSecrets_def env w home first_lifecycleConfig
        reconciled_or_fail_def t a del: time_units)
qed

lemma first_start: "\<exists>run w hs. serverMain first_machine [''server''] (Signalled None) first_world = (run, w) \<and> mr_listened run = Some hs"
proof -
  obtain app w1 where n: "server_New first_machine first_config first_world = (Inr app, w1)" "su_certs w1 = su_certs first_world"
    using first_built by blast
  obtain d where c: "EnsureSelfSignedECC (\<lambda>_. False) numbered_pairs 0 (cf_TLSCertFile first_config) (cf_TLSKeyFile first_config)
     (cf_BindAddr first_config) \<lparr>dk_files = [], dk_calls = 0\<rparr> = (Inr (), d)"
    using first_certs by blast
  have "ma_certFaults first_machine = (\<lambda>_. False)" "ma_certs first_machine = numbered_pairs" "ma_now first_machine = 0"
    "su_certs first_world = \<lparr>dk_files = [], dk_calls = 0\<rparr>"
    by (simp_all add: first_machine_def first_world_def)
  then show ?thesis using n c by (simp add: serverMain_def first_load onCerts_def serve_def Let_def)
qed

subsection \<open>Properties\<close>

text \<open>
  C14. The server listens only with a tmux executable that was run with \<^verbatim>\<open>-V\<close> and reported tmux 3.7b, after the sessions were
  reconciled without an error, from what the start had prepared, and the system was left as this reconciliation left it; and
  with version 1.3 of TLS (0x0304) as the lowest and as the highest.
\<close>

theorem server_listens_checked:
  assumes "serverMain ma arguments ending w = (run, w')" "mr_listened run = Some hs" "absolute_workdir (ma_installation ma)"
  shows "(\<exists>command printed. cm_args command = [cl_binary (an_tmux (hs_Handler hs)), ''-V''] \<and>
      in_runCommand (ma_installation ma) command = Inr printed \<and> trim_space printed = ''tmux 3.7b'') \<and>
    (\<exists>s1 s2 kept. onRegistry (Ensure (ma_faults ma)) (su_system w) = (Inr (), s1) \<and>
      ensurePrivateState (an_sessions (hs_Handler hs)) s1 = (Inr (), s2) \<and>
      Reconcile (an_sessions (hs_Handler hs)) s2 = (Inr kept, su_system w')) \<and>
    tl_MinVersion (hs_TLSConfig hs) = 0x0304 \<and> tl_MaxVersion (hs_TLSConfig hs) = 0x0304"
proof -
  have l: "hs_TLSConfig hs = tls13OnlyConfig" "reconciled_from ma (an_sessions (hs_Handler hs)) w w'"
    "VerifyBinary (ma_installation ma) (cl_binary (an_tmux (hs_Handler hs))) = Inr ()"
    using serverMain_listens [OF assms] by blast+
  from VerifyBinary_version [OF l(3)] obtain printed where
    "in_runCommand (ma_installation ma) (ConfigureCommand (in_environ (ma_installation ma))
       \<lparr>cm_args = [cl_binary (an_tmux (hs_Handler hs)), ''-V''], cm_env = None, cm_stdin = None\<rparr>) = Inr printed"
    "trim_space printed = ''tmux 3.7b''" by blast
  moreover have "cm_args (ConfigureCommand environ command) = cm_args command" for environ command
    by (simp add: ConfigureCommand_def Let_def)
  ultimately have "\<exists>command printed. cm_args command = [cl_binary (an_tmux (hs_Handler hs)), ''-V''] \<and>
      in_runCommand (ma_installation ma) command = Inr printed \<and> trim_space printed = ''tmux 3.7b''"
    by (metis exec_command.select_convs(1))
  then show ?thesis using l(1,2) by (simp add: reconciled_from_def tls13OnlyConfig_def VersionTLS13_def)
qed

theorem server_listens_checked_witness:
  "\<exists>run w hs command printed. serverMain first_machine [''server''] (Signalled None) first_world = (run, w) \<and>
     mr_listened run = Some hs \<and> cm_args command = [cl_binary (an_tmux (hs_Handler hs)), ''-V''] \<and>
     in_runCommand (ma_installation first_machine) command = Inr printed \<and> trim_space printed = ''tmux 3.7b''"
proof -
  obtain run w hs where s: "serverMain first_machine [''server''] (Signalled None) first_world = (run, w)" "mr_listened run = Some hs"
    using first_start by blast
  have "absolute_workdir (ma_installation first_machine)"
    by (simp add: absolute_workdir_def first_machine_def beside_def path_is_abs_def has_prefix_def)
  from conjunct1 [OF server_listens_checked [OF s this]] s show ?thesis by blast
qed

text \<open>
  C40. Building the web server ends and creates no tmux session, whether it succeeds or fails, on a machine whose bridges, locks
  and files do not.
\<close>

theorem starting_ends_no_session:
  assumes "quiet_machine live target ma" "server_New ma cfg w = (r, w')"
  shows "live (sy_rest (su_system w')) = live (sy_rest (su_system w))"
  using quietD [OF quiet_startup [OF assms(1)] assms(2)] .

theorem starting_ends_no_session_witness:
  "\<exists>r w'. server_New first_machine first_config first_world = (r, w') \<and> set (sy_rest (su_system w')) = {''a''}"
proof -
  obtain r w' where n: "server_New first_machine first_config first_world = (r, w')" by fastforce
  from starting_ends_no_session [OF first_machine_quiet n] n show ?thesis by (auto simp: first_world_def demo_world_def)
qed

end
