(* ===== verification/Client_Command.thy ===== *)
theory Client_Command
  imports Session_Api_Safety Forwarded_Agent
begin

section \<open>The command line client\<close>

text \<open>
  \<^verbatim>\<open>cmd/client/main.go\<close>: the options, the run for a named session and the selector of sessions. The client works on the
  lifecycle of \<^verbatim>\<open>internal/session\<close> and attaches the terminal to tmux; both are in \<open>app\<close>, a record of programs over a world
  \<open>'w\<close>, as they are fields of \<^verbatim>\<open>app\<close> in the code. A \<open>console\<close> holds the world and what the client has printed.

  What \<^verbatim>\<open>readLine\<close> gets is an argument, a list with one \<open>lineReading\<close> for each call: a line, the end of the input, an error, or the
  interrupt that came first. Interrupts that arrive while tmux is attached are dropped (\<^verbatim>\<open>drainInterrupts\<close>), so they are no readings. When the list is used up the client waits for input, and its result is \<open>None\<close>.
\<close>

subsection \<open>Options\<close>

definition exitSuccess :: int where "exitSuccess = 0"
definition exitFailure :: int where "exitFailure = 1"
definition exitUsage :: int where "exitUsage = 2"
definition exitConflict :: int where "exitConflict = 3"

lemmas exit_codes = exitSuccess_def exitFailure_def exitUsage_def exitConflict_def

record options =
  op_attach :: bool
  op_name :: string
  op_help :: bool
  op_version :: bool

text \<open>The variables of the loop over the arguments.\<close>

record scanned =
  sg_help :: bool
  sg_version :: bool
  sg_attach :: bool
  sg_noAttach :: bool
  sg_positional :: "string list"

fun scanArguments :: "(rune \<Rightarrow> bool) \<Rightarrow> bool \<Rightarrow> string list \<Rightarrow> scanned \<Rightarrow> string + scanned" where
  "scanArguments isPrint parseFlags [] st = Inr st"
| "scanArguments isPrint parseFlags (argument # arguments) st =
     (let continue = scanArguments isPrint parseFlags arguments in
      if parseFlags \<and> argument = ''--'' then scanArguments isPrint False arguments st
      else if parseFlags \<and> argument \<in> {''-h'', ''--help''} then continue (st\<lparr>sg_help := True\<rparr>)
      else if parseFlags \<and> argument = ''--version'' then continue (st\<lparr>sg_version := True\<rparr>)
      else if parseFlags \<and> argument = ''--attach'' then continue (st\<lparr>sg_attach := True\<rparr>)
      else if parseFlags \<and> argument = ''--no-attach'' then continue (st\<lparr>sg_noAttach := True\<rparr>)
      else if parseFlags \<and> has_prefix argument ''-'' then Inl (''unknown option '' @ go_quote isPrint argument)
      else continue (st\<lparr>sg_positional := sg_positional st @ [argument]\<rparr>))"

definition attachFromEnvironment :: "(string \<Rightarrow> string option) \<Rightarrow> string + bool" where
  "attachFromEnvironment lookupEnv =
     (let decide = (\<lambda>name. case lookupEnv name of None \<Rightarrow> [] | Some v \<Rightarrow> v);
          noAttach = decide ''CONTROL_AGENTS_NO_ATTACH''; attach = decide ''CONTROL_AGENTS_ATTACH'' in
      if noAttach = ''1'' then Inr False
      else if noAttach \<noteq> [] \<and> noAttach \<noteq> ''0'' then Inl ''CONTROL_AGENTS_NO_ATTACH must be 0 or 1''
      else if attach = ''0'' then Inr False
      else if attach = ''1'' then Inr True
      else if attach \<noteq> [] then Inl ''CONTROL_AGENTS_ATTACH must be 0 or 1''
      else Inr True)"

definition parseOptions :: "(rune \<Rightarrow> bool) \<Rightarrow> (string \<Rightarrow> string option) \<Rightarrow> string list \<Rightarrow> string + options" where
  "parseOptions isPrint lookupEnv arguments =
     bindR (scanArguments isPrint True arguments
         \<lparr>sg_help = False, sg_version = False, sg_attach = False, sg_noAttach = False, sg_positional = []\<rparr>) (\<lambda>st.
       let parsed = \<lparr>op_attach = False, op_name = (case sg_positional st of [name] \<Rightarrow> name | _ \<Rightarrow> []),
             op_help = sg_help st, op_version = sg_version st\<rparr> in
       if sg_attach st \<and> sg_noAttach st then Inl ''--attach and --no-attach cannot be used together''
       else if sg_help st \<and> sg_version st then Inl ''--help and --version cannot be used together''
       else if (sg_help st \<or> sg_version st) \<and> (sg_attach st \<or> sg_noAttach st \<or> length (sg_positional st) \<noteq> 0)
         then Inl ''--help and --version cannot be combined with a session invocation''
       else if length (sg_positional st) > 1 then Inl ''expected at most one session name''
       else if sg_help st \<or> sg_version st then Inr parsed
       else
         bindR (if sg_attach st then Inr True else if sg_noAttach st then Inr False else attachFromEnvironment lookupEnv) (\<lambda>attach.
           if op_name parsed = [] \<and> \<not> attach then Inl ''non-interactive mode requires an explicit session name''
           else Inr (parsed\<lparr>op_attach := attach\<rparr>)))"

subsection \<open>The console\<close>

record 'w console =
  cn_world :: 'w
  cn_output :: string
  cn_errors :: string

record ('w, 'e) app =
  ac_List :: "('w, 'e, Session list) lifecycle"
  ac_Create :: "string \<Rightarrow> ('w, 'e, Session) lifecycle"
  ac_EnsureBridge :: "string \<Rightarrow> ('w, 'e, Session) lifecycle"
  ac_attach :: "string \<Rightarrow> ('w, string, unit) prog"
  ac_refreshAgent :: "('w, string, ForwardedAgentStatus) prog option"
  ac_isPrint :: "rune \<Rightarrow> bool"
  ac_errorText :: "'e sessionError \<Rightarrow> string"

definition onConsole :: "('w, 'e, 'a) prog \<Rightarrow> ('w console, 'e, 'a) prog" where
  "onConsole p = (\<lambda>c. case p (cn_world c) of (r, w) \<Rightarrow> (r, c\<lparr>cn_world := w\<rparr>))"

definition printLine :: "string \<Rightarrow> 'w console \<Rightarrow> 'w console" where
  "printLine line c = c\<lparr>cn_output := cn_output c @ line @ [LF]\<rparr>"

definition printError :: "string \<Rightarrow> 'w console \<Rightarrow> 'w console" where
  "printError line c = c\<lparr>cn_errors := cn_errors c @ line @ [LF]\<rparr>"

definition print :: "string \<Rightarrow> 'w console \<Rightarrow> 'w console" where
  "print line c = c\<lparr>cn_output := cn_output c @ line\<rparr>"

text \<open>What one call of \<^verbatim>\<open>ReadString\<close> returned, or what happened instead.\<close>

datatype lineReading =
    ReadString string
  | ReadEnd string
  | ReadFailure string
  | Interrupt
  | ContextDone

datatype readError = EndOfInput | errInterrupted | Canceled | ReadFailed string

definition lineOf :: "string \<Rightarrow> string" where
  "lineOf line = trim_suffix (trim_suffix line [LF]) [CHR 0x0D]"

definition readLine :: "lineReading \<Rightarrow> readError + string" where
  "readLine got =
     (case got of
        ReadString line \<Rightarrow> Inr (lineOf line)
      | ReadEnd line \<Rightarrow> if line = [] then Inl EndOfInput else Inr (lineOf line)
      | ReadFailure err \<Rightarrow> Inl (ReadFailed err)
      | Interrupt \<Rightarrow> Inl errInterrupted
      | ContextDone \<Rightarrow> Inl Canceled)"

subsection \<open>Attaching\<close>

datatype 'e attachError =
    AttachFailed string
  | BridgeFailed "'e sessionError"

definition announce :: "Session \<Rightarrow> 'w console \<Rightarrow> 'w console" where
  "announce managed = printLine (''Attaching to '' @ se_Name managed @ ''. Detach with Ctrl-b d.'')"

definition attachManaged :: "('w, 'e) app \<Rightarrow> Session \<Rightarrow> ('w console, 'e attachError, unit) prog" where
  "attachManaged app managed = (\<lambda>c.
     bindP (mapErr AttachFailed (onConsole (ac_attach app (se_TmuxName managed)))) (\<lambda>_.
     bindP (mapErr BridgeFailed (onConsole (ac_EnsureBridge app (se_ID managed)))) (\<lambda>_. returnP ()))
       (announce managed c))"

definition attachText :: "('w, 'e) app \<Rightarrow> 'e attachError \<Rightarrow> string" where
  "attachText app err = (case err of AttachFailed message \<Rightarrow> message | BridgeFailed e \<Rightarrow> ac_errorText app e)"

text \<open>Attaching from the selector: a failure is reported and the selector goes on.\<close>

definition attachSelected :: "('w, 'e) app \<Rightarrow> Session \<Rightarrow> 'w console \<Rightarrow> 'w console" where
  "attachSelected app managed c =
     (case attachManaged app managed c of
        (Inl _, c1) \<Rightarrow> printError (''Session '' @ go_quote (ac_isPrint app) (se_ID managed) @
          '' ended or is unavailable; refreshing the list.'') c1
      | (Inr _, c1) \<Rightarrow> c1)"

definition lifecycleExitCode :: "'e sessionError \<Rightarrow> int" where
  "lifecycleExitCode err =
     (if errors_Is (of_kind ErrorInvalidName) err then exitUsage
      else if errors_Is (of_kind ErrorConflict) err then exitConflict
      else exitFailure)"

definition reportForwardedAgent :: "('w, 'e) app \<Rightarrow> 'w console \<Rightarrow> 'w console" where
  "reportForwardedAgent app c =
     (case ac_refreshAgent app of
        None \<Rightarrow> c
      | Some refresh_agent \<Rightarrow>
          (case onConsole refresh_agent c of
             (r, c1) \<Rightarrow> printError (''control-agents: forwarded SSH agent: '' @
               (case r of Inr ForwardedAgentAvailable \<Rightarrow> ''available''
                | Inr ForwardedAgentUnavailable \<Rightarrow> ''unavailable'' | _ \<Rightarrow> ''invalid'')) c1))"

subsection \<open>The selector\<close>

definition renderSelector :: "Session list \<Rightarrow> 'w console \<Rightarrow> 'w console" where
  "renderSelector sessions c =
     print ''Select: '' (printLine [] (printLine ''q) Quit'' (printLine ''n) New session''
       (fold (\<lambda>(index, managed). printLine (itoa (int index + 1) @ '') '' @ se_Name managed)) (enumerate 0 sessions)
         (printLine [] (printLine ''Control Agents sessions'' c))))))"

definition refreshSessions :: "('w, 'e) app \<Rightarrow> 'w console \<Rightarrow> Session list \<times> 'w console" where
  "refreshSessions app c =
     (case onConsole (ac_List app) c of
        (Inl err, c1) \<Rightarrow> ([], renderSelector [] (printError (''control-agents: refresh sessions: '' @ ac_errorText app err) c1))
      | (Inr sessions, c1) \<Rightarrow> (sessions, renderSelector sessions c1))"

text \<open>How the selector ends when a line cannot be read.\<close>

definition endOfReading :: "string \<Rightarrow> readError \<Rightarrow> 'w console \<Rightarrow> int \<times> 'w console" where
  "endOfReading what err c =
     (case err of
        ReadFailed message \<Rightarrow> (exitFailure, printError (''control-agents: read '' @ what @ '': '' @ message) c)
      | _ \<Rightarrow> (exitSuccess, printLine [] c))"

definition createFromPrompt :: "('w, 'e) app \<Rightarrow> lineReading \<Rightarrow> 'w console \<Rightarrow> int option \<times> 'w console" where
  "createFromPrompt app got c =
     (case readLine got of
        Inl err \<Rightarrow> (case endOfReading ''session name'' err c of (code, c1) \<Rightarrow> (Some code, c1))
      | Inr name \<Rightarrow>
          if name = [] then (None, c)
          else (case onConsole (ac_Create app name) c of
              (Inl err, c1) \<Rightarrow> (None, printError (''Could not create session: '' @ ac_errorText app err) c1)
            | (Inr managed, c1) \<Rightarrow> (None, attachSelected app managed c1)))"

definition selectSession :: "('w, 'e) app \<Rightarrow> Session list \<Rightarrow> string \<Rightarrow> 'w console \<Rightarrow> 'w console" where
  "selectSession app sessions selection c =
     (case parse_int (trim_space selection) of
        Some index \<Rightarrow>
          if index < 1 \<or> index > int (length sessions)
          then printError ''Invalid selection. Choose a session number, n, or q.'' c
          else attachSelected app (sessions ! nat (index - 1)) c
      | None \<Rightarrow> printError ''Invalid selection. Choose a session number, n, or q.'' c)"

definition namePrompt :: string where "namePrompt = ''Session name (empty to cancel): ''"

fun runSelector :: "('w, 'e) app \<Rightarrow> lineReading list \<Rightarrow> 'w console \<Rightarrow> int option \<times> 'w console" where
  "runSelector app [] c = (None, snd (refreshSessions app c))"
| "runSelector app (got # readings) c =
     (case refreshSessions app c of
        (sessions, c1) \<Rightarrow>
          (case readLine got of
             Inl err \<Rightarrow> (case endOfReading ''selection'' err c1 of (code, c2) \<Rightarrow> (Some code, c2))
           | Inr selection \<Rightarrow>
               let choice = to_lower (trim_space selection) in
               if choice = ''q'' \<or> choice = ''quit'' then (Some exitSuccess, c1)
               else if choice = ''n'' \<or> choice = ''new'' then
                 (case readings of
                    [] \<Rightarrow> (None, print namePrompt c1)
                  | given # rest \<Rightarrow>
                      (case createFromPrompt app given (print namePrompt c1) of
                         (Some code, c2) \<Rightarrow> (Some code, c2)
                       | (None, c2) \<Rightarrow> runSelector app rest c2))
               else runSelector app readings (selectSession app sessions selection c1)))"

subsection \<open>A run\<close>

definition app_run :: "('w, 'e) app \<Rightarrow> options \<Rightarrow> lineReading list \<Rightarrow> 'w console \<Rightarrow> int option \<times> 'w console" where
  "app_run app opts readings c0 =
     (let c = reportForwardedAgent app c0 in
      if op_name opts = [] then runSelector app readings c
      else case onConsole (ac_Create app (op_name opts)) c of
          (Inl err, c1) \<Rightarrow> (Some (lifecycleExitCode err), printError (''control-agents: '' @ ac_errorText app err) c1)
        | (Inr managed, c1) \<Rightarrow>
            if \<not> op_attach opts then (Some exitSuccess, printLine (se_ID managed) c1)
            else (case attachManaged app managed c1 of
                (Inl err, c2) \<Rightarrow> (Some exitFailure, printError (''control-agents: attach session '' @
                  go_quote (ac_isPrint app) (se_ID managed) @ '': '' @ attachText app err) c2)
              | (Inr _, c2) \<Rightarrow> (Some exitSuccess, c2)))"

definition usageText :: string where
  "usageText = join
     [''Usage:'', ''  control-agents'', ''  control-agents [--attach] NAME'', ''  control-agents --no-attach NAME'', [],
      ''With no NAME, open the interactive managed-session selector. A named session'',
      ''is created or reused and attached directly. Use --no-attach for scripts.'', [],
      ''Options:'',
      ''  --attach       Attach a named session, overriding environment settings.'',
      ''  --no-attach    Create or reuse a named session, print its ID, and exit.'',
      ''  --version      Print version information.'',
      ''  -h, --help     Show this help.'', []] [LF]"

text \<open>
  What \<^verbatim>\<open>runMain\<close> finds: the environment, whether its files are terminals, the version, the installed tmux, the construction
  of the lifecycle and of the helper for the agent, and how a command runs on the terminal.
\<close>

record ('w, 'e) lifecycleCalls =
  lc_List :: "('w, 'e, Session list) lifecycle"
  lc_Create :: "string \<Rightarrow> ('w, 'e, Session) lifecycle"
  lc_EnsureBridge :: "string \<Rightarrow> ('w, 'e, Session) lifecycle"

record ('w, 'e) invocation =
  iv_lookupEnv :: "string \<Rightarrow> string option"
  iv_environ :: "string list"
  iv_stdinTerminal :: bool
  iv_stdoutTerminal :: bool
  iv_homeDir :: "string + string"
  iv_version :: string
  iv_isPrint :: "rune \<Rightarrow> bool"
  iv_installation :: installation
  iv_newLifecycle :: "managerConfig \<Rightarrow> ('w, string, ('w, 'e) lifecycleCalls) prog"
  iv_NewForwardedAgent :: "string \<Rightarrow> string + ForwardedAgent"
  iv_RefreshFromEnvironment :: "ForwardedAgent \<Rightarrow> (string \<Rightarrow> string option) \<Rightarrow> ('w, string, ForwardedAgentStatus) prog"
  iv_runAttached :: "exec_command \<Rightarrow> ('w, string, unit) prog"
  iv_errorText :: "'e sessionError \<Rightarrow> string"

definition getenv :: "(string \<Rightarrow> string option) \<Rightarrow> string \<Rightarrow> string" where
  "getenv lookupEnv name = (case lookupEnv name of None \<Rightarrow> [] | Some v \<Rightarrow> v)"

definition clientStateDir :: "(string \<Rightarrow> string option) \<Rightarrow> string \<Rightarrow> string" where
  "clientStateDir lookupEnv homeDir =
     (let dir = getenv lookupEnv ''CONTROL_AGENTS_STATE_DIR'' in
      if dir \<noteq> [] then dir else path_join [homeDir, ''.local'', ''state'', ''control-agents''])"

definition tmuxAttachCommand :: "string list \<Rightarrow> string \<Rightarrow> string \<Rightarrow> exec_command" where
  "tmuxAttachCommand environ tmuxBinary tmuxName = ConfigureCommand environ
     \<lparr>cm_args = [tmuxBinary, ''attach-session'', ''-E'', ''-t'', tmuxName], cm_env = None, cm_stdin = None\<rparr>"

definition clientApp :: "('w, 'e) invocation \<Rightarrow> managerConfig \<Rightarrow> string \<Rightarrow> ('w, 'e) lifecycleCalls \<Rightarrow> ('w, 'e) app" where
  "clientApp iv cfg stateDir calls =
     \<lparr>ac_List = lc_List calls, ac_Create = lc_Create calls, ac_EnsureBridge = lc_EnsureBridge calls,
      ac_attach = (\<lambda>tmuxName. iv_runAttached iv (tmuxAttachCommand (iv_environ iv) (mc_TmuxBinary cfg) tmuxName)),
      ac_refreshAgent = Some (case iv_NewForwardedAgent iv stateDir of
          Inl err \<Rightarrow> failP err
        | Inr forwardedAgent \<Rightarrow> iv_RefreshFromEnvironment iv forwardedAgent (iv_lookupEnv iv)),
      ac_isPrint = iv_isPrint iv, ac_errorText = iv_errorText iv\<rparr>"

definition runMain :: "('w, 'e) invocation \<Rightarrow> string list \<Rightarrow> lineReading list \<Rightarrow> 'w console \<Rightarrow> int option \<times> 'w console" where
  "runMain iv arguments readings c =
     (case parseOptions (iv_isPrint iv) (iv_lookupEnv iv) arguments of
        Inl err \<Rightarrow> (Some exitUsage, c\<lparr>cn_errors := cn_errors c @ ''control-agents: '' @ err @ [LF, LF] @ usageText\<rparr>)
      | Inr opts \<Rightarrow>
          if op_help opts then (Some exitSuccess, print usageText c)
          else if op_version opts then (Some exitSuccess, printLine (''control-agents '' @ iv_version iv) c)
          else if op_name opts = [] \<and> (\<not> iv_stdinTerminal iv \<or> \<not> iv_stdoutTerminal iv) then
            (Some exitUsage, printError
              ''control-agents: the session selector requires an interactive terminal; provide NAME with --no-attach for scripts'' c)
          else case iv_homeDir iv of
              Inl err \<Rightarrow> (Some exitFailure, printError (''control-agents: determine user home directory: '' @ err) c)
            | Inr homeDir \<Rightarrow>
                let stateDir = clientStateDir (iv_lookupEnv iv) homeDir in
                (case ConfigFromEnvironment (getenv (iv_lookupEnv iv)) (ResolveBinary (iv_installation iv)) stateDir homeDir of
                   Inl err \<Rightarrow> (Some exitUsage, printError (''control-agents: configuration error: '' @ err) c)
                 | Inr cfg \<Rightarrow>
                     (case onConsole (iv_newLifecycle iv cfg) c of
                        (Inl err, c1) \<Rightarrow> (Some exitFailure, printError (''control-agents: initialize session lifecycle: '' @ err) c1)
                      | (Inr calls, c1) \<Rightarrow> app_run (clientApp iv cfg stateDir calls) opts readings c1)))"

subsection \<open>Exit statuses\<close>

lemma lifecycleExitCode_range: "lifecycleExitCode err \<in> {exitFailure, exitUsage, exitConflict}"
  by (simp add: lifecycleExitCode_def)

lemma endOfReading_cases: "fst (endOfReading what err c) \<in> {exitSuccess, exitFailure}"
  by (simp add: endOfReading_def split: readError.split)

lemma endOfReading_code: "endOfReading what err c = (code, c') \<Longrightarrow> code \<in> {exitSuccess, exitFailure}"
  using endOfReading_cases [of what err c] by simp

lemma createFromPrompt_code:
  "createFromPrompt app got c = (Some code, c') \<Longrightarrow> code \<in> {exitSuccess, exitFailure}"
  by (auto simp: createFromPrompt_def split: sum.splits prod.splits if_splits dest: endOfReading_code)

lemma runSelector_code: "runSelector app readings c = (Some code, c') \<Longrightarrow> code \<in> {exitSuccess, exitFailure}"
proof (induction app readings c rule: runSelector.induct)
  case (2 app got readings c)
  obtain sessions c1 where r: "refreshSessions app c = (sessions, c1)" by fastforce
  show ?case
  proof (cases "readLine got")
    case (Inl err)
    then show ?thesis
      using "2.prems" r endOfReading_cases [of "''selection''" err c1] by (auto split: prod.splits)
  next
    case (Inr selection)
    then show ?thesis
      using "2.prems" r
      by (auto simp: Let_def split: if_splits list.splits prod.splits option.splits
          dest: "2.IH" [OF r [symmetric]] createFromPrompt_code)
  qed
qed simp

text \<open>The input decides whether the selector ends: a reading that is no line ends it, wherever it asks.\<close>

lemma runSelector_ends:
  "got \<in> set readings \<Longrightarrow> readLine got = Inl err \<Longrightarrow> \<exists>code. fst (runSelector app readings c) = Some code"
proof (induction app readings c rule: runSelector.induct)
  case (2 app first readings c)
  obtain sessions c1 where r: "refreshSessions app c = (sessions, c1)" by fastforce
  show ?case
  proof (cases "readLine first")
    case (Inl e)
    then show ?thesis using r by (simp split: prod.split)
  next
    case (Inr selection)
    with "2.prems" have later: "got \<in> set readings" by auto
    consider "to_lower (trim_space selection) \<in> {''q'', ''quit''}"
      | "to_lower (trim_space selection) \<notin> {''q'', ''quit''}" "to_lower (trim_space selection) \<in> {''n'', ''new''}"
      | "to_lower (trim_space selection) \<notin> {''q'', ''quit''}" "to_lower (trim_space selection) \<notin> {''n'', ''new''}"
      by blast
    then show ?thesis
    proof cases
      case 1
      then show ?thesis using r Inr by (auto simp: Let_def)
    next
      case 2
      obtain given rest where l: "readings = given # rest" using later by (cases readings) auto
      show ?thesis
      proof (cases "createFromPrompt app given (print namePrompt c1)")
        case (Pair ending c2)
        have "given = got \<Longrightarrow> \<exists>code. ending = Some code"
          using Pair "2.prems"(2) by (auto simp: createFromPrompt_def split: prod.splits)
        then show ?thesis
          using r Inr 2 l later Pair "2.IH"(1) [OF r [symmetric] Inr refl _ _ l Pair [symmetric]] "2.prems"(2)
          by (cases ending) (auto simp: Let_def)
      qed
    next
      case 3
      then show ?thesis using r Inr "2.IH"(2) [OF r [symmetric] Inr refl _ _ later "2.prems"(2)] by (auto simp: Let_def)
    qed
  qed
qed simp

subsection \<open>What the client attaches to\<close>

text \<open>
  An observer writes down what the client asks of the lifecycle and of tmux. The trace is judged by a monitor, which keeps the
  sessions that the last call returned and the tmux session whose attachment just ended without an error.
\<close>

datatype clientEvent =
    Offered "Session list"
  | Attached string bool
  | Bridged string

definition recorded :: "('a \<Rightarrow> clientEvent list) \<Rightarrow> ('w, 'e, 'a) prog \<Rightarrow> ('e \<Rightarrow> clientEvent list) \<Rightarrow>
    ('w \<times> clientEvent list, 'e, 'a) prog" where
  "recorded ok p failed = (\<lambda>(w, trace). case p w of
     (Inl e, w') \<Rightarrow> (Inl e, w', trace @ failed e) | (Inr x, w') \<Rightarrow> (Inr x, w', trace @ ok x))"

definition observed :: "('w, 'e) app \<Rightarrow> ('w \<times> clientEvent list, 'e) app" where
  "observed app = \<lparr>
     ac_List = recorded (\<lambda>sessions. [Offered sessions]) (ac_List app) (\<lambda>_. [Offered []]),
     ac_Create = (\<lambda>name. recorded (\<lambda>managed. [Offered [managed]]) (ac_Create app name) (\<lambda>_. [Offered []])),
     ac_EnsureBridge = (\<lambda>sid. recorded (\<lambda>_. [Bridged sid]) (ac_EnsureBridge app sid) (\<lambda>_. [Bridged sid])),
     ac_attach = (\<lambda>name. recorded (\<lambda>_. [Attached name True]) (ac_attach app name) (\<lambda>_. [Attached name False])),
     ac_refreshAgent = map_option (\<lambda>p. recorded (\<lambda>_. []) p (\<lambda>_. [])) (ac_refreshAgent app),
     ac_isPrint = ac_isPrint app, ac_errorText = ac_errorText app\<rparr>"

fun judge :: "(Session list \<times> string option) option \<Rightarrow> clientEvent \<Rightarrow> (Session list \<times> string option) option" where
  "judge None _ = None"
| "judge (Some _) (Offered sessions) = Some (sessions, None)"
| "judge (Some (sessions, _)) (Attached name ok) =
     (if \<exists>s\<in>set sessions. se_TmuxName s = name then Some (sessions, if ok then Some name else None) else None)"
| "judge (Some (sessions, left)) (Bridged sid) =
     (if \<exists>s\<in>set sessions. se_ID s = sid \<and> left = Some (se_TmuxName s) then Some (sessions, None) else None)"

definition monitor :: "clientEvent list \<Rightarrow> (Session list \<times> string option) option" where
  "monitor trace = foldl judge (Some ([], None)) trace"

lemma monitor_append: "monitor (trace @ [e]) = judge (monitor trace) e"
  by (simp add: monitor_def)

abbreviation verdict :: "('w \<times> clientEvent list) console \<Rightarrow> (Session list \<times> string option) option" where
  "verdict c \<equiv> monitor (snd (cn_world c))"

lemma verdict_print [simp]:
  "verdict (printLine l c) = verdict c" "verdict (printError l c) = verdict c" "verdict (print l c) = verdict c"
  by (simp_all add: printLine_def printError_def print_def)

lemma verdict_render [simp]: "verdict (renderSelector sessions c) = verdict c"
proof -
  have "verdict (fold (\<lambda>(index, managed). printLine (itoa (int index + 1) @ '') '' @ se_Name managed)) xs d) = verdict d"
    for xs :: "(nat \<times> Session) list" and d :: "('a \<times> clientEvent list) console"
    by (induction xs arbitrary: d) auto
  then show ?thesis by (simp add: renderSelector_def)
qed

lemma on_recorded:
  "onConsole (recorded ok p failed) c = (r, c') \<Longrightarrow>
     (\<exists>e. r = Inl e \<and> snd (cn_world c') = snd (cn_world c) @ failed e) \<or>
     (\<exists>x. r = Inr x \<and> snd (cn_world c') = snd (cn_world c) @ ok x)"
  by (cases "cn_world c") (auto simp: onConsole_def recorded_def split: prod.splits sum.splits)

lemma attachManaged_verdict:
  assumes "attachManaged (observed app) managed c = (r, c')" "verdict c = Some (sessions, left)" "managed \<in> set sessions"
  shows "verdict c' \<noteq> None"
proof -
  define c1 where "c1 = announce managed c"
  obtain ra c2 where a: "onConsole (ac_attach (observed app) (se_TmuxName managed)) c1 = (ra, c2)" by fastforce
  have v1: "verdict c1 = Some (sessions, left)" using assms(2) by (simp add: c1_def announce_def)
  have v2: "verdict c2 = Some (sessions, if isl ra then None else Some (se_TmuxName managed))"
    using a v1 assms(3) by (auto simp: observed_def monitor_append dest!: on_recorded)
  show ?thesis
  proof (cases ra)
    case (Inl e)
    then have "c' = c2"
      using assms(1) a by (simp add: attachManaged_def c1_def [symmetric] bindP_apply mapErr_def)
    then show ?thesis using v2 by simp
  next
    case (Inr u)
    obtain rb c3 where b: "onConsole (ac_EnsureBridge (observed app) (se_ID managed)) c2 = (rb, c3)" by fastforce
    have "c' = c3"
      using assms(1) a b Inr
      by (simp add: attachManaged_def c1_def [symmetric] bindP_apply mapErr_def split: sum.splits)
    moreover have "verdict c3 \<noteq> None"
      using b v2 assms(3) Inr by (auto simp: observed_def monitor_append dest!: on_recorded)
    ultimately show ?thesis by simp
  qed
qed

lemma attachSelected_verdict:
  "verdict c = Some (sessions, left) \<Longrightarrow> managed \<in> set sessions \<Longrightarrow> verdict (attachSelected (observed app) managed c) \<noteq> None"
  using attachManaged_verdict [of app managed c _ _ sessions left]
  by (auto simp: attachSelected_def split: prod.splits sum.splits)

lemma selectSession_verdict:
  "verdict c = Some (sessions, left) \<Longrightarrow> verdict (selectSession (observed app) sessions selection c) \<noteq> None"
  using attachSelected_verdict [of c sessions left "sessions ! nat (_ - 1)" app]
  by (auto simp: selectSession_def split: option.splits)

lemma create_verdict:
  assumes "onConsole (ac_Create (observed app) name) c = (r, c')" "verdict c \<noteq> None"
  shows "verdict c' = Some (case r of Inl _ \<Rightarrow> [] | Inr managed \<Rightarrow> [managed], None)"
  using assms by (auto simp: observed_def monitor_append dest!: on_recorded)

lemma refresh_verdict:
  assumes "refreshSessions (observed app) c = (sessions, c')" "verdict c \<noteq> None"
  shows "verdict c' = Some (sessions, None)"
  using assms by (auto simp: refreshSessions_def observed_def monitor_append split: prod.splits sum.splits dest!: on_recorded)

lemma endOfReading_verdict: "verdict (snd (endOfReading what err c)) = verdict c"
  by (simp add: endOfReading_def split: readError.split)

lemma createFromPrompt_verdict:
  assumes "createFromPrompt (observed app) got c = (r, c')" "verdict c \<noteq> None"
  shows "verdict c' \<noteq> None"
proof (cases "readLine got")
  case (Inl err)
  then show ?thesis
    using assms endOfReading_verdict [of "''session name''" err c] by (auto simp: createFromPrompt_def split: prod.splits)
next
  case (Inr name)
  obtain rc c1 where k: "onConsole (ac_Create (observed app) name) c = (rc, c1)" by fastforce
  have v: "verdict c1 = Some (case rc of Inl _ \<Rightarrow> [] | Inr managed \<Rightarrow> [managed], None)"
    using create_verdict [OF k assms(2)] .
  show ?thesis
    using assms Inr k v
    by (auto simp: createFromPrompt_def attachSelected_verdict [of c1 "[managed]" None managed for managed, simplified]
        split: if_splits sum.splits)
qed

lemma runSelector_verdict:
  "verdict c \<noteq> None \<Longrightarrow> verdict (snd (runSelector (observed app) readings c)) \<noteq> None"
proof (induction "observed app" readings c rule: runSelector.induct)
  case (1 c)
  obtain sessions c1 where "refreshSessions (observed app) c = (sessions, c1)" by fastforce
  with refresh_verdict [OF this 1] show ?case by simp
next
  case (2 got readings c)
  obtain sessions c1 where r: "refreshSessions (observed app) c = (sessions, c1)" by fastforce
  have v: "verdict c1 = Some (sessions, None)" using refresh_verdict [OF r "2.prems"] .
  show ?case
  proof (cases "readLine got")
    case (Inl err)
    then show ?thesis
      using r v endOfReading_verdict [of "''selection''" err c1] by (auto split: prod.splits)
  next
    case (Inr selection)
    show ?thesis
    proof (cases readings)
      case Nil
      then show ?thesis
        using r v Inr "2.hyps"(2) [OF r [symmetric] Inr refl] selectSession_verdict [OF v, of app selection]
        by (auto simp: Let_def)
    next
      case (Cons given rest)
      obtain rc c2 where p: "createFromPrompt (observed app) given (print namePrompt c1) = (rc, c2)" by fastforce
      have "verdict c2 \<noteq> None" using createFromPrompt_verdict [OF p] v by simp
      then show ?thesis
        using r v Inr Cons p "2.hyps"(1) [OF r [symmetric] Inr refl _ _ Cons p [symmetric]]
          "2.hyps"(2) [OF r [symmetric] Inr refl] selectSession_verdict [OF v, of app selection]
        by (cases rc) (auto simp: Let_def)
    qed
  qed
qed

lemma report_verdict: "verdict c \<noteq> None \<Longrightarrow> verdict (reportForwardedAgent (observed app) c) \<noteq> None"
  by (auto simp: reportForwardedAgent_def observed_def split: option.splits prod.splits dest!: on_recorded)

lemma app_run_verdict:
  assumes "verdict c0 \<noteq> None"
  shows "verdict (snd (app_run (observed app) opts readings c0)) \<noteq> None"
proof -
  define c where "c = reportForwardedAgent (observed app) c0"
  have v: "verdict c \<noteq> None" using report_verdict [OF assms] by (simp add: c_def)
  obtain rc c1 where k: "onConsole (ac_Create (observed app) (op_name opts)) c = (rc, c1)" by fastforce
  have v1: "verdict c1 = Some (case rc of Inl _ \<Rightarrow> [] | Inr managed \<Rightarrow> [managed], None)"
    using create_verdict [OF k v] .
  show ?thesis
    using v k v1 runSelector_verdict [OF v] attachManaged_verdict [of app _ c1 _ _ "[_]" None]
    by (auto simp: app_run_def c_def [symmetric] Let_def split: sum.splits prod.splits)
qed

text \<open>With \<^verbatim>\<open>--no-attach\<close> the client creates or selects the session, prints its ID and touches nothing else.\<close>

lemma app_run_script:
  assumes "op_name opts \<noteq> []" "\<not> op_attach opts" "verdict c0 \<noteq> None"
  shows "\<exists>sessions. snd (cn_world (snd (app_run (observed app) opts readings c0))) = snd (cn_world c0) @ [Offered sessions]"
proof -
  define c where "c = reportForwardedAgent (observed app) c0"
  have t: "snd (cn_world c) = snd (cn_world c0)"
    by (auto simp: c_def reportForwardedAgent_def observed_def printError_def split: option.splits prod.splits dest!: on_recorded)
  obtain rc c1 where k: "onConsole (ac_Create (observed app) (op_name opts)) c = (rc, c1)" by fastforce
  then have "snd (cn_world c1) = snd (cn_world c0) @ [Offered (case rc of Inl _ \<Rightarrow> [] | Inr managed \<Rightarrow> [managed])]"
    using t by (auto simp: observed_def dest!: on_recorded)
  then show ?thesis
    using assms k by (auto simp: app_run_def c_def [symmetric] Let_def printError_def printLine_def split: sum.splits)
qed

lemma app_run_code:
  "app_run app opts readings c = (Some code, c') \<Longrightarrow> code \<in> {exitSuccess, exitFailure, exitUsage, exitConflict}"
  using lifecycleExitCode_range runSelector_code [of app readings "reportForwardedAgent app c" code c']
  by (auto simp: app_run_def Let_def split: if_splits sum.splits prod.splits)

lemma runMain_code:
  "runMain iv arguments readings c = (Some code, c') \<Longrightarrow> code \<in> {exitSuccess, exitFailure, exitUsage, exitConflict}"
  using app_run_code by (fastforce simp: runMain_def Let_def split: if_splits sum.splits prod.splits)

text \<open>
  The client ends with its input: if any of the readings is the end of the input, an error, an interrupt or the end of its
  context, at the selection or at the prompt for a name, the run gives an exit status.
\<close>

lemma app_run_ends:
  "got \<in> set readings \<Longrightarrow> readLine got = Inl err \<Longrightarrow> \<exists>code. fst (app_run app opts readings c) = Some code"
  using runSelector_ends [of got readings err app] by (auto simp: app_run_def Let_def split: sum.split prod.split)

subsection \<open>What the options mean\<close>

lemma parseOptions_wf:
  assumes "parseOptions isPrint lookupEnv arguments = Inr opts"
  shows "if op_help opts \<or> op_version opts then op_name opts = [] \<and> \<not> op_attach opts \<and> \<not> (op_help opts \<and> op_version opts)
    else op_name opts \<noteq> [] \<or> op_attach opts"
  using assms by (auto simp: parseOptions_def Let_def result_simps split: if_splits)

lemma scanArguments_names:
  "scanArguments isPrint False arguments st = Inr (st\<lparr>sg_positional := sg_positional st @ arguments\<rparr>)"
  by (induction arguments arbitrary: st) (simp_all add: Let_def)

text \<open>After \<^verbatim>\<open>--\<close> every argument is a name, also one that looks like an option.\<close>

lemma parseOptions_names:
  "name \<noteq> [] \<Longrightarrow> flag = ''--attach'' \<or> flag = ''--no-attach'' \<Longrightarrow> parseOptions isPrint lookupEnv [flag, ''--'', name] =
     Inr \<lparr>op_attach = (flag = ''--attach''), op_name = name, op_help = False, op_version = False\<rparr>"
  by (auto simp: parseOptions_def Let_def)

subsection \<open>Properties\<close>

text \<open>
  C16. Whatever the user types and whatever fails, the client attaches the terminal only to the tmux session of a managed session
  that the last listing or creation of the lifecycle returned, and it asks for a bridge only for that session, after its
  attachment ended without an error.
\<close>

theorem client_attaches_managed:
  "monitor (snd (cn_world (snd (app_run (observed app) opts readings
     \<lparr>cn_world = (w, []), cn_output = [], cn_errors = []\<rparr>)))) \<noteq> None"
  by (rule app_run_verdict) (simp add: monitor_def)

end
