(* ===== verification/Spec2Isabelle.thy ===== *)
theory Spec2Isabelle
  imports Paste_Tokens Output_Activity Login_Limiter History_Ansi Identity Resize_Store Snapshot_Manager Proxy Auth Security Server_Config Web_Front
    Session_System Bridge_System History_Api_Safety Session_Api_Lifecycle Tmux_Binary Forwarded_Agent Session_Lock Certificates Startup
    Client_Command
begin

text \<open>
  Verification development for Control Agents, a Go program that keeps tmux sessions alive, shows them in a browser and lets
  one user paste, type, resize and read their history there.

  \<^bold>\<open>The program.\<close> The web server (\<^verbatim>\<open>cmd/server\<close>, \<^verbatim>\<open>internal/server\<close>) and the command line client (\<^verbatim>\<open>cmd/client\<close>) share the
  lifecycle of sessions (\<^verbatim>\<open>internal/session\<close>), which keeps one record file per session (\<^verbatim>\<open>internal/registry\<close>), runs tmux
  (\<^verbatim>\<open>internal/tmux\<close>) and starts one ttyd process per session as its terminal bridge. A request to the server passes the
  checks of origin, CSRF token and login (\<^verbatim>\<open>internal/auth\<close>), and reaches the handlers of sessions and of history, or the proxy
  (\<^verbatim>\<open>internal/proxy\<close>) to the socket of a bridge. The server holds in memory the opaque references of windows and panes, the
  viewers' sizes, the paste tokens, the failed logins, the output counters, the running captures and the history snapshots.

  \<^bold>\<open>How it is modelled.\<close> A struct is a record, an enumeration or a kind of error a datatype, a byte string a \<^typ>\<open>string\<close>, a Go map
  an association list with distinct keys (\<^theory_text>\<open>Prelude\<close>), and a function returning an error a sum. Code that acts on the world is a
  program, a function from the world to an outcome and the world after it, with the combinators of \<^theory_text>\<open>Prelude\<close>. The file system is a
  disk on which any call may fail (\<open>faults\<close>); processes, tmux, sockets and the clock are records of programs. A 64-bit
  counter that wraps is a word or is reduced by \<open>wrap64\<close>. The interleavings of concurrent requests are step systems or lists
  of events, or an argument that says what others do at the points where the code has given up its lock.

  \<^bold>\<open>Theories, in the order of the code.\<close>
  \<^item> Shared: \<^theory_text>\<open>Prelude\<close> (types, errors, programs, maps, step systems), \<^theory_text>\<open>Go_Strings\<close> and \<^theory_text>\<open>Go_Encoding\<close> (what the code uses of
    \<^verbatim>\<open>strings\<close>, \<^verbatim>\<open>strconv\<close>, \<^verbatim>\<open>unicode/utf8\<close>, base64 and JSON), \<^theory_text>\<open>Loops\<close> (loops that may not end), \<^theory_text>\<open>Http\<close>, \<^theory_text>\<open>Server_Types\<close>.
  \<^item> \<^theory_text>\<open>Tmux\<close>: \<^verbatim>\<open>tmux.go\<close>, every command with its targets and every parser; \<^theory_text>\<open>Tmux_Binary\<close>: running commands and finding the
    installed tmux.
  \<^item> \<^theory_text>\<open>Registry\<close>: \<^verbatim>\<open>registry.go\<close>. \<^theory_text>\<open>Session_Lifecycle\<close>: \<^verbatim>\<open>lifecycle.go\<close> and \<^verbatim>\<open>errors.go\<close> over any registry and tmux, in the locale
    \<open>session_environment\<close>; \<^theory_text>\<open>Session_System\<close>: the same on the models of both, in \<open>managed_host\<close>. \<^theory_text>\<open>Session_Lock\<close>: \<^verbatim>\<open>lock.go\<close>.
    \<^theory_text>\<open>Forwarded_Agent\<close>: \<^verbatim>\<open>agent.go\<close>.
  \<^item> \<^theory_text>\<open>Bridge_Commands\<close>, \<^theory_text>\<open>Bridge_Processes\<close>, \<^theory_text>\<open>Bridge_System\<close>: \<^verbatim>\<open>bridge.go\<close> and \<^verbatim>\<open>pidfd_linux.go\<close>: the command lines, the operations
    on processes, and the properties with an operating system that satisfies their assumptions.
  \<^item> \<^theory_text>\<open>Auth\<close>: \<^verbatim>\<open>auth.go\<close>. \<^theory_text>\<open>Security\<close>: \<^verbatim>\<open>security.go\<close>, \<^verbatim>\<open>gzip.go\<close>, the reason codes of \<^verbatim>\<open>audit.go\<close>. \<^theory_text>\<open>Login_Limiter\<close>: \<^verbatim>\<open>login_limiter.go\<close>.
    \<^theory_text>\<open>Server_Config\<close>: \<^verbatim>\<open>config.go\<close>. \<^theory_text>\<open>Proxy\<close>: \<^verbatim>\<open>proxy.go\<close>. \<^theory_text>\<open>Certificates\<close>: \<^verbatim>\<open>cert.go\<close>.
  \<^item> The stores of the server: \<^theory_text>\<open>Identity\<close> (\<^verbatim>\<open>identity.go\<close>), \<^theory_text>\<open>Resize_Store\<close>, \<^theory_text>\<open>Paste_Tokens\<close>, \<^theory_text>\<open>Output_Activity\<close>,
    \<^theory_text>\<open>Capture_Coordinator\<close> (\<^verbatim>\<open>history_capture_coordinator.go\<close>), \<^theory_text>\<open>Snapshot_Manager\<close>, and the parser \<^theory_text>\<open>History_Ansi\<close>.
  \<^item> \<^verbatim>\<open>server.go\<close>: \<^theory_text>\<open>Web_Front\<close> (what every request passes, login and logout), \<^theory_text>\<open>Request_Json\<close> (request bodies), \<^theory_text>\<open>Web_Lifecycle\<close>
    (the interface to the lifecycle), \<^theory_text>\<open>Session_Api\<close> (the handlers of sessions) with \<^theory_text>\<open>Session_Api_Safety\<close> and
    \<^theory_text>\<open>Session_Api_Lifecycle\<close>. \<^verbatim>\<open>history_api.go\<close>: \<^theory_text>\<open>History_Api\<close> with \<^theory_text>\<open>History_Api_Safety\<close>.
  \<^item> \<^theory_text>\<open>Startup\<close>: \<^verbatim>\<open>session.New\<close>, \<^verbatim>\<open>server.New\<close>, \<^verbatim>\<open>cmd/server/main.go\<close>, \<^verbatim>\<open>version.go\<close>. \<^theory_text>\<open>Client_Command\<close>: \<^verbatim>\<open>cmd/client/main.go\<close>.

  \<^bold>\<open>What is shown.\<close>
  \<^item> Requests: what changes the state of the server passed the checks; a paste that reaches tmux used up its token; the commands that the
    action of a request sends are aimed at the pane its reference resolved to before; a deletion is confirmed by name and pane, and
    forgets the entries of one session; a snapshot is read only by the login and viewer that made it, shows the pane it was taken from,
    and returns its slot. What is said to happen during a request is tied to its first and last state, by the exact chain of
    states or by an order of the worlds (\<open>timed_lifecycle\<close> in \<^theory_text>\<open>Web_Lifecycle\<close>, \<open>timed_api\<close> in \<^theory_text>\<open>History_Api_Safety\<close>).
  \<^item> Sessions: terminating and creating touch only the session they are for, and reconciling creates and ends none, as long as nothing else
    does meanwhile; while a process holds the lock of a session it cannot take it again; starting the server ends no session; signals go only to processes seen to run this session's bridge; operations
    on bridges return; the client attaches only to managed sessions.
  \<^item> Stores: writes of records are atomic; references are permanent and in bijection with panes; captures, snapshots, tokens and
    failed logins keep their limits in every interleaving; snapshots are read completely by their cursors.
  \<^item> Codecs: the parsers of terminal output, request bodies, command lines, cookies and frames against reference definitions
    or by round trips.
  \<^item> Files: the stable link of the agent never becomes part of a cycle; the certificate that is served loads with its key.
  \<^item> Faults of the code, as theorems on concrete inputs, are listed in the manifest of the development.

  \<^bold>\<open>Bounds and termination.\<close> No definition uses fuel. Loops over data are structural or have a measure. The loops that wait for another
  process (bridges, the lock, chains of links) are \<open>loopP\<close>, a partial function whose value is \<open>None\<close> when it does not end; that they
  return is proved, from a clock that advances, from a context that ends, or without assumption. The selector of the client
  runs over the list of its readings and is \<open>None\<close> while it waits for input.

  \<^bold>\<open>Not modelled.\<close> Logging (but for the entries of a start) and \<^verbatim>\<open>audit.go\<close>'s writing of entries, since no decision depends on them; texts
  of wrapped errors, abridged where nothing tests them; the gzip encoder, form parsing, embedded files and the cryptographic
  functions, which are arguments with their documented behaviour as named hypotheses; \<^verbatim>\<open>net/http\<close> as a server and as a
  reverse proxy beyond what the code adds to it; the goroutines that only carry a value to a channel; reading of memory shared
  without a lock, which the code does not do. Tests, scripts and the JavaScript of the browser are outside the development.
\<close>

end
